(* ===== verification/Carapace_Prelude.thy ===== *)
theory Carapace_Prelude
  imports Main "HOL-Library.AList" "HOL-Library.List_Lexorder" "HOL-Library.Char_ord"
    "HOL-Library.Product_Lexorder"
begin

text \<open>
  Shared vocabulary of the development.

  \<^item> Machine integers: \<open>u32\<close>, \<open>u64\<close> and \<open>usize\<close> are natural numbers below the width's
    bound and \<open>i64\<close> is an integer; every operation of the source that can leave the range
    is written with its wrap-around or saturation (\<open>u64_add\<close>, \<open>u64_saturating_add\<close>, ...).
  \<^item> Hash maps: a \<^verbatim>\<open>std::collections::HashMap\<close> is an association list with distinct keys.
    The order of the list stands for the unspecified iteration order of the map; theorems
    quantify over every list, hence over every order.
  \<^item> The environment of an operation (\<open>env\<close>): the clock reading \<^verbatim>\<open>now_ms()\<close>, the next value
    of \<^verbatim>\<open>Uuid::new_v4().to_string()\<close>, and what goes wrong, if anything, while the state file
    is written. One clock reading is used for one operation.
  \<^item> Interfaces: the locale \<open>keyed_store\<close> (what the components rely on from a map) and the
    locale \<open>invariant_machine\<close> (an operation that keeps an invariant, lifted to runs).
\<close>

subsection \<open>Rule collections\<close>

named_theorems hm_simps "look-up after an update of a hash map"
named_theorems wf_intros "operations keep the well-formedness of a hash map"

subsection \<open>Machine integers\<close>

type_synonym u32 = nat
type_synonym u64 = nat
type_synonym usize = nat
type_synonym i64 = int

definition u64_max :: u64 where
  "u64_max = 18446744073709551615"

definition u32_max :: u32 where
  "u32_max = 4294967295"

definition u64_add :: "u64 \<Rightarrow> u64 \<Rightarrow> u64" where
  "u64_add a b = (a + b) mod (u64_max + 1)"

definition u64_mul :: "u64 \<Rightarrow> u64 \<Rightarrow> u64" where
  "u64_mul a b = (a * b) mod (u64_max + 1)"

definition u64_saturating_add :: "u64 \<Rightarrow> u64 \<Rightarrow> u64" where
  "u64_saturating_add a b = min u64_max (a + b)"

definition u64_saturating_sub :: "u64 \<Rightarrow> u64 \<Rightarrow> u64" where
  "u64_saturating_sub a b = a - b"

definition u32_saturating_add :: "u32 \<Rightarrow> u32 \<Rightarrow> u32" where
  "u32_saturating_add a b = min u32_max (a + b)"

definition u32_add :: "u32 \<Rightarrow> u32 \<Rightarrow> u32" where
  "u32_add a b = (a + b) mod (u32_max + 1)"

text \<open>Two's complement: \<open>i64_wrap\<close> is the value a sum, a difference or a cast leaves in 64 bits.\<close>

definition i64_min :: i64 where "i64_min = - 9223372036854775808"
definition i64_max :: i64 where "i64_max = 9223372036854775807"

definition i64_wrap :: "int \<Rightarrow> i64" where
  "i64_wrap x = (x - i64_min) mod (i64_max - i64_min + 1) + i64_min"

definition i64_saturating_add :: "i64 \<Rightarrow> i64 \<Rightarrow> i64" where
  "i64_saturating_add a b = max i64_min (min i64_max (a + b))"

lemma i64_wrap_id: "i64_min \<le> x \<Longrightarrow> x \<le> i64_max \<Longrightarrow> i64_wrap x = x"
  by (simp add: i64_wrap_def i64_min_def i64_max_def)

lemma i64_wrap_range: "i64_min \<le> i64_wrap x" "i64_wrap x \<le> i64_max"
  by (simp_all add: i64_wrap_def i64_min_def i64_max_def add.commute)

lemma u64_add_le_max: "u64_add a b \<le> u64_max"
  by (simp add: u64_add_def less_Suc_eq_le [symmetric])

lemma u64_add_small: "a + b \<le> u64_max \<Longrightarrow> u64_add a b = a + b"
  by (simp add: u64_add_def)

lemma u64_saturating_add_le_max: "u64_saturating_add a b \<le> u64_max"
  by (simp add: u64_saturating_add_def)

lemma u64_saturating_add_ge: "a \<le> u64_max \<Longrightarrow> a \<le> u64_saturating_add a b"
  by (simp add: u64_saturating_add_def)

subsection \<open>Decimal output\<close>

fun string_of_nat :: "nat \<Rightarrow> string" where
  "string_of_nat n =
     (if n < 10 then [char_of (48 + n)]
      else string_of_nat (n div 10) @ [char_of (48 + n mod 10)])"

declare string_of_nat.simps [simp del]

subsection \<open>Text\<close>

text \<open>
  Strings are byte sequences; \<^verbatim>\<open>str::trim\<close> is modelled on ASCII white space (tab, line feed,
  vertical tab, form feed, carriage return, space).
\<close>

definition is_ascii_ws :: "char \<Rightarrow> bool" where
  "is_ascii_ws c \<longleftrightarrow> (of_char c :: nat) \<in> {9, 10, 11, 12, 13, 32}"

definition trim :: "string \<Rightarrow> string" where
  "trim s = rev (dropWhile is_ascii_ws (rev (dropWhile is_ascii_ws s)))"

subsection \<open>Constant-time comparison\<close>

text \<open>
  Secrets are compared by ORing the XOR of their bytes into an accumulator, which is zero at the end
  exactly when all pairs of bytes agree.
\<close>

lemma xor_zero_iff: "xor (a::nat) b = 0 \<longleftrightarrow> a = b"
proof
  assume "xor a b = 0"
  then have "xor (xor a b) b = xor 0 b" by simp
  then show "a = b" by (simp add: xor.assoc)
qed simp

lemma or_fold_zero:
  "fold (\<lambda>(x, y) result. or result (xor (of_char x) (of_char y))) ps (acc::nat) = 0 \<longleftrightarrow>
   acc = 0 \<and> (\<forall>(x, y) \<in> set ps. (x::char) = y)"
proof (induction ps arbitrary: acc)
  case Nil
  then show ?case by simp
next
  case (Cons p ps)
  obtain x y where p: "p = (x, y)" by (cases p)
  have "or acc (xor (of_char x) (of_char y)) = 0 \<longleftrightarrow> acc = 0 \<and> x = y"
    by (simp add: or_eq_0_iff xor_zero_iff)
  with Cons.IH show ?case by (auto simp: p)
qed

lemma zip_equal: "length a = length b \<Longrightarrow> (\<forall>(x, y) \<in> set (zip a b). x = y) \<longleftrightarrow> a = b"
  by (induction a b rule: list_induct2) auto

subsection \<open>Extremal elements\<close>

text \<open>
  \<^verbatim>\<open>Iterator::min_by\<close> and \<^verbatim>\<open>min_by_key\<close> return the first of several minimal elements,
  \<^verbatim>\<open>max_by_key\<close> the last of several maximal ones.
\<close>

fun first_min_by :: "('a \<Rightarrow> 'k::linorder) \<Rightarrow> 'a list \<Rightarrow> 'a option" where
  "first_min_by f [] = None"
| "first_min_by f (x # xs) =
     (case first_min_by f xs of
        None \<Rightarrow> Some x
      | Some y \<Rightarrow> if f x \<le> f y then Some x else Some y)"

fun last_max_by :: "('a \<Rightarrow> 'k::linorder) \<Rightarrow> 'a list \<Rightarrow> 'a option" where
  "last_max_by f [] = None"
| "last_max_by f (x # xs) =
     (case last_max_by f xs of
        None \<Rightarrow> Some x
      | Some y \<Rightarrow> if f x \<le> f y then Some y else Some x)"

lemma first_min_by_None [simp]: "first_min_by f xs = None \<longleftrightarrow> xs = []"
  by (cases xs) (auto split: option.splits)

lemma first_min_by_in: "first_min_by f xs = Some x \<Longrightarrow> x \<in> set xs"
  by (induction xs arbitrary: x) (auto split: option.splits if_splits)

lemma first_min_by_le: "first_min_by f xs = Some x \<Longrightarrow> y \<in> set xs \<Longrightarrow> f x \<le> f y"
  by (induction xs arbitrary: x) (fastforce split: option.splits if_splits)+

lemma first_min_by_Some: "xs \<noteq> [] \<Longrightarrow> \<exists>x. first_min_by f xs = Some x"
  using first_min_by_None by (metis not_Some_eq)

lemma last_max_by_None [simp]: "last_max_by f xs = None \<longleftrightarrow> xs = []"
  by (cases xs) (auto split: option.splits)

lemma last_max_by_in: "last_max_by f xs = Some x \<Longrightarrow> x \<in> set xs"
  by (induction xs arbitrary: x) (auto split: option.splits if_splits)

lemma last_max_by_ge: "last_max_by f xs = Some x \<Longrightarrow> y \<in> set xs \<Longrightarrow> f y \<le> f x"
  by (induction xs arbitrary: x) (fastforce split: option.splits if_splits)+

subsection \<open>Hash maps\<close>

type_synonym ('k, 'v) hmap = "('k \<times> 'v) list"

definition hm_get :: "('k, 'v) hmap \<Rightarrow> 'k \<Rightarrow> 'v option" where
  "hm_get m k = map_of m k"

definition hm_insert :: "'k \<Rightarrow> 'v \<Rightarrow> ('k, 'v) hmap \<Rightarrow> ('k, 'v) hmap" where
  "hm_insert k v m = AList.update k v m"

definition hm_remove :: "'k \<Rightarrow> ('k, 'v) hmap \<Rightarrow> ('k, 'v) hmap" where
  "hm_remove k m = AList.delete k m"

definition hm_modify :: "'k \<Rightarrow> ('v \<Rightarrow> 'v) \<Rightarrow> ('k, 'v) hmap \<Rightarrow> ('k, 'v) hmap" where
  "hm_modify k f m = AList.map_entry k f m"

definition hm_retain :: "('k \<Rightarrow> 'v \<Rightarrow> bool) \<Rightarrow> ('k, 'v) hmap \<Rightarrow> ('k, 'v) hmap" where
  "hm_retain P m = filter (\<lambda>(k, v). P k v) m"

definition hm_map_values :: "('v \<Rightarrow> 'v) \<Rightarrow> ('k, 'v) hmap \<Rightarrow> ('k, 'v) hmap" where
  "hm_map_values f m = map (\<lambda>(k, v). (k, f v)) m"

definition hm_values :: "('k, 'v) hmap \<Rightarrow> 'v list" where
  "hm_values m = map snd m"

definition hm_contains :: "('k, 'v) hmap \<Rightarrow> 'k \<Rightarrow> bool" where
  "hm_contains m k = (hm_get m k \<noteq> None)"

definition hm_wf :: "('k, 'v) hmap \<Rightarrow> bool" where
  "hm_wf m = distinct (map fst m)"

lemma map_of_filter_distinct:
  "distinct (map fst m) \<Longrightarrow>
   map_of (filter (\<lambda>(k, v). P k v) m) k = Option.bind (map_of m k) (\<lambda>v. if P k v then Some v else None)"
proof (induction m)
  case Nil
  then show ?case by simp
next
  case (Cons a m)
  have "map_of m (fst a) = None"
    using Cons.prems by (simp add: map_of_eq_None_iff)
  with Cons show ?case by (cases a) auto
qed

lemma map_of_map_values: "map_of (map (\<lambda>(k, v). (k, f v)) m) k = map_option f (map_of m k)"
  by (induction m) auto

lemma hm_values_iff: "hm_wf m \<Longrightarrow> v \<in> set (hm_values m) \<longleftrightarrow> (\<exists>k. hm_get m k = Some v)"
  by (force simp: hm_wf_def hm_values_def hm_get_def)

lemma hm_get_in: "hm_get m k = Some v \<Longrightarrow> (k, v) \<in> set m"
  by (simp add: hm_get_def map_of_SomeD)

lemma hm_get_iff: "hm_wf m \<Longrightarrow> hm_get m k = Some v \<longleftrightarrow> (k, v) \<in> set m"
  by (simp add: hm_wf_def hm_get_def)

lemma hm_get_value: "hm_get m k = Some v \<Longrightarrow> v \<in> set (hm_values m)"
  by (force simp: hm_values_def dest: hm_get_in)

definition hm_all :: "('k \<Rightarrow> 'v \<Rightarrow> bool) \<Rightarrow> ('k, 'v) hmap \<Rightarrow> bool" where
  "hm_all P m = list_all (\<lambda>(k, v). P k v) m"

subsection \<open>The interface of a keyed store\<close>

text \<open>
  What the registries rely on from a map: the value under a key after each operation, and
  that the operations keep the representation well-formed. \<open>allv P m\<close> says that every
  entry satisfies \<open>P\<close>; the lemmas of the locale say how each operation keeps such a
  property, which is how the registries' invariants are carried through their operations.
\<close>

locale keyed_store =
  fixes get :: "'m \<Rightarrow> 'k \<Rightarrow> 'v option"
    and ins :: "'k \<Rightarrow> 'v \<Rightarrow> 'm \<Rightarrow> 'm"
    and rem :: "'k \<Rightarrow> 'm \<Rightarrow> 'm"
    and modi :: "'k \<Rightarrow> ('v \<Rightarrow> 'v) \<Rightarrow> 'm \<Rightarrow> 'm"
    and ret :: "('k \<Rightarrow> 'v \<Rightarrow> bool) \<Rightarrow> 'm \<Rightarrow> 'm"
    and mapv :: "('v \<Rightarrow> 'v) \<Rightarrow> 'm \<Rightarrow> 'm"
    and allv :: "('k \<Rightarrow> 'v \<Rightarrow> bool) \<Rightarrow> 'm \<Rightarrow> bool"
    and wf :: "'m \<Rightarrow> bool"
  assumes get_ins: "get (ins k v m) k' = (if k' = k then Some v else get m k')"
    and get_rem: "get (rem k m) k' = (if k' = k then None else get m k')"
    and get_modi: "get (modi k f m) k' = (if k' = k then map_option f (get m k) else get m k')"
    and get_ret: "wf m \<Longrightarrow>
          get (ret P m) k' = Option.bind (get m k') (\<lambda>v. if P k' v then Some v else None)"
    and get_mapv: "get (mapv f m) k' = map_option f (get m k')"
    and allv_iff: "wf m \<Longrightarrow> allv P m \<longleftrightarrow> (\<forall>k v. get m k = Some v \<longrightarrow> P k v)"
    and wf_ins: "wf m \<Longrightarrow> wf (ins k v m)"
    and wf_rem: "wf m \<Longrightarrow> wf (rem k m)"
    and wf_modi: "wf m \<Longrightarrow> wf (modi k f m)"
    and wf_ret: "wf m \<Longrightarrow> wf (ret P m)"
    and wf_mapv: "wf m \<Longrightarrow> wf (mapv f m)"
begin

lemma allv_get: "wf m \<Longrightarrow> allv P m \<Longrightarrow> get m k = Some v \<Longrightarrow> P k v"
  by (simp add: allv_iff)

lemma allv_ins: "wf m \<Longrightarrow> allv P m \<Longrightarrow> P k v \<Longrightarrow> allv P (ins k v m)"
  by (simp add: allv_iff wf_ins get_ins)

lemma allv_rem: "wf m \<Longrightarrow> allv P m \<Longrightarrow> allv P (rem k m)"
  by (simp add: allv_iff wf_rem get_rem)

lemma allv_modi:
  "wf m \<Longrightarrow> allv P m \<Longrightarrow> (\<And>v. get m k = Some v \<Longrightarrow> P k (f v)) \<Longrightarrow> allv P (modi k f m)"
  by (auto simp: allv_iff wf_modi get_modi)

lemma allv_ret:
  "wf m \<Longrightarrow> (\<And>k v. get m k = Some v \<Longrightarrow> R k v \<Longrightarrow> P k v) \<Longrightarrow> allv P (ret R m)"
  by (auto simp: allv_iff wf_ret get_ret split: bind_splits if_splits)

lemma allv_ret_weaken: "wf m \<Longrightarrow> allv P m \<Longrightarrow> allv P (ret R m)"
  by (rule allv_ret) (simp_all add: allv_iff)

lemma allv_mapv:
  "wf m \<Longrightarrow> (\<And>k v. get m k = Some v \<Longrightarrow> P k (f v)) \<Longrightarrow> allv P (mapv f m)"
  by (auto simp: allv_iff wf_mapv get_mapv)

lemma allv_mono:
  "wf m \<Longrightarrow> allv P m \<Longrightarrow> (\<And>k v. get m k = Some v \<Longrightarrow> P k v \<Longrightarrow> Q k v) \<Longrightarrow> allv Q m"
  by (simp add: allv_iff)

end

lemma distinct_map_fst_filter: "distinct (map fst m) \<Longrightarrow> distinct (map fst (filter P m))"
  by (induction m) auto

interpretation hm: keyed_store hm_get hm_insert hm_remove hm_modify hm_retain hm_map_values
    hm_all hm_wf
proof (unfold_locales, goal_cases)
  case (1 k v m k') then show ?case by (simp add: hm_get_def hm_insert_def update_conv)
next
  case (2 k m k') then show ?case by (simp add: hm_get_def hm_remove_def delete_conv)
next
  case (3 k f m k') then show ?case 
    by (simp add: hm_get_def hm_modify_def map_of_map_entry split: option.split)
next
  case (4 m P k') then show ?case
    by (simp add: hm_get_def hm_retain_def hm_wf_def map_of_filter_distinct)
next
  case (5 f m k') then show ?case by (simp add: hm_get_def hm_map_values_def map_of_map_values)
next
  case (6 m P) then show ?case
    by (auto simp: hm_all_def list_all_iff hm_get_iff)
next
  case (7 m k v) then show ?case by (simp add: hm_wf_def hm_insert_def distinct_update)
next
  case (8 m k) then show ?case by (simp add: hm_wf_def hm_remove_def distinct_delete)
next
  case (9 m k f) then show ?case by (simp add: hm_wf_def hm_modify_def distinct_map_entry)
next
  case (10 m P) then show ?case by (simp add: hm_wf_def hm_retain_def distinct_map_fst_filter)
next
  case (11 m f) then show ?case by (simp add: hm_wf_def hm_map_values_def comp_def case_prod_beta)
qed

lemmas hm_get_simps = hm.get_ins hm.get_rem hm.get_modi hm.get_ret hm.get_mapv
lemmas hm_wf_rules = hm.wf_ins hm.wf_rem hm.wf_modi hm.wf_ret hm.wf_mapv
declare hm_get_simps [hm_simps] and hm_wf_rules [wf_intros]

lemma hm_empty [simp]: "hm_get [] k = None" "hm_wf []" "hm_values [] = []" "hm_all P []"
  by (simp_all add: hm_get_def hm_wf_def hm_values_def hm_all_def)

lemma hm_contains_insert [simp]: "hm_contains (hm_insert k v m) k' \<longleftrightarrow> k' = k \<or> hm_contains m k'"
  by (simp add: hm_contains_def hm_simps)

lemma hm_contains_modify [simp]: "hm_contains (hm_modify k f m) k' \<longleftrightarrow> hm_contains m k'"
  by (simp add: hm_contains_def hm_simps)

lemma hm_contains_remove [simp]: "hm_contains (hm_remove k m) k' \<longleftrightarrow> k' \<noteq> k \<and> hm_contains m k'"
  by (simp add: hm_contains_def hm_simps)

lemma length_hm_insert: "length (hm_insert k v m) = (if hm_contains m k then length m else Suc (length m))"
  by (induction m) (auto simp: hm_insert_def hm_contains_def hm_get_def)

lemma length_hm_insert_le: "length (hm_insert k v m) \<le> Suc (length m)"
  by (simp add: length_hm_insert)

lemma length_hm_remove_le: "length (hm_remove k m) \<le> length m"
  by (simp add: hm_remove_def length_delete_le)

lemma length_hm_remove_less: "hm_contains m k \<Longrightarrow> length (hm_remove k m) < length m"
proof (induction m)
  case Nil
  then show ?case by (simp add: hm_contains_def)
next
  case (Cons a m)
  then show ?case using length_delete_le [of k m]
    by (cases a) (auto simp: hm_remove_def hm_contains_def hm_get_def less_Suc_eq_le split: if_splits)
qed

lemma length_hm_retain_le: "length (hm_retain P m) \<le> length m"
  by (simp add: hm_retain_def)

lemma length_hm_modify [simp]: "length (hm_modify k f m) = length m"
  by (induction m) (auto simp: hm_modify_def)

lemma length_hm_map_values [simp]: "length (hm_map_values f m) = length m"
  by (simp add: hm_map_values_def)

text \<open>How many values satisfy a predicate (the code's \<^verbatim>\<open>values().filter(..).count()\<close>).\<close>

definition hm_count :: "('v \<Rightarrow> bool) \<Rightarrow> ('k, 'v) hmap \<Rightarrow> nat" where
  "hm_count P m = length (filter P (hm_values m))"

lemma hm_count_insert_le: "hm_count P (hm_insert k v m) \<le> Suc (hm_count P m)"
  by (induction m) (auto simp: hm_count_def hm_insert_def hm_values_def)

lemma hm_count_modify_le: "(\<And>v. P (f v) \<Longrightarrow> P v) \<Longrightarrow> hm_count P (hm_modify k f m) \<le> hm_count P m"
  by (induction m) (auto simp: hm_count_def hm_modify_def hm_values_def)

lemma hm_count_map_values_le: "(\<And>v. P (f v) \<Longrightarrow> P v) \<Longrightarrow> hm_count P (hm_map_values f m) \<le> hm_count P m"
  by (induction m) (auto simp: hm_count_def hm_map_values_def hm_values_def)

lemma hm_count_retain_le: "hm_count P (hm_retain R m) \<le> hm_count P m"
  by (induction m) (auto simp: hm_count_def hm_retain_def hm_values_def)

lemmas hm_count_le = hm_count_modify_le hm_count_map_values_le hm_count_retain_le

text \<open>The entry a registry evicts: the key of a minimal entry is a key of the map.\<close>

lemma first_min_by_key_contains:
  "hm_wf m \<Longrightarrow> first_min_by f m = Some (k, v) \<Longrightarrow> hm_get m k = Some v"
  by (auto simp: hm_get_iff dest: first_min_by_in)

subsection \<open>Invariants over runs\<close>

text \<open>
  A run is a list of operations applied in order. \<open>run_ok\<close> says that each operation meets
  its side condition (a fresh identifier, a clock that has not gone backwards, ...) in the
  state it is applied to.
\<close>

fun run_ok :: "('op \<Rightarrow> 's \<Rightarrow> bool) \<Rightarrow> ('op \<Rightarrow> 's \<Rightarrow> 's) \<Rightarrow> 'op list \<Rightarrow> 's \<Rightarrow> bool" where
  "run_ok ok step [] s = True"
| "run_ok ok step (a # as) s = (ok a s \<and> run_ok ok step as (step a s))"

lemma run_ok_True [simp]: "run_ok (\<lambda>_ _. True) step as s"
  by (induction as arbitrary: s) simp_all

locale invariant_machine =
  fixes step :: "'op \<Rightarrow> 's \<Rightarrow> 's"
    and inv :: "'s \<Rightarrow> bool"
    and ok :: "'op \<Rightarrow> 's \<Rightarrow> bool"
  assumes step_inv: "inv s \<Longrightarrow> ok a s \<Longrightarrow> inv (step a s)"
begin

lemma run_inv: "inv s \<Longrightarrow> run_ok ok step as s \<Longrightarrow> inv (fold step as s)"
  by (induction as arbitrary: s) (auto intro: step_inv)

end

text \<open>
  A registry of credentials: an operation may mint a credential, and a credential that is
  dead (revoked, removed) stays dead under every operation that does not mint it again.
\<close>

locale credential_machine = invariant_machine step inv ok
  for step :: "'op \<Rightarrow> 's \<Rightarrow> 's" and inv :: "'s \<Rightarrow> bool" and ok :: "'op \<Rightarrow> 's \<Rightarrow> bool" +
  fixes mints :: "'op \<Rightarrow> 'h \<Rightarrow> bool"
    and dead :: "'h \<Rightarrow> 's \<Rightarrow> bool"
    and accepts :: "'s \<Rightarrow> 'h \<Rightarrow> bool"
  assumes dead_step: "inv s \<Longrightarrow> ok a s \<Longrightarrow> dead h s \<Longrightarrow> \<not> mints a h \<Longrightarrow> dead h (step a s)"
    and dead_rejected: "inv s \<Longrightarrow> dead h s \<Longrightarrow> \<not> accepts s h"
begin

lemma run_dead:
  "inv s \<Longrightarrow> run_ok ok step as s \<Longrightarrow> dead h s \<Longrightarrow> list_all (\<lambda>a. \<not> mints a h) as \<Longrightarrow>
   dead h (fold step as s)"
  by (induction as arbitrary: s) (auto intro: step_inv dead_step)

lemma run_rejected:
  assumes "inv s" "run_ok ok step as s" "dead h s" "list_all (\<lambda>a. \<not> mints a h) as"
  shows "\<not> accepts (fold step as s) h"
  using run_inv [OF assms(1,2)] run_dead [OF assms] by (rule dead_rejected)

end

subsection \<open>Writing a state file\<close>

text \<open>
  The registries and queues write their state with one discipline: serialise, create the
  parent directory, create a fresh temporary file, write it, sync it, rename it over the
  state file, sync the parent directory. \<open>save_fault\<close> names the step that fails, with the
  error's text. The rename is the commit point: only a failure after it leaves the new
  contents in place although an error is reported.
\<close>

datatype save_fault =
    Fault_serialize string
  | Fault_mkdir string
  | Fault_create_tmp string
  | Fault_write string
  | Fault_sync string
  | Fault_rename string
  | Fault_parent_sync string

fun save_commits :: "save_fault option \<Rightarrow> bool" where
  "save_commits None = True"
| "save_commits (Some (Fault_parent_sync _)) = True"
| "save_commits (Some _) = False"

definition write_file :: "save_fault option \<Rightarrow> 'a \<Rightarrow> 'a option \<Rightarrow> 'a option" where
  "write_file f new old = (if save_commits f then Some new else old)"

record env =
  env_now :: u64
  env_uuid :: string
  env_fault :: "save_fault option"

text \<open>Unfolding the map operations on concrete lists, for the witnesses.\<close>

lemmas hm_eval = hm_get_def hm_insert_def hm_remove_def hm_modify_def hm_retain_def
  hm_map_values_def hm_values_def hm_contains_def hm_wf_def hm_all_def hm_count_def

text \<open>A concrete environment for the witnesses: nothing fails.\<close>

definition ex_env :: "u64 \<Rightarrow> string \<Rightarrow> env" where
  "ex_env t u = \<lparr>env_now = t, env_uuid = u, env_fault = None\<rparr>"

definition ex_hash :: "string \<Rightarrow> string" where
  "ex_hash s = CHR ''#'' # s"

lemma write_file_atomic: "write_file f new old = old \<or> write_file f new old = Some new"
  by (simp add: write_file_def)

end
