(* ===== verification/Pairing_Tables.thy ===== *)
theory Pairing_Tables
  imports Carapace_Prelude
begin

text \<open>
  What the node registry and the device registry have in common: a table of pairing requests,
  a table of paired peers with a size limit, and a table of tokens keyed by their hash. The
  invariants are stated over the accessors of the two registries' own records; the locale
  \<open>token_table\<close> is the contract of their token records.
\<close>

subsection \<open>Request tables\<close>

text \<open>
  Keyed by request id, at most one pending request per peer, at most \<open>limit\<close> pending ones.
\<close>

definition requests_wf ::
    "('r \<Rightarrow> string) \<Rightarrow> ('r \<Rightarrow> string) \<Rightarrow> ('r \<Rightarrow> bool) \<Rightarrow> nat \<Rightarrow> (string, 'r) hmap \<Rightarrow> bool" where
  "requests_wf rid peer pending limit m \<longleftrightarrow> hm_wf m \<and> hm_all (\<lambda>k r. rid r = k) m \<and>
     hm_all (\<lambda>k r. hm_all (\<lambda>k' r'. pending r \<and> pending r' \<and> peer r = peer r' \<longrightarrow> k = k') m) m \<and>
     hm_count pending m \<le> limit"

lemma requests_wf_iff:
  "requests_wf rid peer pending limit m \<longleftrightarrow> hm_wf m \<and>
     (\<forall>k r. hm_get m k = Some r \<longrightarrow> rid r = k) \<and>
     (\<forall>k r k' r'. hm_get m k = Some r \<longrightarrow> hm_get m k' = Some r' \<longrightarrow> pending r \<longrightarrow> pending r' \<longrightarrow>
        peer r = peer r' \<longrightarrow> k = k') \<and>
     hm_count pending m \<le> limit"
  unfolding requests_wf_def by (auto simp: hm.allv_iff)

lemma requests_wf_empty [simp]: "requests_wf rid peer pending limit []"
  by (simp add: requests_wf_def hm_count_def)

lemma requests_wf_map_values:
  assumes "requests_wf rid peer pending limit m"
    and id: "\<And>r. rid (f r) = rid r"
    and pend: "\<And>r. pending (f r) \<Longrightarrow> f r = r"
  shows "requests_wf rid peer pending limit (hm_map_values f m)"
proof -
  have "hm_count pending (hm_map_values f m) \<le> hm_count pending m"
    by (rule hm_count_map_values_le) (use pend in metis)
  with assms(1) show ?thesis
    unfolding requests_wf_iff
    by (auto simp: hm_simps wf_intros id intro: order_trans) (metis pend)
qed

lemma requests_wf_modify:
  assumes "requests_wf rid peer pending limit m"
    and id: "\<And>r. rid (f r) = rid r"
    and pend: "\<And>r. \<not> pending (f r)"
  shows "requests_wf rid peer pending limit (hm_modify k f m)"
proof -
  have "hm_count pending (hm_modify k f m) \<le> hm_count pending m"
    by (rule hm_count_modify_le) (use pend in metis)
  with assms(1) show ?thesis
    unfolding requests_wf_iff
    by (auto simp: hm_simps wf_intros id pend split: if_splits intro: order_trans)
qed

lemma requests_wf_retain:
  "requests_wf rid peer pending limit m \<Longrightarrow> requests_wf rid peer pending limit (hm_retain P m)"
  unfolding requests_wf_iff
  by (auto simp: hm_simps wf_intros split: bind_splits if_splits
      intro: order_trans [OF hm_count_retain_le])

text \<open>A new request is inserted when the search for a pending one of the same peer failed.\<close>

lemma requests_wf_insert:
  assumes wf: "requests_wf rid peer pending limit m" and "rid r = k"
    and none: "find (\<lambda>r'. peer r' = peer r \<and> pending r') (hm_values m) = None"
    and "hm_count pending m < limit"
  shows "requests_wf rid peer pending limit (hm_insert k r m)"
proof -
  have "hm_count pending (hm_insert k r m) \<le> limit"
    using hm_count_insert_le [of pending k r m] assms(4) by linarith
  moreover have "peer r' \<noteq> peer r" if "hm_get m k' = Some r'" "pending r'" for k' r'
    using none that by (auto simp: find_None_iff dest: hm_get_value)
  ultimately show ?thesis
    using assms(1,2) unfolding requests_wf_iff
    by (auto simp: hm_simps wf_intros split: if_splits) metis+
qed

subsection \<open>Tables of paired peers\<close>

definition peers_wf :: "('p \<Rightarrow> string) \<Rightarrow> nat \<Rightarrow> (string, 'p) hmap \<Rightarrow> bool" where
  "peers_wf pid limit m \<longleftrightarrow> hm_wf m \<and> hm_all (\<lambda>k p. pid p = k) m \<and> length m \<le> limit"

lemma peers_wf_iff:
  "peers_wf pid limit m \<longleftrightarrow> hm_wf m \<and> (\<forall>k p. hm_get m k = Some p \<longrightarrow> pid p = k) \<and> length m \<le> limit"
  unfolding peers_wf_def by (auto simp: hm.allv_iff)

lemma peers_wf_empty [simp]: "peers_wf pid limit []"
  by (simp add: peers_wf_def)

lemma peers_wf_insert:
  "peers_wf pid limit m \<Longrightarrow> pid p = k \<Longrightarrow> length m < limit \<Longrightarrow> peers_wf pid limit (hm_insert k p m)"
  unfolding peers_wf_iff by (auto simp: hm_simps wf_intros length_hm_insert split: if_splits)

lemma peers_wf_remove: "peers_wf pid limit m \<Longrightarrow> peers_wf pid limit (hm_remove k m)"
  unfolding peers_wf_iff
  by (auto simp: hm_simps wf_intros split: if_splits intro: order_trans [OF length_hm_remove_le])

lemma peers_wf_modify:
  "peers_wf pid limit m \<Longrightarrow> (\<And>p. pid (f p) = pid p) \<Longrightarrow> peers_wf pid limit (hm_modify k f m)"
  unfolding peers_wf_iff by (auto simp: hm_simps wf_intros split: if_splits)

text \<open>Evicting the peer chosen by \<open>first_min_by\<close> makes room in a non-empty table.\<close>

lemma evicted_peer_contained:
  "peers_wf pid limit m \<Longrightarrow> first_min_by f (hm_values m) = Some p \<Longrightarrow> hm_get m (pid p) = Some p"
  by (auto simp: peers_wf_iff hm_values_iff dest!: first_min_by_in)

lemma evict_peer_makes_room:
  "peers_wf pid limit m \<Longrightarrow> first_min_by f (hm_values m) = Some p \<Longrightarrow>
   length (hm_remove (pid p) m) < limit"
  using length_hm_remove_less [of m "pid p"] evicted_peer_contained [of pid limit m f p]
  by (auto simp: peers_wf_def hm_contains_def)

subsection \<open>Token tables\<close>

definition tokens_wf ::
    "('t \<Rightarrow> string) \<Rightarrow> ('t \<Rightarrow> string) \<Rightarrow> ('t \<Rightarrow> bool) \<Rightarrow> ('t \<Rightarrow> bool) \<Rightarrow> (string, 'p) hmap
      \<Rightarrow> (string, 't) hmap \<Rightarrow> bool" where
  "tokens_wf hash owner revoked secret_free peers m \<longleftrightarrow> hm_wf m \<and>
     hm_all (\<lambda>k t. hash t = k \<and> secret_free t \<and> (\<not> revoked t \<longrightarrow> hm_contains peers (owner t))) m"

text \<open>A token hash is dead when no entry is stored under it, or a revoked one.\<close>

definition tokens_dead :: "('t \<Rightarrow> bool) \<Rightarrow> string \<Rightarrow> (string, 't) hmap \<Rightarrow> bool" where
  "tokens_dead revoked h m = (case hm_get m h of None \<Rightarrow> True | Some t \<Rightarrow> revoked t)"

locale token_table =
  fixes hash :: "'t \<Rightarrow> string"
    and owner :: "'t \<Rightarrow> string"
    and revoked :: "'t \<Rightarrow> bool"
    and secret_free :: "'t \<Rightarrow> bool"
    and revoke :: "'t \<Rightarrow> 't"
  assumes hash_revoke: "hash (revoke t) = hash t"
    and owner_revoke: "owner (revoke t) = owner t"
    and secret_free_revoke: "secret_free (revoke t) = secret_free t"
    and revoked_revoke: "revoked (revoke t)"
begin

abbreviation twf :: "(string, 'p) hmap \<Rightarrow> (string, 't) hmap \<Rightarrow> bool" where
  "twf \<equiv> tokens_wf hash owner revoked secret_free"

lemma twf_iff:
  "twf peers m \<longleftrightarrow> hm_wf m \<and>
     (\<forall>k t. hm_get m k = Some t \<longrightarrow> hash t = k \<and> secret_free t \<and>
       (\<not> revoked t \<longrightarrow> hm_contains peers (owner t)))"
  unfolding tokens_wf_def by (auto simp: hm.allv_iff)

lemma revoke_fixed: "t = revoke t \<Longrightarrow> revoked t"
  by (metis revoked_revoke)

lemma wf_empty: "twf peers []"
  by (simp add: tokens_wf_def)

lemma wf_insert:
  "twf peers m \<Longrightarrow> hash t = k \<Longrightarrow> secret_free t \<Longrightarrow> hm_contains peers (owner t) \<Longrightarrow>
   twf peers (hm_insert k t m)"
  unfolding twf_iff by (auto simp: hm_simps wf_intros split: if_splits)

lemma wf_remove: "twf peers m \<Longrightarrow> twf peers (hm_remove k m)"
  unfolding twf_iff by (auto simp: hm_simps wf_intros split: if_splits)

lemma wf_retain: "twf peers m \<Longrightarrow> twf peers (hm_retain P m)"
  unfolding twf_iff by (auto simp: hm_simps wf_intros split: bind_splits if_splits)

lemma wf_revoke: "twf peers m \<Longrightarrow> twf peers (hm_map_values (\<lambda>t. if P t then revoke t else t) m)"
  unfolding twf_iff
  by (auto simp: hm_simps wf_intros hash_revoke owner_revoke secret_free_revoke revoked_revoke)

lemma wf_peers_mono:
  "twf peers m \<Longrightarrow> (\<And>n. hm_contains peers n \<Longrightarrow> hm_contains peers' n) \<Longrightarrow> twf peers' m"
  unfolding twf_iff by blast

lemma wf_unpair_retain:
  "twf peers m \<Longrightarrow> twf (hm_remove n peers) (hm_retain (\<lambda>_ t. owner t \<noteq> n) m)"
  unfolding twf_iff
  by (auto simp: hm_simps wf_intros hm_contains_def split: bind_splits if_splits)

lemma wf_unpair_revoke:
  "twf peers m \<Longrightarrow>
   twf (hm_remove n peers) (hm_map_values (\<lambda>t. if owner t = n then revoke t else t) m)"
  unfolding twf_iff
  by (auto simp: hm_simps wf_intros hash_revoke owner_revoke secret_free_revoke revoked_revoke
      split: if_splits dest: revoke_fixed)

lemmas wf_rules = wf_insert wf_remove wf_retain wf_revoke wf_unpair_retain wf_unpair_revoke

lemma wf_hm_wf: "twf peers m \<Longrightarrow> hm_wf m"
  by (simp add: tokens_wf_def)

lemma dead_retain: "hm_wf m \<Longrightarrow> tokens_dead revoked h m \<Longrightarrow> tokens_dead revoked h (hm_retain P m)"
  by (auto simp: tokens_dead_def hm_simps split: option.splits bind_splits if_splits)

lemma dead_remove: "tokens_dead revoked h m \<Longrightarrow> tokens_dead revoked h (hm_remove k m)"
  by (auto simp: tokens_dead_def hm_simps split: option.splits)

lemma dead_insert:
  "tokens_dead revoked h m \<Longrightarrow> h \<noteq> k \<Longrightarrow> tokens_dead revoked h (hm_insert k t m)"
  by (auto simp: tokens_dead_def hm_simps split: option.splits)

lemma dead_revoke:
  "tokens_dead revoked h m \<Longrightarrow>
   tokens_dead revoked h (hm_map_values (\<lambda>t. if P t then revoke t else t) m)"
  by (auto simp: tokens_dead_def hm_simps revoked_revoke split: option.splits)

lemmas dead_rules = dead_retain dead_remove dead_insert dead_revoke

lemma dead_after_revoke:
  "hm_get m h = Some t \<Longrightarrow> P t \<Longrightarrow>
   tokens_dead revoked h (hm_map_values (\<lambda>t. if P t then revoke t else t) m)"
  by (simp add: tokens_dead_def hm_simps revoked_revoke)

end

end
