(* ===== verification/Node_Pairing.thy ===== *)
theory Node_Pairing
  imports Pairing_Tables
begin

text \<open>
  The node pairing registry (\<^verbatim>\<open>src/nodes/mod.rs\<close>): pairing requests, paired nodes and
  node tokens, with every operation of \<^verbatim>\<open>NodePairingRegistry\<close>. The SHA-256 based
  \<^verbatim>\<open>hash_token\<close> is the parameter \<open>H\<close>; the JSON codec and the UTF-8 decoder are parameters
  of \<open>load_or_create\<close>. The registry's record carries the contents of its state file.
\<close>

subsection \<open>Constants and data\<close>

definition MAX_PAIRED_NODES :: usize where "MAX_PAIRED_NODES = 100"
definition MAX_PENDING_REQUESTS :: usize where "MAX_PENDING_REQUESTS = 50"
definition MAX_NODE_TOKENS :: usize where "MAX_NODE_TOKENS = 500"
definition PAIRING_REQUEST_EXPIRY_MS :: u64 where
  "PAIRING_REQUEST_EXPIRY_MS = 24 * 60 * 60 * 1000"
definition NODE_TOKEN_EXPIRY_MS :: u64 where
  "NODE_TOKEN_EXPIRY_MS = 30 * 24 * 60 * 60 * 1000"

datatype PairingState = Pending | Approved | Rejected | Expired | Unknown

definition deserialize_pairing_state_forward_compat :: "string \<Rightarrow> PairingState" where
  "deserialize_pairing_state_forward_compat value =
     (if value = ''pending'' then Pending
      else if value = ''approved'' then Approved
      else if value = ''rejected'' then Rejected
      else if value = ''expired'' then Expired
      else if value = ''unknown'' then Unknown
      else Unknown)"

record NodePairingRequest =
  req_request_id :: string
  req_node_id :: string
  req_public_key :: "string option"
  req_state :: PairingState
  req_commands :: "string list"
  req_display_name :: "string option"
  req_platform :: "string option"
  req_version :: "string option"
  req_core_version :: "string option"
  req_ui_version :: "string option"
  req_device_family :: "string option"
  req_model_identifier :: "string option"
  req_caps :: "string list"
  req_permissions :: "(string, bool) hmap option"
  req_remote_ip :: "string option"
  req_silent :: bool
  req_is_repair :: bool
  req_created_at_ms :: u64
  req_resolved_at_ms :: "u64 option"
  req_rejection_reason :: "string option"

record NodePairingOutcome =
  out_request :: NodePairingRequest
  out_created :: bool

record NodePairingRequestBuilder =
  b_node_id :: string
  b_public_key :: "string option"
  b_commands :: "string list"
  b_display_name :: "string option"
  b_platform :: "string option"
  b_version :: "string option"
  b_core_version :: "string option"
  b_ui_version :: "string option"
  b_device_family :: "string option"
  b_model_identifier :: "string option"
  b_caps :: "string list"
  b_permissions :: "(string, bool) hmap option"
  b_remote_ip :: "string option"
  b_silent :: bool

definition NodePairingRequestBuilder_new :: "string \<Rightarrow> NodePairingRequestBuilder" where
  "NodePairingRequestBuilder_new node_id =
     \<lparr> b_node_id = node_id, b_public_key = None, b_commands = [], b_display_name = None,
       b_platform = None, b_version = None, b_core_version = None, b_ui_version = None,
       b_device_family = None, b_model_identifier = None, b_caps = [], b_permissions = None,
       b_remote_ip = None, b_silent = False \<rparr>"

record PairedNode =
  pn_node_id :: string
  pn_public_key :: "string option"
  pn_commands :: "string list"
  pn_display_name :: "string option"
  pn_platform :: "string option"
  pn_version :: "string option"
  pn_core_version :: "string option"
  pn_ui_version :: "string option"
  pn_device_family :: "string option"
  pn_model_identifier :: "string option"
  pn_caps :: "string list"
  pn_permissions :: "(string, bool) hmap option"
  pn_remote_ip :: "string option"
  pn_created_at_ms :: u64
  pn_paired_at_ms :: u64
  pn_last_seen_ms :: "u64 option"

record NodeToken =
  tok_token :: string
  tok_token_hash :: string
  tok_node_id :: string
  tok_issued_at_ms :: u64
  tok_expires_at_ms :: u64
  tok_revoked :: bool

record NodePairingStore =
  st_version :: u32
  st_pending_requests :: "(string, NodePairingRequest) hmap"
  st_paired_nodes :: "(string, PairedNode) hmap"
  st_tokens :: "(string, NodeToken) hmap"

definition NodePairingStore_VERSION :: u32 where "NodePairingStore_VERSION = 1"

definition NodePairingStore_new :: NodePairingStore where
  "NodePairingStore_new =
     \<lparr> st_version = NodePairingStore_VERSION, st_pending_requests = [], st_paired_nodes = [],
       st_tokens = [] \<rparr>"

datatype NodePairingError =
    RequestNotFound
  | RequestAlreadyResolved
  | RequestExpired
  | NodeNotPaired
  | NodeAlreadyPaired
  | TokenInvalid
  | TokenExpired
  | TokenRevoked
  | TooManyPendingRequests
  | TooManyPairedNodes
  | IoError string
  | JsonError string

fun NodePairingError_fmt :: "NodePairingError \<Rightarrow> string" where
  "NodePairingError_fmt RequestNotFound = ''pairing request not found''"
| "NodePairingError_fmt RequestAlreadyResolved = ''pairing request already resolved''"
| "NodePairingError_fmt RequestExpired = ''pairing request expired''"
| "NodePairingError_fmt NodeNotPaired = ''node not paired''"
| "NodePairingError_fmt NodeAlreadyPaired = ''node already paired''"
| "NodePairingError_fmt TokenInvalid = ''token invalid''"
| "NodePairingError_fmt TokenExpired = ''token expired''"
| "NodePairingError_fmt TokenRevoked = ''token revoked''"
| "NodePairingError_fmt TooManyPendingRequests = ''too many pending pairing requests''"
| "NodePairingError_fmt TooManyPairedNodes = ''too many paired nodes''"
| "NodePairingError_fmt (IoError msg) = ''I/O error: '' @ msg"
| "NodePairingError_fmt (JsonError msg) = ''JSON error: '' @ msg"

text \<open>The registry, with the contents of the file at \<^verbatim>\<open>storage_path\<close> (\<open>None\<close>: no file).\<close>

record NodePairingRegistry =
  reg_store :: NodePairingStore
  reg_storage_path :: string
  reg_auto_save :: bool
  reg_disk :: "NodePairingStore option"

subsection \<open>Requests, nodes and tokens\<close>

definition NodePairingRequest_from_builder ::
    "env \<Rightarrow> NodePairingRequestBuilder \<Rightarrow> bool \<Rightarrow> NodePairingRequest" where
  "NodePairingRequest_from_builder e b is_repair =
     \<lparr> req_request_id = env_uuid e, req_node_id = b_node_id b, req_public_key = b_public_key b,
       req_state = Pending, req_commands = b_commands b, req_display_name = b_display_name b,
       req_platform = b_platform b, req_version = b_version b,
       req_core_version = b_core_version b, req_ui_version = b_ui_version b,
       req_device_family = b_device_family b, req_model_identifier = b_model_identifier b,
       req_caps = b_caps b, req_permissions = b_permissions b, req_remote_ip = b_remote_ip b,
       req_silent = b_silent b, req_is_repair = is_repair, req_created_at_ms = env_now e,
       req_resolved_at_ms = None, req_rejection_reason = None \<rparr>"

definition request_builder ::
    "string \<Rightarrow> string option \<Rightarrow> string list \<Rightarrow> string option \<Rightarrow> string option
      \<Rightarrow> NodePairingRequestBuilder" where
  "request_builder node_id public_key commands display_name platform =
     (NodePairingRequestBuilder_new node_id)
       \<lparr> b_public_key := public_key, b_commands := commands, b_display_name := display_name,
         b_platform := platform \<rparr>"

definition NodePairingRequest_new ::
    "env \<Rightarrow> string \<Rightarrow> string option \<Rightarrow> string list \<Rightarrow> string option \<Rightarrow> string option
      \<Rightarrow> NodePairingRequest" where
  "NodePairingRequest_new e node_id public_key commands display_name platform =
     NodePairingRequest_from_builder e
       (request_builder node_id public_key commands display_name platform) False"

definition is_expired :: "u64 \<Rightarrow> NodePairingRequest \<Rightarrow> bool" where
  "is_expired now r =
     (if req_state r \<noteq> Pending then False
      else u64_saturating_sub now (req_created_at_ms r) > PAIRING_REQUEST_EXPIRY_MS)"

definition approve :: "u64 \<Rightarrow> NodePairingRequest \<Rightarrow> NodePairingRequest" where
  "approve now r = r\<lparr>req_state := Approved, req_resolved_at_ms := Some now\<rparr>"

definition reject :: "u64 \<Rightarrow> string option \<Rightarrow> NodePairingRequest \<Rightarrow> NodePairingRequest" where
  "reject now reason r =
     r\<lparr>req_state := Rejected, req_resolved_at_ms := Some now, req_rejection_reason := reason\<rparr>"

definition mark_expired :: "u64 \<Rightarrow> NodePairingRequest \<Rightarrow> NodePairingRequest" where
  "mark_expired now r = r\<lparr>req_state := Expired, req_resolved_at_ms := Some now\<rparr>"

definition PairedNode_from_request ::
    "u64 \<Rightarrow> NodePairingRequest \<Rightarrow> u64 option \<Rightarrow> PairedNode" where
  "PairedNode_from_request now r existing_created_at =
     \<lparr> pn_node_id = req_node_id r, pn_public_key = req_public_key r,
       pn_commands = req_commands r, pn_display_name = req_display_name r,
       pn_platform = req_platform r, pn_version = req_version r,
       pn_core_version = req_core_version r, pn_ui_version = req_ui_version r,
       pn_device_family = req_device_family r, pn_model_identifier = req_model_identifier r,
       pn_caps = req_caps r, pn_permissions = req_permissions r, pn_remote_ip = req_remote_ip r,
       pn_created_at_ms = (case existing_created_at of Some t \<Rightarrow> t | None \<Rightarrow> now),
       pn_paired_at_ms = now, pn_last_seen_ms = None \<rparr>"

definition touch :: "u64 \<Rightarrow> PairedNode \<Rightarrow> PairedNode" where
  "touch now n = n\<lparr>pn_last_seen_ms := Some now\<rparr>"

definition NodeToken_new :: "(string \<Rightarrow> string) \<Rightarrow> env \<Rightarrow> string \<Rightarrow> NodeToken \<times> string" where
  "NodeToken_new H e node_id =
     (\<lparr> tok_token = [], tok_token_hash = H (env_uuid e), tok_node_id = node_id,
        tok_issued_at_ms = env_now e, tok_expires_at_ms = u64_add (env_now e) NODE_TOKEN_EXPIRY_MS,
        tok_revoked = False \<rparr>,
      env_uuid e)"

definition is_valid :: "u64 \<Rightarrow> NodeToken \<Rightarrow> bool" where
  "is_valid now t = (\<not> tok_revoked t \<and> now < tok_expires_at_ms t)"

definition revoke :: "NodeToken \<Rightarrow> NodeToken" where
  "revoke t = t\<lparr>tok_revoked := True\<rparr>"

subsection \<open>Loading and saving\<close>

definition in_memory :: NodePairingRegistry where
  "in_memory =
     \<lparr> reg_store = NodePairingStore_new, reg_storage_path = [], reg_auto_save = False,
       reg_disk = None \<rparr>"

text \<open>
  \<open>read\<close> is the outcome of the capped read of the file: an error text, no file, or its bytes.
  The second component of the result says whether the file was set aside as corrupt (the
  rename may fail, \<open>rename_ok\<close>).
\<close>

definition load_or_create ::
    "('b \<Rightarrow> string + string) \<Rightarrow> (string \<Rightarrow> string + NodePairingStore) \<Rightarrow> string \<Rightarrow> bool
      \<Rightarrow> string + 'b option \<Rightarrow> (NodePairingError + NodePairingStore) \<times> bool" where
  "load_or_create from_utf8 from_json path rename_ok read =
     (case read of
        Inl err \<Rightarrow> (Inl (IoError err), False)
      | Inr None \<Rightarrow> (Inr NodePairingStore_new, False)
      | Inr (Some bytes) \<Rightarrow>
          (case from_utf8 bytes of
             Inl err \<Rightarrow>
               (Inl (IoError (''node pairing store at '' @ path @ '' is not valid UTF-8: '' @ err)),
                False)
           | Inr content \<Rightarrow>
               (case from_json content of
                  Inl err \<Rightarrow> (Inl (JsonError err), rename_ok)
                | Inr store \<Rightarrow>
                    if st_version store > NodePairingStore_VERSION
                    then (Inl (JsonError
                           (''node pairing store was written by a newer daemon (file version '' @
                            string_of_nat (st_version store) @
                            '', this binary supports up to '' @
                            string_of_nat NodePairingStore_VERSION @
                            ''); upgrade Carapace before continuing'')), False)
                    else (Inr store, False))))"

definition NodePairingRegistry_new ::
    "('b \<Rightarrow> string + string) \<Rightarrow> (string \<Rightarrow> string + NodePairingStore) \<Rightarrow> string \<Rightarrow> bool
      \<Rightarrow> string + 'b option \<Rightarrow> NodePairingError + NodePairingRegistry" where
  "NodePairingRegistry_new from_utf8 from_json path rename_ok read =
     (case fst (load_or_create from_utf8 from_json path rename_ok read) of
        Inl err \<Rightarrow> Inl err
      | Inr store \<Rightarrow>
          Inr \<lparr> reg_store = store, reg_storage_path = path, reg_auto_save = True,
                reg_disk = (case read of Inr (Some _) \<Rightarrow> Some store | _ \<Rightarrow> None) \<rparr>)"

fun save_result :: "save_fault option \<Rightarrow> NodePairingError + unit" where
  "save_result None = Inr ()"
| "save_result (Some (Fault_serialize m)) = Inl (JsonError m)"
| "save_result (Some (Fault_mkdir m)) = Inl (IoError m)"
| "save_result (Some (Fault_create_tmp m)) = Inl (IoError m)"
| "save_result (Some (Fault_write m)) = Inl (IoError m)"
| "save_result (Some (Fault_sync m)) = Inl (IoError m)"
| "save_result (Some (Fault_rename m)) = Inl (IoError m)"
| "save_result (Some (Fault_parent_sync m)) = Inl (IoError m)"

definition save :: "env \<Rightarrow> NodePairingRegistry \<Rightarrow> (NodePairingError + unit) \<times> NodePairingRegistry" where
  "save e reg =
     (if \<not> reg_auto_save reg \<or> reg_storage_path reg = [] then (Inr (), reg)
      else (save_result (env_fault e),
            reg\<lparr>reg_disk := write_file (env_fault e) (reg_store reg) (reg_disk reg)\<rparr>))"

text \<open>The callers log a failed save and go on.\<close>

definition commit :: "env \<Rightarrow> NodePairingStore \<Rightarrow> NodePairingRegistry \<Rightarrow> NodePairingRegistry" where
  "commit e st reg = snd (save e (reg\<lparr>reg_store := st\<rparr>))"

subsection \<open>Pairing requests\<close>

definition cleanup_store :: "u64 \<Rightarrow> NodePairingStore \<Rightarrow> NodePairingStore" where
  "cleanup_store now st =
     (let pending = hm_map_values (\<lambda>r. if is_expired now r then mark_expired now r else r)
                      (st_pending_requests st);
          cutoff = u64_saturating_sub now (60 * 60 * 1000);
          pending = hm_retain (\<lambda>_ r. req_state r = Pending \<or>
                      (case req_resolved_at_ms r of Some t \<Rightarrow> t > cutoff | None \<Rightarrow> True)) pending;
          tokens = hm_retain (\<lambda>_ t. \<not> tok_revoked t \<or> tok_expires_at_ms t > cutoff) (st_tokens st)
      in st\<lparr>st_pending_requests := pending, st_tokens := tokens\<rparr>)"

definition cleanup_expired :: "u64 \<Rightarrow> NodePairingRegistry \<Rightarrow> NodePairingRegistry" where
  "cleanup_expired now reg = reg\<lparr>reg_store := cleanup_store now (reg_store reg)\<rparr>"

definition request_pairing_with_builder ::
    "env \<Rightarrow> NodePairingRequestBuilder \<Rightarrow> NodePairingRegistry
      \<Rightarrow> (NodePairingError + NodePairingOutcome) \<times> NodePairingRegistry" where
  "request_pairing_with_builder e b reg =
     (let reg = cleanup_expired (env_now e) reg;
          st = reg_store reg;
          same = (\<lambda>r. req_node_id r = b_node_id b \<and> req_state r = Pending)
      in case find same (hm_values (st_pending_requests st)) of
           Some existing \<Rightarrow> (Inr \<lparr>out_request = existing, out_created = False\<rparr>, reg)
         | None \<Rightarrow>
             let is_repair = hm_contains (st_paired_nodes st) (b_node_id b) in
             if hm_count (\<lambda>r. req_state r = Pending) (st_pending_requests st) \<ge> MAX_PENDING_REQUESTS
             then (Inl TooManyPendingRequests, reg)
             else let request = NodePairingRequest_from_builder e b is_repair;
                      st' = st\<lparr>st_pending_requests :=
                              hm_insert (req_request_id request) request (st_pending_requests st)\<rparr>
                  in (Inr \<lparr>out_request = request, out_created = True\<rparr>, commit e st' reg))"

definition request_pairing_with_status ::
    "env \<Rightarrow> string \<Rightarrow> string option \<Rightarrow> string list \<Rightarrow> string option \<Rightarrow> string option
      \<Rightarrow> NodePairingRegistry \<Rightarrow> (NodePairingError + NodePairingOutcome) \<times> NodePairingRegistry" where
  "request_pairing_with_status e node_id public_key commands display_name platform reg =
     request_pairing_with_builder e
       (request_builder node_id public_key commands display_name platform) reg"

definition request_pairing ::
    "env \<Rightarrow> string \<Rightarrow> string option \<Rightarrow> string list \<Rightarrow> string option \<Rightarrow> string option
      \<Rightarrow> NodePairingRegistry \<Rightarrow> (NodePairingError + NodePairingRequest) \<times> NodePairingRegistry" where
  "request_pairing e node_id public_key commands display_name platform reg =
     (case request_pairing_with_builder e
             (request_builder node_id public_key commands display_name platform) reg of
        (Inl err, reg') \<Rightarrow> (Inl err, reg')
      | (Inr outcome, reg') \<Rightarrow> (Inr (out_request outcome), reg'))"

definition list_requests ::
    "env \<Rightarrow> NodePairingRegistry
      \<Rightarrow> (NodePairingRequest list \<times> NodePairingRequest list) \<times> NodePairingRegistry" where
  "list_requests e reg =
     (let reg = cleanup_expired (env_now e) reg;
          values = hm_values (st_pending_requests (reg_store reg))
      in ((filter (\<lambda>r. req_state r = Pending) values, filter (\<lambda>r. req_state r \<noteq> Pending) values),
          reg))"

definition get_request :: "string \<Rightarrow> NodePairingRegistry \<Rightarrow> NodePairingRequest option" where
  "get_request request_id reg = hm_get (st_pending_requests (reg_store reg)) request_id"

text \<open>The eviction inside \<^verbatim>\<open>approve_request\<close>: the oldest paired node and its tokens go.\<close>

definition evict_oldest_node :: "NodePairingStore \<Rightarrow> NodePairingStore" where
  "evict_oldest_node st =
     (if length (st_paired_nodes st) \<ge> MAX_PAIRED_NODES
      then case first_min_by (\<lambda>n. (pn_paired_at_ms n, pn_node_id n)) (hm_values (st_paired_nodes st)) of
             Some n \<Rightarrow>
               st\<lparr>st_paired_nodes := hm_remove (pn_node_id n) (st_paired_nodes st),
                  st_tokens := hm_retain (\<lambda>_ t. tok_node_id t \<noteq> pn_node_id n) (st_tokens st)\<rparr>
           | None \<Rightarrow> st
      else st)"

definition approve_request ::
    "(string \<Rightarrow> string) \<Rightarrow> env \<Rightarrow> string \<Rightarrow> NodePairingRegistry
      \<Rightarrow> (NodePairingError + PairedNode \<times> string) \<times> NodePairingRegistry" where
  "approve_request H e request_id reg =
     (let now = env_now e; st = reg_store reg in
      case hm_get (st_pending_requests st) request_id of
        None \<Rightarrow> (Inl RequestNotFound, reg)
      | Some request \<Rightarrow>
          if req_state request \<noteq> Pending then (Inl RequestAlreadyResolved, reg)
          else if is_expired now request
          then (Inl RequestExpired,
                reg\<lparr>reg_store := st\<lparr>st_pending_requests :=
                       hm_modify request_id (mark_expired now) (st_pending_requests st)\<rparr>\<rparr>)
          else
            let node_id = req_node_id request;
                st = evict_oldest_node st;
                existing_created_at = map_option pn_created_at_ms (hm_get (st_paired_nodes st) node_id);
                st = st\<lparr>st_pending_requests :=
                        hm_modify request_id (approve now) (st_pending_requests st)\<rparr>;
                paired_node = PairedNode_from_request now request existing_created_at;
                st = st\<lparr>st_paired_nodes := hm_insert node_id paired_node (st_paired_nodes st)\<rparr>;
                (token_entry, plain_token) = NodeToken_new H e node_id;
                st = st\<lparr>st_tokens := hm_insert (tok_token_hash token_entry) token_entry (st_tokens st)\<rparr>
            in (Inr (paired_node, plain_token), commit e st reg))"

definition reject_request ::
    "env \<Rightarrow> string \<Rightarrow> string option \<Rightarrow> NodePairingRegistry
      \<Rightarrow> (NodePairingError + NodePairingRequest) \<times> NodePairingRegistry" where
  "reject_request e request_id reason reg =
     (let st = reg_store reg in
      case hm_get (st_pending_requests st) request_id of
        None \<Rightarrow> (Inl RequestNotFound, reg)
      | Some request \<Rightarrow>
          if req_state request \<noteq> Pending then (Inl RequestAlreadyResolved, reg)
          else (Inr (reject (env_now e) reason request),
                commit e (st\<lparr>st_pending_requests :=
                  hm_modify request_id (reject (env_now e) reason) (st_pending_requests st)\<rparr>) reg))"

subsection \<open>Paired nodes\<close>

definition list_paired_nodes :: "NodePairingRegistry \<Rightarrow> PairedNode list" where
  "list_paired_nodes reg = hm_values (st_paired_nodes (reg_store reg))"

definition get_paired_node :: "string \<Rightarrow> NodePairingRegistry \<Rightarrow> PairedNode option" where
  "get_paired_node node_id reg = hm_get (st_paired_nodes (reg_store reg)) node_id"

definition is_paired :: "string \<Rightarrow> NodePairingRegistry \<Rightarrow> bool" where
  "is_paired node_id reg = hm_contains (st_paired_nodes (reg_store reg)) node_id"

definition rename_node ::
    "env \<Rightarrow> string \<Rightarrow> string \<Rightarrow> NodePairingRegistry
      \<Rightarrow> (NodePairingError + PairedNode) \<times> NodePairingRegistry" where
  "rename_node e node_id new_name reg =
     (let st = reg_store reg in
      case hm_get (st_paired_nodes st) node_id of
        None \<Rightarrow> (Inl NodeNotPaired, reg)
      | Some node \<Rightarrow>
          (Inr (node\<lparr>pn_display_name := Some new_name\<rparr>),
           commit e (st\<lparr>st_paired_nodes :=
             hm_modify node_id (\<lambda>n. n\<lparr>pn_display_name := Some new_name\<rparr>) (st_paired_nodes st)\<rparr>) reg))"

definition touch_node :: "env \<Rightarrow> string \<Rightarrow> NodePairingRegistry \<Rightarrow> NodePairingRegistry" where
  "touch_node e node_id reg =
     (let st = reg_store reg in
      reg\<lparr>reg_store := st\<lparr>st_paired_nodes :=
            hm_modify node_id (touch (env_now e)) (st_paired_nodes st)\<rparr>\<rparr>)"

definition unpair_node ::
    "env \<Rightarrow> string \<Rightarrow> NodePairingRegistry \<Rightarrow> (NodePairingError + PairedNode) \<times> NodePairingRegistry" where
  "unpair_node e node_id reg =
     (let st = reg_store reg in
      case hm_get (st_paired_nodes st) node_id of
        None \<Rightarrow> (Inl NodeNotPaired, reg)
      | Some node \<Rightarrow>
          (Inr node,
           commit e (st\<lparr>st_paired_nodes := hm_remove node_id (st_paired_nodes st),
                        st_tokens := hm_map_values
                          (\<lambda>t. if tok_node_id t = node_id then revoke t else t) (st_tokens st)\<rparr>) reg))"

subsection \<open>Tokens\<close>

definition verify_token ::
    "(string \<Rightarrow> string) \<Rightarrow> u64 \<Rightarrow> string \<Rightarrow> string \<Rightarrow> NodePairingRegistry \<Rightarrow> NodePairingError + unit" where
  "verify_token H now node_id token reg =
     (let st = reg_store reg in
      if \<not> hm_contains (st_paired_nodes st) node_id then Inl NodeNotPaired
      else case hm_get (st_tokens st) (H token) of
             None \<Rightarrow> Inl TokenInvalid
           | Some entry \<Rightarrow>
               if tok_node_id entry \<noteq> node_id then Inl TokenInvalid
               else if tok_revoked entry then Inl TokenRevoked
               else if now \<ge> tok_expires_at_ms entry then Inl TokenExpired
               else Inr ())"

definition evict_oldest_token :: "(string, NodeToken) hmap \<Rightarrow> (string, NodeToken) hmap" where
  "evict_oldest_token tokens =
     (if length tokens \<ge> MAX_NODE_TOKENS
      then case first_min_by (\<lambda>(_, t). tok_issued_at_ms t) tokens of
             Some (oldest_hash, _) \<Rightarrow> hm_remove oldest_hash tokens
           | None \<Rightarrow> tokens
      else tokens)"

definition issue_token ::
    "(string \<Rightarrow> string) \<Rightarrow> env \<Rightarrow> string \<Rightarrow> NodePairingRegistry
      \<Rightarrow> (NodePairingError + string) \<times> NodePairingRegistry" where
  "issue_token H e node_id reg =
     (let now = env_now e; st = reg_store reg in
      if \<not> hm_contains (st_paired_nodes st) node_id then (Inl NodeNotPaired, reg)
      else
        let tokens = hm_retain (\<lambda>_ t. tok_node_id t \<noteq> node_id \<or>
                       (is_valid now t \<and> tok_expires_at_ms t > now)) (st_tokens st);
            tokens = evict_oldest_token tokens;
            (token_entry, plain_token) = NodeToken_new H e node_id;
            tokens = hm_insert (tok_token_hash token_entry) token_entry tokens
        in (Inr plain_token, commit e (st\<lparr>st_tokens := tokens\<rparr>) reg))"

definition revoke_tokens ::
    "env \<Rightarrow> string \<Rightarrow> NodePairingRegistry \<Rightarrow> (NodePairingError + usize) \<times> NodePairingRegistry" where
  "revoke_tokens e node_id reg =
     (let st = reg_store reg in
      if \<not> hm_contains (st_paired_nodes st) node_id then (Inl NodeNotPaired, reg)
      else
        (Inr (hm_count (\<lambda>t. tok_node_id t = node_id \<and> \<not> tok_revoked t) (st_tokens st)),
         commit e (st\<lparr>st_tokens := hm_map_values
           (\<lambda>t. if tok_node_id t = node_id \<and> \<not> tok_revoked t then revoke t else t)
           (st_tokens st)\<rparr>) reg))"

subsection \<open>The operations as steps\<close>

datatype node_op =
    Op_request env NodePairingRequestBuilder
  | Op_list env
  | Op_approve env string
  | Op_reject env string "string option"
  | Op_rename env string string
  | Op_touch env string
  | Op_unpair env string
  | Op_issue env string
  | Op_revoke env string

fun node_step :: "(string \<Rightarrow> string) \<Rightarrow> node_op \<Rightarrow> NodePairingRegistry \<Rightarrow> NodePairingRegistry" where
  "node_step H (Op_request e b) reg = snd (request_pairing_with_builder e b reg)"
| "node_step H (Op_list e) reg = snd (list_requests e reg)"
| "node_step H (Op_approve e i) reg = snd (approve_request H e i reg)"
| "node_step H (Op_reject e i r) reg = snd (reject_request e i r reg)"
| "node_step H (Op_rename e n s) reg = snd (rename_node e n s reg)"
| "node_step H (Op_touch e n) reg = touch_node e n reg"
| "node_step H (Op_unpair e n) reg = snd (unpair_node e n reg)"
| "node_step H (Op_issue e n) reg = snd (issue_token H e n reg)"
| "node_step H (Op_revoke e n) reg = snd (revoke_tokens e n reg)"

text \<open>The hash an operation stores a new token under.\<close>

fun node_mints :: "(string \<Rightarrow> string) \<Rightarrow> node_op \<Rightarrow> string \<Rightarrow> bool" where
  "node_mints H (Op_approve e i) h = (H (env_uuid e) = h)"
| "node_mints H (Op_issue e n) h = (H (env_uuid e) = h)"
| "node_mints H _ h = False"

subsection \<open>The registry's invariant\<close>

text \<open>
  Every map is keyed by its values' own identifiers; no plain token is stored; a token that
  is not revoked belongs to a paired node; one node has at most one pending request; the
  paired nodes and the pending requests respect their limits.
\<close>

definition node_store_wf :: "NodePairingStore \<Rightarrow> bool" where
  "node_store_wf st \<longleftrightarrow>
     requests_wf req_request_id req_node_id (\<lambda>r. req_state r = Pending) MAX_PENDING_REQUESTS
       (st_pending_requests st) \<and>
     peers_wf pn_node_id MAX_PAIRED_NODES (st_paired_nodes st) \<and>
     tokens_wf tok_token_hash tok_node_id tok_revoked (\<lambda>t. tok_token t = [])
       (st_paired_nodes st) (st_tokens st)"

interpretation ntok: token_table tok_token_hash tok_node_id tok_revoked "\<lambda>t. tok_token t = []" revoke
  by unfold_locales (simp_all add: revoke_def)

lemma reg_store_commit [simp]: "reg_store (commit e st reg) = st"
  by (simp add: commit_def save_def)

lemma reg_disk_commit:
  "reg_disk (commit e st reg) =
     (if reg_auto_save reg \<and> reg_storage_path reg \<noteq> [] \<and> save_commits (env_fault e)
      then Some st else reg_disk reg)"
  by (auto simp: commit_def save_def write_file_def)

lemma reg_store_cleanup [simp]: "reg_store (cleanup_expired now reg) = cleanup_store now (reg_store reg)"
  by (simp add: cleanup_expired_def)

lemmas node_wf_rules = requests_wf_map_values requests_wf_modify requests_wf_retain
  ntok.wf_rules peers_wf_insert peers_wf_remove peers_wf_modify

subsection \<open>Every operation keeps the invariant\<close>

lemma node_store_wf_new: "node_store_wf NodePairingStore_new"
  by (simp add: node_store_wf_def NodePairingStore_new_def ntok.wf_empty)

lemma cleanup_store_wf: "node_store_wf st \<Longrightarrow> node_store_wf (cleanup_store now st)"
  unfolding node_store_wf_def cleanup_store_def Let_def
  by (auto intro!: node_wf_rules simp: mark_expired_def)

lemma request_pairing_wf:
  "node_store_wf (reg_store reg) \<Longrightarrow>
   node_store_wf (reg_store (snd (request_pairing_with_builder e b reg)))"
  using cleanup_store_wf [of "reg_store reg" "env_now e"]
  by (auto simp: request_pairing_with_builder_def Let_def node_store_wf_def
      NodePairingRequest_from_builder_def intro!: requests_wf_insert split: option.splits)

lemma evict_oldest_node_room:
  assumes "peers_wf pn_node_id MAX_PAIRED_NODES (st_paired_nodes st)"
  shows "length (st_paired_nodes (evict_oldest_node st)) < MAX_PAIRED_NODES"
  using assms
  by (auto simp: evict_oldest_node_def hm_values_def MAX_PAIRED_NODES_def not_le
      dest: evict_peer_makes_room [unfolded hm_values_def] split: option.splits)

lemma evict_oldest_node_wf: "node_store_wf st \<Longrightarrow> node_store_wf (evict_oldest_node st)"
  by (auto simp: evict_oldest_node_def node_store_wf_def intro!: node_wf_rules split: option.splits)

lemma approve_request_wf:
  assumes "node_store_wf (reg_store reg)"
  shows "node_store_wf (reg_store (snd (approve_request H e i reg)))"
proof -
  note wf = evict_oldest_node_wf [OF assms]
  have len: "length (st_paired_nodes (evict_oldest_node (reg_store reg))) < MAX_PAIRED_NODES"
    using assms by (simp add: evict_oldest_node_room node_store_wf_def)
  show ?thesis
    using assms wf len
    by (auto simp: approve_request_def Let_def node_store_wf_def mark_expired_def approve_def
        PairedNode_from_request_def NodeToken_new_def split: option.splits
        intro!: node_wf_rules intro: ntok.wf_peers_mono)
qed

lemma reject_request_wf:
  "node_store_wf (reg_store reg) \<Longrightarrow> node_store_wf (reg_store (snd (reject_request e i r reg)))"
  by (auto simp: reject_request_def Let_def node_store_wf_def reject_def
      intro!: node_wf_rules split: option.splits)

lemma node_store_wf_modify_node:
  "node_store_wf st \<Longrightarrow> (\<And>n. pn_node_id (f n) = pn_node_id n) \<Longrightarrow>
   node_store_wf (st\<lparr>st_paired_nodes := hm_modify k f (st_paired_nodes st)\<rparr>)"
  by (auto simp: node_store_wf_def intro!: node_wf_rules intro: ntok.wf_peers_mono)

lemma unpair_node_wf:
  "node_store_wf (reg_store reg) \<Longrightarrow> node_store_wf (reg_store (snd (unpair_node e n reg)))"
  by (auto simp: unpair_node_def Let_def node_store_wf_def intro!: node_wf_rules split: option.splits)

lemma ntok_wf_evict: "ntok.twf nodes m \<Longrightarrow> ntok.twf nodes (evict_oldest_token m)"
  by (auto simp: evict_oldest_token_def ntok.wf_remove split: option.splits)

lemma issue_token_wf:
  "node_store_wf (reg_store reg) \<Longrightarrow> node_store_wf (reg_store (snd (issue_token H e n reg)))"
  by (auto simp: issue_token_def Let_def node_store_wf_def NodeToken_new_def
      intro!: node_wf_rules ntok_wf_evict)

lemma revoke_tokens_wf:
  "node_store_wf (reg_store reg) \<Longrightarrow> node_store_wf (reg_store (snd (revoke_tokens e n reg)))"
  by (auto simp: revoke_tokens_def Let_def node_store_wf_def intro!: node_wf_rules)

lemma node_step_wf:
  "node_store_wf (reg_store reg) \<Longrightarrow> node_store_wf (reg_store (node_step H a reg))"
  by (cases a)
    (auto simp: request_pairing_wf approve_request_wf reject_request_wf unpair_node_wf
      issue_token_wf revoke_tokens_wf cleanup_store_wf list_requests_def Let_def rename_node_def
      touch_node_def touch_def node_store_wf_modify_node split: option.splits)

subsection \<open>Dead tokens stay dead\<close>

definition node_token_dead :: "string \<Rightarrow> NodePairingRegistry \<Rightarrow> bool" where
  "node_token_dead h reg = tokens_dead tok_revoked h (st_tokens (reg_store reg))"

definition node_accepts :: "(string \<Rightarrow> string) \<Rightarrow> NodePairingRegistry \<Rightarrow> string \<Rightarrow> bool" where
  "node_accepts H reg h \<longleftrightarrow> (\<exists>now n tok. H tok = h \<and> verify_token H now n tok reg = Inr ())"

lemma ntok_dead_evict:
  "tokens_dead tok_revoked h m \<Longrightarrow> tokens_dead tok_revoked h (evict_oldest_token m)"
  by (auto simp: evict_oldest_token_def ntok.dead_remove split: option.splits)

lemmas node_dead_rules = ntok.dead_rules ntok_dead_evict

lemma hm_wf_tokens: "node_store_wf st \<Longrightarrow> hm_wf (st_tokens st)"
  by (simp add: node_store_wf_def tokens_wf_def)

lemma tokens_dead_evict_node:
  "node_store_wf st \<Longrightarrow> tokens_dead tok_revoked h (st_tokens st) \<Longrightarrow>
   tokens_dead tok_revoked h (st_tokens (evict_oldest_node st))"
  by (auto simp: evict_oldest_node_def hm_wf_tokens intro: ntok.dead_retain split: option.splits)

lemma tokens_dead_approve:
  "node_store_wf (reg_store reg) \<Longrightarrow> node_token_dead h reg \<Longrightarrow> H (env_uuid e) \<noteq> h \<Longrightarrow>
   node_token_dead h (snd (approve_request H e i reg))"
  by (auto simp: node_token_dead_def approve_request_def Let_def NodeToken_new_def
      intro!: node_dead_rules tokens_dead_evict_node split: option.splits)

lemma node_token_dead_step:
  assumes wf: "node_store_wf (reg_store reg)" and dead: "node_token_dead h reg"
    and fresh: "\<not> node_mints H a h"
  shows "node_token_dead h (node_step H a reg)"
proof -
  note [simp] = node_token_dead_def hm_wf_tokens [OF wf]
  note [split] = option.split
  show ?thesis
  proof (cases a)
    case (Op_request e b)
    with dead show ?thesis
      by (auto simp: request_pairing_with_builder_def cleanup_store_def Let_def intro!: node_dead_rules)
  next
    case (Op_list e)
    with dead show ?thesis
      by (auto simp: list_requests_def cleanup_store_def Let_def intro!: node_dead_rules)
  next
    case (Op_approve e i)
    with wf dead fresh show ?thesis
      using tokens_dead_approve [of reg h H e i] by (simp del: node_token_dead_def)
  next
    case (Op_reject e i r)
    with dead show ?thesis by (auto simp: reject_request_def Let_def)
  next
    case (Op_rename e n s)
    with dead show ?thesis by (auto simp: rename_node_def Let_def)
  next
    case (Op_touch e n)
    with dead show ?thesis by (auto simp: touch_node_def Let_def)
  next
    case (Op_unpair e n)
    with dead show ?thesis by (auto simp: unpair_node_def Let_def intro!: node_dead_rules)
  next
    case (Op_issue e n)
    with dead fresh show ?thesis
      by (auto simp: issue_token_def Let_def NodeToken_new_def intro!: node_dead_rules)
  next
    case (Op_revoke e n)
    with dead show ?thesis by (auto simp: revoke_tokens_def Let_def intro!: node_dead_rules)
  qed
qed

lemma verify_token_ok_iff:
  "verify_token H now n tok reg = Inr () \<longleftrightarrow>
     is_paired n reg \<and> (\<exists>t. hm_get (st_tokens (reg_store reg)) (H tok) = Some t \<and>
       tok_node_id t = n \<and> \<not> tok_revoked t \<and> now < tok_expires_at_ms t)"
  by (auto simp: verify_token_def is_paired_def Let_def split: option.splits)

lemma node_dead_rejected: "node_token_dead h reg \<Longrightarrow> \<not> node_accepts H reg h"
  by (auto simp: node_token_dead_def tokens_dead_def node_accepts_def verify_token_ok_iff)

interpretation node_reg: credential_machine "node_step H" "\<lambda>reg. node_store_wf (reg_store reg)"
    "\<lambda>_ _. True" "node_mints H" node_token_dead "node_accepts H"
  for H :: "string \<Rightarrow> string"
  by unfold_locales (auto simp: node_step_wf node_token_dead_step node_dead_rejected)

subsection \<open>Resolved requests stay resolved\<close>

definition node_request_closed :: "string \<Rightarrow> NodePairingRegistry \<Rightarrow> bool" where
  "node_request_closed i reg =
     (case hm_get (st_pending_requests (reg_store reg)) i of
        None \<Rightarrow> True | Some r \<Rightarrow> req_state r \<noteq> Pending)"

fun node_opens :: "node_op \<Rightarrow> string \<Rightarrow> bool" where
  "node_opens (Op_request e b) i = (env_uuid e = i)"
| "node_opens _ i = False"

definition node_resolvable :: "(string \<Rightarrow> string) \<Rightarrow> NodePairingRegistry \<Rightarrow> string \<Rightarrow> bool" where
  "node_resolvable H reg i \<longleftrightarrow>
     (\<exists>e x. fst (approve_request H e i reg) = Inr x) \<or> (\<exists>e r x. fst (reject_request e i r reg) = Inr x)"

lemma request_closed_cleanup:
  "node_store_wf (reg_store reg) \<Longrightarrow> node_request_closed i reg \<Longrightarrow>
   node_request_closed i (cleanup_expired now reg)"
  by (auto simp: node_request_closed_def cleanup_store_def Let_def hm_simps wf_intros
      node_store_wf_def requests_wf_def mark_expired_def split: option.splits bind_splits if_splits)

lemma pending_evict [simp]:
  "st_pending_requests (evict_oldest_node st) = st_pending_requests st"
  by (simp add: evict_oldest_node_def split: option.split)

lemma node_request_closed_step:
  assumes wf: "node_store_wf (reg_store reg)" and cl: "node_request_closed i reg"
    and fresh: "\<not> node_opens a i"
  shows "node_request_closed i (node_step H a reg)"
proof -
  note defs = node_request_closed_def Let_def hm_simps
  note [split] = option.splits
  show ?thesis
  proof (cases a)
    case (Op_request e b)
    with fresh request_closed_cleanup [OF wf cl, of "env_now e"] show ?thesis
      by (auto simp: request_pairing_with_builder_def NodePairingRequest_from_builder_def defs)
  next
    case (Op_list e)
    with request_closed_cleanup [OF wf cl, of "env_now e"] show ?thesis
      by (auto simp: list_requests_def defs)
  next
    case (Op_approve e j)
    with cl show ?thesis
      by (cases "j = i") (auto simp: approve_request_def NodeToken_new_def approve_def mark_expired_def defs)
  next
    case (Op_reject e j r)
    with cl show ?thesis by (cases "j = i") (auto simp: reject_request_def reject_def defs)
  next
    case (Op_rename e n s)
    with cl show ?thesis by (auto simp: rename_node_def defs)
  next
    case (Op_touch e n)
    with cl show ?thesis by (auto simp: touch_node_def defs)
  next
    case (Op_unpair e n)
    with cl show ?thesis by (auto simp: unpair_node_def defs)
  next
    case (Op_issue e n)
    with cl show ?thesis by (auto simp: issue_token_def NodeToken_new_def defs)
  next
    case (Op_revoke e n)
    with cl show ?thesis by (auto simp: revoke_tokens_def defs)
  qed
qed

lemma node_closed_not_resolvable: "node_request_closed i reg \<Longrightarrow> \<not> node_resolvable H reg i"
  by (auto simp: node_request_closed_def node_resolvable_def approve_request_def reject_request_def
      Let_def split: option.splits if_splits)

interpretation node_req: credential_machine "node_step H" "\<lambda>reg. node_store_wf (reg_store reg)"
    "\<lambda>_ _. True" node_opens node_request_closed "node_resolvable H"
  for H :: "string \<Rightarrow> string"
  by unfold_locales (auto simp: node_step_wf node_request_closed_step node_closed_not_resolvable)

lemma approve_request_ok:
  assumes "fst (approve_request H e i reg) = Inr (node, tok)"
  shows "\<exists>r. hm_get (st_pending_requests (reg_store reg)) i = Some r \<and> req_state r = Pending \<and>
           \<not> is_expired (env_now e) r \<and> pn_node_id node = req_node_id r \<and>
           pn_commands node = req_commands r \<and> pn_caps node = req_caps r"
    and "node_request_closed i (snd (approve_request H e i reg))"
    and "tok = env_uuid e"
    and "is_paired (pn_node_id node) (snd (approve_request H e i reg))"
    and "hm_get (st_tokens (reg_store (snd (approve_request H e i reg)))) (H tok) =
           Some (fst (NodeToken_new H e (pn_node_id node)))"
  using assms
  by (auto simp: approve_request_def Let_def PairedNode_from_request_def NodeToken_new_def
      is_paired_def node_request_closed_def approve_def hm_simps split: option.splits if_splits)

subsection \<open>Properties\<close>

text \<open>
  C1: whatever sequence of operations runs on a fresh registry, with whatever clock, UUIDs and
  write failures, the registry is well-formed: maps keyed by their values' identifiers, no plain
  token stored, every live token owned by a paired node, at most one pending request per node,
  at most \<^verbatim>\<open>MAX_PAIRED_NODES\<close> nodes and \<^verbatim>\<open>MAX_PENDING_REQUESTS\<close> pending requests.
\<close>

theorem node_registry_invariant:
  "node_store_wf (reg_store (fold (node_step H) ops in_memory))"
  by (rule node_reg.run_inv) (simp_all add: in_memory_def node_store_wf_new)

text \<open>
  C2: unpairing a node ends its tokens for good. A token stored for the node is refused, for
  every node id and at every time, after any later sequence of operations (a new pairing of the
  same node included) that does not store a new token under the same hash.
\<close>

theorem node_unpair_revokes_for_good:
  assumes wf: "node_store_wf (reg_store reg)" and "is_paired n reg"
    and "hm_get (st_tokens (reg_store reg)) (H tok) = Some t" and "tok_node_id t = n"
    and "list_all (\<lambda>a. \<not> node_mints H a (H tok)) ops"
  shows "verify_token H now m tok (fold (node_step H) ops (snd (unpair_node e n reg))) \<noteq> Inr ()"
proof -
  have "node_token_dead (H tok) (snd (unpair_node e n reg))"
    using assms(2-4)
    by (auto simp: node_token_dead_def unpair_node_def is_paired_def Let_def hm_contains_def
        intro!: ntok.dead_after_revoke)
  with unpair_node_wf [OF wf] assms(5)
  have "\<not> node_accepts H (fold (node_step H) ops (snd (unpair_node e n reg))) (H tok)"
    by (intro node_reg.run_rejected) simp_all
  then show ?thesis by (auto simp: node_accepts_def)
qed

text \<open>
  Approving a request hands out a token that works. Approval succeeds only for a stored,
  pending, unexpired request, pairs the requesting node with the commands and capabilities it
  asked for, and the returned token is accepted for that node until it expires.
\<close>

theorem node_approve_then_verify:
  assumes "fst (approve_request H e i reg) = Inr (node, tok)"
    and "now < u64_add (env_now e) NODE_TOKEN_EXPIRY_MS"
  shows "verify_token H now (pn_node_id node) tok (snd (approve_request H e i reg)) = Inr () \<and>
     (\<exists>r. get_request i reg = Some r \<and> req_state r = Pending \<and> \<not> is_expired (env_now e) r \<and>
        pn_node_id node = req_node_id r \<and> pn_commands node = req_commands r \<and>
        pn_caps node = req_caps r)"
  using approve_request_ok [OF assms(1)] assms(2)
  by (auto simp: verify_token_ok_iff get_request_def NodeToken_new_def)

text \<open>
  A pairing request is resolved at most once. After a successful approval no later approval
  or rejection of the same request id succeeds, through any sequence of operations that does not
  create a request with the same UUID.
\<close>

theorem node_request_resolved_once:
  assumes wf: "node_store_wf (reg_store reg)"
    and "fst (approve_request H e i reg) = Inr res"
    and "list_all (\<lambda>a. \<not> node_opens a i) ops"
  shows "fst (approve_request H e' i (fold (node_step H) ops (snd (approve_request H e i reg)))) \<noteq> Inr x \<and>
         fst (reject_request e' i r (fold (node_step H) ops (snd (approve_request H e i reg)))) \<noteq> Inr y"
proof -
  obtain node tok where "fst (approve_request H e i reg) = Inr (node, tok)"
    using assms(2) by (cases res) auto
  then have "node_request_closed i (snd (approve_request H e i reg))"
    by (rule approve_request_ok)
  with approve_request_wf [OF wf] assms(3)
  have "\<not> node_resolvable H (fold (node_step H) ops (snd (approve_request H e i reg))) i"
    by (intro node_req.run_rejected) simp_all
  then show ?thesis unfolding node_resolvable_def by blast
qed



text \<open>
  The state file is never torn. One operation, whatever fails while it saves, leaves the file
  as it was or replaces it by exactly the registry's new contents.
\<close>

theorem node_state_file_atomic:
  "reg_disk (node_step H a reg) = reg_disk reg \<or>
   reg_disk (node_step H a reg) = Some (reg_store (node_step H a reg))"
proof -
  note defs = request_pairing_with_builder_def list_requests_def approve_request_def
    reject_request_def rename_node_def touch_node_def unpair_node_def issue_token_def
    revoke_tokens_def cleanup_expired_def NodeToken_new_def
  show ?thesis by (cases a) (auto simp: defs Let_def reg_disk_commit split: option.split)
qed

subsection \<open>Witnesses\<close>

definition node_ex_pending :: NodePairingRegistry where
  "node_ex_pending =
     snd (request_pairing_with_builder (ex_env 1 ''r1'') (NodePairingRequestBuilder_new ''n1'') in_memory)"

definition node_ex_paired :: NodePairingRegistry where
  "node_ex_paired = snd (approve_request ex_hash (ex_env 2 ''t1'') ''r1'' node_ex_pending)"

lemma node_ex_pending_eq:
  "node_ex_pending =
     in_memory\<lparr>reg_store := NodePairingStore_new\<lparr>st_pending_requests :=
       [(''r1'', NodePairingRequest_new (ex_env 1 ''r1'') ''n1'' None [] None None)]\<rparr>\<rparr>"
  by (simp add: node_ex_pending_def request_pairing_with_builder_def in_memory_def
      NodePairingStore_new_def cleanup_expired_def cleanup_store_def hm_eval ex_env_def commit_def
      save_def NodePairingRequest_new_def NodePairingRequest_from_builder_def request_builder_def
      NodePairingRequestBuilder_new_def MAX_PENDING_REQUESTS_def Let_def)

lemma node_ex_approve:
  "approve_request ex_hash (ex_env 2 ''t1'') ''r1'' node_ex_pending =
     (Inr (the (get_paired_node ''n1'' node_ex_paired), ''t1''), node_ex_paired)"
  "get_paired_node ''n1'' node_ex_paired =
     Some (PairedNode_from_request 2
       (NodePairingRequest_new (ex_env 1 ''r1'') ''n1'' None [] None None) None)"
  "hm_get (st_tokens (reg_store node_ex_paired)) ''#t1'' =
     Some (fst (NodeToken_new ex_hash (ex_env 2 ''t1'') ''n1''))"
  unfolding node_ex_paired_def node_ex_pending_eq
  by (simp_all add: approve_request_def in_memory_def NodePairingStore_new_def hm_eval ex_env_def
      commit_def save_def NodePairingRequest_new_def NodePairingRequest_from_builder_def
      request_builder_def NodePairingRequestBuilder_new_def is_expired_def u64_saturating_sub_def
      PAIRING_REQUEST_EXPIRY_MS_def evict_oldest_node_def MAX_PAIRED_NODES_def NodeToken_new_def
      ex_hash_def get_paired_node_def PairedNode_from_request_def Let_def)

lemma node_ex_wf: "node_store_wf (reg_store node_ex_pending)" "node_store_wf (reg_store node_ex_paired)"
proof -
  have "node_store_wf (reg_store in_memory)" by (simp add: in_memory_def node_store_wf_new)
  then show *: "node_store_wf (reg_store node_ex_pending)"
    unfolding node_ex_pending_def by (rule request_pairing_wf)
  show "node_store_wf (reg_store node_ex_paired)"
    unfolding node_ex_paired_def by (rule approve_request_wf [OF *])
qed

theorem node_unpair_revokes_for_good_witness:
  "verify_token ex_hash 10 ''n1'' ''t1''
     (fold (node_step ex_hash)
        [Op_request (ex_env 4 ''r2'') (NodePairingRequestBuilder_new ''n1''),
         Op_approve (ex_env 5 ''t2'') ''r2'']
        (snd (unpair_node (ex_env 3 []) ''n1'' node_ex_paired))) \<noteq> Inr ()"
proof (rule node_unpair_revokes_for_good)
  show "is_paired ''n1'' node_ex_paired"
    using node_ex_approve(2) by (simp add: is_paired_def get_paired_node_def hm_contains_def)
  show "hm_get (st_tokens (reg_store node_ex_paired)) (ex_hash ''t1'') =
      Some (fst (NodeToken_new ex_hash (ex_env 2 ''t1'') ''n1''))"
    using node_ex_approve(3) by (simp add: ex_hash_def)
qed (simp_all add: node_ex_wf NodeToken_new_def ex_env_def ex_hash_def)

theorem node_approve_then_verify_witness:
  "verify_token ex_hash 10 ''n1'' ''t1'' node_ex_paired = Inr ()"
proof -
  have ok: "fst (approve_request ex_hash (ex_env 2 ''t1'') ''r1'' node_ex_pending) =
      Inr (the (get_paired_node ''n1'' node_ex_paired), ''t1'')" by (simp add: node_ex_approve)
  have "(10::nat) < u64_add (env_now (ex_env 2 ''t1'')) NODE_TOKEN_EXPIRY_MS"
    by (simp add: u64_add_def u64_max_def NODE_TOKEN_EXPIRY_MS_def ex_env_def)
  moreover have "pn_node_id (the (get_paired_node ''n1'' node_ex_paired)) = ''n1''"
    by (simp add: node_ex_approve PairedNode_from_request_def NodePairingRequest_new_def
        NodePairingRequest_from_builder_def request_builder_def NodePairingRequestBuilder_new_def)
  ultimately show ?thesis
    using node_approve_then_verify [OF ok, of 10] by (simp add: node_ex_paired_def)
qed

theorem node_request_resolved_once_witness:
  "fst (reject_request (ex_env 6 []) ''r1'' None
     (fold (node_step ex_hash) [Op_list (ex_env 4 []), Op_touch (ex_env 5 []) ''n1''] node_ex_paired))
   \<noteq> Inr (NodePairingRequest_new (ex_env 6 []) ''n1'' None [] None None)"
proof -
  have ok: "fst (approve_request ex_hash (ex_env 2 ''t1'') ''r1'' node_ex_pending) =
      Inr (the (get_paired_node ''n1'' node_ex_paired), ''t1'')" by (simp add: node_ex_approve)
  show ?thesis
    using node_request_resolved_once [OF node_ex_wf(1) ok,
        of "[Op_list (ex_env 4 []), Op_touch (ex_env 5 []) ''n1'']" "ex_env 6 []"]
    by (simp add: node_ex_paired_def)
qed

end
