(* ===== verification/Device_Pairing.thy ===== *)
theory Device_Pairing
  imports Pairing_Tables
begin

text \<open>
  The device pairing registry (\<^verbatim>\<open>src/devices/mod.rs\<close>). It follows the node registry, with
  public keys, roles and scopes: a token carries one role and a list of scopes, a paired device
  the roles and scopes it was approved for, and an empty list on the device means no
  restriction. \<open>H\<close> is the SHA-256 based \<^verbatim>\<open>hash_token\<close>.
\<close>

subsection \<open>Constants and data\<close>

definition MAX_PAIRED_DEVICES :: usize where "MAX_PAIRED_DEVICES = 50"
definition MAX_PENDING_REQUESTS :: usize where "MAX_PENDING_REQUESTS = 25"
definition MAX_DEVICE_TOKENS :: usize where "MAX_DEVICE_TOKENS = 200"
definition PAIRING_REQUEST_EXPIRY_MS :: u64 where "PAIRING_REQUEST_EXPIRY_MS = 60 * 60 * 1000"
definition DEVICE_TOKEN_EXPIRY_MS :: u64 where
  "DEVICE_TOKEN_EXPIRY_MS = 90 * 24 * 60 * 60 * 1000"

datatype PairingState = Pending | Approved | Rejected | Expired | Unknown

definition deserialize_pairing_state_forward_compat :: "string \<Rightarrow> PairingState" where
  "deserialize_pairing_state_forward_compat value =
     (if value = ''pending'' then Pending
      else if value = ''approved'' then Approved
      else if value = ''rejected'' then Rejected
      else if value = ''expired'' then Expired
      else if value = ''unknown'' then Unknown
      else Unknown)"

record DevicePairingRequest =
  req_request_id :: string
  req_device_id :: string
  req_public_key :: string
  req_state :: PairingState
  req_role :: "string option"
  req_requested_roles :: "string list"
  req_requested_scopes :: "string list"
  req_display_name :: "string option"
  req_platform :: "string option"
  req_client_id :: "string option"
  req_client_mode :: "string option"
  req_remote_ip :: "string option"
  req_silent :: "bool option"
  req_is_repair :: "bool option"
  req_created_at_ms :: u64
  req_resolved_at_ms :: "u64 option"
  req_rejection_reason :: "string option"

record PairingRequestOutcome =
  out_request :: DevicePairingRequest
  out_created :: bool

record DeviceMetadataPatch =
  patch_display_name :: "string option"
  patch_platform :: "string option"
  patch_client_id :: "string option"
  patch_client_mode :: "string option"
  patch_remote_ip :: "string option"
  patch_role :: "string option"
  patch_scopes :: "string list option"

record PairedDevice =
  pd_device_id :: string
  pd_public_key :: string
  pd_roles :: "string list"
  pd_scopes :: "string list"
  pd_display_name :: "string option"
  pd_platform :: "string option"
  pd_client_id :: "string option"
  pd_client_mode :: "string option"
  pd_remote_ip :: "string option"
  pd_paired_at_ms :: u64
  pd_last_seen_ms :: "u64 option"

record DeviceToken =
  tok_token_hash :: string
  tok_device_id :: string
  tok_role :: string
  tok_scopes :: "string list"
  tok_issued_at_ms :: u64
  tok_expires_at_ms :: u64
  tok_revoked :: bool

record IssuedDeviceToken =
  iss_token :: string
  iss_role :: string
  iss_scopes :: "string list"
  iss_issued_at_ms :: u64

record DevicePairingStore =
  st_version :: u32
  st_pending_requests :: "(string, DevicePairingRequest) hmap"
  st_paired_devices :: "(string, PairedDevice) hmap"
  st_tokens :: "(string, DeviceToken) hmap"

definition DevicePairingStore_VERSION :: u32 where "DevicePairingStore_VERSION = 1"

definition DevicePairingStore_new :: DevicePairingStore where
  "DevicePairingStore_new =
     \<lparr> st_version = DevicePairingStore_VERSION, st_pending_requests = [], st_paired_devices = [],
       st_tokens = [] \<rparr>"

datatype DevicePairingError =
    RequestNotFound
  | RequestAlreadyResolved
  | RequestExpired
  | DeviceNotPaired
  | DeviceAlreadyPaired
  | PublicKeyMismatch
  | TokenInvalid
  | TokenExpired
  | TokenRevoked
  | RoleNotAllowed
  | ScopeNotAllowed
  | TooManyPendingRequests
  | TooManyPairedDevices
  | IoError string
  | JsonError string

fun DevicePairingError_fmt :: "DevicePairingError \<Rightarrow> string" where
  "DevicePairingError_fmt RequestNotFound = ''pairing request not found''"
| "DevicePairingError_fmt RequestAlreadyResolved = ''pairing request already resolved''"
| "DevicePairingError_fmt RequestExpired = ''pairing request expired''"
| "DevicePairingError_fmt DeviceNotPaired = ''device not paired''"
| "DevicePairingError_fmt DeviceAlreadyPaired = ''device already paired''"
| "DevicePairingError_fmt PublicKeyMismatch = ''device public key mismatch''"
| "DevicePairingError_fmt TokenInvalid = ''token invalid''"
| "DevicePairingError_fmt TokenExpired = ''token expired''"
| "DevicePairingError_fmt TokenRevoked = ''token revoked''"
| "DevicePairingError_fmt RoleNotAllowed = ''role not allowed for this device''"
| "DevicePairingError_fmt ScopeNotAllowed = ''scope not allowed for this device''"
| "DevicePairingError_fmt TooManyPendingRequests = ''too many pending pairing requests''"
| "DevicePairingError_fmt TooManyPairedDevices = ''too many paired devices''"
| "DevicePairingError_fmt (IoError msg) = ''I/O error: '' @ msg"
| "DevicePairingError_fmt (JsonError msg) = ''JSON error: '' @ msg"

record DevicePairingRegistry =
  reg_store :: DevicePairingStore
  reg_storage_path :: string
  reg_auto_save :: bool
  reg_disk :: "DevicePairingStore option"

subsection \<open>Requests, devices and tokens\<close>

definition DevicePairingRequest_new ::
    "env \<Rightarrow> string \<Rightarrow> string \<Rightarrow> string list \<Rightarrow> string list \<Rightarrow> string option \<Rightarrow> string option
      \<Rightarrow> string option \<Rightarrow> string option \<Rightarrow> string option \<Rightarrow> bool option \<Rightarrow> bool option
      \<Rightarrow> DevicePairingRequest" where
  "DevicePairingRequest_new e device_id public_key requested_roles requested_scopes display_name
       platform client_id client_mode remote_ip silent is_repair =
     \<lparr> req_request_id = env_uuid e, req_device_id = device_id, req_public_key = public_key,
       req_state = Pending,
       req_role = (case requested_roles of [] \<Rightarrow> None | r # _ \<Rightarrow> Some r),
       req_requested_roles = requested_roles, req_requested_scopes = requested_scopes,
       req_display_name = display_name, req_platform = platform, req_client_id = client_id,
       req_client_mode = client_mode, req_remote_ip = remote_ip, req_silent = silent,
       req_is_repair = is_repair, req_created_at_ms = env_now e, req_resolved_at_ms = None,
       req_rejection_reason = None \<rparr>"

definition is_expired :: "u64 \<Rightarrow> DevicePairingRequest \<Rightarrow> bool" where
  "is_expired now r =
     (if req_state r \<noteq> Pending then False
      else u64_saturating_sub now (req_created_at_ms r) > PAIRING_REQUEST_EXPIRY_MS)"

definition approve :: "u64 \<Rightarrow> DevicePairingRequest \<Rightarrow> DevicePairingRequest" where
  "approve now r = r\<lparr>req_state := Approved, req_resolved_at_ms := Some now\<rparr>"

definition reject :: "u64 \<Rightarrow> string option \<Rightarrow> DevicePairingRequest \<Rightarrow> DevicePairingRequest" where
  "reject now reason r =
     r\<lparr>req_state := Rejected, req_resolved_at_ms := Some now, req_rejection_reason := reason\<rparr>"

definition mark_expired :: "u64 \<Rightarrow> DevicePairingRequest \<Rightarrow> DevicePairingRequest" where
  "mark_expired now r = r\<lparr>req_state := Expired, req_resolved_at_ms := Some now\<rparr>"

definition PairedDevice_from_request ::
    "u64 \<Rightarrow> DevicePairingRequest \<Rightarrow> string list \<Rightarrow> string list \<Rightarrow> PairedDevice" where
  "PairedDevice_from_request now r roles scopes =
     \<lparr> pd_device_id = req_device_id r, pd_public_key = req_public_key r, pd_roles = roles,
       pd_scopes = scopes, pd_display_name = req_display_name r, pd_platform = req_platform r,
       pd_client_id = req_client_id r, pd_client_mode = req_client_mode r,
       pd_remote_ip = req_remote_ip r, pd_paired_at_ms = now, pd_last_seen_ms = None \<rparr>"

definition touch :: "u64 \<Rightarrow> PairedDevice \<Rightarrow> PairedDevice" where
  "touch now d = d\<lparr>pd_last_seen_ms := Some now\<rparr>"

definition DeviceToken_new ::
    "(string \<Rightarrow> string) \<Rightarrow> env \<Rightarrow> string \<Rightarrow> string \<Rightarrow> string list \<Rightarrow> DeviceToken \<times> string" where
  "DeviceToken_new H e device_id role scopes =
     (\<lparr> tok_token_hash = H (env_uuid e), tok_device_id = device_id, tok_role = role,
        tok_scopes = scopes, tok_issued_at_ms = env_now e,
        tok_expires_at_ms = u64_add (env_now e) DEVICE_TOKEN_EXPIRY_MS, tok_revoked = False \<rparr>,
      env_uuid e)"

definition is_valid :: "u64 \<Rightarrow> DeviceToken \<Rightarrow> bool" where
  "is_valid now t = (\<not> tok_revoked t \<and> now < tok_expires_at_ms t)"

text \<open>
  \<^verbatim>\<open>constant_time_eq\<close> ORs the XOR of the bytes into an accumulator. Bytes are read as natural
  numbers below 256, on which \<open>or\<close> and \<open>xor\<close> are the bitwise operations.
\<close>

definition constant_time_eq :: "string \<Rightarrow> string \<Rightarrow> bool" where
  "constant_time_eq a b =
     (if length a \<noteq> length b then False
      else fold (\<lambda>(x, y) result. or result (xor (of_char x) (of_char y))) (zip a b) (0::nat) = 0)"

definition verify :: "(string \<Rightarrow> string) \<Rightarrow> u64 \<Rightarrow> string \<Rightarrow> DeviceToken \<Rightarrow> bool" where
  "verify H now token t =
     (if \<not> is_valid now t then False else constant_time_eq (tok_token_hash t) (H token))"

definition revoke :: "DeviceToken \<Rightarrow> DeviceToken" where
  "revoke t = t\<lparr>tok_revoked := True\<rparr>"

definition scopes_allow :: "string list \<Rightarrow> string list \<Rightarrow> bool" where
  "scopes_allow requested allowed =
     (if requested = [] then True
      else if allowed = [] then False
      else list_all (\<lambda>scope. scope \<in> set allowed) requested)"

subsection \<open>Loading and saving\<close>

definition in_memory :: DevicePairingRegistry where
  "in_memory =
     \<lparr> reg_store = DevicePairingStore_new, reg_storage_path = [], reg_auto_save = False,
       reg_disk = None \<rparr>"

text \<open>
  \<open>read\<close> is the outcome of the capped read of the file: an error text, no file, or its bytes.
  The second component of the result says whether the file was set aside as corrupt (the
  rename may fail, \<open>rename_ok\<close>).
\<close>

definition load_or_create ::
    "('b \<Rightarrow> string + string) \<Rightarrow> (string \<Rightarrow> string + DevicePairingStore) \<Rightarrow> string \<Rightarrow> bool
      \<Rightarrow> string + 'b option \<Rightarrow> (DevicePairingError + DevicePairingStore) \<times> bool" where
  "load_or_create from_utf8 from_json path rename_ok read =
     (case read of
        Inl err \<Rightarrow> (Inl (IoError err), False)
      | Inr None \<Rightarrow> (Inr DevicePairingStore_new, False)
      | Inr (Some bytes) \<Rightarrow>
          (case from_utf8 bytes of
             Inl err \<Rightarrow>
               (Inl (IoError (''device pairing store at '' @ path @ '' is not valid UTF-8: '' @ err)),
                False)
           | Inr content \<Rightarrow>
               (case from_json content of
                  Inl err \<Rightarrow> (Inl (JsonError err), rename_ok)
                | Inr store \<Rightarrow>
                    if st_version store > DevicePairingStore_VERSION
                    then (Inl (JsonError
                           (''device pairing store was written by a newer daemon (file version '' @
                            string_of_nat (st_version store) @
                            '', this binary supports up to '' @
                            string_of_nat DevicePairingStore_VERSION @
                            ''); upgrade Carapace before continuing'')), False)
                    else (Inr store, False))))"

definition DevicePairingRegistry_new ::
    "('b \<Rightarrow> string + string) \<Rightarrow> (string \<Rightarrow> string + DevicePairingStore) \<Rightarrow> string \<Rightarrow> bool
      \<Rightarrow> string + 'b option \<Rightarrow> DevicePairingError + DevicePairingRegistry" where
  "DevicePairingRegistry_new from_utf8 from_json path rename_ok read =
     (case fst (load_or_create from_utf8 from_json path rename_ok read) of
        Inl err \<Rightarrow> Inl err
      | Inr store \<Rightarrow>
          Inr \<lparr> reg_store = store, reg_storage_path = path, reg_auto_save = True,
                reg_disk = (case read of Inr (Some _) \<Rightarrow> Some store | _ \<Rightarrow> None) \<rparr>)"

fun save_result :: "save_fault option \<Rightarrow> DevicePairingError + unit" where
  "save_result None = Inr ()"
| "save_result (Some (Fault_serialize m)) = Inl (JsonError m)"
| "save_result (Some (Fault_mkdir m)) = Inl (IoError m)"
| "save_result (Some (Fault_create_tmp m)) = Inl (IoError m)"
| "save_result (Some (Fault_write m)) = Inl (IoError m)"
| "save_result (Some (Fault_sync m)) = Inl (IoError m)"
| "save_result (Some (Fault_rename m)) = Inl (IoError m)"
| "save_result (Some (Fault_parent_sync m)) = Inl (IoError m)"

definition save :: "env \<Rightarrow> DevicePairingRegistry \<Rightarrow> (DevicePairingError + unit) \<times> DevicePairingRegistry" where
  "save e reg =
     (if \<not> reg_auto_save reg \<or> reg_storage_path reg = [] then (Inr (), reg)
      else (save_result (env_fault e),
            reg\<lparr>reg_disk := write_file (env_fault e) (reg_store reg) (reg_disk reg)\<rparr>))"

text \<open>The callers log a failed save and go on.\<close>

definition commit :: "env \<Rightarrow> DevicePairingStore \<Rightarrow> DevicePairingRegistry \<Rightarrow> DevicePairingRegistry" where
  "commit e st reg = snd (save e (reg\<lparr>reg_store := st\<rparr>))"

subsection \<open>Pairing requests\<close>

definition cleanup_store :: "u64 \<Rightarrow> DevicePairingStore \<Rightarrow> DevicePairingStore" where
  "cleanup_store now st =
     (let pending = hm_map_values (\<lambda>r. if is_expired now r then mark_expired now r else r)
                      (st_pending_requests st);
          cutoff = u64_saturating_sub now (60 * 60 * 1000);
          pending = hm_retain (\<lambda>_ r. req_state r = Pending \<or>
                      (case req_resolved_at_ms r of Some t \<Rightarrow> t > cutoff | None \<Rightarrow> True)) pending;
          tokens = hm_retain (\<lambda>_ t. \<not> tok_revoked t \<or> tok_expires_at_ms t > cutoff) (st_tokens st)
      in st\<lparr>st_pending_requests := pending, st_tokens := tokens\<rparr>)"

definition cleanup_expired :: "u64 \<Rightarrow> DevicePairingRegistry \<Rightarrow> DevicePairingRegistry" where
  "cleanup_expired now reg = reg\<lparr>reg_store := cleanup_store now (reg_store reg)\<rparr>"

definition with_auto_save ::
    "('b \<Rightarrow> string + string) \<Rightarrow> (string \<Rightarrow> string + DevicePairingStore) \<Rightarrow> string \<Rightarrow> bool \<Rightarrow> bool
      \<Rightarrow> string + 'b option \<Rightarrow> DevicePairingError + DevicePairingRegistry" where
  "with_auto_save from_utf8 from_json path auto_save rename_ok read =
     (case fst (load_or_create from_utf8 from_json path rename_ok read) of
        Inl err \<Rightarrow> Inl err
      | Inr store \<Rightarrow>
          Inr \<lparr> reg_store = store, reg_storage_path = path, reg_auto_save = auto_save,
                reg_disk = (case read of Inr (Some _) \<Rightarrow> Some store | _ \<Rightarrow> None) \<rparr>)"

definition request_pairing_with_status ::
    "env \<Rightarrow> string \<Rightarrow> string \<Rightarrow> string list \<Rightarrow> string list \<Rightarrow> string option \<Rightarrow> string option
      \<Rightarrow> string option \<Rightarrow> string option \<Rightarrow> string option \<Rightarrow> bool option \<Rightarrow> DevicePairingRegistry
      \<Rightarrow> (DevicePairingError + PairingRequestOutcome) \<times> DevicePairingRegistry" where
  "request_pairing_with_status e device_id public_key requested_roles requested_scopes display_name
       platform client_id client_mode remote_ip silent reg =
     (let reg = cleanup_expired (env_now e) reg;
          st = reg_store reg;
          same = (\<lambda>r. req_device_id r = device_id \<and> req_state r = Pending)
      in case find same (hm_values (st_pending_requests st)) of
           Some existing \<Rightarrow>
             if req_public_key existing \<noteq> public_key then (Inl PublicKeyMismatch, reg)
             else (Inr \<lparr>out_request = existing, out_created = False\<rparr>, reg)
         | None \<Rightarrow>
             if hm_count (\<lambda>r. req_state r = Pending) (st_pending_requests st) \<ge> MAX_PENDING_REQUESTS
             then (Inl TooManyPendingRequests, reg)
             else let is_repair = hm_contains (st_paired_devices st) device_id;
                      request = DevicePairingRequest_new e device_id public_key requested_roles
                        requested_scopes display_name platform client_id client_mode remote_ip silent
                        (Some is_repair);
                      st' = st\<lparr>st_pending_requests :=
                              hm_insert (req_request_id request) request (st_pending_requests st)\<rparr>
                  in (Inr \<lparr>out_request = request, out_created = True\<rparr>, commit e st' reg))"

definition request_pairing ::
    "env \<Rightarrow> string \<Rightarrow> string \<Rightarrow> string list \<Rightarrow> string list \<Rightarrow> string option \<Rightarrow> string option
      \<Rightarrow> string option \<Rightarrow> string option \<Rightarrow> string option \<Rightarrow> bool option \<Rightarrow> DevicePairingRegistry
      \<Rightarrow> (DevicePairingError + DevicePairingRequest) \<times> DevicePairingRegistry" where
  "request_pairing e device_id public_key requested_roles requested_scopes display_name platform
       client_id client_mode remote_ip silent reg =
     (case request_pairing_with_status e device_id public_key requested_roles requested_scopes
             display_name platform client_id client_mode remote_ip silent reg of
        (Inl err, reg') \<Rightarrow> (Inl err, reg')
      | (Inr outcome, reg') \<Rightarrow> (Inr (out_request outcome), reg'))"

definition list_requests ::
    "env \<Rightarrow> DevicePairingRegistry
      \<Rightarrow> (DevicePairingRequest list \<times> DevicePairingRequest list) \<times> DevicePairingRegistry" where
  "list_requests e reg =
     (let reg = cleanup_expired (env_now e) reg;
          values = hm_values (st_pending_requests (reg_store reg))
      in ((filter (\<lambda>r. req_state r = Pending) values, filter (\<lambda>r. req_state r \<noteq> Pending) values),
          reg))"

definition get_request :: "string \<Rightarrow> DevicePairingRegistry \<Rightarrow> DevicePairingRequest option" where
  "get_request request_id reg = hm_get (st_pending_requests (reg_store reg)) request_id"

definition evict_oldest_device :: "DevicePairingStore \<Rightarrow> DevicePairingStore" where
  "evict_oldest_device st =
     (if length (st_paired_devices st) \<ge> MAX_PAIRED_DEVICES
      then case first_min_by (\<lambda>d. (pd_paired_at_ms d, pd_device_id d))
                  (hm_values (st_paired_devices st)) of
             Some d \<Rightarrow>
               st\<lparr>st_paired_devices := hm_remove (pd_device_id d) (st_paired_devices st),
                  st_tokens := hm_retain (\<lambda>_ t. tok_device_id t \<noteq> pd_device_id d) (st_tokens st)\<rparr>
           | None \<Rightarrow> st
      else st)"

definition approve_request ::
    "(string \<Rightarrow> string) \<Rightarrow> env \<Rightarrow> string \<Rightarrow> string list \<Rightarrow> string list \<Rightarrow> DevicePairingRegistry
      \<Rightarrow> (DevicePairingError + PairedDevice \<times> string) \<times> DevicePairingRegistry" where
  "approve_request H e request_id roles scopes reg =
     (let now = env_now e; st = reg_store reg in
      case hm_get (st_pending_requests st) request_id of
        None \<Rightarrow> (Inl RequestNotFound, reg)
      | Some request \<Rightarrow>
          if req_state request \<noteq> Pending then (Inl RequestAlreadyResolved, reg)
          else if is_expired now request
          then (Inl RequestExpired,
                reg\<lparr>reg_store := st\<lparr>st_pending_requests :=
                       hm_modify request_id (mark_expired now) (st_pending_requests st)\<rparr>\<rparr>)
          else
            let device_id = req_device_id request;
                st = evict_oldest_device st;
                st = st\<lparr>st_pending_requests :=
                        hm_modify request_id (approve now) (st_pending_requests st)\<rparr>;
                paired_device = PairedDevice_from_request now request roles scopes;
                st = st\<lparr>st_paired_devices := hm_insert device_id paired_device (st_paired_devices st)\<rparr>;
                default_role = (case roles of r # _ \<Rightarrow> r | [] \<Rightarrow> ''operator'');
                (token_entry, plain_token) = DeviceToken_new H e device_id default_role scopes;
                st = st\<lparr>st_tokens := hm_insert (tok_token_hash token_entry) token_entry (st_tokens st)\<rparr>
            in (Inr (paired_device, plain_token), commit e st reg))"

definition reject_request ::
    "env \<Rightarrow> string \<Rightarrow> string option \<Rightarrow> DevicePairingRegistry
      \<Rightarrow> (DevicePairingError + DevicePairingRequest) \<times> DevicePairingRegistry" where
  "reject_request e request_id reason reg =
     (let st = reg_store reg in
      case hm_get (st_pending_requests st) request_id of
        None \<Rightarrow> (Inl RequestNotFound, reg)
      | Some request \<Rightarrow>
          if req_state request \<noteq> Pending then (Inl RequestAlreadyResolved, reg)
          else (Inr (reject (env_now e) reason request),
                commit e (st\<lparr>st_pending_requests :=
                  hm_modify request_id (reject (env_now e) reason) (st_pending_requests st)\<rparr>) reg))"

subsection \<open>Paired devices\<close>

definition list_paired_devices :: "DevicePairingRegistry \<Rightarrow> PairedDevice list" where
  "list_paired_devices reg = hm_values (st_paired_devices (reg_store reg))"

definition get_paired_device :: "string \<Rightarrow> DevicePairingRegistry \<Rightarrow> PairedDevice option" where
  "get_paired_device device_id reg = hm_get (st_paired_devices (reg_store reg)) device_id"

definition latest_token_scopes ::
    "string \<Rightarrow> string \<Rightarrow> DevicePairingRegistry \<Rightarrow> string list option" where
  "latest_token_scopes device_id role reg =
     (let st = reg_store reg in
      if \<not> hm_contains (st_paired_devices st) device_id then None
      else map_option tok_scopes
             (last_max_by tok_issued_at_ms
               (filter (\<lambda>t. tok_device_id t = device_id \<and> tok_role t = role)
                 (hm_values (st_tokens st)))))"

definition is_paired :: "string \<Rightarrow> DevicePairingRegistry \<Rightarrow> bool" where
  "is_paired device_id reg = hm_contains (st_paired_devices (reg_store reg)) device_id"

definition is_paired_with_key :: "string \<Rightarrow> string \<Rightarrow> DevicePairingRegistry \<Rightarrow> bool" where
  "is_paired_with_key device_id public_key reg =
     (case hm_get (st_paired_devices (reg_store reg)) device_id of
        Some d \<Rightarrow> pd_public_key d = public_key | None \<Rightarrow> False)"

definition touch_device :: "env \<Rightarrow> string \<Rightarrow> DevicePairingRegistry \<Rightarrow> DevicePairingRegistry" where
  "touch_device e device_id reg =
     (let st = reg_store reg in
      reg\<lparr>reg_store := st\<lparr>st_paired_devices :=
            hm_modify device_id (touch (env_now e)) (st_paired_devices st)\<rparr>\<rparr>)"

definition push_new :: "string \<Rightarrow> string list \<Rightarrow> string list" where
  "push_new x xs = (if x \<in> set xs then xs else xs @ [x])"

definition apply_patch :: "u64 \<Rightarrow> DeviceMetadataPatch \<Rightarrow> PairedDevice \<Rightarrow> PairedDevice" where
  "apply_patch now p d =
     (let d = (case patch_display_name p of Some v \<Rightarrow> d\<lparr>pd_display_name := Some v\<rparr> | None \<Rightarrow> d);
          d = (case patch_platform p of Some v \<Rightarrow> d\<lparr>pd_platform := Some v\<rparr> | None \<Rightarrow> d);
          d = (case patch_client_id p of Some v \<Rightarrow> d\<lparr>pd_client_id := Some v\<rparr> | None \<Rightarrow> d);
          d = (case patch_client_mode p of Some v \<Rightarrow> d\<lparr>pd_client_mode := Some v\<rparr> | None \<Rightarrow> d);
          d = (case patch_remote_ip p of Some v \<Rightarrow> d\<lparr>pd_remote_ip := Some v\<rparr> | None \<Rightarrow> d);
          d = (case patch_role p of Some r \<Rightarrow> d\<lparr>pd_roles := push_new r (pd_roles d)\<rparr> | None \<Rightarrow> d);
          d = (case patch_scopes p of
                 Some ss \<Rightarrow> d\<lparr>pd_scopes := fold push_new ss (pd_scopes d)\<rparr> | None \<Rightarrow> d)
      in touch now d)"

definition update_metadata ::
    "env \<Rightarrow> string \<Rightarrow> DeviceMetadataPatch \<Rightarrow> DevicePairingRegistry
      \<Rightarrow> (DevicePairingError + unit) \<times> DevicePairingRegistry" where
  "update_metadata e device_id p reg =
     (let st = reg_store reg in
      if \<not> hm_contains (st_paired_devices st) device_id then (Inl DeviceNotPaired, reg)
      else (Inr (), commit e (st\<lparr>st_paired_devices :=
              hm_modify device_id (apply_patch (env_now e) p) (st_paired_devices st)\<rparr>) reg))"

definition unpair_device ::
    "env \<Rightarrow> string \<Rightarrow> DevicePairingRegistry
      \<Rightarrow> (DevicePairingError + PairedDevice) \<times> DevicePairingRegistry" where
  "unpair_device e device_id reg =
     (let st = reg_store reg in
      case hm_get (st_paired_devices st) device_id of
        None \<Rightarrow> (Inl DeviceNotPaired, reg)
      | Some device \<Rightarrow>
          (Inr device,
           commit e (st\<lparr>st_paired_devices := hm_remove device_id (st_paired_devices st),
                        st_tokens := hm_map_values
                          (\<lambda>t. if tok_device_id t = device_id then revoke t else t)
                          (st_tokens st)\<rparr>) reg))"

subsection \<open>Tokens\<close>

text \<open>The role and scope checks on a paired device; an empty list does not restrict.\<close>

definition role_allowed :: "string \<Rightarrow> PairedDevice \<Rightarrow> bool" where
  "role_allowed role d \<longleftrightarrow> \<not> (role \<notin> set (pd_roles d) \<and> pd_roles d \<noteq> [])"

definition verify_token ::
    "(string \<Rightarrow> string) \<Rightarrow> u64 \<Rightarrow> string \<Rightarrow> string \<Rightarrow> string option \<Rightarrow> string list
      \<Rightarrow> DevicePairingRegistry \<Rightarrow> DevicePairingError + unit" where
  "verify_token H now device_id token required_role required_scopes reg =
     (let st = reg_store reg in
      case hm_get (st_paired_devices st) device_id of
        None \<Rightarrow> Inl DeviceNotPaired
      | Some device \<Rightarrow>
          case hm_get (st_tokens st) (H token) of
            None \<Rightarrow> Inl TokenInvalid
          | Some entry \<Rightarrow>
              if tok_device_id entry \<noteq> device_id then Inl TokenInvalid
              else if tok_revoked entry then Inl TokenRevoked
              else if now \<ge> tok_expires_at_ms entry then Inl TokenExpired
              else
                let role_check =
                      (case required_role of
                         None \<Rightarrow> Inr ()
                       | Some role \<Rightarrow>
                           if tok_role entry \<noteq> role then Inl TokenInvalid
                           else if \<not> role_allowed role device then Inl RoleNotAllowed
                           else Inr ())
                in case role_check of
                     Inl err \<Rightarrow> Inl err
                   | Inr _ \<Rightarrow>
                       if required_scopes \<noteq> [] then
                         if \<not> scopes_allow required_scopes (tok_scopes entry) then Inl ScopeNotAllowed
                         else if \<not> scopes_allow required_scopes (pd_scopes device)
                                  \<and> pd_scopes device \<noteq> [] then Inl ScopeNotAllowed
                         else Inr ()
                       else Inr ())"

definition evict_oldest_token :: "(string, DeviceToken) hmap \<Rightarrow> (string, DeviceToken) hmap" where
  "evict_oldest_token tokens =
     (if length tokens \<ge> MAX_DEVICE_TOKENS
      then case first_min_by (\<lambda>(_, t). tok_issued_at_ms t) tokens of
             Some (oldest_hash, _) \<Rightarrow> hm_remove oldest_hash tokens
           | None \<Rightarrow> tokens
      else tokens)"

definition issue_token ::
    "(string \<Rightarrow> string) \<Rightarrow> env \<Rightarrow> string \<Rightarrow> string \<Rightarrow> string list \<Rightarrow> DevicePairingRegistry
      \<Rightarrow> (DevicePairingError + IssuedDeviceToken) \<times> DevicePairingRegistry" where
  "issue_token H e device_id role scopes reg =
     (let st = reg_store reg in
      case hm_get (st_paired_devices st) device_id of
        None \<Rightarrow> (Inl DeviceNotPaired, reg)
      | Some device \<Rightarrow>
          if \<not> role_allowed role device then (Inl RoleNotAllowed, reg)
          else if \<not> list_all (\<lambda>scope. \<not> (scope \<notin> set (pd_scopes device) \<and> pd_scopes device \<noteq> [])) scopes
          then (Inl ScopeNotAllowed, reg)
          else
            let tokens = evict_oldest_token (st_tokens st);
                (token_entry, plain_token) = DeviceToken_new H e device_id role scopes;
                issued_at_ms = tok_issued_at_ms token_entry;
                tokens = hm_insert (tok_token_hash token_entry) token_entry tokens
            in (Inr \<lparr>iss_token = plain_token, iss_role = role, iss_scopes = scopes,
                     iss_issued_at_ms = issued_at_ms\<rparr>,
                commit e (st\<lparr>st_tokens := tokens\<rparr>) reg))"

definition rotate_token ::
    "(string \<Rightarrow> string) \<Rightarrow> env \<Rightarrow> string \<Rightarrow> string \<Rightarrow> string list \<Rightarrow> DevicePairingRegistry
      \<Rightarrow> (DevicePairingError + IssuedDeviceToken) \<times> DevicePairingRegistry" where
  "rotate_token H e device_id role scopes reg =
     (let st = reg_store reg in
      case hm_get (st_paired_devices st) device_id of
        None \<Rightarrow> (Inl DeviceNotPaired, reg)
      | Some device \<Rightarrow>
          if \<not> role_allowed role device then (Inl RoleNotAllowed, reg)
          else if \<not> scopes_allow scopes (pd_scopes device) \<and> pd_scopes device \<noteq> []
          then (Inl ScopeNotAllowed, reg)
          else
            let tokens = hm_map_values
                  (\<lambda>t. if tok_device_id t = device_id \<and> tok_role t = role \<and> \<not> tok_revoked t
                       then revoke t else t) (st_tokens st);
                tokens = evict_oldest_token tokens;
                (token_entry, plain_token) = DeviceToken_new H e device_id role scopes;
                issued_at_ms = tok_issued_at_ms token_entry;
                tokens = hm_insert (tok_token_hash token_entry) token_entry tokens
            in (Inr \<lparr>iss_token = plain_token, iss_role = role, iss_scopes = scopes,
                     iss_issued_at_ms = issued_at_ms\<rparr>,
                commit e (st\<lparr>st_tokens := tokens\<rparr>) reg))"

definition ensure_token ::
    "(string \<Rightarrow> string) \<Rightarrow> env \<Rightarrow> string \<Rightarrow> string \<Rightarrow> string list \<Rightarrow> DevicePairingRegistry
      \<Rightarrow> (DevicePairingError + IssuedDeviceToken) \<times> DevicePairingRegistry" where
  "ensure_token H e device_id role scopes reg =
     (case hm_get (st_paired_devices (reg_store reg)) device_id of
        None \<Rightarrow> (Inl DeviceNotPaired, reg)
      | Some device \<Rightarrow>
          if \<not> role_allowed role device then (Inl RoleNotAllowed, reg)
          else if \<not> scopes_allow scopes (pd_scopes device) \<and> pd_scopes device \<noteq> []
          then (Inl ScopeNotAllowed, reg)
          else rotate_token H e device_id role scopes reg)"

definition revoke_token ::
    "env \<Rightarrow> string \<Rightarrow> string \<Rightarrow> DevicePairingRegistry
      \<Rightarrow> (DevicePairingError + u64) \<times> DevicePairingRegistry" where
  "revoke_token e device_id role reg =
     (let st = reg_store reg;
          hit = (\<lambda>t. tok_device_id t = device_id \<and> tok_role t = role \<and> \<not> tok_revoked t) in
      if \<not> hm_contains (st_paired_devices st) device_id then (Inl DeviceNotPaired, reg)
      else
        let st' = st\<lparr>st_tokens := hm_map_values (\<lambda>t. if hit t then revoke t else t) (st_tokens st)\<rparr>;
            revoked = list_ex hit (hm_values (st_tokens st))
        in if \<not> revoked then (Inl TokenInvalid, reg\<lparr>reg_store := st'\<rparr>)
           else (Inr (env_now e), commit e st' reg))"

definition revoke_tokens ::
    "env \<Rightarrow> string \<Rightarrow> DevicePairingRegistry \<Rightarrow> (DevicePairingError + usize) \<times> DevicePairingRegistry" where
  "revoke_tokens e device_id reg =
     (let st = reg_store reg;
          hit = (\<lambda>t. tok_device_id t = device_id \<and> \<not> tok_revoked t) in
      if \<not> hm_contains (st_paired_devices st) device_id then (Inl DeviceNotPaired, reg)
      else
        (Inr (hm_count hit (st_tokens st)),
         commit e (st\<lparr>st_tokens :=
           hm_map_values (\<lambda>t. if hit t then revoke t else t) (st_tokens st)\<rparr>) reg))"

subsection \<open>The operations as steps\<close>

datatype device_op =
    Op_request env string string "string list" "string list" "string option" "string option"
      "string option" "string option" "string option" "bool option"
  | Op_list env
  | Op_approve env string "string list" "string list"
  | Op_reject env string "string option"
  | Op_touch env string
  | Op_update env string DeviceMetadataPatch
  | Op_unpair env string
  | Op_issue env string string "string list"
  | Op_rotate env string string "string list"
  | Op_ensure env string string "string list"
  | Op_revoke_role env string string
  | Op_revoke env string

fun device_step :: "(string \<Rightarrow> string) \<Rightarrow> device_op \<Rightarrow> DevicePairingRegistry \<Rightarrow> DevicePairingRegistry" where
  "device_step H (Op_request e d k rs ss n p c m i s) reg =
     snd (request_pairing_with_status e d k rs ss n p c m i s reg)"
| "device_step H (Op_list e) reg = snd (list_requests e reg)"
| "device_step H (Op_approve e i rs ss) reg = snd (approve_request H e i rs ss reg)"
| "device_step H (Op_reject e i r) reg = snd (reject_request e i r reg)"
| "device_step H (Op_touch e d) reg = touch_device e d reg"
| "device_step H (Op_update e d p) reg = snd (update_metadata e d p reg)"
| "device_step H (Op_unpair e d) reg = snd (unpair_device e d reg)"
| "device_step H (Op_issue e d r ss) reg = snd (issue_token H e d r ss reg)"
| "device_step H (Op_rotate e d r ss) reg = snd (rotate_token H e d r ss reg)"
| "device_step H (Op_ensure e d r ss) reg = snd (ensure_token H e d r ss reg)"
| "device_step H (Op_revoke_role e d r) reg = snd (revoke_token e d r reg)"
| "device_step H (Op_revoke e d) reg = snd (revoke_tokens e d reg)"

fun device_mints :: "(string \<Rightarrow> string) \<Rightarrow> device_op \<Rightarrow> string \<Rightarrow> bool" where
  "device_mints H (Op_approve e i rs ss) h = (H (env_uuid e) = h)"
| "device_mints H (Op_issue e d r ss) h = (H (env_uuid e) = h)"
| "device_mints H (Op_rotate e d r ss) h = (H (env_uuid e) = h)"
| "device_mints H (Op_ensure e d r ss) h = (H (env_uuid e) = h)"
| "device_mints H _ h = False"

subsection \<open>The registry's invariant\<close>

definition device_store_wf :: "DevicePairingStore \<Rightarrow> bool" where
  "device_store_wf st \<longleftrightarrow>
     requests_wf req_request_id req_device_id (\<lambda>r. req_state r = Pending) MAX_PENDING_REQUESTS
       (st_pending_requests st) \<and>
     peers_wf pd_device_id MAX_PAIRED_DEVICES (st_paired_devices st) \<and>
     tokens_wf tok_token_hash tok_device_id tok_revoked (\<lambda>_. True)
       (st_paired_devices st) (st_tokens st)"

interpretation dtok: token_table tok_token_hash tok_device_id tok_revoked "\<lambda>_. True" revoke
  by unfold_locales (simp_all add: revoke_def)

lemma device_store_commit [simp]: "reg_store (commit e st reg) = st"
  by (simp add: commit_def save_def)

lemma device_store_cleanup [simp]:
  "reg_store (cleanup_expired now reg) = cleanup_store now (reg_store reg)"
  by (simp add: cleanup_expired_def)

lemmas device_wf_rules = requests_wf_map_values requests_wf_modify requests_wf_retain
  dtok.wf_rules peers_wf_insert peers_wf_remove peers_wf_modify

lemma device_store_wf_new: "device_store_wf DevicePairingStore_new"
  by (simp add: device_store_wf_def DevicePairingStore_new_def dtok.wf_empty)

lemma device_cleanup_wf: "device_store_wf st \<Longrightarrow> device_store_wf (cleanup_store now st)"
  unfolding device_store_wf_def cleanup_store_def Let_def
  by (auto intro!: device_wf_rules simp: mark_expired_def)

lemma device_request_wf:
  "device_store_wf (reg_store reg) \<Longrightarrow>
   device_store_wf (reg_store (snd (request_pairing_with_status e d k rs ss n p c m i s reg)))"
  using device_cleanup_wf [of "reg_store reg" "env_now e"]
  by (auto simp: request_pairing_with_status_def Let_def device_store_wf_def
      DevicePairingRequest_new_def intro!: requests_wf_insert split: option.splits)

lemma evict_oldest_device_room:
  assumes "peers_wf pd_device_id MAX_PAIRED_DEVICES (st_paired_devices st)"
  shows "length (st_paired_devices (evict_oldest_device st)) < MAX_PAIRED_DEVICES"
  using assms
  by (auto simp: evict_oldest_device_def hm_values_def MAX_PAIRED_DEVICES_def not_le
      dest: evict_peer_makes_room [unfolded hm_values_def] split: option.splits)

lemma evict_oldest_device_wf: "device_store_wf st \<Longrightarrow> device_store_wf (evict_oldest_device st)"
  by (auto simp: evict_oldest_device_def device_store_wf_def intro!: device_wf_rules split: option.splits)

lemma device_approve_wf:
  assumes "device_store_wf (reg_store reg)"
  shows "device_store_wf (reg_store (snd (approve_request H e i rs ss reg)))"
proof -
  note wf = evict_oldest_device_wf [OF assms]
  have len: "length (st_paired_devices (evict_oldest_device (reg_store reg))) < MAX_PAIRED_DEVICES"
    using assms by (simp add: evict_oldest_device_room device_store_wf_def)
  show ?thesis
    using assms wf len
    by (auto simp: approve_request_def Let_def device_store_wf_def mark_expired_def approve_def
        PairedDevice_from_request_def DeviceToken_new_def split: option.splits
        intro!: device_wf_rules intro: dtok.wf_peers_mono)
qed

lemma device_reject_wf:
  "device_store_wf (reg_store reg) \<Longrightarrow> device_store_wf (reg_store (snd (reject_request e i r reg)))"
  by (auto simp: reject_request_def Let_def device_store_wf_def reject_def
      intro!: device_wf_rules split: option.splits)

lemma device_store_wf_modify_peer:
  "device_store_wf st \<Longrightarrow> (\<And>d. pd_device_id (f d) = pd_device_id d) \<Longrightarrow>
   device_store_wf (st\<lparr>st_paired_devices := hm_modify k f (st_paired_devices st)\<rparr>)"
  by (auto simp: device_store_wf_def intro!: device_wf_rules intro: dtok.wf_peers_mono)

lemma device_unpair_wf:
  "device_store_wf (reg_store reg) \<Longrightarrow> device_store_wf (reg_store (snd (unpair_device e d reg)))"
  by (auto simp: unpair_device_def Let_def device_store_wf_def intro!: device_wf_rules
      split: option.splits)

lemma dtok_wf_evict: "dtok.twf devices m \<Longrightarrow> dtok.twf devices (evict_oldest_token m)"
  by (auto simp: evict_oldest_token_def dtok.wf_remove split: option.splits)

lemma device_issue_wf:
  "device_store_wf (reg_store reg) \<Longrightarrow> device_store_wf (reg_store (snd (issue_token H e d r ss reg)))"
  by (auto simp: issue_token_def Let_def device_store_wf_def DeviceToken_new_def hm_contains_def
      intro!: device_wf_rules dtok_wf_evict split: option.splits)

lemma device_rotate_wf:
  "device_store_wf (reg_store reg) \<Longrightarrow> device_store_wf (reg_store (snd (rotate_token H e d r ss reg)))"
  by (auto simp: rotate_token_def Let_def device_store_wf_def DeviceToken_new_def hm_contains_def
      intro!: device_wf_rules dtok_wf_evict split: option.splits)

lemma device_revoke_wf:
  "device_store_wf (reg_store reg) \<Longrightarrow> device_store_wf (reg_store (snd (revoke_token e d r reg)))"
  "device_store_wf (reg_store reg) \<Longrightarrow> device_store_wf (reg_store (snd (revoke_tokens e d reg)))"
  by (auto simp: revoke_token_def revoke_tokens_def Let_def device_store_wf_def intro!: device_wf_rules)

lemma apply_patch_device_id [simp]: "pd_device_id (apply_patch now p d) = pd_device_id d"
  by (simp add: apply_patch_def touch_def Let_def split: option.split)

lemma ensure_token_eq_rotate: "ensure_token H e d r ss reg = rotate_token H e d r ss reg"
  by (simp add: ensure_token_def rotate_token_def Let_def split: option.split)

lemma device_step_wf:
  "device_store_wf (reg_store reg) \<Longrightarrow> device_store_wf (reg_store (device_step H a reg))"
  by (cases a)
    (auto simp: device_request_wf device_approve_wf device_reject_wf device_unpair_wf
      device_issue_wf device_rotate_wf device_revoke_wf device_cleanup_wf list_requests_def Let_def
      update_metadata_def touch_device_def touch_def device_store_wf_modify_peer
      ensure_token_eq_rotate)

subsection \<open>Dead tokens stay dead\<close>

definition device_token_dead :: "string \<Rightarrow> DevicePairingRegistry \<Rightarrow> bool" where
  "device_token_dead h reg = tokens_dead tok_revoked h (st_tokens (reg_store reg))"

definition device_accepts :: "(string \<Rightarrow> string) \<Rightarrow> DevicePairingRegistry \<Rightarrow> string \<Rightarrow> bool" where
  "device_accepts H reg h \<longleftrightarrow>
     (\<exists>now d tok role scopes. H tok = h \<and> verify_token H now d tok role scopes reg = Inr ())"

lemma dtok_dead_evict:
  "tokens_dead tok_revoked h m \<Longrightarrow> tokens_dead tok_revoked h (evict_oldest_token m)"
  by (auto simp: evict_oldest_token_def dtok.dead_remove split: option.splits)

lemmas device_dead_rules = dtok.dead_rules dtok_dead_evict

lemma hm_wf_device_tokens: "device_store_wf st \<Longrightarrow> hm_wf (st_tokens st)"
  by (simp add: device_store_wf_def tokens_wf_def)

lemma device_dead_evict_device:
  "device_store_wf st \<Longrightarrow> tokens_dead tok_revoked h (st_tokens st) \<Longrightarrow>
   tokens_dead tok_revoked h (st_tokens (evict_oldest_device st))"
  by (auto simp: evict_oldest_device_def hm_wf_device_tokens intro: dtok.dead_retain split: option.splits)

lemma device_dead_approve:
  "device_store_wf (reg_store reg) \<Longrightarrow> device_token_dead h reg \<Longrightarrow> H (env_uuid e) \<noteq> h \<Longrightarrow>
   device_token_dead h (snd (approve_request H e i rs ss reg))"
  by (auto simp: device_token_dead_def approve_request_def Let_def DeviceToken_new_def
      intro!: device_dead_rules device_dead_evict_device split: option.splits)

lemma device_dead_rotate:
  "device_token_dead h reg \<Longrightarrow> H (env_uuid e) \<noteq> h \<Longrightarrow>
   device_token_dead h (snd (rotate_token H e d r ss reg))"
  by (auto simp: device_token_dead_def rotate_token_def Let_def DeviceToken_new_def
      intro!: device_dead_rules split: option.splits)

lemma device_dead_issue:
  "device_token_dead h reg \<Longrightarrow> H (env_uuid e) \<noteq> h \<Longrightarrow>
   device_token_dead h (snd (issue_token H e d r ss reg))"
  by (auto simp: device_token_dead_def issue_token_def Let_def DeviceToken_new_def
      intro!: device_dead_rules split: option.splits)

lemma device_token_dead_step:
  assumes wf: "device_store_wf (reg_store reg)" and dead: "device_token_dead h reg"
    and fresh: "\<not> device_mints H a h"
  shows "device_token_dead h (device_step H a reg)"
proof (cases a)
  case (Op_request e d k rs ss n p c m i s)
  with dead hm_wf_device_tokens [OF wf] show ?thesis
    by (auto simp: device_token_dead_def request_pairing_with_status_def cleanup_store_def Let_def
        intro!: device_dead_rules split: option.split)
next
  case (Op_list e)
  with dead hm_wf_device_tokens [OF wf] show ?thesis
    by (auto simp: device_token_dead_def list_requests_def cleanup_store_def Let_def
        intro!: device_dead_rules)
next
  case (Op_approve e i rs ss)
  with wf dead fresh show ?thesis by (simp add: device_dead_approve)
next
  case (Op_reject e i r)
  with dead show ?thesis
    by (auto simp: device_token_dead_def reject_request_def Let_def split: option.split)
next
  case (Op_touch e d)
  with dead show ?thesis by (simp add: device_token_dead_def touch_device_def Let_def)
next
  case (Op_update e d p)
  with dead show ?thesis by (simp add: device_token_dead_def update_metadata_def Let_def)
next
  case (Op_unpair e d)
  with dead show ?thesis
    by (auto simp: device_token_dead_def unpair_device_def Let_def intro!: device_dead_rules
        split: option.split)
next
  case (Op_issue e d r ss)
  with dead fresh show ?thesis by (simp add: device_dead_issue)
next
  case (Op_rotate e d r ss)
  with dead fresh show ?thesis by (simp add: device_dead_rotate)
next
  case (Op_ensure e d r ss)
  with dead fresh show ?thesis by (simp add: ensure_token_eq_rotate device_dead_rotate)
next
  case (Op_revoke_role e d r)
  with dead show ?thesis
    by (auto simp: device_token_dead_def revoke_token_def Let_def intro!: device_dead_rules)
next
  case (Op_revoke e d)
  with dead show ?thesis
    by (auto simp: device_token_dead_def revoke_tokens_def Let_def intro!: device_dead_rules)
qed

text \<open>What an accepted token gives, and what suffices for acceptance.\<close>

lemma scopes_allow_iff: "scopes_allow req allowed \<longleftrightarrow> set req \<subseteq> set allowed"
  by (cases req; cases allowed) (auto simp: scopes_allow_def list_all_iff)

lemma device_verify_ok_iff:
  "verify_token H now d tok role scopes reg = Inr () \<longleftrightarrow>
     (\<exists>dev t. get_paired_device d reg = Some dev \<and>
        hm_get (st_tokens (reg_store reg)) (H tok) = Some t \<and>
        tok_device_id t = d \<and> \<not> tok_revoked t \<and> now < tok_expires_at_ms t \<and>
        (\<forall>r. role = Some r \<longrightarrow> tok_role t = r \<and> role_allowed r dev) \<and>
        set scopes \<subseteq> set (tok_scopes t) \<and>
        (set scopes \<subseteq> set (pd_scopes dev) \<or> pd_scopes dev = []))"
  by (cases "hm_get (st_paired_devices (reg_store reg)) d";
      cases "hm_get (st_tokens (reg_store reg)) (H tok)"; cases role; cases scopes)
    (auto simp: verify_token_def get_paired_device_def Let_def scopes_allow_iff)

lemma device_dead_rejected: "device_token_dead h reg \<Longrightarrow> \<not> device_accepts H reg h"
  by (auto simp: device_token_dead_def tokens_dead_def device_accepts_def device_verify_ok_iff)

interpretation device_reg: credential_machine "device_step H" "\<lambda>reg. device_store_wf (reg_store reg)"
    "\<lambda>_ _. True" "device_mints H" device_token_dead "device_accepts H"
  for H :: "string \<Rightarrow> string"
  by unfold_locales (auto simp: device_step_wf device_token_dead_step device_dead_rejected)

text \<open>The byte comparison decides equality.\<close>

subsection \<open>Properties\<close>

text \<open>
  Whatever sequence of operations runs on a fresh device registry, with whatever clock, UUIDs
  and write failures, the registry is well-formed: maps keyed by their values' identifiers, every
  live token owned by a paired device, at most one pending request per device, at most
  \<^verbatim>\<open>MAX_PAIRED_DEVICES\<close> devices and \<^verbatim>\<open>MAX_PENDING_REQUESTS\<close> pending requests.
\<close>

theorem device_registry_invariant:
  "device_store_wf (reg_store (fold (device_step H) ops in_memory))"
  by (rule device_reg.run_inv) (simp_all add: in_memory_def device_store_wf_new)

text \<open>
  C3: an accepted device token never carries more authority than was granted. When verification
  succeeds, the device is paired, the token is stored for it, neither revoked nor expired, has
  the required role and every required scope, and the device itself either has no role (scope)
  restriction or allows that role (those scopes).
\<close>

theorem device_verify_token_sound:
  assumes "verify_token H now d tok role scopes reg = Inr ()"
  shows "\<exists>dev t. get_paired_device d reg = Some dev \<and>
     hm_get (st_tokens (reg_store reg)) (H tok) = Some t \<and> tok_device_id t = d \<and> is_valid now t \<and>
     (\<forall>r. role = Some r \<longrightarrow> tok_role t = r \<and> (pd_roles dev = [] \<or> r \<in> set (pd_roles dev))) \<and>
     set scopes \<subseteq> set (tok_scopes t) \<and> (pd_scopes dev = [] \<or> set scopes \<subseteq> set (pd_scopes dev))"
  using assms unfolding device_verify_ok_iff by (fastforce simp: role_allowed_def is_valid_def)

text \<open>
  Rotating a role's token retires the old ones for good. After a successful rotation, a token
  stored before for the same device and role is refused after any later operations that do not
  mint its hash again, and the new token is accepted with exactly the requested role and scopes.
\<close>

theorem device_rotate_token_retires:
  assumes wf: "device_store_wf (reg_store reg)"
    and ok: "fst (rotate_token H e d r ss reg) = Inr issued"
    and old: "hm_get (st_tokens (reg_store reg)) (H tok) = Some t" "tok_device_id t = d" "tok_role t = r"
    and fresh: "H (env_uuid e) \<noteq> H tok" "list_all (\<lambda>a. \<not> device_mints H a (H tok)) ops"
    and now: "now < u64_add (env_now e) DEVICE_TOKEN_EXPIRY_MS"
  shows "verify_token H now' d' tok role scopes (fold (device_step H) ops (snd (rotate_token H e d r ss reg)))
           \<noteq> Inr () \<and>
         verify_token H now d (iss_token issued) (Some r) ss (snd (rotate_token H e d r ss reg)) = Inr ()"
proof
  let ?reg = "snd (rotate_token H e d r ss reg)"
  have "device_token_dead (H tok) ?reg"
  proof (cases "tok_revoked t")
    case True
    with old have "device_token_dead (H tok) reg" by (simp add: device_token_dead_def tokens_dead_def)
    with fresh(1) show ?thesis by (simp add: device_dead_rotate)
  next
    case False
    with ok old fresh(1) show ?thesis
      by (auto simp: device_token_dead_def rotate_token_def DeviceToken_new_def Let_def
          intro!: dtok.dead_insert dtok_dead_evict dtok.dead_after_revoke
          split: option.splits if_splits)
  qed
  with device_rotate_wf [OF wf] fresh(2)
  have "\<not> device_accepts H (fold (device_step H) ops ?reg) (H tok)"
    by (intro device_reg.run_rejected) simp_all
  then show "verify_token H now' d' tok role scopes (fold (device_step H) ops ?reg) \<noteq> Inr ()"
    unfolding device_accepts_def by blast
  show "verify_token H now d (iss_token issued) (Some r) ss ?reg = Inr ()"
    using ok now
    by (auto simp: device_verify_ok_iff rotate_token_def DeviceToken_new_def Let_def
        get_paired_device_def hm_simps scopes_allow_iff split: option.splits if_splits)
qed

text \<open>
  Unpairing a device ends its tokens for good, through any later operations (a new pairing of
  the same device included) that do not mint the same hash again.
\<close>

theorem device_unpair_revokes_for_good:
  assumes wf: "device_store_wf (reg_store reg)" and "is_paired d reg"
    and "hm_get (st_tokens (reg_store reg)) (H tok) = Some t" and "tok_device_id t = d"
    and "list_all (\<lambda>a. \<not> device_mints H a (H tok)) ops"
  shows "verify_token H now m tok role scopes
           (fold (device_step H) ops (snd (unpair_device e d reg))) \<noteq> Inr ()"
proof -
  have "device_token_dead (H tok) (snd (unpair_device e d reg))"
    using assms(2-4)
    by (auto simp: device_token_dead_def unpair_device_def is_paired_def Let_def hm_contains_def
        intro!: dtok.dead_after_revoke)
  with device_unpair_wf [OF wf] assms(5)
  have "\<not> device_accepts H (fold (device_step H) ops (snd (unpair_device e d reg))) (H tok)"
    by (intro device_reg.run_rejected) simp_all
  then show ?thesis unfolding device_accepts_def by blast
qed

text \<open>
  The constant-time comparison of token hashes, which folds the XOR of the bytes into an
  accumulator instead of stopping at the first difference, decides equality of the strings.
\<close>

theorem device_constant_time_eq: "constant_time_eq a b \<longleftrightarrow> a = b"
  by (auto simp: constant_time_eq_def or_fold_zero zip_equal)

text \<open>
  \<^verbatim>\<open>issue_token\<close> and \<^verbatim>\<open>rotate_token\<close> check roles and scopes differently (a loop over the
  requested scopes against \<^verbatim>\<open>scopes_allow\<close>) but accept the same requests with the same errors,
  and \<^verbatim>\<open>ensure_token\<close>, which repeats the checks before it delegates, is \<^verbatim>\<open>rotate_token\<close>.
\<close>

theorem device_token_checks_agree:
  "ensure_token H e d r ss reg = rotate_token H e d r ss reg \<and>
   map_sum id (\<lambda>_. ()) (fst (issue_token H e d r ss reg)) =
   map_sum id (\<lambda>_. ()) (fst (rotate_token H e d r ss reg))"
  by (auto simp: ensure_token_eq_rotate issue_token_def rotate_token_def DeviceToken_new_def Let_def
      scopes_allow_iff list_all_iff split: option.split)

subsection \<open>Witnesses\<close>

definition device_ex_pending :: DevicePairingRegistry where
  "device_ex_pending =
     snd (request_pairing_with_status (ex_env 1 ''r1'') ''d1'' ''key'' [''operator''] [''read'', ''write'']
       None None None None None None in_memory)"

definition device_ex_paired :: DevicePairingRegistry where
  "device_ex_paired =
     snd (approve_request ex_hash (ex_env 2 ''t1'') ''r1'' [''operator''] [''read'', ''write'']
       device_ex_pending)"

definition device_ex_request :: DevicePairingRequest where
  "device_ex_request =
     DevicePairingRequest_new (ex_env 1 ''r1'') ''d1'' ''key'' [''operator''] [''read'', ''write'']
       None None None None None None (Some False)"

lemma device_ex_pending_eq:
  "device_ex_pending =
     in_memory\<lparr>reg_store := DevicePairingStore_new\<lparr>st_pending_requests :=
       [(''r1'', device_ex_request)]\<rparr>\<rparr>"
  by (simp add: device_ex_pending_def request_pairing_with_status_def in_memory_def
      DevicePairingStore_new_def cleanup_expired_def cleanup_store_def hm_eval ex_env_def commit_def
      save_def DevicePairingRequest_new_def device_ex_request_def MAX_PENDING_REQUESTS_def Let_def)

definition device_ex_token :: DeviceToken where
  "device_ex_token =
     fst (DeviceToken_new ex_hash (ex_env 2 ''t1'') ''d1'' ''operator'' [''read'', ''write''])"

lemma device_ex_paired_eq:
  "st_paired_devices (reg_store device_ex_paired) =
     [(''d1'', PairedDevice_from_request 2 device_ex_request [''operator''] [''read'', ''write''])]"
  "st_tokens (reg_store device_ex_paired) = [(''#t1'', device_ex_token)]"
  unfolding device_ex_paired_def device_ex_pending_eq
  by (simp_all add: approve_request_def in_memory_def DevicePairingStore_new_def hm_eval ex_env_def
      commit_def save_def DevicePairingRequest_new_def device_ex_request_def is_expired_def
      u64_saturating_sub_def PAIRING_REQUEST_EXPIRY_MS_def evict_oldest_device_def
      MAX_PAIRED_DEVICES_def DeviceToken_new_def ex_hash_def device_ex_token_def
      PairedDevice_from_request_def Let_def)

lemma device_ex_wf: "device_store_wf (reg_store device_ex_paired)"
proof -
  have "device_store_wf (reg_store in_memory)" by (simp add: in_memory_def device_store_wf_new)
  then show ?thesis
    unfolding device_ex_paired_def device_ex_pending_def
    by (intro device_approve_wf device_request_wf)
qed

lemma device_ex_token_sel:
  "tok_device_id device_ex_token = ''d1''" "tok_role device_ex_token = ''operator''"
  "tok_scopes device_ex_token = [''read'', ''write'']" "\<not> tok_revoked device_ex_token"
  "tok_expires_at_ms device_ex_token = 7776000002"
  by (simp_all add: device_ex_token_def DeviceToken_new_def u64_add_def u64_max_def
      DEVICE_TOKEN_EXPIRY_MS_def ex_env_def)

lemma device_ex_get:
  "hm_get (st_tokens (reg_store device_ex_paired)) (ex_hash ''t1'') = Some device_ex_token"
  "is_paired ''d1'' device_ex_paired"
  by (simp_all add: device_ex_paired_eq ex_hash_def is_paired_def hm_eval)

theorem device_verify_token_sound_witness:
  "verify_token ex_hash 10 ''d1'' ''t1'' (Some ''operator'') [''read''] device_ex_paired = Inr () \<and>
   (\<exists>dev t. get_paired_device ''d1'' device_ex_paired = Some dev \<and>
     hm_get (st_tokens (reg_store device_ex_paired)) ''#t1'' = Some t \<and> is_valid 10 t \<and>
     ''read'' \<in> set (tok_scopes t))"
proof -
  have ok: "verify_token ex_hash 10 ''d1'' ''t1'' (Some ''operator'') [''read''] device_ex_paired = Inr ()"
    by (simp add: verify_token_def device_ex_paired_eq hm_eval ex_hash_def device_ex_token_sel
        role_allowed_def PairedDevice_from_request_def scopes_allow_def)
  with device_verify_token_sound [OF ok] show ?thesis by (auto simp: ex_hash_def)
qed

theorem device_rotate_token_retires_witness:
  "verify_token ex_hash 10 ''d1'' ''t1'' None []
     (fold (device_step ex_hash) [Op_touch (ex_env 4 []) ''d1'']
       (snd (rotate_token ex_hash (ex_env 3 ''t2'') ''d1'' ''operator'' [''read''] device_ex_paired)))
   \<noteq> Inr ()"
proof -
  have ok: "fst (rotate_token ex_hash (ex_env 3 ''t2'') ''d1'' ''operator'' [''read''] device_ex_paired) =
      Inr \<lparr>iss_token = ''t2'', iss_role = ''operator'', iss_scopes = [''read''], iss_issued_at_ms = 3\<rparr>"
    by (simp add: rotate_token_def device_ex_paired_eq hm_eval DeviceToken_new_def ex_env_def
        role_allowed_def PairedDevice_from_request_def scopes_allow_def)
  have fresh: "ex_hash (env_uuid (ex_env 3 ''t2'')) \<noteq> ex_hash ''t1''"
    by (simp add: ex_hash_def ex_env_def)
  have now: "(10::nat) < u64_add (env_now (ex_env 3 ''t2'')) DEVICE_TOKEN_EXPIRY_MS"
    by (simp add: u64_add_def u64_max_def DEVICE_TOKEN_EXPIRY_MS_def ex_env_def)
  have ops: "list_all (\<lambda>a. \<not> device_mints ex_hash a (ex_hash ''t1'')) [Op_touch (ex_env 4 []) ''d1'']"
    by simp
  show ?thesis
    using device_rotate_token_retires [OF device_ex_wf ok device_ex_get(1) device_ex_token_sel(1,2)
        fresh ops now]
    by blast
qed

theorem device_unpair_revokes_for_good_witness:
  "verify_token ex_hash 10 ''d1'' ''t1'' None []
     (fold (device_step ex_hash)
        [Op_request (ex_env 4 ''r2'') ''d1'' ''key'' [] [] None None None None None None,
         Op_approve (ex_env 5 ''t2'') ''r2'' [] []]
        (snd (unpair_device (ex_env 3 []) ''d1'' device_ex_paired))) \<noteq> Inr ()"
  by (rule device_unpair_revokes_for_good [where H = ex_hash, OF device_ex_wf device_ex_get(2,1) device_ex_token_sel(1)])
    (simp add: ex_hash_def ex_env_def)

end
