(* ===== verification/Task_Queue.thy ===== *)
theory Task_Queue
  imports Carapace_Prelude
begin

text \<open>
  The durable task queue (\<^verbatim>\<open>src/tasks/mod.rs\<close>): task records and their state machine, the
  bounded queue with eviction of finished tasks, claiming, the outcome of an execution, operator
  edits, recovery after a restart and the worker's cycle. The payload (a JSON value the queue
  never inspects) is the type parameter \<open>'v\<close>; the JSON codec is a parameter of \<open>load\<close>. The
  async wrappers around the synchronous operations are not modelled.
\<close>

subsection \<open>Constants and data\<close>

definition DEFAULT_MAX_TASKS :: usize where "DEFAULT_MAX_TASKS = 10000"
definition DEFAULT_TASK_MAX_ATTEMPTS :: u32 where "DEFAULT_TASK_MAX_ATTEMPTS = 100"
definition DEFAULT_TASK_MAX_TOTAL_RUNTIME_MS :: u64 where
  "DEFAULT_TASK_MAX_TOTAL_RUNTIME_MS = 7 * 24 * 60 * 60 * 1000"
definition DEFAULT_TASK_MAX_TURNS :: u32 where "DEFAULT_TASK_MAX_TURNS = 25"
definition DEFAULT_TASK_MAX_RUN_TIMEOUT_SECONDS :: u32 where
  "DEFAULT_TASK_MAX_RUN_TIMEOUT_SECONDS = 600"
definition TASK_QUEUE_FULL_NO_EVICTION_ERROR :: string where
  "TASK_QUEUE_FULL_NO_EVICTION_ERROR = ''task queue full: no terminal tasks available for eviction''"
definition ENQUEUE_WORKER_FAILED_ERROR :: string where
  "ENQUEUE_WORKER_FAILED_ERROR = ''task queue enqueue worker failed''"

datatype TaskState = Queued | Running | Blocked | RetryWait | Done | Failed | Cancelled

fun is_terminal :: "TaskState \<Rightarrow> bool" where
  "is_terminal Done = True"
| "is_terminal Failed = True"
| "is_terminal Cancelled = True"
| "is_terminal _ = False"

definition deserialize_task_state_forward_compat :: "string \<Rightarrow> TaskState" where
  "deserialize_task_state_forward_compat value =
     (if value = ''queued'' then Queued
      else if value = ''running'' then Running
      else if value = ''blocked'' then Blocked
      else if value = ''retry_wait'' then RetryWait
      else if value = ''done'' then Done
      else if value = ''failed'' then Failed
      else if value = ''cancelled'' then Cancelled
      else Failed)"

text \<open>The wire names of \<^verbatim>\<open>#[serde(rename_all = "snake_case")]\<close> on the two enumerations.\<close>

fun serialize_task_state :: "TaskState \<Rightarrow> string" where
  "serialize_task_state Queued = ''queued''"
| "serialize_task_state Running = ''running''"
| "serialize_task_state Blocked = ''blocked''"
| "serialize_task_state RetryWait = ''retry_wait''"
| "serialize_task_state Done = ''done''"
| "serialize_task_state Failed = ''failed''"
| "serialize_task_state Cancelled = ''cancelled''"

datatype TaskBlockedReason =
    ApprovalRequired
  | ConfigMissing
  | DeliveryFailure
  | ExternalDependency
  | OperatorActionRequired
  | Unknown

definition deserialize_task_blocked_reason_opt_forward_compat ::
    "string option \<Rightarrow> TaskBlockedReason option" where
  "deserialize_task_blocked_reason_opt_forward_compat value =
     (case value of
        None \<Rightarrow> None
      | Some v \<Rightarrow>
          Some (if v = ''approval_required'' then ApprovalRequired
                else if v = ''config_missing'' then ConfigMissing
                else if v = ''delivery_failure'' then DeliveryFailure
                else if v = ''external_dependency'' then ExternalDependency
                else if v = ''operator_action_required'' then OperatorActionRequired
                else if v = ''unknown'' then Unknown
                else Unknown))"

fun serialize_task_blocked_reason :: "TaskBlockedReason \<Rightarrow> string" where
  "serialize_task_blocked_reason ApprovalRequired = ''approval_required''"
| "serialize_task_blocked_reason ConfigMissing = ''config_missing''"
| "serialize_task_blocked_reason DeliveryFailure = ''delivery_failure''"
| "serialize_task_blocked_reason ExternalDependency = ''external_dependency''"
| "serialize_task_blocked_reason OperatorActionRequired = ''operator_action_required''"
| "serialize_task_blocked_reason Unknown = ''unknown''"

record TaskPolicy =
  max_attempts :: u32
  max_total_runtime_ms :: u64
  max_turns :: u32
  max_run_timeout_seconds :: u32

definition TaskPolicy_default :: TaskPolicy where
  "TaskPolicy_default =
     \<lparr> max_attempts = DEFAULT_TASK_MAX_ATTEMPTS,
       max_total_runtime_ms = DEFAULT_TASK_MAX_TOTAL_RUNTIME_MS,
       max_turns = DEFAULT_TASK_MAX_TURNS,
       max_run_timeout_seconds = DEFAULT_TASK_MAX_RUN_TIMEOUT_SECONDS \<rparr>"

record TaskPolicyPatch =
  patch_max_attempts :: "u32 option"
  patch_max_total_runtime_ms :: "u64 option"
  patch_max_turns :: "u32 option"
  patch_max_run_timeout_seconds :: "u32 option"

definition has_updates :: "TaskPolicyPatch \<Rightarrow> bool" where
  "has_updates p \<longleftrightarrow> patch_max_attempts p \<noteq> None \<or> patch_max_total_runtime_ms p \<noteq> None \<or>
     patch_max_turns p \<noteq> None \<or> patch_max_run_timeout_seconds p \<noteq> None"

record 'v DurableTask =
  task_id :: string
  task_state :: TaskState
  attempts :: u32
  next_run_at_ms :: "u64 option"
  last_error :: "string option"
  payload :: 'v
  created_at_ms :: u64
  updated_at_ms :: u64
  run_ids :: "string list"
  policy :: TaskPolicy
  blocked_reason :: "TaskBlockedReason option"
  policy_explicit :: bool

record TaskQueueStats =
  total :: usize
  queued :: usize
  running :: usize
  blocked :: usize
  retry_wait :: usize
  done_count :: usize
  failed :: usize
  cancelled :: usize

text \<open>The queue, with the contents of the file at \<^verbatim>\<open>persist_path\<close> (\<open>None\<close>: no file).\<close>

record 'v TaskQueue =
  tasks :: "'v DurableTask list"
  persist_path :: "string option"
  dir_ensured :: bool
  max_tasks :: "usize option"
  disk :: "'v DurableTask list option"

record BuildTaskParams =
  par_state :: TaskState
  par_next_run_at_ms :: "u64 option"
  par_last_error :: "string option"
  par_policy :: TaskPolicy
  par_blocked_reason :: "TaskBlockedReason option"
  par_now :: u64

definition with_capacity_limit :: "string option \<Rightarrow> usize option \<Rightarrow> 'v TaskQueue" where
  "with_capacity_limit path limit =
     \<lparr> tasks = [], persist_path = path, dir_ensured = False, max_tasks = limit, disk = None \<rparr>"

definition TaskQueue_new :: "string option \<Rightarrow> 'v TaskQueue" where
  "TaskQueue_new path = with_capacity_limit path (Some DEFAULT_MAX_TASKS)"

definition in_memory :: "'v TaskQueue" where
  "in_memory = TaskQueue_new None"

definition in_memory_unbounded :: "'v TaskQueue" where
  "in_memory_unbounded = with_capacity_limit None None"

definition new_unbounded :: "string option \<Rightarrow> 'v TaskQueue" where
  "new_unbounded path = with_capacity_limit path None"

subsection \<open>Writing the queue file\<close>

definition is_mkdir_fault :: "save_fault option \<Rightarrow> bool" where
  "is_mkdir_fault f = (case f of Some (Fault_mkdir _) \<Rightarrow> True | _ \<Rightarrow> False)"

text \<open>The directory is created once; afterwards that step, and its failure, does not occur.\<close>

definition flush_to_disk :: "save_fault option \<Rightarrow> 'v TaskQueue \<Rightarrow> 'v TaskQueue" where
  "flush_to_disk f q =
     (case persist_path q of
        None \<Rightarrow> q
      | Some path \<Rightarrow>
          if \<not> dir_ensured q \<and> is_mkdir_fault f then q
          else let f = (if is_mkdir_fault f then None else f)
               in q\<lparr>dir_ensured := True, disk := write_file f (tasks q) (disk q)\<rparr>)"

subsection \<open>Recovery after a restart\<close>

definition recover_running :: "u64 \<Rightarrow> 'v DurableTask \<Rightarrow> 'v DurableTask" where
  "recover_running now t =
     (if task_state t = Running
      then t\<lparr>task_state := RetryWait, next_run_at_ms := Some now, updated_at_ms := now,
             last_error := (case last_error t of None \<Rightarrow> Some ''recovered after restart''
                            | Some err \<Rightarrow> Some err)\<rparr>
      else t)"

text \<open>
  \<open>read\<close> is the outcome of the capped read, \<open>from_json\<close> the JSON decoder and \<open>backup\<close> the
  outcome of writing the copy of a corrupt file (its path, or the error's text).
\<close>

definition load ::
    "('b \<Rightarrow> string + 'v DurableTask list) \<Rightarrow> string + string \<Rightarrow> env \<Rightarrow> string + 'b option
      \<Rightarrow> 'v TaskQueue \<Rightarrow> (string + unit) \<times> 'v TaskQueue" where
  "load from_json backup e read q =
     (case persist_path q of
        None \<Rightarrow> (Inr (), q)
      | Some path \<Rightarrow>
          (case read of
             Inl err \<Rightarrow>
               (Inl (''failed to read task queue file '' @ path @
                     ''; persisted tasks were not loaded: '' @ err @
                     ''. Remove or repair the file before restarting''), q)
           | Inr None \<Rightarrow> (Inr (), q)
           | Inr (Some data) \<Rightarrow>
               (case from_json data of
                  Inl err \<Rightarrow>
                    (let backup_note =
                           (case backup of
                              Inr backup_path \<Rightarrow> '' A copy was written to '' @ backup_path @ ''.''
                            | Inl backup_err \<Rightarrow>
                                '' Failed to write corrupt queue backup: '' @ backup_err @ ''.'')
                     in (Inl (''failed to parse current task queue file '' @ path @
                              ''; persisted tasks were not loaded: '' @ err @ ''.'' @ backup_note @
                              '' Remove or repair the file before restarting''), q))
                | Inr loaded \<Rightarrow>
                    (let recovered_running = list_ex (\<lambda>t. task_state t = Running) loaded;
                         q' = q\<lparr>tasks := map (recover_running (env_now e)) loaded\<rparr>
                     in (Inr (), if recovered_running then flush_to_disk (env_fault e) q' else q')))))"

subsection \<open>Adding tasks\<close>

definition build_task :: "env \<Rightarrow> 'v \<Rightarrow> BuildTaskParams \<Rightarrow> 'v DurableTask" where
  "build_task e v p =
     \<lparr> task_id = env_uuid e, task_state = par_state p, attempts = 0, next_run_at_ms = par_next_run_at_ms p,
       last_error = par_last_error p, payload = v, created_at_ms = par_now p,
       updated_at_ms = par_now p, run_ids = [], policy = par_policy p,
       blocked_reason = par_blocked_reason p, policy_explicit = True \<rparr>"

definition remove_at :: "nat \<Rightarrow> 'a list \<Rightarrow> 'a list" where
  "remove_at i xs = take i xs @ drop (Suc i) xs"

text \<open>
  The task as the caller sees it afterwards, and the queue. A full queue loses its oldest finished
  task; if none is finished the new task is not stored and comes back as failed.
\<close>

definition insert_task ::
    "env \<Rightarrow> 'v DurableTask \<Rightarrow> u64 \<Rightarrow> 'v TaskQueue \<Rightarrow> 'v DurableTask \<times> 'v TaskQueue" where
  "insert_task e task now q =
     (let push = (\<lambda>ts. (task, flush_to_disk (env_fault e) (q\<lparr>tasks := ts @ [task]\<rparr>))) in
      case max_tasks q of
        None \<Rightarrow> push (tasks q)
      | Some limit \<Rightarrow>
          if length (tasks q) \<ge> limit
          then case first_min_by (\<lambda>(_, t). updated_at_ms t)
                      (filter (\<lambda>(_, t). task_state t \<in> {Done, Failed, Cancelled}) (enumerate 0 (tasks q))) of
                 Some (idx, _) \<Rightarrow> push (remove_at idx (tasks q))
               | None \<Rightarrow>
                   (task\<lparr>task_state := Failed, last_error := Some TASK_QUEUE_FULL_NO_EVICTION_ERROR,
                         updated_at_ms := now\<rparr>, q)
          else push (tasks q))"

definition enqueue_with_policy ::
    "env \<Rightarrow> 'v \<Rightarrow> u64 option \<Rightarrow> TaskPolicy \<Rightarrow> 'v TaskQueue \<Rightarrow> 'v DurableTask \<times> 'v TaskQueue" where
  "enqueue_with_policy e v next pol q =
     insert_task e (build_task e v \<lparr>par_state = Queued, par_next_run_at_ms = next,
       par_last_error = None, par_policy = pol, par_blocked_reason = None, par_now = env_now e\<rparr>)
       (env_now e) q"

definition enqueue :: "env \<Rightarrow> 'v \<Rightarrow> u64 option \<Rightarrow> 'v TaskQueue \<Rightarrow> 'v DurableTask \<times> 'v TaskQueue" where
  "enqueue e v next q = enqueue_with_policy e v next TaskPolicy_default q"

definition enqueue_running_with_policy ::
    "env \<Rightarrow> 'v \<Rightarrow> TaskPolicy \<Rightarrow> 'v TaskQueue \<Rightarrow> 'v DurableTask \<times> 'v TaskQueue" where
  "enqueue_running_with_policy e v pol q =
     (let task = build_task e v \<lparr>par_state = Running, par_next_run_at_ms = None,
            par_last_error = None, par_policy = pol, par_blocked_reason = None,
            par_now = env_now e\<rparr>;
          task = task\<lparr>attempts := 1\<rparr>;
          (task, q') = insert_task e task (env_now e) q
      in (if task_state task = Failed then task\<lparr>attempts := 0\<rparr> else task, q'))"

definition enqueue_blocked_with_policy ::
    "env \<Rightarrow> 'v \<Rightarrow> string \<Rightarrow> TaskBlockedReason \<Rightarrow> TaskPolicy \<Rightarrow> 'v TaskQueue
      \<Rightarrow> 'v DurableTask \<times> 'v TaskQueue" where
  "enqueue_blocked_with_policy e v reason category pol q =
     insert_task e (build_task e v \<lparr>par_state = Blocked, par_next_run_at_ms = None,
       par_last_error = Some reason, par_policy = pol, par_blocked_reason = Some category,
       par_now = env_now e\<rparr>) (env_now e) q"

definition build_failed_enqueue_task ::
    "env \<Rightarrow> 'v \<Rightarrow> TaskPolicy \<Rightarrow> TaskBlockedReason option \<Rightarrow> 'v DurableTask" where
  "build_failed_enqueue_task e v pol reason =
     build_task e v \<lparr>par_state = Failed, par_next_run_at_ms = None,
       par_last_error = Some ENQUEUE_WORKER_FAILED_ERROR, par_policy = pol,
       par_blocked_reason = reason, par_now = env_now e\<rparr>"

subsection \<open>Reading\<close>

definition get :: "string \<Rightarrow> 'v TaskQueue \<Rightarrow> 'v DurableTask option" where
  "get i q = find (\<lambda>t. task_id t = i) (tasks q)"

definition list_filtered ::
    "TaskState option \<Rightarrow> usize option \<Rightarrow> 'v TaskQueue \<Rightarrow> usize \<times> 'v DurableTask list" where
  "list_filtered state_filter limit q =
     (let matched = filter (\<lambda>t. case state_filter of None \<Rightarrow> True | Some s \<Rightarrow> task_state t = s) (tasks q);
          matched = sort_key (\<lambda>t. - int (updated_at_ms t)) matched
      in (length matched, case limit of None \<Rightarrow> matched | Some n \<Rightarrow> take n matched))"

definition list_tasks :: "'v TaskQueue \<Rightarrow> 'v DurableTask list" where
  "list_tasks q = snd (list_filtered None None q)"

fun count_state :: "TaskQueueStats \<Rightarrow> TaskState \<Rightarrow> TaskQueueStats" where
  "count_state s Queued = s\<lparr>queued := queued s + 1\<rparr>"
| "count_state s Running = s\<lparr>running := running s + 1\<rparr>"
| "count_state s Blocked = s\<lparr>blocked := blocked s + 1\<rparr>"
| "count_state s RetryWait = s\<lparr>retry_wait := retry_wait s + 1\<rparr>"
| "count_state s Done = s\<lparr>done_count := done_count s + 1\<rparr>"
| "count_state s Failed = s\<lparr>failed := failed s + 1\<rparr>"
| "count_state s Cancelled = s\<lparr>cancelled := cancelled s + 1\<rparr>"

definition stats :: "'v TaskQueue \<Rightarrow> TaskQueueStats" where
  "stats q =
     foldl (\<lambda>s t. count_state s (task_state t))
       \<lparr>total = length (tasks q), queued = 0, running = 0, blocked = 0, retry_wait = 0,
        done_count = 0, failed = 0, cancelled = 0\<rparr> (tasks q)"

subsection \<open>Claiming\<close>

definition is_due :: "'v DurableTask \<Rightarrow> u64 \<Rightarrow> bool" where
  "is_due t now =
     (case task_state t of
        Queued \<Rightarrow> (case next_run_at_ms t of None \<Rightarrow> True | Some ts \<Rightarrow> now \<ge> ts)
      | RetryWait \<Rightarrow> (case next_run_at_ms t of None \<Rightarrow> False | Some ts \<Rightarrow> now \<ge> ts)
      | _ \<Rightarrow> False)"

definition claim_task :: "u64 \<Rightarrow> 'v DurableTask \<Rightarrow> 'v DurableTask" where
  "claim_task now t =
     t\<lparr>task_state := Running, attempts := u32_saturating_add (attempts t) 1, next_run_at_ms := None,
       updated_at_ms := now\<rparr>"

text \<open>The loop over the tasks, with the tasks claimed so far as its accumulator.\<close>

fun claim_loop ::
    "u64 \<Rightarrow> usize \<Rightarrow> 'v DurableTask list \<Rightarrow> 'v DurableTask list
      \<Rightarrow> 'v DurableTask list \<times> 'v DurableTask list" where
  "claim_loop now limit claimed [] = (claimed, [])"
| "claim_loop now limit claimed (t # ts) =
     (if length claimed \<ge> limit then (claimed, t # ts)
      else if \<not> is_due t now
      then (let (claimed', ts') = claim_loop now limit claimed ts in (claimed', t # ts'))
      else (let t' = claim_task now t;
                (claimed', ts') = claim_loop now limit (claimed @ [t']) ts
            in (claimed', t' # ts')))"

definition claim_due ::
    "env \<Rightarrow> u64 \<Rightarrow> usize \<Rightarrow> 'v TaskQueue \<Rightarrow> 'v DurableTask list \<times> 'v TaskQueue" where
  "claim_due e now limit q =
     (if limit = 0 then ([], q)
      else let (claimed, ts) = claim_loop now limit [] (tasks q);
               q' = q\<lparr>tasks := ts\<rparr>
           in (claimed, if claimed \<noteq> [] then flush_to_disk (env_fault e) q' else q'))"

subsection \<open>Updating a task\<close>

fun update_first ::
    "string \<Rightarrow> ('v DurableTask \<Rightarrow> bool) \<Rightarrow> ('v DurableTask \<Rightarrow> 'v DurableTask)
      \<Rightarrow> 'v DurableTask list \<Rightarrow> bool \<times> 'v DurableTask list" where
  "update_first i P f [] = (False, [])"
| "update_first i P f (t # ts) =
     (if task_id t = i then (if P t then (True, f t # ts) else (False, t # ts))
      else (let (b, ts') = update_first i P f ts in (b, t # ts')))"

definition update_task_if ::
    "env \<Rightarrow> string \<Rightarrow> ('v DurableTask \<Rightarrow> bool) \<Rightarrow> ('v DurableTask \<Rightarrow> u64 \<Rightarrow> 'v DurableTask)
      \<Rightarrow> 'v TaskQueue \<Rightarrow> bool \<times> 'v TaskQueue" where
  "update_task_if e i predicate apply q =
     (let now = env_now e;
          (updated, ts) = update_first i predicate (\<lambda>t. apply t now) (tasks q);
          q' = q\<lparr>tasks := ts\<rparr>
      in (updated, if updated then flush_to_disk (env_fault e) q' else q'))"

definition push_run_id :: "string option \<Rightarrow> string list \<Rightarrow> string list" where
  "push_run_id run_id ids =
     (case run_id of
        None \<Rightarrow> ids
      | Some r \<Rightarrow> let r = trim r in if r \<noteq> [] \<and> r \<notin> set ids then ids @ [r] else ids)"

definition mark_done :: "env \<Rightarrow> string \<Rightarrow> string option \<Rightarrow> 'v TaskQueue \<Rightarrow> bool \<times> 'v TaskQueue" where
  "mark_done e i run_id q =
     update_task_if e i (\<lambda>t. task_state t = Running)
       (\<lambda>t now. t\<lparr>task_state := Done, last_error := None, next_run_at_ms := None,
          updated_at_ms := now, blocked_reason := None, run_ids := push_run_id run_id (run_ids t)\<rparr>) q"

definition mark_failed :: "env \<Rightarrow> string \<Rightarrow> string \<Rightarrow> 'v TaskQueue \<Rightarrow> bool \<times> 'v TaskQueue" where
  "mark_failed e i err q =
     update_task_if e i (\<lambda>t. task_state t = Running)
       (\<lambda>t now. t\<lparr>task_state := Failed, last_error := Some err, next_run_at_ms := None,
          updated_at_ms := now, blocked_reason := None\<rparr>) q"

definition mark_blocked ::
    "env \<Rightarrow> string \<Rightarrow> string \<Rightarrow> TaskBlockedReason \<Rightarrow> 'v TaskQueue \<Rightarrow> bool \<times> 'v TaskQueue" where
  "mark_blocked e i reason category q =
     update_task_if e i (\<lambda>t. task_state t = Running)
       (\<lambda>t now. t\<lparr>task_state := Blocked, last_error := Some reason, next_run_at_ms := None,
          updated_at_ms := now, blocked_reason := Some category\<rparr>) q"

definition mark_cancelled :: "env \<Rightarrow> string \<Rightarrow> string option \<Rightarrow> 'v TaskQueue \<Rightarrow> bool \<times> 'v TaskQueue" where
  "mark_cancelled e i reason q =
     update_task_if e i (\<lambda>t. \<not> is_terminal (task_state t))
       (\<lambda>t now. t\<lparr>task_state := Cancelled, last_error := reason, next_run_at_ms := None,
          updated_at_ms := now, blocked_reason := None\<rparr>) q"

definition mark_retry_wait ::
    "env \<Rightarrow> string \<Rightarrow> u64 \<Rightarrow> string \<Rightarrow> 'v TaskQueue \<Rightarrow> bool \<times> 'v TaskQueue" where
  "mark_retry_wait e i delay_ms err q =
     update_task_if e i
       (\<lambda>t. task_state t \<in> {Running, Failed, Blocked, RetryWait, Cancelled})
       (\<lambda>t now. t\<lparr>task_state := RetryWait, last_error := Some err,
          next_run_at_ms := Some (u64_saturating_add now delay_ms), updated_at_ms := now,
          blocked_reason := None\<rparr>) q"

definition resume_blocked_task ::
    "env \<Rightarrow> string \<Rightarrow> u64 \<Rightarrow> string \<Rightarrow> 'v TaskQueue \<Rightarrow> bool \<times> 'v TaskQueue" where
  "resume_blocked_task e i delay_ms reason q =
     update_task_if e i (\<lambda>t. task_state t = Blocked)
       (\<lambda>t now. t\<lparr>task_state := RetryWait, last_error := Some reason,
          next_run_at_ms := Some (u64_saturating_add now delay_ms), updated_at_ms := now,
          blocked_reason := None\<rparr>) q"

definition patch_policy :: "TaskPolicyPatch \<Rightarrow> TaskPolicy \<Rightarrow> TaskPolicy" where
  "patch_policy p pol =
     \<lparr> max_attempts = (case patch_max_attempts p of Some v \<Rightarrow> v | None \<Rightarrow> max_attempts pol),
       max_total_runtime_ms =
         (case patch_max_total_runtime_ms p of Some v \<Rightarrow> v | None \<Rightarrow> max_total_runtime_ms pol),
       max_turns = (case patch_max_turns p of Some v \<Rightarrow> v | None \<Rightarrow> max_turns pol),
       max_run_timeout_seconds =
         (case patch_max_run_timeout_seconds p of Some v \<Rightarrow> v | None \<Rightarrow> max_run_timeout_seconds pol) \<rparr>"

definition patch_task ::
    "env \<Rightarrow> string \<Rightarrow> 'v option \<Rightarrow> TaskPolicyPatch option \<Rightarrow> string option \<Rightarrow> 'v TaskQueue
      \<Rightarrow> bool \<times> 'v TaskQueue" where
  "patch_task e i new_payload policy_patch reason q =
     (if new_payload = None \<and> reason = None \<and>
         (case policy_patch of None \<Rightarrow> True | Some p \<Rightarrow> \<not> has_updates p)
      then (False, q)
      else update_task_if e i (\<lambda>t. task_state t \<notin> {Running, Done})
        (\<lambda>t now.
           let t = (case new_payload of Some v \<Rightarrow> t\<lparr>payload := v\<rparr> | None \<Rightarrow> t);
               t = (case policy_patch of
                      Some p \<Rightarrow> if has_updates p
                                then t\<lparr>policy_explicit := True, policy := patch_policy p (policy t)\<rparr>
                                else t
                    | None \<Rightarrow> t);
               t = (case reason of Some r \<Rightarrow> t\<lparr>last_error := Some r\<rparr> | None \<Rightarrow> t)
           in t\<lparr>updated_at_ms := now\<rparr>) q)"

subsection \<open>The worker\<close>

datatype TaskExecutionOutcome =
    Outcome_Done "string option"
  | Outcome_RetryWait u64 string
  | Outcome_Blocked string TaskBlockedReason
  | Outcome_Failed string
  | Outcome_Cancelled "string option"

fun apply_outcome ::
    "env \<Rightarrow> string \<Rightarrow> TaskExecutionOutcome \<Rightarrow> 'v TaskQueue \<Rightarrow> bool \<times> 'v TaskQueue" where
  "apply_outcome e i (Outcome_Done run_id) q = mark_done e i run_id q"
| "apply_outcome e i (Outcome_RetryWait delay_ms err) q = mark_retry_wait e i delay_ms err q"
| "apply_outcome e i (Outcome_Blocked reason category) q = mark_blocked e i reason category q"
| "apply_outcome e i (Outcome_Failed err) q = mark_failed e i err q"
| "apply_outcome e i (Outcome_Cancelled reason) q = mark_cancelled e i reason q"

text \<open>
  One cycle of the worker without interference from other callers: claim at most 32 due tasks,
  then execute them one after the other and record each outcome. \<open>execute\<close> is the executor and
  \<open>env_of k\<close> the environment in which the outcome of the \<open>k\<close>-th task is recorded.
\<close>

fun run_outcomes ::
    "('v DurableTask \<Rightarrow> TaskExecutionOutcome) \<Rightarrow> (nat \<Rightarrow> env) \<Rightarrow> nat \<Rightarrow> 'v DurableTask list
      \<Rightarrow> 'v TaskQueue \<Rightarrow> 'v TaskQueue" where
  "run_outcomes execute env_of k [] q = q"
| "run_outcomes execute env_of k (t # ts) q =
     run_outcomes execute env_of (Suc k) ts (snd (apply_outcome (env_of k) (task_id t) (execute t) q))"

definition run_task_worker_cycle ::
    "('v DurableTask \<Rightarrow> TaskExecutionOutcome) \<Rightarrow> (nat \<Rightarrow> env) \<Rightarrow> 'v TaskQueue \<Rightarrow> 'v TaskQueue" where
  "run_task_worker_cycle execute env_of q =
     (let (due, q) = claim_due (env_of 0) (env_now (env_of 0)) 32 q
      in run_outcomes execute env_of 1 due q)"

subsection \<open>The operations as steps\<close>

datatype 'v task_op =
    Op_enqueue env 'v "u64 option" TaskPolicy
  | Op_enqueue_running env 'v TaskPolicy
  | Op_enqueue_blocked env 'v string TaskBlockedReason TaskPolicy
  | Op_claim env usize
  | Op_outcome env string TaskExecutionOutcome
  | Op_cancel env string "string option"
  | Op_retry env string u64 string
  | Op_resume env string u64 string
  | Op_patch env string "'v option" "TaskPolicyPatch option" "string option"

fun task_step :: "'v task_op \<Rightarrow> 'v TaskQueue \<Rightarrow> 'v TaskQueue" where
  "task_step (Op_enqueue e v n p) q = snd (enqueue_with_policy e v n p q)"
| "task_step (Op_enqueue_running e v p) q = snd (enqueue_running_with_policy e v p q)"
| "task_step (Op_enqueue_blocked e v r c p) q = snd (enqueue_blocked_with_policy e v r c p q)"
| "task_step (Op_claim e limit) q = snd (claim_due e (env_now e) limit q)"
| "task_step (Op_outcome e i out) q = snd (apply_outcome e i out q)"
| "task_step (Op_cancel e i r) q = snd (mark_cancelled e i r q)"
| "task_step (Op_retry e i d r) q = snd (mark_retry_wait e i d r q)"
| "task_step (Op_resume e i d r) q = snd (resume_blocked_task e i d r q)"
| "task_step (Op_patch e i v p r) q = snd (patch_task e i v p r q)"

text \<open>The id a new task is stored under, and the side condition that it is fresh.\<close>

fun task_creates :: "'v task_op \<Rightarrow> string \<Rightarrow> bool" where
  "task_creates (Op_enqueue e v n p) i = (env_uuid e = i)"
| "task_creates (Op_enqueue_running e v p) i = (env_uuid e = i)"
| "task_creates (Op_enqueue_blocked e v r c p) i = (env_uuid e = i)"
| "task_creates _ i = False"

definition task_op_ok :: "'v task_op \<Rightarrow> 'v TaskQueue \<Rightarrow> bool" where
  "task_op_ok a q \<longleftrightarrow> list_all (\<lambda>t. \<not> task_creates a (task_id t)) (tasks q)"

subsection \<open>The state machine of one task\<close>

inductive task_transition :: "TaskState \<Rightarrow> TaskState \<Rightarrow> bool" where
  stay: "task_transition s s"
| claim_queued: "task_transition Queued Running"
| claim_retry: "task_transition RetryWait Running"
| finish: "s' \<in> {Done, Failed, Blocked} \<Longrightarrow> task_transition Running s'"
| cancel: "\<not> is_terminal s \<Longrightarrow> task_transition s Cancelled"
| retry: "s \<in> {Running, Failed, Blocked, RetryWait, Cancelled} \<Longrightarrow> task_transition s RetryWait"

inductive_cases from_Done: "task_transition Done s"
inductive_cases to_Running: "task_transition s Running"
inductive_simps transition_Done [simp]: "task_transition Done s"

text \<open>What holds of every stored task: which fields go with which state.\<close>

definition task_wf :: "'v DurableTask \<Rightarrow> bool" where
  "task_wf t \<longleftrightarrow> (blocked_reason t \<noteq> None \<longleftrightarrow> task_state t = Blocked) \<and>
     (task_state t \<noteq> Queued \<longrightarrow> (next_run_at_ms t \<noteq> None \<longleftrightarrow> task_state t = RetryWait)) \<and>
     attempts t \<le> u32_max"

definition queue_wf :: "'v TaskQueue \<Rightarrow> bool" where
  "queue_wf q \<longleftrightarrow> list_all task_wf (tasks q) \<and> distinct (map task_id (tasks q)) \<and>
     (case max_tasks q of None \<Rightarrow> True | Some m \<Rightarrow> length (tasks q) \<le> m)"

text \<open>How one operation may change a stored task.\<close>

definition task_evolves :: "'v DurableTask \<Rightarrow> 'v DurableTask \<Rightarrow> bool" where
  "task_evolves t t' \<longleftrightarrow> task_id t' = task_id t \<and> created_at_ms t' = created_at_ms t \<and>
     task_transition (task_state t) (task_state t') \<and> (task_wf t \<longrightarrow> task_wf t')"

lemma task_evolves_refl [simp]: "task_evolves t t"
  by (simp add: task_evolves_def task_transition.stay)

lemma flush_to_disk_sel [simp]:
  "tasks (flush_to_disk f q) = tasks q" "max_tasks (flush_to_disk f q) = max_tasks q"
  "persist_path (flush_to_disk f q) = persist_path q"
  by (auto simp: flush_to_disk_def Let_def split: option.split)

lemma update_first_rel:
  "list_all2 (\<lambda>t t'. t' = t \<or> task_id t = i \<and> P t \<and> t' = f t) ts (snd (update_first i P f ts))"
  by (induction ts) (auto simp: list.rel_refl split: prod.splits)

lemma update_task_if_rel:
  assumes "\<And>t. P t \<Longrightarrow> task_evolves t (f t (env_now e))"
  shows "list_all2 task_evolves (tasks q) (tasks (snd (update_task_if e i P f q)))"
proof -
  have "list_all2 task_evolves ts (snd (update_first i P (\<lambda>t. f t (env_now e)) ts))" for ts
    by (rule list.rel_mono_strong [OF update_first_rel]) (use assms in auto)
  then show ?thesis
    by (auto simp: update_task_if_def Let_def split: prod.split) (metis snd_conv)+
qed

lemma update_task_if_max [simp]: "max_tasks (snd (update_task_if e i P f q)) = max_tasks q"
  by (simp add: update_task_if_def Let_def split: prod.split)

lemma claim_loop_rel:
  "list_all2 (\<lambda>t t'. t' = t \<or> is_due t now \<and> t' = claim_task now t) ts
     (snd (claim_loop now limit claimed ts))"
  by (induction ts arbitrary: claimed)
    (simp_all add: list.rel_refl Let_def case_prod_beta)

lemma claim_task_evolves: "is_due t now \<Longrightarrow> task_evolves t (claim_task now t)"
  by (auto simp: task_evolves_def claim_task_def is_due_def task_wf_def u32_saturating_add_def
      intro: task_transition.intros split: TaskState.splits)

lemma claim_due_rel: "list_all2 task_evolves (tasks q) (tasks (snd (claim_due e now limit q)))"
proof -
  have "list_all2 task_evolves ts (snd (claim_loop now limit [] ts))" for ts :: "'a DurableTask list"
    by (rule list.rel_mono_strong [OF claim_loop_rel]) (auto intro: claim_task_evolves)
  then show ?thesis
    by (auto simp: claim_due_def Let_def list.rel_refl split: prod.split) (metis snd_conv)+
qed

lemma claim_due_max [simp]: "max_tasks (snd (claim_due e now limit q)) = max_tasks q"
  by (simp add: claim_due_def Let_def split: prod.split)

lemma patch_task_rel: "list_all2 task_evolves (tasks q) (tasks (snd (patch_task e i v p r q)))"
  unfolding patch_task_def
  by (auto simp: list.rel_refl task_evolves_def task_wf_def task_transition.stay Let_def
      intro!: update_task_if_rel split: option.splits)

lemma outcome_rel: "list_all2 task_evolves (tasks q) (tasks (snd (apply_outcome e i out q)))"
  by (cases out)
    (auto simp: mark_done_def mark_failed_def mark_blocked_def mark_cancelled_def mark_retry_wait_def
      task_evolves_def task_wf_def intro!: update_task_if_rel intro: task_transition.intros)

lemma outcome_max [simp]: "max_tasks (snd (apply_outcome e i out q)) = max_tasks q"
  by (cases out)
    (simp_all add: mark_done_def mark_failed_def mark_blocked_def mark_cancelled_def mark_retry_wait_def)

lemma operator_rel:
  "list_all2 task_evolves (tasks q) (tasks (snd (mark_cancelled e i r q)))"
  "list_all2 task_evolves (tasks q) (tasks (snd (mark_retry_wait e i d err q)))"
  "list_all2 task_evolves (tasks q) (tasks (snd (resume_blocked_task e i d err q)))"
  unfolding mark_cancelled_def mark_retry_wait_def resume_blocked_task_def
  by (rule update_task_if_rel;
      auto simp: task_evolves_def task_wf_def intro: task_transition.intros)+

lemma operator_max [simp]:
  "max_tasks (snd (mark_cancelled e i r q)) = max_tasks q"
  "max_tasks (snd (mark_retry_wait e i d err q)) = max_tasks q"
  "max_tasks (snd (resume_blocked_task e i d err q)) = max_tasks q"
  "max_tasks (snd (patch_task e i v p r q)) = max_tasks q"
  by (simp_all add: mark_cancelled_def mark_retry_wait_def resume_blocked_task_def patch_task_def)

text \<open>Every operation that adds no task changes the stored ones along the transitions.\<close>

lemma task_step_rel:
  "\<forall>i. \<not> task_creates a i \<Longrightarrow>
   list_all2 task_evolves (tasks q) (tasks (task_step a q)) \<and> max_tasks (task_step a q) = max_tasks q"
  by (cases a) (simp_all add: claim_due_rel outcome_rel patch_task_rel operator_rel)

subsection \<open>Adding a task\<close>

lemma insert_task_cases:
  obtains (full) m where "max_tasks q = Some m" "m \<le> length (tasks q)"
      "tasks (snd (insert_task e t now q)) = tasks q" "task_state (fst (insert_task e t now q)) = Failed"
    | (push) "(case max_tasks q of None \<Rightarrow> True | Some m \<Rightarrow> length (tasks q) < m)"
      "tasks (snd (insert_task e t now q)) = tasks q @ [t]" "fst (insert_task e t now q) = t"
    | (evict) m idx where "max_tasks q = Some m" "m \<le> length (tasks q)" "idx < length (tasks q)"
      "is_terminal (task_state (tasks q ! idx))"
      "tasks (snd (insert_task e t now q)) = remove_at idx (tasks q) @ [t]"
      "fst (insert_task e t now q) = t"
proof (cases "max_tasks q")
  case None
  with push show ?thesis by (simp add: insert_task_def Let_def)
next
  case (Some m)
  show ?thesis
  proof (cases "m \<le> length (tasks q)")
    case False
    with Some push show ?thesis by (simp add: insert_task_def Let_def)
  next
    case True
    let ?c = "first_min_by (\<lambda>(_, t). updated_at_ms t)
        (filter (\<lambda>(_, t). task_state t \<in> {Done, Failed, Cancelled}) (enumerate 0 (tasks q)))"
    show ?thesis
    proof (cases ?c)
      case None
      with Some True full show ?thesis by (simp add: insert_task_def Let_def)
    next
      case (Some c)
      then obtain idx t' where c: "?c = Some (idx, t')" by (cases c) auto
      then have "(idx, t') \<in> set (enumerate 0 (tasks q))" "task_state t' \<in> {Done, Failed, Cancelled}"
        by (auto dest: first_min_by_in)
      then have "idx < length (tasks q)" "is_terminal (task_state (tasks q ! idx))"
        by (auto simp: in_set_enumerate_eq)
      with c True \<open>max_tasks q = Some m\<close> evict show ?thesis by (simp add: insert_task_def Let_def)
    qed
  qed
qed

lemma insert_task_max [simp]: "max_tasks (snd (insert_task e t now q)) = max_tasks q"
  by (auto simp: insert_task_def Let_def split: option.split)

lemma set_remove_at: "idx < length xs \<Longrightarrow> set xs = insert (xs ! idx) (set (remove_at idx xs))"
  unfolding remove_at_def by (metis Un_insert_right id_take_nth_drop list.simps(15) set_append)

lemma length_remove_at: "idx < length xs \<Longrightarrow> Suc (length (remove_at idx xs)) = length xs"
  by (simp add: remove_at_def)

lemma map_remove_at: "map f (remove_at idx xs) = remove_at idx (map f xs)"
  by (simp add: remove_at_def take_map drop_map)

lemma distinct_remove_at: "idx < length xs \<Longrightarrow> distinct xs \<Longrightarrow> distinct (remove_at idx xs)"
  unfolding remove_at_def
  using id_take_nth_drop [of idx xs] by (metis distinct.simps(2) distinct_append list.set_intros(2)
      disjoint_iff)

lemma queue_wf_insert:
  assumes wf: "queue_wf q" and t: "task_wf t" "task_id t \<notin> task_id ` set (tasks q)"
  shows "queue_wf (snd (insert_task e t now q))"
proof (cases rule: insert_task_cases [of q e t now])
  case (full m)
  with wf show ?thesis by (simp add: queue_wf_def)
next
  case push
  with wf t show ?thesis by (auto simp: queue_wf_def split: option.splits)
next
  case (evict m idx)
  have sub: "set (remove_at idx (tasks q)) \<subseteq> set (tasks q)"
    using set_remove_at [OF evict(3)] by blast
  have "distinct (map task_id (remove_at idx (tasks q)))"
    using wf evict(3) by (simp add: queue_wf_def map_remove_at distinct_remove_at)
  with wf t sub evict length_remove_at [OF evict(3)] show ?thesis
    by (auto simp: queue_wf_def list_all_iff subset_iff)
qed

subsection \<open>Every operation keeps the invariant\<close>

lemma evolves_ids: "list_all2 task_evolves ts ts' \<Longrightarrow> map task_id ts' = map task_id ts"
  by (induction rule: list_all2_induct) (auto simp: task_evolves_def)

lemma evolves_wf: "list_all2 task_evolves ts ts' \<Longrightarrow> list_all task_wf ts \<Longrightarrow> list_all task_wf ts'"
  by (induction rule: list_all2_induct) (auto simp: task_evolves_def)

lemma evolves_member: "list_all2 R ts ts' \<Longrightarrow> t \<in> set ts \<Longrightarrow> \<exists>t' \<in> set ts'. R t t'"
  by (induction rule: list_all2_induct) auto

lemma queue_wf_evolves:
  "queue_wf q \<Longrightarrow> list_all2 task_evolves (tasks q) (tasks q') \<Longrightarrow> max_tasks q' = max_tasks q \<Longrightarrow>
   queue_wf q'"
  using list_all2_lengthD [of task_evolves "tasks q" "tasks q'"]
  by (auto simp: queue_wf_def evolves_ids evolves_wf split: option.splits)

text \<open>An operation either adds one new well-formed task under its id, or adds none.\<close>

lemma task_step_creates:
  assumes "task_creates a i"
  shows "\<exists>e t now. task_id t = i \<and> task_wf t \<and> task_state t \<noteq> Done \<and>
    task_step a q = snd (insert_task e t now q)"
  using assms
  by (cases a)
    (auto simp: enqueue_with_policy_def enqueue_running_with_policy_def enqueue_blocked_with_policy_def
      build_task_def task_wf_def u32_max_def case_prod_beta Let_def intro!: exI)

lemma task_step_wf: "queue_wf q \<Longrightarrow> task_op_ok a q \<Longrightarrow> queue_wf (task_step a q)"
proof (cases "\<exists>i. task_creates a i")
  case True
  assume q: "queue_wf q" and ok: "task_op_ok a q"
  from True obtain i where i: "task_creates a i" by blast
  with task_step_creates [OF i, of q] obtain e t now where
    t: "task_id t = i" "task_wf t" "task_step a q = snd (insert_task e t now q)" by blast
  moreover have "i \<notin> task_id ` set (tasks q)"
    using ok i by (auto simp: task_op_ok_def list_all_iff)
  ultimately show ?thesis using q by (simp add: queue_wf_insert)
next
  case False
  assume q: "queue_wf q"
  from False show ?thesis
    using task_step_rel [of a q] queue_wf_evolves [OF q] by blast
qed

lemma task_step_keeps:
  assumes "t \<in> set (tasks q)"
  shows "(\<exists>t' \<in> set (tasks (task_step a q)). task_id t' = task_id t \<and>
            task_transition (task_state t) (task_state t')) \<or> is_terminal (task_state t)"
proof (cases "\<exists>i. task_creates a i")
  case True
  then obtain i e n now where n: "task_step a q = snd (insert_task e n now q)"
    using task_step_creates by blast
  show ?thesis
  proof (cases rule: insert_task_cases [of q e n now])
    case (full m)
    with assms n show ?thesis using task_transition.stay by auto
  next
    case push
    with assms n show ?thesis using task_transition.stay by auto
  next
    case (evict m idx)
    with assms set_remove_at [OF evict(3)] consider "t = tasks q ! idx" | "t \<in> set (remove_at idx (tasks q))"
      by blast
    with evict n show ?thesis using task_transition.stay by cases auto
  qed
next
  case False
  then have "list_all2 task_evolves (tasks q) (tasks (task_step a q))"
    using task_step_rel [of a q] by blast
  from evolves_member [OF this assms] show ?thesis by (auto simp: task_evolves_def)
qed

subsection \<open>Done tasks stay done\<close>

definition task_over :: "string \<Rightarrow> 'v TaskQueue \<Rightarrow> bool" where
  "task_over i q = list_all (\<lambda>t. task_id t = i \<longrightarrow> task_state t = Done) (tasks q)"

definition task_claimable :: "'v TaskQueue \<Rightarrow> string \<Rightarrow> bool" where
  "task_claimable q i \<longleftrightarrow> (\<exists>e now limit. i \<in> task_id ` set (fst (claim_due e now limit q)))"

lemma claim_loop_claimed:
  "fst (claim_loop now limit claimed ts) =
   claimed @ map (claim_task now) (take (limit - length claimed) (filter (\<lambda>t. is_due t now) ts))"
proof (induction ts arbitrary: claimed)
  case Nil
  then show ?case by simp
next
  case (Cons t ts)
  show ?case
  proof (cases "limit \<le> length claimed")
    case True
    then show ?thesis by simp
  next
    case False
    then have "limit - length claimed = Suc (limit - Suc (length claimed))" by simp
    with False Cons.IH show ?thesis by (simp add: case_prod_beta Let_def)
  qed
qed

lemma claim_due_claimed:
  "fst (claim_due e now limit q) =
   map (claim_task now) (take limit (filter (\<lambda>t. is_due t now) (tasks q)))"
  using claim_loop_claimed [of now limit "[]" "tasks q"]
  by (simp add: claim_due_def case_prod_beta Let_def)

lemma claim_task_id [simp]: "task_id (claim_task now t) = task_id t"
  by (simp add: claim_task_def)

lemma task_over_not_claimable: "task_over i q \<Longrightarrow> \<not> task_claimable q i"
  by (auto simp: task_over_def task_claimable_def claim_due_claimed list_all_iff is_due_def
      split: TaskState.splits dest!: in_set_takeD)

lemma task_over_step:
  assumes "task_over i q" and "\<not> task_creates a i"
  shows "task_over i (task_step a q)"
proof (cases "\<exists>j. task_creates a j")
  case True
  then obtain j where j: "task_creates a j" by blast
  then obtain e t now where t: "task_id t = j" "task_step a q = snd (insert_task e t now q)"
    using task_step_creates by blast
  have "j \<noteq> i" using j assms(2) by blast
  show ?thesis
  proof (cases rule: insert_task_cases [of q e t now])
    case (full m)
    with assms(1) t show ?thesis by (simp add: task_over_def)
  next
    case push
    with assms(1) t \<open>j \<noteq> i\<close> show ?thesis by (simp add: task_over_def)
  next
    case (evict m idx)
    have "set (remove_at idx (tasks q)) \<subseteq> set (tasks q)"
      using set_remove_at [OF evict(3)] by blast
    with evict assms(1) t \<open>j \<noteq> i\<close> show ?thesis by (auto simp: task_over_def list_all_iff)
  qed
next
  case False
  then have "list_all2 task_evolves (tasks q) (tasks (task_step a q))"
    using task_step_rel [of a q] by blast
  then show ?thesis
    using assms(1) unfolding task_over_def
    by (induction rule: list_all2_induct) (auto simp: task_evolves_def)
qed

interpretation task_machine: credential_machine task_step queue_wf task_op_ok task_creates task_over
    task_claimable
  by unfold_locales (auto simp: task_step_wf task_over_step task_over_not_claimable)

end
