(* ===== verification/Task_Lifecycle.thy ===== *)
theory Task_Lifecycle
  imports Task_Queue
begin

text \<open>
  Properties of the durable task queue over its life: what a look-up returns after each
  operation, in which order tasks are claimed, what a worker cycle and a retry achieve, and
  what a restart recovers from the queue file.
\<close>

subsection \<open>Look-up after an update\<close>

definition lookup :: "string \<Rightarrow> 'v DurableTask list \<Rightarrow> 'v DurableTask option" where
  "lookup i ts = find (\<lambda>t. task_id t = i) ts"

lemma get_lookup: "get i q = lookup i (tasks q)"
  by (simp add: get_def lookup_def)

lemma lookup_simps [simp]:
  "lookup i [] = None" "lookup i (t # ts) = (if task_id t = i then Some t else lookup i ts)"
  by (simp_all add: lookup_def)

lemma lookup_Some: "lookup i ts = Some t \<Longrightarrow> t \<in> set ts \<and> task_id t = i"
  by (auto simp: lookup_def find_Some_iff)

lemma lookup_member:
  "distinct (map task_id ts) \<Longrightarrow> t \<in> set ts \<Longrightarrow> lookup (task_id t) ts = Some t"
  by (induction ts) (auto simp: image_iff)

lemma update_first_lookup:
  assumes "\<And>t. task_id (f t) = task_id t"
  shows "lookup j (snd (update_first i P f ts)) =
    (if j = i then map_option (\<lambda>t. if P t then f t else t) (lookup i ts) else lookup j ts)"
  by (induction ts) (auto simp: assms split: prod.split)

lemma update_first_fst:
  "fst (update_first i P f ts) = (case lookup i ts of None \<Rightarrow> False | Some t \<Rightarrow> P t)"
  by (induction ts) (auto split: prod.split)

text \<open>
  The law every client of the queue relies on: an update changes the named task, if its
  predicate holds, and no other, and its result says whether it did.
\<close>

lemma get_update_task_if:
  assumes "\<And>t now. task_id (f t now) = task_id t"
  shows "get j (snd (update_task_if e i P f q)) =
    (if j = i then map_option (\<lambda>t. if P t then f t (env_now e) else t) (get i q) else get j q)"
  using update_first_lookup [of "\<lambda>t. f t (env_now e)"] assms
  by (simp add: update_task_if_def get_lookup Let_def case_prod_beta)

lemma update_task_if_result:
  "fst (update_task_if e i P f q) = (case get i q of None \<Rightarrow> False | Some t \<Rightarrow> P t)"
  by (simp add: update_task_if_def get_lookup Let_def case_prod_beta update_first_fst)

lemmas mark_defs = mark_done_def mark_failed_def mark_blocked_def mark_cancelled_def
  mark_retry_wait_def resume_blocked_task_def

text \<open>The state an execution's outcome puts the task into.\<close>

fun outcome_state :: "TaskExecutionOutcome \<Rightarrow> TaskState" where
  "outcome_state (Outcome_Done _) = Done"
| "outcome_state (Outcome_RetryWait _ _) = RetryWait"
| "outcome_state (Outcome_Blocked _ _) = Blocked"
| "outcome_state (Outcome_Failed _) = Failed"
| "outcome_state (Outcome_Cancelled _) = Cancelled"

lemma get_outcome_other: "j \<noteq> i \<Longrightarrow> get j (snd (apply_outcome e i out q)) = get j q"
  by (cases out) (simp_all add: mark_defs get_update_task_if)

lemma get_outcome_running:
  assumes "get i q = Some t" "task_state t = Running"
  shows "\<exists>t'. get i (snd (apply_outcome e i out q)) = Some t' \<and> task_id t' = i \<and>
    task_state t' = outcome_state out \<and> attempts t' = attempts t \<and> payload t' = payload t"
proof -
  have "task_id t = i" using assms(1) by (auto simp: get_lookup dest: lookup_Some)
  with assms show ?thesis by (cases out) (simp_all add: mark_defs get_update_task_if)
qed

subsection \<open>Claiming in queue order\<close>

lemma is_due_claimed [simp]: "\<not> is_due (claim_task now t) now'"
  by (simp add: is_due_def claim_task_def)

lemma claim_loop_rest:
  "filter (\<lambda>t. is_due t now) (snd (claim_loop now limit claimed ts)) =
   drop (limit - length claimed) (filter (\<lambda>t. is_due t now) ts)"
proof (induction ts arbitrary: claimed)
  case Nil
  then show ?case by simp
next
  case (Cons t ts)
  show ?case
  proof (cases "limit \<le> length claimed")
    case True
    then show ?thesis by simp
  next
    case False
    then have "limit - length claimed = Suc (limit - Suc (length claimed))" by simp
    with False Cons.IH show ?thesis by (simp add: case_prod_beta Let_def)
  qed
qed

lemma claim_due_tasks:
  "tasks (snd (claim_due e now limit q)) = snd (claim_loop now limit [] (tasks q))"
  by (cases "tasks q") (simp_all add: claim_due_def case_prod_beta Let_def)

lemma claim_due_rest:
  "filter (\<lambda>t. is_due t now) (tasks (snd (claim_due e now limit q))) =
   drop limit (filter (\<lambda>t. is_due t now) (tasks q))"
  by (simp add: claim_due_tasks claim_loop_rest)

lemma lookup_claim_loop:
  assumes "distinct (map task_id ts)"
  shows "lookup i (snd (claim_loop now limit claimed ts)) =
    map_option (\<lambda>t. if t \<in> set (take (limit - length claimed) (filter (\<lambda>t. is_due t now) ts))
                    then claim_task now t else t) (lookup i ts)"
  using assms
proof (induction ts arbitrary: claimed)
  case Nil
  then show ?case by simp
next
  case (Cons t ts)
  show ?case
  proof (cases "limit \<le> length claimed")
    case True
    then show ?thesis by (simp add: option.map_id0 [unfolded id_def])
  next
    case False
    then have s: "limit - length claimed = Suc (limit - Suc (length claimed))" by simp
    have new: "t \<noteq> t'" if "lookup i ts = Some t'" for t'
      using Cons.prems that by (auto dest!: lookup_Some)
    have out: "t \<notin> set (take n (filter (\<lambda>t. is_due t now) ts))" for n
      using Cons.prems by (auto dest!: in_set_takeD)
    show ?thesis
      using False Cons.IH Cons.prems new out
      by (cases "lookup i ts") (auto simp: case_prod_beta Let_def s)
  qed
qed

lemma get_claim_due:
  "queue_wf q \<Longrightarrow> get i (snd (claim_due e now limit q)) =
    map_option (\<lambda>t. if t \<in> set (take limit (filter (\<lambda>t. is_due t now) (tasks q)))
                    then claim_task now t else t) (get i q)"
  using lookup_claim_loop [of "tasks q" i now limit "[]"]
  by (simp add: queue_wf_def get_lookup claim_due_tasks)

lemma get_member: "queue_wf q \<Longrightarrow> t \<in> set (tasks q) \<Longrightarrow> get (task_id t) q = Some t"
  by (simp add: queue_wf_def get_lookup lookup_member)

lemma get_unique:
  "queue_wf q \<Longrightarrow> get i q = Some t \<Longrightarrow> u \<in> set (tasks q) \<and> task_id u = i \<longleftrightarrow> u = t"
  by (metis get_lookup get_member lookup_Some option.inject)


subsection \<open>A worker cycle\<close>

lemma get_run_outcomes_other:
  "i \<notin> task_id ` set ts \<Longrightarrow> get i (run_outcomes execute env_of k ts q) = get i q"
  by (induction ts arbitrary: k q) (simp_all add: get_outcome_other)

lemma get_run_outcomes:
  assumes "distinct (map task_id ts)" "t \<in> set ts" "get (task_id t) q = Some t" "task_state t = Running"
  shows "\<exists>t'. get (task_id t) (run_outcomes execute env_of k ts q) = Some t' \<and>
    task_state t' = outcome_state (execute t) \<and> attempts t' = attempts t \<and> payload t' = payload t"
  using assms
proof (induction ts arbitrary: k q)
  case Nil
  then show ?case by simp
next
  case (Cons u ts)
  show ?case
  proof (cases "u = t")
    case True
    with Cons.prems(1) have "task_id t \<notin> task_id ` set ts" by auto
    with True get_outcome_running [OF Cons.prems(3,4), of "env_of k" "execute t"] show ?thesis
      by (auto simp: get_run_outcomes_other)
  next
    case False
    with Cons.prems have "task_id t \<noteq> task_id u" by (auto simp: image_iff)
    with False Cons show ?thesis by (simp add: get_outcome_other)
  qed
qed

lemma distinct_claimed:
  "queue_wf q \<Longrightarrow> distinct (map task_id (fst (claim_due e now limit q)))"
  by (simp add: claim_due_claimed comp_def queue_wf_def take_map distinct_map_filter distinct_take
      flip: take_map)

lemma run_task_worker_cycle_get:
  fixes env_of :: "nat \<Rightarrow> env"
  assumes wf: "queue_wf q" and t: "t \<in> set (tasks q)"
  defines "now \<equiv> env_now (env_of 0)"
  shows "if t \<in> set (take 32 (filter (\<lambda>t. is_due t now) (tasks q)))
    then \<exists>t'. get (task_id t) (run_task_worker_cycle execute env_of q) = Some t' \<and>
           task_state t' = outcome_state (execute (claim_task now t)) \<and>
           attempts t' = u32_saturating_add (attempts t) 1 \<and> payload t' = payload t
    else get (task_id t) (run_task_worker_cycle execute env_of q) = Some t"
proof -
  let ?due = "take 32 (filter (\<lambda>t. is_due t now) (tasks q))"
  let ?q = "snd (claim_due (env_of 0) now 32 q)"
  have cyc: "run_task_worker_cycle execute env_of q =
      run_outcomes execute env_of 1 (map (claim_task now) ?due) ?q"
    by (simp add: run_task_worker_cycle_def now_def case_prod_beta claim_due_claimed)
  have g: "get (task_id t) ?q = Some (if t \<in> set ?due then claim_task now t else t)"
    using get_claim_due [OF wf, of "task_id t" "env_of 0" now 32] get_member [OF wf t] by simp
  show ?thesis
  proof (cases "t \<in> set ?due")
    case True
    have "distinct (map task_id (map (claim_task now) ?due))"
      using distinct_claimed [OF wf, of "env_of 0" now 32] by (simp only: claim_due_claimed)
    from get_run_outcomes [OF this, of "claim_task now t" ?q execute env_of 1] True g show ?thesis
      by (simp add: cyc) (simp add: claim_task_def)
  next
    case False
    have "task_id t \<notin> task_id ` set (map (claim_task now) ?due)"
    proof
      assume "task_id t \<in> task_id ` set (map (claim_task now) ?due)"
      then obtain u where u: "u \<in> set ?due" "task_id u = task_id t" by auto
      then have "u \<in> set (tasks q)" by (auto dest: in_set_takeD)
      with get_member [OF wf t] get_member [OF wf this] u have "u = t" by simp
      with u False show False by simp
    qed
    from get_run_outcomes_other [OF this, of execute env_of 1 ?q] False g show ?thesis
      by (simp only: cyc if_False)
  qed
qed

subsection \<open>What a restart recovers\<close>

text \<open>The file holds the queue (a queue that was never written is empty).\<close>

definition disk_synced :: "'v TaskQueue \<Rightarrow> bool" where
  "disk_synced q \<longleftrightarrow> persist_path q \<noteq> None \<and> (disk q = Some (tasks q) \<or> disk q = None \<and> tasks q = [])"

fun op_env :: "'v task_op \<Rightarrow> env" where
  "op_env (Op_enqueue e _ _ _) = e"
| "op_env (Op_enqueue_running e _ _) = e"
| "op_env (Op_enqueue_blocked e _ _ _ _) = e"
| "op_env (Op_claim e _) = e"
| "op_env (Op_outcome e _ _) = e"
| "op_env (Op_cancel e _ _) = e"
| "op_env (Op_retry e _ _ _) = e"
| "op_env (Op_resume e _ _ _) = e"
| "op_env (Op_patch e _ _ _ _) = e"

lemma flush_synced: "persist_path q \<noteq> None \<Longrightarrow> env_fault e = None \<Longrightarrow>
    disk_synced (flush_to_disk (env_fault e) q)"
  by (auto simp: flush_to_disk_def disk_synced_def write_file_def is_mkdir_fault_def)

lemma insert_task_synced:
  "disk_synced q \<Longrightarrow> env_fault e = None \<Longrightarrow> disk_synced (snd (insert_task e t now q))"
  using flush_synced [of "q\<lparr>tasks := _\<rparr>" e]
  by (auto simp: insert_task_def Let_def disk_synced_def [of q] split: option.split)

lemma update_first_unchanged: "\<not> fst (update_first i P f ts) \<Longrightarrow> snd (update_first i P f ts) = ts"
  by (induction ts) (auto simp: case_prod_beta Let_def split: if_splits)

lemma update_task_if_synced:
  "disk_synced q \<Longrightarrow> env_fault e = None \<Longrightarrow> disk_synced (snd (update_task_if e i P f q))"
  using flush_synced [of "q\<lparr>tasks := _\<rparr>" e]
  by (auto simp: update_task_if_def Let_def case_prod_beta disk_synced_def [of q] update_first_unchanged)

lemma claim_loop_unchanged: "fst (claim_loop now limit claimed ts) = claimed \<Longrightarrow>
    snd (claim_loop now limit claimed ts) = ts"
  by (induction ts arbitrary: claimed)
    (auto simp: claim_loop_claimed case_prod_beta Let_def split: if_splits)

lemma claim_due_synced:
  "disk_synced q \<Longrightarrow> env_fault e = None \<Longrightarrow> disk_synced (snd (claim_due e now limit q))"
  using flush_synced [of "q\<lparr>tasks := _\<rparr>" e] claim_loop_unchanged [of now limit "[]" "tasks q"]
  by (auto simp: claim_due_def Let_def case_prod_beta disk_synced_def [of q])

lemma task_step_synced:
  "disk_synced q \<Longrightarrow> env_fault (op_env a) = None \<Longrightarrow> disk_synced (task_step a q)"
proof (cases a)
  case (Op_outcome e i out)
  assume "disk_synced q" "env_fault (op_env a) = None"
  with Op_outcome show ?thesis by (cases out) (simp_all add: mark_defs update_task_if_synced)
qed (simp_all add: enqueue_with_policy_def enqueue_running_with_policy_def
      enqueue_blocked_with_policy_def patch_task_def mark_defs update_task_if_synced claim_due_synced
      insert_task_synced case_prod_beta Let_def)

interpretation task_disk: invariant_machine task_step disk_synced
    "\<lambda>a _. env_fault (op_env a) = None"
  by unfold_locales (rule task_step_synced)

text \<open>A new process opens the file the old one left.\<close>

definition restart ::
    "('v DurableTask list \<Rightarrow> 'b) \<Rightarrow> ('b \<Rightarrow> string + 'v DurableTask list) \<Rightarrow> env
      \<Rightarrow> 'v TaskQueue \<Rightarrow> (string + unit) \<times> 'v TaskQueue" where
  "restart to_json from_json e q =
     load from_json (Inl []) e (Inr (map_option to_json (disk q)))
       ((with_capacity_limit (persist_path q) (max_tasks q))\<lparr>disk := disk q\<rparr>)"

lemma restart_synced:
  assumes "disk_synced q" "\<And>ts. from_json (to_json ts) = Inr ts"
  shows "fst (restart to_json from_json e q) = Inr () \<and>
    tasks (snd (restart to_json from_json e q)) = map (recover_running (env_now e)) (tasks q)"
  using assms
  by (auto simp: restart_def load_def with_capacity_limit_def disk_synced_def Let_def split: option.splits)

lemma recover_running_state:
  "task_state (recover_running now t) = (if task_state t = Running then RetryWait else task_state t)"
  "task_id (recover_running now t) = task_id t" "payload (recover_running now t) = payload t"
  by (simp_all add: recover_running_def)

lemma recover_running_due:
  "task_state t = Running \<Longrightarrow> is_due (recover_running now t) now' \<longleftrightarrow> now \<le> now'"
  by (simp add: recover_running_def is_due_def)


subsection \<open>Counting\<close>

lemma count_fold:
  "queued (foldl (\<lambda>s t. count_state s (task_state t)) s ts) = queued s + length (filter (\<lambda>t. task_state t = Queued) ts)"
  "running (foldl (\<lambda>s t. count_state s (task_state t)) s ts) = running s + length (filter (\<lambda>t. task_state t = Running) ts)"
  "blocked (foldl (\<lambda>s t. count_state s (task_state t)) s ts) = blocked s + length (filter (\<lambda>t. task_state t = Blocked) ts)"
  "retry_wait (foldl (\<lambda>s t. count_state s (task_state t)) s ts) = retry_wait s + length (filter (\<lambda>t. task_state t = RetryWait) ts)"
  "done_count (foldl (\<lambda>s t. count_state s (task_state t)) s ts) = done_count s + length (filter (\<lambda>t. task_state t = Done) ts)"
  "failed (foldl (\<lambda>s t. count_state s (task_state t)) s ts) = failed s + length (filter (\<lambda>t. task_state t = Failed) ts)"
  "cancelled (foldl (\<lambda>s t. count_state s (task_state t)) s ts) = cancelled s + length (filter (\<lambda>t. task_state t = Cancelled) ts)"
  "total (foldl (\<lambda>s t. count_state s (task_state t)) s ts) = total s"
proof (induction ts arbitrary: s)
  case (Cons t ts)
  { case 1 then show ?case by (cases "task_state t") (simp_all add: Cons.IH)
  next case 2 then show ?case by (cases "task_state t") (simp_all add: Cons.IH)
  next case 3 then show ?case by (cases "task_state t") (simp_all add: Cons.IH)
  next case 4 then show ?case by (cases "task_state t") (simp_all add: Cons.IH)
  next case 5 then show ?case by (cases "task_state t") (simp_all add: Cons.IH)
  next case 6 then show ?case by (cases "task_state t") (simp_all add: Cons.IH)
  next case 7 then show ?case by (cases "task_state t") (simp_all add: Cons.IH)
  next case 8 then show ?case by (cases "task_state t") (simp_all add: Cons.IH) }
qed simp_all

lemma total_by_state:
  "length ts = length (filter (\<lambda>t. task_state t = Queued) ts) + length (filter (\<lambda>t. task_state t = Running) ts) +
     length (filter (\<lambda>t. task_state t = Blocked) ts) + length (filter (\<lambda>t. task_state t = RetryWait) ts) +
     length (filter (\<lambda>t. task_state t = Done) ts) + length (filter (\<lambda>t. task_state t = Failed) ts) +
     length (filter (\<lambda>t. task_state t = Cancelled) ts)"
proof (induction ts)
  case (Cons t ts)
  then show ?case by (cases "task_state t") simp_all
qed simp

subsection \<open>Concrete queues for the witnesses\<close>

definition ex_task :: "string \<Rightarrow> TaskState \<Rightarrow> u64 option \<Rightarrow> unit DurableTask" where
  "ex_task i s next =
     \<lparr> task_id = i, task_state = s, attempts = 0, next_run_at_ms = next, last_error = None,
       payload = (), created_at_ms = 1, updated_at_ms = 1, run_ids = [], policy = TaskPolicy_default,
       blocked_reason = None, policy_explicit = True \<rparr>"

definition ex_queue :: "unit TaskQueue" where
  "ex_queue = \<lparr> tasks = [ex_task ''a'' Done None, ex_task ''b'' Running None, ex_task ''c'' Queued None],
     persist_path = None, dir_ensured = False, max_tasks = Some 3, disk = None \<rparr>"

definition ex_ops :: "unit task_op list" where
  "ex_ops = [Op_enqueue (ex_env 1 ''a'') () None TaskPolicy_default, Op_claim (ex_env 2 []) 5,
     Op_outcome (ex_env 3 []) ''a'' (Outcome_Done None), Op_enqueue_running (ex_env 4 ''b'') () TaskPolicy_default]"

lemma ex_queue_wf: "queue_wf ex_queue"
  by (simp add: queue_wf_def ex_queue_def ex_task_def task_wf_def)

lemmas task_eval = ex_ops_def ex_env_def with_capacity_limit_def task_op_ok_def enqueue_with_policy_def
  enqueue_running_with_policy_def insert_task_def build_task_def flush_to_disk_def claim_due_def
  is_due_def claim_task_def mark_done_def update_task_if_def push_run_id_def Let_def
  is_mkdir_fault_def write_file_def


subsection \<open>Properties\<close>

text \<open>
  C4: However operations are sequenced on a queue that starts empty (fresh ids for new tasks),
  the queue stays within its capacity, ids stay distinct and every task's fields agree with its
  state: a blocked reason exactly when blocked, a next run time exactly when waiting for a retry.
\<close>

theorem task_queue_invariant:
  assumes "run_ok task_op_ok task_step as (with_capacity_limit path limit)"
  shows "queue_wf (fold task_step as (with_capacity_limit path limit))"
proof -
  have "queue_wf (with_capacity_limit path limit)"
    by (simp add: queue_wf_def with_capacity_limit_def split: option.split)
  then show ?thesis using assms by (rule task_machine.run_inv)
qed

theorem task_queue_invariant_witness:
  "run_ok task_op_ok task_step ex_ops (with_capacity_limit (Some ''q'') (Some 1)) \<and>
   queue_wf (fold task_step ex_ops (with_capacity_limit (Some ''q'') (Some 1)))"
proof -
  have "run_ok task_op_ok task_step ex_ops (with_capacity_limit (Some ''q'') (Some 1))"
    by (simp add: task_eval)
  with task_queue_invariant [OF this] show ?thesis by simp
qed

text \<open>
  C5: No operation loses a task that is not finished: it is still stored under its id, in a state
  the transition relation allows; only finished tasks are ever evicted.
\<close>

theorem unfinished_task_kept:
  assumes "t \<in> set (tasks q)" "\<not> is_terminal (task_state t)"
  shows "\<exists>t' \<in> set (tasks (task_step a q)). task_id t' = task_id t \<and>
    task_transition (task_state t) (task_state t')"
  using task_step_keeps [OF assms(1), of a] assms(2) by blast

theorem unfinished_task_kept_witness:
  "\<exists>t' \<in> set (tasks (task_step (Op_enqueue (ex_env 9 ''d'') () None TaskPolicy_default) ex_queue)).
     task_id t' = ''b'' \<and> task_transition Running (task_state t')"
  using unfinished_task_kept [of "ex_task ''b'' Running None" ex_queue
      "Op_enqueue (ex_env 9 ''d'') () None TaskPolicy_default"]
  by (simp add: ex_queue_def ex_task_def)

text \<open>
  C6: A task recorded as done is never handed to a worker again, whatever happens to the queue
  afterwards (as long as its id is not reused).
\<close>

theorem done_task_never_reclaimed:
  assumes "queue_wf q" "get i q = Some t" "task_state t = Done"
    and "run_ok task_op_ok task_step as q" "list_all (\<lambda>a. \<not> task_creates a i) as"
  shows "i \<notin> task_id ` set (fst (claim_due e now limit (fold task_step as q)))"
proof -
  have "task_over i q"
    using get_unique [OF assms(1,2)] assms(3) unfolding task_over_def list_all_iff by metis
  from task_machine.run_rejected [OF assms(1,4) this assms(5)] show ?thesis
    by (simp add: task_claimable_def)
qed

theorem done_task_never_reclaimed_witness:
  "''a'' \<notin> task_id ` set (fst (claim_due (ex_env 9 []) 9 10
     (fold task_step [Op_retry (ex_env 5 []) ''a'' 0 [], Op_claim (ex_env 6 []) 1] ex_queue)))"
  by (rule done_task_never_reclaimed [OF ex_queue_wf, where t = "ex_task ''a'' Done None"])
    (simp_all add: get_def ex_queue_def ex_task_def task_op_ok_def list_all_iff)

text \<open>
  Claims hand out the due tasks in queue order without repetition: a claim returns the first
  \<open>limit\<close> due tasks, each marked running with one more attempt, and a second claim at the same time
  continues exactly where the first stopped.
\<close>

theorem claims_in_order_without_overlap:
  "fst (claim_due e now limit q) =
     map (claim_task now) (take limit (filter (\<lambda>t. is_due t now) (tasks q))) \<and>
   fst (claim_due e' now limit' (snd (claim_due e now limit q))) =
     map (claim_task now) (take limit' (drop limit (filter (\<lambda>t. is_due t now) (tasks q))))"
  by (simp add: claim_due_claimed claim_due_rest)





text \<open>
  A retry fires when its delay has elapsed and not before: with room in the claim for every
  task, the task is claimed at time \<open>now\<close> if and only if \<open>now\<close> has reached the saturated sum of the
  time of the mark and the delay.
\<close>

theorem retry_claimed_when_delay_elapsed:
  assumes "queue_wf q" "get i q = Some t"
    and "task_state t \<in> {Running, Failed, Blocked, RetryWait, Cancelled}"
    and "length (tasks q) \<le> limit"
  shows "fst (mark_retry_wait e i delay_ms err q) \<and>
    (i \<in> task_id ` set (fst (claim_due e' now limit (snd (mark_retry_wait e i delay_ms err q)))) \<longleftrightarrow>
      u64_saturating_add (env_now e) delay_ms \<le> now)"
proof -
  let ?q = "snd (mark_retry_wait e i delay_ms err q)"
  have true: "fst (mark_retry_wait e i delay_ms err q)"
    using assms by (simp add: mark_retry_wait_def update_task_if_result)
  have wf: "queue_wf ?q" and len: "length (tasks ?q) = length (tasks q)"
    using queue_wf_evolves [OF assms(1)] operator_rel(2) list_all2_lengthD [OF operator_rel(2)]
    by (fastforce, metis)
  obtain t' where t': "get i ?q = Some t'" "task_state t' = RetryWait" "task_id t' = i"
      "next_run_at_ms t' = Some (u64_saturating_add (env_now e) delay_ms)"
    using assms lookup_Some [of i "tasks q" t]
    by (simp add: mark_retry_wait_def get_update_task_if get_lookup [symmetric])
  note mem = get_unique [OF wf t'(1)]
  have "take limit (filter (\<lambda>t. is_due t now) (tasks ?q)) = filter (\<lambda>t. is_due t now) (tasks ?q)"
    using assms(4) len by (metis length_filter_le order_trans take_all)
  then have "i \<in> task_id ` set (fst (claim_due e' now limit ?q)) \<longleftrightarrow> is_due t' now"
    using mem by (simp only: claim_due_claimed set_map image_image claim_task_id set_filter image_iff)
      (metis (no_types, lifting) mem_Collect_eq)
  with true show ?thesis using t' by (simp add: is_due_def)
qed

theorem retry_claimed_when_delay_elapsed_witness:
  "''b'' \<in> task_id ` set (fst (claim_due (ex_env 9 []) 15 3
     (snd (mark_retry_wait (ex_env 5 []) ''b'' 10 ''x'' ex_queue))))"
proof -
  have "get ''b'' ex_queue = Some (ex_task ''b'' Running None)"
    by (simp add: get_def ex_queue_def ex_task_def)
  from retry_claimed_when_delay_elapsed [OF ex_queue_wf this, of 3 "ex_env 5 []" 10 "''x''" "ex_env 9 []" 15]
  show ?thesis by (simp add: ex_task_def ex_queue_def ex_env_def u64_saturating_add_def u64_max_def)
qed

text \<open>
  Cancelling a task does not stop it when its executor later reports a retry: the outcome of
  the execution that was under way moves the cancelled task back to the retry state, from which
  it is claimed and executed again.
\<close>

theorem cancelled_task_revived_by_retry_outcome:
  assumes "get i q = Some t" "task_state t = Running"
  shows "map_option task_state (get i (snd (mark_cancelled e1 i reason q))) = Some Cancelled \<and>
    map_option task_state (get i (snd (apply_outcome e2 i (Outcome_RetryWait delay_ms err)
      (snd (mark_cancelled e1 i reason q))))) = Some RetryWait"
  using assms by (simp add: mark_defs get_update_task_if)

theorem cancelled_task_revived_by_retry_outcome_witness:
  "map_option task_state (get ''b'' (snd (apply_outcome (ex_env 6 []) ''b'' (Outcome_RetryWait 0 [])
     (snd (mark_cancelled (ex_env 5 []) ''b'' None ex_queue))))) = Some RetryWait"
  using cancelled_task_revived_by_retry_outcome [of "''b''" ex_queue "ex_task ''b'' Running None"
      "ex_env 5 []" None "ex_env 6 []" 0 "[]"]
  by (simp add: get_def ex_queue_def ex_task_def)

text \<open>
  Adding to a full queue gives up the finished task that was touched longest ago and nothing
  else; if no task is finished, the queue is left as it is and the caller gets the new task back as
  failed, with the reason.
\<close>

theorem full_queue_evicts_oldest_finished:
  assumes "max_tasks q = Some m" "m \<le> length (tasks q)"
  shows "if list_ex (\<lambda>t. is_terminal (task_state t)) (tasks q)
    then \<exists>us t vs. tasks q = us @ t # vs \<and> is_terminal (task_state t) \<and>
           list_all (\<lambda>u. is_terminal (task_state u) \<longrightarrow> updated_at_ms t \<le> updated_at_ms u) (tasks q) \<and>
           tasks (snd (insert_task e new now q)) = us @ vs @ [new] \<and>
           fst (insert_task e new now q) = new
    else snd (insert_task e new now q) = q \<and>
         fst (insert_task e new now q) = new\<lparr>task_state := Failed,
           last_error := Some TASK_QUEUE_FULL_NO_EVICTION_ERROR, updated_at_ms := now\<rparr>"
proof -
  let ?l = "filter (\<lambda>(_, t). task_state t \<in> {Done, Failed, Cancelled}) (enumerate 0 (tasks q))"
  have mem: "(k, t) \<in> set ?l \<longleftrightarrow> k < length (tasks q) \<and> tasks q ! k = t \<and> is_terminal (task_state t)" for k t
    by (cases "task_state t") (auto simp: in_set_enumerate_eq)
  show ?thesis
  proof (cases "first_min_by (\<lambda>(_, t). updated_at_ms t) ?l")
    case None
    then have "\<not> list_ex (\<lambda>t. is_terminal (task_state t)) (tasks q)"
      using mem by (auto simp: list_ex_iff in_set_conv_nth)
    with None assms show ?thesis by (simp add: insert_task_def Let_def)
  next
    case (Some c)
    obtain k t where c: "c = (k, t)" by (cases c)
    have kt: "k < length (tasks q)" "tasks q ! k = t" "is_terminal (task_state t)"
      using first_min_by_in [OF Some] mem by (auto simp: c)
    have min: "updated_at_ms t \<le> updated_at_ms u"
      if u: "u \<in> set (tasks q)" "is_terminal (task_state u)" for u
    proof -
      obtain j where "(j, u) \<in> set ?l" using u mem by (metis in_set_conv_nth)
      from first_min_by_le [OF Some this] show ?thesis by (simp add: c)
    qed
    have split: "tasks q = take k (tasks q) @ t # drop (Suc k) (tasks q)"
      using kt id_take_nth_drop by blast
    have "list_ex (\<lambda>t. is_terminal (task_state t)) (tasks q)"
      using kt by (auto simp: list_ex_iff)
    moreover have "tasks (snd (insert_task e new now q)) =
        take k (tasks q) @ drop (Suc k) (tasks q) @ [new] \<and> fst (insert_task e new now q) = new"
      using Some assms by (simp add: insert_task_def Let_def c remove_at_def)
    moreover have "list_all (\<lambda>u. is_terminal (task_state u) \<longrightarrow> updated_at_ms t \<le> updated_at_ms u) (tasks q)"
      using min by (simp add: list_all_iff)
    ultimately show ?thesis using kt(3) split by (simp only: if_True) blast
  qed
qed

theorem full_queue_evicts_oldest_finished_witness:
  "\<exists>us t vs. tasks ex_queue = us @ t # vs \<and> is_terminal (task_state t) \<and>
     tasks (snd (insert_task (ex_env 9 []) (ex_task ''d'' Queued None) 9 ex_queue)) =
       us @ vs @ [ex_task ''d'' Queued None]"
proof -
  have full: "max_tasks ex_queue = Some 3" "3 \<le> length (tasks ex_queue)"
    and fin: "list_ex (\<lambda>t. is_terminal (task_state t)) (tasks ex_queue)"
    by (simp_all add: ex_queue_def ex_task_def)
  from full_queue_evicts_oldest_finished [OF full, of "ex_env 9 []" "ex_task ''d'' Queued None" 9] fin
  show ?thesis by (simp only: if_True) blast
qed

text \<open>
  The wire names of task states and blocked reasons read back as themselves, and a name this
  version does not know is read as the terminal state \<open>Failed\<close> (the reason \<open>Unknown\<close>).
\<close>

theorem task_wire_names_round_trip:
  "deserialize_task_state_forward_compat (serialize_task_state s) = s \<and>
   deserialize_task_blocked_reason_opt_forward_compat (map_option serialize_task_blocked_reason r) = r \<and>
   (w \<in> range serialize_task_state \<or> deserialize_task_state_forward_compat w = Failed)"
proof (intro conjI)
  show "deserialize_task_state_forward_compat (serialize_task_state s) = s"
    by (cases s) (simp_all add: deserialize_task_state_forward_compat_def)
  show "deserialize_task_blocked_reason_opt_forward_compat (map_option serialize_task_blocked_reason r) = r"
  proof (cases r)
    case (Some c)
    then show ?thesis
      by (cases c) (simp_all add: deserialize_task_blocked_reason_opt_forward_compat_def)
  qed (simp add: deserialize_task_blocked_reason_opt_forward_compat_def)
  have "deserialize_task_state_forward_compat w \<noteq> Failed \<Longrightarrow>
      w = serialize_task_state (deserialize_task_state_forward_compat w)"
    by (simp add: deserialize_task_state_forward_compat_def split: if_split_asm)
  then show "w \<in> range serialize_task_state \<or> deserialize_task_state_forward_compat w = Failed"
    by (metis rangeI)
qed


text \<open>
  The queue's statistics are exact: each counter is the number of stored tasks in that state,
  and the counters add up to the total.
\<close>

theorem stats_exact:
  "queued (stats q) = length (filter (\<lambda>t. task_state t = Queued) (tasks q)) \<and>
   running (stats q) = length (filter (\<lambda>t. task_state t = Running) (tasks q)) \<and>
   blocked (stats q) = length (filter (\<lambda>t. task_state t = Blocked) (tasks q)) \<and>
   retry_wait (stats q) = length (filter (\<lambda>t. task_state t = RetryWait) (tasks q)) \<and>
   done_count (stats q) = length (filter (\<lambda>t. task_state t = Done) (tasks q)) \<and>
   failed (stats q) = length (filter (\<lambda>t. task_state t = Failed) (tasks q)) \<and>
   cancelled (stats q) = length (filter (\<lambda>t. task_state t = Cancelled) (tasks q)) \<and>
   total (stats q) = queued (stats q) + running (stats q) + blocked (stats q) + retry_wait (stats q) +
     done_count (stats q) + failed (stats q) + cancelled (stats q)"
  unfolding stats_def using total_by_state [of "tasks q"] by (simp add: count_fold)

end
