(* ===== verification/Exec_Approvals.thy ===== *)
theory Exec_Approvals
  imports Carapace_Prelude
begin

text \<open>
  Approval of command execution (\<^verbatim>\<open>src/exec/mod.rs\<close>). A caller registers a request and waits on a
  one-shot channel; an operator resolves the request, or the wait times out. The async function
  \<^verbatim>\<open>wait_for_decision\<close> is its three atomic parts: registering (\<open>wait_begin\<close>), the end of the wait,
  which fixes the result (\<open>wait_result\<close>), and removing what is left in the map (\<open>wait_cleanup\<close>); any
  other operations may come in between. The one-shot channels of Tokio are part of the state: empty,
  holding the value sent, closed because the sender was dropped, or finished because the receiver
  has returned.
\<close>

subsection \<open>Data\<close>

datatype ExecApprovalDecision = AllowOnce | AllowAlways | Deny

definition parse_decision :: "string \<Rightarrow> ExecApprovalDecision option" where
  "parse_decision s =
     (if s = ''allow-once'' then Some AllowOnce
      else if s = ''allow-always'' then Some AllowAlways
      else if s = ''deny'' then Some Deny
      else None)"

fun as_str :: "ExecApprovalDecision \<Rightarrow> string" where
  "as_str AllowOnce = ''allow-once''"
| "as_str AllowAlways = ''allow-always''"
| "as_str Deny = ''deny''"

record ExecApprovalRequestPayload =
  command :: string
  cwd :: "string option"
  host :: "string option"
  security :: "string option"
  ask :: "string option"
  agent_id :: "string option"
  resolved_path :: "string option"
  session_key :: "string option"

record ExecApprovalRecord =
  record_id :: string
  request :: ExecApprovalRequestPayload
  created_at_ms :: u64
  expires_at_ms :: u64
  resolved_at_ms :: "u64 option"
  decision :: "ExecApprovalDecision option"
  resolved_by :: "string option"

type_synonym channel = nat

datatype channel_state = Empty | Sent "ExecApprovalDecision option" | Closed | Received

record PendingEntry =
  entry_record :: ExecApprovalRecord
  responder :: channel
  expires_at :: nat

text \<open>
  The manager's map, and the one-shot channels created so far: channel \<open>c\<close> is the one of the \<open>c\<close>-th
  call of \<^verbatim>\<open>wait_for_decision\<close>, with the id of the record that call waits for.
\<close>

record ExecApprovalManager =
  pending :: "(string, PendingEntry) hmap"
  channels :: "(string \<times> channel_state) list"

definition ExecApprovalManager_new :: ExecApprovalManager where
  "ExecApprovalManager_new = \<lparr> pending = [], channels = [] \<rparr>"

subsection \<open>One-shot channels\<close>

text \<open>Sending uses the sender up; dropping it without a send closes the channel.\<close>

definition channel_state :: "ExecApprovalManager \<Rightarrow> channel \<Rightarrow> channel_state" where
  "channel_state m c = (if c < length (channels m) then snd (channels m ! c) else Received)"

definition set_channel :: "channel \<Rightarrow> channel_state \<Rightarrow> ExecApprovalManager \<Rightarrow> ExecApprovalManager" where
  "set_channel c s m =
     (if channel_state m c = Empty
      then m\<lparr>channels := (channels m)[c := (fst (channels m ! c), s)]\<rparr> else m)"

text \<open>Removing an entry from the map hands it to the caller; an entry that is only dropped closes
  its channel.\<close>

definition drop_entry :: "string \<Rightarrow> ExecApprovalManager \<Rightarrow> ExecApprovalManager" where
  "drop_entry i m =
     (case hm_get (pending m) i of
        None \<Rightarrow> m
      | Some entry \<Rightarrow> set_channel (responder entry) Closed (m\<lparr>pending := hm_remove i (pending m)\<rparr>))"

subsection \<open>Operations\<close>

definition create_record ::
    "env \<Rightarrow> ExecApprovalRequestPayload \<Rightarrow> u64 \<Rightarrow> string option \<Rightarrow> ExecApprovalRecord" where
  "create_record e req timeout_ms i =
     (let now = env_now e;
          resolved_id = (case i of
              Some s \<Rightarrow> if trim s \<noteq> [] then trim s else env_uuid e
            | None \<Rightarrow> env_uuid e)
      in \<lparr> record_id = resolved_id, request = req, created_at_ms = now,
           expires_at_ms = u64_add now timeout_ms, resolved_at_ms = None, decision = None,
           resolved_by = None \<rparr>)"

text \<open>The part of \<^verbatim>\<open>wait_for_decision\<close> before the wait; \<open>t\<close> is the reading of the monotonic clock.\<close>

definition wait_begin ::
    "nat \<Rightarrow> ExecApprovalRecord \<Rightarrow> u64 \<Rightarrow> ExecApprovalManager \<Rightarrow> channel \<times> ExecApprovalManager" where
  "wait_begin t r timeout_ms m =
     (let c = length (channels m);
          m = drop_entry (record_id r) (m\<lparr>channels := channels m @ [(record_id r, Empty)]\<rparr>)
      in (c, m\<lparr>pending := hm_insert (record_id r)
            \<lparr>entry_record = r, responder = c, expires_at = t + timeout_ms\<rparr> (pending m)\<rparr>))"

text \<open>
  The end of the wait: \<open>None\<close> while it goes on (no value, not closed, time not up), otherwise the
  function's result. A value that is there is returned even if the time is up.
\<close>

definition wait_result ::
    "channel \<Rightarrow> bool \<Rightarrow> ExecApprovalManager \<Rightarrow> ExecApprovalDecision option option \<times> ExecApprovalManager" where
  "wait_result c timed_out m =
     (let result = (case channel_state m c of
            Sent v \<Rightarrow> Some v
          | Closed \<Rightarrow> Some None
          | Empty \<Rightarrow> if timed_out then Some None else None
          | Received \<Rightarrow> None)
      in (result, if result = None then m
                  else m\<lparr>channels := (channels m)[c := (fst (channels m ! c), Received)]\<rparr>))"

text \<open>The removal after the wait, of whatever entry is stored under the record's id by then.\<close>

definition wait_cleanup :: "channel \<Rightarrow> ExecApprovalManager \<Rightarrow> ExecApprovalManager" where
  "wait_cleanup c m = (if c < length (channels m) then drop_entry (fst (channels m ! c)) m else m)"

definition resolve ::
    "string \<Rightarrow> ExecApprovalDecision \<Rightarrow> string option \<Rightarrow> ExecApprovalManager
      \<Rightarrow> ExecApprovalRecord option \<times> ExecApprovalManager" where
  "resolve i d who m =
     (case hm_get (pending m) i of
        None \<Rightarrow> (None, m)
      | Some entry \<Rightarrow>
          (Some (entry_record entry),
           set_channel (responder entry) (Sent (Some d)) (m\<lparr>pending := hm_remove i (pending m)\<rparr>)))"

definition get_snapshot :: "string \<Rightarrow> ExecApprovalManager \<Rightarrow> ExecApprovalRecord option" where
  "get_snapshot i m = map_option entry_record (hm_get (pending m) i)"

definition is_pending :: "string \<Rightarrow> ExecApprovalManager \<Rightarrow> bool" where
  "is_pending i m = hm_contains (pending m) i"

definition list_pending :: "ExecApprovalManager \<Rightarrow> ExecApprovalRecord list" where
  "list_pending m = map entry_record (hm_values (pending m))"

definition expire_entry :: "string \<Rightarrow> ExecApprovalManager \<Rightarrow> ExecApprovalManager" where
  "expire_entry i m =
     (case hm_get (pending m) i of
        None \<Rightarrow> m
      | Some entry \<Rightarrow> set_channel (responder entry) (Sent None) (m\<lparr>pending := hm_remove i (pending m)\<rparr>))"

definition cleanup_expired :: "nat \<Rightarrow> ExecApprovalManager \<Rightarrow> ExecApprovalManager" where
  "cleanup_expired now m =
     fold expire_entry (map fst (filter (\<lambda>(_, entry). expires_at entry < now) (pending m))) m"

subsection \<open>Operations as steps\<close>

text \<open>A wait whose result is out has a channel \<open>Received\<close>; so has, by convention, a channel that does
  not exist yet.\<close>

datatype exec_op =
    Op_wait_begin nat ExecApprovalRecord u64
  | Op_wait_result channel bool
  | Op_wait_cleanup channel
  | Op_resolve string ExecApprovalDecision "string option"
  | Op_cleanup nat

fun exec_step :: "exec_op \<Rightarrow> ExecApprovalManager \<Rightarrow> ExecApprovalManager" where
  "exec_step (Op_wait_begin t r timeout) m = snd (wait_begin t r timeout m)"
| "exec_step (Op_wait_result c b) m = snd (wait_result c b m)"
| "exec_step (Op_wait_cleanup c) m = wait_cleanup c m"
| "exec_step (Op_resolve i d who) m = snd (resolve i d who m)"
| "exec_step (Op_cleanup now) m = cleanup_expired now m"


subsection \<open>Invariant\<close>

definition entry_wf :: "ExecApprovalManager \<Rightarrow> string \<Rightarrow> PendingEntry \<Rightarrow> bool" where
  "entry_wf m i entry \<longleftrightarrow> record_id (entry_record entry) = i \<and> responder entry < length (channels m) \<and>
     fst (channels m ! responder entry) = i \<and> channel_state m (responder entry) \<in> {Empty, Received}"

definition exec_wf :: "ExecApprovalManager \<Rightarrow> bool" where
  "exec_wf m \<longleftrightarrow> hm_wf (pending m) \<and> hm_all (entry_wf m) (pending m)"

definition channel_name :: "ExecApprovalManager \<Rightarrow> channel \<Rightarrow> string" where
  "channel_name m c = fst (channels m ! c)"

lemma exec_wf_iff: "exec_wf m \<longleftrightarrow> hm_wf (pending m) \<and> (\<forall>i en. hm_get (pending m) i = Some en \<longrightarrow> entry_wf m i en)"
  by (auto simp: exec_wf_def hm.allv_iff)

lemma set_channel_sel [simp]:
  "pending (set_channel c s m) = pending m" "length (channels (set_channel c s m)) = length (channels m)"
  by (simp_all add: set_channel_def)

lemma set_channel_state:
  "channel_state (set_channel c s m) c' = (if c' = c \<and> channel_state m c = Empty then s else channel_state m c')"
  by (auto simp: set_channel_def channel_state_def)

lemma fst_update_snd [simp]: "fst (xs[i := (fst (xs ! i), y)] ! j) = fst (xs ! j)"
  by (cases "i = j"; cases "i < length xs") (simp_all add: list_update_beyond)

lemma set_channel_name [simp]: "fst (channels (set_channel c s m) ! c') = fst (channels m ! c')"
  by (simp add: set_channel_def)

text \<open>
  Taking an entry out of the map and settling its channel, which is what resolving, expiring and
  dropping have in common.
\<close>

definition settle :: "string \<Rightarrow> channel_state \<Rightarrow> ExecApprovalManager \<Rightarrow> ExecApprovalManager" where
  "settle i s m =
     (case hm_get (pending m) i of
        None \<Rightarrow> m
      | Some entry \<Rightarrow> set_channel (responder entry) s (m\<lparr>pending := hm_remove i (pending m)\<rparr>))"

lemma settle_eqs:
  "drop_entry i m = settle i Closed m" "expire_entry i m = settle i (Sent None) m"
  "snd (resolve i d who m) = settle i (Sent (Some d)) m"
  by (simp_all add: drop_entry_def expire_entry_def resolve_def settle_def split: option.split)

lemma pending_update_channel [simp]: "channel_state (m\<lparr>pending := p\<rparr>) c = channel_state m c"
  by (simp add: channel_state_def)

lemma settle_get: "hm_get (pending (settle i s m)) j = (if j = i then None else hm_get (pending m) j)"
  by (auto simp: settle_def hm_simps split: option.split)

lemma settle_sel [simp]:
  "length (channels (settle i s m)) = length (channels m)"
  "fst (channels (settle i s m) ! c) = fst (channels m ! c)"
  by (auto simp: settle_def split: option.split)

lemma settle_wf_map: "hm_wf (pending m) \<Longrightarrow> hm_wf (pending (settle i s m))"
  by (auto simp: settle_def intro: wf_intros split: option.split)

lemma settle_channel:
  "channel_state (settle i s m) c =
    (case hm_get (pending m) i of
       None \<Rightarrow> channel_state m c
     | Some en \<Rightarrow> if c = responder en \<and> channel_state m c = Empty then s else channel_state m c)"
  by (auto simp: settle_def set_channel_state split: option.split)

lemma exec_wf_entry: "exec_wf m \<Longrightarrow> hm_get (pending m) i = Some en \<Longrightarrow> entry_wf m i en"
  by (simp add: exec_wf_iff)

lemma responder_inj:
  "exec_wf m \<Longrightarrow> hm_get (pending m) i = Some en \<Longrightarrow> hm_get (pending m) j = Some en' \<Longrightarrow>
   responder en = responder en' \<Longrightarrow> i = j"
  using exec_wf_entry [of m i en] exec_wf_entry [of m j en'] by (simp add: entry_wf_def)

lemma settle_wf: "exec_wf m \<Longrightarrow> exec_wf (settle i s m)"
proof -
  assume wf: "exec_wf m"
  have "entry_wf (settle i s m) j en" if en: "hm_get (pending m) j = Some en" "j \<noteq> i" for j en
  proof -
    have "channel_state (settle i s m) (responder en) = channel_state m (responder en)"
      using responder_inj [OF wf en(1)] en(2) by (auto simp: settle_channel split: option.split)
    with exec_wf_entry [OF wf en(1)] show ?thesis by (simp add: entry_wf_def)
  qed
  with wf show ?thesis by (simp add: exec_wf_iff settle_wf_map settle_get)
qed

lemma entry_wf_extend: "entry_wf m i en \<Longrightarrow> entry_wf (m\<lparr>channels := channels m @ [x]\<rparr>) i en"
  by (auto simp: entry_wf_def channel_state_def nth_append)

lemma cleanup_induct:
  assumes "P m" "\<And>i m. P m \<Longrightarrow> P (settle i (Sent None) m)"
  shows "P (cleanup_expired now m)"
proof -
  have "P (fold expire_entry is m)" for "is"
    using assms(1) by (induction "is" arbitrary: m) (simp_all add: settle_eqs assms(2))
  then show ?thesis by (simp add: cleanup_expired_def)
qed

lemma wait_begin_wf: "exec_wf m \<Longrightarrow> exec_wf (snd (wait_begin t r timeout m))"
proof -
  assume wf: "exec_wf m"
  let ?m = "m\<lparr>channels := channels m @ [(record_id r, Empty)]\<rparr>"
  have "exec_wf ?m"
    using wf by (auto simp: exec_wf_iff intro: entry_wf_extend)
  then have wf': "exec_wf (settle (record_id r) Closed ?m)" by (rule settle_wf)
  have new: "channel_state (settle (record_id r) Closed ?m) (length (channels m)) = Empty"
    using exec_wf_entry [OF wf, of "record_id r"]
    by (fastforce simp: settle_channel entry_wf_def channel_state_def [of ?m] split: option.split)
  have name: "fst (channels (settle (record_id r) Closed ?m) ! length (channels m)) = record_id r"
    by simp
  show ?thesis
    using wf' new name
    by (simp add: wait_begin_def Let_def settle_eqs exec_wf_iff hm_simps wf_intros entry_wf_def)
qed

lemma wait_result_wf: "exec_wf m \<Longrightarrow> exec_wf (snd (wait_result c b m))"
  by (auto simp: wait_result_def Let_def exec_wf_iff entry_wf_def channel_state_def nth_list_update
      split: if_splits)

lemma exec_step_wf: "exec_wf m \<Longrightarrow> exec_wf (exec_step a m)"
proof (cases a)
  case (Op_cleanup now)
  assume "exec_wf m"
  with Op_cleanup show ?thesis by (auto intro: cleanup_induct settle_wf)
qed (simp_all add: wait_begin_wf wait_result_wf settle_eqs settle_wf wait_cleanup_def)


subsection \<open>How a step changes the channels\<close>

lemma extend_channel:
  "channel_state (m\<lparr>channels := channels m @ [x]\<rparr>) c =
    (if c = length (channels m) then snd x else channel_state m c)"
  by (simp add: channel_state_def nth_append)

lemma wait_begin_channel:
  "channel_state (snd (wait_begin t r timeout m)) c =
    channel_state (settle (record_id r) Closed (m\<lparr>channels := channels m @ [(record_id r, Empty)]\<rparr>)) c"
  by (simp add: wait_begin_def Let_def settle_eqs)

lemma wait_result_channel:
  "channel_state (snd (wait_result c b m)) c' =
    (if c' = c \<and> fst (wait_result c b m) \<noteq> None then Received else channel_state m c')"
  by (auto simp: wait_result_def Let_def channel_state_def nth_list_update)

lemma wait_result_pending [simp]: "pending (snd (wait_result c b m)) = pending m"
  by (simp add: wait_result_def Let_def)

lemma settle_sent: "channel_state (settle i s m) c = Sent v \<Longrightarrow> s \<noteq> Sent v \<Longrightarrow> channel_state m c = Sent v"
  by (auto simp: settle_channel split: option.splits if_splits)

lemma settle_keeps: "channel_state m c = Sent v \<Longrightarrow> channel_state (settle i s m) c = Sent v"
  by (auto simp: settle_channel split: option.split)

lemma channels_only_grow:
  "length (channels m) \<le> length (channels (exec_step a m)) \<and>
   (c < length (channels m) \<longrightarrow> channel_name (exec_step a m) c = channel_name m c)"
proof (cases a)
  case (Op_cleanup now)
  have "length (channels m) \<le> length (channels (cleanup_expired now m)) \<and>
      channel_name (cleanup_expired now m) c = channel_name m c"
    by (rule cleanup_induct) (simp_all add: channel_name_def)
  with Op_cleanup show ?thesis by simp
qed (auto simp: wait_begin_def wait_result_def wait_cleanup_def channel_name_def settle_eqs Let_def
      nth_append nth_list_update)

lemma new_channel_not_sent: "c \<ge> length (channels m) \<Longrightarrow> channel_state m c \<noteq> Sent v"
  by (simp add: channel_state_def)

lemma sent_only_by_resolve:
  assumes wf: "exec_wf m" and sent: "channel_state (exec_step a m) c = Sent (Some d)"
    and old: "channel_state m c \<noteq> Sent (Some d)"
  shows "\<exists>who. a = Op_resolve (channel_name m c) d who \<and> is_pending (channel_name m c) m \<and>
    channel_state m c = Empty"
proof (cases a)
  case (Op_resolve i d' who)
  with sent old obtain en where "hm_get (pending m) i = Some en" "c = responder en"
      "channel_state m c = Empty" "d' = d"
    by (auto simp: settle_eqs settle_channel split: option.splits if_splits)
  with exec_wf_entry [OF wf] Op_resolve show ?thesis
    by (auto simp: entry_wf_def channel_name_def is_pending_def hm_contains_def)
next
  case (Op_cleanup now)
  have "channel_state (cleanup_expired now m) c \<noteq> Sent (Some d)"
    by (rule cleanup_induct) (use old settle_sent in blast)+
  with sent Op_cleanup show ?thesis by simp
next
  case (Op_wait_begin t r timeout)
  with sent old show ?thesis
    by (auto simp: wait_begin_channel extend_channel dest!: settle_sent split: if_splits)
qed (use sent old in \<open>auto simp: wait_result_channel wait_cleanup_def settle_eqs dest!: settle_sent
      split: if_splits\<close>)

lemma sent_value_waits:
  assumes "channel_state m c = Sent v" "\<And>b. a \<noteq> Op_wait_result c b"
  shows "channel_state (exec_step a m) c = Sent v"
proof (cases a)
  case (Op_cleanup now)
  have "channel_state (cleanup_expired now m) c = Sent v"
    by (rule cleanup_induct) (use assms(1) settle_keeps in blast)+
  with Op_cleanup show ?thesis by simp
next
  case (Op_wait_begin t r timeout)
  then show ?thesis
    using assms(1) new_channel_not_sent [of m c v] by (auto simp: wait_begin_channel extend_channel intro!: settle_keeps)
qed (use assms in \<open>auto simp: wait_result_channel wait_cleanup_def settle_eqs settle_keeps\<close>)

subsection \<open>A request is decided once\<close>

fun exec_registers :: "exec_op \<Rightarrow> string \<Rightarrow> bool" where
  "exec_registers (Op_wait_begin t r timeout) i = (record_id r = i)"
| "exec_registers _ i = False"

definition not_pending :: "string \<Rightarrow> ExecApprovalManager \<Rightarrow> bool" where
  "not_pending i m = (hm_get (pending m) i = None)"

definition resolvable :: "ExecApprovalManager \<Rightarrow> string \<Rightarrow> bool" where
  "resolvable m i \<longleftrightarrow> (\<exists>d who. fst (resolve i d who m) \<noteq> None)"

lemma not_pending_step: "not_pending i m \<Longrightarrow> \<not> exec_registers a i \<Longrightarrow> not_pending i (exec_step a m)"
proof (cases a)
  case (Op_cleanup now)
  assume "not_pending i m"
  then have "not_pending i (cleanup_expired now m)"
    by (rule cleanup_induct) (simp add: not_pending_def settle_get)
  with Op_cleanup show ?thesis by simp
qed (auto simp: not_pending_def wait_begin_def wait_result_def wait_cleanup_def settle_eqs settle_get
      hm_simps Let_def)

lemma not_resolvable: "not_pending i m \<Longrightarrow> \<not> resolvable m i"
  by (simp add: not_pending_def resolvable_def resolve_def)

interpretation exec_machine: credential_machine exec_step exec_wf "\<lambda>_ _. True" exec_registers not_pending
    resolvable
  by unfold_locales
    (simp_all add: exec_step_wf not_pending_step not_resolvable)

lemma exec_wf_new: "exec_wf ExecApprovalManager_new"
  by (simp add: exec_wf_def ExecApprovalManager_new_def)


lemma run_sent_by_resolve:
  assumes "channel_state (fold exec_step ops ExecApprovalManager_new) c = Sent (Some d)"
  shows "\<exists>ops1 who ops2. ops = ops1 @ Op_resolve (channel_name (fold exec_step ops ExecApprovalManager_new) c) d who # ops2 \<and>
    is_pending (channel_name (fold exec_step ops ExecApprovalManager_new) c) (fold exec_step ops1 ExecApprovalManager_new) \<and>
    channel_state (fold exec_step ops1 ExecApprovalManager_new) c = Empty"
  using assms
proof (induction ops rule: rev_induct)
  case Nil
  then show ?case by (simp add: ExecApprovalManager_new_def channel_state_def)
next
  case (snoc a ops)
  let ?m = "fold exec_step ops ExecApprovalManager_new"
  have wf: "exec_wf ?m" using exec_machine.run_inv [OF exec_wf_new] by simp
  have name: "channel_name (exec_step a ?m) c = channel_name ?m c"
    if "channel_state ?m c = Sent v \<or> channel_state ?m c = Empty" for v
    using that channels_only_grow [of ?m a c] by (auto simp: channel_state_def split: if_splits)
  show ?case
  proof (cases "channel_state ?m c = Sent (Some d)")
    case True
    with snoc.IH obtain ops1 who ops2 where
      "ops = ops1 @ Op_resolve (channel_name ?m c) d who # ops2"
      "is_pending (channel_name ?m c) (fold exec_step ops1 ExecApprovalManager_new)"
      "channel_state (fold exec_step ops1 ExecApprovalManager_new) c = Empty" by blast
    then show ?thesis using name True
      by (intro exI [of _ ops1] exI [of _ who] exI [of _ "ops2 @ [a]"]) auto
  next
    case False
    with sent_only_by_resolve [OF wf _ False, of a] snoc.prems obtain who where
      "a = Op_resolve (channel_name ?m c) d who" "is_pending (channel_name ?m c) ?m"
      "channel_state ?m c = Empty" by auto
    then show ?thesis using name
      by (intro exI [of _ ops] exI [of _ who] exI [of _ "[]"]) auto
  qed
qed

lemma run_sent_value_waits:
  "channel_state m c = Sent v \<Longrightarrow> list_all (\<lambda>a. \<forall>b. a \<noteq> Op_wait_result c b) as \<Longrightarrow>
   channel_state (fold exec_step as m) c = Sent v"
  by (induction as arbitrary: m) (simp_all add: sent_value_waits)

lemma cleanup_get:
  assumes "hm_wf (pending m)"
  shows "hm_get (pending (cleanup_expired now m)) i =
    (case hm_get (pending m) i of
       None \<Rightarrow> None | Some en \<Rightarrow> if expires_at en < now then None else Some en)"
proof -
  have fold: "hm_get (pending (fold expire_entry is m)) i =
      (if i \<in> set is then None else hm_get (pending m) i)" for "is" m
    by (induction "is" arbitrary: m) (auto simp: settle_eqs settle_get)
  have "i \<in> set (map fst (filter (\<lambda>(_, en). expires_at en < now) (pending m))) \<longleftrightarrow>
      (\<exists>en. hm_get (pending m) i = Some en \<and> expires_at en < now)"
    using hm_get_iff [OF assms, of i] by force
  then show ?thesis unfolding cleanup_expired_def fold by (simp split: option.split)
qed

subsection \<open>Properties\<close>

definition ex_record :: "string \<Rightarrow> ExecApprovalRecord" where
  "ex_record i = create_record (ex_env 1 i)
     \<lparr>command = ''ls'', cwd = None, host = None, security = None, ask = None, agent_id = None,
      resolved_path = None, session_key = None\<rparr> 1000 None"

text \<open>
  C9: No approval is invented: when the caller waiting on a record receives a decision, an operator
  resolved that very record with that very decision, at a moment when the record was pending and the
  caller was waiting.
\<close>

theorem approval_comes_from_resolve:
  assumes "fst (wait_result c timed_out (fold exec_step ops ExecApprovalManager_new)) = Some (Some d)"
  shows "\<exists>ops1 who ops2.
    ops = ops1 @ Op_resolve (channel_name (fold exec_step ops ExecApprovalManager_new) c) d who # ops2 \<and>
    is_pending (channel_name (fold exec_step ops ExecApprovalManager_new) c)
      (fold exec_step ops1 ExecApprovalManager_new) \<and>
    channel_state (fold exec_step ops1 ExecApprovalManager_new) c = Empty"
proof (rule run_sent_by_resolve)
  show "channel_state (fold exec_step ops ExecApprovalManager_new) c = Sent (Some d)"
    using assms by (auto simp: wait_result_def Let_def split: channel_state.splits if_splits)
qed

theorem approval_comes_from_resolve_witness:
  "\<exists>ops1 who ops2.
    [Op_wait_begin 0 (ex_record ''r'') 1000, Op_resolve ''r'' AllowOnce None] =
      ops1 @ Op_resolve ''r'' AllowOnce who # ops2 \<and>
    is_pending ''r'' (fold exec_step ops1 ExecApprovalManager_new)"
proof -
  let ?ops = "[Op_wait_begin 0 (ex_record ''r'') 1000, Op_resolve ''r'' AllowOnce None]"
  let ?m = "fold exec_step ?ops ExecApprovalManager_new"
  have m: "channels ?m = [(''r'', Sent (Some AllowOnce))]"
    by (simp add: ExecApprovalManager_new_def wait_begin_def drop_entry_def resolve_def set_channel_def
        channel_state_def ex_record_def create_record_def ex_env_def Let_def hm_eval)
  then have "fst (wait_result 0 False ?m) = Some (Some AllowOnce)" "channel_name ?m 0 = ''r''"
    by (simp_all add: wait_result_def channel_state_def channel_name_def)
  with approval_comes_from_resolve [of 0 False ?ops AllowOnce] show ?thesis by metis
qed

text \<open>
  C10: A decision reaches its caller: once a pending record has been resolved, the call that waits for
  it returns exactly that decision, whatever other operations come first and even if its time is up
  meanwhile.
\<close>

theorem decision_reaches_waiter:
  assumes "exec_wf m" "hm_get (pending m) i = Some en" "channel_state m (responder en) = Empty"
    and "list_all (\<lambda>a. \<forall>b. a \<noteq> Op_wait_result (responder en) b) as"
  shows "fst (resolve i d who m) = Some (entry_record en) \<and>
    fst (wait_result (responder en) timed_out (fold exec_step as (snd (resolve i d who m)))) = Some (Some d)"
proof -
  have "channel_state (snd (resolve i d who m)) (responder en) = Sent (Some d)"
    using assms(2,3) by (simp add: settle_eqs settle_channel)
  from run_sent_value_waits [OF this assms(4)] assms(2) show ?thesis
    by (simp add: wait_result_def resolve_def)
qed

theorem decision_reaches_waiter_witness:
  "fst (wait_result 0 True (fold exec_step [Op_cleanup 5000, Op_resolve ''r'' AllowAlways None, Op_wait_cleanup 0]
     (snd (resolve ''r'' Deny None (snd (wait_begin 0 (ex_record ''r'') 1000 ExecApprovalManager_new))))))
   = Some (Some Deny)"
proof -
  let ?m = "snd (wait_begin 0 (ex_record ''r'') 1000 ExecApprovalManager_new)"
  have "exec_wf ?m" by (simp add: wait_begin_wf exec_wf_new)
  moreover have "hm_get (pending ?m) ''r'' = Some \<lparr>entry_record = ex_record ''r'', responder = 0, expires_at = 1000\<rparr>"
    "channel_state ?m 0 = Empty"
    by (simp_all add: ExecApprovalManager_new_def wait_begin_def drop_entry_def channel_state_def ex_record_def
        create_record_def ex_env_def Let_def hm_eval)
  ultimately show ?thesis
    using decision_reaches_waiter [of ?m "''r''" "\<lparr>entry_record = ex_record ''r'', responder = 0, expires_at = 1000\<rparr>"
        "[Op_cleanup 5000, Op_resolve ''r'' AllowAlways None, Op_wait_cleanup 0]" Deny None True]
    by simp
qed

text \<open>
  A request is decided once: after a resolution no further resolution of the same id finds a
  record, until that id is registered again.
\<close>

theorem request_decided_once:
  assumes "exec_wf m" "fst (resolve i d who m) = Some r" "list_all (\<lambda>a. \<not> exec_registers a i) as"
  shows "fst (resolve i d' who' (fold exec_step as (snd (resolve i d who m)))) = None"
proof -
  have "exec_wf (snd (resolve i d who m))" "not_pending i (snd (resolve i d who m))"
    using assms(1) by (simp_all add: settle_eqs settle_wf not_pending_def settle_get)
  from exec_machine.run_rejected [OF this(1) _ this(2) assms(3)] show ?thesis
    by (auto simp: resolvable_def)
qed

theorem request_decided_once_witness:
  "fst (resolve ''r'' AllowAlways None (fold exec_step [Op_cleanup 5000, Op_wait_result 0 True]
     (snd (resolve ''r'' Deny None (snd (wait_begin 0 (ex_record ''r'') 1000 ExecApprovalManager_new)))))) = None"
proof (rule request_decided_once)
  show "exec_wf (snd (wait_begin 0 (ex_record ''r'') 1000 ExecApprovalManager_new))"
    by (simp add: wait_begin_wf exec_wf_new)
  show "fst (resolve ''r'' Deny None (snd (wait_begin 0 (ex_record ''r'') 1000 ExecApprovalManager_new))) =
      Some (ex_record ''r'')"
    by (simp add: ExecApprovalManager_new_def wait_begin_def drop_entry_def resolve_def ex_record_def
        create_record_def ex_env_def Let_def hm_eval)
qed simp

text \<open>
  Registering an id that is already pending defeats both callers: the first one's channel is
  closed, it returns without a decision before its time is up, and its clean-up removes the entry of
  the second one, which then also returns without a decision and can no longer be resolved.
\<close>

theorem duplicate_id_defeats_both_waiters:
  assumes "exec_wf m" "record_id r1 = i" "record_id r2 = i"
    and "m1 = snd (wait_begin t1 r1 timeout1 m)" "c1 = fst (wait_begin t1 r1 timeout1 m)"
    and "m2 = snd (wait_begin t2 r2 timeout2 m1)" "c2 = fst (wait_begin t2 r2 timeout2 m1)"
    and "m3 = wait_cleanup c1 (snd (wait_result c1 False m2))"
  shows "fst (wait_result c1 False m2) = Some None \<and> fst (wait_result c2 False m3) = Some None \<and>
    \<not> is_pending i m3"
proof -
  have wf1: "exec_wf m1" and wf2: "exec_wf m2" using assms(1,4,6) by (simp_all add: wait_begin_wf)
  have e1: "hm_get (pending m1) i = Some \<lparr>entry_record = r1, responder = c1, expires_at = t1 + timeout1\<rparr>"
    and e2: "hm_get (pending m2) i = Some \<lparr>entry_record = r2, responder = c2, expires_at = t2 + timeout2\<rparr>"
    using assms(2-7) by (simp_all add: wait_begin_def Let_def hm_simps)
  have c: "c1 = length (channels m)" "c2 = Suc (length (channels m))" "length (channels m1) = Suc (length (channels m))"
    using assms(4,5,7) by (simp_all add: wait_begin_def Let_def settle_eqs)
  have open1: "channel_state m1 c1 = Empty"
    using exec_wf_entry [OF assms(1)] assms(4) c
    by (fastforce simp: wait_begin_channel settle_channel extend_channel entry_wf_def split: option.split)
  have closed: "channel_state m2 c1 = Closed" "channel_state m2 c2 = Empty"
    using open1 e1 assms(3,6) c by (simp_all add: wait_begin_channel settle_channel extend_channel)
  have name: "fst (channels (snd (wait_result c1 False m2)) ! c1) = i" "c1 < length (channels m2)"
    using exec_wf_entry [OF wf1 e1] channels_only_grow [of m1 "Op_wait_begin t2 r2 timeout2" c1] assms(6) c
    by (simp_all add: wait_result_def Let_def entry_wf_def channel_name_def)
  have m3: "m3 = settle i Closed (snd (wait_result c1 False m2))"
    using assms(8) name by (simp add: wait_cleanup_def settle_eqs wait_result_def Let_def)
  have r: "fst (wait_result c1 False m2) = Some None"
    using closed by (simp add: wait_result_def)
  have "channel_state m3 c2 = Closed"
    using closed e2 c by (simp add: m3 settle_channel wait_result_channel)
  then have "fst (wait_result c2 False m3) = Some None" by (simp add: wait_result_def)
  with r show ?thesis by (simp add: m3 settle_get is_pending_def hm_contains_def)
qed

theorem duplicate_id_defeats_both_waiters_witness:
  "\<not> is_pending ''r'' (wait_cleanup 0 (snd (wait_result 0 False (snd (wait_begin 5 (ex_record ''r'') 1000
     (snd (wait_begin 0 (ex_record ''r'') 1000 ExecApprovalManager_new)))))))"
  using duplicate_id_defeats_both_waiters [OF exec_wf_new _ _ refl refl refl refl refl,
      of "ex_record ''r''" "''r''" "ex_record ''r''" 0 1000 5 1000]
  by (simp add: ex_record_def create_record_def ex_env_def wait_begin_def ExecApprovalManager_new_def Let_def)

text \<open>
  The periodic clean-up removes exactly the entries whose time is up and keeps every other one
  as it is.
\<close>

theorem cleanup_removes_exactly_expired:
  assumes "exec_wf m"
  shows "get_snapshot i (cleanup_expired now m) =
    (case hm_get (pending m) i of
       None \<Rightarrow> None | Some en \<Rightarrow> if expires_at en < now then None else Some (entry_record en))"
  using assms by (simp add: get_snapshot_def cleanup_get exec_wf_def split: option.split)

theorem cleanup_removes_exactly_expired_witness:
  "get_snapshot ''r'' (cleanup_expired 1001 (snd (wait_begin 0 (ex_record ''r'') 1000 ExecApprovalManager_new))) = None"
  using cleanup_removes_exactly_expired [OF wait_begin_wf [OF exec_wf_new], of "''r''" 1001 0 "ex_record ''r''" 1000]
  by (simp add: wait_begin_def drop_entry_def ExecApprovalManager_new_def Let_def hm_eval ex_record_def
      create_record_def ex_env_def)

text \<open>
  The wire names of the decisions are exactly the strings that parse, and each parses back.
\<close>

theorem decision_wire_names: "parse_decision s = Some d \<longleftrightarrow> s = as_str d"
  by (cases d) (auto simp: parse_decision_def)

end
