(* ===== verification/Outbound_Pipeline.thy ===== *)
theory Outbound_Pipeline
  imports Carapace_Prelude
begin

text \<open>
  The outbound message pipeline (\<^verbatim>\<open>src/messages/outbound.rs\<close>): one first-in first-out queue per
  channel, a look-up table of all messages, idempotency keys, time-to-live and retry deadlines. The
  type parameter \<open>'j\<close> is the JSON value a channel may attach to a message, which the pipeline never
  inspects. The pipeline keeps a message twice, in its channel's queue and in the table; the
  invariant \<open>pipeline_wf\<close> says that the two agree.
\<close>

subsection \<open>Constants and data\<close>

definition MAX_COMPLETED_MESSAGES :: usize where "MAX_COMPLETED_MESSAGES = 10000"
definition COMPLETED_MESSAGE_TTL_MS :: i64 where "COMPLETED_MESSAGE_TTL_MS = 3600 * 1000"
definition IDEMPOTENCY_KEY_TTL_MS :: i64 where "IDEMPOTENCY_KEY_TTL_MS = 24 * 3600 * 1000"
definition DEFAULT_TRANSIENT_RETRY_DELAY_MS :: i64 where "DEFAULT_TRANSIENT_RETRY_DELAY_MS = 5000"

type_synonym MessageId = string

datatype DeliveryStatus = Queued | Sending | Sent | Failed | Cancelled | Expired

fun DeliveryStatus_fmt :: "DeliveryStatus \<Rightarrow> string" where
  "DeliveryStatus_fmt Queued = ''queued''"
| "DeliveryStatus_fmt Sending = ''sending''"
| "DeliveryStatus_fmt Sent = ''sent''"
| "DeliveryStatus_fmt Failed = ''failed''"
| "DeliveryStatus_fmt Cancelled = ''cancelled''"
| "DeliveryStatus_fmt Expired = ''expired''"

datatype MessageContent =
    Text string
  | Media "string option" string "string option"
  | Composite "MessageContent list"

definition media :: "string \<Rightarrow> MessageContent" where
  "media media_ref = Media None media_ref None"

definition media_with_caption :: "string \<Rightarrow> string \<Rightarrow> MessageContent" where
  "media_with_caption media_ref caption = Media (Some caption) media_ref None"

record 'j MessageMetadata =
  meta_reply_to :: "string option"
  meta_thread_id :: "string option"
  meta_chat_id :: "string option"
  meta_recipient_id :: "string option"
  meta_extra :: "'j option"
  meta_priority :: int
  meta_ttl_ms :: u64

definition MessageMetadata_default :: "'j MessageMetadata" where
  "MessageMetadata_default =
     \<lparr> meta_reply_to = None, meta_thread_id = None, meta_chat_id = None, meta_recipient_id = None,
       meta_extra = None, meta_priority = 0, meta_ttl_ms = 0 \<rparr>"

record 'j OutboundMessage =
  msg_id :: MessageId
  msg_channel_id :: string
  msg_content :: MessageContent
  msg_metadata :: "'j MessageMetadata"
  msg_created_at :: i64

definition now_millis :: "env \<Rightarrow> i64" where
  "now_millis e = i64_wrap (int (env_now e))"

definition OutboundMessage_new :: "env \<Rightarrow> string \<Rightarrow> MessageContent \<Rightarrow> 'j OutboundMessage" where
  "OutboundMessage_new e channel_id content =
     \<lparr> msg_id = env_uuid e, msg_channel_id = channel_id, msg_content = content,
       msg_metadata = MessageMetadata_default, msg_created_at = now_millis e \<rparr>"

definition with_metadata :: "'j MessageMetadata \<Rightarrow> 'j OutboundMessage \<Rightarrow> 'j OutboundMessage" where
  "with_metadata md m = m\<lparr>msg_metadata := md\<rparr>"

definition reply_to :: "string \<Rightarrow> 'j OutboundMessage \<Rightarrow> 'j OutboundMessage" where
  "reply_to i m = m\<lparr>msg_metadata := (msg_metadata m)\<lparr>meta_reply_to := Some i\<rparr>\<rparr>"

definition in_thread :: "string \<Rightarrow> 'j OutboundMessage \<Rightarrow> 'j OutboundMessage" where
  "in_thread i m = m\<lparr>msg_metadata := (msg_metadata m)\<lparr>meta_thread_id := Some i\<rparr>\<rparr>"

definition to_chat :: "string \<Rightarrow> 'j OutboundMessage \<Rightarrow> 'j OutboundMessage" where
  "to_chat i m = m\<lparr>msg_metadata := (msg_metadata m)\<lparr>meta_chat_id := Some i\<rparr>\<rparr>"

definition is_expired :: "i64 \<Rightarrow> 'j OutboundMessage \<Rightarrow> bool" where
  "is_expired now m =
     (if meta_ttl_ms (msg_metadata m) = 0 then False
      else i64_wrap (now - msg_created_at m) > i64_wrap (int (meta_ttl_ms (msg_metadata m))))"

record OutboundContext =
  ctx_trace_id :: "string option"
  ctx_source :: "string option"
  ctx_retry_enabled :: bool
  ctx_max_retries :: u32
  ctx_callback_url :: "string option"

definition OutboundContext_new :: OutboundContext where
  "OutboundContext_new =
     \<lparr> ctx_trace_id = None, ctx_source = None, ctx_retry_enabled = False, ctx_max_retries = 0,
       ctx_callback_url = None \<rparr>"

definition with_retries :: "u32 \<Rightarrow> OutboundContext \<Rightarrow> OutboundContext" where
  "with_retries n c = c\<lparr>ctx_retry_enabled := True, ctx_max_retries := n\<rparr>"

definition with_trace_id :: "string \<Rightarrow> OutboundContext \<Rightarrow> OutboundContext" where
  "with_trace_id i c = c\<lparr>ctx_trace_id := Some i\<rparr>"

definition with_source :: "string \<Rightarrow> OutboundContext \<Rightarrow> OutboundContext" where
  "with_source s c = c\<lparr>ctx_source := Some s\<rparr>"

record 'j QueuedMessage =
  message :: "'j OutboundMessage"
  context_of :: OutboundContext
  status :: DeliveryStatus
  attempts :: u32
  last_error :: "string option"
  updated_at :: i64
  retry_not_before_ms :: "i64 option"

subsection \<open>One queued message\<close>

definition QueuedMessage_new :: "i64 \<Rightarrow> 'j OutboundMessage \<Rightarrow> OutboundContext \<Rightarrow> 'j QueuedMessage" where
  "QueuedMessage_new now m c =
     \<lparr> message = m, context_of = c, status = Queued, attempts = 0, last_error = None,
       updated_at = now, retry_not_before_ms = None \<rparr>"

definition qm_mark_sending :: "i64 \<Rightarrow> 'j QueuedMessage \<Rightarrow> 'j QueuedMessage" where
  "qm_mark_sending now m = m\<lparr>status := Sending, attempts := u32_add (attempts m) 1, updated_at := now\<rparr>"

definition qm_mark_sent :: "i64 \<Rightarrow> 'j QueuedMessage \<Rightarrow> 'j QueuedMessage" where
  "qm_mark_sent now m = m\<lparr>status := Sent, updated_at := now\<rparr>"

definition qm_mark_failed :: "i64 \<Rightarrow> string \<Rightarrow> 'j QueuedMessage \<Rightarrow> 'j QueuedMessage" where
  "qm_mark_failed now err m = m\<lparr>status := Failed, last_error := Some err, updated_at := now\<rparr>"

definition qm_mark_expired :: "i64 \<Rightarrow> string \<Rightarrow> 'j QueuedMessage \<Rightarrow> 'j QueuedMessage" where
  "qm_mark_expired now reason m = m\<lparr>status := Expired, last_error := Some reason, updated_at := now\<rparr>"

definition qm_mark_cancelled :: "i64 \<Rightarrow> 'j QueuedMessage \<Rightarrow> 'j QueuedMessage" where
  "qm_mark_cancelled now m = m\<lparr>status := Cancelled, updated_at := now\<rparr>"

definition qm_mark_retry :: "i64 \<Rightarrow> string \<Rightarrow> i64 option \<Rightarrow> 'j QueuedMessage \<Rightarrow> 'j QueuedMessage" where
  "qm_mark_retry now err retry_after_ms m =
     (let delay_ms = max (case retry_after_ms of Some d \<Rightarrow> d | None \<Rightarrow> DEFAULT_TRANSIENT_RETRY_DELAY_MS) 0
      in m\<lparr>status := Queued, last_error := Some err, updated_at := now,
           retry_not_before_ms := Some (i64_saturating_add now delay_ms)\<rparr>)"

definition qm_can_retry :: "'j QueuedMessage \<Rightarrow> bool" where
  "qm_can_retry m \<longleftrightarrow> ctx_retry_enabled (context_of m) \<and> attempts m < ctx_max_retries (context_of m)"

record 'j NextChannelDeliveryWork =
  ready :: "'j QueuedMessage option"
  expired :: "'j QueuedMessage list"
  work_next_retry_deadline_ms :: "i64 option"

record DeliveryResultFields =
  conversation_id :: "string option"
  to_jid :: "string option"
  poll_id :: "string option"

record QueueResult =
  res_message_id :: MessageId
  res_status :: DeliveryStatus
  res_queue_position :: "usize option"
  res_delivery_result :: "DeliveryResultFields option"

datatype PipelineError =
    ChannelNotFound string
  | ChannelNotConnected string
  | MessageNotFound string
  | QueueFull string
  | InvalidMessage string
  | DeliveryFailed string

record ChannelStats =
  cs_queued :: u64
  cs_sent :: u64
  cs_failed :: u64
  cs_queue_size :: usize

record PipelineStats =
  total_queued :: u64
  total_sent :: u64
  total_failed :: u64
  current_queue_size :: usize
  by_channel :: "(string, ChannelStats) hmap"

record IdempotencyEntry =
  key_message_id :: MessageId
  key_created_at :: i64

text \<open>\<open>notify_permit\<close> is the stored wake-up of \<^verbatim>\<open>tokio::sync::Notify\<close>; \<^verbatim>\<open>notify_one\<close> sets it.\<close>

record 'j MessagePipeline =
  queues :: "(string, 'j QueuedMessage list) hmap"
  expiring_queued_by_channel :: "(string, usize) hmap"
  messages :: "(string, 'j QueuedMessage) hmap"
  idempotency_keys :: "(string, IdempotencyEntry) hmap"
  max_queue_size :: usize
  stats_queued :: u64
  stats_sent :: u64
  stats_failed :: u64
  notify_permit :: bool

definition with_max_queue_size :: "usize \<Rightarrow> 'j MessagePipeline" where
  "with_max_queue_size n =
     \<lparr> queues = [], expiring_queued_by_channel = [], messages = [], idempotency_keys = [],
       max_queue_size = n, stats_queued = 0, stats_sent = 0, stats_failed = 0, notify_permit = False \<rparr>"

definition MessagePipeline_new :: "'j MessagePipeline" where
  "MessagePipeline_new = with_max_queue_size 1000"

subsection \<open>Counting messages that can expire\<close>

definition message_can_expire :: "'j OutboundMessage \<Rightarrow> bool" where
  "message_can_expire m \<longleftrightarrow> meta_ttl_ms (msg_metadata m) > 0"

definition increment_expiring_queued_count :: "string \<Rightarrow> 'j MessagePipeline \<Rightarrow> 'j MessagePipeline" where
  "increment_expiring_queued_count c p =
     p\<lparr>expiring_queued_by_channel :=
         hm_insert c ((case hm_get (expiring_queued_by_channel p) c of None \<Rightarrow> 0 | Some n \<Rightarrow> n) + 1)
           (expiring_queued_by_channel p)\<rparr>"

definition decrement_expiring_queued_count_by ::
    "string \<Rightarrow> usize \<Rightarrow> 'j MessagePipeline \<Rightarrow> 'j MessagePipeline" where
  "decrement_expiring_queued_count_by c amount p =
     (if amount = 0 then p
      else case hm_get (expiring_queued_by_channel p) c of
             None \<Rightarrow> p
           | Some n \<Rightarrow>
               (let n = n - amount
                in p\<lparr>expiring_queued_by_channel :=
                       (if n = 0 then hm_remove c (expiring_queued_by_channel p)
                        else hm_insert c n (expiring_queued_by_channel p))\<rparr>))"

definition adjust_expiring_queued_count ::
    "string \<Rightarrow> bool \<Rightarrow> bool \<Rightarrow> 'j MessagePipeline \<Rightarrow> 'j MessagePipeline" where
  "adjust_expiring_queued_count c old_can_expire new_can_expire p =
     (if \<not> old_can_expire \<and> new_can_expire then increment_expiring_queued_count c p
      else if old_can_expire \<and> \<not> new_can_expire then decrement_expiring_queued_count_by c 1 p
      else p)"

definition channel_has_expiring_queued_messages :: "string \<Rightarrow> 'j MessagePipeline \<Rightarrow> bool" where
  "channel_has_expiring_queued_messages c p \<longleftrightarrow>
     (case hm_get (expiring_queued_by_channel p) c of None \<Rightarrow> 0 | Some n \<Rightarrow> n) > 0"

subsection \<open>Admission\<close>

definition queue_of :: "'j MessagePipeline \<Rightarrow> string \<Rightarrow> 'j QueuedMessage list" where
  "queue_of p c = (case hm_get (queues p) c of None \<Rightarrow> [] | Some q \<Rightarrow> q)"

definition idempotent_hit :: "i64 \<Rightarrow> string option \<Rightarrow> 'j MessagePipeline \<Rightarrow> QueueResult option" where
  "idempotent_hit now idempotency_key p =
     (case idempotency_key of
        None \<Rightarrow> None
      | Some key \<Rightarrow>
          (case hm_get (idempotency_keys p) key of
             None \<Rightarrow> None
           | Some entry \<Rightarrow>
               if i64_wrap (now - key_created_at entry) < IDEMPOTENCY_KEY_TTL_MS
               then Some \<lparr> res_message_id = key_message_id entry,
                           res_status = (case hm_get (messages p) (key_message_id entry) of
                              Some queued \<Rightarrow> status queued | None \<Rightarrow> Sent),
                           res_queue_position = None, res_delivery_result = None \<rparr>
               else None))"

definition queue_with_idempotency ::
    "env \<Rightarrow> 'j OutboundMessage \<Rightarrow> OutboundContext \<Rightarrow> string option \<Rightarrow> 'j MessagePipeline
      \<Rightarrow> (PipelineError + QueueResult) \<times> 'j MessagePipeline" where
  "queue_with_idempotency e m ctx idempotency_key p =
     (let now = now_millis e in
      case idempotent_hit now idempotency_key p of
        Some r \<Rightarrow> (Inr r, p)
      | None \<Rightarrow>
          let c = msg_channel_id m;
              queued = QueuedMessage_new now m ctx
          in if (case hm_get (queues p) c of None \<Rightarrow> False | Some q \<Rightarrow> length q \<ge> max_queue_size p)
             then (Inl (QueueFull c), p)
             else
               let q = queue_of p c @ [queued];
                   p = p\<lparr>queues := hm_insert c q (queues p)\<rparr>;
                   p = (if message_can_expire m then increment_expiring_queued_count c p else p);
                   p = p\<lparr>messages := hm_insert (msg_id m) queued (messages p)\<rparr>;
                   p = (case idempotency_key of
                          None \<Rightarrow> p
                        | Some key \<Rightarrow> p\<lparr>idempotency_keys := hm_insert key
                            \<lparr>key_message_id = msg_id m, key_created_at = now\<rparr> (idempotency_keys p)\<rparr>);
                   p = p\<lparr>stats_queued := u64_add (stats_queued p) 1, notify_permit := True\<rparr>
               in (Inr \<lparr> res_message_id = msg_id m, res_status = Queued,
                         res_queue_position = Some (length q), res_delivery_result = None \<rparr>, p))"

definition queue ::
    "env \<Rightarrow> 'j OutboundMessage \<Rightarrow> OutboundContext \<Rightarrow> 'j MessagePipeline
      \<Rightarrow> (PipelineError + QueueResult) \<times> 'j MessagePipeline" where
  "queue e m ctx p = queue_with_idempotency e m ctx None p"

definition get_status :: "MessageId \<Rightarrow> 'j MessagePipeline \<Rightarrow> DeliveryStatus option" where
  "get_status i p = map_option status (hm_get (messages p) i)"

definition get_message :: "MessageId \<Rightarrow> 'j MessagePipeline \<Rightarrow> 'j QueuedMessage option" where
  "get_message i p = hm_get (messages p) i"


subsection \<open>Changing a message in its queue\<close>

text \<open>The loop over a queue that updates the first entry with the given id and stops.\<close>

fun update_entry ::
    "MessageId \<Rightarrow> ('j QueuedMessage \<Rightarrow> 'j QueuedMessage) \<Rightarrow> 'j QueuedMessage list \<Rightarrow> 'j QueuedMessage list" where
  "update_entry i f [] = []"
| "update_entry i f (m # ms) =
     (if msg_id (message m) = i then f m # ms else m # update_entry i f ms)"

definition remove_from_queue :: "MessageId \<Rightarrow> 'j MessagePipeline \<Rightarrow> 'j MessagePipeline" where
  "remove_from_queue i p =
     (case hm_get (messages p) i of
        None \<Rightarrow> p
      | Some queued \<Rightarrow>
          let c = msg_channel_id (message queued);
              removed_expiring =
                length (filter (\<lambda>m. msg_id (message m) = i \<and> message_can_expire (message m)) (queue_of p c));
              p = p\<lparr>queues := hm_modify c (filter (\<lambda>m. msg_id (message m) \<noteq> i)) (queues p)\<rparr>
          in decrement_expiring_queued_count_by c removed_expiring p)"

definition cancel ::
    "env \<Rightarrow> MessageId \<Rightarrow> 'j MessagePipeline \<Rightarrow> (PipelineError + unit) \<times> 'j MessagePipeline" where
  "cancel e i p =
     (case hm_get (messages p) i of
        None \<Rightarrow> (Inl (MessageNotFound i), p)
      | Some queued \<Rightarrow>
          if status queued = Queued
          then (Inr (), remove_from_queue i
                 (p\<lparr>messages := hm_modify i (qm_mark_cancelled (now_millis e)) (messages p)\<rparr>))
          else (Inl (InvalidMessage (''Cannot cancel message with status: '' @
                      DeliveryStatus_fmt (status queued))), p))"

definition update_message ::
    "MessageId \<Rightarrow> 'j OutboundMessage \<Rightarrow> 'j MessagePipeline \<Rightarrow> (PipelineError + unit) \<times> 'j MessagePipeline" where
  "update_message i m p =
     (case hm_get (messages p) i of
        None \<Rightarrow> (Inl (MessageNotFound i), p)
      | Some queued \<Rightarrow>
          if status queued \<noteq> Queued
          then (Inl (InvalidMessage (''Cannot update message with status: '' @
                      DeliveryStatus_fmt (status queued))), p)
          else if msg_channel_id (message queued) \<noteq> msg_channel_id m
          then (Inl (InvalidMessage ''Cannot change channel for queued message''), p)
          else
            let c = msg_channel_id m;
                p = p\<lparr>messages := hm_modify i (\<lambda>q. q\<lparr>message := m\<rparr>) (messages p)\<rparr>;
                p = p\<lparr>queues := hm_modify c (update_entry i (\<lambda>q. q\<lparr>message := m\<rparr>)) (queues p)\<rparr>
            in (Inr (), adjust_expiring_queued_count c (message_can_expire (message queued))
                          (message_can_expire m) p))"

definition can_retry :: "MessageId \<Rightarrow> 'j MessagePipeline \<Rightarrow> bool" where
  "can_retry i p = (case hm_get (messages p) i of None \<Rightarrow> False | Some m \<Rightarrow> qm_can_retry m)"

text \<open>A change of state applied to the message in the table and to its entry in the queue.\<close>

definition change_both ::
    "MessageId \<Rightarrow> ('j QueuedMessage \<Rightarrow> 'j QueuedMessage) \<Rightarrow> 'j MessagePipeline
      \<Rightarrow> (PipelineError + unit) \<times> 'j MessagePipeline" where
  "change_both i f p =
     (case hm_get (messages p) i of
        None \<Rightarrow> (Inl (MessageNotFound i), p)
      | Some queued \<Rightarrow>
          (Inr (), p\<lparr>messages := hm_modify i f (messages p),
                     queues := hm_modify (msg_channel_id (message queued)) (update_entry i f) (queues p)\<rparr>))"

definition mark_sending ::
    "env \<Rightarrow> MessageId \<Rightarrow> 'j MessagePipeline \<Rightarrow> (PipelineError + unit) \<times> 'j MessagePipeline" where
  "mark_sending e i p = change_both i (qm_mark_sending (now_millis e)) p"

definition mark_retry_with_retry_after ::
    "env \<Rightarrow> MessageId \<Rightarrow> string \<Rightarrow> i64 option \<Rightarrow> 'j MessagePipeline
      \<Rightarrow> (PipelineError + unit) \<times> 'j MessagePipeline" where
  "mark_retry_with_retry_after e i err retry_after_ms p =
     change_both i (qm_mark_retry (now_millis e) err retry_after_ms) p"

definition mark_retry ::
    "env \<Rightarrow> MessageId \<Rightarrow> string \<Rightarrow> 'j MessagePipeline \<Rightarrow> (PipelineError + unit) \<times> 'j MessagePipeline" where
  "mark_retry e i err p = mark_retry_with_retry_after e i err None p"

subsection \<open>Completion and cleaning up\<close>

definition cleanup_completed :: "env \<Rightarrow> 'j MessagePipeline \<Rightarrow> usize \<times> 'j MessagePipeline" where
  "cleanup_completed e p =
     (let now = now_millis e;
          cutoff = i64_wrap (now - COMPLETED_MESSAGE_TTL_MS);
          idempotency_cutoff = i64_wrap (now - IDEMPOTENCY_KEY_TTL_MS);
          kept = hm_retain (\<lambda>_ m. if status m \<in> {Queued, Sending} then True else updated_at m > cutoff)
                   (messages p)
      in (length (messages p) - length kept,
          p\<lparr>messages := kept,
            idempotency_keys := hm_retain (\<lambda>_ entry. key_created_at entry > idempotency_cutoff)
              (idempotency_keys p)\<rparr>))"

definition maybe_cleanup_completed :: "env \<Rightarrow> 'j MessagePipeline \<Rightarrow> 'j MessagePipeline" where
  "maybe_cleanup_completed e p =
     (if length (messages p) \<le> MAX_COMPLETED_MESSAGES then p else snd (cleanup_completed e p))"

definition mark_sent ::
    "env \<Rightarrow> MessageId \<Rightarrow> 'j MessagePipeline \<Rightarrow> (PipelineError + unit) \<times> 'j MessagePipeline" where
  "mark_sent e i p =
     (case hm_get (messages p) i of
        None \<Rightarrow> (Inl (MessageNotFound i), p)
      | Some _ \<Rightarrow>
          let p = p\<lparr>messages := hm_modify i (qm_mark_sent (now_millis e)) (messages p)\<rparr>;
              p = p\<lparr>stats_sent := u64_add (stats_sent p) 1\<rparr>
          in (Inr (), maybe_cleanup_completed e (remove_from_queue i p)))"

definition mark_failed ::
    "env \<Rightarrow> MessageId \<Rightarrow> string \<Rightarrow> 'j MessagePipeline \<Rightarrow> (PipelineError + unit) \<times> 'j MessagePipeline" where
  "mark_failed e i err p =
     (case hm_get (messages p) i of
        None \<Rightarrow> (Inl (MessageNotFound i), p)
      | Some _ \<Rightarrow>
          let p = p\<lparr>messages := hm_modify i (qm_mark_failed (now_millis e) err) (messages p)\<rparr>;
              p = p\<lparr>stats_failed := u64_add (stats_failed p) 1\<rparr>
          in (Inr (), maybe_cleanup_completed e (remove_from_queue i p)))"

definition mark_expired ::
    "env \<Rightarrow> MessageId \<Rightarrow> string \<Rightarrow> 'j MessagePipeline \<Rightarrow> (PipelineError + unit) \<times> 'j MessagePipeline" where
  "mark_expired e i reason p =
     (case hm_get (messages p) i of
        None \<Rightarrow> (Inl (MessageNotFound i), p)
      | Some _ \<Rightarrow>
          let p = p\<lparr>messages := hm_modify i (qm_mark_expired (now_millis e) reason) (messages p)\<rparr>
          in (Inr (), maybe_cleanup_completed e (remove_from_queue i p)))"

subsection \<open>Choosing what to deliver\<close>

text \<open>The loop over a channel's queue, with \<open>fifo_blocked\<close> and the work found so far.\<close>

fun delivery_scan ::
    "i64 \<Rightarrow> bool \<Rightarrow> bool \<Rightarrow> 'j NextChannelDeliveryWork \<Rightarrow> 'j QueuedMessage list
      \<Rightarrow> 'j NextChannelDeliveryWork" where
  "delivery_scan now has_expiring fifo_blocked work [] = work"
| "delivery_scan now has_expiring fifo_blocked work (m # ms) =
     (if status m \<noteq> Queued then delivery_scan now has_expiring fifo_blocked work ms
      else if is_expired now (message m)
      then delivery_scan now has_expiring fifo_blocked (work\<lparr>expired := expired work @ [m]\<rparr>) ms
      else if fifo_blocked then delivery_scan now has_expiring fifo_blocked work ms
      else case retry_not_before_ms m of
             Some not_before \<Rightarrow>
               if not_before > now
               then let work = work\<lparr>work_next_retry_deadline_ms :=
                          Some (case work_next_retry_deadline_ms work of
                             None \<Rightarrow> not_before | Some current \<Rightarrow> min current not_before)\<rparr>
                    in if \<not> has_expiring then work else delivery_scan now has_expiring True work ms
               else (if ready work = None then work\<lparr>ready := Some m\<rparr> else work)
           | None \<Rightarrow> (if ready work = None then work\<lparr>ready := Some m\<rparr> else work))"

definition empty_work :: "'j NextChannelDeliveryWork" where
  "empty_work = \<lparr> ready = None, expired = [], work_next_retry_deadline_ms = None \<rparr>"

definition next_delivery_work_for_channel ::
    "env \<Rightarrow> string \<Rightarrow> 'j MessagePipeline \<Rightarrow> 'j NextChannelDeliveryWork" where
  "next_delivery_work_for_channel e c p =
     (case hm_get (queues p) c of
        None \<Rightarrow> empty_work
      | Some q \<Rightarrow>
          delivery_scan (now_millis e) (channel_has_expiring_queued_messages c p) False empty_work q)"

definition next_for_channel :: "env \<Rightarrow> string \<Rightarrow> 'j MessagePipeline \<Rightarrow> 'j QueuedMessage option" where
  "next_for_channel e c p = ready (next_delivery_work_for_channel e c p)"

fun head_deadline :: "i64 \<Rightarrow> 'j QueuedMessage list \<Rightarrow> i64 option" where
  "head_deadline now [] = None"
| "head_deadline now (m # ms) =
     (if status m \<noteq> Queued then head_deadline now ms
      else if is_expired now (message m) then head_deadline now ms
      else case retry_not_before_ms m of
             Some not_before \<Rightarrow> if not_before > now then Some not_before else None
           | None \<Rightarrow> None)"

definition next_retry_deadline_ms :: "env \<Rightarrow> 'j MessagePipeline \<Rightarrow> i64 option" where
  "next_retry_deadline_ms e p =
     foldl (\<lambda>d q. case head_deadline (now_millis e) q of
              None \<Rightarrow> d
            | Some not_before \<Rightarrow> Some (case d of None \<Rightarrow> not_before | Some current \<Rightarrow> min current not_before))
       None (hm_values (queues p))"

subsection \<open>Reading and clearing\<close>

definition queue_size :: "string \<Rightarrow> 'j MessagePipeline \<Rightarrow> usize" where
  "queue_size c p = (case hm_get (queues p) c of None \<Rightarrow> 0 | Some q \<Rightarrow> length q)"

definition total_queue_size :: "'j MessagePipeline \<Rightarrow> usize" where
  "total_queue_size p = sum_list (map length (hm_values (queues p)))"

definition stats :: "'j MessagePipeline \<Rightarrow> PipelineStats" where
  "stats p =
     \<lparr> total_queued = stats_queued p, total_sent = stats_sent p, total_failed = stats_failed p,
       current_queue_size = total_queue_size p,
       by_channel = foldl (\<lambda>acc (c, q). hm_insert c
           \<lparr>cs_queued = 0, cs_sent = 0, cs_failed = 0, cs_queue_size = length q\<rparr> acc) [] (queues p) \<rparr>"

definition clear :: "'j MessagePipeline \<Rightarrow> 'j MessagePipeline" where
  "clear p = p\<lparr>queues := [], messages := [], idempotency_keys := [], expiring_queued_by_channel := []\<rparr>"

definition channels_with_messages :: "'j MessagePipeline \<Rightarrow> string list" where
  "channels_with_messages p = map fst (filter (\<lambda>(_, q). q \<noteq> []) (queues p))"

end
