(* ===== verification/Outbound_Lifecycle.thy ===== *)
theory Outbound_Lifecycle
  imports Outbound_Pipeline
begin

text \<open>
  The outbound pipeline over its life. The invariant ties the three copies of the pipeline's state
  together: the channel queues, the table of messages and the counters of messages that can expire.
  It is stated on the look-up functions of the maps (\<open>pipe_inv\<close>), so that each operation is a
  function update there, and carried to the representation by \<open>pipeline_wf\<close>.
\<close>

subsection \<open>The invariant\<close>

abbreviation qid :: "'j QueuedMessage \<Rightarrow> MessageId" where
  "qid m \<equiv> msg_id (message m)"

abbreviation qchannel :: "'j QueuedMessage \<Rightarrow> string" where
  "qchannel m \<equiv> msg_channel_id (message m)"

definition expiring :: "'j QueuedMessage list \<Rightarrow> nat" where
  "expiring q = length (filter (\<lambda>m. message_can_expire (message m)) q)"

definition expiring_count :: "'j MessagePipeline \<Rightarrow> string \<Rightarrow> nat" where
  "expiring_count p c = (case hm_get (expiring_queued_by_channel p) c of None \<Rightarrow> 0 | Some n \<Rightarrow> n)"

definition queue_ok :: "(MessageId \<Rightarrow> 'j QueuedMessage option) \<Rightarrow> string \<Rightarrow> 'j QueuedMessage list \<Rightarrow> bool" where
  "queue_ok M c q \<longleftrightarrow> distinct (map qid q) \<and>
     list_all (\<lambda>m. qchannel m = c \<and> M (qid m) = Some m \<and> status m \<in> {Queued, Sending}) q"

definition table_ok ::
    "(string \<Rightarrow> 'j QueuedMessage list) \<Rightarrow> MessageId \<Rightarrow> 'j QueuedMessage \<Rightarrow> bool" where
  "table_ok Q i m \<longleftrightarrow> qid m = i \<and> (status m = Queued \<longrightarrow> m \<in> set (Q (qchannel m)))"

definition pipe_inv ::
    "(string \<Rightarrow> 'j QueuedMessage list) \<Rightarrow> (MessageId \<Rightarrow> 'j QueuedMessage option) \<Rightarrow> (string \<Rightarrow> nat)
      \<Rightarrow> nat \<Rightarrow> bool" where
  "pipe_inv Q M X n \<longleftrightarrow> (\<forall>c. queue_ok M c (Q c) \<and> X c = expiring (Q c) \<and> length (Q c) \<le> max 1 n) \<and>
     (\<forall>i m. M i = Some m \<longrightarrow> table_ok Q i m)"

definition pipeline_wf :: "'j MessagePipeline \<Rightarrow> bool" where
  "pipeline_wf p \<longleftrightarrow> hm_wf (queues p) \<and> hm_wf (messages p) \<and> hm_wf (expiring_queued_by_channel p) \<and>
     hm_wf (idempotency_keys p) \<and>
     pipe_inv (queue_of p) (hm_get (messages p)) (expiring_count p) (max_queue_size p)"

subsection \<open>Updates of one queue\<close>

lemma update_entry_absent: "i \<notin> qid ` set q \<Longrightarrow> update_entry i f q = q"
  by (induction q) auto

lemma update_entry_map:
  "distinct (map qid q) \<Longrightarrow> update_entry i f q = map (\<lambda>m. if qid m = i then f m else m) q"
proof (induction q)
  case (Cons m q)
  then show ?case
  proof (cases "qid m = i")
    case True
    with Cons.prems have "map (\<lambda>m. if qid m = i then f m else m) q = q"
      by (auto intro!: map_idI simp: image_iff)
    with True show ?thesis by simp
  qed simp
qed simp

lemma queue_member: "queue_ok M c q \<Longrightarrow> M i = Some m \<Longrightarrow> i \<in> qid ` set q \<longleftrightarrow> m \<in> set q \<and> qid m = i"
  by (auto simp: queue_ok_def list_all_iff)

lemma length_update_entry [simp]: "length (update_entry i f q) = length q"
  by (induction q) auto

lemma expiring_simps [simp]:
  "expiring [] = 0" "expiring (q @ [m]) = expiring q + (if message_can_expire (message m) then 1 else 0)"
  "expiring (m # q) = (if message_can_expire (message m) then 1 else 0) + expiring q"
  by (simp_all add: expiring_def)

lemma expiring_update_entry:
  "distinct (map qid q) \<Longrightarrow> m \<in> set q \<Longrightarrow> qid m = i \<Longrightarrow>
   expiring (update_entry i f q) + (if message_can_expire (message m) then 1 else 0) =
   expiring q + (if message_can_expire (message (f m)) then 1 else 0)"
  by (induction q) (auto simp: image_iff)

lemma expiring_remove:
  "expiring (filter (\<lambda>m. qid m \<noteq> i) q) =
   expiring q - length (filter (\<lambda>m. qid m = i \<and> message_can_expire (message m)) q)"
proof -
  have "expiring q = expiring (filter (\<lambda>m. qid m \<noteq> i) q) +
      length (filter (\<lambda>m. qid m = i \<and> message_can_expire (message m)) q)"
    by (induction q) auto
  then show ?thesis by simp
qed

subsection \<open>The invariant under the four kinds of change\<close>

lemma inv_queue: "pipe_inv Q M X n \<Longrightarrow> queue_ok M c (Q c)"
  by (simp add: pipe_inv_def)

lemma inv_table: "pipe_inv Q M X n \<Longrightarrow> M i = Some m \<Longrightarrow> table_ok Q i m"
  by (simp add: pipe_inv_def)

text \<open>A change of the table under one id leaves the queues of other ids alone.\<close>

lemma queue_ok_cong: "queue_ok M c q \<Longrightarrow> (\<And>m. m \<in> set q \<Longrightarrow> M' (qid m) = M (qid m)) \<Longrightarrow> queue_ok M' c q"
  by (simp add: queue_ok_def list_all_iff)

lemma entry_channel: "pipe_inv Q M X n \<Longrightarrow> m \<in> set (Q c) \<Longrightarrow> qchannel m = c \<and> M (qid m) = Some m"
  using inv_queue [of Q M X n c] by (simp add: queue_ok_def list_all_iff)

lemma inv_add:
  assumes inv: "pipe_inv Q M X n" and new: "M (qid m) = None" and m: "status m = Queued" "qchannel m = c"
    and len: "Q c = [] \<or> length (Q c) < n"
  shows "pipe_inv (Q(c := Q c @ [m])) (M(qid m \<mapsto> m))
    (X(c := X c + (if message_can_expire (message m) then 1 else 0))) n"
proof -
  have other: "qid m' \<noteq> qid m" if "m' \<in> set (Q c')" for m' c'
    using entry_channel [OF inv that] new by auto
  then have "queue_ok (M(qid m \<mapsto> m)) c' (Q c')" for c'
    by (intro queue_ok_cong [OF inv_queue [OF inv]]) auto
  moreover have "queue_ok (M(qid m \<mapsto> m)) c (Q c @ [m])"
    using calculation [of c] other [of _ c] m by (auto simp: queue_ok_def image_iff) metis
  moreover have "table_ok (Q(c := Q c @ [m])) i m'" if "(M(qid m \<mapsto> m)) i = Some m'" for i m'
    using that inv_table [OF inv, of i m'] m by (auto simp: table_ok_def split: if_splits)
  moreover have "X c' = expiring (Q c') \<and> length (Q c') \<le> max 1 n" for c'
    using inv by (simp add: pipe_inv_def)
  ultimately show ?thesis using len by (auto simp: pipe_inv_def)
qed

lemma inv_change:
  assumes inv: "pipe_inv Q M X n" and m: "M i = Some m"
    and f: "msg_id (message (f m)) = i" "qchannel (f m) = qchannel m" "status (f m) \<in> {Queued, Sending}"
    and q: "status (f m) = Queued \<Longrightarrow> m \<in> set (Q (qchannel m))"
  shows "pipe_inv (Q(qchannel m := update_entry i f (Q (qchannel m)))) (M(i \<mapsto> f m))
    (X(qchannel m := expiring (update_entry i f (Q (qchannel m))))) n"
proof -
  let ?c = "qchannel m" and ?M = "M(i \<mapsto> f m)"
  let ?u = "update_entry i f (Q ?c)"
  have only: "m' = m" if "m' \<in> set (Q c')" "qid m' = i" for m' c'
    using entry_channel [OF inv that(1)] that(2) m by simp
  have map: "?u = map (\<lambda>m'. if qid m' = i then f m' else m') (Q ?c)"
    using inv_queue [OF inv, of ?c] by (simp add: queue_ok_def update_entry_map)
  have "map qid ?u = map qid (Q ?c)" using f(1) only by (auto simp: map)
  then have "distinct (map qid ?u)" using inv_queue [OF inv, of ?c] by (simp add: queue_ok_def)
  moreover have "list_all (\<lambda>x. qchannel x = ?c \<and> ?M (qid x) = Some x \<and> status x \<in> {Queued, Sending}) ?u"
    using inv_queue [OF inv, of ?c] f only by (auto simp: queue_ok_def list_all_iff map)
  ultimately have "queue_ok ?M ?c ?u" by (simp add: queue_ok_def)
  moreover have "queue_ok ?M c' (Q c')" if "c' \<noteq> ?c" for c'
  proof (rule queue_ok_cong [OF inv_queue [OF inv]])
    fix m' assume "m' \<in> set (Q c')"
    then show "?M (qid m') = M (qid m')"
      using only [of m' c'] entry_channel [OF inv, of m' c'] that by (cases "qid m' = i") auto
  qed
  moreover have "table_ok (Q(?c := ?u)) j m'" if "?M j = Some m'" for j m'
  proof (cases "j = i")
    case True
    with that have "m' = f m" by simp
    moreover have "f m \<in> set ?u" if "m \<in> set (Q ?c)"
      using that inv_table [OF inv m] by (auto simp: map table_ok_def image_iff intro!: bexI [of _ m])
    ultimately show ?thesis using True f q by (simp add: table_ok_def)
  next
    case False
    with that have "M j = Some m'" by simp
    with inv_table [OF inv this] False show ?thesis by (auto simp: table_ok_def map)
  qed
  ultimately show ?thesis using inv by (auto simp: pipe_inv_def)
qed

lemma inv_finish:
  assumes inv: "pipe_inv Q M X n" and m: "M i = Some m"
    and f: "message m' = message m" "status m' \<notin> {Queued, Sending}"
  shows "pipe_inv (Q(qchannel m := filter (\<lambda>x. qid x \<noteq> i) (Q (qchannel m)))) (M(i \<mapsto> m'))
    (X(qchannel m := expiring (filter (\<lambda>x. qid x \<noteq> i) (Q (qchannel m))))) n"
proof -
  let ?c = "qchannel m" and ?M = "M(i \<mapsto> m')"
  let ?q = "filter (\<lambda>x. qid x \<noteq> i) (Q ?c)"
  have "queue_ok ?M ?c ?q"
    using inv_queue [OF inv, of ?c] by (auto simp: queue_ok_def list_all_iff distinct_map_filter)
  moreover have "queue_ok ?M c' (Q c')" if "c' \<noteq> ?c" for c'
  proof (rule queue_ok_cong [OF inv_queue [OF inv]])
    fix x assume "x \<in> set (Q c')"
    then show "?M (qid x) = M (qid x)"
      using entry_channel [OF inv, of x c'] m that by (cases "qid x = i") auto
  qed
  moreover have "table_ok (Q(?c := ?q)) j x" if "?M j = Some x" for j x
    using that inv_table [OF inv, of j x] inv_table [OF inv m] f
    by (cases "j = i") (auto simp: table_ok_def)
  moreover have "length ?q \<le> max 1 n"
    using inv length_filter_le [of "\<lambda>x. qid x \<noteq> i" "Q ?c"] unfolding pipe_inv_def by (meson order_trans)
  ultimately show ?thesis using inv by (auto simp: pipe_inv_def)
qed

lemma inv_forget:
  assumes inv: "pipe_inv Q M X n" and sub: "\<And>i m. M' i = Some m \<Longrightarrow> M i = Some m"
    and keep: "\<And>i m. M i = Some m \<Longrightarrow> status m \<in> {Queued, Sending} \<Longrightarrow> M' i = Some m"
  shows "pipe_inv Q M' X n"
proof -
  have "queue_ok M' c (Q c)" for c
    using inv_queue [OF inv, of c] keep by (simp add: queue_ok_def list_all_iff)
  then show ?thesis using inv sub by (simp add: pipe_inv_def)
qed


subsection \<open>The look-up functions after each operation\<close>

lemma queue_of_cong [simp]:
  "queue_of (p\<lparr>messages := a\<rparr>) = queue_of p" "queue_of (p\<lparr>expiring_queued_by_channel := b\<rparr>) = queue_of p"
  "queue_of (p\<lparr>idempotency_keys := k\<rparr>) = queue_of p" "queue_of (p\<lparr>stats_queued := x\<rparr>) = queue_of p"
  "queue_of (p\<lparr>stats_sent := x\<rparr>) = queue_of p" "queue_of (p\<lparr>stats_failed := x\<rparr>) = queue_of p"
  "queue_of (p\<lparr>notify_permit := y\<rparr>) = queue_of p"
  by (simp_all add: queue_of_def fun_eq_iff)

lemma expiring_count_cong [simp]:
  "expiring_count (p\<lparr>messages := a\<rparr>) = expiring_count p" "expiring_count (p\<lparr>queues := b\<rparr>) = expiring_count p"
  "expiring_count (p\<lparr>idempotency_keys := k\<rparr>) = expiring_count p" "expiring_count (p\<lparr>stats_queued := x\<rparr>) = expiring_count p"
  "expiring_count (p\<lparr>stats_sent := x\<rparr>) = expiring_count p" "expiring_count (p\<lparr>stats_failed := x\<rparr>) = expiring_count p"
  "expiring_count (p\<lparr>notify_permit := y\<rparr>) = expiring_count p"
  by (simp_all add: expiring_count_def fun_eq_iff)

lemma queue_of_insert: "queue_of (p\<lparr>queues := hm_insert c q (queues r)\<rparr>) = (queue_of r)(c := q)"
  by (simp add: queue_of_def fun_eq_iff hm_simps)

lemma queue_of_modify:
  "f [] = [] \<Longrightarrow> queue_of (p\<lparr>queues := hm_modify c f (queues r)\<rparr>) = (queue_of r)(c := f (queue_of r c))"
  by (auto simp: queue_of_def fun_eq_iff hm_simps split: option.split)

lemma get_insert_fun: "hm_get (hm_insert i m M) = (hm_get M)(i \<mapsto> m)"
  by (simp add: fun_eq_iff hm_simps)

lemma get_modify_fun: "hm_get M i = Some m \<Longrightarrow> hm_get (hm_modify i f M) = (hm_get M)(i \<mapsto> f m)"
  by (simp add: fun_eq_iff hm_simps)

lemma increment_sel [simp]:
  "queues (increment_expiring_queued_count c p) = queues p"
  "queue_of (increment_expiring_queued_count c p) = queue_of p"
  "messages (increment_expiring_queued_count c p) = messages p"
  "idempotency_keys (increment_expiring_queued_count c p) = idempotency_keys p"
  "max_queue_size (increment_expiring_queued_count c p) = max_queue_size p"
  "expiring_count (increment_expiring_queued_count c p) = (expiring_count p)(c := expiring_count p c + 1)"
  by (auto simp: increment_expiring_queued_count_def expiring_count_def fun_eq_iff hm_simps)

lemma decrement_sel [simp]:
  "queues (decrement_expiring_queued_count_by c k p) = queues p"
  "queue_of (decrement_expiring_queued_count_by c k p) = queue_of p"
  "messages (decrement_expiring_queued_count_by c k p) = messages p"
  "idempotency_keys (decrement_expiring_queued_count_by c k p) = idempotency_keys p"
  "max_queue_size (decrement_expiring_queued_count_by c k p) = max_queue_size p"
  "expiring_count (decrement_expiring_queued_count_by c k p) = (expiring_count p)(c := expiring_count p c - k)"
  by (auto simp: decrement_expiring_queued_count_by_def expiring_count_def fun_eq_iff hm_simps Let_def
      split: option.split)

lemma count_maps_wf:
  "hm_wf (expiring_queued_by_channel p) \<Longrightarrow> hm_wf (expiring_queued_by_channel (increment_expiring_queued_count c p))"
  "hm_wf (expiring_queued_by_channel p) \<Longrightarrow> hm_wf (expiring_queued_by_channel (decrement_expiring_queued_count_by c k p))"
  by (auto simp: increment_expiring_queued_count_def decrement_expiring_queued_count_by_def Let_def
      intro: wf_intros split: option.split)

subsection \<open>Every operation keeps the invariant\<close>

lemma wf_change_both:
  assumes wf: "pipeline_wf p"
    and f: "\<And>m. message (f m) = message m" "\<And>m. status (f m) \<in> {Queued, Sending}"
    and q: "\<And>m. hm_get (messages p) i = Some m \<Longrightarrow> status (f m) = Queued \<Longrightarrow> m \<in> set (queue_of p (qchannel m))"
  shows "pipeline_wf (snd (change_both i f p))"
proof (cases "hm_get (messages p) i")
  case None
  with wf show ?thesis by (simp add: change_both_def)
next
  case (Some m)
  have inv: "pipe_inv (queue_of p) (hm_get (messages p)) (expiring_count p) (max_queue_size p)"
    using wf by (simp add: pipeline_wf_def)
  have same: "expiring (update_entry i f q) = expiring q" for q
    using f(1) by (induction q) auto
  have "expiring_count p (qchannel m) = expiring (queue_of p (qchannel m))"
    using inv by (simp add: pipe_inv_def)
  with inv_change [OF inv Some, of f] inv_table [OF inv Some] f q [OF Some]
  have "pipe_inv ((queue_of p)(qchannel m := update_entry i f (queue_of p (qchannel m))))
      ((hm_get (messages p))(i \<mapsto> f m)) (expiring_count p) (max_queue_size p)"
    by (simp add: table_ok_def same fun_upd_idem)
  with wf Some show ?thesis
    by (auto simp: change_both_def pipeline_wf_def queue_of_modify get_modify_fun intro: wf_intros)
qed

lemma wf_finish:
  assumes wf: "pipeline_wf p" and m: "hm_get (messages p) i = Some m"
    and f: "message (f m) = message m" "status (f m) \<notin> {Queued, Sending}"
  shows "pipeline_wf (remove_from_queue i (p\<lparr>messages := hm_modify i f (messages p)\<rparr>))"
proof -
  have inv: "pipe_inv (queue_of p) (hm_get (messages p)) (expiring_count p) (max_queue_size p)"
    using wf by (simp add: pipeline_wf_def)
  then have "expiring_count p (qchannel m) = expiring (queue_of p (qchannel m))"
    by (simp add: pipe_inv_def)
  with inv_finish [OF inv m f] wf m f(1) show ?thesis
    by (auto simp: remove_from_queue_def pipeline_wf_def queue_of_modify get_modify_fun Let_def
        expiring_remove count_maps_wf intro: wf_intros)
qed

lemma wf_stats [simp]:
  "pipeline_wf (p\<lparr>stats_queued := x\<rparr>) = pipeline_wf p" "pipeline_wf (p\<lparr>stats_sent := x\<rparr>) = pipeline_wf p"
  "pipeline_wf (p\<lparr>stats_failed := x\<rparr>) = pipeline_wf p" "pipeline_wf (p\<lparr>notify_permit := y\<rparr>) = pipeline_wf p"
  by (simp_all add: pipeline_wf_def)

lemma wf_cleanup: "pipeline_wf p \<Longrightarrow> pipeline_wf (snd (cleanup_completed e p))"
proof -
  assume wf: "pipeline_wf p"
  let ?P = "\<lambda>i m. if status m \<in> {Queued, Sending} then True
      else updated_at m > i64_wrap (now_millis e - COMPLETED_MESSAGE_TTL_MS)"
  have "pipe_inv (queue_of p) (hm_get (hm_retain ?P (messages p))) (expiring_count p) (max_queue_size p)"
    by (rule inv_forget [of _ "hm_get (messages p)"])
      (use wf in \<open>auto simp: pipeline_wf_def hm_simps split: bind_splits if_splits\<close>)
  with wf show ?thesis
    by (auto simp: cleanup_completed_def pipeline_wf_def Let_def intro: wf_intros)
qed

lemma wf_maybe_cleanup: "pipeline_wf p \<Longrightarrow> pipeline_wf (maybe_cleanup_completed e p)"
  by (simp add: maybe_cleanup_completed_def wf_cleanup)


lemma wf_update_message:
  assumes wf: "pipeline_wf p" and id: "msg_id m = i"
  shows "pipeline_wf (snd (update_message i m p))"
proof (cases "hm_get (messages p) i")
  case None
  with wf show ?thesis by (simp add: update_message_def)
next
  case (Some q)
  show ?thesis
  proof (cases "status q = Queued \<and> qchannel q = msg_channel_id m")
    case False
    with Some wf show ?thesis by (auto simp: update_message_def)
  next
    case True
    let ?f = "\<lambda>x :: 'a QueuedMessage. x\<lparr>message := m\<rparr>" and ?q = "queue_of p (qchannel q)"
    have inv: "pipe_inv (queue_of p) (hm_get (messages p)) (expiring_count p) (max_queue_size p)"
      using wf by (simp add: pipeline_wf_def)
    have mem: "q \<in> set ?q" "qid q = i" using inv_table [OF inv Some] True by (auto simp: table_ok_def)
    have cnt: "expiring_count p (qchannel q) = expiring ?q" "distinct (map qid ?q)"
      using inv by (simp_all add: pipe_inv_def queue_ok_def)
    have eq: "expiring (update_entry i ?f ?q) + (if message_can_expire (message q) then 1 else 0) =
        expiring ?q + (if message_can_expire m then 1 else 0)"
      using expiring_update_entry [OF cnt(2) mem, of ?f] by simp
    let ?p = "p\<lparr>messages := hm_modify i ?f (messages p),
      queues := hm_modify (qchannel q) (update_entry i ?f) (queues p)\<rparr>"
    have "expiring_count (adjust_expiring_queued_count (qchannel q) (message_can_expire (message q))
        (message_can_expire m) ?p) = (expiring_count p)(qchannel q := expiring (update_entry i ?f ?q))"
      using eq cnt(1) by (auto simp: adjust_expiring_queued_count_def fun_eq_iff split: if_splits)
    moreover have "pipe_inv ((queue_of p)(qchannel q := update_entry i ?f ?q))
        ((hm_get (messages p))(i \<mapsto> ?f q)) ((expiring_count p)(qchannel q := expiring (update_entry i ?f ?q)))
        (max_queue_size p)"
      by (rule inv_change [OF inv Some]) (use True id mem in auto)
    moreover have "snd (update_message i m p) =
        adjust_expiring_queued_count (qchannel q) (message_can_expire (message q)) (message_can_expire m) ?p"
      using Some True by (simp add: update_message_def Let_def)
    moreover have "queue_of (adjust_expiring_queued_count c b b' ?p) = queue_of ?p"
      "messages (adjust_expiring_queued_count c b b' ?p) = messages ?p"
      "queues (adjust_expiring_queued_count c b b' ?p) = queues ?p"
      "max_queue_size (adjust_expiring_queued_count c b b' ?p) = max_queue_size p"
      "idempotency_keys (adjust_expiring_queued_count c b b' ?p) = idempotency_keys p"
      "hm_wf (expiring_queued_by_channel (adjust_expiring_queued_count c b b' ?p))" for c b b'
      using wf by (simp_all add: adjust_expiring_queued_count_def count_maps_wf pipeline_wf_def)
    ultimately show ?thesis
      using wf Some by (simp add: pipeline_wf_def queue_of_modify get_modify_fun wf_intros)
  qed
qed

lemma wf_queue:
  assumes wf: "pipeline_wf p" and new: "hm_get (messages p) (msg_id m) = None"
  shows "pipeline_wf (snd (queue_with_idempotency e m ctx key p))"
proof -
  let ?m = "QueuedMessage_new (now_millis e) m ctx" and ?c = "msg_channel_id m"
  have inv: "pipe_inv (queue_of p) (hm_get (messages p)) (expiring_count p) (max_queue_size p)"
    using wf by (simp add: pipeline_wf_def)
  have sel: "qid ?m = msg_id m" "qchannel ?m = ?c" "message ?m = m" "status ?m = Queued"
    by (simp_all add: QueuedMessage_new_def)
  show ?thesis
  proof (cases "idempotent_hit (now_millis e) key p = None \<and>
      \<not> (case hm_get (queues p) ?c of None \<Rightarrow> False | Some q \<Rightarrow> max_queue_size p \<le> length q)")
    case False
    with wf show ?thesis by (auto simp: queue_with_idempotency_def Let_def split: option.split)
  next
    case True
    then have "queue_of p ?c = [] \<or> length (queue_of p ?c) < max_queue_size p"
      by (auto simp: queue_of_def split: option.splits)
    from inv_add [OF inv _ sel(4,2) this] new sel have
      "pipe_inv ((queue_of p)(?c := queue_of p ?c @ [?m])) ((hm_get (messages p))(msg_id m \<mapsto> ?m))
        ((expiring_count p)(?c := expiring_count p ?c + (if message_can_expire m then 1 else 0)))
        (max_queue_size p)" by simp
    with wf True show ?thesis
      by (auto simp: queue_with_idempotency_def pipeline_wf_def Let_def queue_of_insert get_insert_fun
          count_maps_wf intro: wf_intros split: option.splits if_splits)
  qed
qed

subsection \<open>Operations as steps\<close>

datatype 'j pipe_op =
    Op_queue env "'j OutboundMessage" OutboundContext "string option"
  | Op_cancel env MessageId
  | Op_update MessageId "'j OutboundMessage"
  | Op_sending env MessageId
  | Op_retry env MessageId string "i64 option"
  | Op_sent env MessageId
  | Op_failed env MessageId string
  | Op_expired env MessageId string
  | Op_cleanup env
  | Op_clear

fun pipe_step :: "'j pipe_op \<Rightarrow> 'j MessagePipeline \<Rightarrow> 'j MessagePipeline" where
  "pipe_step (Op_queue e m ctx key) p = snd (queue_with_idempotency e m ctx key p)"
| "pipe_step (Op_cancel e i) p = snd (cancel e i p)"
| "pipe_step (Op_update i m) p = snd (update_message i m p)"
| "pipe_step (Op_sending e i) p = snd (mark_sending e i p)"
| "pipe_step (Op_retry e i err after) p = snd (mark_retry_with_retry_after e i err after p)"
| "pipe_step (Op_sent e i) p = snd (mark_sent e i p)"
| "pipe_step (Op_failed e i err) p = snd (mark_failed e i err p)"
| "pipe_step (Op_expired e i reason) p = snd (mark_expired e i reason p)"
| "pipe_step (Op_cleanup e) p = snd (cleanup_completed e p)"
| "pipe_step Op_clear p = clear p"

text \<open>
  The side conditions: a new message has a fresh id, an update keeps the id, and only a message that
  is still in its queue is put back for a retry.
\<close>

definition in_queue :: "MessageId \<Rightarrow> 'j MessagePipeline \<Rightarrow> bool" where
  "in_queue i p = (case hm_get (messages p) i of None \<Rightarrow> False | Some m \<Rightarrow> i \<in> qid ` set (queue_of p (qchannel m)))"

fun pipe_op_ok :: "'j pipe_op \<Rightarrow> 'j MessagePipeline \<Rightarrow> bool" where
  "pipe_op_ok (Op_queue e m ctx key) p = (hm_get (messages p) (msg_id m) = None)"
| "pipe_op_ok (Op_update i m) p = (msg_id m = i)"
| "pipe_op_ok (Op_retry e i err after) p = in_queue i p"
| "pipe_op_ok _ p = True"

lemmas qm_defs = qm_mark_sending_def qm_mark_sent_def qm_mark_failed_def qm_mark_expired_def
  qm_mark_cancelled_def qm_mark_retry_def

lemma wf_cancel: "pipeline_wf p \<Longrightarrow> pipeline_wf (snd (cancel e i p))"
  by (auto simp: cancel_def qm_defs intro!: wf_finish split: option.split)

lemma wf_marks:
  "pipeline_wf p \<Longrightarrow> pipeline_wf (snd (mark_sent e i p))"
  "pipeline_wf p \<Longrightarrow> pipeline_wf (snd (mark_failed e i err p))"
  "pipeline_wf p \<Longrightarrow> pipeline_wf (snd (mark_expired e i err p))"
proof -
  assume wf: "pipeline_wf p"
  have stats: "remove_from_queue i (p\<lparr>messages := a, stats_sent := x\<rparr>) = (remove_from_queue i (p\<lparr>messages := a\<rparr>))\<lparr>stats_sent := x\<rparr>"
    "remove_from_queue i (p\<lparr>messages := a, stats_failed := x\<rparr>) = (remove_from_queue i (p\<lparr>messages := a\<rparr>))\<lparr>stats_failed := x\<rparr>"
    for a x
    by (auto simp: remove_from_queue_def decrement_expiring_queued_count_by_def queue_of_def Let_def
        split: option.split)
  show "pipeline_wf (snd (mark_sent e i p))" "pipeline_wf (snd (mark_failed e i err p))"
    "pipeline_wf (snd (mark_expired e i err p))"
    using wf by (auto simp: mark_sent_def mark_failed_def mark_expired_def Let_def stats qm_defs
        intro!: wf_maybe_cleanup wf_finish split: option.split)
qed

lemma wf_clear: "pipeline_wf (clear p)"
  by (simp add: clear_def pipeline_wf_def pipe_inv_def queue_of_def expiring_count_def queue_ok_def)

lemma in_queue_member:
  "pipeline_wf p \<Longrightarrow> in_queue i p \<Longrightarrow> hm_get (messages p) i = Some m \<Longrightarrow> m \<in> set (queue_of p (qchannel m))"
  using queue_member [of "hm_get (messages p)" "qchannel m" "queue_of p (qchannel m)" i m]
  by (simp add: in_queue_def pipeline_wf_def pipe_inv_def)

lemma pipe_step_wf: "pipeline_wf p \<Longrightarrow> pipe_op_ok a p \<Longrightarrow> pipeline_wf (pipe_step a p)"
proof (cases a)
  case (Op_retry e i err after)
  assume "pipeline_wf p" "pipe_op_ok a p"
  with Op_retry show ?thesis
    by (auto simp: mark_retry_with_retry_after_def qm_defs Let_def intro!: wf_change_both in_queue_member)
next
  case (Op_sending e i)
  assume "pipeline_wf p"
  with Op_sending show ?thesis
    by (auto simp: mark_sending_def qm_defs intro!: wf_change_both)
qed (simp_all add: wf_queue wf_cancel wf_update_message wf_marks wf_cleanup wf_clear)


subsection \<open>The scan against its specification\<close>

definition live :: "i64 \<Rightarrow> 'j QueuedMessage \<Rightarrow> bool" where
  "live now m \<longleftrightarrow> status m = Queued \<and> \<not> is_expired now (message m)"

definition overdue :: "i64 \<Rightarrow> 'j QueuedMessage \<Rightarrow> bool" where
  "overdue now m \<longleftrightarrow> status m = Queued \<and> is_expired now (message m)"

definition held_back :: "i64 \<Rightarrow> 'j QueuedMessage \<Rightarrow> bool" where
  "held_back now m = (case retry_not_before_ms m of None \<Rightarrow> False | Some t \<Rightarrow> t > now)"

text \<open>What should be delivered next: the first live message, unless it has to wait for its retry.\<close>

definition fifo_ready :: "i64 \<Rightarrow> 'j QueuedMessage list \<Rightarrow> 'j QueuedMessage option" where
  "fifo_ready now q =
     (case filter (live now) q of [] \<Rightarrow> None | m # _ \<Rightarrow> if held_back now m then None else Some m)"

lemma scan_blocked:
  "delivery_scan now b True w q = w\<lparr>expired := expired w @ filter (overdue now) q\<rparr>"
  by (induction q arbitrary: w) (auto simp: overdue_def)

lemma scan_ready:
  "ready w = None \<Longrightarrow> ready (delivery_scan now b False w q) = fifo_ready now q"
  by (induction q arbitrary: w)
    (auto simp: fifo_ready_def live_def held_back_def Let_def scan_blocked split: option.split)

lemma not_overdue: "expiring q = 0 \<Longrightarrow> filter (overdue now) q = []"
  by (induction q) (auto simp: overdue_def is_expired_def message_can_expire_def split: if_splits)

lemma scan_expired:
  "ready w = None \<Longrightarrow> (b \<or> expiring q = 0) \<Longrightarrow> fifo_ready now q = None \<Longrightarrow>
   expired (delivery_scan now b False w q) = expired w @ filter (overdue now) q"
proof (induction q arbitrary: w)
  case (Cons m q)
  show ?case
  proof (cases "live now m")
    case True
    with Cons.prems have "held_back now m" by (auto simp: fifo_ready_def split: if_splits)
    moreover have "filter (overdue now) q = []" if "\<not> b"
      using that Cons.prems(2) not_overdue [of q] by (auto split: if_splits)
    moreover have "\<not> overdue now m" using True by (simp add: live_def overdue_def)
    ultimately show ?thesis using True
      by (auto simp: live_def held_back_def Let_def scan_blocked split: option.splits)
  next
    case False
    then have "status m \<noteq> Queued \<or> overdue now m \<and> is_expired now (message m)"
      by (auto simp: live_def overdue_def)
    with False Cons show ?thesis by (auto simp: fifo_ready_def overdue_def [of now m] split: if_splits)
  qed
qed simp


subsection \<open>A message that has left its queue never comes back\<close>

definition gone :: "MessageId \<Rightarrow> 'j MessagePipeline \<Rightarrow> bool" where
  "gone i p \<longleftrightarrow> (\<forall>c. i \<notin> qid ` set (queue_of p c))"

fun pipe_admits :: "'j pipe_op \<Rightarrow> MessageId \<Rightarrow> bool" where
  "pipe_admits (Op_queue e m ctx key) i = (msg_id m = i)"
| "pipe_admits _ i = False"

definition handed_out :: "'j MessagePipeline \<Rightarrow> MessageId \<Rightarrow> bool" where
  "handed_out p i \<longleftrightarrow> (\<exists>e c. i \<in> qid ` set_option (next_for_channel e c p))"

lemma ids_update_entry:
  "(\<And>m. qid m = i \<Longrightarrow> msg_id (message (f m)) = i) \<Longrightarrow> qid ` set (update_entry i f q) = qid ` set q"
  by (induction q) auto

lemma gone_change: "gone j p \<Longrightarrow> (\<And>m. msg_id (message (f m)) = qid m) \<Longrightarrow> gone j (snd (change_both i f p))"
  by (auto simp: gone_def change_both_def queue_of_modify ids_update_entry split: option.split)

lemma gone_remove: "gone j p \<Longrightarrow> queue_of p' = queue_of p \<Longrightarrow> gone j (remove_from_queue i p')"
  by (auto simp: gone_def remove_from_queue_def queue_of_modify Let_def split: option.split)

lemma queue_of_cleanup [simp]: "queue_of (maybe_cleanup_completed e p) = queue_of p"
  "queue_of (snd (cleanup_completed e p)) = queue_of p"
  by (simp_all add: maybe_cleanup_completed_def cleanup_completed_def Let_def)

lemma update_message_ids:
  "msg_id m = i \<Longrightarrow> qid ` set (queue_of (snd (update_message i m p)) c) = qid ` set (queue_of p c)"
  by (simp add: update_message_def Let_def adjust_expiring_queued_count_def queue_of_modify ids_update_entry
      split: option.split)

lemma gone_step: "pipe_op_ok a p \<Longrightarrow> gone i p \<Longrightarrow> \<not> pipe_admits a i \<Longrightarrow> gone i (pipe_step a p)"
proof (cases a)
  case (Op_queue e m ctx key)
  assume "gone i p" "\<not> pipe_admits a i"
  with Op_queue show ?thesis
    by (auto simp: gone_def queue_with_idempotency_def Let_def queue_of_insert QueuedMessage_new_def
        split: option.split)
next
  case (Op_update j m)
  assume "pipe_op_ok a p" "gone i p"
  with Op_update show ?thesis by (simp add: gone_def update_message_ids)
next
  case Op_clear
  then show ?thesis by (simp add: gone_def clear_def queue_of_def)
next
  case (Op_cleanup e)
  assume "gone i p"
  with Op_cleanup show ?thesis by (simp add: gone_def)
qed (auto simp: mark_sending_def mark_retry_with_retry_after_def mark_sent_def mark_failed_def
      mark_expired_def cancel_def qm_defs Let_def gone_def [of _ "maybe_cleanup_completed _ _"]
      gone_def [symmetric] intro!: gone_change gone_remove split: option.split)

lemma next_for_channel_eq: "next_for_channel e c p = fifo_ready (now_millis e) (queue_of p c)"
  by (simp add: next_for_channel_def next_delivery_work_for_channel_def empty_work_def queue_of_def
      scan_ready fifo_ready_def split: option.split)

lemma next_ready:
  "next_for_channel e c p = Some m \<Longrightarrow>
   m \<in> set (queue_of p c) \<and> live (now_millis e) m \<and> \<not> held_back (now_millis e) m"
  by (auto simp: next_for_channel_eq fifo_ready_def filter_eq_Cons_iff split: list.splits if_splits)

lemma gone_not_handed_out: "gone i p \<Longrightarrow> \<not> handed_out p i"
  by (auto simp: gone_def handed_out_def dest!: next_ready)

interpretation pipe_machine: credential_machine pipe_step pipeline_wf pipe_op_ok pipe_admits gone handed_out
  by unfold_locales (simp_all add: pipe_step_wf gone_step gone_not_handed_out)


subsection \<open>Idempotency keys\<close>

definition key_held :: "string \<Rightarrow> MessageId \<Rightarrow> i64 \<Rightarrow> 'j MessagePipeline \<Rightarrow> bool" where
  "key_held key i t p \<longleftrightarrow> hm_wf (idempotency_keys p) \<and> 0 \<le> t \<and> t \<le> i64_max \<and>
     hm_get (idempotency_keys p) key = Some \<lparr>key_message_id = i, key_created_at = t\<rparr>"

text \<open>The clock is within 24 hours of \<open>t\<close> (and within the range of the source's \<^verbatim>\<open>i64\<close>).\<close>

definition in_window :: "i64 \<Rightarrow> env \<Rightarrow> bool" where
  "in_window t e \<longleftrightarrow> int (env_now e) \<le> i64_max \<and> int (env_now e) < t + IDEMPOTENCY_KEY_TTL_MS"

fun op_in_window :: "i64 \<Rightarrow> 'j pipe_op \<Rightarrow> bool" where
  "op_in_window t (Op_queue e m ctx key) = in_window t e"
| "op_in_window t (Op_cancel e i) = True"
| "op_in_window t (Op_update i m) = True"
| "op_in_window t (Op_sending e i) = True"
| "op_in_window t (Op_retry e i err after) = True"
| "op_in_window t (Op_sent e i) = in_window t e"
| "op_in_window t (Op_failed e i err) = in_window t e"
| "op_in_window t (Op_expired e i reason) = in_window t e"
| "op_in_window t (Op_cleanup e) = in_window t e"
| "op_in_window t Op_clear = False"

lemma in_window_clock:
  assumes "in_window t e" "0 \<le> t" "t \<le> i64_max"
  shows "i64_wrap (now_millis e - t) < IDEMPOTENCY_KEY_TTL_MS"
    "i64_wrap (now_millis e - IDEMPOTENCY_KEY_TTL_MS) < t"
proof -
  have now: "now_millis e = int (env_now e)"
    using assms by (simp add: now_millis_def in_window_def i64_wrap_id i64_min_def)
  have "i64_wrap (now_millis e - t) = int (env_now e) - t"
    "i64_wrap (now_millis e - IDEMPOTENCY_KEY_TTL_MS) = int (env_now e) - IDEMPOTENCY_KEY_TTL_MS"
    using assms by (simp_all add: now in_window_def i64_wrap_id i64_min_def i64_max_def IDEMPOTENCY_KEY_TTL_MS_def)
  then show "i64_wrap (now_millis e - t) < IDEMPOTENCY_KEY_TTL_MS"
    "i64_wrap (now_millis e - IDEMPOTENCY_KEY_TTL_MS) < t"
    using assms by (simp_all add: in_window_def)
qed

lemma keys_remove [simp]: "idempotency_keys (remove_from_queue i p) = idempotency_keys p"
  by (simp add: remove_from_queue_def Let_def split: option.split)

lemma keys_cleanup:
  "key_held key i t p \<Longrightarrow> in_window t e \<Longrightarrow> key_held key i t (snd (cleanup_completed e p))"
  using in_window_clock(2) [of t e]
  by (auto simp: key_held_def cleanup_completed_def Let_def hm_simps intro: wf_intros)

lemma keys_maybe_cleanup:
  "key_held key i t p \<Longrightarrow> in_window t e \<Longrightarrow> idempotency_keys p' = idempotency_keys p \<Longrightarrow>
   key_held key i t (maybe_cleanup_completed e p')"
  using keys_cleanup [of key i t p'] by (simp add: maybe_cleanup_completed_def key_held_def)

lemma hit_held:
  assumes "key_held key i t p" "in_window t e"
  shows "\<exists>r. idempotent_hit (now_millis e) (Some key) p = Some r \<and> res_message_id r = i"
  using assms in_window_clock(1) [of t e] by (auto simp: key_held_def idempotent_hit_def)

lemma keys_queue:
  assumes "key_held key i t p" "in_window t e"
  shows "key_held key i t (snd (queue_with_idempotency e m ctx key' p))"
proof (cases "idempotent_hit (now_millis e) key' p")
  case (Some r)
  with assms show ?thesis by (simp add: queue_with_idempotency_def)
next
  case None
  with hit_held [OF assms] have "key' \<noteq> Some key" by auto
  with None assms show ?thesis
    by (auto simp: queue_with_idempotency_def Let_def key_held_def hm_simps intro: wf_intros
        split: option.splits)
qed

lemma keys_update: "idempotency_keys (snd (update_message i m p)) = idempotency_keys p"
  by (simp add: update_message_def Let_def adjust_expiring_queued_count_def split: option.split)

lemma keys_step: "key_held key i t p \<Longrightarrow> op_in_window t a \<Longrightarrow> key_held key i t (pipe_step a p)"
proof (cases a)
  case (Op_update j m)
  assume "key_held key i t p"
  with Op_update show ?thesis by (simp add: key_held_def keys_update)
next
  case (Op_cancel e j)
  assume "key_held key i t p"
  with Op_cancel show ?thesis by (auto simp: key_held_def cancel_def split: option.split)
qed (auto simp: keys_queue keys_cleanup mark_sending_def mark_retry_with_retry_after_def change_both_def
      mark_sent_def mark_failed_def mark_expired_def Let_def key_held_def [of _ _ _ "p\<lparr>messages := _, queues := _\<rparr>"]
      key_held_def [symmetric] intro: keys_maybe_cleanup split: option.split)

interpretation key_machine: invariant_machine pipe_step "key_held key i t" "\<lambda>a _. op_in_window t a"
  for key i t
  by unfold_locales (rule keys_step)

lemma admitted_key_held:
  assumes "pipeline_wf p" "int (env_now e) \<le> i64_max"
    and "queue_with_idempotency e m ctx (Some key) p = (Inr r, p')" "res_queue_position r \<noteq> None"
  shows "key_held key (res_message_id r) (int (env_now e)) p'"
proof -
  have "now_millis e = int (env_now e)"
    using assms(2) by (simp add: now_millis_def i64_wrap_id i64_min_def)
  moreover have "hm_wf (idempotency_keys p)" using assms(1) by (simp add: pipeline_wf_def)
  ultimately show ?thesis
    using assms(2-4)
    by (auto simp: queue_with_idempotency_def idempotent_hit_def Let_def key_held_def hm_simps
        intro: wf_intros split: option.splits if_splits)
qed


lemma wf_new: "pipeline_wf (with_max_queue_size n)"
  by (simp add: with_max_queue_size_def pipeline_wf_def pipe_inv_def queue_of_def expiring_count_def queue_ok_def)

lemma remove_makes_gone:
  assumes wf: "pipeline_wf p" and m: "hm_get (messages p) i = Some m" and f: "message (f m) = message m"
    and p': "messages p' = hm_modify i f (messages p)" "queues p' = queues p"
  shows "gone i (remove_from_queue i p')"
proof -
  have inv: "pipe_inv (queue_of p) (hm_get (messages p)) (expiring_count p) (max_queue_size p)"
    using wf by (simp add: pipeline_wf_def)
  have "i \<notin> qid ` set (queue_of p c)" if "c \<noteq> qchannel m" for c
    using entry_channel [OF inv, of _ c] m that by fastforce
  moreover have "hm_get (messages p') i = Some (f m)" using m p' by (simp add: hm_simps)
  moreover have "queue_of p' = queue_of p" using p'(2) by (simp add: queue_of_def fun_eq_iff)
  ultimately show ?thesis
    using f by (auto simp: gone_def remove_from_queue_def queue_of_modify Let_def)
qed

lemma completed_gone:
  assumes wf: "pipeline_wf p" and m: "hm_get (messages p) i = Some m"
  shows "gone i (snd (mark_sent e i p)) \<and> gone i (snd (mark_failed e i err p)) \<and>
    gone i (snd (mark_expired e i err p)) \<and> (status m = Queued \<longrightarrow> gone i (snd (cancel e i p)))"
proof -
  have "gone i (maybe_cleanup_completed e q) = gone i q" for q :: "'a MessagePipeline"
    by (simp add: gone_def)
  with m show ?thesis
    using remove_makes_gone [OF wf m, of "qm_mark_sent (now_millis e)"]
      remove_makes_gone [OF wf m, of "qm_mark_failed (now_millis e) err"]
      remove_makes_gone [OF wf m, of "qm_mark_expired (now_millis e) err"]
      remove_makes_gone [OF wf m, of "qm_mark_cancelled (now_millis e)"]
    by (simp add: mark_sent_def mark_failed_def mark_expired_def cancel_def Let_def)
      (simp add: qm_defs)
qed

subsection \<open>Properties\<close>

definition ex_message :: "string \<Rightarrow> u64 \<Rightarrow> unit OutboundMessage" where
  "ex_message i ttl = (OutboundMessage_new (ex_env 1 i) ''c'' (Text ''hi''))
     \<lparr>msg_metadata := MessageMetadata_default\<lparr>meta_ttl_ms := ttl\<rparr>\<rparr>"

definition ex_pipeline :: "unit MessagePipeline" where
  "ex_pipeline = snd (queue (ex_env 1 []) (ex_message ''m'' 0) OutboundContext_new (with_max_queue_size 2))"

lemma ex_message_sel: "msg_id (ex_message i ttl) = i" "msg_channel_id (ex_message i ttl) = ''c''"
  by (simp_all add: ex_message_def OutboundMessage_new_def ex_env_def)

lemmas pipe_eval = ex_message_def OutboundMessage_new_def MessageMetadata_default_def ex_env_def
  queue_with_idempotency_def idempotent_hit_def QueuedMessage_new_def message_can_expire_def
  with_max_queue_size_def queue_of_def now_millis_def i64_wrap_def i64_min_def i64_max_def
  IDEMPOTENCY_KEY_TTL_MS_def Let_def hm_eval

lemma ex_pipeline_eq:
  "ex_pipeline = \<lparr> queues = [(''c'', [QueuedMessage_new 1 (ex_message ''m'' 0) OutboundContext_new])],
     expiring_queued_by_channel = [], messages = [(''m'', QueuedMessage_new 1 (ex_message ''m'' 0) OutboundContext_new)],
     idempotency_keys = [], max_queue_size = 2, stats_queued = 1, stats_sent = 0, stats_failed = 0,
     notify_permit = True \<rparr>"
  by (simp add: ex_pipeline_def queue_def pipe_eval u64_add_def u64_max_def)

lemma ex_pipeline_wf: "pipeline_wf ex_pipeline"
  unfolding ex_pipeline_def queue_def by (rule wf_queue [OF wf_new]) (simp add: with_max_queue_size_def)



text \<open>
  C12: Queueing is idempotent under a key: once a message has been admitted with a key, every further
  request with that key within 24 hours returns the id of the first message and changes nothing,
  whatever else happened to the pipeline in between (short of clearing it).
\<close>

theorem queueing_idempotent_under_key:
  assumes "pipeline_wf p" "int (env_now e) \<le> i64_max"
    and "queue_with_idempotency e m ctx (Some key) p = (Inr r, p')" "res_queue_position r \<noteq> None"
    and "list_all (op_in_window (int (env_now e))) as" "in_window (int (env_now e)) e'"
  shows "\<exists>r'. queue_with_idempotency e' m' ctx' (Some key) (fold pipe_step as p') =
      (Inr r', fold pipe_step as p') \<and> res_message_id r' = res_message_id r"
proof -
  let ?t = "int (env_now e)"
  have "run_ok (\<lambda>a _. op_in_window ?t a) pipe_step as q" for q
    using assms(5) by (induction as arbitrary: q) simp_all
  from key_machine.run_inv [OF admitted_key_held [OF assms(1-4)] this]
  have "key_held key (res_message_id r) ?t (fold pipe_step as p')" .
  from hit_held [OF this assms(6)] show ?thesis by (auto simp: queue_with_idempotency_def)
qed

theorem queueing_idempotent_under_key_witness:
  "\<exists>r'. fst (queue_with_idempotency (ex_env 9000 []) (ex_message ''n'' 0) OutboundContext_new (Some ''k'')
     (fold pipe_step [Op_cancel (ex_env 2 []) ''m''] (snd (queue_with_idempotency (ex_env 1 []) (ex_message ''m'' 0)
       OutboundContext_new (Some ''k'') (with_max_queue_size 2))))) = Inr r' \<and> res_message_id r' = ''m''"
proof -
  let ?p = "queue_with_idempotency (ex_env 1 []) (ex_message ''m'' 0) OutboundContext_new (Some ''k'') (with_max_queue_size 2)"
  obtain r p' where eq: "?p = (Inr r, p')" "res_queue_position r \<noteq> None" "res_message_id r = ''m''"
    by (simp add: pipe_eval)
  have w: "int (env_now (ex_env 1 [])) \<le> i64_max" "in_window (int (env_now (ex_env 1 []))) (ex_env 9000 [])"
    by (simp_all add: ex_env_def i64_max_def in_window_def IDEMPOTENCY_KEY_TTL_MS_def)
  have "list_all (op_in_window (int (env_now (ex_env 1 [])))) [Op_cancel (ex_env 2 []) ''m'']" by simp
  from queueing_idempotent_under_key [OF wf_new w(1) eq(1,2) this w(2), of "ex_message ''n'' 0" OutboundContext_new] eq(3)
  show ?thesis unfolding eq(1) by auto
qed

text \<open>
  C13: The worker gets messages strictly in queue order: the next message of a channel is its first
  queued message that has not expired, and while that one waits for its retry time nothing behind
  it is handed out. When nothing is ready, every expired message of the queue is reported, although
  the code stops the scan early when its counter says that no message can expire.
\<close>

theorem delivery_in_queue_order:
  assumes "pipeline_wf p"
  shows "next_for_channel e c p = fifo_ready (now_millis e) (queue_of p c) \<and>
    (next_for_channel e c p = None \<longrightarrow>
      expired (next_delivery_work_for_channel e c p) = filter (overdue (now_millis e)) (queue_of p c))"
proof -
  have cnt: "expiring_count p c = expiring (queue_of p c)"
    using assms by (simp add: pipeline_wf_def pipe_inv_def)
  have "expired (next_delivery_work_for_channel e c p) = filter (overdue (now_millis e)) (queue_of p c)"
    if "fifo_ready (now_millis e) (queue_of p c) = None"
    using that cnt scan_expired [of empty_work "channel_has_expiring_queued_messages c p" "queue_of p c"]
    by (auto simp: next_delivery_work_for_channel_def channel_has_expiring_queued_messages_def
        expiring_count_def queue_of_def empty_work_def split: option.splits)
  then show ?thesis by (simp add: next_for_channel_eq)
qed

theorem delivery_in_queue_order_witness:
  "next_for_channel (ex_env 7 []) ''c'' ex_pipeline =
     Some (QueuedMessage_new 1 (ex_message ''m'' 0) OutboundContext_new)"
  using delivery_in_queue_order [OF ex_pipeline_wf, of "ex_env 7 []" "''c''"]
  by (simp add: ex_pipeline_eq pipe_eval fifo_ready_def live_def held_back_def is_expired_def)



text \<open>
  A cancellation can come too late without the caller learning of it: if a worker has been
  handed a message and the message is then cancelled successfully, the worker's next step still
  succeeds, and the message goes on to be sent.
\<close>

theorem cancelled_message_still_sent:
  assumes "pipeline_wf p" "next_for_channel e c p = Some m"
  shows "fst (cancel e1 (qid m) p) = Inr () \<and>
    fst (mark_sending e2 (qid m) (snd (cancel e1 (qid m) p))) = Inr () \<and>
    get_status (qid m) (snd (mark_sending e2 (qid m) (snd (cancel e1 (qid m) p)))) = Some Sending"
proof -
  have "hm_get (messages p) (qid m) = Some m" "status m = Queued"
    using next_ready [OF assms(2)] assms(1) entry_channel [of "queue_of p" "hm_get (messages p)" _ _ m c]
    by (auto simp: pipeline_wf_def live_def)
  then show ?thesis
    by (simp add: cancel_def mark_sending_def change_both_def remove_from_queue_def get_status_def hm_simps
        Let_def qm_defs)
qed

theorem cancelled_message_still_sent_witness:
  "get_status ''m'' (snd (mark_sending (ex_env 9 []) ''m'' (snd (cancel (ex_env 8 []) ''m'' ex_pipeline)))) =
     Some Sending"
proof -
  have "next_for_channel (ex_env 7 []) ''c'' ex_pipeline =
      Some (QueuedMessage_new 1 (ex_message ''m'' 0) OutboundContext_new)"
    by (simp add: next_for_channel_eq ex_pipeline_eq pipe_eval fifo_ready_def live_def held_back_def is_expired_def)
  from cancelled_message_still_sent [OF ex_pipeline_wf this, of "ex_env 8 []" "ex_env 9 []"]
  show ?thesis by (simp add: QueuedMessage_new_def ex_message_sel)
qed

end
