(* ===== verification/Delivery_Worker.thy ===== *)
theory Delivery_Worker
  imports Outbound_Lifecycle
begin

text \<open>
  One pass of the delivery worker (\<^verbatim>\<open>src/messages/delivery.rs\<close>) over a channel: report expired
  messages, run the message hook, mark the message as being sent, hand it to the channel's plugin
  part by part, and record the outcome. The channel plugins, the hook and the connection state are
  parameters (the record \<open>world\<close>); a plugin may answer differently on each call, so it also gets
  the list of what has been sent so far. The pass is modelled without other callers in between.
\<close>

subsection \<open>Results of a plugin call\<close>

datatype BindingError =
    PluginNotFound string
  | KindMismatch string string
  | InstantiationError string
  | CallError string
  | Backpressure string "i64 option"
  | MatrixRuntimeUnavailable string
  | HostError string
  | WasmtimeError string

text \<open>The argument of \<open>HostError\<close> is the text of the host's error.\<close>

fun BindingError_fmt :: "BindingError \<Rightarrow> string" where
  "BindingError_fmt (PluginNotFound s) = ''Plugin not found: '' @ s"
| "BindingError_fmt (KindMismatch a b) = ''Plugin kind mismatch: expected '' @ a @ '', got '' @ b"
| "BindingError_fmt (InstantiationError s) = ''Instantiation error: '' @ s"
| "BindingError_fmt (CallError s) = ''Function call error: '' @ s"
| "BindingError_fmt (Backpressure s _) = ''Plugin backpressure: '' @ s"
| "BindingError_fmt (MatrixRuntimeUnavailable s) = ''Matrix runtime unavailable: '' @ s"
| "BindingError_fmt (HostError s) = ''Host error: '' @ s"
| "BindingError_fmt (WasmtimeError s) = ''Wasmtime error: '' @ s"

fun is_delivery_backpressure :: "BindingError \<Rightarrow> bool" where
  "is_delivery_backpressure (Backpressure _ _) = True"
| "is_delivery_backpressure _ = False"

fun BindingError_retry_after_ms :: "BindingError \<Rightarrow> i64 option" where
  "BindingError_retry_after_ms (Backpressure _ r) = r"
| "BindingError_retry_after_ms _ = None"

datatype Retryability = Terminal | Transient "i64 option"

fun is_retryable :: "Retryability \<Rightarrow> bool" where
  "is_retryable (Transient _) = True"
| "is_retryable Terminal = False"

fun retry_after_ms :: "Retryability \<Rightarrow> i64 option" where
  "retry_after_ms Terminal = None"
| "retry_after_ms (Transient r) = r"

record DeliveryResult =
  ok :: bool
  res_message_id :: "string option"
  res_error :: "string option"
  retryability :: Retryability
  res_conversation_id :: "string option"
  res_to_jid :: "string option"
  res_poll_id :: "string option"
  error_kind :: "string option"

record PluginContext =
  ctx_to :: string
  ctx_text :: string
  ctx_media_url :: "string option"
  ctx_gif_playback :: bool
  ctx_reply_to_id :: "string option"
  ctx_thread_id :: "string option"
  ctx_account_id :: "string option"

datatype send = Send_text PluginContext | Send_media PluginContext

type_synonym plugin = "send list \<Rightarrow> send \<Rightarrow> BindingError + DeliveryResult"

subsection \<open>Delivering one message\<close>

definition text_send :: "string \<Rightarrow> string option \<Rightarrow> string option \<Rightarrow> string \<Rightarrow> send" where
  "text_send to r t text = Send_text
     \<lparr> ctx_to = to, ctx_text = text, ctx_media_url = None, ctx_gif_playback = False,
       ctx_reply_to_id = r, ctx_thread_id = t, ctx_account_id = None \<rparr>"

definition media_send ::
    "string \<Rightarrow> string option \<Rightarrow> string option \<Rightarrow> string option \<Rightarrow> string \<Rightarrow> send" where
  "media_send to r t caption media_ref = Send_media
     \<lparr> ctx_to = to, ctx_text = (case caption of None \<Rightarrow> [] | Some c \<Rightarrow> c), ctx_media_url = Some media_ref,
       ctx_gif_playback = False, ctx_reply_to_id = r, ctx_thread_id = t, ctx_account_id = None \<rparr>"

definition initial_result :: DeliveryResult where
  "initial_result =
     \<lparr> ok = True, res_message_id = None, res_error = None, retryability = Terminal,
       res_conversation_id = None, res_to_jid = None, res_poll_id = None, error_kind = None \<rparr>"

fun deliver_message ::
    "plugin \<Rightarrow> string \<Rightarrow> string option \<Rightarrow> string option \<Rightarrow> MessageContent \<Rightarrow> send list
      \<Rightarrow> (BindingError + DeliveryResult) \<times> send list"
  and deliver_parts ::
    "plugin \<Rightarrow> string \<Rightarrow> string option \<Rightarrow> string option \<Rightarrow> DeliveryResult \<Rightarrow> MessageContent list \<Rightarrow> send list
      \<Rightarrow> (BindingError + DeliveryResult) \<times> send list" where
  "deliver_message pl to r t (Text text) log =
     (pl log (text_send to r t text), log @ [text_send to r t text])"
| "deliver_message pl to r t (Media caption media_ref mime) log =
     (pl log (media_send to r t caption media_ref), log @ [media_send to r t caption media_ref])"
| "deliver_message pl to r t (Composite parts) log = deliver_parts pl to r t initial_result parts log"
| "deliver_parts pl to r t prev [] log = (Inr prev, log)"
| "deliver_parts pl to r t prev (part # parts) log =
     (case deliver_message pl to r t part log of
        (Inl err, log) \<Rightarrow> (Inl err, log)
      | (Inr res, log) \<Rightarrow> if \<not> ok res then (Inr res, log) else deliver_parts pl to r t res parts log)"

definition handle_delivery_result ::
    "env \<Rightarrow> MessageId \<Rightarrow> BindingError + DeliveryResult \<Rightarrow> 'j MessagePipeline \<Rightarrow> 'j MessagePipeline" where
  "handle_delivery_result e i result p =
     (case result of
        Inr delivery \<Rightarrow>
          if ok delivery then snd (mark_sent e i p)
          else
            let err = (case res_error delivery of Some s \<Rightarrow> s | None \<Rightarrow> ''delivery failed'')
            in if is_retryable (retryability delivery) \<and> can_retry i p
               then snd (mark_retry_with_retry_after e i err (retry_after_ms (retryability delivery)) p)
               else snd (mark_failed e i err p)
      | Inl err \<Rightarrow>
          if is_delivery_backpressure err \<and> can_retry i p
          then snd (mark_retry_with_retry_after e i (BindingError_fmt err) (BindingError_retry_after_ms err) p)
          else snd (mark_failed e i (BindingError_fmt err) p))"

subsection \<open>The pass\<close>

text \<open>What the hook on \<^verbatim>\<open>message_sending\<close> answers: nothing to apply, a cancellation, or overrides for
  the content and the metadata.\<close>

datatype 'j hook_outcome =
    Hook_none
  | Hook_cancelled
  | Hook_payload "MessageContent option" "'j MessageMetadata option"

definition apply_message_hook_overrides ::
    "MessageContent option \<Rightarrow> 'j MessageMetadata option \<Rightarrow> 'j OutboundMessage \<Rightarrow> 'j OutboundMessage" where
  "apply_message_hook_overrides content metadata m =
     (let m = (case content of None \<Rightarrow> m | Some c \<Rightarrow> m\<lparr>msg_content := c\<rparr>)
      in case metadata of None \<Rightarrow> m | Some md \<Rightarrow> m\<lparr>msg_metadata := md\<rparr>)"

record 'j world =
  is_connected :: "string \<Rightarrow> bool"
  sending_hook :: "'j OutboundMessage \<Rightarrow> 'j hook_outcome"
  get_channel :: "string \<Rightarrow> plugin option"

definition expire_all :: "env \<Rightarrow> 'j QueuedMessage list \<Rightarrow> 'j MessagePipeline \<Rightarrow> 'j MessagePipeline" where
  "expire_all e ms p = fold (\<lambda>m p. snd (mark_expired e (qid m) ''message expired before delivery'' p)) ms p"

definition attempt ::
    "'j world \<Rightarrow> env \<Rightarrow> string \<Rightarrow> MessageId \<Rightarrow> 'j OutboundMessage \<Rightarrow> 'j MessagePipeline \<Rightarrow> send list
      \<Rightarrow> bool \<times> 'j MessagePipeline \<times> send list" where
  "attempt w e c i m p log =
     (case mark_sending e i p of
        (Inl _, p) \<Rightarrow> (False, p, log)
      | (Inr _, p) \<Rightarrow>
          (case get_channel w c of
             None \<Rightarrow> (True, snd (mark_failed e i ''no plugin registered for channel'' p), log)
           | Some pl \<Rightarrow>
               let md = msg_metadata m;
                   (result, log) = deliver_message pl
                     (case meta_recipient_id md of None \<Rightarrow> [] | Some r \<Rightarrow> r)
                     (meta_reply_to md) (meta_thread_id md) (msg_content m) log
               in (True, handle_delivery_result e i result p, log)))"

text \<open>The body of the inner loop; the flag says whether the loop goes on.\<close>

definition delivery_iteration ::
    "'j world \<Rightarrow> env \<Rightarrow> string \<Rightarrow> 'j MessagePipeline \<Rightarrow> send list \<Rightarrow> bool \<times> 'j MessagePipeline \<times> send list" where
  "delivery_iteration w e c p log =
     (let work = next_delivery_work_for_channel e c p;
          p = expire_all e (expired work) p
      in if \<not> is_connected w c then (False, p, log)
         else case ready work of
                None \<Rightarrow> (False, p, log)
              | Some msg \<Rightarrow>
                  let i = qid msg; m = message msg
                  in case sending_hook w m of
                       Hook_cancelled \<Rightarrow>
                         (True, (case cancel e i p of
                                   (Inr _, p) \<Rightarrow> p
                                 | (Inl _, p) \<Rightarrow> snd (mark_failed e i ''message cancelled by hook'' p)), log)
                     | Hook_payload content metadata \<Rightarrow>
                         let m = apply_message_hook_overrides content metadata m
                         in attempt w e c i m (snd (update_message i m p)) log
                     | Hook_none \<Rightarrow> attempt w e c i m p log)"

definition MAX_DELIVERIES_PER_CHANNEL_PASS :: usize where "MAX_DELIVERIES_PER_CHANNEL_PASS = 8"

fun process_channel ::
    "'j world \<Rightarrow> (nat \<Rightarrow> env) \<Rightarrow> nat \<Rightarrow> string \<Rightarrow> 'j MessagePipeline \<Rightarrow> send list \<Rightarrow> 'j MessagePipeline \<times> send list" where
  "process_channel w env_of 0 c p log = (p, log)"
| "process_channel w env_of (Suc n) c p log =
     (case delivery_iteration w (env_of n) c p log of
        (True, p, log) \<Rightarrow> process_channel w env_of n c p log
      | (False, p, log) \<Rightarrow> (p, log))"

text \<open>\<open>env_of k n\<close> is the environment of the iteration of channel number \<open>k\<close> with \<open>n\<close> more to go.\<close>

fun process_channel_messages ::
    "'j world \<Rightarrow> (nat \<Rightarrow> nat \<Rightarrow> env) \<Rightarrow> string list \<Rightarrow> 'j MessagePipeline \<Rightarrow> send list
      \<Rightarrow> 'j MessagePipeline \<times> send list" where
  "process_channel_messages w env_of [] p log = (p, log)"
| "process_channel_messages w env_of (c # cs) p log =
     (let (p, log) = process_channel w (env_of (length cs)) MAX_DELIVERIES_PER_CHANNEL_PASS c p log
      in process_channel_messages w env_of cs p log)"


subsection \<open>What is sent\<close>

text \<open>The sends of a content in order, and whether a call succeeded.\<close>

fun leaves :: "string \<Rightarrow> string option \<Rightarrow> string option \<Rightarrow> MessageContent \<Rightarrow> send list" where
  "leaves to r t (Text text) = [text_send to r t text]"
| "leaves to r t (Media caption media_ref mime) = [media_send to r t caption media_ref]"
| "leaves to r t (Composite parts) = concat (map (leaves to r t) parts)"

fun succeeded :: "BindingError + DeliveryResult \<Rightarrow> bool" where
  "succeeded (Inr d) = ok d"
| "succeeded (Inl _) = False"

text \<open>\<open>sent_prefix\<close>: the sends \<open>xs\<close> went out up to some point; all but the last of them succeeded, and
  the whole succeeded exactly if all went out and the last one succeeded too.\<close>

definition sent_prefix :: "plugin \<Rightarrow> send list \<Rightarrow> send list \<Rightarrow> bool \<Rightarrow> send list \<Rightarrow> bool" where
  "sent_prefix pl log xs good log' \<longleftrightarrow> (\<exists>k \<le> length xs. log' = log @ take k xs \<and>
     (\<forall>j < k. succeeded (pl (log @ take j xs) (xs ! j)) \<longleftrightarrow> good \<or> Suc j < k) \<and> (good \<longrightarrow> k = length xs) \<and>
     (\<not> good \<longrightarrow> 0 < k))"

lemma sent_prefix_single: "sent_prefix pl log [x] (succeeded (pl log x)) (log @ [x])"
  unfolding sent_prefix_def by (rule exI [of _ 1]) simp

lemma sent_prefix_empty: "sent_prefix pl log [] True log"
  unfolding sent_prefix_def by simp

lemma sent_prefix_stop: "sent_prefix pl log xs False log' \<Longrightarrow> sent_prefix pl log (xs @ ys) False log'"
  unfolding sent_prefix_def by (elim exE) (rule_tac x = k in exI, auto simp: nth_append)

lemma sent_prefix_append:
  assumes "sent_prefix pl log xs True log1" "sent_prefix pl log1 ys good log2"
  shows "sent_prefix pl log (xs @ ys) good log2"
proof -
  have 1: "log1 = log @ xs" "\<And>j. j < length xs \<Longrightarrow> succeeded (pl (log @ take j xs) (xs ! j))"
    using assms(1) by (auto simp: sent_prefix_def)
  from assms(2) obtain k where k: "k \<le> length ys" "log2 = log1 @ take k ys" "good \<longrightarrow> k = length ys"
      "\<not> good \<longrightarrow> 0 < k"
      "\<And>j. j < k \<Longrightarrow> succeeded (pl (log1 @ take j ys) (ys ! j)) \<longleftrightarrow> good \<or> Suc j < k"
    by (auto simp: sent_prefix_def)
  have "succeeded (pl (log @ take j (xs @ ys)) ((xs @ ys) ! j)) \<longleftrightarrow> good \<or> Suc j < length xs + k"
    if "j < length xs + k" for j
  proof (cases "j < length xs")
    case True
    with 1(2) [OF True] k(4) that show ?thesis by (auto simp: nth_append)
  next
    case False
    with k(5) [of "j - length xs"] 1(1) that show ?thesis by (auto simp: nth_append)
  qed
  then show ?thesis unfolding sent_prefix_def
    using k 1(1) by (intro exI [of _ "length xs + k"]) auto
qed

lemma deliver_sends:
  "sent_prefix pl log (leaves to r t content) (succeeded (fst (deliver_message pl to r t content log)))
     (snd (deliver_message pl to r t content log))"
  "ok prev \<Longrightarrow> sent_prefix pl log (concat (map (leaves to r t) parts))
     (succeeded (fst (deliver_parts pl to r t prev parts log))) (snd (deliver_parts pl to r t prev parts log))"
proof (induction pl to r t content log and pl to r t prev parts log
    rule: deliver_message_deliver_parts.induct)
  case (3 pl to r t parts log)
  then show ?case by (simp add: initial_result_def)
next
  case (5 pl to r t prev part parts log)
  obtain res log1 where eq: "deliver_message pl to r t part log = (res, log1)" by fastforce
  show ?case
  proof (cases "succeeded res")
    case False
    with 5(1) eq have "sent_prefix pl log (leaves to r t part) False log1" by simp
    from sent_prefix_stop [OF this] False eq show ?thesis by (cases res) auto
  next
    case True
    then obtain d where d: "res = Inr d" "ok d" by (cases res) auto
    with 5(1) eq have "sent_prefix pl log (leaves to r t part) True log1" by simp
    from sent_prefix_append [OF this] 5(2) [OF eq [symmetric] d(1)] d eq show ?thesis by simp
  qed
qed (simp_all add: sent_prefix_single sent_prefix_empty)


subsection \<open>A message on its way through the pass\<close>

definition waiting :: "MessageId \<Rightarrow> 'j QueuedMessage \<Rightarrow> 'j MessagePipeline \<Rightarrow> bool" where
  "waiting i m p \<longleftrightarrow> pipeline_wf p \<and> hm_get (messages p) i = Some m \<and> m \<in> set (queue_of p (qchannel m))"

lemma waiting_inv:
  "pipeline_wf p \<Longrightarrow> pipe_inv (queue_of p) (hm_get (messages p)) (expiring_count p) (max_queue_size p)"
  by (simp add: pipeline_wf_def)

lemma waiting_facts: "waiting i m p \<Longrightarrow> qid m = i \<and> in_queue i p \<and> status m \<in> {Queued, Sending}"
proof -
  assume w: "waiting i m p"
  then have wf: "pipeline_wf p" and m: "hm_get (messages p) i = Some m" "m \<in> set (queue_of p (qchannel m))"
    by (simp_all add: waiting_def)
  have "qid m = i" using inv_table [OF waiting_inv [OF wf] m(1)] by (simp add: table_ok_def)
  moreover have "status m \<in> {Queued, Sending}"
    using inv_queue [OF waiting_inv [OF wf], of "qchannel m"] m(2)
    unfolding queue_ok_def list_all_iff by blast
  ultimately show ?thesis using m by (auto simp: in_queue_def)
qed

lemma ready_waiting: "pipeline_wf p \<Longrightarrow> next_for_channel e c p = Some m \<Longrightarrow> waiting (qid m) m p \<and> qchannel m = c"
  using next_ready [of e c p m] entry_channel [OF waiting_inv, of p m c] by (auto simp: waiting_def)

lemma cleanup_keeps_live:
  "hm_wf (messages p) \<Longrightarrow> hm_get (messages p) i = Some m \<Longrightarrow> status m \<in> {Queued, Sending} \<Longrightarrow>
   hm_get (messages (maybe_cleanup_completed e p)) i = Some m"
  by (auto simp: maybe_cleanup_completed_def cleanup_completed_def Let_def hm_simps)

lemma messages_remove [simp]: "messages (remove_from_queue i p) = messages p"
  by (simp add: remove_from_queue_def Let_def split: option.split)

lemma waiting_expired_other:
  assumes w: "waiting i m p" and j: "i \<noteq> j"
  shows "waiting i m (snd (mark_expired e j reason p))"
proof (cases "hm_get (messages p) j")
  case None
  with w show ?thesis by (simp add: mark_expired_def)
next
  case (Some n)
  let ?p = "p\<lparr>messages := hm_modify j (qm_mark_expired (now_millis e) reason) (messages p)\<rparr>"
  have wf: "pipeline_wf (snd (mark_expired e j reason p))" using w by (simp add: waiting_def wf_marks)
  have "hm_get (messages (remove_from_queue j ?p)) i = Some m" "hm_wf (messages (remove_from_queue j ?p))"
    using w j by (simp_all add: waiting_def hm_simps pipeline_wf_def wf_intros)
  with waiting_facts [OF w] have "hm_get (messages (maybe_cleanup_completed e (remove_from_queue j ?p))) i = Some m"
    by (simp add: cleanup_keeps_live)
  moreover have "m \<in> set (queue_of (remove_from_queue j ?p) (qchannel m))"
    using w waiting_facts [OF w] j Some
    by (auto simp: waiting_def remove_from_queue_def queue_of_modify hm_simps Let_def)
  ultimately show ?thesis using Some wf by (simp add: waiting_def mark_expired_def Let_def)
qed

lemma waiting_expire_all:
  "waiting i m p \<Longrightarrow> i \<notin> qid ` set ms \<Longrightarrow> waiting i m (expire_all e ms p)"
  by (induction ms arbitrary: p) (simp_all add: expire_all_def waiting_expired_other)

lemma expire_all_wf: "pipeline_wf p \<Longrightarrow> pipeline_wf (expire_all e ms p)"
  by (induction ms arbitrary: p) (simp_all add: expire_all_def wf_marks)

lemma waiting_change:
  assumes w: "waiting i m p" and f: "\<And>x. message (f x) = message x" "\<And>x. status (f x) \<in> {Queued, Sending}"
  shows "fst (change_both i f p) = Inr () \<and> waiting i (f m) (snd (change_both i f p))"
proof -
  have m: "hm_get (messages p) i = Some m" "m \<in> set (queue_of p (qchannel m))" "qid m = i"
    using w waiting_facts [OF w] by (simp_all add: waiting_def)
  have "distinct (map qid (queue_of p (qchannel m)))"
    using inv_queue [OF waiting_inv, of p "qchannel m"] w by (simp add: waiting_def queue_ok_def)
  then have "f m \<in> set (update_entry i f (queue_of p (qchannel m)))"
    using m by (auto simp: update_entry_map image_iff intro!: bexI [of _ m])
  moreover have "pipeline_wf (snd (change_both i f p))"
    using w m by (auto simp: waiting_def intro!: wf_change_both f)
  ultimately show ?thesis
    using m f(1) by (simp add: change_both_def waiting_def queue_of_modify hm_simps)
qed

lemma waiting_update:
  assumes w: "waiting i q p" and q: "status q = Queued" "msg_id m = i" "msg_channel_id m = qchannel q"
  shows "waiting i (q\<lparr>message := m\<rparr>) (snd (update_message i m p))"
proof -
  let ?f = "\<lambda>x :: 'a QueuedMessage. x\<lparr>message := m\<rparr>"
  have m: "hm_get (messages p) i = Some q" "q \<in> set (queue_of p (qchannel q))" "qid q = i"
    using w waiting_facts [OF w] by (simp_all add: waiting_def)
  have "distinct (map qid (queue_of p (qchannel q)))"
    using inv_queue [OF waiting_inv, of p "qchannel q"] w by (simp add: waiting_def queue_ok_def)
  then have "?f q \<in> set (update_entry i ?f (queue_of p (qchannel q)))"
    using m by (auto simp: update_entry_map image_iff intro!: bexI [of _ q])
  moreover have "pipeline_wf (snd (update_message i m p))"
    using w q by (simp add: waiting_def wf_update_message)
  ultimately show ?thesis
    using m q by (simp add: update_message_def waiting_def Let_def adjust_expiring_queued_count_def
        queue_of_modify hm_simps)
qed

lemma overrides_keep [simp]:
  "msg_id (apply_message_hook_overrides a b m) = msg_id m"
  "msg_channel_id (apply_message_hook_overrides a b m) = msg_channel_id m"
  by (simp_all add: apply_message_hook_overrides_def Let_def split: option.split)

lemma handle_wf: "pipeline_wf p \<Longrightarrow> in_queue i p \<Longrightarrow> pipeline_wf (handle_delivery_result e i res p)"
  using pipe_step_wf [of p "Op_retry e i _ _"]
  by (auto simp: handle_delivery_result_def Let_def wf_marks split: sum.split)

lemma attempt_wf: "waiting i q p \<Longrightarrow> pipeline_wf (fst (snd (attempt w e c i m p log)))"
proof -
  assume "waiting i q p"
  then have *: "fst (mark_sending e i p) = Inr ()"
    "waiting i (qm_mark_sending (now_millis e) q) (snd (mark_sending e i p))"
    using waiting_change [of i q p "qm_mark_sending (now_millis e)"]
    by (simp_all add: mark_sending_def qm_mark_sending_def)
  obtain p' where p': "mark_sending e i p = (Inr (), p')" using *(1) by (cases "mark_sending e i p") auto
  have "pipeline_wf p'" "in_queue i p'" using * waiting_facts p' by (auto simp: waiting_def)
  with p' show ?thesis
    by (auto simp: attempt_def Let_def case_prod_beta wf_marks handle_wf split: option.split)
qed

lemma scan_expired_from:
  "x \<in> set (expired (delivery_scan now b False wk q)) \<Longrightarrow> x \<in> set (expired wk) \<or> x \<in> set q \<and> overdue now x"
proof (induction q arbitrary: wk)
  case (Cons a q)
  show ?case
  proof (cases "status a = Queued \<and> \<not> is_expired now (message a)")
    case True
    with Cons.prems show ?thesis by (auto simp: Let_def scan_blocked split: option.splits if_splits)
  next
    case False
    with Cons.prems Cons.IH [of wk] Cons.IH [of "wk\<lparr>expired := expired wk @ [a]\<rparr>"] show ?thesis
      by (cases "status a = Queued") (auto simp: overdue_def)
  qed
qed simp

lemma expired_other:
  assumes wf: "pipeline_wf p" and r: "next_for_channel e c p = Some m"
  shows "qid m \<notin> qid ` set (expired (next_delivery_work_for_channel e c p))"
proof -
  have sub: "x \<in> set (queue_of p c) \<and> overdue (now_millis e) x"
    if "x \<in> set (expired (next_delivery_work_for_channel e c p))" for x
    using that by (auto simp: next_delivery_work_for_channel_def queue_of_def empty_work_def
        dest!: scan_expired_from split: option.splits)
  have m: "m \<in> set (queue_of p c)" "live (now_millis e) m" using next_ready [OF r] by auto
  have "distinct (map qid (queue_of p c))"
    using inv_queue [OF waiting_inv [OF wf], of c] by (simp add: queue_ok_def)
  then have "x = m" if "x \<in> set (queue_of p c)" "qid x = qid m" for x
    using that m(1) by (metis distinct_map inj_onD)
  with sub m(2) show ?thesis by (fastforce simp: live_def overdue_def)
qed

lemma iteration_wf: "pipeline_wf p \<Longrightarrow> pipeline_wf (fst (snd (delivery_iteration w e c p log)))"
proof -
  assume wf: "pipeline_wf p"
  let ?p = "expire_all e (expired (next_delivery_work_for_channel e c p)) p"
  have wf': "pipeline_wf ?p" using wf by (rule expire_all_wf)
  show ?thesis
  proof (cases "next_for_channel e c p")
    case None
    with wf' show ?thesis by (simp add: delivery_iteration_def next_for_channel_def Let_def)
  next
    case (Some msg)
    have w: "waiting (qid msg) msg ?p"
      using ready_waiting [OF wf Some] expired_other [OF wf Some] by (simp add: waiting_expire_all)
    have q: "status msg = Queued" using next_ready [OF Some] by (simp add: live_def)
    have "pipeline_wf (case cancel e (qid msg) ?p of (Inr _, p) \<Rightarrow> p
        | (Inl _, p) \<Rightarrow> snd (mark_failed e (qid msg) ''message cancelled by hook'' p))"
      using wf_cancel [OF wf', of e "qid msg"]
      by (cases "cancel e (qid msg) ?p") (auto simp: wf_marks split: sum.split)
    then show ?thesis
      using Some wf' attempt_wf [OF w] attempt_wf [OF waiting_update [OF w q]]
      by (simp add: delivery_iteration_def next_for_channel_def Let_def split: hook_outcome.split)
  qed
qed


subsection \<open>The retry budget\<close>

text \<open>How often a message may be attempted: once, or as often as its context allows.\<close>

definition budget :: "'j QueuedMessage \<Rightarrow> nat" where
  "budget m = (if ctx_retry_enabled (context_of m) then max 1 (ctx_max_retries (context_of m)) else 1)"

definition msg_in_budget :: "'j QueuedMessage \<Rightarrow> bool" where
  "msg_in_budget m \<longleftrightarrow> budget m \<le> u32_max \<and> attempts m \<le> budget m \<and> (status m = Queued \<longrightarrow> attempts m < budget m)"

definition within_budget :: "'j MessagePipeline \<Rightarrow> bool" where
  "within_budget p = hm_all (\<lambda>_. msg_in_budget) (messages p)"

lemma within_budget_iff:
  "hm_wf (messages p) \<Longrightarrow> within_budget p \<longleftrightarrow> (\<forall>i m. hm_get (messages p) i = Some m \<longrightarrow> msg_in_budget m)"
  by (simp add: within_budget_def hm.allv_iff)

lemma budget_modify:
  assumes "hm_wf (messages p)" "within_budget p" "messages p' = hm_modify i f (messages p)"
    and "\<And>m. hm_get (messages p) i = Some m \<Longrightarrow> msg_in_budget m \<Longrightarrow> msg_in_budget (f m)"
  shows "within_budget p'"
  using assms by (auto simp: within_budget_def hm.allv_iff intro!: hm.allv_modi)

lemma budget_update_field [simp]:
  "budget (m\<lparr>status := s\<rparr>) = budget m" "budget (m\<lparr>attempts := n\<rparr>) = budget m"
  "budget (m\<lparr>last_error := l\<rparr>) = budget m" "budget (m\<lparr>updated_at := u\<rparr>) = budget m"
  "budget (m\<lparr>retry_not_before_ms := r\<rparr>) = budget m" "budget (m\<lparr>message := x\<rparr>) = budget m"
  by (simp_all add: budget_def)

lemma can_retry_budget: "qm_can_retry m \<Longrightarrow> attempts m < budget m"
  by (simp add: qm_can_retry_def budget_def)

lemma budget_marks:
  "msg_in_budget m \<Longrightarrow> msg_in_budget (qm_mark_sent now m)"
  "msg_in_budget m \<Longrightarrow> msg_in_budget (qm_mark_failed now err m)"
  "msg_in_budget m \<Longrightarrow> msg_in_budget (qm_mark_expired now err m)"
  "msg_in_budget m \<Longrightarrow> msg_in_budget (qm_mark_cancelled now m)"
  "msg_in_budget m \<Longrightarrow> msg_in_budget (m\<lparr>message := x\<rparr>)"
  "msg_in_budget m \<Longrightarrow> status m = Queued \<Longrightarrow> msg_in_budget (qm_mark_sending now m)"
  "msg_in_budget m \<Longrightarrow> qm_can_retry m \<Longrightarrow> msg_in_budget (qm_mark_retry now err r m)"
  by (simp_all add: msg_in_budget_def qm_defs u32_add_def Let_def can_retry_budget)

lemma budget_cleanup: "pipeline_wf p \<Longrightarrow> within_budget p \<Longrightarrow> within_budget (maybe_cleanup_completed e p)"
  by (simp add: maybe_cleanup_completed_def cleanup_completed_def Let_def within_budget_def
      pipeline_wf_def hm.allv_ret_weaken)

lemma budget_cong: "messages p' = messages p \<Longrightarrow> within_budget p' = within_budget p"
  by (simp add: within_budget_def)

lemma budget_finish:
  assumes "pipeline_wf p" "within_budget p"
  shows "within_budget (snd (mark_sent e i p)) \<and> within_budget (snd (mark_failed e i err p)) \<and>
    within_budget (snd (mark_expired e i err p)) \<and> within_budget (snd (cancel e i p))"
proof (cases "hm_get (messages p) i")
  case None
  with assms show ?thesis by (simp add: mark_sent_def mark_failed_def mark_expired_def cancel_def)
next
  case (Some m)
  have wf: "hm_wf (messages p)" using assms(1) by (simp add: pipeline_wf_def)
  have b: "within_budget q" if "messages q = hm_modify i f (messages p)" "\<And>m. msg_in_budget m \<Longrightarrow> msg_in_budget (f m)"
    for q :: "'a MessagePipeline" and f
    using budget_modify [OF wf assms(2) that(1)] that(2) by blast
  have c: "within_budget (maybe_cleanup_completed e q)"
    if "messages q = hm_modify i f (messages p)" "\<And>m. msg_in_budget m \<Longrightarrow> msg_in_budget (f m)"
    for q :: "'a MessagePipeline" and f
  proof -
    have "hm_wf (messages q)" using wf that(1) by (simp add: wf_intros)
    with b [OF that] show ?thesis
      by (simp add: maybe_cleanup_completed_def cleanup_completed_def Let_def within_budget_def hm.allv_ret_weaken)
  qed
  show ?thesis using Some assms(2)
    by (simp add: mark_sent_def mark_failed_def mark_expired_def cancel_def Let_def
        c [where f = "qm_mark_sent (now_millis e)", OF _ budget_marks(1)]
        c [where f = "qm_mark_failed (now_millis e) err", OF _ budget_marks(2)]
        c [where f = "qm_mark_expired (now_millis e) err", OF _ budget_marks(3)]
        b [where f = "qm_mark_cancelled (now_millis e)", OF _ budget_marks(4)])
qed

lemma budget_update: "pipeline_wf p \<Longrightarrow> within_budget p \<Longrightarrow> within_budget (snd (update_message i m p))"
  by (auto simp: update_message_def Let_def adjust_expiring_queued_count_def pipeline_wf_def
      intro!: budget_modify [where p = p and f = "\<lambda>q. q\<lparr>message := m\<rparr>" and i = i] budget_marks split: option.split)

lemma budget_handle:
  assumes "pipeline_wf p" "within_budget p"
  shows "within_budget (handle_delivery_result e i res p)"
proof -
  have wf: "hm_wf (messages p)" using assms(1) by (simp add: pipeline_wf_def)
  have "within_budget (snd (mark_retry_with_retry_after e i err r p))" if "can_retry i p" for err r
  proof (cases "hm_get (messages p) i")
    case None
    with that show ?thesis by (simp add: can_retry_def)
  next
    case (Some m)
    with that have "qm_can_retry m" by (simp add: can_retry_def)
    with Some show ?thesis
      by (auto simp: mark_retry_with_retry_after_def change_both_def budget_marks
          intro!: budget_modify [OF wf assms(2), where f = "qm_mark_retry (now_millis e) err r" and i = i])
  qed
  with budget_finish [OF assms] show ?thesis
    by (simp add: handle_delivery_result_def Let_def split: sum.split)
qed

lemma budget_attempt:
  assumes w: "waiting i q p" "status q = Queued" and b: "within_budget p"
  shows "within_budget (fst (snd (attempt w' e c i m p log)))"
proof -
  have *: "fst (mark_sending e i p) = Inr ()" "pipeline_wf (snd (mark_sending e i p))"
    using waiting_change [OF w(1), of "qm_mark_sending (now_millis e)"]
    by (simp_all add: mark_sending_def qm_mark_sending_def waiting_def)
  have "hm_get (messages p) i = Some q" "hm_wf (messages p)" using w(1) by (simp_all add: waiting_def pipeline_wf_def)
  then have "within_budget (snd (mark_sending e i p))"
    using w(2) b by (auto simp: mark_sending_def change_both_def budget_marks
        intro!: budget_modify [where p = p and f = "qm_mark_sending (now_millis e)" and i = i])
  with * budget_handle [OF *(2)] budget_finish [OF *(2)] show ?thesis
    by (cases "mark_sending e i p")
      (auto simp: attempt_def Let_def case_prod_beta split: option.split sum.split)
qed

lemma budget_expire_all: "pipeline_wf p \<Longrightarrow> within_budget p \<Longrightarrow> within_budget (expire_all e ms p)"
  by (induction ms arbitrary: p) (simp_all add: expire_all_def budget_finish wf_marks)

lemma budget_iteration:
  assumes wf: "pipeline_wf p" and b: "within_budget p"
  shows "within_budget (fst (snd (delivery_iteration w e c p log)))"
proof -
  let ?p = "expire_all e (expired (next_delivery_work_for_channel e c p)) p"
  have wf': "pipeline_wf ?p" and b': "within_budget ?p" using wf b by (simp_all add: expire_all_wf budget_expire_all)
  show ?thesis
  proof (cases "next_for_channel e c p")
    case None
    with b' show ?thesis by (simp add: delivery_iteration_def next_for_channel_def Let_def)
  next
    case (Some msg)
    have w: "waiting (qid msg) msg ?p"
      using ready_waiting [OF wf Some] expired_other [OF wf Some] by (simp add: waiting_expire_all)
    have q: "status msg = Queued" using next_ready [OF Some] by (simp add: live_def)
    have "within_budget (case cancel e (qid msg) ?p of (Inr _, p) \<Rightarrow> p
        | (Inl _, p) \<Rightarrow> snd (mark_failed e (qid msg) ''message cancelled by hook'' p))"
      using wf_cancel [OF wf', of e "qid msg"] budget_finish [OF wf' b', of e "qid msg"]
        budget_finish [of "snd (cancel e (qid msg) ?p)" e "qid msg"]
      by (cases "cancel e (qid msg) ?p") (auto split: sum.split)
    then show ?thesis
      using Some b' budget_attempt [OF w q b'] budget_attempt [OF waiting_update [OF w q]] q
        budget_update [OF wf' b']
      by (simp add: delivery_iteration_def next_for_channel_def Let_def split: hook_outcome.split)
  qed
qed


subsection \<open>How an attempt ends\<close>

fun transient :: "BindingError + DeliveryResult \<Rightarrow> bool" where
  "transient (Inr d) = is_retryable (retryability d)"
| "transient (Inl err) = is_delivery_backpressure err"

definition settled :: "BindingError + DeliveryResult \<Rightarrow> 'j QueuedMessage \<Rightarrow> DeliveryStatus" where
  "settled res m = (if succeeded res then Sent else if transient res \<and> qm_can_retry m then Queued else Failed)"

lemma cleanup_keeps_recent:
  assumes "hm_wf (messages p)" "hm_get (messages p) i = Some m" "updated_at m = now_millis e" "int (env_now e) \<le> i64_max"
  shows "hm_get (messages (maybe_cleanup_completed e p)) i = Some m"
proof -
  have "now_millis e = int (env_now e)"
    using assms(4) by (simp add: now_millis_def i64_wrap_id i64_min_def)
  then have "i64_wrap (now_millis e - COMPLETED_MESSAGE_TTL_MS) < now_millis e"
    using assms(4) by (simp add: i64_wrap_id i64_min_def i64_max_def COMPLETED_MESSAGE_TTL_MS_def)
  with assms show ?thesis
    by (auto simp: maybe_cleanup_completed_def cleanup_completed_def Let_def hm_simps)
qed

lemma finish_status:
  assumes "hm_wf (messages p)" "hm_get (messages p) i = Some m" "int (env_now e) \<le> i64_max"
  shows "get_status i (snd (mark_sent e i p)) = Some Sent" "get_status i (snd (mark_failed e i err p)) = Some Failed"
proof -
  have *: "get_status i (maybe_cleanup_completed e (remove_from_queue i q)) = Some (status (f m))"
    if "messages q = hm_modify i f (messages p)" "updated_at (f m) = now_millis e"
    for q :: "'a MessagePipeline" and f
    using cleanup_keeps_recent [of "remove_from_queue i q" i "f m" e] assms that
    by (simp add: get_status_def hm_simps wf_intros)
  show "get_status i (snd (mark_sent e i p)) = Some Sent" "get_status i (snd (mark_failed e i err p)) = Some Failed"
    using assms(2) * [of _ "qm_mark_sent (now_millis e)"] * [of _ "qm_mark_failed (now_millis e) err"]
    by (simp_all add: mark_sent_def mark_failed_def Let_def) (simp_all add: qm_defs)
qed

lemma handle_status:
  assumes "waiting i m p" "int (env_now e) \<le> i64_max"
  shows "get_status i (handle_delivery_result e i res p) = Some (settled res m)"
proof -
  have p: "hm_get (messages p) i = Some m" "hm_wf (messages p)"
    using assms(1) by (simp_all add: waiting_def pipeline_wf_def)
  have "get_status i (snd (mark_retry_with_retry_after e i err r p)) = Some Queued" for err r
    using p by (simp add: mark_retry_with_retry_after_def change_both_def get_status_def hm_simps qm_defs Let_def)
  with finish_status [OF p(2,1) assms(2)] p(1) show ?thesis
    by (cases res) (auto simp: handle_delivery_result_def settled_def can_retry_def Let_def)
qed

subsection \<open>The pipeline together with its worker\<close>

datatype 'j sys_op =
    Client_queue env "'j OutboundMessage" OutboundContext "string option"
  | Client_cancel env MessageId
  | Delivery_pass "'j world" "nat \<Rightarrow> nat \<Rightarrow> env"

fun sys_step :: "'j sys_op \<Rightarrow> 'j MessagePipeline \<Rightarrow> 'j MessagePipeline" where
  "sys_step (Client_queue e m ctx key) p = snd (queue_with_idempotency e m ctx key p)"
| "sys_step (Client_cancel e i) p = snd (cancel e i p)"
| "sys_step (Delivery_pass w env_of) p =
     fst (process_channel_messages w env_of (channels_with_messages p) p [])"

fun sys_op_ok :: "'j sys_op \<Rightarrow> 'j MessagePipeline \<Rightarrow> bool" where
  "sys_op_ok (Client_queue e m ctx key) p \<longleftrightarrow> hm_get (messages p) (msg_id m) = None \<and> ctx_max_retries ctx \<le> u32_max"
| "sys_op_ok _ p = True"

definition sys_wf :: "'j MessagePipeline \<Rightarrow> bool" where
  "sys_wf p \<longleftrightarrow> pipeline_wf p \<and> within_budget p"

lemma sys_wf_channel: "sys_wf p \<Longrightarrow> sys_wf (fst (process_channel w env_of n c p log))"
proof (induction n arbitrary: p log)
  case (Suc n)
  then have "sys_wf (fst (snd (delivery_iteration w (env_of n) c p log)))"
    by (simp add: sys_wf_def iteration_wf budget_iteration)
  with Suc.IH show ?case by (auto split: prod.split bool.split)
qed simp

lemma sys_wf_pass: "sys_wf p \<Longrightarrow> sys_wf (fst (process_channel_messages w env_of cs p log))"
proof (induction cs arbitrary: p log)
  case (Cons c cs)
  with sys_wf_channel [OF Cons.prems] show ?case by (simp add: case_prod_beta Let_def)
qed simp

lemma budget_queue:
  assumes "pipeline_wf p" "within_budget p" "ctx_max_retries ctx \<le> u32_max"
  shows "within_budget (snd (queue_with_idempotency e m ctx key p))"
proof -
  have "msg_in_budget (QueuedMessage_new (now_millis e) m ctx)"
    using assms(3) by (simp add: msg_in_budget_def budget_def QueuedMessage_new_def u32_max_def less_max_iff_disj)
  with assms have "hm_all (\<lambda>_. msg_in_budget) (hm_insert (msg_id m) (QueuedMessage_new (now_millis e) m ctx) (messages p))"
    by (simp add: within_budget_def pipeline_wf_def hm.allv_ins)
  with assms(2) show ?thesis
    by (auto simp: queue_with_idempotency_def Let_def within_budget_def split: option.split)
qed

interpretation sys_machine: invariant_machine sys_step sys_wf sys_op_ok
proof
  fix p a
  assume "sys_wf p" "sys_op_ok a p"
  then show "sys_wf (sys_step a p)"
    by (cases a) (simp_all add: sys_wf_pass, simp_all add: sys_wf_def wf_queue wf_cancel budget_queue budget_finish)
qed

subsection \<open>Properties\<close>

definition ex_plugin :: plugin where
  "ex_plugin log s = (if log = [] then Inr initial_result else Inl (Backpressure ''busy'' None))"

definition ex_world :: "unit world" where
  "ex_world = \<lparr> is_connected = (\<lambda>_. True), sending_hook = (\<lambda>_. Hook_none), get_channel = (\<lambda>_. Some ex_plugin) \<rparr>"

abbreviation ex_queued :: "unit QueuedMessage" where
  "ex_queued \<equiv> QueuedMessage_new 1 (ex_message ''m'' 0) OutboundContext_new"

lemma ex_next: "next_for_channel (ex_env t []) ''c'' ex_pipeline = Some ex_queued"
  by (simp add: next_for_channel_eq ex_pipeline_eq pipe_eval fifo_ready_def live_def held_back_def is_expired_def)

lemma ex_deliver:
  "deliver_message ex_plugin [] None None (msg_content (message ex_queued)) [] =
     (Inr initial_result, [text_send [] None None ''hi''])"
  "msg_metadata (message ex_queued) = MessageMetadata_default"
  by (simp_all add: QueuedMessage_new_def ex_message_def OutboundMessage_new_def ex_plugin_def
      MessageMetadata_default_def)

lemma ex_message_parts:
  "msg_content (ex_message ''m'' 0) = Text ''hi''" "msg_metadata (ex_message ''m'' 0) = MessageMetadata_default"
  by (simp_all add: ex_message_def OutboundMessage_new_def MessageMetadata_default_def)

text \<open>The pipeline after the message of \<open>ex_pipeline\<close> has been sent.\<close>

lemma ex_iteration:
  "delivery_iteration ex_world (ex_env 5 []) ''c'' ex_pipeline [] =
     (True, ex_pipeline\<lparr>queues := [(''c'', [])], messages := [(''m'', qm_mark_sent 5 (qm_mark_sending 5 ex_queued))],
        stats_sent := 1\<rparr>, [text_send [] None None ''hi''])"
proof -
  have work: "next_delivery_work_for_channel (ex_env 5 []) ''c'' ex_pipeline = empty_work\<lparr>ready := Some ex_queued\<rparr>"
    by (simp add: next_delivery_work_for_channel_def ex_pipeline_eq pipe_eval empty_work_def is_expired_def)
  have "qid ex_queued = ''m''" "now_millis (ex_env 5 []) = 5"
    by (simp_all add: QueuedMessage_new_def ex_message_sel) (simp add: pipe_eval)
  then show ?thesis
    by (simp add: delivery_iteration_def work empty_work_def expire_all_def ex_world_def ex_deliver
        MessageMetadata_default_def attempt_def initial_result_def Let_def)
      (simp add: mark_sending_def change_both_def ex_pipeline_eq handle_delivery_result_def initial_result_def
        mark_sent_def remove_from_queue_def decrement_expiring_queued_count_by_def maybe_cleanup_completed_def
        MAX_COMPLETED_MESSAGES_def queue_of_def hm_eval u64_add_def u64_max_def Let_def
        qm_defs QueuedMessage_new_def ex_message_sel ex_message_parts MessageMetadata_default_def
        ex_plugin_def text_send_def)
qed



text \<open>
  An attempt settles the message: it ends as sent if every part went out, goes back to the queue
  if the failure is transient and attempts are left, and fails otherwise; it never stays in flight.
\<close>

theorem delivery_attempt_settles:
  assumes "pipeline_wf p" "int (env_now e) \<le> i64_max" "is_connected w c"
    and "next_for_channel e c p = Some msg" "sending_hook w (message msg) = Hook_none"
    and "get_channel w c = Some pl" "md = msg_metadata (message msg)"
    and "deliver_message pl (case meta_recipient_id md of None \<Rightarrow> [] | Some r \<Rightarrow> r) (meta_reply_to md)
      (meta_thread_id md) (msg_content (message msg)) log = (res, log')"
  shows "\<exists>p'. delivery_iteration w e c p log = (True, p', log') \<and>
    get_status (qid msg) p' = Some (settled res (qm_mark_sending (now_millis e) msg))"
proof -
  let ?p = "expire_all e (expired (next_delivery_work_for_channel e c p)) p"
  have w: "waiting (qid msg) msg ?p"
    using ready_waiting [OF assms(1,4)] expired_other [OF assms(1,4)] by (simp add: waiting_expire_all)
  have *: "fst (mark_sending e (qid msg) ?p) = Inr ()"
    "waiting (qid msg) (qm_mark_sending (now_millis e) msg) (snd (mark_sending e (qid msg) ?p))"
    using waiting_change [OF w, of "qm_mark_sending (now_millis e)"]
    by (simp_all add: mark_sending_def qm_mark_sending_def)
  then have "delivery_iteration w e c p log =
      (True, handle_delivery_result e (qid msg) res (snd (mark_sending e (qid msg) ?p)), log')"
    using assms(3-8) by (cases "mark_sending e (qid msg) ?p")
      (simp add: delivery_iteration_def next_for_channel_def attempt_def Let_def)
  with handle_status [OF *(2) assms(2), of res] show ?thesis by simp
qed

theorem delivery_attempt_settles_witness:
  "\<exists>p'. delivery_iteration ex_world (ex_env 7 []) ''c'' ex_pipeline [] =
       (True, p', [text_send [] None None ''hi'']) \<and> get_status ''m'' p' = Some Sent"
proof -
  have "int (env_now (ex_env 7 [])) \<le> i64_max" "is_connected ex_world ''c''"
    "sending_hook ex_world (message ex_queued) = Hook_none" "get_channel ex_world ''c'' = Some ex_plugin"
    by (simp_all add: ex_env_def i64_max_def ex_world_def)
  moreover have "qid ex_queued = ''m''" by (simp add: QueuedMessage_new_def ex_message_sel)
  ultimately show ?thesis
    using delivery_attempt_settles [OF ex_pipeline_wf _ _ ex_next _ _ refl, of 7 ex_world ex_plugin "[]"
        "Inr initial_result" "[text_send [] None None ''hi'']"] ex_deliver
    by (simp add: MessageMetadata_default_def settled_def initial_result_def)
qed

text \<open>
  A composite message goes out part by part in order and stops at the first part that fails:
  what is sent is a prefix of its parts, every part but the last of that prefix succeeded, and the
  whole counts as delivered exactly if all parts were sent and succeeded.
\<close>

theorem composite_sent_in_order:
  "sent_prefix pl log (leaves to r t content) (succeeded (fst (deliver_message pl to r t content log)))
     (snd (deliver_message pl to r t content log))"
  by (rule deliver_sends)

end
