(* ===== verification/Cron_Expr.thy ===== *)
theory Cron_Expr
  imports Rust_Text
begin

text \<open>
  Cron expressions and the computation of a job's next run
  (\<^verbatim>\<open>src/cron/mod.rs\<close>: \<^verbatim>\<open>CronExpr\<close>, \<^verbatim>\<open>CronParseError\<close>, \<^verbatim>\<open>next_after_in_tz\<close>, \<^verbatim>\<open>CronSchedule\<close>,
  \<^verbatim>\<open>compute_next_run\<close>).

  \<^item> Text is ASCII: \<^verbatim>\<open>split_whitespace\<close> splits at ASCII white space.
  \<^item> The two expansion loops \<^verbatim>\<open>while v <= max { set.insert(v); v += s; }\<close> are one
    \<^theory_text>\<open>partial_function (option)\<close> over wrapping 32-bit addition: \<open>None\<close> is a loop that
    never ends. The parser's results are therefore options of results, and that the parser
    always returns is a theorem.
  \<^item> The crates \<^verbatim>\<open>chrono\<close> and \<^verbatim>\<open>chrono_tz\<close> are a parameter, the record \<open>chrono\<close>. An instant
    (\<^verbatim>\<open>DateTime<Utc>\<close>) is an integer number of nanoseconds since the epoch, and adding a
    \<^verbatim>\<open>Duration\<close> is addition. \<open>chrono_ok\<close> states the documented behaviour relied on.
\<close>

subsection \<open>Parsing a cron expression\<close>

datatype CronParseError =
    WrongFieldCount usize
  | InvalidField string string

type_synonym 'a cron_parse = "(CronParseError + 'a) option"

text \<open>The \<^verbatim>\<open>?\<close> operator, in code that may also fail to return.\<close>

definition cron_try :: "'a cron_parse \<Rightarrow> ('a \<Rightarrow> 'b cron_parse) \<Rightarrow> 'b cron_parse" where
  "cron_try m k = (case m of None \<Rightarrow> None | Some (Inl e) \<Rightarrow> Some (Inl e) | Some (Inr a) \<Rightarrow> k a)"

lemma cron_try_simps [simp]:
  "cron_try None k = None" "cron_try (Some (Inl e)) k = Some (Inl e)"
  "cron_try (Some (Inr a)) k = k a"
  by (simp_all add: cron_try_def)

partial_function (option) expand_loop :: "u32 \<Rightarrow> u32 \<Rightarrow> u32 \<Rightarrow> nat set \<Rightarrow> nat set option" where
  "expand_loop v hi s acc =
     (if v \<le> hi then expand_loop (u32_add v s) hi s (insert v acc) else Some acc)"

text \<open>The step of an item (\<^verbatim>\<open>part.split_once('/')\<close>): the range text and the step.\<close>

definition parse_step :: "string \<Rightarrow> string \<Rightarrow> CronParseError + (string \<times> u32 option)" where
  "parse_step part name =
     (case split_once CHR ''/'' part of
        None \<Rightarrow> Inr (part, None)
      | Some (r, s) \<Rightarrow>
          (case parse_u32 s of
             None \<Rightarrow> Inl (InvalidField part (''invalid step '' @ [CHR 0x27] @ s @ [CHR 0x27] @ '' in '' @ name))
           | Some step \<Rightarrow>
               if step = 0 then Inl (InvalidField part (''step cannot be 0 in '' @ name))
               else if step > 64 then
                 Inl (InvalidField part
                   (''step '' @ string_of_nat step @ '' exceeds maximum allowed step (64) in '' @ name))
               else Inr (r, Some step)))"

definition parse_field_part :: "string \<Rightarrow> u32 \<Rightarrow> u32 \<Rightarrow> string \<Rightarrow> nat set cron_parse" where
  "parse_field_part part mn mx name =
     (let make_err = (\<lambda>reason. Some (Inl (InvalidField part reason)));
          quoted = (\<lambda>s. [CHR 0x27] @ s @ [CHR 0x27]);
          num = string_of_nat
      in case parse_step part name of
           Inl e \<Rightarrow> Some (Inl e)
         | Inr (range_part, step) \<Rightarrow>
             if range_part = ''*'' then
               map_option Inr (expand_loop mn mx (case step of None \<Rightarrow> 1 | Some s \<Rightarrow> s) {})
             else (case split_once CHR ''-'' range_part of
               Some (lo_s, hi_s) \<Rightarrow>
                 (case parse_u32 lo_s of
                    None \<Rightarrow> make_err (''invalid range start '' @ quoted lo_s @ '' in '' @ name)
                  | Some lo \<Rightarrow>
                      (case parse_u32 hi_s of
                         None \<Rightarrow> make_err (''invalid range end '' @ quoted hi_s @ '' in '' @ name)
                       | Some hi \<Rightarrow>
                           if lo < mn \<or> hi > mx then
                             make_err (''range '' @ num lo @ ''-'' @ num hi @ '' out of bounds ('' @ num mn
                               @ ''-'' @ num mx @ '') for '' @ name)
                           else if lo > hi then
                             make_err (''range start '' @ num lo @ '' > end '' @ num hi @ '' in '' @ name)
                           else map_option Inr (expand_loop lo hi (case step of None \<Rightarrow> 1 | Some s \<Rightarrow> s) {})))
             | None \<Rightarrow>
                 (case parse_u32 range_part of
                    None \<Rightarrow> make_err (''invalid value '' @ quoted range_part @ '' in '' @ name)
                  | Some val \<Rightarrow>
                      if val < mn \<or> val > mx then
                        make_err (''value '' @ num val @ '' out of bounds ('' @ num mn @ ''-'' @ num mx
                          @ '') for '' @ name)
                      else (case step of
                              Some s \<Rightarrow> map_option Inr (expand_loop val mx s {})
                            | None \<Rightarrow> Some (Inr {val})))))"

text \<open>The loop over the comma-separated items, accumulating \<^verbatim>\<open>result.extend(values)\<close>.\<close>

fun parse_parts :: "string list \<Rightarrow> u32 \<Rightarrow> u32 \<Rightarrow> string \<Rightarrow> nat set \<Rightarrow> nat set cron_parse" where
  "parse_parts [] mn mx name result = Some (Inr result)"
| "parse_parts (p # ps) mn mx name result =
     cron_try (parse_field_part p mn mx name)
       (\<lambda>values. parse_parts ps mn mx name (result \<union> values))"

definition parse_field :: "string \<Rightarrow> u32 \<Rightarrow> u32 \<Rightarrow> string \<Rightarrow> nat set cron_parse" where
  "parse_field field mn mx name =
     cron_try (parse_parts (split_by (\<lambda>c. c = CHR '','') field) mn mx name {})
       (\<lambda>result. if result = {} then
                    Some (Inl (InvalidField field (name @ '' field produced no valid values'')))
                  else Some (Inr result))"

definition parse_dow_field :: "string \<Rightarrow> nat set cron_parse" where
  "parse_dow_field field =
     cron_try (parse_parts (split_by (\<lambda>c. c = CHR '','') field) 0 7 ''day-of-week'' {})
       (\<lambda>result.
          let result = (if 7 \<in> result then insert 0 (result - {7}) else result)
          in if result = {} then
               Some (Inl (InvalidField field ''day-of-week field produced no valid values''))
             else Some (Inr result))"

record CronExpr =
  minutes :: "nat set"
  hours :: "nat set"
  days_of_month :: "nat set"
  months :: "nat set"
  days_of_week :: "nat set"

definition CronExpr_parse :: "string \<Rightarrow> CronExpr cron_parse" where
  "CronExpr_parse expr =
     (let fields = split_whitespace expr
      in if length fields \<noteq> 5 then Some (Inl (WrongFieldCount (length fields)))
         else
           cron_try (parse_field (fields ! 0) 0 59 ''minute'') (\<lambda>mi.
           cron_try (parse_field (fields ! 1) 0 23 ''hour'') (\<lambda>ho.
           cron_try (parse_field (fields ! 2) 1 31 ''day-of-month'') (\<lambda>dm.
           cron_try (parse_field (fields ! 3) 1 12 ''month'') (\<lambda>mo.
           cron_try (parse_dow_field (fields ! 4)) (\<lambda>dw.
             Some (Inr \<lparr>minutes = mi, hours = ho, days_of_month = dm, months = mo,
                        days_of_week = dw\<rparr>)))))))"

subsection \<open>Matching and the search for the next minute\<close>

text \<open>What \<^verbatim>\<open>Datelike\<close>/\<^verbatim>\<open>Timelike\<close> read from a date-time; \<open>wc_dow\<close> is
  \<^verbatim>\<open>weekday().num_days_from_sunday()\<close>.\<close>

record wall_clock =
  wc_nanosecond :: nat
  wc_second :: nat
  wc_minute :: nat
  wc_hour :: nat
  wc_day :: nat
  wc_month :: nat
  wc_dow :: nat

record 'tz chrono =
  utc_clock :: "int \<Rightarrow> wall_clock"
  local_clock :: "'tz \<Rightarrow> int \<Rightarrow> wall_clock"
  local_minus_utc :: "'tz \<Rightarrow> int \<Rightarrow> int"
  with_second :: "int \<Rightarrow> nat \<Rightarrow> int option"
  with_nanosecond :: "int \<Rightarrow> nat \<Rightarrow> int option"
  timestamp_millis_opt :: "i64 \<Rightarrow> int option"
  timestamp_millis :: "int \<Rightarrow> i64"
  parse_tz :: "string \<Rightarrow> 'tz option"

abbreviation second_ns :: int where "second_ns \<equiv> 1000000000"
abbreviation minute_ns :: int where "minute_ns \<equiv> 60000000000"
abbreviation hour_ns :: int where "hour_ns \<equiv> 3600000000000"

definition matches_components :: "CronExpr \<Rightarrow> u32 \<Rightarrow> u32 \<Rightarrow> u32 \<Rightarrow> u32 \<Rightarrow> u32 \<Rightarrow> bool" where
  "matches_components e minute hour day month dow \<longleftrightarrow>
     minute \<in> minutes e \<and> hour \<in> hours e \<and> day \<in> days_of_month e \<and> month \<in> months e \<and>
     dow \<in> days_of_week e"

definition CronExpr_matches :: "'tz chrono \<Rightarrow> CronExpr \<Rightarrow> int \<Rightarrow> bool" where
  "CronExpr_matches C e dt =
     (let w = utc_clock C dt
      in matches_components e (wc_minute w) (wc_hour w) (wc_day w) (wc_month w) (wc_dow w))"

definition max_iterations :: nat where
  "max_iterations = 2100000"

text \<open>The first candidate of a search: the next whole minute, normalised.\<close>

definition first_candidate :: "'tz chrono \<Rightarrow> int \<Rightarrow> int" where
  "first_candidate C after =
     (let w = utc_clock C after;
          c = after + (60 - int (wc_second w)) * second_ns - int (wc_nanosecond w);
          c1 = (case with_second C c 0 of Some x \<Rightarrow> x | None \<Rightarrow> c);
          c2 = (case with_nanosecond C c1 0 of Some x \<Rightarrow> x | None \<Rightarrow> c)
      in if c2 \<le> after then c2 + minute_ns else c2)"

text \<open>\<^verbatim>\<open>for _ in 0..n { if accept(candidate) { return Some(candidate) } candidate += 1 minute }\<close>\<close>

fun search_minutes :: "(int \<Rightarrow> bool) \<Rightarrow> nat \<Rightarrow> int \<Rightarrow> int option" where
  "search_minutes accept n candidate =
     (if n = 0 then None
      else if accept candidate then Some candidate
      else search_minutes accept (n - 1) (candidate + minute_ns))"

declare search_minutes.simps [simp del]

definition next_after :: "'tz chrono \<Rightarrow> CronExpr \<Rightarrow> int \<Rightarrow> int option" where
  "next_after C e after =
     search_minutes (CronExpr_matches C e) max_iterations (first_candidate C after)"

text \<open>
  A local candidate is taken when its wall clock matches and it is not the second occurrence
  of an ambiguous reading (the offset decreased since one hour ago and the clock shows the
  same hour and minute).
\<close>

definition second_occurrence :: "'tz chrono \<Rightarrow> 'tz \<Rightarrow> int \<Rightarrow> bool" where
  "second_occurrence C tz candidate =
     (let loc = local_clock C tz candidate;
          ago = candidate - hour_ns;
          loc_ago = local_clock C tz ago
      in local_minus_utc C tz candidate < local_minus_utc C tz ago \<and>
         wc_hour loc_ago = wc_hour loc \<and> wc_minute loc_ago = wc_minute loc)"

definition matches_in_tz :: "'tz chrono \<Rightarrow> 'tz \<Rightarrow> CronExpr \<Rightarrow> int \<Rightarrow> bool" where
  "matches_in_tz C tz e candidate =
     (let w = local_clock C tz candidate
      in matches_components e (wc_minute w) (wc_hour w) (wc_day w) (wc_month w) (wc_dow w) \<and>
         \<not> second_occurrence C tz candidate)"

definition next_after_in_tz :: "'tz chrono \<Rightarrow> CronExpr \<Rightarrow> int \<Rightarrow> 'tz \<Rightarrow> int option" where
  "next_after_in_tz C e after tz =
     search_minutes (matches_in_tz C tz e) max_iterations (first_candidate C after)"

subsection \<open>The next run of a schedule\<close>

datatype CronSchedule =
    At u64
  | Every u64 "u64 option"
  | Cron string "string option"
  | UnknownSchedule

definition eq_ignore_ascii_case_utc :: "string \<Rightarrow> bool" where
  "eq_ignore_ascii_case_utc s \<longleftrightarrow>
     length s = 3 \<and> s ! 0 \<in> {CHR ''U'', CHR ''u''} \<and> s ! 1 \<in> {CHR ''T'', CHR ''t''} \<and>
     s ! 2 \<in> {CHR ''C'', CHR ''c''}"

text \<open>
  \<^verbatim>\<open>compute_next_run\<close>: arithmetic on milliseconds is 64-bit and wraps. An expression that does
  not parse gives \<open>None\<close>; the case of a parser that does not return never arises.
\<close>

definition compute_next_run :: "'tz chrono \<Rightarrow> CronSchedule \<Rightarrow> u64 \<Rightarrow> u64 option" where
  "compute_next_run C schedule now =
     (case schedule of
        UnknownSchedule \<Rightarrow> None
      | At at_ms \<Rightarrow> if at_ms > now then Some at_ms else None
      | Every every_ms anchor_ms \<Rightarrow>
          if every_ms = 0 then None
          else (let anchor = (case anchor_ms of None \<Rightarrow> now | Some a \<Rightarrow> a)
                in if now < anchor then Some anchor
                   else (let elapsed = now - anchor;
                             periods = elapsed div every_ms
                         in Some (u64_add anchor (u64_mul (u64_add periods 1) every_ms))))
      | Cron expr tz \<Rightarrow>
          (case CronExpr_parse expr of
             None \<Rightarrow> None
           | Some (Inl _) \<Rightarrow> None
           | Some (Inr parsed) \<Rightarrow>
               (case timestamp_millis_opt C (i64_wrap (int now)) of
                  None \<Rightarrow> None
                | Some now_dt \<Rightarrow>
                    (let as_u64 = map_option (\<lambda>dt. nat (timestamp_millis C dt mod 18446744073709551616))
                     in case tz of
                       None \<Rightarrow> as_u64 (next_after C parsed now_dt)
                     | Some s \<Rightarrow>
                         if eq_ignore_ascii_case_utc s then as_u64 (next_after C parsed now_dt)
                         else (case parse_tz C s of
                                 None \<Rightarrow> None
                               | Some t \<Rightarrow> as_u64 (next_after_in_tz C parsed now_dt t))))))"

text \<open>
  Documented behaviour of \<^verbatim>\<open>chrono\<close> on UTC date-times: seconds and nanoseconds of an instant,
  resetting them, and the conversion from and to milliseconds.
\<close>

definition chrono_ok :: "'tz chrono \<Rightarrow> bool" where
  "chrono_ok C \<longleftrightarrow>
     (\<forall>t. wc_second (utc_clock C t) = nat ((t div second_ns) mod 60) \<and>
          wc_nanosecond (utc_clock C t) = nat (t mod second_ns) \<and>
          with_second C t 0 = Some (t - (t div second_ns) mod 60 * second_ns) \<and>
          with_nanosecond C t 0 = Some (t - t mod second_ns) \<and>
          timestamp_millis C t = t div 1000000) \<and>
     (\<forall>ms t. timestamp_millis_opt C ms = Some t \<longrightarrow> t = ms * 1000000)"


subsection \<open>The expansion loops\<close>

text \<open>The values a range with a step stands for.\<close>

definition progression :: "nat \<Rightarrow> nat \<Rightarrow> nat \<Rightarrow> nat set" where
  "progression lo hi s = {x. lo \<le> x \<and> x \<le> hi \<and> s dvd (x - lo)}"

lemma progression_unfold:
  assumes "0 < s" "v \<le> hi"
  shows "progression v hi s = insert v (progression (v + s) hi s)"
proof (intro equalityI subsetI)
  fix x assume "x \<in> progression v hi s"
  then obtain k where k: "x - v = s * k" "v \<le> x" "x \<le> hi"
    by (auto simp: progression_def dvd_def)
  then have "x = v + s * k" by simp
  with k(3)
  show "x \<in> insert v (progression (v + s) hi s)"
    by (cases k) (auto simp: progression_def)
next
  fix x assume x: "x \<in> insert v (progression (v + s) hi s)"
  show "x \<in> progression v hi s"
  proof (cases "x = v")
    case False
    with x obtain k where "x - (v + s) = s * k" "v + s \<le> x" "x \<le> hi"
      by (auto simp: progression_def dvd_def)
    then have "x = v + s * Suc k" by simp
    with \<open>x \<le> hi\<close> show ?thesis by (simp add: progression_def)
  qed (use assms in \<open>simp add: progression_def\<close>)
qed

lemma expand_loop_progression:
  assumes "0 < s" "hi + s \<le> u32_max"
  shows "expand_loop v hi s acc = Some (acc \<union> progression v hi s)"
proof (induction "Suc hi - v" arbitrary: v acc rule: less_induct)
  case less
  show ?case
  proof (cases "v \<le> hi")
    case True
    have "u32_add v s = v + s" using True assms(2) by (simp add: u32_add_def)
    moreover have "expand_loop (v + s) hi s (insert v acc)
        = Some (insert v acc \<union> progression (v + s) hi s)"
      using True assms(1) by (intro less) simp
    ultimately show ?thesis
      using True assms(1) by (subst expand_loop.simps) (simp add: progression_unfold)
  next
    case False
    then show ?thesis by (subst expand_loop.simps) (auto simp: progression_def)
  qed
qed

lemma progression_bounds: "lo \<le> hi \<Longrightarrow> progression lo hi s \<noteq> {} \<and> progression lo hi s \<subseteq> {lo..hi}"
  by (auto simp: progression_def)

lemma progression_single [simp]: "progression v v s = {v}"
  by (auto simp: progression_def)

subsection \<open>What the parser returns\<close>

lemma parse_step_bound: "parse_step part name = Inr (r, Some s) \<Longrightarrow> 0 < s \<and> s \<le> 64"
  by (auto simp: parse_step_def split: option.splits if_splits)

definition within :: "nat \<Rightarrow> nat \<Rightarrow> nat set \<Rightarrow> bool" where
  "within lo hi S \<longleftrightarrow> S \<noteq> {} \<and> S \<subseteq> {lo..hi}"

text \<open>A parser that returns, with only good values among its results.\<close>

definition returns :: "('a \<Rightarrow> bool) \<Rightarrow> 'a cron_parse \<Rightarrow> bool" where
  "returns P m \<longleftrightarrow> (case m of None \<Rightarrow> False | Some (Inl _) \<Rightarrow> True | Some (Inr a) \<Rightarrow> P a)"

lemma returns_simps [simp]:
  "\<not> returns P None" "returns P (Some (Inl e))" "returns P (Some (Inr a)) \<longleftrightarrow> P a"
  by (simp_all add: returns_def)

lemma returns_iff: "returns P m \<longleftrightarrow> (\<exists>e. m = Some (Inl e)) \<or> (\<exists>a. m = Some (Inr a) \<and> P a)"
  by (auto simp: returns_def split: option.splits sum.splits)

lemma returns_try: "returns P m \<Longrightarrow> (\<And>a. P a \<Longrightarrow> returns Q (k a)) \<Longrightarrow> returns Q (cron_try m k)"
  by (auto simp: returns_iff [of P])

lemma returns_mono: "returns P m \<Longrightarrow> (\<And>a. P a \<Longrightarrow> Q a) \<Longrightarrow> returns Q m"
  by (auto simp: returns_iff)

text \<open>
  An item of a field whose bounds are at most 59: the parser returns, and what it accepts is
  a non-empty progression inside the bounds.
\<close>

definition is_progression :: "nat \<Rightarrow> nat \<Rightarrow> nat set \<Rightarrow> bool" where
  "is_progression mn mx S \<longleftrightarrow>
     (\<exists>lo hi s. S = progression lo hi s \<and> mn \<le> lo \<and> lo \<le> hi \<and> hi \<le> mx \<and> 0 < s \<and> s \<le> 64)"

lemma is_progressionI:
  "mn \<le> lo \<Longrightarrow> lo \<le> hi \<Longrightarrow> hi \<le> mx \<Longrightarrow> 0 < s \<Longrightarrow> s \<le> 64 \<Longrightarrow> is_progression mn mx (progression lo hi s)"
  unfolding is_progression_def by blast

lemma is_progression_single: "mn \<le> v \<Longrightarrow> v \<le> mx \<Longrightarrow> is_progression mn mx {v}"
  using is_progressionI [of mn v v mx 1] by simp

lemma parse_field_part_progression:
  assumes "mn \<le> mx" "mx \<le> 59"
  shows "returns (is_progression mn mx) (parse_field_part part mn mx name)"
proof (cases "parse_step part name")
  case (Inl e)
  then show ?thesis by (simp add: parse_field_part_def)
next
  case (Inr p)
  obtain rp step where p: "p = (rp, step)" by (cases p)
  define s where "s = (case step of None \<Rightarrow> 1 | Some s \<Rightarrow> s)"
  have s: "0 < s" "s \<le> 64"
    using parse_step_bound Inr p by (auto simp: s_def split: option.splits)
  have loop: "returns (is_progression mn mx) (map_option Inr (expand_loop v hi s {}))"
    if "mn \<le> v" "v \<le> hi" "hi \<le> mx" for v hi
    using that s assms by (subst expand_loop_progression) (simp_all add: u32_max_def is_progressionI)
  consider (star) "rp = ''*''"
    | (range) lo hi where "rp \<noteq> ''*''" "split_once CHR ''-'' rp = Some (lo, hi)"
    | (single) "rp \<noteq> ''*''" "split_once CHR ''-'' rp = None"
    by (cases "split_once CHR ''-'' rp") auto
  then show ?thesis
  proof cases
    case star
    then show ?thesis using Inr p loop [of mn mx] assms
      by (simp add: parse_field_part_def Let_def s_def)
  next
    case (range lo hi)
    then show ?thesis using Inr p loop
      by (cases step) (auto simp: parse_field_part_def Let_def not_less s_def split: option.split)
  next
    case single
    then show ?thesis using Inr p loop [of _ mx]
      by (auto simp: parse_field_part_def Let_def not_less s_def is_progression_single split: option.split)
  qed
qed

lemma parse_field_part_returns:
  assumes "mn \<le> mx" "mx \<le> 59"
  shows "returns (within mn mx) (parse_field_part part mn mx name)"
  by (rule returns_mono [OF parse_field_part_progression [OF assms]])
    (use progression_bounds in \<open>fastforce simp: is_progression_def within_def\<close>)

lemma parse_parts_returns:
  assumes "mn \<le> mx" "mx \<le> 59" "acc \<subseteq> {mn..mx}"
  shows "returns (\<lambda>S. S \<subseteq> {mn..mx} \<and> (ps \<noteq> [] \<or> acc \<noteq> {} \<longrightarrow> S \<noteq> {})) (parse_parts ps mn mx name acc)"
  using assms(3)
proof (induction ps arbitrary: acc)
  case (Cons p ps)
  show ?case unfolding parse_parts.simps
  proof (rule returns_try [OF parse_field_part_returns [OF assms(1,2)]])
    fix S assume S: "within mn mx S"
    then have "acc \<union> S \<subseteq> {mn..mx}" "acc \<union> S \<noteq> {}"
      using Cons.prems by (auto simp: within_def)
    then show "returns (\<lambda>S. S \<subseteq> {mn..mx} \<and> (p # ps \<noteq> [] \<or> acc \<noteq> {} \<longrightarrow> S \<noteq> {}))
          (parse_parts ps mn mx name (acc \<union> S))"
      by (intro returns_mono [OF Cons.IH]) auto
  qed
qed simp

lemma parse_field_returns:
  assumes "mn \<le> mx" "mx \<le> 59"
  shows "returns (within mn mx) (parse_field field mn mx name)"
  unfolding parse_field_def
  by (rule returns_try [OF parse_parts_returns [OF assms empty_subsetI]])
    (simp add: within_def)

lemma parse_dow_field_returns: "returns (within 0 6) (parse_dow_field field)"
proof -
  have "within 0 6 (if 7 \<in> S then insert 0 (S - {7}) else S)" if "S \<subseteq> {0..7}" "S \<noteq> {}" for S :: "nat set"
  proof -
    have "S - {7} \<subseteq> {0..6}" using that(1) by (force simp: subset_iff)
    then show ?thesis using that(2) by (auto simp: within_def)
  qed
  then show ?thesis unfolding parse_dow_field_def
    by (intro returns_try [OF parse_parts_returns]) (auto simp: within_def Let_def)
qed

definition cron_expr_wf :: "CronExpr \<Rightarrow> bool" where
  "cron_expr_wf e \<longleftrightarrow>
     within 0 59 (minutes e) \<and> within 0 23 (hours e) \<and> within 1 31 (days_of_month e) \<and>
     within 1 12 (months e) \<and> within 0 6 (days_of_week e)"

lemma CronExpr_parse_returns: "returns cron_expr_wf (CronExpr_parse expr)"
  unfolding CronExpr_parse_def Let_def
  by (auto intro!: returns_try [OF parse_field_returns] returns_try [OF parse_dow_field_returns]
      simp: cron_expr_wf_def simp del: One_nat_def)


subsection \<open>The search for the next minute\<close>

lemma search_minutes_Some:
  "search_minutes acc n c = Some u \<longleftrightarrow>
     (\<exists>k<n. u = c + int k * minute_ns \<and> acc u \<and> (\<forall>j<k. \<not> acc (c + int j * minute_ns)))"
proof (induction n arbitrary: c)
  case 0
  show ?case by (subst search_minutes.simps) simp
next
  case (Suc n)
  show ?case
  proof (cases "acc c")
    case True
    then show ?thesis unfolding Ex_less_Suc2 All_less_Suc2 by (subst search_minutes.simps) auto
  next
    case False
    then have "search_minutes acc (Suc n) c = search_minutes acc n (c + minute_ns)"
      by (subst search_minutes.simps) simp
    moreover have "(\<exists>k<Suc n. u = c + int k * minute_ns \<and> acc u \<and> (\<forall>j<k. \<not> acc (c + int j * minute_ns)))
      \<longleftrightarrow> (\<exists>k<n. u = c + minute_ns + int k * minute_ns \<and> acc u \<and>
             (\<forall>j<k. \<not> acc (c + minute_ns + int j * minute_ns)))"
      unfolding Ex_less_Suc2 All_less_Suc2 using False by (auto simp: algebra_simps)
    ultimately show ?thesis using Suc by simp
  qed
qed

lemma search_minutes_None:
  "search_minutes acc n c = None \<longleftrightarrow> (\<forall>k<n. \<not> acc (c + int k * minute_ns))"
proof (induction n arbitrary: c)
  case 0
  show ?case by (subst search_minutes.simps) simp
next
  case (Suc n)
  show ?case unfolding All_less_Suc2
    by (subst search_minutes.simps) (simp add: Suc algebra_simps)
qed

text \<open>Whole minutes are the multiples of \<^term>\<open>minute_ns\<close>.\<close>

lemma first_candidate_eq:
  assumes "chrono_ok C"
  shows "first_candidate C t = (t div minute_ns + 1) * minute_ns"
proof -
  define q where "q = t div minute_ns"
  define sec where "sec = (t div second_ns) mod 60"
  define ns where "ns = t mod second_ns"
  have "t div second_ns = 60 * q + sec"
    unfolding q_def sec_def by (simp add: zdiv_zmult2_eq [of 60 t second_ns, simplified])
  then have t: "t = (60 * q + sec) * second_ns + ns"
    unfolding ns_def by (metis div_mult_mod_eq)
  have c: "t + (60 - sec) * second_ns - ns = (q + 1) * minute_ns"
    by (subst t) (simp add: algebra_simps)
  have ge: "0 \<le> sec" "0 \<le> ns" by (simp_all add: sec_def ns_def)
  have div: "(q + 1) * minute_ns div second_ns = (q + 1) * 60" by simp
  define m where "m = (q + 1) * minute_ns"
  have "t < m" unfolding m_def q_def by simp
  moreover have "with_second C m 0 = Some m" "with_nanosecond C m 0 = Some m"
    using assms unfolding m_def chrono_ok_def by (simp_all add: div del: distrib_right_numeral)
  moreover have "int (wc_second (utc_clock C t)) = sec" "int (wc_nanosecond (utc_clock C t)) = ns"
    using assms ge unfolding chrono_ok_def sec_def ns_def by simp_all
  then have "t + (60 - int (wc_second (utc_clock C t))) * second_ns - int (wc_nanosecond (utc_clock C t)) = m"
    using c unfolding m_def by simp
  ultimately show ?thesis
    unfolding first_candidate_def Let_def q_def [symmetric] m_def [symmetric] by simp
qed


text \<open>
  The specification of a search: \<open>u\<close> is the first whole minute after \<open>t\<close> that is accepted,
  and lies within \<open>n\<close> minutes.
\<close>

definition first_minute_after :: "(int \<Rightarrow> bool) \<Rightarrow> nat \<Rightarrow> int \<Rightarrow> int \<Rightarrow> bool" where
  "first_minute_after acc n t u \<longleftrightarrow>
     minute_ns dvd u \<and> t < u \<and> u \<le> (t div minute_ns + int n) * minute_ns \<and> acc u \<and>
     (\<forall>m. minute_ns dvd m \<longrightarrow> t < m \<longrightarrow> m < u \<longrightarrow> \<not> acc m)"

lemma minute_floor: "t div minute_ns * minute_ns \<le> t"
  using div_mult_mod_eq [of t minute_ns] pos_mod_sign [of minute_ns t] by linarith

lemma whole_minute_after:
  "minute_ns dvd m \<and> t < m \<and> m \<le> (t div minute_ns + int n) * minute_ns \<longleftrightarrow>
   (\<exists>k<n. m = (t div minute_ns + 1) * minute_ns + int k * minute_ns)"
proof
  assume m: "minute_ns dvd m \<and> t < m \<and> m \<le> (t div minute_ns + int n) * minute_ns"
  then obtain d where d: "m = minute_ns * d" by (auto simp: dvd_def)
  have "t div minute_ns * minute_ns \<le> t" by (rule minute_floor)
  then have "t div minute_ns * minute_ns < d * minute_ns"
    using m d by (simp add: mult.commute)
  then have "t div minute_ns < d" by simp
  moreover have "d \<le> t div minute_ns + int n"
    using m unfolding d by (simp add: mult.commute [of _ d])
  ultimately
  have "m = (t div minute_ns + 1) * minute_ns + int (nat (d - t div minute_ns - 1)) * minute_ns"
    "nat (d - t div minute_ns - 1) < n"
    using d by (simp_all add: algebra_simps)
  then show "\<exists>k<n. m = (t div minute_ns + 1) * minute_ns + int k * minute_ns" by blast
next
  assume "\<exists>k<n. m = (t div minute_ns + 1) * minute_ns + int k * minute_ns"
  then obtain k where k: "k < n" "m = (t div minute_ns + 1 + int k) * minute_ns"
    by (auto simp: algebra_simps)
  have "t < (t div minute_ns + 1) * minute_ns" by simp
  also have "\<dots> \<le> m" unfolding k(2) by (intro mult_right_mono) simp_all
  finally show "minute_ns dvd m \<and> t < m \<and> m \<le> (t div minute_ns + int n) * minute_ns"
    using k by simp
qed

lemma search_first_minute:
  assumes "chrono_ok C"
  shows "search_minutes acc n (first_candidate C t) = Some u \<longleftrightarrow> first_minute_after acc n t u"
proof -
  define c where "c = (t div minute_ns + 1) * minute_ns"
  have earlier: "(\<forall>j<k. \<not> acc (c + int j * minute_ns)) \<longleftrightarrow>
      (\<forall>m. minute_ns dvd m \<longrightarrow> t < m \<longrightarrow> m < c + int k * minute_ns \<longrightarrow> \<not> acc m)" for k
  proof (intro iffI allI impI)
    fix m assume *: "\<forall>j<k. \<not> acc (c + int j * minute_ns)"
      "minute_ns dvd m" "t < m" "m < c + int k * minute_ns"
    then obtain d where d: "m = d * minute_ns" by (auto simp: dvd_def mult.commute)
    have "d * minute_ns < (t div minute_ns + 1 + int k) * minute_ns"
      using *(4) unfolding d c_def by (simp add: distrib_right)
    then have "d \<le> t div minute_ns + int k" by simp
    then have "m \<le> (t div minute_ns + int k) * minute_ns" unfolding d by simp
    with * whole_minute_after [of m t k] show "\<not> acc m" by (auto simp: c_def)
  next
    fix j assume *: "\<forall>m. minute_ns dvd m \<longrightarrow> t < m \<longrightarrow> m < c + int k * minute_ns \<longrightarrow> \<not> acc m" "j < k"
    then show "\<not> acc (c + int j * minute_ns)"
      using whole_minute_after [of "c + int j * minute_ns" t k] by (auto simp: c_def)
  qed
  show ?thesis
    unfolding first_candidate_eq [OF assms] search_minutes_Some c_def [symmetric] earlier
      first_minute_after_def
    using whole_minute_after [of u t n, folded c_def] by blast
qed

lemma search_no_minute:
  assumes "chrono_ok C"
  shows "search_minutes acc n (first_candidate C t) = None \<longleftrightarrow>
    (\<forall>m. minute_ns dvd m \<longrightarrow> t < m \<longrightarrow> m \<le> (t div minute_ns + int n) * minute_ns \<longrightarrow> \<not> acc m)"
proof -
  have "(\<forall>k<n. \<not> acc ((t div minute_ns + 1) * minute_ns + int k * minute_ns)) \<longleftrightarrow>
      (\<forall>m. (\<exists>k<n. m = (t div minute_ns + 1) * minute_ns + int k * minute_ns) \<longrightarrow> \<not> acc m)"
    by metis
  then show ?thesis
    unfolding first_candidate_eq [OF assms] search_minutes_None whole_minute_after [symmetric]
    by blast
qed

text \<open>In milliseconds: a minute found after \<open>now\<close> is later than \<open>now\<close>, and no cast truncates it.\<close>

lemma found_minute_millis:
  assumes "first_minute_after acc max_iterations (int now * 1000000) u" "int now \<le> i64_max"
  shows "int now < u div 1000000" "u div 1000000 < 18446744073709551616"
    "60000 dvd u div 1000000"
proof -
  obtain d where d: "u = minute_ns * d"
    using assms(1) by (auto simp: first_minute_after_def dvd_def)
  then have ud: "u div 1000000 = d * 60000" by simp
  show "60000 dvd u div 1000000" unfolding ud by simp
  have "int now * 1000000 < u" using assms(1) by (simp add: first_minute_after_def)
  then show "int now < u div 1000000" unfolding ud d by simp
  have "u \<le> (int now * 1000000 div minute_ns) * minute_ns + 2100000 * minute_ns"
    using assms(1) by (simp add: first_minute_after_def max_iterations_def distrib_right)
  also have "\<dots> \<le> int now * 1000000 + 2100000 * minute_ns"
    using minute_floor by (rule add_right_mono)
  finally show "u div 1000000 < 18446744073709551616"
    unfolding ud d using assms(2) by (simp add: i64_max_def)
qed


subsection \<open>A calendar for the witnesses\<close>

text \<open>
  The Gregorian calendar between March 1900 and February 2100, where leap years come every
  1461 days: day 11017 after the epoch is 1 March 2000. The one time zone is two hours ahead
  of UTC until \<^verbatim>\<open>2024-10-27T01:00Z\<close> and one hour ahead from then on.
\<close>

definition ex_clock :: "int \<Rightarrow> wall_clock" where
  "ex_clock t =
     (let day = t div (24 * hour_ns);
          e = (day - 11017) mod 1461;
          doy = e - 365 * min 3 (e div 365);
          mp = (5 * doy + 2) div 153
      in \<lparr>wc_nanosecond = nat (t mod second_ns), wc_second = nat (t div second_ns mod 60),
          wc_minute = nat (t div minute_ns mod 60), wc_hour = nat (t div hour_ns mod 24),
          wc_day = nat (doy - (153 * mp + 2) div 5 + 1),
          wc_month = nat (if mp < 10 then mp + 3 else mp - 9), wc_dow = nat ((day + 4) mod 7)\<rparr>)"

definition ex_offset :: "int \<Rightarrow> int" where
  "ex_offset t = (if t < 1729990800 * second_ns then 7200 else 3600)"

definition ex_chrono :: "unit chrono" where
  "ex_chrono =
     \<lparr>utc_clock = ex_clock,
      local_clock = (\<lambda>_ t. ex_clock (t + ex_offset t * second_ns)),
      local_minus_utc = (\<lambda>_. ex_offset),
      with_second = (\<lambda>t s. Some (t - (t div second_ns) mod 60 * second_ns + int s * second_ns)),
      with_nanosecond = (\<lambda>t n. Some (t - t mod second_ns + int n)),
      timestamp_millis_opt = (\<lambda>ms. if \<bar>ms\<bar> \<le> 8210266876799999 then Some (ms * 1000000) else None),
      timestamp_millis = (\<lambda>t. t div 1000000),
      parse_tz = (\<lambda>s. if s = ''Europe/Berlin'' then Some () else None)\<rparr>"

lemma ex_clock_fields:
  "wc_second (ex_clock t) = nat (t div second_ns mod 60)"
  "wc_nanosecond (ex_clock t) = nat (t mod second_ns)"
  unfolding ex_clock_def Let_def wall_clock.select_convs by (rule refl)+

lemma ex_chrono_fields:
  "utc_clock ex_chrono = ex_clock"
  "local_clock ex_chrono = (\<lambda>_ t. ex_clock (t + ex_offset t * second_ns))"
  "local_minus_utc ex_chrono = (\<lambda>_. ex_offset)"
  "with_second ex_chrono = (\<lambda>t s. Some (t - (t div second_ns) mod 60 * second_ns + int s * second_ns))"
  "with_nanosecond ex_chrono = (\<lambda>t n. Some (t - t mod second_ns + int n))"
  "timestamp_millis_opt ex_chrono = (\<lambda>ms. if \<bar>ms\<bar> \<le> 8210266876799999 then Some (ms * 1000000) else None)"
  "timestamp_millis ex_chrono = (\<lambda>t. t div 1000000)"
  unfolding ex_chrono_def chrono.select_convs by (rule refl)+

lemma ex_chrono_ok: "chrono_ok ex_chrono"
  unfolding chrono_ok_def ex_chrono_fields ex_clock_fields by auto

lemma leap_cycle_day:
  fixes e doy :: int
  assumes "0 \<le> e" "e < 1461" "doy = e - 365 * min 3 (e div 365)"
  shows "0 \<le> doy" "doy \<le> 365" "doy = 365 \<longleftrightarrow> e = 1460"
proof -
  define k where "k = e div 365"
  define r where "r = e mod 365"
  have e: "e = 365 * k + r" "0 \<le> r" "r < 365" by (simp_all add: k_def r_def)
  have "0 \<le> k" "k \<le> 4" using e assms(1,2) by linarith+
  then consider "k = 0" | "k = 1" | "k = 2" | "k = 3" | "k = 4" by linarith
  then have "0 \<le> doy \<and> doy \<le> 365 \<and> (doy = 365 \<longleftrightarrow> e = 1460)"
    using e assms(2,3) unfolding k_def [symmetric] by cases auto
  then show "0 \<le> doy" "doy \<le> 365" "doy = 365 \<longleftrightarrow> e = 1460" by auto
qed

lemma ex_clock_leap_day:
  assumes "wc_day (ex_clock t) = 29" "wc_month (ex_clock t) = 2"
  shows "(t div (24 * hour_ns) - 11017) mod 1461 = 1460"
proof -
  define e where "e = (t div (24 * hour_ns) - 11017) mod 1461"
  define doy where "doy = e - 365 * min 3 (e div 365)"
  define mp where "mp = (5 * doy + 2) div 153"
  have "0 \<le> e" "e < 1461" by (simp_all add: e_def)
  note d = leap_cycle_day [OF this doy_def]
  have day: "nat (doy - (153 * mp + 2) div 5 + 1) = 29" and month: "nat (if mp < 10 then mp + 3 else mp - 9) = 2"
    using assms unfolding ex_clock_def Let_def e_def [symmetric] doy_def [symmetric] mp_def [symmetric]
      wall_clock.select_convs .
  have "0 \<le> mp" unfolding mp_def using d(1) by simp
  with month have "mp = 11" by (simp split: if_splits)
  with day have "doy = 365" by simp
  then show ?thesis using d(3) unfolding e_def by simp
qed


lemma ex_loop_weekdays: "expand_loop 0 7 1 {} = Some {0..7}"
  by (subst expand_loop_progression) (auto simp: progression_def u32_max_def)

lemma ex_split: "split_whitespace ''0 0 29 2 *'' = [''0'', ''0'', ''29'', ''2'', ''*'']"
  by (simp add: split_whitespace_def is_ascii_ws_def)

lemma ex_num: "parse_u32 ''0'' = Some 0" "parse_u32 ''2'' = Some 2" "parse_u32 ''29'' = Some 29"
  by (simp_all add: parse_u32_def digit_value_def u32_max_def)

lemma ex_parse_leap: "CronExpr_parse ''0 0 29 2 *'' =
   Some (Inr \<lparr>minutes = {0}, hours = {0}, days_of_month = {29}, months = {2}, days_of_week = {0..6}\<rparr>)"
proof -
  have "insert 0 ({0..7} - {7}) = {0..6::nat}" by auto
  then show ?thesis using ex_loop_weekdays
  unfolding CronExpr_parse_def Let_def ex_split 
  by (simp add: parse_field_def parse_dow_field_def
  parse_field_part_def parse_step_def split_once_def ex_num)
qed

subsection \<open>The parser always returns, and returns well-formed expressions\<close>


text \<open>
  C20: A parsed cron expression is well-typed: each of its five sets is non-empty and holds
  only values of its field (minutes 0-59, hours 0-23, days 1-31, months 1-12, weekdays 0-6,
  with 7 already read as Sunday).
\<close>

theorem cron_parse_well_typed:
  assumes "CronExpr_parse expr = Some (Inr e)"
  shows "minutes e \<noteq> {} \<and> minutes e \<subseteq> {0..59} \<and> hours e \<noteq> {} \<and> hours e \<subseteq> {0..23} \<and>
    days_of_month e \<noteq> {} \<and> days_of_month e \<subseteq> {1..31} \<and> months e \<noteq> {} \<and> months e \<subseteq> {1..12} \<and>
    days_of_week e \<noteq> {} \<and> days_of_week e \<subseteq> {0..6}"
  using CronExpr_parse_returns [of expr] assms by (simp add: cron_expr_wf_def within_def)

theorem cron_parse_well_typed_witness:
  "CronExpr_parse ''0 0 29 2 *'' = Some (Inr \<lparr>minutes = {0}, hours = {0}, days_of_month = {29}, months = {2}, days_of_week = {0..6}\<rparr>)
   \<and> {29} \<noteq> {} \<and> {29::nat} \<subseteq> {1..31}"
  using cron_parse_well_typed [OF ex_parse_leap] ex_parse_leap by simp

text \<open>
  Reading back a printed range with a step gives exactly the arithmetic progression it
  stands for, in every field of the expression.
\<close>

theorem cron_range_round_trip:
  assumes "mn \<le> lo" "lo \<le> hi" "hi \<le> mx" "mx \<le> 59" "0 < s" "s \<le> 64"
  shows "parse_field_part (string_of_nat lo @ ''-'' @ string_of_nat hi @ ''/'' @ string_of_nat s) mn mx name
    = Some (Inr {v. lo \<le> v \<and> v \<le> hi \<and> s dvd (v - lo)})"
proof -
  have no: "CHR ''/'' \<notin> set (string_of_nat n)" "CHR ''-'' \<notin> set (string_of_nat n)"
    "CHR ''*'' \<notin> set (string_of_nat n)" for n
    by (rule notin_string_of_nat; simp)+
  have num: "parse_u32 (string_of_nat n) = Some n" if "n \<le> 64" for n
    using that by (intro parse_u32_string_of_nat) (simp add: u32_max_def)
  let ?range = "string_of_nat lo @ CHR ''-'' # string_of_nat hi"
  have "split_once CHR ''/'' (?range @ CHR ''/'' # string_of_nat s) = Some (?range, string_of_nat s)"
    by (rule split_once_append) (simp add: no)
  then have step: "parse_step (?range @ CHR ''/'' # string_of_nat s) name = Inr (?range, Some s)"
    using assms by (simp add: parse_step_def num)
  have "split_once CHR ''-'' ?range = Some (string_of_nat lo, string_of_nat hi)"
    by (rule split_once_append) (simp add: no)
  moreover have "?range \<noteq> ''*''" by (auto simp: append_eq_Cons_conv)
  moreover have "expand_loop lo hi s {} = Some (progression lo hi s)"
    using assms by (subst expand_loop_progression) (simp_all add: u32_max_def)
  ultimately show ?thesis
    using step assms num [of lo] num [of hi] by (simp add: parse_field_part_def progression_def)
qed

theorem cron_range_round_trip_witness:
  "parse_field_part (string_of_nat 9 @ ''-'' @ string_of_nat 17 @ ''/'' @ string_of_nat 4) 0 23 ''hour''
    = Some (Inr {v. 9 \<le> v \<and> v \<le> 17 \<and> 4 dvd (v - 9)})"
  by (rule cron_range_round_trip) simp_all

text \<open>
  C21: The search for the next run is exact: it returns an instant exactly when that instant is
  the first whole minute after the given time whose UTC fields match, no more than 2,100,000
  minutes ahead; the search in a time zone likewise, on local fields, with repeated
  readings of the clock passed over.
\<close>

theorem next_after_is_first_match:
  assumes "chrono_ok C"
  shows "(next_after C e t = Some u \<longleftrightarrow> first_minute_after (CronExpr_matches C e) 2100000 t u) \<and>
    (next_after_in_tz C e t tz = Some u \<longleftrightarrow> first_minute_after (matches_in_tz C tz e) 2100000 t u)"
  unfolding next_after_def next_after_in_tz_def max_iterations_def
  using search_first_minute [OF assms] by blast

definition ex_expr :: CronExpr where
  "ex_expr = \<lparr>minutes = {1}, hours = {0}, days_of_month = {1}, months = {1}, days_of_week = {4}\<rparr>"

lemma ex_expr_first_minute: "first_minute_after (CronExpr_matches ex_chrono ex_expr) 2100000 0 minute_ns"
proof -
  have "ex_clock minute_ns = \<lparr>wc_nanosecond = 0, wc_second = 0, wc_minute = 1, wc_hour = 0,
      wc_day = 1, wc_month = 1, wc_dow = 4\<rparr>"
    unfolding ex_clock_def Let_def by simp
  then have "CronExpr_matches ex_chrono ex_expr minute_ns"
    by (simp add: CronExpr_matches_def matches_components_def ex_chrono_fields ex_expr_def Let_def)
  moreover have "\<not> (minute_ns dvd m \<and> 0 < m \<and> m < minute_ns)" for m
    using zdvd_imp_le [of minute_ns m] by auto
  ultimately show ?thesis by (auto simp: first_minute_after_def)
qed

theorem next_after_is_first_match_witness: "next_after ex_chrono ex_expr 0 = Some minute_ns"
  using next_after_is_first_match [OF ex_chrono_ok, of ex_expr 0 minute_ns "()"] ex_expr_first_minute
  by blast

subsection \<open>The next run of a schedule\<close>

lemma every_next_run:
  assumes "0 < ev" "a \<le> now" "now + ev \<le> u64_max"
  shows "compute_next_run C (Every ev (Some a)) now = Some (a + ((now - a) div ev + 1) * ev)"
    "now < a + ((now - a) div ev + 1) * ev" "a + ((now - a) div ev + 1) * ev \<le> now + ev"
proof -
  let ?p = "(now - a) div ev"
  have "?p * ev + (now - a) mod ev = now - a" by simp
  then have lo: "now < a + ?p * ev + ev" and hi: "a + ?p * ev \<le> now"
    using assms(1,2) mod_less_divisor [of ev "now - a"] by linarith+
  then show "now < a + (?p + 1) * ev" "a + (?p + 1) * ev \<le> now + ev" by (simp_all add: algebra_simps)
  then have b: "a + (?p + 1) * ev \<le> u64_max" using assms(3) by linarith
  have "(?p + 1) * 1 \<le> (?p + 1) * ev" using assms(1) by (intro mult_le_mono2) simp
  also have "\<dots> \<le> u64_max" using b by (rule add_leD2)
  finally have "?p + 1 \<le> u64_max" by simp
  then have "u64_add ?p 1 = ?p + 1" "u64_mul (?p + 1) ev = (?p + 1) * ev"
    "u64_add a ((?p + 1) * ev) = a + (?p + 1) * ev"
    using b by (simp_all only: u64_add_small u64_mul_def) simp
  then show "compute_next_run C (Every ev (Some a)) now = Some (a + (?p + 1) * ev)"
    using assms(1,2) by (simp add: compute_next_run_def Let_def del: mult_Suc)
qed

lemma every_next_run_default:
  "compute_next_run C (Every ev None) now = compute_next_run C (Every ev (Some now)) now"
  by (simp add: compute_next_run_def)

lemma cron_next_run:
  assumes "chrono_ok C" "int now \<le> i64_max" "compute_next_run C (Cron expr tz) now = Some r"
  shows "now < r" "60000 dvd r"
proof -
  have wrap: "i64_wrap (int now) = int now"
    using assms(2) by (intro i64_wrap_id) (simp_all add: i64_min_def)
  obtain acc dt where dt: "timestamp_millis_opt C (int now) = Some dt"
    and r: "map_option (\<lambda>dt. nat (timestamp_millis C dt mod 18446744073709551616))
       (search_minutes acc max_iterations (first_candidate C dt)) = Some r"
    using assms(3) unfolding compute_next_run_def wrap next_after_def next_after_in_tz_def
    by (auto split: option.splits sum.splits if_splits simp: Let_def)
  have dt_eq: "dt = int now * 1000000" using assms(1) dt unfolding chrono_ok_def by blast
  obtain u where u: "first_minute_after acc max_iterations (int now * 1000000) u"
    and r': "r = nat (timestamp_millis C u mod 18446744073709551616)"
    using r search_first_minute [OF assms(1)] unfolding dt_eq by auto
  have ms: "timestamp_millis C u = u div 1000000"
    using assms(1) unfolding chrono_ok_def by blast
  note f = found_minute_millis [OF u assms(2)]
  have "int r = u div 1000000" unfolding r' ms using f(1,2) by simp
  then have "int now < int r" "int 60000 dvd int r" using f by simp_all
  then show "now < r" "60000 dvd r" by (simp, simp only: int_dvd_int_iff)
qed

text \<open>
  A computed next run lies strictly in the future, whatever the kind of the schedule: at the
  given instant for a one-shot job, on the grid of the anchor and at most one interval away for
  an interval job (as long as the sum fits 64 bits), on a whole minute for a cron expression;
  an unknown schedule never runs.
\<close>

theorem next_run_in_future:
  assumes "chrono_ok C" "int now \<le> i64_max" "compute_next_run C schedule now = Some r"
    and "\<forall>ev a. schedule = Every ev a \<longrightarrow> now + ev \<le> u64_max"
  shows "now < r \<and>
    (case schedule of
       At at_ms \<Rightarrow> r = at_ms
     | Every ev None \<Rightarrow> r = now + ev
     | Every ev (Some a) \<Rightarrow> if now < a then r = a else r \<le> now + ev \<and> ev dvd (r - a)
     | Cron _ _ \<Rightarrow> 60000 dvd r
     | UnknownSchedule \<Rightarrow> False)"
proof (cases schedule)
  case (At a)
  with assms(3) show ?thesis by (auto simp: compute_next_run_def split: if_splits)
next
  case (Every ev anc)
  with assms(3) have ev: "0 < ev" by (auto simp: compute_next_run_def split: if_splits)
  have b: "now + ev \<le> u64_max" using assms(4) Every by blast
  show ?thesis
  proof (cases anc)
    case None
    with Every assms(3) every_next_run(1) [OF ev le_refl b, where C = C] ev show ?thesis
      by (simp add: every_next_run_default)
  next
    case (Some a)
    show ?thesis
    proof (cases "now < a")
      case True
      with Some Every assms(3) ev show ?thesis by (simp add: compute_next_run_def)
    next
      case False
      with Some Every assms(3) every_next_run(1) [OF ev _ b, of a C]
        every_next_run(2,3) [OF ev _ b, of a] show ?thesis by (auto simp: not_less)
    qed
  qed
next
  case (Cron expr tz)
  with cron_next_run [OF assms(1,2)] assms(3) show ?thesis by simp
next
  case UnknownSchedule
  with assms(3) show ?thesis by (simp add: compute_next_run_def)
qed

theorem next_run_in_future_witness:
  "compute_next_run ex_chrono (Every 1000 (Some 5)) 2100 = Some 3005 \<and> 2100 < (3005::nat) \<and> 1000 dvd (3005 - 5 :: nat)"
proof -
  have r: "compute_next_run ex_chrono (Every 1000 (Some 5)) 2100 = Some 3005"
    by (simp add: compute_next_run_def u64_add_def u64_mul_def u64_max_def)
  show ?thesis
    using next_run_in_future [OF ex_chrono_ok _ r] r by (simp add: i64_max_def u64_max_def)
qed

text \<open>
  An interval that reaches past 64 bits wraps: the next run computed for it lies in the past,
  so the job is due again at every tick, although the interval is millions of years long.
\<close>

theorem oversized_interval_is_past:
  assumes "a \<le> now" "now - a < ev" "now \<le> u64_max" "ev \<le> u64_max" "u64_max < a + ev"
  shows "\<exists>r. compute_next_run C (Every ev (Some a)) now = Some r \<and> r < now"
proof -
  have "u64_add 0 1 = 1" "u64_mul 1 ev = ev" using assms(4) by (simp_all add: u64_add_def u64_mul_def u64_max_def)
  moreover have "u64_add a ev = a + ev - (u64_max + 1)"
    using assms unfolding u64_add_def by (subst mod_if) simp
  moreover have "a + ev - (u64_max + 1) < now" using assms by linarith
  ultimately show ?thesis using assms(1,2) by (simp add: compute_next_run_def Let_def)
qed

theorem oversized_interval_is_past_witness:
  "\<exists>r. compute_next_run ex_chrono (Every 18446744073709551615 (Some 5)) 2100 = Some r \<and> r < 2100"
  by (rule oversized_interval_is_past) (simp_all add: u64_max_def)

lemma leap_cycle_gap:
  fixes d :: int
  assumes "8765 < d" "d < 10226"
  shows "d mod 1461 \<noteq> 1460"
proof -
  have "d mod 1461 = (d - 8766 + 6 * 1461) mod 1461" by simp
  also have "\<dots> = (d - 8766) mod 1461" by (rule mod_mult_self1)
  also have "\<dots> = d - 8766" using assms by (intro mod_pos_pos_trivial) simp_all
  finally show ?thesis using assms by simp
qed

text \<open>
  A leap-day schedule is lost: at midnight on 29 February 2024 the next run of
  \<^verbatim>\<open>0 0 29 2 *\<close> is not found, because 2,100,000 minutes (1458 days) end before the next leap day
  (1461 days later).
\<close>

theorem leap_day_schedule_lost:
  "compute_next_run ex_chrono (Cron ''0 0 29 2 *'' None) 1709164800000 = None"
proof -
  define e where "e = \<lparr>minutes = {0}, hours = {0}, days_of_month = {29}, months = {2}, days_of_week = {0..6::nat}\<rparr>"
  define t :: int where "t = 1709164800000000000"
  have none: "\<not> CronExpr_matches ex_chrono e m"
    if m: "minute_ns dvd m" "t < m" "m \<le> (t div minute_ns + int 2100000) * minute_ns" for m
  proof
    assume "CronExpr_matches ex_chrono e m"
    then have f: "wc_minute (ex_clock m) = 0" "wc_hour (ex_clock m) = 0" "wc_day (ex_clock m) = 29"
      "wc_month (ex_clock m) = 2"
      by (simp_all add: CronExpr_matches_def matches_components_def e_def ex_chrono_fields Let_def)
    obtain k where k: "m = minute_ns * k" using m(1) by (auto simp: dvd_def)
    have range: "28486080 < k" "k \<le> 28486080 + 2100000"
      using m(2,3) unfolding k t_def by simp_all
    have hd: "m div minute_ns = k" "m div hour_ns = k div 60" "m div (24 * hour_ns) = k div 1440"
      unfolding k by simp_all
    have "nat (m div minute_ns mod 60) = 0" "nat (m div hour_ns mod 24) = 0"
      using f(1,2) unfolding ex_clock_def Let_def wall_clock.select_convs .
    then have "k mod 60 = 0" "k div 60 mod 24 = 0"
      unfolding hd by simp_all
    then have k1440: "k mod 1440 = 0"
      by (simp add: zmod_zmult2_eq [of 24 k 60, simplified])
    have "(k div 1440 - 11017) mod 1461 = 1460"
      using ex_clock_leap_day [OF f(3,4)] unfolding hd .
    moreover have kk: "k = 1440 * (k div 1440)" using k1440 mult_div_mod_eq [of 1440 k] by linarith
    then have "8765 < k div 1440 - 11017" "k div 1440 - 11017 < 10226" using range by linarith+
    ultimately show False using leap_cycle_gap by blast
  qed
  have "next_after ex_chrono e t = None"
    unfolding next_after_def search_no_minute [OF ex_chrono_ok] max_iterations_def using none by blast
  moreover have "timestamp_millis_opt ex_chrono (i64_wrap (int 1709164800000)) = Some t"
    by (simp add: ex_chrono_fields i64_wrap_id i64_min_def i64_max_def t_def)
  ultimately show ?thesis
    unfolding compute_next_run_def by (simp add: ex_parse_leap e_def [symmetric] Let_def)
qed

text \<open>
  When the clock falls back by one hour, a matching local minute fires once: the first of
  the two instants with the same local reading is taken exactly when the reading matches, the
  second is never taken.
\<close>

theorem fall_back_fires_once:
  assumes "\<forall>t. local_minus_utc C tz t = (if t < X then off + 3600 else off)"
    and "\<forall>t. local_clock C tz t = utc_clock C (t + local_minus_utc C tz t * second_ns)"
    and "u < X" "X \<le> u + hour_ns"
  shows "local_clock C tz (u + hour_ns) = local_clock C tz u \<and>
    \<not> matches_in_tz C tz e (u + hour_ns) \<and>
    (matches_in_tz C tz e u \<longleftrightarrow>
       (let w = local_clock C tz u
        in matches_components e (wc_minute w) (wc_hour w) (wc_day w) (wc_month w) (wc_dow w)))"
proof -
  have off: "local_minus_utc C tz u = off + 3600" "local_minus_utc C tz (u - hour_ns) = off + 3600"
    "local_minus_utc C tz (u + hour_ns) = off"
    using assms(1,3,4) by simp_all
  have same: "local_clock C tz (u + hour_ns) = local_clock C tz u"
    unfolding assms(2) [rule_format] off by (simp add: algebra_simps)
  then have "second_occurrence C tz (u + hour_ns)" "\<not> second_occurrence C tz u"
    by (simp_all add: second_occurrence_def off)
  with same show ?thesis by (simp add: matches_in_tz_def Let_def)
qed

definition ex_expr_berlin :: CronExpr where
  "ex_expr_berlin = \<lparr>minutes = {30}, hours = {2}, days_of_month = {27}, months = {10}, days_of_week = {0}\<rparr>"

theorem fall_back_fires_once_witness:
  "matches_in_tz ex_chrono () ex_expr_berlin (1729989000 * second_ns) \<and>
   \<not> matches_in_tz ex_chrono () ex_expr_berlin (1729989000 * second_ns + hour_ns)"
proof -
  have "\<forall>t. local_minus_utc ex_chrono () t = (if t < 1729990800 * second_ns then 3600 + 3600 else 3600)"
    unfolding ex_chrono_fields ex_offset_def by simp
  moreover have "\<forall>t. local_clock ex_chrono () t = utc_clock ex_chrono (t + local_minus_utc ex_chrono () t * second_ns)"
    unfolding ex_chrono_fields by blast
  moreover have "1729989000 * second_ns < 1729990800 * second_ns"
    "1729990800 * second_ns \<le> 1729989000 * second_ns + hour_ns" by simp_all
  ultimately have once: "\<not> matches_in_tz ex_chrono () ex_expr_berlin (1729989000 * second_ns + hour_ns)"
    using fall_back_fires_once [where C = ex_chrono and tz = "()" and X = "1729990800 * second_ns" and off = 3600
        and u = "1729989000 * second_ns" and e = ex_expr_berlin] by blast
  have off: "ex_offset (1729989000 * second_ns) = 7200" "ex_offset (1729989000 * second_ns - hour_ns) = 7200"
    by (simp_all add: ex_offset_def)
  have "ex_clock (1729989000 * second_ns + 7200 * second_ns) = \<lparr>wc_nanosecond = 0, wc_second = 0,
      wc_minute = 30, wc_hour = 2, wc_day = 27, wc_month = 10, wc_dow = 0\<rparr>"
    unfolding ex_clock_def Let_def by simp
  then have "matches_in_tz ex_chrono () ex_expr_berlin (1729989000 * second_ns)"
    unfolding matches_in_tz_def second_occurrence_def Let_def ex_chrono_fields off
    by (simp add: matches_components_def ex_expr_berlin_def)
  then show ?thesis using once by (rule conjI)
qed

text \<open>
  The test looks back exactly one hour, so where the clock falls back by thirty minutes
  (\<^verbatim>\<open>Australia/Lord_Howe\<close>) both instants are taken.
\<close>

lemma half_hour_fall_back_fires_twice:
  assumes "\<forall>t. local_minus_utc C tz t = (if t < X then off + 1800 else off)"
    and "\<forall>t. local_clock C tz t = utc_clock C (t + local_minus_utc C tz t * second_ns)"
    and "u < X" "X \<le> u + 30 * minute_ns"
    and "wc_minute (local_clock C tz (u - 30 * minute_ns)) \<noteq> wc_minute (local_clock C tz u)"
    and "matches_in_tz C tz e u"
  shows "local_clock C tz (u + 30 * minute_ns) = local_clock C tz u \<and> matches_in_tz C tz e (u + 30 * minute_ns)"
proof -
  have off: "local_minus_utc C tz u = off + 1800" "local_minus_utc C tz (u + 30 * minute_ns) = off"
    using assms(1,3,4) by simp_all
  have same: "local_clock C tz (u + 30 * minute_ns) = local_clock C tz u"
    unfolding assms(2) [rule_format] off by (simp add: algebra_simps)
  have ago: "u + 30 * minute_ns - hour_ns = u - 30 * minute_ns" by simp
  have "\<not> second_occurrence C tz (u + 30 * minute_ns)"
    unfolding second_occurrence_def Let_def same ago using assms(5) by blast
  with same assms(6) show ?thesis by (simp add: matches_in_tz_def Let_def)
qed

end
