(* ===== verification/Cron_Scheduler.thy ===== *)
theory Cron_Scheduler
  imports Cron_Expr
begin

text \<open>
  The cron scheduler (\<^verbatim>\<open>src/cron/mod.rs\<close>: \<^verbatim>\<open>CronScheduler\<close> and its data).

  \<^item> The state is the record \<open>CronScheduler\<close>; the two locks serialise the operations, so each
    public method is one function of the state. The event channel is the list of the events
    sent so far (\<open>None\<close> when no channel is attached).
  \<^item> The jobs file is \<open>cs_disk\<close>: the list of persisted jobs, \<open>None\<close> while there is no file. A
    persisted job is the job together with the wire names of the three fields that have a
    tolerant reader (\<open>persisted_job\<close>); the JSON codec keeps everything else.
  \<^item> \<open>env\<close> gives the clock reading, the fresh identifier and the fault of a flush.
  \<^item> Log lines and audit records, which nothing reads back, are left out.
\<close>

subsection \<open>Data\<close>

datatype CronSessionTarget = Main | Isolated
datatype CronWakeMode = Now | NextHeartbeat
datatype CronJobStatus = Ok | Error | Skipped

record AgentTurn =
  at_message :: string
  at_model :: "string option"
  at_route :: "string option"
  at_thinking :: "string option"
  at_timeout_seconds :: "u32 option"
  at_allow_unsafe_external_content :: "bool option"
  at_deliver :: "bool option"
  at_channel :: "string option"
  at_to :: "string option"
  at_best_effort_deliver :: "bool option"

datatype CronPayload =
    SystemEvent string
  | AgentTurnPayload AgentTurn
  | UnknownPayload

definition is_recognized :: "CronPayload \<Rightarrow> bool" where
  "is_recognized p \<longleftrightarrow> p \<noteq> UnknownPayload"

record CronIsolation =
  post_to_main_prefix :: "string option"
  post_to_main_mode :: "string option"
  post_to_main_max_chars :: "u32 option"

record CronJobState =
  next_run_at_ms :: "u64 option"
  running_at_ms :: "u64 option"
  last_run_at_ms :: "u64 option"
  last_status :: "CronJobStatus option"
  last_error :: "string option"
  last_duration_ms :: "u64 option"

record CronJob =
  job_id :: string
  job_agent_id :: "string option"
  job_name :: string
  job_description :: "string option"
  job_enabled :: bool
  job_delete_after_run :: "bool option"
  job_created_at_ms :: u64
  job_updated_at_ms :: u64
  job_schedule :: CronSchedule
  job_session_target :: CronSessionTarget
  job_wake_mode :: CronWakeMode
  job_payload :: CronPayload
  job_isolation :: "CronIsolation option"
  job_state :: CronJobState

record CronJobCreate =
  create_name :: string
  create_agent_id :: "string option"
  create_description :: "string option"
  create_enabled :: bool
  create_delete_after_run :: "bool option"
  create_schedule :: CronSchedule
  create_session_target :: CronSessionTarget
  create_wake_mode :: CronWakeMode
  create_payload :: CronPayload
  create_isolation :: "CronIsolation option"

record CronJobPatch =
  patch_name :: "string option"
  patch_agent_id :: "string option"
  patch_description :: "string option"
  patch_enabled :: "bool option"
  patch_delete_after_run :: "bool option"
  patch_schedule :: "CronSchedule option"
  patch_session_target :: "CronSessionTarget option"
  patch_wake_mode :: "CronWakeMode option"
  patch_payload :: "CronPayload option"
  patch_isolation :: "CronIsolation option"

record CronRunLogEntry =
  log_ts :: u64
  log_job_id :: string
  log_action :: string
  log_status :: "CronJobStatus option"
  log_error :: "string option"
  log_summary :: "string option"
  log_run_at_ms :: "u64 option"
  log_duration_ms :: "u64 option"
  log_next_run_at_ms :: "u64 option"

datatype CronEventAction = Added | Updated | Removed | Started | Finished

text \<open>The two JSON objects the scheduler attaches to an event.\<close>

datatype event_details =
    EvictedBy string
  | RunDetails CronJobStatus u64

record CronEvent =
  event_job_id :: string
  event_action :: CronEventAction
  event_next_run_at_ms :: "u64 option"
  event_details :: "event_details option"

datatype CronError =
    JobNotFound string
  | StoreError string
  | LimitExceeded usize

record CronStatus =
  status_enabled :: bool
  status_jobs :: usize
  status_next_run_at_ms :: "u64 option"

record CronRemoveResult =
  remove_ok :: bool
  removed :: bool

datatype CronRunMode = Due | Force

definition parse_mode :: "string \<Rightarrow> CronRunMode option" where
  "parse_mode s = (if s = ''due'' then Some Due else if s = ''force'' then Some Force else None)"

datatype CronRunReason = NotDue

record CronRunResult =
  result_ok :: bool
  result_ran :: bool
  result_reason :: "CronRunReason option"
  result_payload :: "CronPayload option"
  result_job_id :: string

subsection \<open>The jobs file\<close>

text \<open>The wire names written by the derived serialisers, and the tolerant readers.\<close>

fun serialize_session_target :: "CronSessionTarget \<Rightarrow> string" where
  "serialize_session_target Main = ''main''"
| "serialize_session_target Isolated = ''isolated''"

definition deserialize_cron_session_target_forward_compat :: "string \<Rightarrow> CronSessionTarget" where
  "deserialize_cron_session_target_forward_compat v =
     (if v = ''main'' then Main else if v = ''isolated'' then Isolated else Main)"

fun serialize_wake_mode :: "CronWakeMode \<Rightarrow> string" where
  "serialize_wake_mode Now = ''now''"
| "serialize_wake_mode NextHeartbeat = ''next-heartbeat''"

definition deserialize_cron_wake_mode_forward_compat :: "string \<Rightarrow> CronWakeMode" where
  "deserialize_cron_wake_mode_forward_compat v =
     (if v = ''now'' then Now else if v = ''next-heartbeat'' then NextHeartbeat else Now)"

fun serialize_job_status :: "CronJobStatus \<Rightarrow> string" where
  "serialize_job_status Ok = ''ok''"
| "serialize_job_status Error = ''error''"
| "serialize_job_status Skipped = ''skipped''"

definition deserialize_cron_job_status_opt_forward_compat ::
    "string option \<Rightarrow> CronJobStatus option" where
  "deserialize_cron_job_status_opt_forward_compat v =
     (case v of
        None \<Rightarrow> None
      | Some s \<Rightarrow>
          if s = ''ok'' then Some Ok else if s = ''error'' then Some Error
          else if s = ''skipped'' then Some Skipped else None)"

record persisted_job =
  pj_job :: CronJob
  pj_session_target :: string
  pj_wake_mode :: string
  pj_last_status :: "string option"

definition persist_job :: "CronJob \<Rightarrow> persisted_job" where
  "persist_job j =
     \<lparr>pj_job = j, pj_session_target = serialize_session_target (job_session_target j),
      pj_wake_mode = serialize_wake_mode (job_wake_mode j),
      pj_last_status = map_option serialize_job_status (last_status (job_state j))\<rparr>"

definition restore_job :: "persisted_job \<Rightarrow> CronJob" where
  "restore_job p =
     (pj_job p)
       \<lparr>job_session_target := deserialize_cron_session_target_forward_compat (pj_session_target p),
        job_wake_mode := deserialize_cron_wake_mode_forward_compat (pj_wake_mode p),
        job_state := (job_state (pj_job p))
          \<lparr>last_status := deserialize_cron_job_status_opt_forward_compat (pj_last_status p)\<rparr>\<rparr>"

record CronScheduler =
  cs_enabled :: bool
  cs_jobs :: "CronJob list"
  cs_run_log :: "CronRunLogEntry list"
  cs_event_tx :: "CronEvent list option"
  cs_persist_path :: "string option"
  cs_dir_ensured :: bool
  cs_last_tick_observed_ms :: u64
  cs_disk :: "persisted_job list option"

text \<open>A new scheduler finds whatever jobs file is there.\<close>

definition CronScheduler_new ::
    "bool \<Rightarrow> string option \<Rightarrow> persisted_job list option \<Rightarrow> CronScheduler" where
  "CronScheduler_new enabled persist_path disk =
     \<lparr>cs_enabled = enabled, cs_jobs = [], cs_run_log = [], cs_event_tx = None,
      cs_persist_path = persist_path, cs_dir_ensured = False, cs_last_tick_observed_ms = 0,
      cs_disk = disk\<rparr>"

definition CronScheduler_in_memory :: CronScheduler where
  "CronScheduler_in_memory =
     \<lparr>cs_enabled = True, cs_jobs = [], cs_run_log = [], cs_event_tx = None,
      cs_persist_path = None, cs_dir_ensured = False, cs_last_tick_observed_ms = 0,
      cs_disk = None\<rparr>"

definition with_event_channel :: "CronScheduler \<Rightarrow> CronScheduler" where
  "with_event_channel s = s\<lparr>cs_event_tx := Some []\<rparr>"

definition flush_to_disk :: "save_fault option \<Rightarrow> CronScheduler \<Rightarrow> CronScheduler" where
  "flush_to_disk fault s =
     (case cs_persist_path s of
        None \<Rightarrow> s
      | Some _ \<Rightarrow>
          (case fault of
             Some (Fault_mkdir m) \<Rightarrow>
               if cs_dir_ensured s then s\<lparr>cs_disk := Some (map persist_job (cs_jobs s))\<rparr> else s
           | _ \<Rightarrow>
               s\<lparr>cs_dir_ensured := True,
                 cs_disk := write_file fault (map persist_job (cs_jobs s)) (cs_disk s)\<rparr>))"

definition emit_event :: "CronEvent \<Rightarrow> CronScheduler \<Rightarrow> CronScheduler" where
  "emit_event ev s =
     (case cs_event_tx s of None \<Rightarrow> s | Some evs \<Rightarrow> s\<lparr>cs_event_tx := Some (evs @ [ev])\<rparr>)"

definition maybe_quarantine_for_impossible_cron :: "CronJob \<Rightarrow> u64 option \<Rightarrow> bool \<times> CronJob" where
  "maybe_quarantine_for_impossible_cron job next =
     (if next \<noteq> None then (False, job)
      else (case job_schedule job of
              Cron _ _ \<Rightarrow> (True, job\<lparr>job_enabled := False\<rparr>)
            | _ \<Rightarrow> (False, job)))"

abbreviation set_next :: "u64 option \<Rightarrow> CronJob \<Rightarrow> CronJob" where
  "set_next n j \<equiv> j\<lparr>job_state := (job_state j)\<lparr>next_run_at_ms := n\<rparr>\<rparr>"

abbreviation set_running :: "u64 option \<Rightarrow> CronJob \<Rightarrow> CronJob" where
  "set_running r j \<equiv> j\<lparr>job_state := (job_state j)\<lparr>running_at_ms := r\<rparr>\<rparr>"

text \<open>
  The block that \<^verbatim>\<open>load\<close>, \<^verbatim>\<open>update\<close> and \<^verbatim>\<open>get_due_job_ids\<close> run on an enabled job: compute the next
  run, quarantine an impossible cron expression, store the next run.
\<close>

definition reschedule :: "'tz chrono \<Rightarrow> u64 \<Rightarrow> CronJob \<Rightarrow> bool \<times> CronJob" where
  "reschedule C now job =
     (let next = compute_next_run C (job_schedule job) now;
          (q, job) = maybe_quarantine_for_impossible_cron job next
      in (q, set_next next job))"

definition load_job :: "'tz chrono \<Rightarrow> u64 \<Rightarrow> CronJob \<Rightarrow> bool \<times> CronJob" where
  "load_job C now job =
     (let job = set_running None job
      in if job_enabled job then reschedule C now job else (False, job))"

text \<open>\<^verbatim>\<open>load\<close>; \<open>readable\<close> is false when the file cannot be read (or is too large) or does not parse.\<close>

definition cron_load :: "'tz chrono \<Rightarrow> env \<Rightarrow> bool \<Rightarrow> CronScheduler \<Rightarrow> CronScheduler" where
  "cron_load C e readable s =
     (if cs_persist_path s = None \<or> \<not> readable then s
      else (case cs_disk s of
              None \<Rightarrow> s
            | Some data \<Rightarrow>
                (let loaded = map (load_job C (env_now e) \<circ> restore_job) data;
                     s = s\<lparr>cs_jobs := map snd loaded\<rparr>
                 in if list_ex fst loaded then flush_to_disk (env_fault e) s else s)))"

subsection \<open>Queries\<close>

definition is_enabled :: "CronScheduler \<Rightarrow> bool" where
  "is_enabled s = cs_enabled s"

definition cron_status :: "CronScheduler \<Rightarrow> CronStatus" where
  "cron_status s =
     (let jobs = filter job_enabled (cs_jobs s);
          nexts = List.map_filter (\<lambda>j. next_run_at_ms (job_state j)) jobs
      in \<lparr>status_enabled = cs_enabled s, status_jobs = length jobs,
          status_next_run_at_ms = first_min_by (\<lambda>t. t) nexts\<rparr>)"

definition cron_list :: "bool \<Rightarrow> CronScheduler \<Rightarrow> CronJob list" where
  "cron_list include_disabled s =
     sort_key (\<lambda>j. case next_run_at_ms (job_state j) of None \<Rightarrow> u64_max | Some t \<Rightarrow> t)
       (if include_disabled then cs_jobs s else filter job_enabled (cs_jobs s))"

definition cron_get :: "string \<Rightarrow> CronScheduler \<Rightarrow> CronJob option" where
  "cron_get i s = List.find (\<lambda>j. job_id j = i) (cs_jobs s)"

definition last_n :: "nat \<Rightarrow> 'a list \<Rightarrow> 'a list" where
  "last_n n xs = (if length xs > n then drop (length xs - n) xs else xs)"

definition cron_runs :: "string option \<Rightarrow> usize option \<Rightarrow> CronScheduler \<Rightarrow> CronRunLogEntry list" where
  "cron_runs i limit s =
     last_n (min (case limit of None \<Rightarrow> 200 | Some l \<Rightarrow> l) 5000)
       (case i of None \<Rightarrow> cs_run_log s | Some i \<Rightarrow> filter (\<lambda>x. log_job_id x = i) (cs_run_log s))"

subsection \<open>Adding, updating and removing jobs\<close>

definition MAX_JOBS :: usize where
  "MAX_JOBS = 500"

definition last_used_at :: "CronJob \<Rightarrow> u64" where
  "last_used_at job =
     max (max (case last_run_at_ms (job_state job) of None \<Rightarrow> 0 | Some t \<Rightarrow> t) (job_updated_at_ms job))
       (job_created_at_ms job)"

definition anchored :: "u64 \<Rightarrow> CronSchedule \<Rightarrow> CronSchedule" where
  "anchored now sch = (case sch of Every ev None \<Rightarrow> Every ev (Some now) | other \<Rightarrow> other)"

definition new_job :: "'tz chrono \<Rightarrow> env \<Rightarrow> CronJobCreate \<Rightarrow> CronJob" where
  "new_job C e input =
     (let now = env_now e;
          sch = anchored now (create_schedule input)
      in \<lparr>job_id = env_uuid e, job_agent_id = create_agent_id input, job_name = create_name input,
          job_description = create_description input, job_enabled = create_enabled input,
          job_delete_after_run = create_delete_after_run input, job_created_at_ms = now,
          job_updated_at_ms = now, job_schedule = sch,
          job_session_target = create_session_target input, job_wake_mode = create_wake_mode input,
          job_payload = create_payload input, job_isolation = create_isolation input,
          job_state = \<lparr>next_run_at_ms = (if create_enabled input then compute_next_run C sch now else None),
            running_at_ms = None, last_run_at_ms = None, last_status = None, last_error = None,
            last_duration_ms = None\<rparr>\<rparr>)"

definition eviction :: "CronJob list \<Rightarrow> nat option" where
  "eviction jobs =
     map_option fst (first_min_by (\<lambda>(i, j). last_used_at j)
       (filter (\<lambda>(i, j). running_at_ms (job_state j) = None) (enumerate 0 jobs)))"

definition cron_add ::
    "'tz chrono \<Rightarrow> env \<Rightarrow> CronJobCreate \<Rightarrow> CronScheduler \<Rightarrow> (CronError + CronJob) \<times> CronScheduler" where
  "cron_add C e input s =
     (let job = new_job C e input;
          jobs = cs_jobs s;
          finish = (\<lambda>evicted jobs.
            let s = flush_to_disk (env_fault e) (s\<lparr>cs_jobs := jobs @ [job]\<rparr>);
                s = (case evicted of
                       None \<Rightarrow> s
                     | Some v \<Rightarrow> emit_event \<lparr>event_job_id = job_id v, event_action = Removed,
                         event_next_run_at_ms = None,
                         event_details = Some (EvictedBy (job_id job))\<rparr> s)
            in (Inr job, emit_event \<lparr>event_job_id = job_id job, event_action = Added,
                  event_next_run_at_ms = next_run_at_ms (job_state job), event_details = None\<rparr> s))
      in if length jobs \<ge> MAX_JOBS then
           (case eviction jobs of
              None \<Rightarrow> (Inl (LimitExceeded MAX_JOBS), s)
            | Some i \<Rightarrow> finish (Some (jobs ! i)) (take i jobs @ drop (Suc i) jobs))
         else finish None jobs)"

text \<open>\<^verbatim>\<open>iter_mut().find(..)\<close>: the first job with the identifier is changed in place.\<close>

fun update_job :: "string \<Rightarrow> (CronJob \<Rightarrow> CronJob) \<Rightarrow> CronJob list \<Rightarrow> CronJob list" where
  "update_job i f [] = []"
| "update_job i f (j # js) = (if job_id j = i then f j # js else j # update_job i f js)"

definition patched :: "'a option \<Rightarrow> 'a \<Rightarrow> 'a" where
  "patched p old = (case p of None \<Rightarrow> old | Some x \<Rightarrow> x)"

definition apply_patch :: "u64 \<Rightarrow> CronJobPatch \<Rightarrow> CronJob \<Rightarrow> CronJob" where
  "apply_patch now p j =
     j\<lparr>job_name := patched (patch_name p) (job_name j),
       job_agent_id := (case patch_agent_id p of None \<Rightarrow> job_agent_id j | Some x \<Rightarrow> Some x),
       job_description := (case patch_description p of None \<Rightarrow> job_description j | Some x \<Rightarrow> Some x),
       job_enabled := patched (patch_enabled p) (job_enabled j),
       job_delete_after_run :=
         (case patch_delete_after_run p of None \<Rightarrow> job_delete_after_run j | Some x \<Rightarrow> Some x),
       job_schedule := (case patch_schedule p of None \<Rightarrow> job_schedule j | Some x \<Rightarrow> anchored now x),
       job_session_target := patched (patch_session_target p) (job_session_target j),
       job_wake_mode := patched (patch_wake_mode p) (job_wake_mode j),
       job_payload := patched (patch_payload p) (job_payload j),
       job_isolation := (case patch_isolation p of None \<Rightarrow> job_isolation j | Some x \<Rightarrow> Some x),
       job_updated_at_ms := now\<rparr>"

definition updated_job :: "'tz chrono \<Rightarrow> u64 \<Rightarrow> CronJobPatch \<Rightarrow> CronJob \<Rightarrow> CronJob" where
  "updated_job C now p j =
     (let j = apply_patch now p j
      in if job_enabled j then snd (reschedule C now j)
         else set_running None (set_next None j))"

definition cron_update ::
    "'tz chrono \<Rightarrow> env \<Rightarrow> string \<Rightarrow> CronJobPatch \<Rightarrow> CronScheduler \<Rightarrow> (CronError + CronJob) \<times> CronScheduler" where
  "cron_update C e i p s =
     (case cron_get i s of
        None \<Rightarrow> (Inl (JobNotFound i), s)
      | Some j \<Rightarrow>
          (let j' = updated_job C (env_now e) p j;
               s = flush_to_disk (env_fault e) (s\<lparr>cs_jobs := update_job i (\<lambda>_. j') (cs_jobs s)\<rparr>)
           in (Inr j', emit_event \<lparr>event_job_id = i, event_action = Updated,
                 event_next_run_at_ms = next_run_at_ms (job_state j'), event_details = None\<rparr> s)))"

definition cron_remove :: "save_fault option \<Rightarrow> string \<Rightarrow> CronScheduler \<Rightarrow> CronRemoveResult \<times> CronScheduler" where
  "cron_remove fault i s =
     (let jobs = filter (\<lambda>j. job_id j \<noteq> i) (cs_jobs s);
          was_removed = (length jobs \<noteq> length (cs_jobs s));
          s = s\<lparr>cs_jobs := jobs\<rparr>
      in (\<lparr>remove_ok = True, removed = was_removed\<rparr>,
          if was_removed then
            emit_event \<lparr>event_job_id = i, event_action = Removed, event_next_run_at_ms = None,
              event_details = None\<rparr> (flush_to_disk fault s)
          else s))"

subsection \<open>Running jobs\<close>

definition is_due :: "CronRunMode \<Rightarrow> u64 \<Rightarrow> CronJob \<Rightarrow> bool" where
  "is_due mode now j =
     (case mode of
        Force \<Rightarrow> True
      | Due \<Rightarrow> if \<not> job_enabled j then False
               else (case next_run_at_ms (job_state j) of None \<Rightarrow> False | Some next \<Rightarrow> now \<ge> next))"

definition started_job :: "'tz chrono \<Rightarrow> u64 \<Rightarrow> CronJob \<Rightarrow> CronJob" where
  "started_job C now j = set_next (compute_next_run C (job_schedule j) now) (set_running (Some now) j)"

definition cron_run ::
    "'tz chrono \<Rightarrow> env \<Rightarrow> string \<Rightarrow> CronRunMode option \<Rightarrow> CronScheduler \<Rightarrow>
     (CronError + CronRunResult) \<times> CronScheduler" where
  "cron_run C e i mode s =
     (case cron_get i s of
        None \<Rightarrow> (Inl (JobNotFound i), s)
      | Some j \<Rightarrow>
          if \<not> is_due (case mode of None \<Rightarrow> Due | Some m \<Rightarrow> m) (env_now e) j then
            (Inr \<lparr>result_ok = True, result_ran = False, result_reason = Some NotDue,
                  result_payload = None, result_job_id = i\<rparr>, s)
          else
            (let j' = started_job C (env_now e) j;
                 s = flush_to_disk (env_fault e) (s\<lparr>cs_jobs := update_job i (\<lambda>_. j') (cs_jobs s)\<rparr>);
                 s = emit_event \<lparr>event_job_id = i, event_action = Started,
                       event_next_run_at_ms = next_run_at_ms (job_state j'), event_details = None\<rparr> s
             in (Inr \<lparr>result_ok = True, result_ran = True, result_reason = None,
                      result_payload = Some (job_payload j), result_job_id = i\<rparr>, s)))"

definition CRON_TICK_JUMP_THRESHOLD_MS :: u64 where
  "CRON_TICK_JUMP_THRESHOLD_MS = 10 * 60 * 1000"

definition clock_jumped :: "u64 \<Rightarrow> u64 \<Rightarrow> bool" where
  "clock_jumped prev now \<longleftrightarrow>
     prev > 0 \<and> now > u64_saturating_add prev CRON_TICK_JUMP_THRESHOLD_MS \<or>
     prev > 0 \<and> prev > u64_saturating_add now CRON_TICK_JUMP_THRESHOLD_MS"

definition due_now :: "u64 \<Rightarrow> CronJob \<Rightarrow> bool" where
  "due_now now j \<longleftrightarrow>
     job_enabled j \<and> running_at_ms (job_state j) = None \<and>
     (case next_run_at_ms (job_state j) of None \<Rightarrow> False | Some next \<Rightarrow> now \<ge> next)"

definition get_due_job_ids :: "'tz chrono \<Rightarrow> env \<Rightarrow> CronScheduler \<Rightarrow> string list \<times> CronScheduler" where
  "get_due_job_ids C e s =
     (let now = env_now e;
          prev = cs_last_tick_observed_ms s;
          s = s\<lparr>cs_last_tick_observed_ms := now\<rparr>
      in if clock_jumped prev now then
           ([], flush_to_disk (env_fault e)
             (s\<lparr>cs_jobs := map (\<lambda>j. if job_enabled j then snd (reschedule C now j) else j) (cs_jobs s)\<rparr>))
         else (map job_id (filter (due_now now) (cs_jobs s)), s))"

definition finished_job :: "u64 \<Rightarrow> CronJobStatus \<Rightarrow> u64 \<Rightarrow> string option \<Rightarrow> CronJob \<Rightarrow> CronJob" where
  "finished_job now status duration error j =
     j\<lparr>job_state := (job_state j)\<lparr>running_at_ms := None, last_run_at_ms := Some now,
         last_duration_ms := Some duration, last_status := Some status, last_error := error\<rparr>\<rparr>"

text \<open>The run log keeps the last 1000 entries.\<close>

definition record_run :: "CronRunLogEntry \<Rightarrow> CronScheduler \<Rightarrow> CronScheduler" where
  "record_run entry s =
     (let log = cs_run_log s @ [entry]
      in s\<lparr>cs_run_log := (if length log > 1000 then drop (length log - 1000) log else log)\<rparr>)"

text \<open>\<^verbatim>\<open>mark_run_finished\<close>; \<open>fault\<close> is what goes wrong in the flush of the removal of a job that is
  deleted after its run.\<close>

definition mark_run_finished ::
    "env \<Rightarrow> save_fault option \<Rightarrow> string \<Rightarrow> CronJobStatus \<Rightarrow> u64 \<Rightarrow> string option \<Rightarrow> CronScheduler \<Rightarrow>
     (CronError + unit) \<times> CronScheduler" where
  "mark_run_finished e fault i status duration error s =
     (case cron_get i s of
        None \<Rightarrow> (Inl (JobNotFound i), s)
      | Some j \<Rightarrow>
          (let now = env_now e;
               j' = finished_job now status duration error j;
               next_run = next_run_at_ms (job_state j');
               s = flush_to_disk (env_fault e) (s\<lparr>cs_jobs := update_job i (\<lambda>_. j') (cs_jobs s)\<rparr>);
               entry = \<lparr>log_ts = now, log_job_id = i, log_action = ''finished'',
                 log_status = Some status, log_error = error, log_summary = None,
                 log_run_at_ms = Some now, log_duration_ms = Some duration,
                 log_next_run_at_ms = next_run\<rparr>;
               s = record_run entry s;
               s = emit_event \<lparr>event_job_id = i, event_action = Finished,
                     event_next_run_at_ms = next_run,
                     event_details = Some (RunDetails status duration)\<rparr> s
           in (Inr (), if job_delete_after_run j' = Some True then snd (cron_remove fault i s) else s)))"

end
