(* ===== verification/Agent_Runs.thy ===== *)
theory Agent_Runs
  imports Carapace_Prelude
begin

text \<open>
  The registry of agent runs, \<^verbatim>\<open>AgentRunRegistry\<close> of \<^verbatim>\<open>src/server/ws/handlers/sessions.rs\<close>, and what becomes of a run whose
  task has ended, \<^verbatim>\<open>spawn_run\<close> of \<^verbatim>\<open>src/agent/mod.rs\<close>. A one-shot channel is a number; \<open>rr_sent\<close> lists what was sent on
  which channel. The token that signals cancellation is the field \<open>run_token_cancelled\<close>.
\<close>

datatype AgentRunStatus = Queued | Running | Completed | Failed | Cancelled

definition is_active :: "AgentRunStatus \<Rightarrow> bool" where
  "is_active s \<longleftrightarrow> s = Queued \<or> s = Running"

record AgentRun =
  run_id :: string
  run_session_key :: string
  run_delivery_recipient_id :: "string option"
  run_status :: AgentRunStatus
  run_message :: string
  run_response :: string
  run_error :: "string option"
  run_created_at :: u64
  run_started_at :: "u64 option"
  run_completed_at :: "u64 option"
  run_token_cancelled :: bool
  run_waiters :: "nat list"

record AgentRunResult =
  rs_run_id :: string
  rs_status :: AgentRunStatus
  rs_response :: "string option"
  rs_error :: "string option"
  rs_started_at :: "u64 option"
  rs_completed_at :: "u64 option"

record AgentRunRegistry =
  rr_runs :: "(string, AgentRun) hmap"
  rr_by_session :: "(string, string list) hmap"
  rr_next_channel :: nat
  rr_sent :: "(nat \<times> AgentRunResult) list"

datatype AgentRunRegisterOutcome = Registered | DuplicateActive | AtCap usize usize

definition registry_new :: AgentRunRegistry where
  "registry_new = \<lparr>rr_runs = [], rr_by_session = [], rr_next_channel = 0, rr_sent = []\<rparr>"

definition MAX_RUNS :: usize where "MAX_RUNS = 1000"

definition active_run_count :: "AgentRunRegistry \<Rightarrow> usize" where
  "active_run_count g = hm_count (\<lambda>r. is_active (run_status r)) (rr_runs g)"

definition remove_run :: "string \<Rightarrow> AgentRunRegistry \<Rightarrow> AgentRun option \<times> AgentRunRegistry" where
  "remove_run i g =
     (case hm_get (rr_runs g) i of
        None \<Rightarrow> (None, g)
      | Some run \<Rightarrow>
          (Some run, g\<lparr>rr_runs := hm_remove i (rr_runs g),
                       rr_by_session := hm_modify (run_session_key run) (filter (\<lambda>j. j \<noteq> i)) (rr_by_session g)\<rparr>))"

definition remove_runs :: "string list \<Rightarrow> AgentRunRegistry \<Rightarrow> AgentRunRegistry" where
  "remove_runs is g = fold (\<lambda>i g. snd (remove_run i g)) is g"

definition completed_or_0 :: "AgentRun \<Rightarrow> u64" where
  "completed_or_0 r = (case run_completed_at r of None \<Rightarrow> 0 | Some t \<Rightarrow> t)"

definition prune_completed :: "AgentRunRegistry \<Rightarrow> AgentRunRegistry" where
  "prune_completed g =
     (let target = MAX_RUNS div 2
      in if length (rr_runs g) \<le> target then g
         else
           (let terminal = sort_key snd (map (\<lambda>(i, r). (i, completed_or_0 r))
                  (filter (\<lambda>(i, r). \<not> is_active (run_status r)) (rr_runs g)));
                to_remove = length (rr_runs g) - target
            in remove_runs (map fst (take to_remove terminal)) g))"

text \<open>The insertion of \<^verbatim>\<open>try_register\<close>, after its check for a run that is still active.\<close>

definition insert_run :: "AgentRun \<Rightarrow> AgentRunRegistry \<Rightarrow> AgentRunRegistry" where
  "insert_run run g =
     (let g = g\<lparr>rr_runs := hm_insert (run_id run) run (rr_runs g),
                rr_by_session := hm_modify (run_session_key run) (\<lambda>is. is @ [run_id run])
                  (if hm_contains (rr_by_session g) (run_session_key run) then rr_by_session g
                   else hm_insert (run_session_key run) [] (rr_by_session g))\<rparr>
      in if length (rr_runs g) > MAX_RUNS then prune_completed g else g)"

definition active_run :: "string \<Rightarrow> AgentRunRegistry \<Rightarrow> bool" where
  "active_run i g = (case hm_get (rr_runs g) i of None \<Rightarrow> False | Some r \<Rightarrow> is_active (run_status r))"

definition try_register :: "AgentRun \<Rightarrow> AgentRunRegistry \<Rightarrow> AgentRunRegisterOutcome \<times> AgentRunRegistry" where
  "try_register run g = (if active_run (run_id run) g then (DuplicateActive, g) else (Registered, insert_run run g))"

definition try_register_with_cap :: "AgentRun \<Rightarrow> usize \<Rightarrow> AgentRunRegistry \<Rightarrow> AgentRunRegisterOutcome \<times> AgentRunRegistry" where
  "try_register_with_cap run max_active g =
     (if active_run (run_id run) g then try_register run g
      else if active_run_count g \<ge> max_active then (AtCap (active_run_count g) max_active, g)
      else try_register run g)"

definition register_run :: "AgentRun \<Rightarrow> AgentRunRegistry \<Rightarrow> bool \<times> AgentRunRegistry" where
  "register_run run g = (case try_register run g of (outcome, g) \<Rightarrow> (outcome = Registered, g))"

definition get_runs_for_session :: "string \<Rightarrow> AgentRunRegistry \<Rightarrow> string list" where
  "get_runs_for_session key g = (case hm_get (rr_by_session g) key of None \<Rightarrow> [] | Some is \<Rightarrow> is)"

definition get_active_runs_for_session :: "string \<Rightarrow> AgentRunRegistry \<Rightarrow> string list" where
  "get_active_runs_for_session key g = filter (\<lambda>i. active_run i g) (get_runs_for_session key g)"

definition mark_started :: "u64 \<Rightarrow> string \<Rightarrow> AgentRunRegistry \<Rightarrow> bool \<times> AgentRunRegistry" where
  "mark_started now i g =
     (case hm_get (rr_runs g) i of
        None \<Rightarrow> (False, g)
      | Some run \<Rightarrow>
          if run_status run = Cancelled \<or> run_token_cancelled run then (False, g)
          else (True, g\<lparr>rr_runs := hm_modify i (\<lambda>r. r\<lparr>run_status := Running, run_started_at := Some now\<rparr>) (rr_runs g)\<rparr>))"

text \<open>The common part of \<^verbatim>\<open>mark_completed\<close>, \<^verbatim>\<open>mark_failed\<close> and \<^verbatim>\<open>mark_cancelled\<close>: the run is updated and its waiters are told.\<close>

definition settle_run :: "string \<Rightarrow> (AgentRun \<Rightarrow> AgentRun) \<Rightarrow> (AgentRun \<Rightarrow> AgentRunResult) \<Rightarrow> AgentRunRegistry \<Rightarrow> bool \<times> AgentRunRegistry" where
  "settle_run i change answer g =
     (case hm_get (rr_runs g) i of
        None \<Rightarrow> (False, g)
      | Some run \<Rightarrow>
          (True, g\<lparr>rr_runs := hm_modify i (\<lambda>r. (change r)\<lparr>run_waiters := []\<rparr>) (rr_runs g),
                   rr_sent := rr_sent g @ map (\<lambda>w. (w, answer (change run))) (run_waiters run)\<rparr>))"

definition run_result :: "AgentRunStatus \<Rightarrow> string option \<Rightarrow> string option \<Rightarrow> AgentRun \<Rightarrow> AgentRunResult" where
  "run_result status response error r =
     \<lparr>rs_run_id = run_id r, rs_status = status, rs_response = response, rs_error = error,
      rs_started_at = run_started_at r, rs_completed_at = run_completed_at r\<rparr>"

definition mark_completed :: "u64 \<Rightarrow> string \<Rightarrow> string \<Rightarrow> AgentRunRegistry \<Rightarrow> bool \<times> AgentRunRegistry" where
  "mark_completed now i response =
     settle_run i (\<lambda>r. r\<lparr>run_status := Completed, run_response := response, run_completed_at := Some now\<rparr>)
       (run_result Completed (Some response) None)"

definition mark_failed :: "u64 \<Rightarrow> string \<Rightarrow> string \<Rightarrow> AgentRunRegistry \<Rightarrow> bool \<times> AgentRunRegistry" where
  "mark_failed now i error =
     settle_run i (\<lambda>r. r\<lparr>run_status := Failed, run_error := Some error, run_completed_at := Some now\<rparr>)
       (run_result Failed None (Some error))"

definition mark_cancelled :: "u64 \<Rightarrow> string \<Rightarrow> AgentRunRegistry \<Rightarrow> bool \<times> AgentRunRegistry" where
  "mark_cancelled now i =
     settle_run i (\<lambda>r. r\<lparr>run_token_cancelled := True, run_status := Cancelled, run_completed_at := Some now\<rparr>)
       (run_result Cancelled None (Some ''cancelled''))"

definition append_delta :: "string \<Rightarrow> string \<Rightarrow> AgentRunRegistry \<Rightarrow> bool \<times> AgentRunRegistry" where
  "append_delta i delta g =
     (case hm_get (rr_runs g) i of
        None \<Rightarrow> (False, g)
      | Some run \<Rightarrow>
          if run_status run = Running
          then (True, g\<lparr>rr_runs := hm_modify i (\<lambda>r. r\<lparr>run_response := run_response r @ delta\<rparr>) (rr_runs g)\<rparr>)
          else (False, g))"

definition add_waiter :: "string \<Rightarrow> AgentRunRegistry \<Rightarrow> nat option \<times> AgentRunRegistry" where
  "add_waiter i g =
     (case hm_get (rr_runs g) i of
        None \<Rightarrow> (None, g)
      | Some run \<Rightarrow>
          (let w = rr_next_channel g; g = g\<lparr>rr_next_channel := Suc w\<rparr>
           in if \<not> is_active (run_status run) then
                (Some w, g\<lparr>rr_sent := rr_sent g @
                   [(w, run_result (run_status run) (if run_status run = Completed then Some (run_response run) else None)
                          (run_error run) run)]\<rparr>)
              else (Some w, g\<lparr>rr_runs := hm_modify i (\<lambda>r. r\<lparr>run_waiters := run_waiters r @ [w]\<rparr>) (rr_runs g)\<rparr>)))"

definition cleanup_old_runs :: "u64 \<Rightarrow> AgentRunRegistry \<Rightarrow> AgentRunRegistry" where
  "cleanup_old_runs now g =
     (let cutoff = u64_saturating_sub now (3600 * 1000)
      in remove_runs (map fst (filter (\<lambda>(i, r). \<not> is_active (run_status r) \<and> completed_or_0 r < cutoff) (rr_runs g))) g)"

subsection \<open>The end of a run\<close>

text \<open>How the task of a run ended: the result of \<^verbatim>\<open>execute_run\<close> or a panic with its text.\<close>

datatype run_end = Ended_ok | Ended_cancelled | Ended_error string | Ended_panic string

definition spawn_run_settle :: "u64 \<Rightarrow> string \<Rightarrow> run_end \<Rightarrow> AgentRunRegistry \<Rightarrow> AgentRunRegistry" where
  "spawn_run_settle now i r g =
     (case r of
        Ended_ok \<Rightarrow> g
      | Ended_cancelled \<Rightarrow>
          (if (case hm_get (rr_runs g) i of None \<Rightarrow> False | Some run \<Rightarrow> run_status run = Cancelled) then g
           else snd (mark_cancelled now i g))
      | Ended_error e \<Rightarrow> snd (mark_failed now i e g)
      | Ended_panic msg \<Rightarrow> snd (mark_failed now i (''panic: '' @ msg) g))"

text \<open>The supervisor, when the task itself has gone down.\<close>

definition supervisor_settle :: "u64 \<Rightarrow> string \<Rightarrow> string \<Rightarrow> AgentRunRegistry \<Rightarrow> AgentRunRegistry" where
  "supervisor_settle now i msg g = (if active_run i g then snd (mark_failed now i msg g) else g)"

subsection \<open>Operations over time\<close>

datatype run_op =
    Op_register AgentRun usize
  | Op_start u64 string
  | Op_complete u64 string string
  | Op_fail u64 string string
  | Op_cancel u64 string
  | Op_delta string string
  | Op_wait string
  | Op_cleanup u64
  | Op_remove string
  | Op_end u64 string run_end
  | Op_supervise u64 string string

fun run_step :: "run_op \<Rightarrow> AgentRunRegistry \<Rightarrow> AgentRunRegistry" where
  "run_step (Op_register r cap) g = snd (try_register_with_cap r cap g)"
| "run_step (Op_start now i) g = snd (mark_started now i g)"
| "run_step (Op_complete now i s) g = snd (mark_completed now i s g)"
| "run_step (Op_fail now i s) g = snd (mark_failed now i s g)"
| "run_step (Op_cancel now i) g = snd (mark_cancelled now i g)"
| "run_step (Op_delta i s) g = snd (append_delta i s g)"
| "run_step (Op_wait i) g = snd (add_waiter i g)"
| "run_step (Op_cleanup now) g = cleanup_old_runs now g"
| "run_step (Op_remove i) g = snd (remove_run i g)"
| "run_step (Op_end now i r) g = spawn_run_settle now i r g"
| "run_step (Op_supervise now i s) g = supervisor_settle now i s g"

text \<open>A run is registered as queued and without waiters, as all callers construct it.\<close>

fun run_op_ok :: "run_op \<Rightarrow> AgentRunRegistry \<Rightarrow> bool" where
  "run_op_ok (Op_register r cap) g = (run_status r = Queued \<and> run_waiters r = [])"
| "run_op_ok _ g = True"

definition run_entry_ok :: "AgentRunRegistry \<Rightarrow> string \<Rightarrow> AgentRun \<Rightarrow> bool" where
  "run_entry_ok g i r \<longleftrightarrow>
     run_id r = i \<and> (\<not> is_active (run_status r) \<longrightarrow> run_waiters r = []) \<and> distinct (run_waiters r) \<and>
     (\<forall>w\<in>set (run_waiters r). w < rr_next_channel g \<and> w \<notin> fst ` set (rr_sent g))"

definition registry_ok :: "AgentRunRegistry \<Rightarrow> bool" where
  "registry_ok g \<longleftrightarrow>
     hm_wf (rr_runs g) \<and>
     (\<forall>i r. hm_get (rr_runs g) i = Some r \<longrightarrow> run_entry_ok g i r) \<and>
     (\<forall>i j r r'. hm_get (rr_runs g) i = Some r \<longrightarrow> hm_get (rr_runs g) j = Some r' \<longrightarrow> i \<noteq> j \<longrightarrow>
        set (run_waiters r) \<inter> set (run_waiters r') = {}) \<and>
     distinct (map fst (rr_sent g)) \<and> (\<forall>w\<in>fst ` set (rr_sent g). w < rr_next_channel g)"

lemma registry_okD:
  assumes "registry_ok g"
  shows "hm_wf (rr_runs g)" "hm_get (rr_runs g) i = Some r \<Longrightarrow> run_entry_ok g i r"
  using assms by (simp_all add: registry_ok_def)

lemma remove_run_sel [simp]:
  "rr_sent (snd (remove_run i g)) = rr_sent g" "rr_next_channel (snd (remove_run i g)) = rr_next_channel g"
  by (simp_all add: remove_run_def split: option.split)

lemma remove_run_get: "hm_get (rr_runs (snd (remove_run i g))) j = (if j = i then None else hm_get (rr_runs g) j)"
  by (auto simp: remove_run_def hm_simps split: option.split)

lemma remove_runs_sel:
  "rr_sent (remove_runs is g) = rr_sent g" "rr_next_channel (remove_runs is g) = rr_next_channel g"
  "hm_get (rr_runs (remove_runs is g)) j = (if j \<in> set is then None else hm_get (rr_runs g) j)"
  "hm_wf (rr_runs g) \<Longrightarrow> hm_wf (rr_runs (remove_runs is g))"
  "hm_count P (rr_runs (remove_runs is g)) \<le> hm_count P (rr_runs g)"
proof -
  have wf: "hm_wf (rr_runs g) \<Longrightarrow> hm_wf (rr_runs (snd (remove_run i g)))" for i g
    by (simp add: remove_run_def hm.wf_rem split: option.split)
  have count: "hm_count P (rr_runs (snd (remove_run i g))) \<le> hm_count P (rr_runs g)" for i g
  proof (cases "hm_get (rr_runs g) i")
    case (Some r)
    have "hm_count P (hm_remove i m) \<le> hm_count P m" for m :: "(string, AgentRun) hmap"
      by (induction m) (auto simp: hm_count_def hm_values_def hm_remove_def)
    with Some show ?thesis by (simp add: remove_run_def)
  qed (simp add: remove_run_def)
  show "rr_sent (remove_runs is g) = rr_sent g" "rr_next_channel (remove_runs is g) = rr_next_channel g"
    by (induction "is" arbitrary: g) (simp_all add: remove_runs_def)
  show "hm_get (rr_runs (remove_runs is g)) j = (if j \<in> set is then None else hm_get (rr_runs g) j)"
    by (induction "is" arbitrary: g) (auto simp: remove_runs_def remove_run_get)
  show "hm_wf (rr_runs g) \<Longrightarrow> hm_wf (rr_runs (remove_runs is g))"
    by (induction "is" arbitrary: g) (simp_all add: remove_runs_def wf)
  show "hm_count P (rr_runs (remove_runs is g)) \<le> hm_count P (rr_runs g)"
    by (induction "is" arbitrary: g) (auto simp: remove_runs_def intro: order_trans [OF _ count])
qed

text \<open>Pruning and clean-up remove runs that are over.\<close>

lemma prune_completed_eq:
  obtains "is" where "prune_completed g = remove_runs is g" "\<forall>i\<in>set is. hm_wf (rr_runs g) \<longrightarrow> \<not> active_run i g"
proof (cases "length (rr_runs g) \<le> MAX_RUNS div 2")
  case True
  then show ?thesis using that [of "[]"] by (simp add: prune_completed_def remove_runs_def)
next
  case False
  let ?t = "sort_key snd (map (\<lambda>(i, r). (i, completed_or_0 r)) (filter (\<lambda>(i, r). \<not> is_active (run_status r)) (rr_runs g)))"
  have "\<not> active_run i g" if "i \<in> set (map fst (take n ?t))" "hm_wf (rr_runs g)" for i n
    using that by (auto simp: active_run_def hm_get_iff [symmetric] dest!: in_set_takeD split: option.split)
  with False show ?thesis using that by (simp add: prune_completed_def Let_def)
qed

lemma cleanup_old_runs_eq:
  obtains "is" where "cleanup_old_runs now g = remove_runs is g" "\<forall>i\<in>set is. hm_wf (rr_runs g) \<longrightarrow> \<not> active_run i g"
  by (rule that [OF cleanup_old_runs_def [unfolded Let_def]])
     (auto simp: active_run_def hm_get_iff [symmetric] split: option.split)

lemma registry_ok_remove: "registry_ok g \<Longrightarrow> registry_ok (remove_runs is g)"
  unfolding registry_ok_def run_entry_ok_def remove_runs_sel(1,2,3)
  by (auto simp: remove_runs_sel(4) split: if_splits)

lemma registry_ok_modify:
  assumes ok: "registry_ok g" and r: "hm_get (rr_runs g) i = Some r"
    and f: "run_id (f r) = i" "run_waiters (f r) = run_waiters r" "is_active (run_status r) \<Longrightarrow> is_active (run_status (f r))"
  shows "registry_ok (g\<lparr>rr_runs := hm_modify i f (rr_runs g)\<rparr>)"
  using ok r f unfolding registry_ok_def run_entry_ok_def
  by (auto simp: hm_simps hm.wf_modi split: if_splits)

lemma registry_ok_settle:
  assumes ok: "registry_ok g" and f: "\<And>r. run_id (f r) = run_id r"
  shows "registry_ok (snd (settle_run i f answer g))"
proof (cases "hm_get (rr_runs g) i")
  case (Some r)
  have r: "run_entry_ok g i r" by (rule registry_okD(2) [OF ok Some])
  have sent: "distinct (map fst (rr_sent g @ map (\<lambda>w. (w, answer (f r))) (run_waiters r)))"
    using r ok by (auto simp: run_entry_ok_def registry_ok_def comp_def)
  have other: "w \<notin> set (run_waiters r)" if "hm_get (rr_runs g) j = Some r'" "j \<noteq> i" "w \<in> set (run_waiters r')" for j r' w
    using ok Some that unfolding registry_ok_def by blast
  show ?thesis unfolding registry_ok_def
  proof (intro conjI allI impI ballI)
    fix j x
    assume "hm_get (rr_runs (snd (settle_run i f answer g))) j = Some x"
    then show "run_entry_ok (snd (settle_run i f answer g)) j x"
      using Some r f other registry_okD(2) [OF ok, of j x]
      by (force simp: settle_run_def hm_simps run_entry_ok_def image_iff split: if_splits)
  qed (use Some sent ok r f in \<open>auto simp: settle_run_def hm_simps hm.wf_modi registry_ok_def run_entry_ok_def split: if_splits\<close>)
qed (simp add: ok settle_run_def)

lemma registry_ok_insert:
  assumes "registry_ok g" "run_status r = Queued" "run_waiters r = []"
  shows "registry_ok (insert_run r g)"
proof -
  let ?g = "g\<lparr>rr_runs := hm_insert (run_id r) r (rr_runs g),
                rr_by_session := hm_modify (run_session_key r) (\<lambda>is. is @ [run_id r])
                  (if hm_contains (rr_by_session g) (run_session_key r) then rr_by_session g
                   else hm_insert (run_session_key r) [] (rr_by_session g))\<rparr>"
  have "registry_ok ?g"
    using assms unfolding registry_ok_def run_entry_ok_def by (auto simp: hm_simps hm.wf_ins split: if_splits)
  moreover obtain "is" where "prune_completed ?g = remove_runs is ?g" by (rule prune_completed_eq)
  ultimately show ?thesis by (simp add: insert_run_def Let_def registry_ok_remove)
qed

lemma registry_ok_wait: "registry_ok g \<Longrightarrow> registry_ok (snd (add_waiter i g))"
proof (cases "hm_get (rr_runs g) i")
  case (Some r)
  assume ok: "registry_ok g"
  note e = registry_okD(2) [OF ok]
  have fresh: "rr_next_channel g \<notin> fst ` set (rr_sent g)" "\<And>j x. hm_get (rr_runs g) j = Some x \<Longrightarrow> rr_next_channel g \<notin> set (run_waiters x)"
    using ok e by (auto simp: registry_ok_def run_entry_ok_def)
  show ?thesis
  proof (cases "is_active (run_status r)")
    case True
    with ok Some fresh e show ?thesis unfolding registry_ok_def
      by (auto simp: add_waiter_def Let_def hm_simps hm.wf_modi run_entry_ok_def less_Suc_eq split: if_splits)
  next
    case False
    with ok Some fresh e show ?thesis unfolding registry_ok_def
      by (auto simp: add_waiter_def Let_def run_entry_ok_def less_Suc_eq)
  qed
qed (simp add: add_waiter_def)

lemma registry_ok_marks:
  "registry_ok g \<Longrightarrow> registry_ok (snd (mark_completed now i s g))"
  "registry_ok g \<Longrightarrow> registry_ok (snd (mark_failed now i s g))"
  "registry_ok g \<Longrightarrow> registry_ok (snd (mark_cancelled now i g))"
  unfolding mark_completed_def mark_failed_def mark_cancelled_def by (rule registry_ok_settle; simp)+

lemma run_step_ok: "registry_ok g \<Longrightarrow> run_op_ok op g \<Longrightarrow> registry_ok (run_step op g)"
proof (cases op)
  case (Op_register r cap)
  assume "registry_ok g" "run_op_ok op g"
  with Op_register show ?thesis by (simp add: try_register_with_cap_def try_register_def registry_ok_insert)
next
  case (Op_start now i)
  assume "registry_ok g" "run_op_ok op g"
  with Op_start show ?thesis
    by (auto simp: mark_started_def is_active_def dest: registry_okD(2) intro!: registry_ok_modify
        simp: run_entry_ok_def split: option.split)
next
  case (Op_delta i s)
  assume "registry_ok g"
  with Op_delta show ?thesis
    by (auto simp: append_delta_def run_entry_ok_def dest: registry_okD(2) intro!: registry_ok_modify split: option.split)
next
  case (Op_cleanup now)
  assume "registry_ok g"
  moreover obtain "is" where "cleanup_old_runs now g = remove_runs is g" by (rule cleanup_old_runs_eq)
  ultimately show ?thesis using Op_cleanup by (simp add: registry_ok_remove)
next
  case (Op_remove i)
  assume "registry_ok g"
  with Op_remove registry_ok_remove [of g "[i]"] show ?thesis by (simp add: remove_runs_def)
next
  case (Op_end now i r)
  assume "registry_ok g"
  with Op_end show ?thesis by (simp add: spawn_run_settle_def registry_ok_marks split: run_end.split)
qed (simp_all add: registry_ok_marks registry_ok_wait supervisor_settle_def)

interpretation runs: invariant_machine run_step registry_ok run_op_ok
  by unfold_locales (rule run_step_ok)

subsection \<open>Waiters\<close>

definition pending_waiter :: "string \<Rightarrow> nat \<Rightarrow> AgentRunRegistry \<Rightarrow> bool" where
  "pending_waiter i w g \<longleftrightarrow>
     (case hm_get (rr_runs g) i of None \<Rightarrow> False | Some r \<Rightarrow> is_active (run_status r) \<and> w \<in> set (run_waiters r))"

definition answered :: "string \<Rightarrow> nat \<Rightarrow> AgentRunRegistry \<Rightarrow> bool" where
  "answered i w g \<longleftrightarrow> (\<exists>a. (w, a) \<in> set (rr_sent g) \<and> rs_run_id a = i \<and> \<not> is_active (rs_status a))"

lemma pending_active: "pending_waiter i w g \<Longrightarrow> active_run i g"
  by (auto simp: pending_waiter_def active_run_def split: option.splits)

lemma settle_waiter:
  assumes "registry_ok g" "pending_waiter i w g"
    and "\<And>r. run_id (f r) = run_id r" "\<And>r. rs_run_id (answer r) = run_id r" "\<And>r. \<not> is_active (rs_status (answer r))"
  shows "pending_waiter i w (snd (settle_run j f answer g)) \<or> answered i w (snd (settle_run j f answer g))"
proof (cases "j = i")
  case True
  obtain r where r: "hm_get (rr_runs g) i = Some r" "w \<in> set (run_waiters r)"
    using assms(2) by (auto simp: pending_waiter_def split: option.splits)
  then have "run_id r = i" using registry_okD(2) [OF assms(1)] by (simp add: run_entry_ok_def)
  with r True assms(3-5) show ?thesis by (auto simp: answered_def settle_run_def image_iff)
next
  case False
  with assms(2) show ?thesis by (auto simp: pending_waiter_def settle_run_def hm_simps split: option.splits)
qed

lemma answered_sent: "answered i w g \<Longrightarrow> set (rr_sent g) \<subseteq> set (rr_sent g') \<Longrightarrow> answered i w g'"
  by (auto simp: answered_def)

lemma pending_remove:
  "hm_wf (rr_runs g) \<Longrightarrow> \<forall>j\<in>set is. \<not> active_run j g \<Longrightarrow> pending_waiter i w g \<Longrightarrow> pending_waiter i w (remove_runs is g)"
  using pending_active [of i w g] by (auto simp: pending_waiter_def remove_runs_sel(3))

lemma pending_insert:
  assumes "registry_ok g" "pending_waiter i w g" "\<not> active_run (run_id r) g"
  shows "pending_waiter i w (insert_run r g)"
proof -
  let ?g = "g\<lparr>rr_runs := hm_insert (run_id r) r (rr_runs g),
                rr_by_session := hm_modify (run_session_key r) (\<lambda>is. is @ [run_id r])
                  (if hm_contains (rr_by_session g) (run_session_key r) then rr_by_session g
                   else hm_insert (run_session_key r) [] (rr_by_session g))\<rparr>"
  have "run_id r \<noteq> i" using assms(2,3) pending_active by blast
  then have p: "pending_waiter i w ?g" using assms(2) by (simp add: pending_waiter_def hm_simps)
  have wf: "hm_wf (rr_runs ?g)" using registry_okD(1) [OF assms(1)] by (simp add: hm.wf_ins)
  obtain "is" where "prune_completed ?g = remove_runs is ?g" "\<forall>j\<in>set is. hm_wf (rr_runs ?g) \<longrightarrow> \<not> active_run j ?g"
    by (rule prune_completed_eq)
  with wf p pending_remove [of ?g "is"] show ?thesis by (simp add: insert_run_def Let_def)
qed

lemma prune_sent: "rr_sent (prune_completed g) = rr_sent g"
  by (simp add: prune_completed_def Let_def remove_runs_sel)

lemma answers_unique: "distinct (map fst xs) \<Longrightarrow> (w, a) \<in> set xs \<Longrightarrow> filter (\<lambda>(v, _). v = w) xs = [(w, a)]"
proof (induction xs)
  case (Cons x xs)
  then show ?case by (cases x) (force simp: filter_empty_conv)
qed simp

lemma sent_grows: "set (rr_sent g) \<subseteq> set (rr_sent (run_step op g))"
proof (cases op)
  case (Op_register r cap)
  then show ?thesis by (simp add: try_register_with_cap_def try_register_def insert_run_def Let_def prune_sent)
next
  case (Op_cleanup now)
  then show ?thesis by (simp add: cleanup_old_runs_def Let_def remove_runs_sel)
next
  case (Op_end now i r)
  then show ?thesis
    by (auto simp: spawn_run_settle_def mark_failed_def mark_cancelled_def settle_run_def split: run_end.split option.split)
qed (auto simp: mark_started_def mark_completed_def mark_failed_def mark_cancelled_def settle_run_def append_delta_def
    add_waiter_def supervisor_settle_def Let_def split: option.split)

lemmas marks_def = mark_completed_def mark_failed_def mark_cancelled_def

lemma marks_waiter:
  assumes "registry_ok g" "pending_waiter i w g"
  shows "pending_waiter i w (snd (mark_completed now j s g)) \<or> answered i w (snd (mark_completed now j s g))"
    "pending_waiter i w (snd (mark_failed now j s g)) \<or> answered i w (snd (mark_failed now j s g))"
    "pending_waiter i w (snd (mark_cancelled now j g)) \<or> answered i w (snd (mark_cancelled now j g))"
  unfolding marks_def by (rule settle_waiter [OF assms]; simp add: run_result_def is_active_def)+

lemma waiter_step:
  assumes "registry_ok g" "pending_waiter i w g" "op \<noteq> Op_remove i"
  shows "pending_waiter i w (run_step op g) \<or> answered i w (run_step op g)"
proof (cases op)
  case (Op_register r cap)
  with assms show ?thesis by (simp add: try_register_with_cap_def try_register_def pending_insert)
next
  case (Op_start now j)
  with assms(2) show ?thesis
    by (auto simp: mark_started_def pending_waiter_def hm_simps is_active_def split: option.splits)
next
  case (Op_delta j s)
  with assms(2) show ?thesis by (auto simp: append_delta_def pending_waiter_def hm_simps split: option.splits)
next
  case (Op_wait j)
  with assms(2) show ?thesis by (auto simp: add_waiter_def Let_def pending_waiter_def hm_simps split: option.splits)
next
  case (Op_cleanup now)
  obtain "is" where "cleanup_old_runs now g = remove_runs is g" "\<forall>j\<in>set is. hm_wf (rr_runs g) \<longrightarrow> \<not> active_run j g"
    by (rule cleanup_old_runs_eq)
  with Op_cleanup assms pending_remove [of g "is"] registry_okD(1) [OF assms(1)] show ?thesis by simp
next
  case (Op_remove j)
  with assms show ?thesis by (simp add: pending_waiter_def remove_run_get)
next
  case (Op_end now j r)
  with assms show ?thesis by (auto simp: spawn_run_settle_def marks_waiter split: run_end.split)
qed (use assms in \<open>auto simp: marks_waiter supervisor_settle_def\<close>)

lemma waiter_run:
  assumes "registry_ok g" "run_ok run_op_ok run_step ops g" "pending_waiter i w g \<or> answered i w g" "Op_remove i \<notin> set ops"
  shows "pending_waiter i w (fold run_step ops g) \<or> answered i w (fold run_step ops g)"
  using assms
proof (induction ops arbitrary: g)
  case (Cons op ops)
  have "pending_waiter i w (run_step op g) \<or> answered i w (run_step op g)"
    using Cons.prems waiter_step [of g i w op] answered_sent [OF _ sent_grows, of i w g op] by auto
  with Cons show ?case by (simp add: run_step_ok)
qed simp

lemma registry_new_ok: "registry_ok registry_new"
  by (simp add: registry_ok_def registry_new_def)

lemma add_waiter_pending:
  "registry_ok g \<Longrightarrow> add_waiter i g = (Some w, g') \<Longrightarrow> pending_waiter i w g' \<or> answered i w g'"
  using registry_okD(2) [of g i]
  by (auto simp: add_waiter_def Let_def pending_waiter_def answered_def run_result_def run_entry_ok_def hm_simps
      split: option.splits if_splits)


subsection \<open>The cap on concurrent runs\<close>

text \<open>
  Every caller passes the cap of the configuration of its moment, here at most \<open>c\<close>, and starts a run only after registering
  it: a run that is over is not started again.
\<close>

fun cap_op_ok :: "usize \<Rightarrow> run_op \<Rightarrow> AgentRunRegistry \<Rightarrow> bool" where
  "cap_op_ok c (Op_register r cap) g = (cap \<le> c)"
| "cap_op_ok c (Op_start now i) g = (hm_contains (rr_runs g) i \<longrightarrow> active_run i g)"
| "cap_op_ok c _ g = True"

lemma hm_count_modify_at:
  "hm_get m k = Some v \<Longrightarrow> (P (f v) \<Longrightarrow> P v) \<Longrightarrow> hm_count P (hm_modify k f m) \<le> hm_count P m"
  by (induction m) (auto simp: hm_count_def hm_modify_def hm_values_def hm_get_def split: if_splits)

lemma active_remove: "active_run_count (remove_runs is g) \<le> active_run_count g"
  by (simp add: active_run_count_def remove_runs_sel(5))

lemma active_settle: "(\<And>r. \<not> is_active (run_status (f r))) \<Longrightarrow> active_run_count (snd (settle_run i f answer g)) \<le> active_run_count g"
  by (auto simp: settle_run_def active_run_count_def intro!: hm_count_modify_le split: option.split)

lemma active_marks:
  "active_run_count (snd (mark_completed now i s g)) \<le> active_run_count g"
  "active_run_count (snd (mark_failed now i s g)) \<le> active_run_count g"
  "active_run_count (snd (mark_cancelled now i g)) \<le> active_run_count g"
  unfolding marks_def by (rule active_settle; simp add: is_active_def)+

lemma active_insert: "active_run_count (insert_run r g) \<le> Suc (active_run_count g)"
proof -
  let ?g = "g\<lparr>rr_runs := hm_insert (run_id r) r (rr_runs g),
                rr_by_session := hm_modify (run_session_key r) (\<lambda>is. is @ [run_id r])
                  (if hm_contains (rr_by_session g) (run_session_key r) then rr_by_session g
                   else hm_insert (run_session_key r) [] (rr_by_session g))\<rparr>"
  obtain "is" where "prune_completed ?g = remove_runs is ?g" by (rule prune_completed_eq)
  moreover have "active_run_count ?g \<le> Suc (active_run_count g)" by (simp add: active_run_count_def hm_count_insert_le)
  ultimately show ?thesis using active_remove [of "is" ?g] by (simp add: insert_run_def Let_def)
qed

lemma cap_step: "active_run_count g \<le> c \<Longrightarrow> cap_op_ok c op g \<Longrightarrow> active_run_count (run_step op g) \<le> c"
proof (cases op)
  case (Op_register r cap)
  assume "active_run_count g \<le> c" "cap_op_ok c op g"
  with Op_register active_insert [of r g] show ?thesis by (auto simp: try_register_with_cap_def try_register_def)
next
  case (Op_start now i)
  assume c: "active_run_count g \<le> c" "cap_op_ok c op g"
  show ?thesis
  proof (cases "hm_get (rr_runs g) i")
    case (Some r)
    with c(2) Op_start have "is_active (run_status r)" by (simp add: active_run_def hm_contains_def)
    with hm_count_modify_at [OF Some, of "\<lambda>r. is_active (run_status r)" "\<lambda>r. r\<lparr>run_status := Running, run_started_at := Some now\<rparr>"]
    show ?thesis using c(1) Op_start Some by (auto simp: mark_started_def active_run_count_def)
  qed (use c(1) Op_start in \<open>simp add: mark_started_def\<close>)
next
  case (Op_delta i s)
  assume "active_run_count g \<le> c"
  with Op_delta show ?thesis
    by (auto simp: append_delta_def active_run_count_def intro!: order_trans [OF hm_count_modify_le] split: option.split)
next
  case (Op_wait i)
  assume "active_run_count g \<le> c"
  with Op_wait show ?thesis
    by (auto simp: add_waiter_def Let_def active_run_count_def intro!: order_trans [OF hm_count_modify_le] split: option.split)
next
  case (Op_cleanup now)
  assume "active_run_count g \<le> c"
  moreover obtain "is" where "cleanup_old_runs now g = remove_runs is g" by (rule cleanup_old_runs_eq)
  ultimately show ?thesis using Op_cleanup active_remove [of "is" g] by simp
next
  case (Op_remove i)
  assume "active_run_count g \<le> c"
  with Op_remove active_remove [of "[i]" g] show ?thesis by (simp add: remove_runs_def)
next
  case (Op_end now i r)
  assume "active_run_count g \<le> c"
  with Op_end show ?thesis by (auto simp: spawn_run_settle_def split: run_end.split intro: order_trans [OF active_marks(2)] order_trans [OF active_marks(3)])
qed (auto simp: supervisor_settle_def intro: order_trans [OF active_marks(1)] order_trans [OF active_marks(2)] order_trans [OF active_marks(3)])

interpretation cap: invariant_machine run_step "\<lambda>g. active_run_count g \<le> c" "cap_op_ok c" for c
  by unfold_locales (rule cap_step)


definition example_run :: "string \<Rightarrow> AgentRun" where
  "example_run i =
     \<lparr>run_id = i, run_session_key = ''main'', run_delivery_recipient_id = None, run_status = Queued, run_message = ''hello'',
      run_response = [], run_error = None, run_created_at = 0, run_started_at = None, run_completed_at = None,
      run_token_cancelled = False, run_waiters = []\<rparr>"

definition example_registry :: AgentRunRegistry where
  "example_registry = snd (add_waiter ''r1'' (fold run_step [Op_register (example_run ''r1'') 2, Op_start 1 ''r1''] registry_new))"

definition example_run_ops :: "run_op list" where
  "example_run_ops =
     [Op_register (example_run ''r2'') 2, Op_delta ''r1'' ''hi'', Op_cancel 3 ''r2'', Op_cleanup 4, Op_complete 5 ''r1'' ''hi'',
      Op_end 6 ''r1'' Ended_ok]"

lemmas run_step_defs = registry_new_def try_register_with_cap_def try_register_def active_run_def active_run_count_def insert_run_def
  mark_started_def marks_def settle_run_def run_result_def append_delta_def add_waiter_def cleanup_old_runs_def remove_runs_def
  spawn_run_settle_def MAX_RUNS_def is_active_def hm_get_def hm_insert_def hm_modify_def hm_contains_def hm_count_def
  hm_values_def u64_saturating_sub_def completed_or_0_def



end
