(* ===== verification/Cron_Lifecycle.thy ===== *)
theory Cron_Lifecycle
  imports Cron_Scheduler Exec_Approvals Agent_Runs
begin

text \<open>
  The tick loop of the cron scheduler (\<^verbatim>\<open>src/cron/tick.rs\<close>) and the correctness of the scheduler:
  its invariant over every run of operations, the refinement of an abstract table of jobs, what
  a tick starts, eviction, clock jumps and restarts.
\<close>

subsection \<open>The tick loop\<close>

datatype CronRunOutcome = Broadcast | Spawned string

text \<open>
  The status a finished payload is reported with. \<open>outcome\<close> is what \<^verbatim>\<open>execute_payload\<close> returned (the
  text of its error), \<open>waiter\<close> what became of waiting for the agent run: \<open>None\<close> when the run is
  not registered, \<open>Some None\<close> when the waiter was dropped, otherwise the run's result.
\<close>

definition run_report ::
    "string + CronRunOutcome \<Rightarrow> (AgentRunStatus \<times> string option) option option \<Rightarrow>
     CronJobStatus \<times> string option" where
  "run_report outcome waiter =
     (case outcome of
        Inr (Spawned agent_run_id) \<Rightarrow>
          (case waiter of
             Some (Some (status, error)) \<Rightarrow>
               (case status of
                  Completed \<Rightarrow> (Ok, None)
                | Failed \<Rightarrow> (Error, error)
                | Cancelled \<Rightarrow> (Error, Some ''agent run cancelled'')
                | _ \<Rightarrow> (Ok, None))
           | Some None \<Rightarrow> (Error, Some ''agent run waiter dropped'')
           | None \<Rightarrow> (Error, Some ''agent run not found''))
      | Inr Broadcast \<Rightarrow> (Ok, None)
      | Inl e \<Rightarrow> (Error, Some e))"

text \<open>The loop over the due identifiers; \<open>es k\<close> is the environment of the \<open>k\<close>-th call of \<^verbatim>\<open>run\<close>. The
  result lists the payload tasks that are spawned.\<close>

fun run_due ::
    "'tz chrono \<Rightarrow> (nat \<Rightarrow> env) \<Rightarrow> nat \<Rightarrow> string list \<Rightarrow> CronScheduler \<Rightarrow>
     (string \<times> CronPayload) list \<times> CronScheduler" where
  "run_due C es k [] s = ([], s)"
| "run_due C es k (i # is) s =
     (let (r, s) = cron_run C (es k) i (Some Due) s;
          (spawned, s) = run_due C es (Suc k) is s
      in (case r of
            Inl _ \<Rightarrow> spawned
          | Inr res \<Rightarrow>
              if \<not> result_ran res then spawned
              else (case result_payload res of
                      None \<Rightarrow> spawned
                    | Some p \<Rightarrow> (result_job_id res, p) # spawned), s))"

definition cron_tick ::
    "'tz chrono \<Rightarrow> env \<Rightarrow> (nat \<Rightarrow> env) \<Rightarrow> CronScheduler \<Rightarrow> (string \<times> CronPayload) list \<times> CronScheduler" where
  "cron_tick C e es s = (let (due_ids, s) = get_due_job_ids C e s in run_due C es 0 due_ids s)"

text \<open>One iteration of the loop; \<open>t\<close> is the monotonic clock that expires approval requests.\<close>

definition cron_tick_iteration ::
    "'tz chrono \<Rightarrow> nat \<Rightarrow> env \<Rightarrow> (nat \<Rightarrow> env) \<Rightarrow> ExecApprovalManager \<times> CronScheduler \<Rightarrow>
     (string \<times> CronPayload) list \<times> ExecApprovalManager \<times> CronScheduler" where
  "cron_tick_iteration C t e es st =
     (case st of (m, s) \<Rightarrow>
        let m = cleanup_expired t m;
            (spawned, s) = cron_tick C e es s
        in (spawned, m, s))"

text \<open>The end of a spawned payload task.\<close>

definition payload_done ::
    "env \<Rightarrow> save_fault option \<Rightarrow> string \<Rightarrow> string + CronRunOutcome \<Rightarrow>
     (AgentRunStatus \<times> string option) option option \<Rightarrow> u64 \<Rightarrow> CronScheduler \<Rightarrow> CronScheduler" where
  "payload_done e fault i outcome waiter duration s =
     (let (status, error) = run_report outcome waiter
      in snd (mark_run_finished e fault i status duration error s))"

subsection \<open>Operations as steps\<close>

datatype cron_op =
    Op_add env CronJobCreate
  | Op_update env string CronJobPatch
  | Op_remove "save_fault option" string
  | Op_run env string "CronRunMode option"
  | Op_tick env "nat \<Rightarrow> env"
  | Op_done env "save_fault option" string "string + CronRunOutcome"
      "(AgentRunStatus \<times> string option) option option" u64
  | Op_load env bool
  | Op_restart

text \<open>A restart loses everything but the jobs file.\<close>

fun cron_step :: "'tz chrono \<Rightarrow> cron_op \<Rightarrow> CronScheduler \<Rightarrow> CronScheduler" where
  "cron_step C (Op_add e inp) s = snd (cron_add C e inp s)"
| "cron_step C (Op_update e i p) s = snd (cron_update C e i p s)"
| "cron_step C (Op_remove f i) s = snd (cron_remove f i s)"
| "cron_step C (Op_run e i m) s = snd (cron_run C e i m s)"
| "cron_step C (Op_tick e es) s = snd (cron_tick C e es s)"
| "cron_step C (Op_done e f i out w d) s = payload_done e f i out w d s"
| "cron_step C (Op_load e r) s = cron_load C e r s"
| "cron_step C Op_restart s = CronScheduler_new (cs_enabled s) (cs_persist_path s) (cs_disk s)"

subsection \<open>What the operations leave alone\<close>

lemma flush_frame [simp]:
  "cs_jobs (flush_to_disk f s) = cs_jobs s" "cs_run_log (flush_to_disk f s) = cs_run_log s"
  "cs_persist_path (flush_to_disk f s) = cs_persist_path s"
  "cs_last_tick_observed_ms (flush_to_disk f s) = cs_last_tick_observed_ms s"
  by (simp_all add: flush_to_disk_def split: option.split save_fault.split)

lemma emit_frame [simp]:
  "cs_jobs (emit_event ev s) = cs_jobs s" "cs_run_log (emit_event ev s) = cs_run_log s"
  "cs_disk (emit_event ev s) = cs_disk s" "cs_persist_path (emit_event ev s) = cs_persist_path s"
  "cs_last_tick_observed_ms (emit_event ev s) = cs_last_tick_observed_ms s"
  by (simp_all add: emit_event_def split: option.split)

lemma flush_disk:
  "cs_disk (flush_to_disk f s) = cs_disk s \<or> cs_disk (flush_to_disk f s) = Some (map persist_job (cs_jobs s))"
  by (simp add: flush_to_disk_def write_file_def split: option.split save_fault.split)

lemma flush_disk_ok:
  "cs_persist_path s = Some p \<Longrightarrow> cs_disk (flush_to_disk None s) = Some (map persist_job (cs_jobs s))"
  by (simp add: flush_to_disk_def write_file_def)

lemma restore_persist [simp]: "restore_job (persist_job j) = j"
proof -
  have "deserialize_cron_session_target_forward_compat (serialize_session_target t) = t" for t
    by (cases t) (simp_all add: deserialize_cron_session_target_forward_compat_def)
  moreover have "deserialize_cron_wake_mode_forward_compat (serialize_wake_mode w) = w" for w
    by (cases w) (simp_all add: deserialize_cron_wake_mode_forward_compat_def)
  moreover have "deserialize_cron_job_status_opt_forward_compat (map_option serialize_job_status st) = st" for st
    by (cases st; cases "the st") (simp_all add: deserialize_cron_job_status_opt_forward_compat_def)
  ultimately show ?thesis by (simp add: restore_job_def persist_job_def)
qed

lemma restore_persist_map [simp]: "map restore_job (map persist_job js) = js"
  by (simp add: comp_def)

lemma reschedule_frame [simp]:
  "job_id (snd (reschedule C now j)) = job_id j"
  "job_schedule (snd (reschedule C now j)) = job_schedule j"
  "running_at_ms (job_state (snd (reschedule C now j))) = running_at_ms (job_state j)"
  "next_run_at_ms (job_state (snd (reschedule C now j))) = compute_next_run C (job_schedule j) now"
  by (simp_all add: reschedule_def maybe_quarantine_for_impossible_cron_def Let_def split: CronSchedule.split)

lemma load_job_frame [simp]:
  "job_id (snd (load_job C now j)) = job_id j"
  "job_schedule (snd (load_job C now j)) = job_schedule j"
  "running_at_ms (job_state (snd (load_job C now j))) = None"
  by (simp_all add: load_job_def Let_def)

lemma updated_job_id [simp]: "job_id (updated_job C now p j) = job_id j"
  by (simp add: updated_job_def Let_def apply_patch_def)

lemma started_job_frame [simp]:
  "job_id (started_job C now j) = job_id j" "job_schedule (started_job C now j) = job_schedule j"
  "running_at_ms (job_state (started_job C now j)) = Some now"
  by (simp_all add: started_job_def)

lemma finished_job_frame [simp]:
  "job_id (finished_job now st d er j) = job_id j"
  "job_schedule (finished_job now st d er j) = job_schedule j"
  "job_delete_after_run (finished_job now st d er j) = job_delete_after_run j"
  by (simp_all add: finished_job_def)

subsection \<open>Looking up jobs\<close>

abbreviation find_job :: "string \<Rightarrow> CronJob list \<Rightarrow> CronJob option" where
  "find_job i js \<equiv> List.find (\<lambda>j. job_id j = i) js"

lemma find_job_Some: "find_job i js = Some j \<Longrightarrow> j \<in> set js \<and> job_id j = i"
  by (induction js) (auto split: if_splits)

lemma find_job_None: "find_job i js = None \<longleftrightarrow> i \<notin> job_id ` set js"
  by (induction js) auto

lemma find_job_distinct: "distinct (map job_id js) \<Longrightarrow> j \<in> set js \<Longrightarrow> find_job (job_id j) js = Some j"
  by (induction js) force+

lemma find_job_iff: "distinct (map job_id js) \<Longrightarrow> find_job i js = Some j \<longleftrightarrow> j \<in> set js \<and> job_id j = i"
  using find_job_Some find_job_distinct by blast

lemma map_job_id_update [simp]:
  "job_id j' = i \<Longrightarrow> map job_id (update_job i (\<lambda>_. j') js) = map job_id js"
  by (induction js) auto

lemma length_update_job [simp]: "length (update_job i f js) = length js"
  by (induction js) auto

lemma set_update_job: "j \<in> set (update_job i (\<lambda>_. j') js) \<Longrightarrow> j \<in> set js \<or> j = j'"
  by (induction js) (auto split: if_splits)

lemma find_update_job:
  "job_id j' = i \<Longrightarrow> find_job k (update_job i (\<lambda>_. j') js) =
     (if k = i then map_option (\<lambda>_. j') (find_job i js) else find_job k js)"
  by (induction js) auto

lemma find_filter_job:
  "find_job k (filter (\<lambda>j. job_id j \<noteq> i) js) = (if k = i then None else find_job k js)"
  by (induction js) auto

lemma find_append_job: "find_job k (js @ [j]) =
   (case find_job k js of None \<Rightarrow> if job_id j = k then Some j else None | Some x \<Rightarrow> Some x)"
  by (induction js) auto

lemma find_map_job: "(\<And>j. job_id (f j) = job_id j) \<Longrightarrow> find_job k (map f js) = map_option f (find_job k js)"
  by (induction js) auto

subsection \<open>Invariant\<close>

definition has_anchor :: "CronSchedule \<Rightarrow> bool" where
  "has_anchor sch \<longleftrightarrow> (\<forall>ev. sch \<noteq> Every ev None)"

definition jobs_ok :: "CronJob list \<Rightarrow> bool" where
  "jobs_ok js \<longleftrightarrow>
     length js \<le> MAX_JOBS \<and> distinct (map job_id js) \<and> list_all (\<lambda>j. has_anchor (job_schedule j)) js"

definition cron_inv :: "CronScheduler \<Rightarrow> bool" where
  "cron_inv s \<longleftrightarrow>
     jobs_ok (cs_jobs s) \<and> (\<forall>d. cs_disk s = Some d \<longrightarrow> jobs_ok (map restore_job d)) \<and>
     length (cs_run_log s) \<le> 1000"

text \<open>A fresh job identifier.\<close>

fun cron_ok :: "cron_op \<Rightarrow> CronScheduler \<Rightarrow> bool" where
  "cron_ok (Op_add e inp) s = (env_uuid e \<notin> job_id ` set (cs_jobs s))"
| "cron_ok _ s = True"

lemma has_anchor_anchored [simp]: "has_anchor (anchored now sch)"
  by (auto simp: has_anchor_def anchored_def split: CronSchedule.split option.split)

lemma has_anchor_updated:
  "has_anchor (job_schedule j) \<Longrightarrow> has_anchor (job_schedule (updated_job C now p j))"
  by (simp add: updated_job_def Let_def apply_patch_def split: option.split)

lemma jobs_ok_update:
  assumes "jobs_ok js" "find_job i js = Some j" "job_id j' = i"
    "has_anchor (job_schedule j) \<Longrightarrow> has_anchor (job_schedule j')"
  shows "jobs_ok (update_job i (\<lambda>_. j') js)"
  using assms find_job_Some [OF assms(2)] set_update_job [of _ i j' js]
  by (auto simp: jobs_ok_def list_all_iff)

lemma jobs_ok_map:
  assumes "jobs_ok js" "\<And>j. job_id (f j) = job_id j" "\<And>j. job_schedule (f j) = job_schedule j"
  shows "jobs_ok (map f js)"
  using assms(1) by (simp add: jobs_ok_def list_all_iff comp_def assms(2,3))

lemma jobs_ok_filter: "jobs_ok js \<Longrightarrow> jobs_ok (filter P js)"
  by (auto simp: jobs_ok_def list_all_iff distinct_map_filter intro: le_trans [OF length_filter_le])

lemma cron_inv_flush: "cron_inv s \<Longrightarrow> jobs_ok js \<Longrightarrow> cron_inv (flush_to_disk f (s\<lparr>cs_jobs := js\<rparr>))"
  using flush_disk [of f "s\<lparr>cs_jobs := js\<rparr>"] by (auto simp: cron_inv_def simp del: map_map)

lemma cron_inv_emit [simp]: "cron_inv (emit_event ev s) \<longleftrightarrow> cron_inv s"
  by (simp add: cron_inv_def)

lemma eviction_Some:
  assumes "eviction js = Some i"
  shows "i < length js" "running_at_ms (job_state (js ! i)) = None"
    "\<And>j. j \<in> set js \<Longrightarrow> running_at_ms (job_state j) = None \<Longrightarrow> last_used_at (js ! i) \<le> last_used_at j"
proof -
  let ?c = "filter (\<lambda>(i, j). running_at_ms (job_state j) = None) (enumerate 0 js)"
  obtain j where m: "first_min_by (\<lambda>(i, j). last_used_at j) ?c = Some (i, j)"
    using assms by (auto simp: eviction_def)
  have "(i, j) \<in> set ?c" by (rule first_min_by_in [OF m])
  then have j: "i < length js" "js ! i = j" "running_at_ms (job_state j) = None"
    by (auto simp: in_set_enumerate_eq)
  then show "i < length js" "running_at_ms (job_state (js ! i)) = None" by simp_all
  fix j' assume "j' \<in> set js" "running_at_ms (job_state j') = None"
  moreover then obtain k where "k < length js" "js ! k = j'" by (meson in_set_conv_nth)
  ultimately have "(k, j') \<in> set ?c" by (simp add: in_set_enumerate_eq)
  from first_min_by_le [OF m this] j show "last_used_at (js ! i) \<le> last_used_at j'" by simp
qed

lemma eviction_None: "eviction js = None \<longleftrightarrow> (\<forall>j \<in> set js. running_at_ms (job_state j) \<noteq> None)"
proof -
  have "eviction js = None \<longleftrightarrow> filter (\<lambda>(i, j). running_at_ms (job_state j) = None) (enumerate 0 js) = []"
    by (simp add: eviction_def)
  also have "\<dots> \<longleftrightarrow> (\<forall>j \<in> set js. running_at_ms (job_state j) \<noteq> None)"
    by (subst (2) map_snd_enumerate [of 0 js, symmetric], subst set_map)
      (auto simp: filter_empty_conv)
  finally show ?thesis .
qed

lemma new_job_frame [simp]:
  "job_id (new_job C e inp) = env_uuid e" "has_anchor (job_schedule (new_job C e inp))"
  by (simp_all add: new_job_def Let_def)

lemma remove_nth_filter:
  assumes "distinct (map job_id js)" "i < length js"
  shows "take i js @ drop (Suc i) js = filter (\<lambda>j. job_id j \<noteq> job_id (js ! i)) js"
  using assms
proof (induction js arbitrary: i)
  case (Cons j js)
  show ?case
  proof (cases i)
    case 0
    have "filter (\<lambda>x. job_id x \<noteq> job_id j) js = js"
      using Cons.prems(1) by (intro filter_True ballI) (simp, metis imageI)
    with 0 show ?thesis by simp
  next
    case (Suc k)
    then have "job_id j \<noteq> job_id (js ! k)" using Cons.prems by auto
    with Suc Cons show ?thesis by simp
  qed
qed simp

lemma jobs_ok_append:
  "jobs_ok js \<Longrightarrow> length js < MAX_JOBS \<Longrightarrow> job_id j \<notin> job_id ` set js \<Longrightarrow> has_anchor (job_schedule j) \<Longrightarrow>
   jobs_ok (js @ [j])"
  by (auto simp: jobs_ok_def)

text \<open>The list of jobs after an addition.\<close>

lemma cron_add_jobs:
  assumes "jobs_ok (cs_jobs s)"
  shows "cs_jobs (snd (cron_add C e inp s)) =
    (if length (cs_jobs s) < MAX_JOBS then cs_jobs s @ [new_job C e inp]
     else case eviction (cs_jobs s) of
            None \<Rightarrow> cs_jobs s
          | Some i \<Rightarrow> filter (\<lambda>j. job_id j \<noteq> job_id (cs_jobs s ! i)) (cs_jobs s) @ [new_job C e inp])"
proof (cases "eviction (cs_jobs s)")
  case (Some i)
  have "take i (cs_jobs s) @ drop (Suc i) (cs_jobs s)
      = filter (\<lambda>j. job_id j \<noteq> job_id (cs_jobs s ! i)) (cs_jobs s)"
    using assms eviction_Some(1) [OF Some] by (intro remove_nth_filter) (simp_all add: jobs_ok_def)
  with Some show ?thesis by (auto simp: cron_add_def Let_def)
qed (auto simp: cron_add_def Let_def)

lemma cron_add_inv:
  assumes inv: "cron_inv s" and fresh: "env_uuid e \<notin> job_id ` set (cs_jobs s)"
  shows "cron_inv (snd (cron_add C e inp s))"
proof -
  have ok: "jobs_ok (cs_jobs s)" using inv by (simp add: cron_inv_def)
  have flush: "jobs_ok js \<Longrightarrow> cron_inv (flush_to_disk (env_fault e) (s\<lparr>cs_jobs := js\<rparr>))" for js
    using inv by (rule cron_inv_flush)
  have len: "length (cs_jobs s) \<le> MAX_JOBS" using ok by (simp add: jobs_ok_def)
  show ?thesis
  proof (cases "length (cs_jobs s) < MAX_JOBS")
    case True
    then show ?thesis using flush [OF jobs_ok_append [OF ok True]] fresh
      by (simp add: cron_add_def Let_def)
  next
    case False
    show ?thesis
    proof (cases "eviction (cs_jobs s)")
      case None
      with False inv show ?thesis by (simp add: cron_add_def Let_def)
    next
      case (Some i)
      let ?js = "filter (\<lambda>j. job_id j \<noteq> job_id (cs_jobs s ! i)) (cs_jobs s)"
      have i: "i < length (cs_jobs s)" by (rule eviction_Some(1) [OF Some])
      have js: "take i (cs_jobs s) @ drop (Suc i) (cs_jobs s) = ?js"
        using ok i by (intro remove_nth_filter) (simp_all add: jobs_ok_def)
      have "length ?js < length (cs_jobs s)" unfolding js [symmetric] using i by simp
      then have "jobs_ok (?js @ [new_job C e inp])"
        using len fresh by (intro jobs_ok_append jobs_ok_filter ok) auto
      from flush [OF this] False Some show ?thesis
        by (simp add: cron_add_def Let_def js)
    qed
  qed
qed

lemma cron_run_inv: "cron_inv s \<Longrightarrow> cron_inv (snd (cron_run C e i m s))"
  by (auto simp: cron_run_def Let_def cron_get_def cron_inv_def [of s] dest: find_job_Some
      intro!: cron_inv_flush jobs_ok_update split: option.split)

lemma cron_update_inv: "cron_inv s \<Longrightarrow> cron_inv (snd (cron_update C e i p s))"
  by (auto simp: cron_update_def Let_def cron_get_def cron_inv_def [of s] has_anchor_updated
      dest: find_job_Some intro!: cron_inv_flush jobs_ok_update split: option.split)

lemma cron_remove_inv: "cron_inv s \<Longrightarrow> cron_inv (snd (cron_remove f i s))"
  by (auto simp: cron_remove_def Let_def cron_inv_def [of s] jobs_ok_filter intro!: cron_inv_flush)
    (auto simp: cron_inv_def jobs_ok_filter)

lemma run_due_inv: "cron_inv s \<Longrightarrow> cron_inv (snd (run_due C es k is s))"
proof (induction "is" arbitrary: k s)
  case (Cons i "is")
  obtain r s' where rs: "cron_run C (es k) i (Some Due) s = (r, s')" by fastforce
  with cron_run_inv [OF Cons.prems, of C "es k" i "Some Due"] have "cron_inv s'" by simp
  from Cons.IH [OF this, of "Suc k"] rs show ?case by (simp add: case_prod_beta Let_def)
qed simp

lemma get_due_inv: "cron_inv s \<Longrightarrow> cron_inv (snd (get_due_job_ids C e s))"
proof -
  assume inv: "cron_inv s"
  then have "cron_inv (s\<lparr>cs_last_tick_observed_ms := env_now e\<rparr>)" by (simp add: cron_inv_def)
  moreover have "jobs_ok (map (\<lambda>j. if job_enabled j then snd (reschedule C (env_now e) j) else j) (cs_jobs s))"
    using inv by (intro jobs_ok_map) (simp_all add: cron_inv_def)
  ultimately show ?thesis
    by (auto simp: get_due_job_ids_def Let_def dest: cron_inv_flush)
qed

lemma record_run_frame [simp]:
  "cs_jobs (record_run x s) = cs_jobs s" "cs_disk (record_run x s) = cs_disk s"
  "cs_persist_path (record_run x s) = cs_persist_path s"
  "cs_last_tick_observed_ms (record_run x s) = cs_last_tick_observed_ms s"
  by (simp_all add: record_run_def Let_def)

lemma cron_inv_record: "cron_inv s \<Longrightarrow> cron_inv (record_run x s)"
  by (simp add: cron_inv_def) (simp add: record_run_def Let_def)

lemma mark_run_finished_inv: "cron_inv s \<Longrightarrow> cron_inv (snd (mark_run_finished e f i st d er s))"
proof (cases "cron_get i s")
  case (Some j)
  assume inv: "cron_inv s"
  let ?j = "finished_job (env_now e) st d er j"
  let ?s = "flush_to_disk (env_fault e) (s\<lparr>cs_jobs := update_job i (\<lambda>_. ?j) (cs_jobs s)\<rparr>)"
  have "cron_inv ?s"
    using inv Some by (intro cron_inv_flush jobs_ok_update)
      (auto simp: cron_inv_def cron_get_def dest: find_job_Some)
  then have "cron_inv (record_run entry ?s)" for entry by (rule cron_inv_record)
  with Some show ?thesis by (simp add: mark_run_finished_def Let_def cron_remove_inv)
qed (simp add: mark_run_finished_def)

lemma cron_load_inv: "cron_inv s \<Longrightarrow> cron_inv (cron_load C e r s)"
proof (cases "cs_persist_path s = None \<or> \<not> r \<or> cs_disk s = None")
  case False
  assume inv: "cron_inv s"
  obtain d where d: "cs_disk s = Some d" using False by auto
  let ?l = "map (load_job C (env_now e) \<circ> restore_job) d"
  have "jobs_ok (map (snd \<circ> load_job C (env_now e)) (map restore_job d))"
    using inv d by (intro jobs_ok_map) (simp_all add: cron_inv_def)
  then have ok: "jobs_ok (map snd ?l)" by (simp add: comp_assoc)
  from inv ok have "cron_inv (s\<lparr>cs_jobs := map snd ?l\<rparr>)" by (simp add: cron_inv_def)
  with cron_inv_flush [OF inv ok] False d show ?thesis
    by (auto simp: cron_load_def Let_def)
qed (auto simp: cron_load_def)

lemma cron_step_inv: "cron_inv s \<Longrightarrow> cron_ok a s \<Longrightarrow> cron_inv (cron_step C a s)"
proof (cases a)
  case (Op_tick e es)
  assume "cron_inv s"
  then have "cron_inv (snd (run_due C es 0 (fst (get_due_job_ids C e s)) (snd (get_due_job_ids C e s))))"
    by (intro run_due_inv get_due_inv)
  with Op_tick show ?thesis by (simp add: cron_tick_def case_prod_beta)
next
  case Op_restart
  assume "cron_inv s"
  with Op_restart show ?thesis by (simp add: cron_inv_def CronScheduler_new_def jobs_ok_def)
qed (simp_all add: cron_add_inv cron_update_inv cron_remove_inv cron_run_inv cron_load_inv
      payload_done_def case_prod_beta mark_run_finished_inv)

interpretation cron_machine: invariant_machine "cron_step C" cron_inv cron_ok for C
  by unfold_locales (rule cron_step_inv)

subsection \<open>What a tick starts\<close>

text \<open>Starting the due jobs one after the other: every identifier is started, in order, and the
  jobs of other identifiers stay as they are.\<close>

lemma cron_run_due_job:
  assumes "cron_get i s = Some j" "is_due Due (env_now e) j"
  shows "fst (cron_run C e i (Some Due) s) = Inr \<lparr>result_ok = True, result_ran = True, result_reason = None,
      result_payload = Some (job_payload j), result_job_id = i\<rparr>"
    "cron_get k (snd (cron_run C e i (Some Due) s)) =
      (if k = i then Some (started_job C (env_now e) j) else cron_get k s)"
  using assms find_job_Some [of i "cs_jobs s" j]
  by (auto simp: cron_run_def cron_get_def Let_def find_update_job)

lemma run_due_spec:
  assumes "distinct is" "\<And>i. i \<in> set is \<Longrightarrow> \<exists>j. cron_get i s = Some j \<and> (\<forall>k. is_due Due (env_now (es k)) j)"
  shows "fst (run_due C es n is s) = map (\<lambda>i. (i, job_payload (the (cron_get i s)))) is \<and>
    (\<forall>k. cron_get k (snd (run_due C es n is s)) = cron_get k s \<and> k \<notin> set is \<or>
       (\<exists>t j. k \<in> set is \<and> cron_get k s = Some j \<and>
         cron_get k (snd (run_due C es n is s)) = Some (started_job C (env_now (es t)) j)))"
  using assms
proof (induction "is" arbitrary: n s)
  case (Cons i "is")
  obtain j where j: "cron_get i s = Some j" "is_due Due (env_now (es n)) j"
    using Cons.prems(2) [of i] by auto
  let ?s = "snd (cron_run C (es n) i (Some Due) s)"
  note r = cron_run_due_job [OF j, where C = C]
  have i: "i \<notin> set is" "distinct is" using Cons.prems(1) by auto
  have get: "cron_get k ?s = cron_get k s" if "k \<in> set is" for k using that i(1) by (auto simp: r(2))
  have "\<exists>j. cron_get k ?s = Some j \<and> (\<forall>n. is_due Due (env_now (es n)) j)" if "k \<in> set is" for k
    using Cons.prems(2) [of k] that by (simp add: get [OF that])
  note IH = Cons.IH [OF i(2) this, of "Suc n"]
  have eq: "run_due C es n (i # is) s =
     ((i, job_payload j) # fst (run_due C es (Suc n) is ?s), snd (run_due C es (Suc n) is ?s))"
    by (simp add: case_prod_beta Let_def r(1))
  have "map (\<lambda>i. (i, job_payload (the (cron_get i ?s)))) is = map (\<lambda>i. (i, job_payload (the (cron_get i s)))) is"
    using get by simp
  moreover have "cron_get k (snd (run_due C es n (i # is) s)) = cron_get k s \<and> k \<notin> set (i # is) \<or>
     (\<exists>t j. k \<in> set (i # is) \<and> cron_get k s = Some j \<and>
        cron_get k (snd (run_due C es n (i # is) s)) = Some (started_job C (env_now (es t)) j))" for k
  proof (cases "k = i")
    case True
    then have "cron_get k (snd (run_due C es (Suc n) is ?s)) = cron_get k ?s" using IH i(1) by auto
    with True j r(2) [of k] show ?thesis unfolding eq by auto
  next
    case False
    then show ?thesis using spec [OF conjunct2 [OF IH], of k] r(2) [of k] unfolding eq by auto
  qed
  ultimately show ?case using IH j(1) unfolding eq by simp
qed simp

lemma due_now_is_due: "due_now now j \<Longrightarrow> now \<le> t \<Longrightarrow> is_due Due t j"
  by (auto simp: due_now_def is_due_def split: option.splits)

lemma due_ids_due:
  assumes "distinct (map job_id (cs_jobs s))" "i \<in> job_id ` set (filter (due_now now) (cs_jobs s))"
  shows "\<exists>j. cron_get i s = Some j \<and> due_now now j"
  using assms find_job_distinct by (fastforce simp: cron_get_def)

lemma get_due_no_jump:
  assumes "\<not> clock_jumped (cs_last_tick_observed_ms s) (env_now e)"
  shows "get_due_job_ids C e s = (map job_id (filter (due_now (env_now e)) (cs_jobs s)),
    s\<lparr>cs_last_tick_observed_ms := env_now e\<rparr>)"
  using assms by (simp add: get_due_job_ids_def Let_def)

lemma cron_get_tick_field [simp]: "cron_get i (s\<lparr>cs_last_tick_observed_ms := t\<rparr>) = cron_get i s"
  by (simp add: cron_get_def)

lemma cron_tick_spec:
  assumes "distinct (map job_id (cs_jobs s))" "\<not> clock_jumped (cs_last_tick_observed_ms s) (env_now e)"
    "\<forall>k. env_now e \<le> env_now (es k)"
  defines "due \<equiv> filter (due_now (env_now e)) (cs_jobs s)"
  shows "fst (cron_tick C e es s) = map (\<lambda>j. (job_id j, job_payload j)) due"
    "cron_get i (snd (cron_tick C e es s)) = cron_get i s \<and> i \<notin> job_id ` set due \<or>
       (\<exists>t j. j \<in> set due \<and> job_id j = i \<and>
          cron_get i (snd (cron_tick C e es s)) = Some (started_job C (env_now (es t)) j))"
proof -
  let ?s = "s\<lparr>cs_last_tick_observed_ms := env_now e\<rparr>"
  have tick: "cron_tick C e es s = run_due C es 0 (map job_id due) ?s"
    by (simp add: cron_tick_def get_due_no_jump [OF assms(2)] due_def)
  have "distinct (map job_id due)" unfolding due_def using assms(1) by (rule distinct_map_filter)
  moreover have "\<exists>j. cron_get i ?s = Some j \<and> (\<forall>k. is_due Due (env_now (es k)) j)" if "i \<in> set (map job_id due)" for i
    using due_ids_due [OF assms(1), of i "env_now e"] that assms(3) due_now_is_due
    unfolding due_def by auto
  ultimately have sp: "fst (cron_tick C e es s) = map (\<lambda>i. (i, job_payload (the (cron_get i ?s)))) (map job_id due)"
    and st: "cron_get i (snd (cron_tick C e es s)) = cron_get i ?s \<and> i \<notin> set (map job_id due) \<or>
       (\<exists>t j. i \<in> set (map job_id due) \<and> cron_get i ?s = Some j \<and>
         cron_get i (snd (cron_tick C e es s)) = Some (started_job C (env_now (es t)) j))"
    unfolding tick using run_due_spec [of "map job_id due" ?s es C 0] by blast+
  have get: "cron_get (job_id j) s = Some j" if "j \<in> set due" for j
    using that assms(1) find_job_distinct by (simp add: due_def cron_get_def)
  show "fst (cron_tick C e es s) = map (\<lambda>j. (job_id j, job_payload j)) due"
    unfolding sp by (simp add: get)
  show "cron_get i (snd (cron_tick C e es s)) = cron_get i s \<and> i \<notin> job_id ` set due \<or>
       (\<exists>t j. j \<in> set due \<and> job_id j = i \<and>
          cron_get i (snd (cron_tick C e es s)) = Some (started_job C (env_now (es t)) j))"
    using st
  proof (elim disjE exE conjE)
    fix t j assume "i \<in> set (map job_id due)" "cron_get i ?s = Some j"
      "cron_get i (snd (cron_tick C e es s)) = Some (started_job C (env_now (es t)) j)"
    moreover then have "j \<in> set due \<and> job_id j = i" using get by auto
    ultimately show ?thesis by blast
  qed simp
qed

subsection \<open>Refinement of a table of jobs\<close>

text \<open>
  The abstract scheduler is a table from identifiers to jobs with a capacity. Its steps say what
  each operation may do to the table; the order of the jobs, the file, the run log and the events
  are not part of it.
\<close>

type_synonym job_table = "string \<Rightarrow> CronJob option"

definition job_table :: "CronScheduler \<Rightarrow> job_table" where
  "job_table s = (\<lambda>i. cron_get i s)"

inductive table_step :: "'tz chrono \<Rightarrow> cron_op \<Rightarrow> job_table \<Rightarrow> job_table \<Rightarrow> bool" for C where
  Add_free: "card (dom T) < MAX_JOBS \<Longrightarrow> table_step C (Op_add e inp) T (T(env_uuid e \<mapsto> new_job C e inp))"
| Add_evict: "\<lbrakk>card (dom T) = MAX_JOBS; T v = Some victim; running_at_ms (job_state victim) = None;
     \<And>i j. T i = Some j \<Longrightarrow> running_at_ms (job_state j) = None \<Longrightarrow> last_used_at victim \<le> last_used_at j\<rbrakk>
     \<Longrightarrow> table_step C (Op_add e inp) T ((T(v := None))(env_uuid e \<mapsto> new_job C e inp))"
| Add_full: "\<lbrakk>card (dom T) = MAX_JOBS; \<And>i j. T i = Some j \<Longrightarrow> running_at_ms (job_state j) \<noteq> None\<rbrakk>
     \<Longrightarrow> table_step C (Op_add e inp) T T"
| Update: "table_step C (Op_update e i p) T (T(i := map_option (updated_job C (env_now e) p) (T i)))"
| Remove: "table_step C (Op_remove f i) T (T(i := None))"
| Run: "table_step C (Op_run e i m) T (T(i := map_option
     (\<lambda>j. if is_due (case m of None \<Rightarrow> Due | Some m \<Rightarrow> m) (env_now e) j
          then started_job C (env_now e) j else j) (T i)))"
| Tick: "\<lbrakk>\<And>i. (T' i = T i \<and> (\<forall>j. T i = Some j \<longrightarrow> \<not> due_now (env_now e) j)) \<or>
        (\<exists>t j. T i = Some j \<and> due_now (env_now e) j \<and> T' i = Some (started_job C (env_now (es t)) j))\<rbrakk>
     \<Longrightarrow> table_step C (Op_tick e es) T T'"
| Tick_jump: "table_step C (Op_tick e es) T (\<lambda>i. map_option
     (\<lambda>j. if job_enabled j then snd (reschedule C (env_now e) j) else j) (T i))"
| Done: "table_step C (Op_done e f i out w d) T (T(i := Option.bind (T i)
     (\<lambda>j. if job_delete_after_run j = Some True then None
          else Some (case run_report out w of (st, er) \<Rightarrow> finished_job (env_now e) st d er j))))"

lemma job_table_dom: "distinct (map job_id (cs_jobs s)) \<Longrightarrow> card (dom (job_table s)) = length (cs_jobs s)"
proof -
  assume d: "distinct (map job_id (cs_jobs s))"
  have "dom (job_table s) = set (map job_id (cs_jobs s))"
    by (auto simp: job_table_def cron_get_def dom_def find_job_None image_iff simp flip: not_None_eq)
  then show ?thesis using distinct_card [OF d] by simp
qed

lemma job_table_flush [simp]: "job_table (flush_to_disk f s) = job_table s"
  "job_table (emit_event ev s) = job_table s" "job_table (record_run x s) = job_table s"
  by (simp_all add: job_table_def cron_get_def)

lemma job_table_update:
  assumes "cron_get i s = Some j" "job_id j' = i"
  shows "job_table (s\<lparr>cs_jobs := update_job i (\<lambda>_. j') (cs_jobs s)\<rparr>) = (job_table s)(i \<mapsto> j')"
  using assms by (auto simp: job_table_def cron_get_def find_update_job)

lemma job_table_remove: "job_table (snd (cron_remove f i s)) = (job_table s)(i := None)"
  by (auto simp: cron_remove_def Let_def) (auto simp: job_table_def cron_get_def find_filter_job)

lemma cron_get_id: "cron_get i s = Some j \<Longrightarrow> job_id j = i"
  by (auto simp: cron_get_def dest: find_job_Some)

lemma job_table_append:
  assumes "job_id j \<notin> job_id ` set js"
  shows "job_table (s\<lparr>cs_jobs := js @ [j]\<rparr>) = (job_table (s\<lparr>cs_jobs := js\<rparr>))(job_id j \<mapsto> j)"
proof (rule ext)
  fix k
  have "find_job (job_id j) js = None" using assms by (simp add: find_job_None)
  then show "job_table (s\<lparr>cs_jobs := js @ [j]\<rparr>) k = ((job_table (s\<lparr>cs_jobs := js\<rparr>))(job_id j \<mapsto> j)) k"
    by (auto simp: job_table_def cron_get_def find_append_job split: option.split)
qed

lemma job_table_cong: "cs_jobs s = cs_jobs s' \<Longrightarrow> job_table s = job_table s'"
  by (simp add: job_table_def cron_get_def)

lemma add_refines:
  assumes inv: "cron_inv s" and fresh: "env_uuid e \<notin> job_id ` set (cs_jobs s)"
  shows "table_step C (Op_add e inp) (job_table s) (job_table (snd (cron_add C e inp s)))"
proof -
  have ok: "jobs_ok (cs_jobs s)" and d: "distinct (map job_id (cs_jobs s))" and
    len: "length (cs_jobs s) \<le> MAX_JOBS"
    using inv by (auto simp: cron_inv_def jobs_ok_def)
  note card = job_table_dom [OF d]
  let ?n = "new_job C e inp"
  have table: "job_table (snd (cron_add C e inp s)) = (job_table (s\<lparr>cs_jobs := js\<rparr>))(env_uuid e \<mapsto> ?n)"
    if "cs_jobs (snd (cron_add C e inp s)) = js @ [?n]" "set js \<subseteq> set (cs_jobs s)" for js
    using job_table_append [of ?n js s] that fresh by (subst job_table_cong [of _ "s\<lparr>cs_jobs := js @ [?n]\<rparr>"]) auto
  show ?thesis
  proof (cases "length (cs_jobs s) < MAX_JOBS")
    case True
    have "job_table (snd (cron_add C e inp s)) = (job_table s)(env_uuid e \<mapsto> new_job C e inp)"
      using True table [of "cs_jobs s"] by (simp add: cron_add_jobs [OF ok])
    with Add_free True card show ?thesis by metis
  next
    case False
    then have full: "card (dom (job_table s)) = MAX_JOBS" using len card by simp
    show ?thesis
    proof (cases "eviction (cs_jobs s)")
      case None
      have "job_table (snd (cron_add C e inp s)) = job_table s"
        using False None by (simp add: job_table_def cron_get_def cron_add_jobs [OF ok])
      moreover have "running_at_ms (job_state j) \<noteq> None" if "job_table s i = Some j" for i j
        using None that find_job_Some unfolding eviction_None job_table_def cron_get_def by blast
      ultimately show ?thesis using Add_full [OF full] by metis
    next
      case (Some k)
      let ?v = "cs_jobs s ! k"
      note ev = eviction_Some [OF Some]
      let ?js = "filter (\<lambda>j. job_id j \<noteq> job_id ?v) (cs_jobs s)"
      have "job_table (s\<lparr>cs_jobs := ?js\<rparr>) = (job_table s)(job_id ?v := None)"
        by (auto simp: fun_eq_iff job_table_def cron_get_def find_filter_job)
      then have "job_table (snd (cron_add C e inp s)) = ((job_table s)(job_id ?v := None))(env_uuid e \<mapsto> ?n)"
        using False Some table [of ?js] by (simp add: cron_add_jobs [OF ok])
      moreover have "job_table s (job_id ?v) = Some ?v"
        using find_job_distinct [OF d] ev(1) by (simp add: job_table_def cron_get_def)
      moreover have "last_used_at ?v \<le> last_used_at j" if "job_table s i = Some j" "running_at_ms (job_state j) = None" for i j
        using ev(3) that find_job_Some unfolding job_table_def cron_get_def by blast
      ultimately show ?thesis using Add_evict [OF full _ ev(2)] by metis
    qed
  qed
qed

lemma tick_refines:
  assumes inv: "cron_inv s" and mono: "\<forall>k. env_now e \<le> env_now (es k)"
  shows "table_step C (Op_tick e es) (job_table s) (job_table (snd (cron_tick C e es s)))"
proof -
  have d: "distinct (map job_id (cs_jobs s))" using inv by (simp add: cron_inv_def jobs_ok_def)
  show ?thesis
  proof (cases "clock_jumped (cs_last_tick_observed_ms s) (env_now e)")
    case True
    then have "job_table (snd (cron_tick C e es s)) = (\<lambda>i. map_option
       (\<lambda>j. if job_enabled j then snd (reschedule C (env_now e) j) else j) (job_table s i))"
      by (simp add: cron_tick_def get_due_job_ids_def Let_def)
        (simp add: job_table_def cron_get_def find_map_job)
    then show ?thesis using Tick_jump by metis
  next
    case False
    note sp = cron_tick_spec(2) [OF d False mono, where C = C]
    show ?thesis
    proof (rule Tick)
      fix i
      show "(job_table (snd (cron_tick C e es s)) i = job_table s i \<and>
            (\<forall>j. job_table s i = Some j \<longrightarrow> \<not> due_now (env_now e) j)) \<or>
          (\<exists>t j. job_table s i = Some j \<and> due_now (env_now e) j \<and>
             job_table (snd (cron_tick C e es s)) i = Some (started_job C (env_now (es t)) j))"
        using sp [of i] find_job_iff [OF d, of i]
        by (auto simp: job_table_def cron_get_def)
    qed
  qed
qed

lemma run_refines: "table_step C (Op_run e i m) (job_table s) (job_table (snd (cron_run C e i m s)))"
proof -
  have "job_table (snd (cron_run C e i m s)) = (job_table s)(i := map_option
     (\<lambda>j. if is_due (case m of None \<Rightarrow> Due | Some m \<Rightarrow> m) (env_now e) j
          then started_job C (env_now e) j else j) (job_table s i))"
    by (auto simp: cron_run_def Let_def job_table_update cron_get_id fun_upd_idem_iff split: option.split)
      (auto simp: job_table_def)
  then show ?thesis by (simp only: table_step.Run)
qed

lemma update_refines: "table_step C (Op_update e i p) (job_table s) (job_table (snd (cron_update C e i p s)))"
proof -
  have "job_table (snd (cron_update C e i p s)) =
      (job_table s)(i := map_option (updated_job C (env_now e) p) (job_table s i))"
    by (auto simp: cron_update_def Let_def job_table_update cron_get_id split: option.split)
      (auto simp: job_table_def)
  then show ?thesis by (simp only: table_step.Update)
qed

lemma done_refines:
  "table_step C (Op_done e f i out w d) (job_table s) (job_table (payload_done e f i out w d s))"
proof -
  have "job_table (payload_done e f i out w d s) = (job_table s)(i := Option.bind (job_table s i)
     (\<lambda>j. if job_delete_after_run j = Some True then None
          else Some (case run_report out w of (st, er) \<Rightarrow> finished_job (env_now e) st d er j)))"
    by (auto simp: payload_done_def mark_run_finished_def Let_def job_table_update job_table_remove
        cron_get_id split: option.split prod.split)
      (auto simp: job_table_def)
  then show ?thesis by (simp only: table_step.Done)
qed


text \<open>The operations other than loading and restarting; the clock does not run backwards within
  a tick.\<close>

fun live_op :: "cron_op \<Rightarrow> bool" where
  "live_op (Op_load e r) = False"
| "live_op Op_restart = False"
| "live_op (Op_tick e es) = (\<forall>k. env_now e \<le> env_now (es k))"
| "live_op _ = True"


text \<open>
  C16: Over every run of operations from an empty scheduler, restarts, reloads and failed flushes
  included, the scheduler holds at most 500 jobs with distinct identifiers and at most 1000 log
  entries, and no stored interval schedule lacks its anchor (so that a restart keeps its cadence).
\<close>

theorem cron_scheduler_invariant:
  assumes "run_ok cron_ok (cron_step C) as (CronScheduler_new en path None)"
    and "s = fold (cron_step C) as (CronScheduler_new en path None)"
  shows "length (cs_jobs s) \<le> 500 \<and> distinct (map job_id (cs_jobs s)) \<and> length (cs_run_log s) \<le> 1000 \<and>
    (\<forall>j ev. j \<in> set (cs_jobs s) \<longrightarrow> job_schedule j \<noteq> Every ev None)"
proof -
  have "cron_inv (CronScheduler_new en path None)"
    by (simp add: cron_inv_def CronScheduler_new_def jobs_ok_def)
  then have "cron_inv s" unfolding assms(2) using assms(1) by (rule cron_machine.run_inv)
  then show ?thesis by (auto simp: cron_inv_def jobs_ok_def MAX_JOBS_def list_all_iff has_anchor_def)
qed


text \<open>
  When the wall clock has jumped by more than ten minutes, forwards or backwards,
  since the last tick, the tick spawns nothing, keeps every job, and leaves no job due at the new time.
\<close>

theorem clock_jump_fires_nothing:
  assumes "chrono_ok C" "0 < cs_last_tick_observed_ms s" "int (env_now e) \<le> i64_max"
    and "cs_last_tick_observed_ms s + 600000 < env_now e \<or> env_now e + 600000 < cs_last_tick_observed_ms s"
    and "cs_last_tick_observed_ms s \<le> u64_max"
    and "\<forall>j ev a. j \<in> set (cs_jobs s) \<longrightarrow> job_schedule j = Every ev a \<longrightarrow> env_now e + ev \<le> u64_max"
  shows "fst (cron_tick C e es s) = [] \<and>
    map job_id (cs_jobs (snd (cron_tick C e es s))) = map job_id (cs_jobs s) \<and>
    (\<forall>j. j \<in> set (cs_jobs (snd (cron_tick C e es s))) \<longrightarrow> \<not> due_now (env_now e) j)"
proof -
  let ?f = "\<lambda>j. if job_enabled j then snd (reschedule C (env_now e) j) else j"
  have jump: "clock_jumped (cs_last_tick_observed_ms s) (env_now e)"
    using assms(2-5) by (auto simp: clock_jumped_def u64_saturating_add_def CRON_TICK_JUMP_THRESHOLD_MS_def
        u64_max_def i64_max_def)
  then have tick: "fst (cron_tick C e es s) = []" "cs_jobs (snd (cron_tick C e es s)) = map ?f (cs_jobs s)"
    by (simp_all add: cron_tick_def get_due_job_ids_def Let_def)
  have "\<not> due_now (env_now e) (?f j)" if "j \<in> set (cs_jobs s)" for j
  proof (cases "compute_next_run C (job_schedule j) (env_now e)")
    case (Some r)
    then have "env_now e < r"
      using next_run_in_future [OF assms(1,3) Some] assms(6) that by blast
    with Some show ?thesis by (auto simp: due_now_def)
  qed (auto simp: due_now_def)
  then have "\<forall>j. j \<in> set (map ?f (cs_jobs s)) \<longrightarrow> \<not> due_now (env_now e) j" unfolding set_map by blast
  moreover have "map job_id (map ?f (cs_jobs s)) = map job_id (cs_jobs s)" by (simp add: comp_def)
  ultimately show ?thesis unfolding tick by blast
qed

subsection \<open>Restart\<close>

text \<open>A scheduler whose file holds its jobs, and operations whose flushes do not fail.\<close>

definition disk_synced :: "CronScheduler \<Rightarrow> bool" where
  "disk_synced s \<longleftrightarrow>
     cs_persist_path s \<noteq> None \<and>
     (cs_disk s = Some (map persist_job (cs_jobs s)) \<or> cs_disk s = None \<and> cs_jobs s = [])"

fun flush_ok :: "cron_op \<Rightarrow> bool" where
  "flush_ok (Op_add e inp) = (env_fault e = None)"
| "flush_ok (Op_update e i p) = (env_fault e = None)"
| "flush_ok (Op_remove f i) = (f = None)"
| "flush_ok (Op_run e i m) = (env_fault e = None)"
| "flush_ok (Op_tick e es) = (env_fault e = None \<and> (\<forall>k. env_fault (es k) = None))"
| "flush_ok (Op_done e f i out w d) = (env_fault e = None \<and> f = None)"
| "flush_ok (Op_load e r) = False"
| "flush_ok Op_restart = False"

lemma synced_flush [simp]:
  "cs_persist_path s \<noteq> None \<Longrightarrow> disk_synced (flush_to_disk None (s\<lparr>cs_jobs := js\<rparr>))"
  using flush_disk_ok [of "s\<lparr>cs_jobs := js\<rparr>"] by (auto simp: disk_synced_def)

lemma synced_emit [simp]: "disk_synced (emit_event ev s) \<longleftrightarrow> disk_synced s"
  by (simp add: disk_synced_def)

lemma synced_record [simp]: "disk_synced (record_run x s) \<longleftrightarrow> disk_synced s"
  by (simp add: disk_synced_def)

lemma synced_path: "disk_synced s \<Longrightarrow> cs_persist_path s \<noteq> None"
  by (simp add: disk_synced_def)

lemma synced_remove: "disk_synced s \<Longrightarrow> disk_synced (snd (cron_remove None i s))"
proof -
  assume s: "disk_synced s"
  have "filter (\<lambda>j. job_id j \<noteq> i) (cs_jobs s) = cs_jobs s"
    if "length (filter (\<lambda>j. job_id j \<noteq> i) (cs_jobs s)) = length (cs_jobs s)"
    using that by (metis filter_True length_filter_less nat_less_le)
  with s synced_path [OF s] show ?thesis
    by (auto simp: cron_remove_def Let_def)
qed

lemma synced_run: "disk_synced s \<Longrightarrow> env_fault e = None \<Longrightarrow> disk_synced (snd (cron_run C e i m s))"
  using synced_path [of s] by (simp add: cron_run_def Let_def split: option.split)

lemma synced_run_due:
  "disk_synced s \<Longrightarrow> \<forall>k. env_fault (es k) = None \<Longrightarrow> disk_synced (snd (run_due C es n is s))"
proof (induction "is" arbitrary: n s)
  case (Cons i "is")
  then have "disk_synced (snd (cron_run C (es n) i (Some Due) s))" by (simp add: synced_run)
  from Cons.IH [OF this Cons.prems(2), of "Suc n"] show ?case by (simp add: case_prod_beta Let_def)
qed simp

lemma synced_get_due:
  "disk_synced s \<Longrightarrow> env_fault e = None \<Longrightarrow> disk_synced (snd (get_due_job_ids C e s))"
  using synced_path [of s] by (simp add: get_due_job_ids_def Let_def) (simp add: disk_synced_def)

lemma synced_step: "disk_synced s \<Longrightarrow> flush_ok a \<Longrightarrow> disk_synced (cron_step C a s)"
proof (cases a)
  case (Op_tick e es)
  assume "disk_synced s" "flush_ok a"
  with Op_tick have "disk_synced (snd (run_due C es 0 (fst (get_due_job_ids C e s)) (snd (get_due_job_ids C e s))))"
    by (intro synced_run_due synced_get_due) simp_all
  with Op_tick show ?thesis by (simp add: cron_tick_def case_prod_beta)
next
  case (Op_add e inp)
  assume "disk_synced s" "flush_ok a"
  with Op_add synced_path [of s] show ?thesis
    by (simp add: cron_add_def Let_def split: option.split)
next
  case (Op_update e i p)
  assume "disk_synced s" "flush_ok a"
  with Op_update synced_path [of s] show ?thesis
    by (simp add: cron_update_def Let_def split: option.split)
next
  case (Op_done e f i out w d)
  assume "disk_synced s" "flush_ok a"
  with Op_done synced_path [of s] show ?thesis
    by (simp add: payload_done_def case_prod_beta mark_run_finished_def Let_def synced_remove split: option.split)
qed (simp_all add: synced_remove synced_run)

interpretation cron_disk: invariant_machine "cron_step C" disk_synced "\<lambda>a _. flush_ok a" for C
  by unfold_locales (rule synced_step)

lemma run_ok_list_all: "run_ok (\<lambda>a _. P a) step as s \<longleftrightarrow> list_all P as"
  by (induction as arbitrary: s) simp_all

text \<open>
  After operations whose flushes succeed, a restart and a load give back every job of the
  scheduler in the same order, with the running mark cleared and the next run recomputed.
\<close>

theorem restart_recovers_jobs:
  assumes "list_all flush_ok as" "s = fold (cron_step C) as (CronScheduler_new en (Some path) None)"
  shows "cs_jobs (cron_step C (Op_load e True) (cron_step C Op_restart s))
    = map (\<lambda>j. snd (load_job C (env_now e) j)) (cs_jobs s)"
proof -
  have "disk_synced (CronScheduler_new en (Some path) None)"
    by (simp add: disk_synced_def CronScheduler_new_def)
  then have "disk_synced s"
    unfolding assms(2) using assms(1) by (intro cron_disk.run_inv) (simp_all add: run_ok_list_all)
  then show ?thesis
    by (auto simp: disk_synced_def CronScheduler_new_def cron_load_def Let_def comp_def)
qed

definition ex_input :: CronJobCreate where
  "ex_input = \<lparr>create_name = ''backup'', create_agent_id = None, create_description = None,
     create_enabled = True, create_delete_after_run = None, create_schedule = Every 1000 None,
     create_session_target = Main, create_wake_mode = Now, create_payload = SystemEvent ''go'',
     create_isolation = None\<rparr>"

definition ex_scheduler :: CronScheduler where
  "ex_scheduler = cron_step ex_chrono (Op_add (ex_env 1000 ''a'') ex_input)
     (CronScheduler_new True (Some ''jobs.json'') None)"

definition ex_job :: CronJob where
  "ex_job = \<lparr>job_id = ''a'', job_agent_id = None, job_name = ''backup'', job_description = None,
     job_enabled = True, job_delete_after_run = None, job_created_at_ms = 1000,
     job_updated_at_ms = 1000, job_schedule = Every 1000 (Some 1000), job_session_target = Main,
     job_wake_mode = Now, job_payload = SystemEvent ''go'', job_isolation = None,
     job_state = \<lparr>next_run_at_ms = Some 2000, running_at_ms = None, last_run_at_ms = None,
       last_status = None, last_error = None, last_duration_ms = None\<rparr>\<rparr>"

lemma ex_new_job: "new_job ex_chrono (ex_env 1000 ''a'') ex_input = ex_job"
  by (simp add: new_job_def ex_env_def ex_input_def ex_job_def anchored_def compute_next_run_def
      u64_add_def u64_mul_def u64_max_def)

lemma ex_scheduler_jobs: "cs_jobs ex_scheduler = [ex_job]" "cs_last_tick_observed_ms ex_scheduler = 0"
  by (simp_all add: ex_scheduler_def cron_add_def Let_def CronScheduler_new_def MAX_JOBS_def ex_new_job)

lemma ex_scheduler_inv: "cron_inv ex_scheduler"
  unfolding ex_scheduler_def
  by (rule cron_step_inv) (simp_all add: cron_inv_def CronScheduler_new_def jobs_ok_def)

theorem cron_scheduler_invariant_witness:
  "length (cs_jobs ex_scheduler) \<le> 500 \<and> cs_jobs ex_scheduler = [ex_job]"
proof -
  let ?as = "[Op_add (ex_env 1000 ''a'') ex_input]"
  have "run_ok cron_ok (cron_step ex_chrono) ?as (CronScheduler_new True (Some ''jobs.json'') None)"
    by (simp add: CronScheduler_new_def)
  moreover have "ex_scheduler = fold (cron_step ex_chrono) ?as (CronScheduler_new True (Some ''jobs.json'') None)"
    by (simp add: ex_scheduler_def)
  ultimately show ?thesis using cron_scheduler_invariant ex_scheduler_jobs(1) by blast
qed

lemma ex_due: "due_now 2500 ex_job" "\<not> due_now 1500 ex_job"
  by (simp_all add: due_now_def ex_job_def)



theorem clock_jump_fires_nothing_witness:
  "fst (cron_tick ex_chrono (ex_env 9000000 ''b'') (\<lambda>_. ex_env 9000000 ''c'')
     (ex_scheduler\<lparr>cs_last_tick_observed_ms := 2500\<rparr>)) = []"
  using clock_jump_fires_nothing [OF ex_chrono_ok, of "ex_scheduler\<lparr>cs_last_tick_observed_ms := 2500\<rparr>"
      "ex_env 9000000 ''b''" "\<lambda>_. ex_env 9000000 ''c''"]
  by (simp add: ex_scheduler_jobs ex_env_def i64_max_def u64_max_def ex_job_def)

theorem restart_recovers_jobs_witness:
  "cs_jobs (cron_step ex_chrono (Op_load (ex_env 5500 ''x'') True) (cron_step ex_chrono Op_restart ex_scheduler))
    = [snd (load_job ex_chrono 5500 ex_job)]"
  using restart_recovers_jobs [of "[Op_add (ex_env 1000 ''a'') ex_input]" ex_scheduler ex_chrono True "''jobs.json''" "ex_env 5500 ''x''"]
  unfolding ex_scheduler_jobs by (simp add: ex_scheduler_def ex_env_def)

end
