(* ===== verification/Net_Address.thy ===== *)
theory Net_Address
  imports Rust_Text
begin

text \<open>
  Internet addresses as the standard library has them (\<^verbatim>\<open>std::net::IpAddr\<close>): an IPv4 address is its
  four octets, an IPv6 address its eight 16-bit groups. The parsers follow the grammar of
  \<^verbatim>\<open>IpAddr::from_str\<close> and \<^verbatim>\<open>SocketAddr::from_str\<close>; a parser maps a text to the value read and the
  rest of the text.
\<close>

subsection \<open>Addresses\<close>

type_synonym ipv4 = "nat \<times> nat \<times> nat \<times> nat"
type_synonym ipv6 = "nat list"

datatype IpAddr = V4 ipv4 | V6 ipv6

fun v4_is_loopback :: "ipv4 \<Rightarrow> bool" where
  "v4_is_loopback (a, b, c, d) = (a = 127)"

definition v6_is_loopback :: "ipv6 \<Rightarrow> bool" where
  "v6_is_loopback g = (g = [0, 0, 0, 0, 0, 0, 0, 1])"

text \<open>\<^verbatim>\<open>Ipv6Addr::to_ipv4\<close> converts the IPv4-mapped (\<^verbatim>\<open>::ffff:a.b.c.d\<close>) and the IPv4-compatible
  addresses (\<^verbatim>\<open>::a.b.c.d\<close>), \<^verbatim>\<open>::1\<close> among the latter.\<close>

definition to_ipv4 :: "ipv6 \<Rightarrow> ipv4 option" where
  "to_ipv4 g =
     (if length g = 8 \<and> take 5 g = [0, 0, 0, 0, 0] \<and> g ! 5 \<in> {0, 65535}
      then Some (g ! 6 div 256, g ! 6 mod 256, g ! 7 div 256, g ! 7 mod 256) else None)"

definition v6_octets :: "ipv6 \<Rightarrow> nat list" where
  "v6_octets g = concat (map (\<lambda>x. [x div 256, x mod 256]) g)"

subsection \<open>Parsing\<close>

type_synonym 'a parser = "string \<Rightarrow> ('a \<times> string) option"

definition hex_value :: "char \<Rightarrow> nat option" where
  "hex_value c =
     (let n = of_char c in
      if 48 \<le> n \<and> n \<le> 57 then Some (n - 48)
      else if 97 \<le> n \<and> n \<le> 102 then Some (n - 87)
      else if 65 \<le> n \<and> n \<le> 70 then Some (n - 55)
      else None)"

text \<open>The longest run of digits and the rest of the text.\<close>

fun read_digits :: "(char \<Rightarrow> nat option) \<Rightarrow> string \<Rightarrow> nat list \<times> string" where
  "read_digits dig [] = ([], [])"
| "read_digits dig (c # cs) =
     (case dig c of
        None \<Rightarrow> ([], c # cs)
      | Some d \<Rightarrow> let (ds, rest) = read_digits dig cs in (d # ds, rest))"

definition read_number ::
    "nat \<Rightarrow> nat option \<Rightarrow> bool \<Rightarrow> nat \<Rightarrow> nat parser" where
  "read_number radix max_digits allow_zero_prefix bound s =
     (let (ds, rest) = read_digits (if radix = 16 then hex_value else digit_value) s;
          n = foldl (\<lambda>acc d. acc * radix + d) 0 ds
      in if ds = [] \<or> (case max_digits of None \<Rightarrow> False | Some m \<Rightarrow> length ds > m) \<or> n > bound \<or>
            (\<not> allow_zero_prefix \<and> hd ds = 0 \<and> length ds > 1)
         then None else Some (n, rest))"

fun read_given_char :: "char \<Rightarrow> unit parser" where
  "read_given_char c [] = None"
| "read_given_char c (x # xs) = (if x = c then Some ((), xs) else None)"

definition read_separator :: "char \<Rightarrow> nat \<Rightarrow> 'a parser \<Rightarrow> 'a parser" where
  "read_separator sep index p s =
     (if index > 0 then Option.bind (read_given_char sep s) (\<lambda>(_, r). p r) else p s)"

fun read_octets :: "nat \<Rightarrow> nat \<Rightarrow> nat list parser" where
  "read_octets 0 i s = Some ([], s)"
| "read_octets (Suc n) i s =
     (case read_separator CHR ''.'' i (read_number 10 (Some 3) False 255) s of
        None \<Rightarrow> None
      | Some (x, r) \<Rightarrow>
          (case read_octets n (Suc i) r of None \<Rightarrow> None | Some (xs, r) \<Rightarrow> Some (x # xs, r)))"

definition read_ipv4_addr :: "ipv4 parser" where
  "read_ipv4_addr s =
     (case read_octets 4 0 s of
        Some ([a, b, c, d], r) \<Rightarrow> Some ((a, b, c, d), r)
      | _ \<Rightarrow> None)"

text \<open>The groups of an IPv6 address from index \<open>i\<close> on, at most \<open>n\<close> more; the flag says that an
  embedded IPv4 address ended them.\<close>

fun read_groups :: "nat \<Rightarrow> nat \<Rightarrow> string \<Rightarrow> nat list \<times> bool \<times> string" where
  "read_groups 0 i s = ([], False, s)"
| "read_groups (Suc n) i s =
     (case (if n > 0 then read_separator CHR '':'' i read_ipv4_addr s else None) of
        Some ((a, b, c, d), r) \<Rightarrow> ([a * 256 + b, c * 256 + d], True, r)
      | None \<Rightarrow>
          (case read_separator CHR '':'' i (read_number 16 (Some 4) True 65535) s of
             None \<Rightarrow> ([], False, s)
           | Some (g, r) \<Rightarrow> let (gs, e, r) = read_groups n (Suc i) r in (g # gs, e, r)))"

definition read_ipv6_addr :: "ipv6 parser" where
  "read_ipv6_addr s =
     (let (head, head_ipv4, r) = read_groups 8 0 s
      in if length head = 8 then Some (head, r)
         else if head_ipv4 then None
         else (case r of
                 CHR '':'' # CHR '':'' # r \<Rightarrow>
                   (let (tail, _, r) = read_groups (8 - (length head + 1)) 0 r
                    in Some (head @ replicate (8 - length head - length tail) 0 @ tail, r))
               | _ \<Rightarrow> None))"

definition complete :: "'a parser \<Rightarrow> string \<Rightarrow> 'a option" where
  "complete p s = (case p s of Some (a, []) \<Rightarrow> Some a | _ \<Rightarrow> None)"

definition parse_ip_addr :: "string \<Rightarrow> IpAddr option" where
  "parse_ip_addr s =
     (case complete read_ipv4_addr s of
        Some a \<Rightarrow> Some (V4 a)
      | None \<Rightarrow> map_option V6 (complete read_ipv6_addr s))"

text \<open>The address of a socket address, with its port (and scope) checked and dropped.\<close>

definition read_port :: "nat parser" where
  "read_port s = Option.bind (read_given_char CHR '':'' s) (\<lambda>(_, r). read_number 10 None True 65535 r)"

definition read_scope_id :: "nat parser" where
  "read_scope_id s =
     Option.bind (read_given_char CHR ''%'' s) (\<lambda>(_, r). read_number 10 None True u32_max r)"

definition parse_socket_addr_ip :: "string \<Rightarrow> IpAddr option" where
  "parse_socket_addr_ip s =
     (case complete (\<lambda>s. Option.bind (read_ipv4_addr s) (\<lambda>(a, r). map_option (\<lambda>(_, r). (a, r)) (read_port r))) s of
        Some a \<Rightarrow> Some (V4 a)
      | None \<Rightarrow>
          map_option V6 (complete
            (\<lambda>s. Option.bind (read_given_char CHR ''['' s) (\<lambda>(_, r).
                  Option.bind (read_ipv6_addr r) (\<lambda>(a, r).
                  let r = (case read_scope_id r of Some (_, r') \<Rightarrow> r' | None \<Rightarrow> r)
                  in Option.bind (read_given_char CHR '']'' r) (\<lambda>(_, r).
                     map_option (\<lambda>(_, r). (a, r)) (read_port r))))) s))"

end
