(* ===== verification/Gateway_Auth.thy ===== *)
theory Gateway_Auth
  imports Net_Address
begin

text \<open>
  Authorisation of gateway connections (\<^verbatim>\<open>src/auth/mod.rs\<close>): token and password credentials,
  Tailscale identity headers, direct local requests, and the client address behind proxies.

  Parameters: \<open>H\<close> is SHA-256 (its digest as a text of 32 bytes); a request's headers are the record
  \<open>http_headers\<close>, the look-up of the \<^verbatim>\<open>http\<close> crate and its conversion of a value to text; \<open>whois\<close> is
  the answer of the \<^verbatim>\<open>tailscale whois\<close> command for an address. Texts are ASCII.
\<close>

subsection \<open>Data\<close>

datatype AuthMode = AuthNone | AuthToken | AuthPassword

record ResolvedGatewayAuth =
  auth_mode :: AuthMode
  auth_token :: "string option"
  auth_password :: "string option"
  allow_tailscale :: bool

definition ResolvedGatewayAuth_default :: ResolvedGatewayAuth where
  "ResolvedGatewayAuth_default =
     \<lparr>auth_mode = AuthToken, auth_token = None, auth_password = None, allow_tailscale = False\<rparr>"

datatype GatewayAuthMethod = Local | Token | Password | Tailscale

datatype GatewayAuthFailure =
    TokenMissingConfig | TokenMissing | TokenMismatch
  | PasswordMissingConfig | PasswordMissing | PasswordMismatch
  | Unauthorized

fun failure_message :: "GatewayAuthFailure \<Rightarrow> string" where
  "failure_message TokenMissingConfig =
     ''unauthorized: gateway token not configured on gateway (set gateway.auth.token)''"
| "failure_message TokenMissing = ''unauthorized: token missing''"
| "failure_message TokenMismatch = ''unauthorized: token mismatch''"
| "failure_message PasswordMissingConfig =
     ''unauthorized: gateway password not configured on gateway (set gateway.auth.password)''"
| "failure_message PasswordMissing = ''unauthorized: password missing''"
| "failure_message PasswordMismatch = ''unauthorized: password mismatch''"
| "failure_message Unauthorized = ''unauthorized''"

record GatewayAuthResult =
  auth_ok :: bool
  auth_method :: "GatewayAuthMethod option"
  auth_user :: "string option"
  auth_reason :: "GatewayAuthFailure option"

record TailscaleAuth =
  user_login :: string
  user_name :: "string option"

record 'v http_headers =
  header_get :: "string \<Rightarrow> 'v option"
  header_to_str :: "'v \<Rightarrow> string option"

subsection \<open>Comparison and headers\<close>

definition timing_safe_eq :: "(string \<Rightarrow> string) \<Rightarrow> string \<Rightarrow> string \<Rightarrow> bool" where
  "timing_safe_eq H a b \<longleftrightarrow>
     fold (\<lambda>(x, y) out. or out (xor (of_char x) (of_char y))) (zip (H a) (H b)) (0 :: nat) = 0"

definition has_header :: "'v http_headers \<Rightarrow> string \<Rightarrow> bool" where
  "has_header hs n \<longleftrightarrow> header_get hs n \<noteq> None"

definition has_proxy_headers :: "'v http_headers \<Rightarrow> bool" where
  "has_proxy_headers hs \<longleftrightarrow>
     has_header hs ''x-forwarded-for'' \<or> has_header hs ''x-real-ip'' \<or>
     has_header hs ''x-forwarded-proto'' \<or> has_header hs ''x-forwarded-host''"

definition header_value :: "'v http_headers \<Rightarrow> string \<Rightarrow> string option" where
  "header_value hs n =
     (case Option.bind (header_get hs n) (header_to_str hs) of
        None \<Rightarrow> None
      | Some s \<Rightarrow> if trim s = [] then None else Some (trim s))"

definition has_tailscale_proxy_headers :: "'v http_headers \<Rightarrow> bool" where
  "has_tailscale_proxy_headers hs \<longleftrightarrow>
     header_value hs ''x-forwarded-for'' \<noteq> None \<and> header_value hs ''x-forwarded-proto'' \<noteq> None \<and>
     header_value hs ''x-forwarded-host'' \<noteq> None"

definition normalize_login :: "string \<Rightarrow> string" where
  "normalize_login login = to_ascii_lowercase (trim login)"

text \<open>The login in the answer of \<^verbatim>\<open>tailscale whois\<close>; \<open>get_str\<close> reads a text member of the JSON object
  and \<open>pointer_str\<close> the text at a JSON pointer.\<close>

fun first_login :: "('j \<Rightarrow> string \<Rightarrow> string option) \<Rightarrow> 'j \<Rightarrow> string list \<Rightarrow> string option" where
  "first_login pointer_str v [] = None"
| "first_login pointer_str v (p # ps) =
     (case pointer_str v p of
        Some login \<Rightarrow> if trim login \<noteq> [] then Some (trim login) else first_login pointer_str v ps
      | None \<Rightarrow> first_login pointer_str v ps)"

definition extract_whois_login ::
    "('j \<Rightarrow> string \<Rightarrow> string option) \<Rightarrow> ('j \<Rightarrow> string \<Rightarrow> string option) \<Rightarrow> 'j \<Rightarrow> string option" where
  "extract_whois_login get_str pointer_str v =
     (case get_str v ''LoginName'' of
        Some direct \<Rightarrow> Some direct
      | None \<Rightarrow> first_login pointer_str v
          [''/UserProfile/LoginName'', ''/UserProfile/loginName'', ''/userProfile/loginName''])"

subsection \<open>Addresses\<close>

definition is_loopback_addr :: "IpAddr \<Rightarrow> bool" where
  "is_loopback_addr addr =
     (case addr of
        V4 v4 \<Rightarrow> v4_is_loopback v4 \<or> fst v4 = 127
      | V6 v6 \<Rightarrow> v6_is_loopback v6 \<or>
          (let octets = v6_octets v6
           in take 10 octets = replicate 10 0 \<and> octets ! 10 = 255 \<and> octets ! 11 = 255 \<and>
              octets ! 12 = 127))"

definition is_loopback_request :: "IpAddr option \<Rightarrow> 'v http_headers \<Rightarrow> bool" where
  "is_loopback_request remote hs =
     (case remote of
        Some addr \<Rightarrow> is_loopback_addr addr \<and> \<not> has_proxy_headers hs
      | None \<Rightarrow> False)"

definition normalize_ip_addr :: "IpAddr \<Rightarrow> IpAddr" where
  "normalize_ip_addr ip =
     (case ip of
        V6 v6 \<Rightarrow> (case to_ipv4 v6 of Some v4 \<Rightarrow> V4 v4 | None \<Rightarrow> V6 v6)
      | other \<Rightarrow> other)"

text \<open>The text between an opening bracket and the first closing one (\<^verbatim>\<open>trimmed[1..end]\<close>).\<close>

definition bracketed :: "string \<Rightarrow> string option" where
  "bracketed s =
     (if starts_with s ''['' then map_option (\<lambda>(a, _). drop 1 a) (split_once CHR '']'' s) else None)"

definition get_host_name :: "string option \<Rightarrow> string" where
  "get_host_name host_header =
     (let trimmed = trim (case host_header of None \<Rightarrow> '''' | Some h \<Rightarrow> h)
      in case bracketed trimmed of
           Some inner \<Rightarrow> inner
         | None \<Rightarrow> hd (split_by (\<lambda>c. c = CHR '':'') trimmed))"

definition normalize_ip :: "string \<Rightarrow> IpAddr option" where
  "normalize_ip raw =
     (let trimmed = trim raw
      in if trimmed = [] then None
         else (case Option.bind (bracketed trimmed) parse_ip_addr of
                 Some ip \<Rightarrow> Some (normalize_ip_addr ip)
               | None \<Rightarrow>
                   (case parse_ip_addr trimmed of
                      Some ip \<Rightarrow> Some (normalize_ip_addr ip)
                    | None \<Rightarrow> map_option normalize_ip_addr (parse_socket_addr_ip trimmed))))"

definition parse_forwarded_for :: "string option \<Rightarrow> IpAddr option" where
  "parse_forwarded_for v =
     (case v of None \<Rightarrow> None | Some raw \<Rightarrow> normalize_ip (trim (hd (split_by (\<lambda>c. c = CHR '','') raw))))"

definition is_loopback_address :: "IpAddr \<Rightarrow> bool" where
  "is_loopback_address ip =
     (case ip of
        V4 v4 \<Rightarrow> v4_is_loopback v4
      | V6 v6 \<Rightarrow> v6_is_loopback v6 \<or> (case to_ipv4 v6 of Some v4 \<Rightarrow> v4_is_loopback v4 | None \<Rightarrow> False))"

definition is_trusted_proxy :: "IpAddr option \<Rightarrow> string list \<Rightarrow> bool" where
  "is_trusted_proxy remote trusted =
     (case remote of
        None \<Rightarrow> False
      | Some r \<Rightarrow> if trusted = [] then False
                  else list_ex (\<lambda>p. p = r) (List.map_filter normalize_ip trusted))"

definition is_trusted_proxy_request :: "IpAddr option \<Rightarrow> string list \<Rightarrow> bool" where
  "is_trusted_proxy_request remote trusted =
     (case remote of None \<Rightarrow> False | Some a \<Rightarrow> is_trusted_proxy (Some (normalize_ip_addr a)) trusted)"

definition resolve_client_ip ::
    "IpAddr \<Rightarrow> string option \<Rightarrow> string option \<Rightarrow> string list \<Rightarrow> IpAddr option" where
  "resolve_client_ip remote forwarded_for real_ip trusted =
     (let remote = normalize_ip_addr remote
      in if \<not> is_trusted_proxy (Some remote) trusted then Some remote
         else (case parse_forwarded_for forwarded_for of
                 Some ip \<Rightarrow> Some ip
               | None \<Rightarrow> normalize_ip (case real_ip of None \<Rightarrow> '''' | Some s \<Rightarrow> s)))"

definition resolve_request_client_ip ::
    "IpAddr option \<Rightarrow> 'v http_headers \<Rightarrow> string list \<Rightarrow> IpAddr option" where
  "resolve_request_client_ip remote hs trusted =
     (case remote of
        None \<Rightarrow> None
      | Some a \<Rightarrow>
          (let remote_ip = normalize_ip_addr a
           in case resolve_client_ip remote_ip (header_value hs ''x-forwarded-for'')
                     (header_value hs ''x-real-ip'') trusted of
                Some ip \<Rightarrow> Some ip
              | None \<Rightarrow> Some remote_ip))"

definition is_local_direct_request :: "IpAddr \<Rightarrow> 'v http_headers \<Rightarrow> string list \<Rightarrow> bool" where
  "is_local_direct_request remote hs trusted =
     (let remote_ip = normalize_ip_addr remote;
          has_forwarded = has_proxy_headers hs;
          host = to_ascii_lowercase (get_host_name (header_value hs ''host''));
          host_is_local = (host = ''localhost'' \<or> host = ''127.0.0.1'' \<or> host = ''::1'');
          host_is_tailscale = ends_with host ''.ts.net''
      in if \<not> is_loopback_address remote_ip then False
         else (host_is_local \<or> host_is_tailscale) \<and> \<not> has_forwarded)"

subsection \<open>Authorisation\<close>

definition verify_tailscale_auth ::
    "(IpAddr \<Rightarrow> string option) \<Rightarrow> 'v http_headers \<Rightarrow> IpAddr \<Rightarrow> TailscaleAuth option" where
  "verify_tailscale_auth whois hs remote =
     (if \<not> is_loopback_addr remote then None
      else if \<not> has_tailscale_proxy_headers hs then None
      else (case (case header_value hs ''tailscale-user-login'' of
                    Some l \<Rightarrow> Some l | None \<Rightarrow> header_value hs ''x-tailscale-user'') of
              None \<Rightarrow> None
            | Some login \<Rightarrow>
                (case parse_forwarded_for (header_value hs ''x-forwarded-for'') of
                   None \<Rightarrow> None
                 | Some client_ip \<Rightarrow>
                     (case whois client_ip of
                        None \<Rightarrow> None
                      | Some whois_login \<Rightarrow>
                          if normalize_login whois_login \<noteq> normalize_login login then None
                          else Some \<lparr>user_login = whois_login,
                            user_name = header_value hs ''tailscale-user-name''\<rparr>))))"

definition normalize_credential :: "string option \<Rightarrow> string option" where
  "normalize_credential v = (case v of None \<Rightarrow> None | Some s \<Rightarrow> if trim s = [] then None else Some s)"

definition refused :: "GatewayAuthFailure \<Rightarrow> GatewayAuthResult" where
  "refused r = \<lparr>auth_ok = False, auth_method = None, auth_user = None, auth_reason = Some r\<rparr>"

definition granted :: "GatewayAuthMethod \<Rightarrow> string option \<Rightarrow> GatewayAuthResult" where
  "granted m u = \<lparr>auth_ok = True, auth_method = Some m, auth_user = u, auth_reason = None\<rparr>"

definition authorize_gateway_credentials ::
    "(string \<Rightarrow> string) \<Rightarrow> ResolvedGatewayAuth \<Rightarrow> string option \<Rightarrow> string option \<Rightarrow> GatewayAuthResult" where
  "authorize_gateway_credentials H auth token password =
     (let token = normalize_credential token;
          password = normalize_credential password
      in case auth_mode auth of
           AuthNone \<Rightarrow> refused Unauthorized
         | AuthToken \<Rightarrow>
             (case normalize_credential (auth_token auth) of
                None \<Rightarrow> refused TokenMissingConfig
              | Some expected \<Rightarrow>
                  (case token of
                     None \<Rightarrow> refused TokenMissing
                   | Some provided \<Rightarrow>
                       if timing_safe_eq H expected provided then granted Token None
                       else refused TokenMismatch))
         | AuthPassword \<Rightarrow>
             (case normalize_credential (auth_password auth) of
                None \<Rightarrow> refused PasswordMissingConfig
              | Some expected \<Rightarrow>
                  (case password of
                     None \<Rightarrow> refused PasswordMissing
                   | Some provided \<Rightarrow>
                       if timing_safe_eq H expected provided then granted Password None
                       else refused PasswordMismatch)))"

definition authorize_gateway_connect ::
    "(string \<Rightarrow> string) \<Rightarrow> (IpAddr \<Rightarrow> string option) \<Rightarrow> ResolvedGatewayAuth \<Rightarrow> string option \<Rightarrow> string option \<Rightarrow>
     'v http_headers \<Rightarrow> IpAddr \<Rightarrow> string list \<Rightarrow> GatewayAuthResult" where
  "authorize_gateway_connect H whois auth token password hs remote trusted =
     (let local_direct = is_local_direct_request remote hs trusted
      in if auth_mode auth = AuthNone \<and> local_direct then granted Local None
         else (case (if allow_tailscale auth \<and> \<not> local_direct
                     then verify_tailscale_auth whois hs remote else None) of
                 Some ts \<Rightarrow> granted Tailscale (Some (user_login ts))
               | None \<Rightarrow> authorize_gateway_credentials H auth token password))"

definition authorize_gateway_request ::
    "(string \<Rightarrow> string) \<Rightarrow> (IpAddr \<Rightarrow> string option) \<Rightarrow> ResolvedGatewayAuth \<Rightarrow> string option \<Rightarrow> string option \<Rightarrow>
     'v http_headers \<Rightarrow> IpAddr option \<Rightarrow> string list \<Rightarrow> GatewayAuthResult" where
  "authorize_gateway_request H whois auth token password hs remote trusted =
     (case remote of
        Some r \<Rightarrow> authorize_gateway_connect H whois auth token password hs r trusted
      | None \<Rightarrow> authorize_gateway_credentials H auth token password)"

subsection \<open>Properties\<close>

lemma timing_safe_eq_iff:
  assumes "\<forall>s. length (H s) = 32"
  shows "timing_safe_eq H a b \<longleftrightarrow> H a = H b"
  using assms by (simp add: timing_safe_eq_def or_fold_zero zip_equal)

text \<open>A credential is accepted only if it is configured, given, not blank, and of equal digest.\<close>

definition credential_matches :: "(string \<Rightarrow> string) \<Rightarrow> string option \<Rightarrow> string option \<Rightarrow> bool" where
  "credential_matches H expected provided \<longleftrightarrow>
     (\<exists>x p. expected = Some x \<and> provided = Some p \<and> trim x \<noteq> [] \<and> trim p \<noteq> [] \<and> H x = H p)"

lemma normalize_credential_Some [simp]:
  "normalize_credential v = Some s \<longleftrightarrow> v = Some s \<and> trim s \<noteq> []"
  by (auto simp: normalize_credential_def split: option.splits if_splits)

lemma credentials_ok:
  assumes "\<forall>s. length (H s) = 32"
  shows "auth_ok (authorize_gateway_credentials H A token password) \<longleftrightarrow>
    auth_mode A = AuthToken \<and> credential_matches H (auth_token A) token \<or>
    auth_mode A = AuthPassword \<and> credential_matches H (auth_password A) password"
  by (auto simp: authorize_gateway_credentials_def Let_def credential_matches_def normalize_credential_def
      refused_def granted_def timing_safe_eq_iff [OF assms] split: AuthMode.split option.split)

lemma verify_tailscale_Some:
  assumes "verify_tailscale_auth whois hs remote = Some ts"
  shows "is_loopback_addr remote" "has_tailscale_proxy_headers hs"
    "\<exists>ip login. parse_forwarded_for (header_value hs ''x-forwarded-for'') = Some ip \<and>
       whois ip = Some (user_login ts) \<and>
       (header_value hs ''tailscale-user-login'' = Some login \<or> header_value hs ''x-tailscale-user'' = Some login) \<and>
       normalize_login login = normalize_login (user_login ts)"
  using assms unfolding verify_tailscale_auth_def
  by (auto split: if_splits option.splits)

text \<open>
  C22: A gateway request is authorised only for a reason: the configured token (or password, as the
  mode says) is not blank and the request gives one of equal digest; or the mode asks for no
  credential and the request comes directly from a loopback address, without proxy headers and
  for a local host name; or Tailscale identity is allowed and the request comes through a loopback
  proxy with all forwarding headers, and the identity service confirms the login for the
  forwarded address.
\<close>

theorem gateway_auth_sound:
  assumes "\<forall>s. length (H s) = 32"
    and "auth_ok (authorize_gateway_request H whois A token password hs remote trusted)"
  shows "auth_mode A = AuthToken \<and> credential_matches H (auth_token A) token \<or>
    auth_mode A = AuthPassword \<and> credential_matches H (auth_password A) password \<or>
    (\<exists>r. remote = Some r \<and> auth_mode A = AuthNone \<and> is_loopback_address (normalize_ip_addr r) \<and>
       \<not> has_proxy_headers hs \<and>
       (to_ascii_lowercase (get_host_name (header_value hs ''host'')) \<in> {''localhost'', ''127.0.0.1'', ''::1''} \<or>
        ends_with (to_ascii_lowercase (get_host_name (header_value hs ''host''))) ''.ts.net'')) \<or>
    (\<exists>r ip login user. remote = Some r \<and> allow_tailscale A \<and> is_loopback_addr r \<and>
       has_tailscale_proxy_headers hs \<and>
       parse_forwarded_for (header_value hs ''x-forwarded-for'') = Some ip \<and> whois ip = Some user \<and>
       (header_value hs ''tailscale-user-login'' = Some login \<or> header_value hs ''x-tailscale-user'' = Some login) \<and>
       normalize_login login = normalize_login user)"
proof (cases remote)
  case None
  with assms(2) credentials_ok [OF assms(1)] show ?thesis by (simp add: authorize_gateway_request_def)
next
  case (Some r)
  let ?l = "is_local_direct_request r hs trusted"
  consider (loc) "auth_mode A = AuthNone" ?l
    | (ts) ts where "allow_tailscale A" "verify_tailscale_auth whois hs r = Some ts"
    | (cred) "auth_ok (authorize_gateway_credentials H A token password)"
    using assms(2) Some unfolding authorize_gateway_request_def authorize_gateway_connect_def Let_def
    by (auto split: if_splits option.splits)
  then show ?thesis
  proof cases
    case loc
    then show ?thesis using Some
      by (auto simp: is_local_direct_request_def Let_def split: if_splits)
  next
    case ts
    then show ?thesis using Some verify_tailscale_Some [OF ts(2)] by blast
  next
    case cred
    then show ?thesis using credentials_ok [OF assms(1)] by blast
  qed
qed

text \<open>
  The client address cannot be forged: unless the peer is a configured trusted proxy, the
  address of a request is the peer's own (with IPv4-mapped addresses in their IPv4 form), whatever
  headers the request carries.
\<close>

theorem client_ip_not_forgeable:
  assumes "\<not> is_trusted_proxy_request (Some peer) trusted"
  shows "resolve_request_client_ip (Some peer) hs trusted = Some (normalize_ip_addr peer)"
proof -
  have idem: "normalize_ip_addr (normalize_ip_addr ip) = normalize_ip_addr ip" for ip
    by (auto simp: normalize_ip_addr_def split: IpAddr.splits option.splits)
  show ?thesis using assms
    by (simp add: resolve_request_client_ip_def resolve_client_ip_def is_trusted_proxy_request_def idem Let_def)
qed

subsection \<open>Witnesses\<close>

definition ex_digest :: "string \<Rightarrow> string" where
  "ex_digest s = take 32 (s @ replicate 32 (CHR ''.''))"

definition ex_headers :: "(string \<times> string) list \<Rightarrow> string http_headers" where
  "ex_headers m = \<lparr>header_get = map_of m, header_to_str = Some\<rparr>"

theorem gateway_auth_sound_witness:
  "credential_matches ex_digest (Some ''s3cret'') (Some ''s3cret'')"
proof -
  let ?A = "\<lparr>auth_mode = AuthToken, auth_token = Some ''s3cret'', auth_password = None, allow_tailscale = False\<rparr>"
  have d: "\<forall>s. length (ex_digest s) = 32" by (auto simp: ex_digest_def)
  have "trim ''s3cret'' = ''s3cret''" by (simp add: trim_def is_ascii_ws_def)
  then have "auth_ok (authorize_gateway_request ex_digest (\<lambda>_. None) ?A (Some ''s3cret'') None (ex_headers []) None [])"
    by (simp add: authorize_gateway_request_def credentials_ok [OF d] credential_matches_def)
  from gateway_auth_sound [OF d this] show ?thesis by simp
qed

theorem client_ip_not_forgeable_witness:
  "resolve_request_client_ip (Some (V4 (203, 0, 113, 9))) (ex_headers [(''x-forwarded-for'', ''127.0.0.1'')]) []
    = Some (V4 (203, 0, 113, 9))"
  using client_ip_not_forgeable [of "V4 (203, 0, 113, 9)" "[]" "ex_headers [(''x-forwarded-for'', ''127.0.0.1'')]"]
  by (simp add: is_trusted_proxy_request_def is_trusted_proxy_def normalize_ip_addr_def)

text \<open>
  A local request over IPv6 is not taken as local, although the host name \<^verbatim>\<open>::1\<close> is listed as
  a local one: normalising turns the loopback address \<^verbatim>\<open>::1\<close> into \<^verbatim>\<open>0.0.0.1\<close>.
\<close>

lemma ipv6_loopback_not_local:
  "is_loopback_addr (V6 [0, 0, 0, 0, 0, 0, 0, 1]) \<and>
   \<not> is_local_direct_request (V6 [0, 0, 0, 0, 0, 0, 0, 1]) hs trusted"
  by (simp add: is_loopback_addr_def v6_is_loopback_def is_local_direct_request_def normalize_ip_addr_def
      to_ipv4_def is_loopback_address_def)

end
