(* ===== verification/Rate_Limiter.thy ===== *)
theory Rate_Limiter
  imports Complex_Main Gateway_Auth
begin

text \<open>
  The HTTP rate limiter and the limiter of WebSocket messages (\<^verbatim>\<open>src/server/ratelimit.rs\<close>).

  Token counts are \<^verbatim>\<open>f64\<close>: they are real numbers, and every arithmetic operation rounds its exact
  result with the parameter \<open>fl\<close>, of which \<open>f64_ok\<close> states what IEEE 754 double precision promises
  and the proofs use. Instants and durations are nanoseconds of the monotonic clock; one operation reads
  the clock once. A conversion that panics is the value \<open>None\<close>.
\<close>

subsection \<open>Token buckets\<close>

record TokenBucket =
  tokens :: real
  last_refill :: nat
  bucket_rate :: real
  max_tokens :: real

definition TokenBucket_new :: "nat \<Rightarrow> u32 \<Rightarrow> u32 \<Rightarrow> TokenBucket" where
  "TokenBucket_new now rate burst =
     \<lparr>tokens = real burst, last_refill = now, bucket_rate = real rate, max_tokens = real burst\<rparr>"

definition as_secs_f64 :: "(real \<Rightarrow> real) \<Rightarrow> nat \<Rightarrow> real" where
  "as_secs_f64 fl ns = fl (real ns / 1000000000)"

definition refill :: "(real \<Rightarrow> real) \<Rightarrow> nat \<Rightarrow> TokenBucket \<Rightarrow> TokenBucket" where
  "refill fl now b =
     (let elapsed = as_secs_f64 fl (now - last_refill b);
          new_tokens = fl (elapsed * bucket_rate b)
      in b\<lparr>tokens := min (fl (tokens b + new_tokens)) (max_tokens b), last_refill := now\<rparr>)"

definition try_consume :: "(real \<Rightarrow> real) \<Rightarrow> nat \<Rightarrow> TokenBucket \<Rightarrow> bool \<times> TokenBucket" where
  "try_consume fl now b =
     (let b = refill fl now b
      in if tokens b \<ge> 1 then (True, b\<lparr>tokens := fl (tokens b - 1)\<rparr>) else (False, b))"

text \<open>The seconds until a token is there; \<^verbatim>\<open>Duration::from_secs_f64\<close> panics on the infinite quotient by a
  zero rate.\<close>

definition time_until_available :: "(real \<Rightarrow> real) \<Rightarrow> TokenBucket \<Rightarrow> real option" where
  "time_until_available fl b =
     (if tokens b \<ge> 1 then Some 0
      else if bucket_rate b = 0 then None
      else Some (fl (fl (1 - tokens b) / bucket_rate b)))"

subsection \<open>Configuration\<close>

record RouteLimitConfig =
  route_prefix :: string
  route_rate :: u32
  route_burst :: u32

record RateLimitConfig =
  default_rate :: u32
  default_burst :: u32
  route_limits :: "RouteLimitConfig list"
  limit_enabled :: bool
  trust_proxy_headers :: bool
  cleanup_interval :: nat
  entry_expiry :: nat
  exempt_ips :: "IpAddr list"
  exempt_loopback :: bool

definition RouteLimitConfig_new :: "string \<Rightarrow> u32 \<Rightarrow> u32 \<Rightarrow> RouteLimitConfig" where
  "RouteLimitConfig_new p r b = \<lparr>route_prefix = p, route_rate = r, route_burst = b\<rparr>"

definition RateLimitConfigBuilder_default :: RateLimitConfig where
  "RateLimitConfigBuilder_default =
     \<lparr>default_rate = 100, default_burst = 200, route_limits = [], limit_enabled = True,
      trust_proxy_headers = False, cleanup_interval = 300 * 1000000000, entry_expiry = 600 * 1000000000,
      exempt_ips = [], exempt_loopback = True\<rparr>"

definition RateLimitConfig_default :: RateLimitConfig where
  "RateLimitConfig_default =
     RateLimitConfigBuilder_default\<lparr>route_limits :=
       [RouteLimitConfig_new ''/hooks/'' 50 100,
        RouteLimitConfig_new ''/tools/'' 50 100,
        RouteLimitConfig_new ''/control/matrix/verifications/'' 5 10,
        RouteLimitConfig_new ''/control/matrix/verifications'' 60 120,
        RouteLimitConfig_new ''/control/matrix/send-test'' 5 10]\<rparr>"

fun limit_for_path :: "RouteLimitConfig list \<Rightarrow> u32 \<times> u32 \<Rightarrow> string \<Rightarrow> u32 \<times> u32" where
  "limit_for_path [] d path = d"
| "limit_for_path (r # rs) d path =
     (if starts_with path (route_prefix r) then (route_rate r, route_burst r) else limit_for_path rs d path)"

definition get_limit_for_path :: "RateLimitConfig \<Rightarrow> string \<Rightarrow> u32 \<times> u32" where
  "get_limit_for_path c path = limit_for_path (route_limits c) (default_rate c, default_burst c) path"

fun ip_is_loopback :: "IpAddr \<Rightarrow> bool" where
  "ip_is_loopback (V4 a) = v4_is_loopback a"
| "ip_is_loopback (V6 g) = v6_is_loopback g"

definition is_exempt :: "RateLimitConfig \<Rightarrow> IpAddr \<Rightarrow> bool" where
  "is_exempt c ip \<longleftrightarrow> exempt_loopback c \<and> ip_is_loopback ip \<or> ip \<in> set (exempt_ips c)"

subsection \<open>The limiter\<close>

record ClientEntry =
  bucket :: TokenBucket
  last_seen :: nat

type_synonym bucket_key = "IpAddr \<times> string"

record RateLimiter =
  buckets :: "(bucket_key, ClientEntry) hmap"
  limiter_config :: RateLimitConfig
  last_cleanup :: nat

definition RateLimiter_new :: "nat \<Rightarrow> RateLimitConfig \<Rightarrow> RateLimiter" where
  "RateLimiter_new now c = \<lparr>buckets = [], limiter_config = c, last_cleanup = now\<rparr>"

fun prefix_of_path :: "RouteLimitConfig list \<Rightarrow> string \<Rightarrow> string" where
  "prefix_of_path [] path = ''default''"
| "prefix_of_path (r # rs) path =
     (if starts_with path (route_prefix r) then route_prefix r else prefix_of_path rs path)"

definition get_route_prefix :: "RateLimiter \<Rightarrow> string \<Rightarrow> string" where
  "get_route_prefix L path = prefix_of_path (route_limits (limiter_config L)) path"

definition maybe_cleanup :: "nat \<Rightarrow> RateLimiter \<Rightarrow> RateLimiter" where
  "maybe_cleanup now L =
     (if now - last_cleanup L < cleanup_interval (limiter_config L) then L
      else L\<lparr>last_cleanup := now,
             buckets := hm_retain (\<lambda>_ x. now - last_seen x < entry_expiry (limiter_config L)) (buckets L)\<rparr>)"

datatype check_result = Allowed | LimitExceeded nat | Panicked

definition check :: "(real \<Rightarrow> real) \<Rightarrow> nat \<Rightarrow> IpAddr \<Rightarrow> string \<Rightarrow> RateLimiter \<Rightarrow> check_result \<times> RateLimiter" where
  "check fl now ip path L =
     (if \<not> limit_enabled (limiter_config L) then (Allowed, L)
      else if is_exempt (limiter_config L) ip then (Allowed, L)
      else (let (rate, burst) = get_limit_for_path (limiter_config L) path;
                key = (ip, get_route_prefix L path);
                L = maybe_cleanup now L;
                entry = (case hm_get (buckets L) key of
                           Some x \<Rightarrow> x
                         | None \<Rightarrow> \<lparr>bucket = TokenBucket_new now rate burst, last_seen = now\<rparr>);
                (ok, b) = try_consume fl now (bucket entry);
                L = L\<lparr>buckets := hm_insert key \<lparr>bucket = b, last_seen = now\<rparr> (buckets L)\<rparr>
            in (if ok then Allowed
                else (case time_until_available fl b of
                        None \<Rightarrow> Panicked
                      | Some secs \<Rightarrow> LimitExceeded (max (nat \<lfloor>secs\<rfloor>) 1)), L)))"

record RateLimiterStats =
  total_buckets :: usize
  config_enabled :: bool

definition limiter_stats :: "RateLimiter \<Rightarrow> RateLimiterStats" where
  "limiter_stats L = \<lparr>total_buckets = length (buckets L), config_enabled = limit_enabled (limiter_config L)\<rparr>"

subsection \<open>The middleware\<close>

definition extract_client_ip :: "IpAddr option \<Rightarrow> 'v http_headers \<Rightarrow> bool \<Rightarrow> IpAddr option" where
  "extract_client_ip remote hs trust_proxy =
     (let text = (\<lambda>n. Option.bind (header_get hs n) (header_to_str hs));
          forwarded = Option.bind (text ''x-forwarded-for'')
             (\<lambda>s. parse_ip_addr (trim (hd (split_by (\<lambda>c. c = CHR '','') s))));
          real_ip = Option.bind (text ''x-real-ip'') (\<lambda>s. parse_ip_addr (trim s))
      in if trust_proxy \<and> forwarded \<noteq> None then forwarded
         else if trust_proxy \<and> real_ip \<noteq> None then real_ip
         else remote)"

datatype middleware_result =
    Passed "(u32 \<times> u32) option"
  | TooManyRequests nat
  | MiddlewarePanic

text \<open>\<open>Passed (Some (rate, burst))\<close> is a request that went on and whose response carries rate-limit headers.\<close>

definition rate_limit_middleware ::
    "(real \<Rightarrow> real) \<Rightarrow> nat \<Rightarrow> IpAddr option \<Rightarrow> 'v http_headers \<Rightarrow> string \<Rightarrow> RateLimiter \<Rightarrow>
     middleware_result \<times> RateLimiter" where
  "rate_limit_middleware fl now remote hs path L =
     (if \<not> limit_enabled (limiter_config L) then (Passed None, L)
      else (case extract_client_ip remote hs (trust_proxy_headers (limiter_config L)) of
              None \<Rightarrow> (Passed None, L)
            | Some ip \<Rightarrow>
                (case check fl now ip path L of
                   (Allowed, L) \<Rightarrow> (Passed (Some (get_limit_for_path (limiter_config L) path)), L)
                 | (LimitExceeded s, L) \<Rightarrow> (TooManyRequests s, L)
                 | (Panicked, L) \<Rightarrow> (MiddlewarePanic, L))))"

text \<open>The headers of a response that was let through; the remaining budget they report is always the burst
  size.\<close>

definition add_rate_limit_headers :: "u32 \<Rightarrow> u32 \<Rightarrow> (string, string) hmap \<Rightarrow> (string, string) hmap" where
  "add_rate_limit_headers rate burst hs =
     hm_insert ''ratelimit'' (''limit='' @ string_of_nat burst @ '', remaining='' @ string_of_nat burst @ '', reset=1'')
       (hm_insert ''x-ratelimit-limit'' (string_of_nat rate) hs)"

subsection \<open>WebSocket messages\<close>

text \<open>\<^verbatim>\<open>WsRateLimiter\<close> is the same bucket, owned by one connection.\<close>

definition DEFAULT_WS_MESSAGE_RATE :: real where
  "DEFAULT_WS_MESSAGE_RATE = 60"

definition DEFAULT_WS_MESSAGE_BURST :: real where
  "DEFAULT_WS_MESSAGE_BURST = 120"

definition WsRateLimiter_new :: "nat \<Rightarrow> real \<Rightarrow> real \<Rightarrow> TokenBucket" where
  "WsRateLimiter_new now rate burst =
     \<lparr>tokens = burst, last_refill = now, bucket_rate = rate, max_tokens = burst\<rparr>"

definition ws_try_consume :: "(real \<Rightarrow> real) \<Rightarrow> nat \<Rightarrow> TokenBucket \<Rightarrow> bool \<times> TokenBucket" where
  "ws_try_consume fl now b =
     (let elapsed = as_secs_f64 fl (now - last_refill b);
          b = b\<lparr>tokens := min (fl (tokens b + fl (elapsed * bucket_rate b))) (max_tokens b), last_refill := now\<rparr>
      in if tokens b \<ge> 1 then (True, b\<lparr>tokens := fl (tokens b - 1)\<rparr>) else (False, b))"

subsection \<open>Buckets\<close>

text \<open>
  Double precision, as far as the limiter relies on it: rounding is monotone and idempotent, the integers
  of 32 bits are exact, taking one from a representable number between 1 and \<open>2\<^sup>5\<^sup>3\<close> is exact, and the
  relative error of rounding a number between \<open>2\<^sup>-\<^sup>1\<^sup>0\<^sup>0\<close> and \<open>2\<^sup>2\<^sup>0\<^sup>0\<close> is at most \<open>2\<^sup>-\<^sup>5\<^sup>3\<close>.
\<close>

definition f64_eps :: real where
  "f64_eps = 1 / 2 ^ 53"

definition f64_ok :: "(real \<Rightarrow> real) \<Rightarrow> bool" where
  "f64_ok fl \<longleftrightarrow>
     mono fl \<and> (\<forall>x. fl (fl x) = fl x) \<and> (\<forall>n \<le> u32_max. fl (real n) = real n) \<and>
     (\<forall>x. fl x = x \<and> 1 \<le> x \<and> x \<le> 2 ^ 53 \<longrightarrow> fl (x - 1) = x - 1) \<and>
     (\<forall>x. 1 / 2 ^ 100 \<le> x \<and> x \<le> 2 ^ 200 \<longrightarrow> \<bar>fl x - x\<bar> \<le> f64_eps * x)"

definition bucket_wf :: "(real \<Rightarrow> real) \<Rightarrow> TokenBucket \<Rightarrow> bool" where
  "bucket_wf fl b \<longleftrightarrow> fl (tokens b) = tokens b \<and> 0 \<le> tokens b \<and> tokens b \<le> max_tokens b \<and>
     fl (max_tokens b) = max_tokens b \<and> max_tokens b \<le> real u32_max \<and>
     (bucket_rate b = 0 \<or> 1 \<le> bucket_rate b) \<and> bucket_rate b \<le> real u32_max"

lemma f64_zero: "f64_ok fl \<Longrightarrow> fl 0 = 0"
  unfolding f64_ok_def by (metis of_nat_0 zero_le)

lemma f64_nonneg: "f64_ok fl \<Longrightarrow> 0 \<le> x \<Longrightarrow> 0 \<le> fl x"
  using f64_zero [of fl] by (metis f64_ok_def monoD)

lemma f64_error_abs: "f64_ok fl \<Longrightarrow> 1 / 2 ^ 100 \<le> x \<Longrightarrow> x \<le> 2 ^ 200 \<Longrightarrow> \<bar>fl x - x\<bar> \<le> f64_eps * x"
  unfolding f64_ok_def by blast

lemma f64_error:
  assumes "f64_ok fl" "1 / 2 ^ 100 \<le> x" "x \<le> 2 ^ 200"
  shows "fl x \<le> (1 + f64_eps) * x" "x / 2 \<le> fl x"
proof -
  have "0 \<le> x" using assms(2) order_trans [of 0 "1 / 2 ^ 100" x] by simp
  then have "f64_eps * x \<le> 1 / 2 * x" by (intro mult_right_mono) (simp add: f64_eps_def)
  with f64_error_abs [OF assms] show "fl x \<le> (1 + f64_eps) * x" "x / 2 \<le> fl x"
    by (simp_all add: distrib_right)
qed

lemma f64_id: "f64_ok (\<lambda>x. x)"
proof -
  have "0 \<le> x" if "1 / 2 ^ 100 \<le> x" for x :: real
    using that order_trans [of 0 "1 / 2 ^ 100" x] by simp
  then show ?thesis by (simp add: f64_ok_def mono_def f64_eps_def)
qed

lemma refill_wf:
  assumes "f64_ok fl" "bucket_wf fl b"
  shows "bucket_wf fl (refill fl now b)" "max_tokens (refill fl now b) = max_tokens b"
    "bucket_rate (refill fl now b) = bucket_rate b" "last_refill (refill fl now b) = now"
proof -
  have idem: "fl (fl x) = fl x" for x using assms(1) by (simp add: f64_ok_def)
  have secs: "0 \<le> as_secs_f64 fl (now - last_refill b)"
    unfolding as_secs_f64_def by (intro f64_nonneg [OF assms(1)]) simp
  have rate: "0 \<le> bucket_rate b" using assms(2) by (auto simp: bucket_wf_def)
  have new: "0 \<le> fl (as_secs_f64 fl (now - last_refill b) * bucket_rate b)"
    by (intro f64_nonneg [OF assms(1)] mult_nonneg_nonneg secs rate)
  have "0 \<le> fl (tokens b + fl (as_secs_f64 fl (now - last_refill b) * bucket_rate b))"
    using assms(2) by (intro f64_nonneg [OF assms(1)] add_nonneg_nonneg new) (simp add: bucket_wf_def)
  with assms(2) show "bucket_wf fl (refill fl now b)" "max_tokens (refill fl now b) = max_tokens b"
    "bucket_rate (refill fl now b) = bucket_rate b" "last_refill (refill fl now b) = now"
    by (auto simp: refill_def Let_def bucket_wf_def idem min_def)
qed

lemma refill_same_time:
  assumes "f64_ok fl" "bucket_wf fl b" "now \<le> last_refill b \<or> bucket_rate b = 0"
  shows "tokens (refill fl now b) = tokens b"
  using assms f64_zero [OF assms(1)]
  by (auto simp: refill_def Let_def as_secs_f64_def bucket_wf_def)

text \<open>The tokens a refill adds: the elapsed time at the bucket's rate, with three roundings, and the rounding
  of the tokens that were there.\<close>

definition duration_max :: nat where
  "duration_max = 18446744073709551616000000000"

lemma refill_gain:
  assumes fl: "f64_ok fl" and wf: "bucket_wf fl b" and "now - last_refill b \<le> duration_max"
  shows "tokens (refill fl now b) \<le>
    tokens b + (1 + f64_eps) ^ 3 * (real (now - last_refill b) / 1000000000 * bucket_rate b) +
    f64_eps * max_tokens b"
proof (cases "now \<le> last_refill b \<or> bucket_rate b = 0")
  case True
  then show ?thesis using refill_same_time [OF fl wf] wf by (auto simp: bucket_wf_def f64_eps_def)
next
  case False
  let ?d = "real (now - last_refill b) / 1000000000" and ?r = "bucket_rate b" and ?e = f64_eps
  let ?s = "as_secs_f64 fl (now - last_refill b)"
  have e: "0 \<le> ?e" "?e \<le> 1 / 2" by (simp_all add: f64_eps_def)
  have r: "1 \<le> ?r" "?r \<le> 4294967295" using False wf by (auto simp: bucket_wf_def u32_max_def)
  have t: "0 \<le> tokens b" "tokens b \<le> max_tokens b" "max_tokens b \<le> 4294967295"
    using wf by (auto simp: bucket_wf_def u32_max_def)
  have d: "1 / 1000000000 \<le> ?d" "?d \<le> 2 ^ 100"
    using False assms(3) by (simp_all add: duration_max_def of_nat_diff)
  have s: "?s \<le> (1 + ?e) * ?d" "?d / 2 \<le> ?s"
    unfolding as_secs_f64_def by (rule f64_error [OF fl]; use d in simp)+
  have sr1: "1 / 2000000000 * 1 \<le> ?s * ?r" using s d r by (intro mult_mono) auto
  have "?s * ?r \<le> ((1 + ?e) * ?d) * ?r" using s r by (intro mult_right_mono) auto
  also have "\<dots> \<le> (2 * 2 ^ 100) * 2 ^ 32" using e d r by (intro mult_mono) auto
  finally have sr2: "?s * ?r \<le> 2 ^ 200" by simp
  have "fl (?s * ?r) \<le> (1 + ?e) * (?s * ?r)"
    using sr1 sr2 by (intro f64_error [OF fl]) auto
  also have "\<dots> \<le> (1 + ?e) * (((1 + ?e) * ?d) * ?r)"
    using s r e by (intro mult_left_mono mult_right_mono) auto
  finally have n: "fl (?s * ?r) \<le> (1 + ?e) ^ 2 * (?d * ?r)" by (simp add: power2_eq_square algebra_simps)
  have "?s * ?r / 2 \<le> fl (?s * ?r)" using sr1 sr2 by (intro f64_error [OF fl]) auto
  with sr1 have n1: "1 / 4000000000 \<le> fl (?s * ?r)" by auto
  have "(1 + ?e) ^ 2 * (?d * ?r) \<le> 2 ^ 2 * (2 ^ 100 * 2 ^ 32)"
    using e d r by (intro mult_mono power_mono) auto
  with n have n2: "fl (?s * ?r) \<le> 2 ^ 134" by simp
  have "fl (tokens b + fl (?s * ?r)) \<le> (1 + ?e) * (tokens b + fl (?s * ?r))"
    using n1 n2 t by (intro f64_error [OF fl]) auto
  also have "\<dots> = tokens b + ?e * tokens b + (1 + ?e) * fl (?s * ?r)" by (simp add: algebra_simps)
  also have "\<dots> \<le> tokens b + ?e * max_tokens b + (1 + ?e) * ((1 + ?e) ^ 2 * (?d * ?r))"
    using n t e by (intro add_mono mult_left_mono) auto
  also have "(1 + ?e) * ((1 + ?e) ^ 2 * (?d * ?r)) = (1 + ?e) ^ 3 * (?d * ?r)"
    by (simp add: power3_eq_cube power2_eq_square)
  finally show ?thesis by (simp add: refill_def Let_def)
qed

lemma try_consume_wf:
  assumes "f64_ok fl" "bucket_wf fl b"
  shows "bucket_wf fl (snd (try_consume fl now b))" "max_tokens (snd (try_consume fl now b)) = max_tokens b"
    "bucket_rate (snd (try_consume fl now b)) = bucket_rate b"
    "last_refill (snd (try_consume fl now b)) = now"
    "tokens (snd (try_consume fl now b)) + of_bool (fst (try_consume fl now b)) = tokens (refill fl now b)"
proof -
  let ?r = "refill fl now b"
  note wf = refill_wf [OF assms, of now]
  have exact: "fl (tokens ?r - 1) = tokens ?r - 1" if "1 \<le> tokens ?r"
  proof -
    have "tokens ?r \<le> real u32_max" using wf(1) by (auto simp: bucket_wf_def)
    also have "\<dots> \<le> 2 ^ 53" by (simp add: u32_max_def)
    finally show ?thesis using that wf(1) assms(1) by (simp add: f64_ok_def bucket_wf_def)
  qed
  show "bucket_wf fl (snd (try_consume fl now b))" "max_tokens (snd (try_consume fl now b)) = max_tokens b"
    "bucket_rate (snd (try_consume fl now b)) = bucket_rate b"
    "last_refill (snd (try_consume fl now b)) = now"
    "tokens (snd (try_consume fl now b)) + of_bool (fst (try_consume fl now b)) = tokens ?r"
    using wf exact by (auto simp: try_consume_def Let_def bucket_wf_def)
qed

lemma ws_limiter_is_a_bucket: "ws_try_consume fl now b = try_consume fl now b"
  by (simp add: ws_try_consume_def try_consume_def refill_def Let_def)

subsection \<open>The limiter never gives more than its configuration\<close>

text \<open>The limit that belongs to a bucket key, and what a configuration must satisfy for it: 32-bit limits, no
  route named like the default bucket, and an expiry that is long enough to fill a bucket that is dropped.\<close>

definition key_limit :: "RateLimitConfig \<Rightarrow> string \<Rightarrow> u32 \<times> u32" where
  "key_limit c q =
     (case find (\<lambda>r. route_prefix r = q) (route_limits c) of
        Some r \<Rightarrow> (route_rate r, route_burst r) | None \<Rightarrow> (default_rate c, default_burst c))"

definition limit_ok :: "nat \<Rightarrow> u32 \<times> u32 \<Rightarrow> bool" where
  "limit_ok expiry l \<longleftrightarrow> fst l \<le> u32_max \<and> snd l \<le> u32_max \<and> snd l * 1000000000 \<le> fst l * expiry"

definition limits_ok :: "RateLimitConfig \<Rightarrow> bool" where
  "limits_ok c \<longleftrightarrow> limit_ok (entry_expiry c) (default_rate c, default_burst c) \<and>
     list_all (\<lambda>r. limit_ok (entry_expiry c) (route_rate r, route_burst r) \<and> route_prefix r \<noteq> ''default'')
       (route_limits c)"

lemma default_limits_ok: "limits_ok RateLimitConfig_default"
  by (simp add: limits_ok_def limit_ok_def RateLimitConfig_default_def RateLimitConfigBuilder_default_def
      RouteLimitConfig_new_def u32_max_def)

lemma key_limit_ok: "limits_ok c \<Longrightarrow> limit_ok (entry_expiry c) (key_limit c q)"
  by (auto simp: key_limit_def limits_ok_def list_all_iff find_Some_iff split: option.split)

lemma prefix_of_path_cases:
  "prefix_of_path rs path = ''default'' \<or> starts_with path (prefix_of_path rs path)"
  by (induction rs) auto

lemma get_limit_by_key:
  assumes "limits_ok (limiter_config L)"
  shows "get_limit_for_path (limiter_config L) path = key_limit (limiter_config L) (get_route_prefix L path)"
proof -
  have "limit_for_path rs d path =
      (case find (\<lambda>r. route_prefix r = prefix_of_path rs path) rs of
         Some r \<Rightarrow> (route_rate r, route_burst r) | None \<Rightarrow> d)"
    if "list_all (\<lambda>r. route_prefix r \<noteq> ''default'') rs" for rs d
    using that by (induction rs) (use prefix_of_path_cases in fastforce)+
  with assms show ?thesis
    by (auto simp: get_limit_for_path_def key_limit_def get_route_prefix_def limits_ok_def list_all_iff)
qed

definition entry_wf :: "(real \<Rightarrow> real) \<Rightarrow> RateLimitConfig \<Rightarrow> nat \<Rightarrow> bucket_key \<Rightarrow> ClientEntry \<Rightarrow> bool" where
  "entry_wf fl c t k x \<longleftrightarrow> bucket_wf fl (bucket x) \<and> last_seen x = last_refill (bucket x) \<and> last_seen x \<le> t \<and>
     bucket_rate (bucket x) = real (fst (key_limit c (snd k))) \<and>
     max_tokens (bucket x) = real (snd (key_limit c (snd k)))"

definition limiter_wf :: "(real \<Rightarrow> real) \<Rightarrow> nat \<Rightarrow> RateLimiter \<Rightarrow> bool" where
  "limiter_wf fl t L \<longleftrightarrow> hm_wf (buckets L) \<and> limits_ok (limiter_config L) \<and>
     hm_all (entry_wf fl (limiter_config L) t) (buckets L)"

lemma limiter_new_wf: "limits_ok c \<Longrightarrow> limiter_wf fl t (RateLimiter_new now c)"
  by (simp add: limiter_wf_def RateLimiter_new_def)

lemma limiter_wf_entry:
  "limiter_wf fl t L \<Longrightarrow> hm_get (buckets L) k = Some x \<Longrightarrow> entry_wf fl (limiter_config L) t k x"
  unfolding limiter_wf_def by (blast dest: hm.allv_get)

lemma entry_wf_later: "entry_wf fl c t k x \<Longrightarrow> t \<le> t' \<Longrightarrow> entry_wf fl c t' k x"
  by (auto simp: entry_wf_def)

lemma maybe_cleanup_get:
  assumes "hm_wf (buckets L)"
  shows "hm_get (buckets (maybe_cleanup now L)) k =
    (case hm_get (buckets L) k of None \<Rightarrow> None
     | Some x \<Rightarrow> if cleanup_interval (limiter_config L) \<le> now - last_cleanup L \<and>
                    entry_expiry (limiter_config L) \<le> now - last_seen x then None else Some x)"
  using assms by (auto simp: maybe_cleanup_def hm_simps split: option.split)

lemma maybe_cleanup_wf:
  assumes "limiter_wf fl t L" "t \<le> now"
  shows "limiter_wf fl now (maybe_cleanup now L)" "limiter_config (maybe_cleanup now L) = limiter_config L"
proof -
  have wf: "hm_wf (buckets (maybe_cleanup now L))"
    using assms by (auto simp: maybe_cleanup_def limiter_wf_def intro: wf_intros)
  show c: "limiter_config (maybe_cleanup now L) = limiter_config L" by (simp add: maybe_cleanup_def)
  have "entry_wf fl (limiter_config L) now k x" if "hm_get (buckets (maybe_cleanup now L)) k = Some x" for k x
    using that assms limiter_wf_entry [OF assms(1), of k x]
    by (auto simp: maybe_cleanup_get limiter_wf_def entry_wf_def split: option.splits if_splits)
  with wf c assms(1) show "limiter_wf fl now (maybe_cleanup now L)" by (auto simp: limiter_wf_def hm.allv_iff)
qed

lemma entry_new_wf:
  assumes "f64_ok fl" "limits_ok c" "key_limit c (snd k) = (rate, burst)"
  shows "entry_wf fl c now k \<lparr>bucket = TokenBucket_new now rate burst, last_seen = now\<rparr>"
proof -
  have b: "rate \<le> u32_max" "burst \<le> u32_max" using key_limit_ok [OF assms(2), of "snd k"] assms(3)
    by (auto simp: limit_ok_def)
  moreover have "fl (real burst) = real burst" using b assms(1) by (simp add: f64_ok_def)
  moreover have "rate = 0 \<or> 1 \<le> real rate" by auto
  ultimately show ?thesis using assms(3) by (simp add: entry_wf_def bucket_wf_def TokenBucket_new_def)
qed

text \<open>A check on a limited client, in one piece: the bucket it uses and what it leaves.\<close>

definition found_entry :: "nat \<Rightarrow> bucket_key \<Rightarrow> RateLimiter \<Rightarrow> ClientEntry" where
  "found_entry now k L =
     (case hm_get (buckets L) k of Some x \<Rightarrow> x
      | None \<Rightarrow> (let (rate, burst) = key_limit (limiter_config L) (snd k)
                in \<lparr>bucket = TokenBucket_new now rate burst, last_seen = now\<rparr>))"

lemma found_entry_wf:
  assumes "f64_ok fl" "limiter_wf fl now L"
  shows "entry_wf fl (limiter_config L) now k (found_entry now k L)"
  using assms limiter_wf_entry [OF assms(2)] entry_new_wf [OF assms(1)]
  by (auto simp: found_entry_def limiter_wf_def split: option.split prod.split)

lemma check_limited:
  assumes "limits_ok (limiter_config L)" "limit_enabled (limiter_config L)" "\<not> is_exempt (limiter_config L) ip"
  shows "fst (check fl now ip path L) = Allowed \<longleftrightarrow>
      fst (try_consume fl now (bucket (found_entry now (ip, get_route_prefix L path) (maybe_cleanup now L))))"
    "snd (check fl now ip path L) = (maybe_cleanup now L)\<lparr>buckets :=
       hm_insert (ip, get_route_prefix L path)
         \<lparr>bucket = snd (try_consume fl now (bucket (found_entry now (ip, get_route_prefix L path) (maybe_cleanup now L)))),
          last_seen = now\<rparr> (buckets (maybe_cleanup now L))\<rparr>"
proof -
  have c: "limiter_config (maybe_cleanup now L) = limiter_config L" by (simp add: maybe_cleanup_def)
  show "fst (check fl now ip path L) = Allowed \<longleftrightarrow>
      fst (try_consume fl now (bucket (found_entry now (ip, get_route_prefix L path) (maybe_cleanup now L))))"
    "snd (check fl now ip path L) = (maybe_cleanup now L)\<lparr>buckets :=
       hm_insert (ip, get_route_prefix L path)
         \<lparr>bucket = snd (try_consume fl now (bucket (found_entry now (ip, get_route_prefix L path) (maybe_cleanup now L)))),
          last_seen = now\<rparr> (buckets (maybe_cleanup now L))\<rparr>"
    using assms c
    by (auto simp: check_def Let_def found_entry_def get_limit_by_key split: prod.split option.split)
qed

text \<open>The credit of a key at an instant: what its bucket would hold after an exact refill; a key without a
  bucket has a full one.\<close>

definition gain :: "u32 \<Rightarrow> nat \<Rightarrow> real" where
  "gain rate ns = (1 + f64_eps) ^ 3 * (real ns / 1000000000 * real rate)"

definition credit :: "bucket_key \<Rightarrow> nat \<Rightarrow> RateLimiter \<Rightarrow> real" where
  "credit k t L =
     (let (rate, burst) = key_limit (limiter_config L) (snd k)
      in case hm_get (buckets L) k of None \<Rightarrow> real burst
         | Some x \<Rightarrow> min (real burst) (tokens (bucket x) + gain rate (t - last_refill (bucket x))))"

lemma gain_nonneg [simp]: "0 \<le> gain rate ns"
  by (simp add: gain_def f64_eps_def)

lemma gain_add: "gain rate (m + n) = gain rate m + gain rate n"
  by (simp add: gain_def algebra_simps add_divide_distrib)

lemma gain_ge:
  assumes "burst * 1000000000 \<le> rate * expiry" "expiry \<le> ns"
  shows "real burst \<le> gain rate ns"
proof -
  have "burst * 1000000000 \<le> rate * ns" using assms mult_le_mono2 order_trans by blast
  then have "real burst * 1000000000 \<le> real rate * real ns"
    by (metis of_nat_le_iff of_nat_mult of_nat_numeral)
  then have "real burst \<le> 1 * (real ns / 1000000000 * real rate)" by (simp add: mult.commute)
  also have "\<dots> \<le> gain rate ns"
    unfolding gain_def by (intro mult_right_mono one_le_power) (simp_all add: f64_eps_def)
  finally show ?thesis .
qed

lemma credit_le_burst: "credit k t L \<le> real (snd (key_limit (limiter_config L) (snd k)))"
  by (simp add: credit_def split: prod.split option.split)

lemma credit_advance:
  assumes "limiter_wf fl t L" "t \<le> t'"
  shows "credit k t' L \<le> credit k t L + gain (fst (key_limit (limiter_config L) (snd k))) (t' - t)"
proof (cases "hm_get (buckets L) k")
  case None
  then show ?thesis by (simp add: credit_def split: prod.split)
next
  case (Some x)
  then have "last_refill (bucket x) \<le> t" using limiter_wf_entry [OF assms(1) Some] by (simp add: entry_wf_def)
  with assms(2) have "t' - last_refill (bucket x) = (t - last_refill (bucket x)) + (t' - t)" by simp
  moreover have "min b (x + gain r n) \<le> min b x + gain r n" for b x r n
    using gain_nonneg [of r n] by linarith
  ultimately show ?thesis using Some by (simp add: credit_def gain_add add.assoc [symmetric] split: prod.split)
qed

lemma credit_cleanup:
  assumes "limiter_wf fl t L" "t \<le> now"
  shows "credit k now (maybe_cleanup now L) = credit k now L"
proof (cases "hm_get (buckets L) k")
  case None
  with assms show ?thesis
    by (simp add: credit_def maybe_cleanup_wf(2) [OF assms] maybe_cleanup_get limiter_wf_def)
next
  case (Some x)
  have e: "entry_wf fl (limiter_config L) t k x" by (rule limiter_wf_entry [OF assms(1) Some])
  have l: "limit_ok (entry_expiry (limiter_config L)) (key_limit (limiter_config L) (snd k))"
    using assms(1) by (simp add: key_limit_ok limiter_wf_def)
  have full: "real (snd (key_limit (limiter_config L) (snd k)))
      \<le> gain (fst (key_limit (limiter_config L) (snd k))) (now - last_refill (bucket x))"
    if "entry_expiry (limiter_config L) \<le> now - last_seen x"
    using gain_ge [OF _ that] l e by (simp add: limit_ok_def entry_wf_def)
  have "0 \<le> tokens (bucket x)" using e by (simp add: entry_wf_def bucket_wf_def)
  with assms Some full show ?thesis
    by (auto simp: credit_def maybe_cleanup_wf(2) [OF assms] maybe_cleanup_get limiter_wf_def min_def split: prod.split)
qed

lemma check_wf:
  assumes "f64_ok fl" "limiter_wf fl t L" "t \<le> now"
  shows "limiter_wf fl now (snd (check fl now ip path L))"
    "limiter_config (snd (check fl now ip path L)) = limiter_config L"
proof -
  have weak: "limiter_wf fl now L"
    using assms(2) unfolding limiter_wf_def
    by (blast intro: hm.allv_mono entry_wf_later [OF _ assms(3)])
  note cl = maybe_cleanup_wf [OF assms(2,3)]
  have free: "snd (check fl now ip path L) = L"
    if "\<not> (limit_enabled (limiter_config L) \<and> \<not> is_exempt (limiter_config L) ip)"
    using that by (auto simp: check_def)
  have e: "entry_wf fl (limiter_config L) now k \<lparr>bucket = snd (try_consume fl now (bucket (found_entry now k
      (maybe_cleanup now L)))), last_seen = now\<rparr>" for k
    using found_entry_wf [OF assms(1) cl(1), of k] try_consume_wf [OF assms(1)] cl(2)
    by (simp add: entry_wf_def)
  have "limits_ok (limiter_config L)" using assms(2) by (simp add: limiter_wf_def)
  with free weak cl e show "limiter_wf fl now (snd (check fl now ip path L))"
    "limiter_config (snd (check fl now ip path L)) = limiter_config L"
    by (cases "limit_enabled (limiter_config L) \<and> \<not> is_exempt (limiter_config L) ip";
        auto simp: check_limited limiter_wf_def hm.allv_ins intro: wf_intros)+
qed

lemma found_entry_credit:
  assumes "f64_ok fl" "limiter_wf fl now L" "now \<le> duration_max"
  shows "tokens (refill fl now (bucket (found_entry now k L)))
    \<le> credit k now L + f64_eps * real (snd (key_limit (limiter_config L) (snd k)))"
proof -
  let ?b = "bucket (found_entry now k L)"
  have e: "entry_wf fl (limiter_config L) now k (found_entry now k L)" by (rule found_entry_wf [OF assms(1,2)])
  have "now - last_refill ?b \<le> duration_max" using assms(3) by simp
  from refill_gain [OF assms(1) _ this] e
  have "tokens (refill fl now ?b) \<le> tokens ?b + gain (fst (key_limit (limiter_config L) (snd k)))
      (now - last_refill ?b) + f64_eps * real (snd (key_limit (limiter_config L) (snd k)))"
    by (simp add: entry_wf_def gain_def)
  moreover have "tokens (refill fl now ?b) \<le> real (snd (key_limit (limiter_config L) (snd k)))"
    using refill_wf(1,2) [OF assms(1), of ?b now] e unfolding entry_wf_def bucket_wf_def by metis
  moreover have "0 \<le> f64_eps * real (snd (key_limit (limiter_config L) (snd k)))" by (simp add: f64_eps_def)
  ultimately show ?thesis
    by (auto simp: credit_def found_entry_def TokenBucket_new_def min_def split: prod.splits option.splits)
qed

text \<open>A check costs what it gives: the credit of the key that is asked for goes down by one when the request
  is let through, and the credit of no other key changes.\<close>

lemma check_credit:
  assumes "f64_ok fl" "limiter_wf fl t L" "t \<le> now" "now \<le> duration_max"
    "limit_enabled (limiter_config L)" "\<not> is_exempt (limiter_config L) (fst k)"
    "mine = ((ip, get_route_prefix L path) = k)"
  shows "credit k now (snd (check fl now ip path L)) +
      of_bool (mine \<and> fst (check fl now ip path L) = Allowed) \<le>
    credit k now L + of_bool mine * (f64_eps * real (snd (key_limit (limiter_config L) (snd k))))"
proof (cases "is_exempt (limiter_config L) ip")
  case True
  then have "snd (check fl now ip path L) = L" "\<not> mine" using assms(6) by (auto simp: check_def assms(7))
  then show ?thesis by simp
next
  case False
  have ok: "limits_ok (limiter_config L)" using assms(2) by (simp add: limiter_wf_def)
  note cl = maybe_cleanup_wf [OF assms(2,3)] and chk = check_limited [OF ok assms(5) False]
  let ?b = "bucket (found_entry now (ip, get_route_prefix L path) (maybe_cleanup now L))"
  have e: "entry_wf fl (limiter_config L) now (ip, get_route_prefix L path)
      (found_entry now (ip, get_route_prefix L path) (maybe_cleanup now L))"
    using found_entry_wf [OF assms(1) cl(1)] cl(2) by simp
  show ?thesis
  proof (cases mine)
    case True
    then have k: "k = (ip, get_route_prefix L path)" by (simp add: assms(7))
    have "bucket_wf fl ?b" using e by (simp add: entry_wf_def)
    note tc = try_consume_wf [OF assms(1) this, of now]
    have "credit k now (snd (check fl now ip path L)) \<le> tokens (snd (try_consume fl now ?b))"
      unfolding chk(2) k by (simp add: credit_def hm_simps tc(4) gain_def cl(2) split: prod.split)
    with tc(5) have "credit k now (snd (check fl now ip path L)) +
        of_bool (mine \<and> fst (check fl now ip path L) = Allowed) \<le> tokens (refill fl now ?b)"
      by (simp add: chk(1) True)
    also have "\<dots> \<le> credit k now (maybe_cleanup now L) +
        f64_eps * real (snd (key_limit (limiter_config L) (snd k)))"
      using found_entry_credit [OF assms(1) cl(1) assms(4), of k] cl(2) unfolding k by simp
    finally show ?thesis by (simp add: True credit_cleanup [OF assms(2,3)])
  next
    case False
    then have "credit k now (snd (check fl now ip path L)) = credit k now (maybe_cleanup now L)"
      unfolding chk(2) assms(7) by (auto simp: credit_def hm_simps)
    with False show ?thesis by (simp add: credit_cleanup [OF assms(2,3)])
  qed
qed

text \<open>Requests in the order in which the limiter sees them, each with its instant, its client and its path; how
  many of them use a key and how many of those are let through.\<close>

fun allowed_for :: "(real \<Rightarrow> real) \<Rightarrow> bucket_key \<Rightarrow> (nat \<times> IpAddr \<times> string) list \<Rightarrow> RateLimiter \<Rightarrow> nat" where
  "allowed_for fl k [] L = 0"
| "allowed_for fl k ((t, ip, path) # rs) L =
     (let (r, L') = check fl t ip path L
      in of_bool ((ip, get_route_prefix L path) = k \<and> r = Allowed) + allowed_for fl k rs L')"

definition asked_for :: "RateLimiter \<Rightarrow> bucket_key \<Rightarrow> (nat \<times> IpAddr \<times> string) list \<Rightarrow> nat" where
  "asked_for L k rs = length (filter (\<lambda>(t, ip, path). (ip, get_route_prefix L path) = k) rs)"

lemma allowed_within_credit:
  assumes "f64_ok fl" "limiter_wf fl t L" "sorted (t # map fst rs @ [t'])" "t' \<le> duration_max"
    "limit_enabled (limiter_config L)" "\<not> is_exempt (limiter_config L) (fst k)"
    "key_limit (limiter_config L) (snd k) = (rate, burst)"
  shows "real (allowed_for fl k rs L) \<le>
    credit k t L + gain rate (t' - t) + real (asked_for L k rs) * (f64_eps * real burst)"
  using assms(2-)
proof (induction rs arbitrary: t L)
  case Nil
  moreover have "0 \<le> credit k t L"
    using limiter_wf_entry [OF Nil.prems(1), of k]
    by (auto simp: credit_def entry_wf_def bucket_wf_def split: prod.split option.split)
  ultimately show ?case by (simp add: asked_for_def)
next
  case (Cons q rs)
  obtain now ip path where q: "q = (now, ip, path)" by (cases q)
  let ?r = "fst (check fl now ip path L)" and ?L = "snd (check fl now ip path L)"
  let ?mine = "(ip, get_route_prefix L path) = k"
  have times: "t \<le> now" "now \<le> t'" "now \<le> duration_max" "sorted (now # map fst rs @ [t'])"
    using Cons.prems(2,3) by (auto simp: q)
  note wf = check_wf [OF assms(1) Cons.prems(1) times(1), of ip path]
  have same: "asked_for ?L k rs = asked_for L k rs"
    unfolding asked_for_def get_route_prefix_def wf(2) ..
  have "real (allowed_for fl k rs ?L) \<le>
      credit k now ?L + gain rate (t' - now) + real (asked_for L k rs) * (f64_eps * real burst)"
    using Cons.IH [OF wf(1) times(4)] Cons.prems(3-) wf(2) same by simp
  moreover have "credit k now ?L + of_bool (?mine \<and> ?r = Allowed) \<le>
      credit k now L + of_bool ?mine * (f64_eps * real burst)"
    using check_credit [OF assms(1) Cons.prems(1) times(1,3) Cons.prems(4,5) refl, of ip path] Cons.prems(6) by simp
  moreover have "credit k now L \<le> credit k t L + gain rate (now - t)"
    using credit_advance [OF Cons.prems(1) times(1), of k] Cons.prems(6) by simp
  moreover have "gain rate (t' - t) = gain rate (now - t) + gain rate (t' - now)"
    using times(1,2) by (simp flip: gain_add)
  moreover have "real (asked_for L k (q # rs)) * (f64_eps * real burst) =
      of_bool ?mine * (f64_eps * real burst) + real (asked_for L k rs) * (f64_eps * real burst)"
    by (simp add: asked_for_def q distrib_right)
  moreover have "real (allowed_for fl k (q # rs) L) =
      of_bool (?mine \<and> ?r = Allowed) + real (allowed_for fl k rs ?L)"
    by (simp add: q case_prod_beta)
  ultimately show ?case by linarith
qed

text \<open>
  C23: The limiter lets through no more than its configuration allows. Take any well-formed limiter (a new one
  is), any requests in order of time between two instants, and a client that is not exempt. On the routes of
  one bucket the number of its requests that pass is at most the burst size, plus the rate times the length of
  the interval, up to the rounding of double precision (a relative error of three roundings in the refill and
  one rounding of the stored tokens for each request). This includes the clean-up of idle buckets, when the
  expiry is long enough to fill a bucket.
\<close>

theorem rate_limit_bound:
  assumes "f64_ok fl" "limiter_wf fl t L" "sorted (t # map fst rs @ [t'])" "t' \<le> duration_max"
    "limit_enabled (limiter_config L)" "\<not> is_exempt (limiter_config L) ip"
    "get_limit_for_path (limiter_config L) path = (rate, burst)"
  shows "real (allowed_for fl (ip, get_route_prefix L path) rs L) \<le>
    real burst + (1 + f64_eps) ^ 3 * (real (t' - t) / 1000000000 * real rate) +
    real (asked_for L (ip, get_route_prefix L path) rs) * (f64_eps * real burst)"
proof -
  have k: "key_limit (limiter_config L) (snd (ip, get_route_prefix L path)) = (rate, burst)"
    using get_limit_by_key [of L path] assms(2,7) by (simp add: limiter_wf_def)
  have "credit (ip, get_route_prefix L path) t L \<le> real burst"
    using credit_le_burst [of "(ip, get_route_prefix L path)" t L] k by simp
  with allowed_within_credit [OF assms(1-5) _ k] assms(6) show ?thesis by (simp add: gain_def)
qed

theorem rate_limit_bound_witness:
  "real (allowed_for (\<lambda>x. x) (V4 (10, 0, 0, 1), ''/control/matrix/send-test'')
       [(5, V4 (10, 0, 0, 1), ''/control/matrix/send-test''), (7, V4 (10, 0, 0, 1), ''/control/matrix/send-test'')]
       (RateLimiter_new 0 RateLimitConfig_default)) \<le>
   10 + (1 + f64_eps) ^ 3 * (real 9 / 1000000000 * 5) + 2 * (f64_eps * 10)"
proof -
  let ?L = "RateLimiter_new 0 RateLimitConfig_default"
  let ?ip = "V4 (10, 0, 0, 1)" and ?path = "''/control/matrix/send-test''"
  have wf: "limiter_wf (\<lambda>x. x) 0 ?L" by (rule limiter_new_wf [OF default_limits_ok])
  note cfg = RateLimiter_new_def RateLimitConfig_default_def RateLimitConfigBuilder_default_def
    RouteLimitConfig_new_def
  have "limit_enabled (limiter_config ?L)" "\<not> is_exempt (limiter_config ?L) ?ip"
    by (simp_all add: cfg is_exempt_def)
  moreover have "get_limit_for_path (limiter_config ?L) ?path = (5, 10)"
    by (simp add: cfg get_limit_for_path_def starts_with_def)
  moreover have p: "get_route_prefix ?L ?path = ?path"
    by (simp add: cfg get_route_prefix_def starts_with_def)
  moreover have "asked_for ?L (?ip, ?path) [(5, ?ip, ?path), (7, ?ip, ?path)] = 2"
    by (simp add: asked_for_def p)
  ultimately show ?thesis
    using rate_limit_bound [OF f64_id wf, of "[(5, ?ip, ?path), (7, ?ip, ?path)]" 9 ?ip ?path 5 10]
    by (simp add: duration_max_def)
qed

end
