(* ===== verification/Channel_Registry.thy ===== *)
theory Channel_Registry
  imports Rust_Text
begin

text \<open>
  The registry of chat channels and their connection states (\<^verbatim>\<open>src/channels/mod.rs\<close>), and the
  reading of \<^verbatim>\<open>Retry-After\<close> headers. \<open>now\<close> is the reading of \<^verbatim>\<open>now_millis()\<close>, \<open>'x\<close> the type of the JSON
  values in \<^verbatim>\<open>extra\<close>; HTTP dates are parsed by \<^verbatim>\<open>chrono\<close>, which is the parameter \<open>http_date\<close>.
\<close>

subsection \<open>Data\<close>

datatype ChannelAuthErrorKind = Auth | Transient

record ChannelAuthError =
  auth_error_kind :: ChannelAuthErrorKind
  auth_error_message :: string

definition ChannelAuthError_auth :: "string \<Rightarrow> ChannelAuthError" where
  "ChannelAuthError_auth m = \<lparr>auth_error_kind = Auth, auth_error_message = m\<rparr>"

definition ChannelAuthError_transient :: "string \<Rightarrow> ChannelAuthError" where
  "ChannelAuthError_transient m = \<lparr>auth_error_kind = Transient, auth_error_message = m\<rparr>"

definition is_auth :: "ChannelAuthError \<Rightarrow> bool" where
  "is_auth e \<longleftrightarrow> auth_error_kind e = Auth"

datatype ChannelStatus = Connected | Disconnected | Connecting | Error | Paused | LoggedOut

definition CONNECTED_WIRE :: string where
  "CONNECTED_WIRE = ''connected''"

fun ChannelStatus_fmt :: "ChannelStatus \<Rightarrow> string" where
  "ChannelStatus_fmt Connected = CONNECTED_WIRE"
| "ChannelStatus_fmt Disconnected = ''disconnected''"
| "ChannelStatus_fmt Connecting = ''connecting''"
| "ChannelStatus_fmt Error = ''error''"
| "ChannelStatus_fmt Paused = ''paused''"
| "ChannelStatus_fmt LoggedOut = ''logged_out''"

record 'x ChannelMetadata =
  meta_description :: "string option"
  meta_extra :: "'x option"
  last_error :: "string option"
  last_connected_at :: "i64 option"
  status_changed_at :: "i64 option"

record 'x ChannelInfo =
  channel_id :: string
  channel_name :: string
  channel_status :: ChannelStatus
  channel_metadata :: "'x ChannelMetadata"

definition ChannelMetadata_default :: "'x ChannelMetadata" where
  "ChannelMetadata_default =
     \<lparr>meta_description = None, meta_extra = None, last_error = None, last_connected_at = None,
      status_changed_at = None\<rparr>"

definition ChannelInfo_new :: "string \<Rightarrow> string \<Rightarrow> 'x ChannelInfo" where
  "ChannelInfo_new i n =
     \<lparr>channel_id = i, channel_name = n, channel_status = Disconnected,
      channel_metadata = ChannelMetadata_default\<rparr>"

definition with_status :: "ChannelStatus \<Rightarrow> 'x ChannelInfo \<Rightarrow> 'x ChannelInfo" where
  "with_status st info = info\<lparr>channel_status := st\<rparr>"

definition with_metadata :: "'x ChannelMetadata \<Rightarrow> 'x ChannelInfo \<Rightarrow> 'x ChannelInfo" where
  "with_metadata m info = info\<lparr>channel_metadata := m\<rparr>"

type_synonym 'x ChannelRegistry = "(string, 'x ChannelInfo) hmap"

record 'x RegistrySnapshot =
  snapshot_channels :: "'x ChannelInfo list"
  snapshot_timestamp :: i64

subsection \<open>Retry-After\<close>

definition CHANNEL_RETRY_AFTER_MAX_MS :: i64 where
  "CHANNEL_RETRY_AFTER_MAX_MS = 60 * 60 * 1000"

text \<open>A \<^verbatim>\<open>Duration\<close> is its nanoseconds; \<^verbatim>\<open>as_millis\<close> rounds down.\<close>

definition duration_to_retry_after_ms :: "nat \<Rightarrow> i64 option" where
  "duration_to_retry_after_ms ns = Some (int (min ns (60 * 60 * 1000000000) div 1000000))"

definition parse_u64 :: "string \<Rightarrow> u64 option" where
  "parse_u64 s =
     (let ds = (case s of CHR ''+'' # cs \<Rightarrow> cs | _ \<Rightarrow> s)
      in if ds = [] then None else parse_digits u64_max 0 ds)"

text \<open>\<open>raw\<close> is the text of the header, if there is one; \<open>http_date\<close> gives the instant of an HTTP date and
  \<open>now\<close> the present one, both in milliseconds.\<close>

definition retry_after_ms_from_headers ::
    "(string \<Rightarrow> int option) \<Rightarrow> int \<Rightarrow> string option \<Rightarrow> i64 option" where
  "retry_after_ms_from_headers http_date now raw =
     (case raw of
        None \<Rightarrow> None
      | Some raw \<Rightarrow>
          let raw = trim raw
          in if raw = [] then None
             else (case parse_u64 raw of
                     Some seconds \<Rightarrow> duration_to_retry_after_ms (seconds * 1000000000)
                   | None \<Rightarrow>
                       (case http_date raw of
                          None \<Rightarrow> None
                        | Some deadline \<Rightarrow>
                            let delta = deadline - now
                            in if delta \<le> 0 then Some 0
                               else Some (max 0 (min delta CHANNEL_RETRY_AFTER_MAX_MS)))))"

subsection \<open>Operations\<close>

definition ChannelRegistry_new :: "'x ChannelRegistry" where
  "ChannelRegistry_new = []"

definition register :: "'x ChannelInfo \<Rightarrow> 'x ChannelRegistry \<Rightarrow> 'x ChannelRegistry" where
  "register info r = hm_insert (channel_id info) info r"

definition unregister :: "string \<Rightarrow> 'x ChannelRegistry \<Rightarrow> 'x ChannelInfo option \<times> 'x ChannelRegistry" where
  "unregister i r = (hm_get r i, hm_remove i r)"

definition get_status :: "string \<Rightarrow> 'x ChannelRegistry \<Rightarrow> ChannelStatus option" where
  "get_status i r = map_option channel_status (hm_get r i)"

definition registry_get :: "string \<Rightarrow> 'x ChannelRegistry \<Rightarrow> 'x ChannelInfo option" where
  "registry_get i r = hm_get r i"

definition registry_list :: "'x ChannelRegistry \<Rightarrow> 'x ChannelInfo list" where
  "registry_list r = hm_values r"

definition changed_status :: "i64 \<Rightarrow> ChannelStatus \<Rightarrow> 'x ChannelInfo \<Rightarrow> 'x ChannelInfo" where
  "changed_status now status info =
     (if channel_status info = status then info
      else info\<lparr>channel_status := status,
             channel_metadata := (channel_metadata info)
               \<lparr>status_changed_at := Some now,
                last_connected_at := (if status = Connected then Some now
                                      else last_connected_at (channel_metadata info)),
                last_error := (if status \<noteq> Error \<and> channel_status info = Error then None
                               else last_error (channel_metadata info))\<rparr>\<rparr>)"

definition update_status :: "i64 \<Rightarrow> string \<Rightarrow> ChannelStatus \<Rightarrow> 'x ChannelRegistry \<Rightarrow> bool \<times> 'x ChannelRegistry" where
  "update_status now i status r = (hm_contains r i, hm_modify i (changed_status now status) r)"

definition update_metadata_extra :: "string \<Rightarrow> 'x \<Rightarrow> 'x ChannelRegistry \<Rightarrow> bool \<times> 'x ChannelRegistry" where
  "update_metadata_extra i x r =
     (hm_contains r i,
      hm_modify i (\<lambda>info. info\<lparr>channel_metadata := (channel_metadata info)\<lparr>meta_extra := Some x\<rparr>\<rparr>) r)"

definition errored :: "i64 \<Rightarrow> string \<Rightarrow> 'x ChannelInfo \<Rightarrow> 'x ChannelInfo" where
  "errored now new_msg info =
     (let unchanged = (channel_status info = Error \<and> last_error (channel_metadata info) = Some new_msg)
      in info\<lparr>channel_status := Error,
           channel_metadata := (channel_metadata info)
             \<lparr>last_error := Some new_msg,
              status_changed_at := (if unchanged then status_changed_at (channel_metadata info) else Some now)\<rparr>\<rparr>)"

definition set_error :: "i64 \<Rightarrow> string \<Rightarrow> string \<Rightarrow> 'x ChannelRegistry \<Rightarrow> bool \<times> 'x ChannelRegistry" where
  "set_error now i msg r = (hm_contains r i, hm_modify i (errored now msg) r)"

definition logout :: "i64 \<Rightarrow> string \<Rightarrow> 'x ChannelRegistry \<Rightarrow> bool \<times> 'x ChannelRegistry" where
  "logout now i r = update_status now i LoggedOut r"

definition snapshot :: "i64 \<Rightarrow> 'x ChannelRegistry \<Rightarrow> 'x RegistrySnapshot" where
  "snapshot now r = \<lparr>snapshot_channels = registry_list r, snapshot_timestamp = now\<rparr>"

definition is_connected :: "string \<Rightarrow> 'x ChannelRegistry \<Rightarrow> bool" where
  "is_connected i r \<longleftrightarrow> get_status i r = Some Connected"

definition count_by_status :: "ChannelStatus \<Rightarrow> 'x ChannelRegistry \<Rightarrow> usize" where
  "count_by_status st r = hm_count (\<lambda>c. channel_status c = st) r"

definition registry_len :: "'x ChannelRegistry \<Rightarrow> usize" where
  "registry_len r = length r"

definition registry_is_empty :: "'x ChannelRegistry \<Rightarrow> bool" where
  "registry_is_empty r \<longleftrightarrow> r = []"

subsection \<open>Invariant\<close>

datatype 'x channel_op =
    Op_register "'x ChannelInfo"
  | Op_unregister string
  | Op_status i64 string ChannelStatus
  | Op_extra string 'x
  | Op_error i64 string string
  | Op_logout i64 string

fun channel_step :: "'x channel_op \<Rightarrow> 'x ChannelRegistry \<Rightarrow> 'x ChannelRegistry" where
  "channel_step (Op_register info) r = register info r"
| "channel_step (Op_unregister i) r = snd (unregister i r)"
| "channel_step (Op_status now i st) r = snd (update_status now i st r)"
| "channel_step (Op_extra i x) r = snd (update_metadata_extra i x r)"
| "channel_step (Op_error now i m) r = snd (set_error now i m r)"
| "channel_step (Op_logout now i) r = snd (logout now i r)"

definition info_wf :: "string \<Rightarrow> 'x ChannelInfo \<Rightarrow> bool" where
  "info_wf i info \<longleftrightarrow>
     channel_id info = i \<and> (last_error (channel_metadata info) \<noteq> None \<longrightarrow> channel_status info = Error)"

definition registry_wf :: "'x ChannelRegistry \<Rightarrow> bool" where
  "registry_wf r \<longleftrightarrow> hm_wf r \<and> hm_all info_wf r"

text \<open>Channels are registered without an error message, or with one in the error state.\<close>

fun channel_ok :: "'x channel_op \<Rightarrow> 'x ChannelRegistry \<Rightarrow> bool" where
  "channel_ok (Op_register info) r = info_wf (channel_id info) info"
| "channel_ok _ r = True"

lemma registry_wf_modify:
  "registry_wf r \<Longrightarrow> (\<And>info. info_wf i info \<Longrightarrow> info_wf i (f info)) \<Longrightarrow> registry_wf (hm_modify i f r)"
  by (auto simp: registry_wf_def intro: wf_intros intro!: hm.allv_modi dest: hm.allv_get)

lemma channel_step_wf: "registry_wf r \<Longrightarrow> channel_ok a r \<Longrightarrow> registry_wf (channel_step a r)"
proof (cases a)
  case (Op_register info)
  assume "registry_wf r" "channel_ok a r"
  with Op_register show ?thesis
    by (auto simp: registry_wf_def register_def intro: wf_intros hm.allv_ins)
next
  case (Op_unregister i)
  assume "registry_wf r"
  with Op_unregister show ?thesis
    by (auto simp: registry_wf_def unregister_def intro: wf_intros hm.allv_rem)
qed (auto simp: update_status_def update_metadata_extra_def set_error_def logout_def info_wf_def
      changed_status_def errored_def Let_def intro!: registry_wf_modify)

interpretation channel_machine: invariant_machine channel_step registry_wf channel_ok
  by unfold_locales (rule channel_step_wf)

text \<open>
  A channel shows an error message only while it is in the error state: over every run of
  operations that registers well-formed channels, each entry is stored under its own identifier
  and a channel that has left the error state, for whatever other state, has no message left.
\<close>

theorem channel_error_only_in_error_state:
  assumes "run_ok channel_ok channel_step as []" "hm_get (fold channel_step as []) i = Some info"
  shows "channel_id info = i \<and> (channel_status info \<noteq> Error \<longrightarrow> last_error (channel_metadata info) = None)"
proof -
  have "registry_wf (fold channel_step as [])"
    using assms(1) by (intro channel_machine.run_inv) (simp_all add: registry_wf_def)
  with assms(2) have "info_wf i info" by (auto simp: registry_wf_def dest: hm.allv_get)
  then show ?thesis by (auto simp: info_wf_def)
qed

theorem channel_error_only_in_error_state_witness:
  "last_error (channel_metadata (the (hm_get
     (fold channel_step [Op_register (ChannelInfo_new ''tg'' ''Telegram'' :: nat ChannelInfo), Op_error 5 ''tg'' ''boom'',
        Op_logout 6 ''tg''] []) ''tg''))) = None"
proof -
  let ?as = "[Op_register (ChannelInfo_new ''tg'' ''Telegram'' :: nat ChannelInfo), Op_error 5 ''tg'' ''boom'', Op_logout 6 ''tg'']"
  obtain info where i: "hm_get (fold channel_step ?as []) ''tg'' = Some info" "channel_status info = LoggedOut"
    by (simp add: register_def set_error_def logout_def update_status_def ChannelInfo_new_def hm_simps
        changed_status_def errored_def Let_def)
  have "run_ok channel_ok channel_step ?as []" by (simp add: info_wf_def ChannelInfo_new_def ChannelMetadata_default_def)
  from channel_error_only_in_error_state [OF this i(1)] i show ?thesis by simp
qed

text \<open>Repeating the same error is a no-op: the time of its first occurrence stays.\<close>

lemma set_error_idempotent: "errored now' msg (errored now msg info) = errored now msg info"
  by (simp add: errored_def Let_def)

lemma channel_status_wire_distinct: "ChannelStatus_fmt a = ChannelStatus_fmt b \<longleftrightarrow> a = b"
  by (cases a; cases b) (simp_all add: CONNECTED_WIRE_def)

text \<open>A server's wish to retry later never delays a channel by more than one hour, nor by a negative time.\<close>

lemma retry_after_bounded:
  assumes "retry_after_ms_from_headers http_date now raw = Some ms"
  shows "0 \<le> ms \<and> ms \<le> 3600000"
proof -
  have d: "int (min ns (60 * 60 * 1000000000) div 1000000) \<le> 3600000" for ns
  proof -
    have "min ns (60 * 60 * 1000000000) div 1000000 \<le> 60 * 60 * 1000000000 div 1000000"
      by (rule div_le_mono [OF min.cobounded2])
    then have "min ns (60 * 60 * 1000000000) div 1000000 \<le> 3600000" by simp
    then show ?thesis by (simp only: of_nat_le_iff [of _ 3600000, symmetric, where 'a = int] of_nat_numeral)
  qed
  show ?thesis using assms d
    by (auto simp: retry_after_ms_from_headers_def duration_to_retry_after_ms_def Let_def
        CHANNEL_RETRY_AFTER_MAX_MS_def split: option.splits if_splits)
qed

end
