(* ===== verification/Tool_Policy.thy ===== *)
theory Tool_Policy
  imports Rust_Text
begin

text \<open>
  Which tools an agent may use (\<^verbatim>\<open>src/agent/tool_policy.rs\<close> and \<^verbatim>\<open>src/agent/exfiltration.rs\<close>). JSON
  values belong to \<^verbatim>\<open>serde_json\<close>; their accessors are the record \<open>json_api\<close>, shared by the components
  that read configuration.
\<close>

subsection \<open>Access to JSON values\<close>

record 'j json_api =
  j_get :: "'j \<Rightarrow> string \<Rightarrow> 'j option"
  j_as_str :: "'j \<Rightarrow> string option"
  j_as_u64 :: "'j \<Rightarrow> u64 option"
  j_as_bool :: "'j \<Rightarrow> bool option"
  j_as_array :: "'j \<Rightarrow> 'j list option"
  j_is_object :: "'j \<Rightarrow> bool"

definition j_str :: "'j json_api \<Rightarrow> 'j \<Rightarrow> string \<Rightarrow> string option" where
  "j_str J v k = Option.bind (j_get J v k) (j_as_str J)"

definition j_u64 :: "'j json_api \<Rightarrow> 'j \<Rightarrow> string \<Rightarrow> u64 option" where
  "j_u64 J v k = Option.bind (j_get J v k) (j_as_u64 J)"

definition j_bool :: "'j json_api \<Rightarrow> 'j \<Rightarrow> string \<Rightarrow> bool option" where
  "j_bool J v k = Option.bind (j_get J v k) (j_as_bool J)"

definition unwrap_or :: "'a option \<Rightarrow> 'a \<Rightarrow> 'a" where
  "unwrap_or x d = (case x of None \<Rightarrow> d | Some a \<Rightarrow> a)"

lemma unwrap_or_simps [simp]: "unwrap_or None d = d" "unwrap_or (Some a) d = a"
  by (simp_all add: unwrap_or_def)

text \<open>\<^verbatim>\<open>as u32\<close> keeps the low 32 bits.\<close>

definition as_u32 :: "u64 \<Rightarrow> u32" where
  "as_u32 n = n mod (u32_max + 1)"

subsection \<open>The policy\<close>

datatype ToolPolicy = AllowAll | AllowList "string set" | DenyList "string set"

fun is_allowed :: "ToolPolicy \<Rightarrow> string \<Rightarrow> bool" where
  "is_allowed AllowAll n = True"
| "is_allowed (AllowList S) n = (n \<in> S)"
| "is_allowed (DenyList S) n = (n \<notin> S)"

text \<open>A tool definition is its name and whatever else is sent to the model.\<close>

record 'd ToolDefinition =
  tool_name :: string
  tool_rest :: 'd

definition filter_tools :: "ToolPolicy \<Rightarrow> 'd ToolDefinition list \<Rightarrow> 'd ToolDefinition list" where
  "filter_tools p tools =
     (case p of AllowAll \<Rightarrow> tools | _ \<Rightarrow> filter (\<lambda>t. is_allowed p (tool_name t)) tools)"

definition EXFILTRATION_SENSITIVE_TOOLS :: "string set" where
  "EXFILTRATION_SENSITIVE_TOOLS =
     {''web_fetch'', ''message_send'', ''telegram_edit_message'', ''telegram_delete_message'',
      ''telegram_pin_message'', ''telegram_reply_markup'', ''telegram_send_photo'',
      ''discord_add_reaction'', ''discord_send_embed'', ''discord_create_thread'',
      ''discord_edit_message'', ''discord_delete_message'', ''slack_send_blocks'',
      ''slack_send_ephemeral'', ''slack_add_reaction'', ''slack_update_message'',
      ''slack_delete_message''}"

definition is_exfiltration_sensitive :: "string \<Rightarrow> bool" where
  "is_exfiltration_sensitive n \<longleftrightarrow> n \<in> EXFILTRATION_SENSITIVE_TOOLS"

definition filter_tools_with_guard :: "ToolPolicy \<Rightarrow> 'd ToolDefinition list \<Rightarrow> bool \<Rightarrow> 'd ToolDefinition list" where
  "filter_tools_with_guard p tools guard =
     (let filtered = filter_tools p tools
      in if guard then filter (\<lambda>t. \<not> is_exfiltration_sensitive (tool_name t)) filtered else filtered)"

definition policy_from_config :: "'j json_api \<Rightarrow> 'j option \<Rightarrow> ToolPolicy" where
  "policy_from_config J v =
     (case v of
        None \<Rightarrow> AllowAll
      | Some obj \<Rightarrow>
          if \<not> j_is_object J obj then AllowAll
          else (let policy_str = unwrap_or (j_str J obj ''policy'') ''allow-all'';
                    names = (case Option.bind (j_get J obj ''list'') (j_as_array J) of
                               None \<Rightarrow> {}
                             | Some arr \<Rightarrow> set (List.map_filter (j_as_str J) arr))
                in if policy_str = ''allow-list'' then AllowList names
                   else if policy_str = ''deny-list'' then DenyList names
                   else if policy_str = ''allow-all'' then AllowAll
                   else AllowList {}))"

subsection \<open>Properties\<close>

text \<open>
  The two enforcement points agree: the definitions shown to the model are exactly those of the
  tools the policy allows (and, under the exfiltration guard, that cannot send data out), in their
  order; and a policy text that is not one of the three known ones allows no tool at all.
\<close>

theorem tool_filter_agrees_with_gate:
  "filter_tools_with_guard p tools guard =
     filter (\<lambda>t. is_allowed p (tool_name t) \<and> \<not> (guard \<and> is_exfiltration_sensitive (tool_name t))) tools \<and>
   (j_is_object J v \<and> j_str J v ''policy'' = Some s \<and> s \<notin> {''allow-all'', ''allow-list'', ''deny-list''} \<longrightarrow>
      filter_tools (policy_from_config J (Some v)) tools = [])"
proof -
  have "filter_tools p tools = filter (\<lambda>t. is_allowed p (tool_name t)) tools"
    by (cases p) (simp_all add: filter_tools_def)
  then show ?thesis
    by (auto simp: filter_tools_with_guard_def Let_def policy_from_config_def filter_tools_def
        intro: filter_cong)
qed

text \<open>A JSON value for the witnesses: an object with text members.\<close>

datatype ex_json = Obj "(string \<times> ex_json) list" | Txt string | Num nat

definition ex_json_api :: "ex_json json_api" where
  "ex_json_api =
     \<lparr>j_get = (\<lambda>v k. case v of Obj m \<Rightarrow> map_of m k | _ \<Rightarrow> None),
      j_as_str = (\<lambda>v. case v of Txt s \<Rightarrow> Some s | _ \<Rightarrow> None),
      j_as_u64 = (\<lambda>v. case v of Num n \<Rightarrow> Some n | _ \<Rightarrow> None),
      j_as_bool = (\<lambda>_. None), j_as_array = (\<lambda>_. None),
      j_is_object = (\<lambda>v. case v of Obj _ \<Rightarrow> True | _ \<Rightarrow> False)\<rparr>"

theorem tool_filter_agrees_with_gate_witness:
  "filter_tools (policy_from_config ex_json_api (Some (Obj [(''policy'', Txt ''allowlist'')])))
     [\<lparr>tool_name = ''time'', tool_rest = ()\<rparr>] = []"
  using tool_filter_agrees_with_gate [of AllowAll "[\<lparr>tool_name = ''time'', tool_rest = ()\<rparr>]" False ex_json_api
      "Obj [(''policy'', Txt ''allowlist'')]" "''allowlist''"]
  by (simp add: j_str_def ex_json_api_def)

end
