(* ===== verification/Session_Scoping.thy ===== *)
theory Session_Scoping
  imports Tool_Policy
begin

text \<open>
  Session keys and automatic resets (\<^verbatim>\<open>src/sessions/scoping.rs\<close>) and the retention settings
  (\<^verbatim>\<open>src/sessions/retention.rs\<close>). \<open>day_start\<close> is the start of the UTC day of an instant, by \<^verbatim>\<open>chrono\<close>, in
  milliseconds; \<open>None\<close> for an instant outside its range.
\<close>

subsection \<open>Scopes\<close>

datatype SessionScope = PerSender | Global | PerChannelPeer

fun SessionScope_fmt :: "SessionScope \<Rightarrow> string" where
  "SessionScope_fmt PerSender = ''per-sender''"
| "SessionScope_fmt Global = ''global''"
| "SessionScope_fmt PerChannelPeer = ''per-channel-peer''"

definition from_str_opt :: "string \<Rightarrow> SessionScope option" where
  "from_str_opt s =
     (if s = ''per-sender'' then Some PerSender
      else if s = ''global'' then Some Global
      else if s = ''per-channel-peer'' then Some PerChannelPeer
      else None)"

definition resolve_session_key :: "string \<Rightarrow> string \<Rightarrow> string \<Rightarrow> SessionScope \<Rightarrow> string" where
  "resolve_session_key channel sender_id peer_id scope =
     (case scope of
        PerSender \<Rightarrow> channel @ '':'' @ sender_id
      | Global \<Rightarrow> channel @ '':global''
      | PerChannelPeer \<Rightarrow> channel @ '':'' @ peer_id)"

subsection \<open>Reset policies\<close>

datatype SessionResetPolicy = Manual | Daily | Idle u32

fun SessionResetPolicy_fmt :: "SessionResetPolicy \<Rightarrow> string" where
  "SessionResetPolicy_fmt Manual = ''manual''"
| "SessionResetPolicy_fmt Daily = ''daily''"
| "SessionResetPolicy_fmt (Idle m) = ''idle('' @ string_of_nat m @ ''m)''"

definition DEFAULT_IDLE_MINUTES :: u32 where
  "DEFAULT_IDLE_MINUTES = 60"

definition parse_reset_policy :: "'j json_api \<Rightarrow> 'j \<Rightarrow> SessionResetPolicy" where
  "parse_reset_policy J v =
     (let mode = unwrap_or (j_str J v ''mode'') ''manual''
      in if mode = ''daily'' then Daily
         else if mode = ''idle''
         then Idle (unwrap_or (map_option as_u32 (j_u64 J v ''idleMinutes'')) DEFAULT_IDLE_MINUTES)
         else Manual)"

definition should_reset_session_at :: "(i64 \<Rightarrow> i64 option) \<Rightarrow> i64 \<Rightarrow> SessionResetPolicy \<Rightarrow> i64 \<Rightarrow> bool" where
  "should_reset_session_at day_start updated_at_ms policy now_ms =
     (case policy of
        Manual \<Rightarrow> False
      | Daily \<Rightarrow> (case day_start now_ms of None \<Rightarrow> False | Some midnight \<Rightarrow> updated_at_ms < midnight)
      | Idle m \<Rightarrow> updated_at_ms < i64_wrap (now_ms - int m * 60 * 1000))"

subsection \<open>Configuration\<close>

record ChannelSessionConfig =
  cfg_scope :: SessionScope
  cfg_reset :: SessionResetPolicy

definition config_from_value_with_default :: "'j json_api \<Rightarrow> 'j \<Rightarrow> SessionScope \<Rightarrow> ChannelSessionConfig" where
  "config_from_value_with_default J v default_scope =
     \<lparr>cfg_scope = unwrap_or (Option.bind (j_str J v ''scope'') from_str_opt) default_scope,
      cfg_reset = (case j_get J v ''reset'' of Some r \<Rightarrow> parse_reset_policy J r | None \<Rightarrow> Manual)\<rparr>"

definition config_from_value :: "'j json_api \<Rightarrow> 'j \<Rightarrow> ChannelSessionConfig" where
  "config_from_value J v = config_from_value_with_default J v PerSender"

definition default_scope_for_channel :: "string \<Rightarrow> SessionScope" where
  "default_scope_for_channel n = (if n = ''matrix'' then PerChannelPeer else PerSender)"

definition config_from_config :: "'j json_api \<Rightarrow> 'j \<Rightarrow> string \<Rightarrow> ChannelSessionConfig" where
  "config_from_config J config channel =
     (let default_scope = default_scope_for_channel channel
      in case Option.bind (j_get J config ''channels'') (\<lambda>c.
              Option.bind (j_get J c channel) (\<lambda>ch. j_get J ch ''session'')) of
           Some v \<Rightarrow> config_from_value_with_default J v default_scope
         | None \<Rightarrow>
             \<lparr>cfg_scope = unwrap_or (Option.bind (Option.bind (j_get J config ''session'') (\<lambda>s. j_str J s ''scope''))
                 from_str_opt) default_scope,
              cfg_reset = Manual\<rparr>)"

record RetentionConfig =
  ret_enabled :: bool
  retention_days :: u32
  interval_hours :: u32

definition RetentionConfig_default :: RetentionConfig where
  "RetentionConfig_default = \<lparr>ret_enabled = True, retention_days = 30, interval_hours = 6\<rparr>"

definition build_retention_config :: "'j json_api \<Rightarrow> 'j \<Rightarrow> RetentionConfig" where
  "build_retention_config J cfg =
     (let object = (\<lambda>v. if j_is_object J v then Some v else None);
          retention = Option.bind (Option.bind (Option.bind (j_get J cfg ''sessions'') object)
             (\<lambda>s. j_get J s ''retention'')) object;
          d = RetentionConfig_default
      in \<lparr>ret_enabled = unwrap_or (Option.bind retention (\<lambda>r. j_bool J r ''enabled'')) (ret_enabled d),
          retention_days = unwrap_or (map_option as_u32 (Option.bind retention (\<lambda>r. j_u64 J r ''days'')))
             (retention_days d),
          interval_hours = unwrap_or (map_option as_u32 (Option.bind retention (\<lambda>r. j_u64 J r ''intervalHours'')))
             (interval_hours d)\<rparr>)"

subsection \<open>Properties\<close>

text \<open>Documented behaviour of \<^verbatim>\<open>chrono\<close>: the start of a UTC day is a multiple of a day's milliseconds.\<close>

definition day_start_ok :: "(i64 \<Rightarrow> i64 option) \<Rightarrow> bool" where
  "day_start_ok day_start \<longleftrightarrow> (\<forall>now m. day_start now = Some m \<longrightarrow> m = now - now mod 86400000)"

text \<open>What part of a message the scope keeps apart.\<close>

fun scope_identity :: "SessionScope \<Rightarrow> string \<Rightarrow> string \<Rightarrow> string" where
  "scope_identity PerSender sender peer = sender"
| "scope_identity Global sender peer = ''global''"
| "scope_identity PerChannelPeer sender peer = peer"

lemma append_colon_inject:
  assumes "CHR '':'' \<notin> set a" "CHR '':'' \<notin> set b"
  shows "a @ CHR '':'' # x = b @ CHR '':'' # y \<longleftrightarrow> a = b \<and> x = y"
proof
  assume eq: "a @ CHR '':'' # x = b @ CHR '':'' # y"
  have "takeWhile (\<lambda>c. c \<noteq> CHR '':'') (s @ CHR '':'' # t) = s" if "CHR '':'' \<notin> set s" for s t
    using that by (induction s) auto
  then have "a = b" using assms eq by metis
  with eq show "a = b \<and> x = y" by simp
qed simp

text \<open>
  Sessions are kept apart: as long as channel names contain no colon, two messages share a
  session key exactly when they come from the same channel and agree on what the channel's scope
  distinguishes (the sender, nothing, or the peer), so no sender reaches a session of another
  channel or, under the per-sender scope, of another sender.
\<close>

theorem session_keys_isolate:
  assumes "CHR '':'' \<notin> set c1" "CHR '':'' \<notin> set c2"
  shows "resolve_session_key c1 s1 p1 (scope c1) = resolve_session_key c2 s2 p2 (scope c2) \<longleftrightarrow>
    c1 = c2 \<and> scope_identity (scope c1) s1 p1 = scope_identity (scope c2) s2 p2"
proof -
  have key: "resolve_session_key c s p sc = c @ CHR '':'' # scope_identity sc s p" for c s p sc
    by (cases sc) (simp_all add: resolve_session_key_def)
  show ?thesis unfolding key using append_colon_inject [OF assms] .
qed

theorem session_keys_isolate_witness:
  "resolve_session_key ''tg'' ''alice'' ''g'' ((\<lambda>_. PerSender) ''tg'') \<noteq>
   resolve_session_key ''tg'' ''bob'' ''g'' ((\<lambda>_. PerSender) ''tg'')"
  using session_keys_isolate [of "''tg''" "''tg''" "''alice''" "''g''" "\<lambda>_. PerSender" "''bob''" "''g''"] by simp

text \<open>A session that is due for a reset stays due while it is not touched.\<close>

lemma day_floor_mono: "now \<le> later \<Longrightarrow> now - now mod 86400000 \<le> later - later mod (86400000 :: int)"
proof -
  assume "now \<le> later"
  then have "now div 86400000 * 86400000 \<le> later div (86400000 :: int) * 86400000"
    by (intro mult_right_mono zdiv_mono1) simp_all
  then show ?thesis by (simp add: minus_mod_eq_div_mult)
qed

text \<open>
  Resets are decided by time alone and never taken back: a session that is due for a reset
  is still due at any later time at which it has not been touched, under every policy; a session
  touched on the same UTC day is not due for the daily reset.
\<close>

theorem session_reset_monotone:
  assumes "day_start_ok day_start" "day_start later \<noteq> None" "now \<le> later"
    "0 \<le> now" "later \<le> i64_max" "\<forall>m. policy = Idle m \<longrightarrow> m \<le> u32_max"
  shows "(should_reset_session_at day_start t policy now \<longrightarrow> should_reset_session_at day_start t policy later) \<and>
    (t div 86400000 = now div 86400000 \<longrightarrow> \<not> should_reset_session_at day_start t Daily now)"
proof -
  have wrap: "i64_wrap (x - int k * 60 * 1000) = x - int k * 60 * 1000"
    if "0 \<le> x" "x \<le> i64_max" "k \<le> u32_max" for x k
    using that by (intro i64_wrap_id) (simp_all add: i64_min_def u32_max_def)
  obtain lm where lm: "day_start later = Some lm" using assms(2) by auto
  then have lm': "lm = later - later mod 86400000" using assms(1) by (auto simp: day_start_ok_def)
  have daily: "t < nm \<longrightarrow> t < lm" if "day_start now = Some nm" for nm
    using that assms(1) day_floor_mono [OF assms(3)] unfolding lm' by (auto simp: day_start_ok_def)
  have same: "\<not> t < nm" if "day_start now = Some nm" "t div 86400000 = now div 86400000" for nm
  proof -
    have "nm = now div 86400000 * 86400000"
      using that(1) assms(1) by (simp add: day_start_ok_def minus_mod_eq_div_mult)
    also have "\<dots> = t div 86400000 * 86400000" using that(2) by simp
    also have "\<dots> \<le> t" using div_mult_mod_eq [of t 86400000] pos_mod_sign [of 86400000 t] by linarith
    finally show ?thesis by simp
  qed
  show ?thesis
    using lm daily same assms(3-6) wrap [of now] wrap [of later]
    by (auto simp: should_reset_session_at_def split: SessionResetPolicy.split option.splits)
qed

definition ex_day_start :: "i64 \<Rightarrow> i64 option" where
  "ex_day_start now = Some (now - now mod 86400000)"

theorem session_reset_monotone_witness:
  "should_reset_session_at ex_day_start 1000 (Idle 30) 99000000"
proof -
  have d: "should_reset_session_at ex_day_start 1000 (Idle 30) 5000000"
    by (simp add: should_reset_session_at_def i64_wrap_id i64_min_def i64_max_def)
  show ?thesis
    using session_reset_monotone [of ex_day_start 99000000 5000000 "Idle 30" 1000] d
    by (simp add: day_start_ok_def ex_day_start_def i64_max_def u32_max_def)
qed

lemma scope_names_round_trip: "from_str_opt (SessionScope_fmt s) = Some s"
  by (cases s) (simp_all add: from_str_opt_def)

end
