(* ===== verification/Log_Buffer.thy ===== *)
theory Log_Buffer
  imports Rust_Text
begin

text \<open>
  The in-memory ring buffer of log entries (\<^verbatim>\<open>src/logging/buffer.rs\<close>) and the request that reads it,
  \<^verbatim>\<open>logs.tail\<close> (\<^verbatim>\<open>src/server/ws/handlers/logs.rs\<close>). A compiled regular expression is a predicate on
  texts, \<open>'f\<close> the type of the JSON fields of an entry.
\<close>

subsection \<open>Data\<close>

datatype LogLevel = Trace | Debug | Info | Warn | Error

fun level_rank :: "LogLevel \<Rightarrow> nat" where
  "level_rank Trace = 0"
| "level_rank Debug = 1"
| "level_rank Info = 2"
| "level_rank Warn = 3"
| "level_rank Error = 4"

lemma level_rank_inject: "level_rank a = level_rank b \<longleftrightarrow> a = b"
  by (cases a; cases b) simp_all

text \<open>The derived order of the levels.\<close>

instantiation LogLevel :: linorder
begin

definition less_eq_LogLevel :: "LogLevel \<Rightarrow> LogLevel \<Rightarrow> bool" where
  "less_eq_LogLevel a b \<longleftrightarrow> level_rank a \<le> level_rank b"

definition less_LogLevel :: "LogLevel \<Rightarrow> LogLevel \<Rightarrow> bool" where
  "less_LogLevel a b \<longleftrightarrow> level_rank a < level_rank b"

instance
  by standard (auto simp: less_eq_LogLevel_def less_LogLevel_def level_rank_inject [symmetric])

end

definition level_from_str :: "string \<Rightarrow> string + LogLevel" where
  "level_from_str s =
     (let l = to_ascii_lowercase s
      in if l = ''trace'' then Inr Trace
         else if l = ''debug'' then Inr Debug
         else if l = ''info'' then Inr Info
         else if l = ''warn'' \<or> l = ''warning'' then Inr Warn
         else if l = ''error'' then Inr Error
         else Inl (''unknown log level: '' @ s))"

fun LogLevel_fmt :: "LogLevel \<Rightarrow> string" where
  "LogLevel_fmt Trace = ''trace''"
| "LogLevel_fmt Debug = ''debug''"
| "LogLevel_fmt Info = ''info''"
| "LogLevel_fmt Warn = ''warn''"
| "LogLevel_fmt Error = ''error''"

record 'f LogEntry =
  entry_seq :: u64
  entry_timestamp :: u64
  entry_level :: LogLevel
  entry_target :: string
  entry_message :: string
  entry_span :: "string option"
  entry_fields :: "'f option"

record LogFilter =
  filter_level :: "LogLevel option"
  filter_pattern :: "(string \<Rightarrow> bool) option"
  filter_limit :: "usize option"
  filter_after_seq :: "u64 option"

definition LogFilter_new :: LogFilter where
  "LogFilter_new = \<lparr>filter_level = None, filter_pattern = None, filter_limit = None, filter_after_seq = None\<rparr>"

definition filter_matches :: "LogFilter \<Rightarrow> 'f LogEntry \<Rightarrow> bool" where
  "filter_matches flt x =
     (if (case filter_level flt of Some min_level \<Rightarrow> entry_level x < min_level | None \<Rightarrow> False) then False
      else if (case filter_pattern flt of Some p \<Rightarrow> \<not> p (entry_target x) | None \<Rightarrow> False) then False
      else if (case filter_after_seq flt of Some s \<Rightarrow> entry_seq x \<le> s | None \<Rightarrow> False) then False
      else True)"

record 'f LogQueryResult =
  result_entries :: "'f LogEntry list"
  result_cursor :: u64
  result_total :: usize
  result_has_more :: bool

record 'f LogBuffer =
  lb_entries :: "'f LogEntry list"
  lb_capacity :: usize
  lb_next_seq :: u64

subsection \<open>The buffer\<close>

definition DEFAULT_BUFFER_CAPACITY :: usize where
  "DEFAULT_BUFFER_CAPACITY = 1000"

definition MAX_BUFFER_CAPACITY :: usize where
  "MAX_BUFFER_CAPACITY = 10000"

definition LogBuffer_with_capacity :: "usize \<Rightarrow> 'f LogBuffer" where
  "LogBuffer_with_capacity capacity =
     \<lparr>lb_entries = [], lb_capacity = min capacity MAX_BUFFER_CAPACITY, lb_next_seq = 1\<rparr>"

definition LogBuffer_new :: "'f LogBuffer" where
  "LogBuffer_new = LogBuffer_with_capacity DEFAULT_BUFFER_CAPACITY"

definition log_push :: "'f LogEntry \<Rightarrow> 'f LogBuffer \<Rightarrow> 'f LogBuffer" where
  "log_push x b =
     (let es = lb_entries b;
          es = (if length es \<ge> lb_capacity b then drop 1 es else es)
      in b\<lparr>lb_entries := es @ [x]\<rparr>)"

definition push_with_seq ::
    "u64 \<Rightarrow> LogLevel \<Rightarrow> string \<Rightarrow> string \<Rightarrow> string option \<Rightarrow> 'f option \<Rightarrow> 'f LogBuffer \<Rightarrow> u64 \<times> 'f LogBuffer" where
  "push_with_seq now level target message span flds b =
     (let seq = lb_next_seq b;
          b = b\<lparr>lb_next_seq := u64_add seq 1\<rparr>;
          x = \<lparr>entry_seq = seq, entry_timestamp = now, entry_level = level, entry_target = target,
               entry_message = message, entry_span = span, entry_fields = flds\<rparr>;
          es = lb_entries b;
          es = (if length es \<ge> lb_capacity b then drop 1 es else es)
      in (seq, b\<lparr>lb_entries := es @ [x]\<rparr>))"

definition log_query :: "LogFilter \<Rightarrow> 'f LogBuffer \<Rightarrow> 'f LogQueryResult" where
  "log_query flt b =
     (let total_len = length (lb_entries b);
          es = filter (filter_matches flt) (lb_entries b);
          limit = (case filter_limit flt of None \<Rightarrow> 100 | Some l \<Rightarrow> l);
          has_more = (length es > limit);
          es = (if length es > limit then drop (length es - limit) es else es)
      in \<lparr>result_entries = es, result_cursor = (if es = [] then 0 else entry_seq (last es)),
          result_total = total_len, result_has_more = has_more\<rparr>)"

definition get_after :: "u64 \<Rightarrow> usize \<Rightarrow> 'f LogBuffer \<Rightarrow> 'f LogEntry list" where
  "get_after seq limit b = take limit (filter (\<lambda>x. entry_seq x > seq) (lb_entries b))"

definition current_seq :: "'f LogBuffer \<Rightarrow> u64" where
  "current_seq b = u64_saturating_sub (lb_next_seq b) 1"

definition log_len :: "'f LogBuffer \<Rightarrow> usize" where
  "log_len b = length (lb_entries b)"

definition log_is_empty :: "'f LogBuffer \<Rightarrow> bool" where
  "log_is_empty b \<longleftrightarrow> lb_entries b = []"

definition log_clear :: "'f LogBuffer \<Rightarrow> 'f LogBuffer" where
  "log_clear b = b\<lparr>lb_entries := []\<rparr>"

text \<open>\<^verbatim>\<open>while entries.len() > capacity { entries.pop_front() }\<close>\<close>

fun truncate_front :: "nat \<Rightarrow> 'a list \<Rightarrow> 'a list" where
  "truncate_front n [] = []"
| "truncate_front n (x # xs) = (if length (x # xs) > n then truncate_front n xs else x # xs)"

definition set_capacity :: "usize \<Rightarrow> 'f LogBuffer \<Rightarrow> 'f LogBuffer" where
  "set_capacity capacity b =
     (let capacity = min capacity MAX_BUFFER_CAPACITY
      in b\<lparr>lb_capacity := capacity, lb_entries := truncate_front capacity (lb_entries b)\<rparr>)"

subsection \<open>Reading the log: \<^verbatim>\<open>logs.tail\<close>\<close>

definition clamp_i64 :: "i64 \<Rightarrow> i64 \<Rightarrow> i64 \<Rightarrow> i64" where
  "clamp_i64 v mn mx = min (max v mn) mx"

text \<open>The loop over the entries from the last one on; \<open>n\<close> is the number of all entries.\<close>

fun trim_loop :: "usize \<Rightarrow> nat \<Rightarrow> 'f LogEntry list \<Rightarrow> 'f LogEntry list \<Rightarrow> nat \<Rightarrow> 'f LogEntry list \<times> bool" where
  "trim_loop max_bytes n [] selected total_bytes = (selected, False)"
| "trim_loop max_bytes n (x # xs) selected total_bytes =
     (let bytes = length (entry_message x)
      in if selected \<noteq> [] \<and> total_bytes + bytes > max_bytes then (selected, True)
         else (let total_bytes = total_bytes + bytes;
                   selected = selected @ [x]
               in if total_bytes \<ge> max_bytes \<and> length selected < n then (selected, True)
                  else trim_loop max_bytes n xs selected total_bytes))"

definition trim_entries_by_bytes :: "'f LogEntry list \<Rightarrow> usize \<Rightarrow> 'f LogEntry list \<times> bool" where
  "trim_entries_by_bytes es max_bytes =
     (if es = [] \<or> max_bytes = 0 then (es, False)
      else (let (selected, truncated) = trim_loop max_bytes (length es) (rev es) [] 0
            in (rev selected, truncated)))"

record 'f logs_tail_reply =
  tail_cursor :: u64
  tail_size :: usize
  tail_entries :: "'f LogEntry list"
  tail_lines :: "string list"
  tail_truncated :: bool
  tail_reset :: bool

text \<open>The cursor given by the client: whether it is out of date, and where to go on.\<close>

definition tail_position :: "u64 option \<Rightarrow> 'f LogBuffer \<Rightarrow> bool \<times> u64 option" where
  "tail_position cursor b =
     (let buffer_len = log_len b;
          cur_seq = current_seq b;
          earliest_seq = (if buffer_len = 0 then 0
                          else u64_saturating_sub cur_seq (u64_saturating_sub buffer_len 1))
      in case cursor of
           None \<Rightarrow> (False, None)
         | Some c \<Rightarrow> if c > cur_seq \<or> c < earliest_seq then (True, None) else (False, Some c))"

definition tail_level :: "string option \<Rightarrow> string + LogLevel option" where
  "tail_level level_p =
     (case level_p of
        None \<Rightarrow> Inr None
      | Some s \<Rightarrow> (case level_from_str s of
            Inl e \<Rightarrow> Inl (''invalid log level: '' @ e)
          | Inr l \<Rightarrow> Inr (Some l)))"

definition tail_pattern ::
    "(string \<Rightarrow> (string \<Rightarrow> bool) option) \<Rightarrow> string option \<Rightarrow> string + (string \<Rightarrow> bool) option" where
  "tail_pattern compile pattern_p =
     (case pattern_p of
        None \<Rightarrow> Inr None
      | Some p \<Rightarrow> (case compile p of
            None \<Rightarrow> Inl ''invalid logs.tail pattern regex''
          | Some re \<Rightarrow> Inr (Some re)))"

definition tail_reply :: "usize \<Rightarrow> bool \<Rightarrow> LogFilter \<Rightarrow> 'f LogBuffer \<Rightarrow> 'f logs_tail_reply" where
  "tail_reply max_bytes reset flt b =
     (let r = log_query flt b;
          (es, trimmed) = trim_entries_by_bytes (result_entries r) max_bytes
      in \<lparr>tail_cursor = (if es = [] then 0 else entry_seq (last es)),
          tail_size = result_total r, tail_entries = es, tail_lines = map entry_message es,
          tail_truncated = (result_has_more r \<or> trimmed), tail_reset = reset\<rparr>)"

text \<open>The arguments are the members of the request, read from JSON; \<open>compile\<close> compiles a pattern.\<close>

definition handle_logs_tail ::
    "(string \<Rightarrow> (string \<Rightarrow> bool) option) \<Rightarrow> i64 option \<Rightarrow> i64 option \<Rightarrow> i64 option \<Rightarrow> string option \<Rightarrow> string option \<Rightarrow>
     'f LogBuffer \<Rightarrow> string + 'f logs_tail_reply" where
  "handle_logs_tail compile limit_p max_bytes_p cursor_p level_p pattern_p b =
     (let limit = (case limit_p of None \<Rightarrow> 500 | Some v \<Rightarrow> nat (clamp_i64 v 1 5000));
          max_bytes = (case max_bytes_p of None \<Rightarrow> 250000 | Some v \<Rightarrow> nat (clamp_i64 v 1 1000000));
          cursor = (case cursor_p of None \<Rightarrow> None | Some v \<Rightarrow> if v \<ge> 0 then Some (nat v) else None);
          (reset, after_seq) = tail_position cursor b
      in case tail_level level_p of
           Inl e \<Rightarrow> Inl e
         | Inr level \<Rightarrow>
             (case tail_pattern compile pattern_p of
                Inl e \<Rightarrow> Inl e
              | Inr pattern \<Rightarrow>
                  Inr (tail_reply max_bytes reset
                    \<lparr>filter_level = level, filter_pattern = pattern, filter_limit = Some limit,
                     filter_after_seq = after_seq\<rparr> b)))"

subsection \<open>The buffer refines an unbounded log\<close>

text \<open>What is written to the log, and the log that keeps everything.\<close>

record 'f log_input =
  in_now :: u64
  in_level :: LogLevel
  in_target :: string
  in_message :: string
  in_span :: "string option"
  in_fields :: "'f option"

definition write_log :: "'f log_input \<Rightarrow> 'f LogBuffer \<Rightarrow> 'f LogBuffer" where
  "write_log x b =
     snd (push_with_seq (in_now x) (in_level x) (in_target x) (in_message x) (in_span x) (in_fields x) b)"

fun full_log :: "u64 \<Rightarrow> 'f log_input list \<Rightarrow> 'f LogEntry list" where
  "full_log n [] = []"
| "full_log n (x # xs) =
     \<lparr>entry_seq = n, entry_timestamp = in_now x, entry_level = in_level x, entry_target = in_target x,
      entry_message = in_message x, entry_span = in_span x, entry_fields = in_fields x\<rparr>
     # full_log (Suc n) xs"

definition keep_last :: "nat \<Rightarrow> 'a list \<Rightarrow> 'a list" where
  "keep_last n xs = drop (length xs - n) xs"

lemma length_full_log [simp]: "length (full_log n xs) = length xs"
  by (induction xs arbitrary: n) simp_all

lemma full_log_append: "full_log n (xs @ ys) = full_log n xs @ full_log (n + length xs) ys"
  by (induction xs arbitrary: n) simp_all

lemma seqs_full_log: "map entry_seq (full_log n xs) = [n..<n + length xs]"
  by (induction xs arbitrary: n) (simp_all add: upt_rec)

lemma keep_last_full:
  "0 < n \<Longrightarrow> n \<le> length (keep_last n xs) \<Longrightarrow> drop (Suc 0) (keep_last n xs) @ [x] = keep_last n (xs @ [x])"
  by (simp add: keep_last_def Suc_diff_le)

lemma keep_last_room: "\<not> n \<le> length (keep_last n xs) \<Longrightarrow> keep_last n xs @ [x] = keep_last n (xs @ [x])"
  by (simp add: keep_last_def)

lemma write_log_step:
  assumes "0 < lb_capacity b" "lb_entries b = keep_last (lb_capacity b) h" "lb_next_seq b < u64_max"
  shows "lb_entries (write_log x b) = keep_last (lb_capacity b) (h @ full_log (lb_next_seq b) [x])"
    "lb_next_seq (write_log x b) = Suc (lb_next_seq b)" "lb_capacity (write_log x b) = lb_capacity b"
  using assms
  by (simp_all add: write_log_def push_with_seq_def Let_def u64_add_small keep_last_full keep_last_room)

text \<open>
  C24: The ring buffer refines the log that keeps everything: after writing any entries to a buffer
  of some capacity, it holds exactly the last entries of that log, as many as the capacity (at
  most 10,000) allows, numbered from 1 without gaps.
\<close>

theorem log_buffer_keeps_latest:
  assumes "0 < c" "length xs < u64_max"
  shows "lb_entries (fold write_log xs (LogBuffer_with_capacity c)) = keep_last (min c 10000) (full_log 1 xs) \<and>
    current_seq (fold write_log xs (LogBuffer_with_capacity c)) = length xs"
proof -
  let ?b = "LogBuffer_with_capacity c"
  have "lb_entries (fold write_log xs ?b) = keep_last (min c 10000) (full_log 1 xs) \<and>
      lb_next_seq (fold write_log xs ?b) = Suc (length xs) \<and>
      lb_capacity (fold write_log xs ?b) = min c 10000"
    using assms(2)
  proof (induction xs rule: rev_induct)
    case Nil
    then show ?case by (simp add: LogBuffer_with_capacity_def keep_last_def MAX_BUFFER_CAPACITY_def)
  next
    case (snoc x xs)
    let ?s = "fold write_log xs ?b"
    have IH: "lb_entries ?s = keep_last (lb_capacity ?s) (full_log 1 xs)" "lb_next_seq ?s = Suc (length xs)"
      "lb_capacity ?s = min c 10000"
      using snoc by simp_all
    have "0 < lb_capacity ?s" "lb_next_seq ?s < u64_max"
      using assms(1) snoc.prems IH(2,3) by (simp_all add: LogBuffer_with_capacity_def MAX_BUFFER_CAPACITY_def)
    note st = write_log_step [OF this(1) IH(1) this(2), of x]
    show ?case using st IH(2,3) by (simp add: full_log_append)
  qed
  then show ?thesis
    by (simp add: LogBuffer_with_capacity_def MAX_BUFFER_CAPACITY_def current_seq_def u64_saturating_sub_def)
qed

definition ex_line :: "nat \<Rightarrow> unit log_input" where
  "ex_line t = \<lparr>in_now = t, in_level = Info, in_target = ''ws'', in_message = ''hello'', in_span = None,
     in_fields = None\<rparr>"

theorem log_buffer_keeps_latest_witness:
  "lb_entries (fold write_log [ex_line 1, ex_line 2, ex_line 3] (LogBuffer_with_capacity 2))
    = full_log 2 [ex_line 2, ex_line 3]"
  using log_buffer_keeps_latest [of 2 "[ex_line 1, ex_line 2, ex_line 3]"]
  by (simp add: u64_max_def keep_last_def numeral_2_eq_2)

text \<open>Reading in batches with \<^verbatim>\<open>get_after\<close> misses nothing and repeats nothing.\<close>

lemma get_after_batches:
  assumes "sorted_wrt (<) (map entry_seq (lb_entries b))" "get_after s l b \<noteq> []"
  shows "get_after s l b @ get_after (entry_seq (last (get_after s l b))) l' b = get_after s (l + l') b"
proof -
  define es where "es = filter (\<lambda>x. entry_seq x > s) (lb_entries b)"
  have sorted: "sorted_wrt (<) (map entry_seq es)" unfolding es_def
    using assms(1) by (simp add: sorted_wrt_map sorted_wrt_filter)
  have b: "get_after s l b = take l es" by (simp add: get_after_def es_def)
  have ne: "take l es \<noteq> []" using assms(2) b by simp
  let ?c = "entry_seq (last (take l es))"
  have split: "es = take l es @ drop l es" by simp
  have "filter (\<lambda>x. entry_seq x > ?c) es = drop l es"
  proof -
    have "\<forall>x \<in> set (drop l es). ?c < entry_seq x"
      using sorted ne unfolding sorted_wrt_map
      by (subst (asm) split) (auto simp: sorted_wrt_append intro: last_in_set simp del: append_take_drop_id)
    moreover have "\<forall>x \<in> set (take l es). entry_seq x \<le> ?c"
    proof -
      have "sorted_wrt (\<lambda>x y. entry_seq x < entry_seq y) (take l es)"
        using sorted unfolding sorted_wrt_map by (rule sorted_wrt_take)
      then have "sorted_wrt (\<lambda>x y. entry_seq x < entry_seq y) (butlast (take l es) @ [last (take l es)])"
        using ne by simp
      then have "\<forall>x \<in> set (butlast (take l es)). entry_seq x < ?c" by (simp add: sorted_wrt_append)
      then show ?thesis using ne by (metis append_butlast_last_id in_set_butlastD less_imp_le order_refl rotate1.simps(2) set_ConsD set_rotate1)
    qed
    ultimately have "filter (\<lambda>x. entry_seq x > ?c) (take l es @ drop l es) = drop l es"
      by (simp only: filter_append filter_False filter_True not_less append_Nil)
    then show ?thesis by simp
  qed
  moreover have "filter (\<lambda>x. entry_seq x > ?c) (lb_entries b) = filter (\<lambda>x. entry_seq x > ?c) es"
  proof -
    have "last (take l es) \<in> set es" using ne by (meson in_set_takeD last_in_set)
    then have "s < ?c" by (simp add: es_def)
    then show ?thesis by (auto simp: es_def intro: filter_cong)
  qed
  ultimately have "get_after ?c l' b = take l' (drop l es)" by (simp add: get_after_def)
  then show ?thesis unfolding b by (simp add: get_after_def es_def [symmetric] take_add)
qed


subsection \<open>The size of a reply\<close>

definition message_bytes :: "'f LogEntry list \<Rightarrow> nat" where
  "message_bytes es = sum_list (map (\<lambda>x. length (entry_message x)) es)"

lemma trim_loop_spec:
  assumes "trim_loop mb n xs sel tot = (r, t)" "tot = message_bytes sel" "length sel \<le> 1 \<or> tot \<le> mb"
  shows "(\<exists>k. r = sel @ take k xs) \<and> (length r \<le> 1 \<or> message_bytes r \<le> mb)"
  using assms
proof (induction xs arbitrary: sel tot)
  case Nil
  then show ?case by simp
next
  case (Cons x xs)
  let ?bytes = "length (entry_message x)"
  have grow: "message_bytes (sel @ [x]) = tot + ?bytes" using Cons.prems(2) by (simp add: message_bytes_def)
  show ?case
  proof (cases "sel \<noteq> [] \<and> tot + ?bytes > mb")
    case True
    with Cons.prems show ?thesis by (auto simp: Let_def intro: exI [of _ 0])
  next
    case False
    then have ok: "length (sel @ [x]) \<le> 1 \<or> tot + ?bytes \<le> mb" by auto
    show ?thesis
    proof (cases "tot + ?bytes \<ge> mb \<and> length (sel @ [x]) < n")
      case True
      with False Cons.prems(1) have "r = sel @ [x]" by (auto simp: Let_def)
      with ok grow show ?thesis by (auto intro: exI [of _ 1])
    next
      case stop: False
      with False Cons.prems(1) have "trim_loop mb n xs (sel @ [x]) (tot + ?bytes) = (r, t)"
        by (auto simp: Let_def split: if_splits)
      from Cons.IH [OF this grow [symmetric] ok] obtain k where
        "r = (sel @ [x]) @ take k xs" "length r \<le> 1 \<or> message_bytes r \<le> mb" by blast
      then show ?thesis by (auto intro: exI [of _ "Suc k"])
    qed
  qed
qed

lemma trim_entries_spec:
  assumes "trim_entries_by_bytes es mb = (r, t)" "0 < mb"
  shows "length r \<le> length es \<and> (length r \<le> 1 \<or> message_bytes r \<le> mb) \<and> (\<exists>k. r = drop k es)"
proof (cases "es = []")
  case False
  obtain sel where sel: "trim_loop mb (length es) (rev es) [] 0 = (sel, t)" "r = rev sel"
    using assms False by (auto simp: trim_entries_by_bytes_def split: prod.splits)
  from trim_loop_spec [OF sel(1)] obtain k where k: "sel = take k (rev es)" "length sel \<le> 1 \<or> message_bytes sel \<le> mb"
    by (auto simp: message_bytes_def)
  then have "r = drop (length es - k) es" using sel(2) by (simp add: take_rev)
  moreover have "message_bytes r = message_bytes sel" using sel(2) by (simp add: message_bytes_def rev_map [symmetric] sum_list_rev)
  moreover have "length r = length sel" using sel(2) by simp
  ultimately show ?thesis using k(2) by auto
qed (use assms in \<open>simp add: trim_entries_by_bytes_def\<close>)

text \<open>
  A reply to \<^verbatim>\<open>logs.tail\<close> is bounded whatever the request asks for: at most 5000 entries, of at most
  1,000,000 bytes of messages unless it is a single entry; the entries are the last ones of the buffer
  that the request's filter lets through.
\<close>

theorem logs_tail_reply_bounded:
  assumes "handle_logs_tail compile limit_p max_bytes_p cursor_p level_p pattern_p b = Inr r"
  shows "length (tail_entries r) \<le> 5000 \<and>
    (length (tail_entries r) \<le> 1 \<or> message_bytes (tail_entries r) \<le> 1000000) \<and>
    (\<exists>flt k. tail_level level_p = Inr (filter_level flt) \<and> tail_pattern compile pattern_p = Inr (filter_pattern flt) \<and>
       tail_entries r = drop k (filter (filter_matches flt) (lb_entries b)))"
proof -
  define limit where "limit = (case limit_p of None \<Rightarrow> 500 | Some v \<Rightarrow> nat (clamp_i64 v 1 5000))"
  define mb where "mb = (case max_bytes_p of None \<Rightarrow> 250000 | Some v \<Rightarrow> nat (clamp_i64 v 1 1000000))"
  have bounds: "limit \<le> 5000" "0 < mb" "mb \<le> 1000000"
    by (auto simp: limit_def mb_def clamp_i64_def split: option.split)
  obtain level pattern after reset where "tail_level level_p = Inr level" "tail_pattern compile pattern_p = Inr pattern"
    "r = tail_reply mb reset
      \<lparr>filter_level = level, filter_pattern = pattern, filter_limit = Some limit, filter_after_seq = after\<rparr> b"
    using assms unfolding handle_logs_tail_def Let_def limit_def [symmetric] mb_def [symmetric]
    by (auto split: sum.splits prod.splits)
  then obtain flt where flt: "filter_limit flt = Some limit" and reply: "r = tail_reply mb reset flt b"
    and req: "tail_level level_p = Inr (filter_level flt)" "tail_pattern compile pattern_p = Inr (filter_pattern flt)"
    by (metis LogFilter.select_convs(1,2,3))
  obtain es t where trim: "trim_entries_by_bytes (result_entries (log_query flt b)) mb = (es, t)"
    by fastforce
  then have r: "tail_entries r = es" by (simp add: reply tail_reply_def Let_def)
  define qs where "qs = filter (filter_matches flt) (lb_entries b)"
  have q: "result_entries (log_query flt b) = drop (length qs - limit) qs"
    by (simp add: log_query_def Let_def flt qs_def)
  from trim_entries_spec [OF trim bounds(2)] obtain k where
    k: "length es \<le> length (drop (length qs - limit) qs)" "length es \<le> 1 \<or> message_bytes es \<le> mb"
      "es = drop k (drop (length qs - limit) qs)"
    unfolding q by blast
  have "length es \<le> 5000" using k(1) bounds(1) by simp
  moreover have "es = drop (k + (length qs - limit)) qs" using k(3) by simp
  ultimately show ?thesis using k(2) bounds(3) req unfolding r qs_def by (metis le_trans)
qed

definition ex_buffer :: "unit LogBuffer" where
  "ex_buffer = write_log (ex_line 1) (LogBuffer_with_capacity 2)"

lemma ex_buffer_eq: "ex_buffer = \<lparr>lb_entries = full_log 1 [ex_line 1], lb_capacity = 2, lb_next_seq = 2\<rparr>"
  by (simp add: ex_buffer_def write_log_def push_with_seq_def LogBuffer_with_capacity_def
      MAX_BUFFER_CAPACITY_def u64_add_def u64_max_def)

lemmas ex_tail = handle_logs_tail_def tail_position_def tail_level_def tail_pattern_def tail_reply_def
  ex_buffer_eq log_len_def current_seq_def u64_saturating_sub_def log_query_def filter_matches_def
  trim_entries_by_bytes_def ex_line_def Let_def

theorem logs_tail_reply_bounded_witness:
  "\<exists>r. handle_logs_tail (\<lambda>_. None) None None None None None ex_buffer = Inr r \<and> length (tail_entries r) \<le> 5000"
proof -
  obtain r where r: "handle_logs_tail (\<lambda>_. None) None None None None None ex_buffer = Inr r"
    by (simp add: handle_logs_tail_def tail_level_def tail_pattern_def case_prod_beta)
  with logs_tail_reply_bounded [OF r] show ?thesis by blast
qed

text \<open>
  A client that follows the log by passing on the reply's cursor is sent entries again: a poll that
  finds nothing new answers with cursor 0, and the next poll, with that cursor, is taken as out of
  date and gets everything once more.
\<close>

lemma logs_tail_repeats_after_idle_poll:
  "\<exists>r1 r2. handle_logs_tail compile None None (Some 1) None None ex_buffer = Inr r1 \<and> tail_entries r1 = [] \<and>
     handle_logs_tail compile None None (Some (int (tail_cursor r1))) None None ex_buffer = Inr r2 \<and>
     tail_reset r2 \<and> tail_entries r2 = full_log 1 [ex_line 1]"
  by (simp add: ex_tail)

end
