(* ===== verification/Csrf_Guard.thy ===== *)
theory Csrf_Guard
  imports Gateway_Auth
begin

text \<open>
  Protection of the control routes against cross-site requests (\<^verbatim>\<open>src/server/csrf.rs\<close>): the token store,
  the check of the origin, the middleware and the cookies of the control page.

  Instants are nanoseconds of the monotonic clock. Random bytes come, already encoded, as an argument;
  \<open>None\<close> is a failure of the system's generator. Header maps are the record \<open>http_headers\<close> of
  \<open>Gateway_Auth\<close>, and \<open>H\<close> is SHA-256.
\<close>

subsection \<open>Configuration\<close>

datatype CsrfError =
    TokenMissing | TokenInvalid | TokenExpired | GenerationFailed
  | OriginMismatch string string | OriginMissing | OriginHostMissing

datatype SameSite = SameSite_Strict | SameSite_Lax | SameSite_None

record CsrfConfig =
  cookie_name :: string
  header_name :: string
  token_ttl :: nat
  check_origin :: bool
  allowed_origins :: "string list"
  protected_prefixes :: "string list"
  csrf_enabled :: bool
  secure_cookie :: bool
  same_site :: SameSite

definition CsrfConfig_default :: CsrfConfig where
  "CsrfConfig_default =
     \<lparr>cookie_name = ''__Host-csrf'', header_name = ''x-csrf-token'', token_ttl = 3600 * 1000000000,
      check_origin = True, allowed_origins = [], protected_prefixes = [''/control/''],
      csrf_enabled = True, secure_cookie = True, same_site = SameSite_Strict\<rparr>"

definition requires_protection :: "CsrfConfig \<Rightarrow> string \<Rightarrow> bool" where
  "requires_protection c path = list_ex (starts_with path) (protected_prefixes c)"

subsection \<open>The token store\<close>

record CsrfToken =
  token_value :: string
  token_created_at :: nat
  token_lifetime :: nat

definition is_expired :: "nat \<Rightarrow> CsrfToken \<Rightarrow> bool" where
  "is_expired now t \<longleftrightarrow> now - token_created_at t > token_lifetime t"

record CsrfTokenStore =
  csrf_tokens :: "(string, CsrfToken) hmap"
  csrf_config :: CsrfConfig

definition CsrfTokenStore_new :: "CsrfConfig \<Rightarrow> CsrfTokenStore" where
  "CsrfTokenStore_new c = \<lparr>csrf_tokens = [], csrf_config = c\<rparr>"

definition generate_token ::
    "nat \<Rightarrow> string option \<Rightarrow> string \<Rightarrow> CsrfTokenStore \<Rightarrow> (CsrfError + CsrfToken) \<times> CsrfTokenStore" where
  "generate_token now random session_id st =
     (case random of
        None \<Rightarrow> (Inl GenerationFailed, st)
      | Some value \<Rightarrow>
          (let token = \<lparr>token_value = value, token_created_at = now, token_lifetime = token_ttl (csrf_config st)\<rparr>;
               m = hm_insert session_id token (csrf_tokens st);
               m = (if length m > 1000 then hm_retain (\<lambda>_ t. \<not> is_expired now t) m else m)
           in (Inr token, st\<lparr>csrf_tokens := m\<rparr>)))"

definition validate_token ::
    "(string \<Rightarrow> string) \<Rightarrow> nat \<Rightarrow> string \<Rightarrow> string \<Rightarrow> CsrfTokenStore \<Rightarrow> CsrfError + unit" where
  "validate_token H now session_id provided st =
     (case hm_get (csrf_tokens st) session_id of
        None \<Rightarrow> Inl TokenMissing
      | Some stored \<Rightarrow>
          if is_expired now stored then Inl TokenExpired
          else if \<not> timing_safe_eq H (token_value stored) provided then Inl TokenInvalid
          else Inr ())"

definition get_token :: "nat \<Rightarrow> string \<Rightarrow> CsrfTokenStore \<Rightarrow> CsrfToken option" where
  "get_token now session_id st =
     (case hm_get (csrf_tokens st) session_id of
        None \<Rightarrow> None | Some t \<Rightarrow> if is_expired now t then None else Some t)"

definition revoke_token :: "string \<Rightarrow> CsrfTokenStore \<Rightarrow> CsrfTokenStore" where
  "revoke_token session_id st = st\<lparr>csrf_tokens := hm_remove session_id (csrf_tokens st)\<rparr>"

subsection \<open>Reading a request\<close>

definition rsplit_once :: "char \<Rightarrow> string \<Rightarrow> (string \<times> string) option" where
  "rsplit_once c s = map_option (\<lambda>(b, a). (rev a, rev b)) (split_once c (rev s))"

definition header_text :: "'v http_headers \<Rightarrow> string \<Rightarrow> string option" where
  "header_text hs n = Option.bind (header_get hs n) (header_to_str hs)"

fun first_some :: "('a \<Rightarrow> 'b option) \<Rightarrow> 'a list \<Rightarrow> 'b option" where
  "first_some f [] = None"
| "first_some f (x # xs) = (case f x of Some y \<Rightarrow> Some y | None \<Rightarrow> first_some f xs)"

definition extract_cookie_value :: "'v http_headers \<Rightarrow> string \<Rightarrow> string option" where
  "extract_cookie_value hs name =
     (case header_text hs ''cookie'' of
        None \<Rightarrow> None
      | Some s \<Rightarrow> first_some (strip_prefix (name @ ''='')) (map trim (split_by (\<lambda>c. c = CHR '';'') s)))"

definition csrf_cookie_name :: "CsrfConfig \<Rightarrow> string" where
  "csrf_cookie_name c =
     (if secure_cookie c then cookie_name c
      else case strip_prefix ''__Host-'' (cookie_name c) of Some n \<Rightarrow> n | None \<Rightarrow> cookie_name c)"

definition session_cookie_name :: "CsrfConfig \<Rightarrow> string" where
  "session_cookie_name c = (if secure_cookie c then ''__Host-session'' else ''session'')"

definition extract_session_id :: "'v http_headers \<Rightarrow> CsrfConfig \<Rightarrow> string option" where
  "extract_session_id hs c = extract_cookie_value hs (session_cookie_name c)"

definition extract_csrf_token :: "'v http_headers \<Rightarrow> CsrfConfig \<Rightarrow> string option" where
  "extract_csrf_token hs c = header_text hs (header_name c)"

definition strip_authority_port :: "string \<Rightarrow> string" where
  "strip_authority_port s =
     (case s of
        CHR ''['' # after \<Rightarrow>
          if CHR '']'' \<in> set after then CHR ''['' # takeWhile (\<lambda>c. c \<noteq> CHR '']'') after @ '']'' else s
      | _ \<Rightarrow> (case rsplit_once (CHR '':'') s of None \<Rightarrow> s | Some (host, _) \<Rightarrow> host))"

definition scheme_len :: "string \<Rightarrow> nat option" where
  "scheme_len raw =
     (if length raw \<ge> 7 \<and> eq_ignore_ascii_case (take 7 raw) ''http://'' then Some 7
      else if length raw \<ge> 8 \<and> eq_ignore_ascii_case (take 8 raw) ''https://'' then Some 8
      else None)"

definition normalize_origin_for_allowlist :: "string \<Rightarrow> string" where
  "normalize_origin_for_allowlist raw =
     (case scheme_len raw of
        None \<Rightarrow> raw
      | Some n \<Rightarrow> to_ascii_lowercase
          (take n raw @ takeWhile (\<lambda>c. c \<notin> {CHR ''/'', CHR ''?'', CHR ''#''}) (drop n raw)))"

text \<open>The host part of an origin, as the comparison with the request's own host takes it.\<close>

definition origin_host :: "string \<Rightarrow> string" where
  "origin_host origin =
     strip_authority_port (hd (split_by (\<lambda>c. c = CHR ''/'')
       (case scheme_len origin of None \<Rightarrow> origin | Some n \<Rightarrow> drop n origin)))"

datatype OriginCheck = OriginOk | OriginAbsent | Mismatch CsrfError

definition request_origin :: "'v http_headers \<Rightarrow> string option" where
  "request_origin hs =
     (case header_text hs ''origin'' of Some s \<Rightarrow> Some s | None \<Rightarrow> header_text hs ''referer'')"

definition check_origin_state :: "'v http_headers \<Rightarrow> CsrfConfig \<Rightarrow> string option \<Rightarrow> OriginCheck" where
  "check_origin_state hs c host =
     (if \<not> check_origin c then OriginOk
      else case request_origin hs of
        None \<Rightarrow> OriginAbsent
      | Some origin \<Rightarrow>
          if allowed_origins c \<noteq> [] \<and>
             list_ex (\<lambda>a. normalize_origin_for_allowlist a = normalize_origin_for_allowlist origin) (allowed_origins c)
          then OriginOk
          else (case host of
              None \<Rightarrow> Mismatch OriginHostMissing
            | Some h \<Rightarrow>
                (let oh = origin_host origin;
                     dh = CHR ''.'' # h
                 in if eq_ignore_ascii_case oh h then OriginOk
                    else if length oh > length dh \<and> eq_ignore_ascii_case (drop (length oh - length dh) oh) dh
                    then OriginOk
                    else Mismatch (OriginMismatch h oh))))"

subsection \<open>The middleware\<close>

datatype http_method = GET | HEAD | OPTIONS | POST | PUT | DELETE | PATCH | OtherMethod string

definition should_validate_csrf :: "http_method \<Rightarrow> string \<Rightarrow> CsrfConfig \<Rightarrow> bool" where
  "should_validate_csrf m path c \<longleftrightarrow> m \<in> {POST, PUT, DELETE, PATCH} \<and> requires_protection c path"

definition extract_origin_session_and_token ::
    "'v http_headers \<Rightarrow> CsrfConfig \<Rightarrow> CsrfError + (string \<times> string) option" where
  "extract_origin_session_and_token hs c =
     (let host = map_option strip_authority_port (header_text hs ''host'');
          origin_state = check_origin_state hs c host
      in case origin_state of
           Mismatch e \<Rightarrow> Inl e
         | _ \<Rightarrow>
             (case extract_session_id hs c of
                None \<Rightarrow> Inr None
              | Some session_id \<Rightarrow>
                  if origin_state = OriginAbsent then Inl OriginMissing
                  else (case extract_csrf_token hs c of
                          None \<Rightarrow> Inl TokenMissing
                        | Some provided \<Rightarrow> Inr (Some (session_id, provided)))))"

definition extract_and_validate_token ::
    "(string \<Rightarrow> string) \<Rightarrow> nat \<Rightarrow> 'v http_headers \<Rightarrow> CsrfTokenStore \<Rightarrow> CsrfError + unit" where
  "extract_and_validate_token H now hs st =
     (case extract_origin_session_and_token hs (csrf_config st) of
        Inl e \<Rightarrow> Inl e
      | Inr None \<Rightarrow> Inr ()
      | Inr (Some (session_id, provided)) \<Rightarrow> validate_token H now session_id provided st)"

fun csrf_error_message :: "CsrfError \<Rightarrow> string" where
  "csrf_error_message TokenMissing = ''CSRF token missing''"
| "csrf_error_message TokenInvalid = ''CSRF token invalid''"
| "csrf_error_message TokenExpired = ''CSRF token expired''"
| "csrf_error_message (OriginMismatch _ _) = ''Origin mismatch''"
| "csrf_error_message OriginMissing = ''Origin missing''"
| "csrf_error_message OriginHostMissing = ''Origin host missing''"
| "csrf_error_message GenerationFailed = ''Internal error''"

datatype csrf_response = NextHandler | Forbidden string

definition csrf_middleware ::
    "(string \<Rightarrow> string) \<Rightarrow> nat \<Rightarrow> http_method \<Rightarrow> string \<Rightarrow> 'v http_headers \<Rightarrow> CsrfTokenStore \<Rightarrow> csrf_response" where
  "csrf_middleware H now m path hs st =
     (if \<not> csrf_enabled (csrf_config st) then NextHandler
      else if \<not> should_validate_csrf m path (csrf_config st) then NextHandler
      else (case extract_and_validate_token H now hs st of
              Inl e \<Rightarrow> Forbidden (csrf_error_message e)
            | Inr _ \<Rightarrow> NextHandler))"

subsection \<open>Cookies of the control page\<close>

fun same_site_name :: "SameSite \<Rightarrow> string" where
  "same_site_name SameSite_Strict = ''Strict''"
| "same_site_name SameSite_Lax = ''Lax''"
| "same_site_name SameSite_None = ''None''"

definition csrf_cookie_header :: "CsrfToken \<Rightarrow> CsrfConfig \<Rightarrow> string" where
  "csrf_cookie_header t c =
     csrf_cookie_name c @ ''='' @ token_value t @ ''; Path=/; SameSite='' @ same_site_name (same_site c) @
     (if secure_cookie c then ''; Secure'' else '''') @ ''; Max-Age='' @ string_of_nat (token_ttl c div 1000000000)"

definition session_cookie_header :: "string \<Rightarrow> CsrfConfig \<Rightarrow> string" where
  "session_cookie_header session_id c =
     session_cookie_name c @ ''='' @ session_id @ ''; Path=/; HttpOnly; SameSite='' @ same_site_name (same_site c) @
     (if secure_cookie c then ''; Secure'' else '''') @ ''; Max-Age='' @ string_of_nat (token_ttl c div 1000000000)"

text \<open>\<^verbatim>\<open>unwrap_or\<close> takes its argument by value: a token is generated, and stored, also when the session has
  one. The first random value is the session's identifier, the second the token.\<close>

definition ensure_csrf_cookies ::
    "nat \<Rightarrow> string option \<Rightarrow> string option \<Rightarrow> 'v http_headers \<Rightarrow> CsrfTokenStore \<Rightarrow>
     (CsrfError + string list) \<times> CsrfTokenStore" where
  "ensure_csrf_cookies now random1 random2 hs st =
     (let c = csrf_config st
      in if \<not> csrf_enabled c then (Inr [], st)
         else (case (case extract_session_id hs c of Some i \<Rightarrow> Some i | None \<Rightarrow> random1) of
             None \<Rightarrow> (Inl GenerationFailed, st)
           | Some session_id \<Rightarrow>
               (let session_cookies = (if extract_session_id hs c = None then [session_cookie_header session_id c] else []);
                    current = get_token now session_id st
                in case generate_token now random2 session_id st of
                     (Inl e, st) \<Rightarrow> (Inl e, st)
                   | (Inr fresh, st) \<Rightarrow>
                       (let token = (case current of Some t \<Rightarrow> t | None \<Rightarrow> fresh)
                        in (Inr (session_cookies @
                             (if extract_cookie_value hs (csrf_cookie_name c) = Some (token_value token) then []
                              else [csrf_cookie_header token c])), st)))))"

subsection \<open>What the guard lets through\<close>

text \<open>A trusted origin: listed in the configuration, or on the request's own host or below it.\<close>

definition below_host :: "string \<Rightarrow> string \<Rightarrow> bool" where
  "below_host oh h \<longleftrightarrow> (\<exists>sub. sub \<noteq> [] \<and> to_ascii_lowercase oh = sub @ CHR ''.'' # to_ascii_lowercase h)"

definition origin_trusted :: "CsrfConfig \<Rightarrow> string option \<Rightarrow> string \<Rightarrow> bool" where
  "origin_trusted c host origin \<longleftrightarrow>
     (\<exists>a \<in> set (allowed_origins c). normalize_origin_for_allowlist a = normalize_origin_for_allowlist origin) \<or>
     (\<exists>h. host = Some h \<and> (eq_ignore_ascii_case (origin_host origin) h \<or> below_host (origin_host origin) h))"

lemma length_to_ascii_lowercase [simp]: "length (to_ascii_lowercase s) = length s"
  by (simp add: to_ascii_lowercase_def)

lemma to_ascii_lowercase_append: "to_ascii_lowercase (a @ b) = to_ascii_lowercase a @ to_ascii_lowercase b"
  by (simp add: to_ascii_lowercase_def)

lemma to_ascii_lowercase_dot: "to_ascii_lowercase (CHR ''.'' # s) = CHR ''.'' # to_ascii_lowercase s"
  by (simp add: to_ascii_lowercase_def)

lemma below_host_iff:
  "below_host oh h \<longleftrightarrow>
     length oh > Suc (length h) \<and> eq_ignore_ascii_case (drop (length oh - Suc (length h)) oh) (CHR ''.'' # h)"
proof
  assume "below_host oh h"
  then obtain sub where s: "sub \<noteq> []" "to_ascii_lowercase oh = sub @ CHR ''.'' # to_ascii_lowercase h"
    by (auto simp: below_host_def)
  then have l: "length oh = length sub + Suc (length h)"
    by (metis length_Cons length_append length_to_ascii_lowercase)
  have "to_ascii_lowercase (drop (length sub) oh) = drop (length sub) (to_ascii_lowercase oh)"
    by (simp add: to_ascii_lowercase_def drop_map)
  with s l show "length oh > Suc (length h) \<and>
      eq_ignore_ascii_case (drop (length oh - Suc (length h)) oh) (CHR ''.'' # h)"
    by (simp add: eq_ignore_ascii_case_def to_ascii_lowercase_dot)
next
  let ?n = "length oh - Suc (length h)"
  assume a: "length oh > Suc (length h) \<and> eq_ignore_ascii_case (drop ?n oh) (CHR ''.'' # h)"
  then have "to_ascii_lowercase oh = to_ascii_lowercase (take ?n oh) @ CHR ''.'' # to_ascii_lowercase h"
    using to_ascii_lowercase_append [of "take ?n oh" "drop ?n oh"]
    by (simp add: eq_ignore_ascii_case_def to_ascii_lowercase_dot)
  moreover have "to_ascii_lowercase (take ?n oh) \<noteq> []" using a by (auto simp: to_ascii_lowercase_def)
  ultimately show "below_host oh h" by (auto simp: below_host_def)
qed

lemma check_origin_state_cases:
  assumes "check_origin c"
  shows "check_origin_state hs c host = OriginAbsent \<longleftrightarrow> request_origin hs = None"
    "check_origin_state hs c host = OriginOk \<longleftrightarrow> (\<exists>origin. request_origin hs = Some origin \<and> origin_trusted c host origin)"
  using assms
  by (auto simp: check_origin_state_def Let_def origin_trusted_def below_host_iff list_ex_iff
      split: option.splits if_splits)

lemma validate_token_ok:
  assumes "\<forall>s. length (H s) = 32"
  shows "validate_token H now i p st = Inr () \<longleftrightarrow>
    (\<exists>t. hm_get (csrf_tokens st) i = Some t \<and> now - token_created_at t \<le> token_lifetime t \<and>
         H (token_value t) = H p)"
  using assms by (auto simp: validate_token_def is_expired_def timing_safe_eq_iff split: option.split)


lemma length_ex_digest: "\<forall>s. length (ex_digest s) = 32"
  by (auto simp: ex_digest_def)


subsection \<open>The token of the control page\<close>

lemma generate_token_get:
  assumes "generate_token now (Some value) i st = (r, st')" "hm_wf (csrf_tokens st)"
  shows "r = Inr \<lparr>token_value = value, token_created_at = now, token_lifetime = token_ttl (csrf_config st)\<rparr>"
    "hm_get (csrf_tokens st') i =
       Some \<lparr>token_value = value, token_created_at = now, token_lifetime = token_ttl (csrf_config st)\<rparr>"
    "csrf_config st' = csrf_config st" "hm_wf (csrf_tokens st')"
  using assms by (auto simp: generate_token_def Let_def hm_simps hm_wf_rules is_expired_def)

text \<open>
  The first visit of the control page gives out a token that works: for a session without a valid token
  the response sets a cookie with the fresh token, and that token is accepted for this session until its
  lifetime is over.
\<close>

theorem csrf_first_visit_token_works:
  assumes "\<forall>s. length (H s) = 32" "csrf_enabled (csrf_config st)" "hm_wf (csrf_tokens st)"
    "extract_session_id hs (csrf_config st) = Some i" "get_token now i st = None"
    "extract_cookie_value hs (csrf_cookie_name (csrf_config st)) \<noteq> Some value"
    "now \<le> later" "later - now \<le> token_ttl (csrf_config st)"
  shows "fst (ensure_csrf_cookies now r (Some value) hs st) = Inr [csrf_cookie_header
      \<lparr>token_value = value, token_created_at = now, token_lifetime = token_ttl (csrf_config st)\<rparr> (csrf_config st)] \<and>
    validate_token H later i value (snd (ensure_csrf_cookies now r (Some value) hs st)) = Inr ()"
proof -
  obtain res st' where g: "generate_token now (Some value) i st = (res, st')" by force
  note get = generate_token_get [OF g assms(3)]
  from assms(2,4-6) get(1) g show ?thesis
    by (auto simp: ensure_csrf_cookies_def Let_def validate_token_ok [OF assms(1)] get(2) assms(8))
qed

text \<open>A visit of the page by the session \<^verbatim>\<open>s1\<close>, with or without the cookie of the token.\<close>

definition ex_visit :: "string \<Rightarrow> string http_headers" where
  "ex_visit cookie = ex_headers [(''cookie'', cookie)]"

lemma ex_visit_cookies:
  "extract_session_id (ex_visit ''__Host-session=s1'') CsrfConfig_default = Some ''s1''"
  "extract_cookie_value (ex_visit ''__Host-session=s1'') ''__Host-csrf'' = None"
  by (simp_all add: extract_session_id_def session_cookie_name_def extract_cookie_value_def header_text_def
      ex_visit_def ex_headers_def CsrfConfig_default_def trim_def is_ascii_ws_def strip_prefix_def starts_with_def)

theorem csrf_first_visit_token_works_witness:
  "validate_token ex_digest 9 ''s1'' ''t1''
     (snd (ensure_csrf_cookies 4 None (Some ''t1'') (ex_visit ''__Host-session=s1'') (CsrfTokenStore_new CsrfConfig_default)))
   = Inr ()"
proof -
  let ?st = "CsrfTokenStore_new CsrfConfig_default"
  have "csrf_config ?st = CsrfConfig_default" "hm_wf (csrf_tokens ?st)" "get_token 4 ''s1'' ?st = None"
    by (simp_all add: CsrfTokenStore_new_def get_token_def)
  moreover have "csrf_cookie_name CsrfConfig_default = ''__Host-csrf''" "csrf_enabled CsrfConfig_default"
    "token_ttl CsrfConfig_default = 3600000000000"
    by (simp_all add: csrf_cookie_name_def CsrfConfig_default_def)
  moreover note length_ex_digest
  ultimately show ?thesis
    using csrf_first_visit_token_works [of ex_digest ?st "ex_visit ''__Host-session=s1''" "''s1''" 4 "''t1''" 9 None]
    by (simp add: ex_visit_cookies)
qed

text \<open>
  C26: A second visit locks the page out. If the session has a valid token, loading the page once more stores
  a new token under the session but gives out the old one (or leaves the old cookie in place). Whatever token
  the browser then sends, the one it had or the one it was given, is refused as invalid, unless the digests of
  the two tokens collide.
\<close>

theorem csrf_second_visit_refused:
  assumes "\<forall>s. length (H s) = 32" "csrf_enabled (csrf_config st)" "hm_wf (csrf_tokens st)"
    "extract_session_id hs (csrf_config st) = Some i" "get_token now i st = Some t"
    "H value \<noteq> H (token_value t)" "now \<le> later" "later - now \<le> token_ttl (csrf_config st)"
  shows "\<exists>cookies. fst (ensure_csrf_cookies now r (Some value) hs st) = Inr cookies \<and>
    set cookies \<subseteq> {csrf_cookie_header t (csrf_config st)} \<and>
    validate_token H later i (token_value t) (snd (ensure_csrf_cookies now r (Some value) hs st)) = Inl TokenInvalid"
proof -
  obtain res st' where g: "generate_token now (Some value) i st = (res, st')" by force
  note get = generate_token_get [OF g assms(3)]
  have "validate_token H later i (token_value t) st' = Inl TokenInvalid"
    using assms(1,6,8) by (simp add: validate_token_def get(2) is_expired_def timing_safe_eq_iff)
  with assms(2,4,5) get(1) g show ?thesis by (auto simp: ensure_csrf_cookies_def Let_def)
qed

theorem csrf_second_visit_refused_witness:
  "validate_token ex_digest 9 ''s1'' ''t1''
     (snd (ensure_csrf_cookies 6 None (Some ''t2'') (ex_visit ''__Host-session=s1'')
       (snd (generate_token 4 (Some ''t1'') ''s1'' (CsrfTokenStore_new CsrfConfig_default))))) = Inl TokenInvalid"
proof -
  let ?t = "\<lparr>token_value = ''t1'', token_created_at = 4, token_lifetime = 3600 * 1000000000\<rparr>"
  let ?st = "snd (generate_token 4 (Some ''t1'') ''s1'' (CsrfTokenStore_new CsrfConfig_default))"
  have st: "?st = \<lparr>csrf_tokens = [(''s1'', ?t)], csrf_config = CsrfConfig_default\<rparr>"
    by (simp add: generate_token_def CsrfTokenStore_new_def CsrfConfig_default_def hm_insert_def Let_def)
  have "hm_wf (csrf_tokens ?st)" "get_token 6 ''s1'' ?st = Some ?t" "csrf_config ?st = CsrfConfig_default"
    unfolding st by (simp_all add: hm_wf_def get_token_def hm_get_def is_expired_def)
  moreover have "csrf_enabled CsrfConfig_default" "token_ttl CsrfConfig_default = 3600000000000"
    by (simp_all add: CsrfConfig_default_def)
  moreover have "ex_digest ''t2'' \<noteq> ex_digest ''t1''" by (simp add: ex_digest_def)
  moreover note length_ex_digest
  ultimately show ?thesis
    using csrf_second_visit_refused [of ex_digest ?st "ex_visit ''__Host-session=s1''" "''s1''" 6 ?t "''t2''" 9 None]
    by (auto simp: ex_visit_cookies)
qed

text \<open>
  The two parsers of origins differ: the list of allowed origins ends the authority at a slash, a question
  mark or a hash sign, the comparison with the request's own host only at a slash. An address with a query
  and no path counts as a name below the host that ends the query.
\<close>

lemma origin_query_taken_for_host:
  "check_origin_state (ex_headers [(''referer'', ''http://evil?.gw'')]) CsrfConfig_default (Some ''gw'') = OriginOk"
  by (simp add: check_origin_state_def request_origin_def header_text_def ex_headers_def CsrfConfig_default_def
      origin_host_def scheme_len_def eq_ignore_ascii_case_def to_ascii_lowercase_def strip_authority_port_def
      rsplit_once_def split_once_def)

end
