(* ===== verification/Plugin_Capabilities.thy ===== *)
theory Plugin_Capabilities
  imports Net_Address
begin

text \<open>
  What a WebAssembly plugin may reach (\<^verbatim>\<open>src/plugins/capabilities.rs\<close>): request and log quotas per minute,
  the name spaces of credentials and configuration, and the filter against requests into the private network;
  with the form of plugin identifiers from \<^verbatim>\<open>src/plugins/loader.rs\<close>.

  The clock is in seconds. The URL parser is the parameter \<open>parse\<close>, which gives scheme and host of a URL;
  the text of a refusal names the host as the URL has it, without the parser's own message.
\<close>

subsection \<open>Quotas\<close>

datatype CapabilityError =
    CredentialAccessDenied string
  | ConfigAccessDenied string
  | SsrfBlocked string
  | HttpRateLimitExceeded nat
  | LogRateLimitExceeded nat
  | InvalidUrl string
  | ProtocolNotAllowed string

definition HTTP_RATE_LIMIT_PER_MINUTE :: usize where
  "HTTP_RATE_LIMIT_PER_MINUTE = 100"

definition LOG_RATE_LIMIT_PER_MINUTE :: usize where
  "LOG_RATE_LIMIT_PER_MINUTE = 1000"

record PluginRateLimiter =
  http_requests :: "u64 list"
  log_messages :: "u64 list"

definition PluginRateLimiter_new :: PluginRateLimiter where
  "PluginRateLimiter_new = \<lparr>http_requests = [], log_messages = []\<rparr>"

definition prune_old_entries :: "u64 \<Rightarrow> PluginRateLimiter \<Rightarrow> PluginRateLimiter" where
  "prune_old_entries now l =
     (let cutoff = u64_saturating_sub now 60
      in l\<lparr>http_requests := filter (\<lambda>ts. ts > cutoff) (http_requests l),
           log_messages := filter (\<lambda>ts. ts > cutoff) (log_messages l)\<rparr>)"

definition check_http_request_with_limit ::
    "u64 \<Rightarrow> usize \<Rightarrow> PluginRateLimiter \<Rightarrow> (CapabilityError + unit) \<times> PluginRateLimiter" where
  "check_http_request_with_limit now max_per_minute l =
     (let l = prune_old_entries now l
      in if length (http_requests l) \<ge> max_per_minute then (Inl (HttpRateLimitExceeded max_per_minute), l)
         else (Inr (), l\<lparr>http_requests := http_requests l @ [now]\<rparr>))"

definition check_log_message :: "u64 \<Rightarrow> PluginRateLimiter \<Rightarrow> (CapabilityError + unit) \<times> PluginRateLimiter" where
  "check_log_message now l =
     (let l = prune_old_entries now l
      in if length (log_messages l) \<ge> LOG_RATE_LIMIT_PER_MINUTE
         then (Inl (LogRateLimitExceeded LOG_RATE_LIMIT_PER_MINUTE), l)
         else (Inr (), l\<lparr>log_messages := log_messages l @ [now]\<rparr>))"

type_synonym RateLimiterRegistry = "(string, PluginRateLimiter) hmap"

definition limiter_of :: "RateLimiterRegistry \<Rightarrow> string \<Rightarrow> PluginRateLimiter" where
  "limiter_of R plugin_id = (case hm_get R plugin_id of Some l \<Rightarrow> l | None \<Rightarrow> PluginRateLimiter_new)"

definition registry_check_http ::
    "u64 \<Rightarrow> string \<Rightarrow> usize \<Rightarrow> RateLimiterRegistry \<Rightarrow> (CapabilityError + unit) \<times> RateLimiterRegistry" where
  "registry_check_http now plugin_id max_per_minute R =
     (let (r, l) = check_http_request_with_limit now max_per_minute (limiter_of R plugin_id)
      in (r, hm_insert plugin_id l R))"

definition registry_check_log ::
    "u64 \<Rightarrow> string \<Rightarrow> RateLimiterRegistry \<Rightarrow> (CapabilityError + unit) \<times> RateLimiterRegistry" where
  "registry_check_log now plugin_id R =
     (let (r, l) = check_log_message now (limiter_of R plugin_id)
      in (r, hm_insert plugin_id l R))"

subsection \<open>Name spaces\<close>

definition RESERVED_PLUGIN_CONFIG_KEYS :: "string list" where
  "RESERVED_PLUGIN_CONFIG_KEYS = [''enabled'', ''entries'', ''load'', ''sandbox'', ''signature'']"

definition is_reserved_plugin_id :: "string \<Rightarrow> bool" where
  "is_reserved_plugin_id i \<longleftrightarrow> i \<in> set RESERVED_PLUGIN_CONFIG_KEYS"

definition is_ascii_lowercase :: "char \<Rightarrow> bool" where
  "is_ascii_lowercase c \<longleftrightarrow> (let n = (of_char c :: nat) in 97 \<le> n \<and> n \<le> 122)"

definition is_ascii_digit :: "char \<Rightarrow> bool" where
  "is_ascii_digit c \<longleftrightarrow> (let n = (of_char c :: nat) in 48 \<le> n \<and> n \<le> 57)"

definition is_valid_plugin_id :: "string \<Rightarrow> bool" where
  "is_valid_plugin_id i \<longleftrightarrow>
     i \<noteq> [] \<and> length i \<le> 32 \<and> \<not> is_reserved_plugin_id i \<and>
     list_all (\<lambda>c. is_ascii_lowercase c \<or> is_ascii_digit c \<or> c = CHR ''-'') i"

text \<open>\<^verbatim>\<open>str::replace\<close> of two dots, from left to right without overlap, and of single characters.\<close>

fun replace_dots :: "string \<Rightarrow> string" where
  "replace_dots (a # b # s) =
     (if a = CHR ''.'' \<and> b = CHR ''.'' then CHR ''_'' # replace_dots s else a # replace_dots (b # s))"
| "replace_dots s = s"

definition replace_chars :: "char set \<Rightarrow> string \<Rightarrow> string" where
  "replace_chars C = map (\<lambda>c. if c \<in> C then CHR ''_'' else c)"

definition sanitize_plugin_id :: "string \<Rightarrow> string" where
  "sanitize_plugin_id i = replace_chars {CHR ''/'', CHR 0x5C, CHR '':''} (replace_dots i)"

definition sanitize_key :: "string \<Rightarrow> string" where
  "sanitize_key k = replace_chars {CHR ''/'', CHR 0x5C} (replace_dots k)"

definition prefix_key :: "string \<Rightarrow> string \<Rightarrow> string" where
  "prefix_key plugin_id key = sanitize_plugin_id plugin_id @ '':'' @ sanitize_key key"

definition validate_key :: "string \<Rightarrow> CapabilityError + unit" where
  "validate_key key =
     (if length key > 64 then Inl (CredentialAccessDenied
          (''Key too long: '' @ string_of_nat (length key) @ '' chars (max 64)''))
      else if key = [] then Inl (CredentialAccessDenied ''Key cannot be empty'')
      else Inr ())"

definition full_key :: "string \<Rightarrow> string \<Rightarrow> string" where
  "full_key plugin_id key = ''plugins.'' @ plugin_id @ ''.'' @ key"

definition check_access :: "string \<Rightarrow> string \<Rightarrow> CapabilityError + unit" where
  "check_access plugin_id key =
     (let allowed_prefix = ''plugins.'' @ plugin_id @ ''.''
      in if \<not> starts_with key allowed_prefix
         then Inl (ConfigAccessDenied (''Plugin '' @ [CHR 0x27] @ plugin_id @ [CHR 0x27] @
                '' can only access keys under '' @ [CHR 0x27] @ allowed_prefix @ [CHR 0x27]))
         else Inr ())"

subsection \<open>Private addresses\<close>

record SsrfConfig =
  allow_tailscale :: bool

definition SsrfConfig_default :: SsrfConfig where
  "SsrfConfig_default = \<lparr>allow_tailscale = False\<rparr>"

fun is_tailscale_ip :: "ipv4 \<Rightarrow> bool" where
  "is_tailscale_ip (a, b, c, d) \<longleftrightarrow> a = 100 \<and> 64 \<le> b \<and> b \<le> 127"

fun is_private_ipv4_with_config :: "SsrfConfig \<Rightarrow> ipv4 \<Rightarrow> bool" where
  "is_private_ipv4_with_config cfg (a, b, c, d) \<longleftrightarrow>
     a = 10 \<or>
     (a = 172 \<and> 16 \<le> b \<and> b \<le> 31) \<or>
     (a = 192 \<and> b = 168) \<or>
     a = 127 \<or>
     (a = 169 \<and> b = 254) \<or>
     a = 0 \<or>
     (is_tailscale_ip (a, b, c, d) \<and> \<not> allow_tailscale cfg) \<or>
     (a = 192 \<and> b = 0 \<and> c = 0) \<or>
     (a = 192 \<and> b = 0 \<and> c = 2) \<or>
     (a = 198 \<and> b = 51 \<and> c = 100) \<or>
     (a = 203 \<and> b = 0 \<and> c = 113) \<or>
     (224 \<le> a \<and> a \<le> 239) \<or>
     240 \<le> a"

definition is_private_ipv4 :: "ipv4 \<Rightarrow> bool" where
  "is_private_ipv4 ip = is_private_ipv4_with_config SsrfConfig_default ip"

definition is_private_ipv6 :: "ipv6 \<Rightarrow> bool" where
  "is_private_ipv6 g \<longleftrightarrow>
     (if v6_is_loopback g then True
      else if g = [0, 0, 0, 0, 0, 0, 0, 0] then True
      else if and (g ! 0) 0xfe00 = 0xfc00 then True
      else if and (g ! 0) 0xffc0 = 0xfe80 then True
      else if and (g ! 0) 0xff00 = 0xff00 then True
      else if g ! 0 = 0 \<and> g ! 1 = 0 \<and> g ! 2 = 0 \<and> g ! 3 = 0 \<and> g ! 4 = 0 \<and> g ! 5 = 0xffff
      then is_private_ipv4 (drop_bit 8 (g ! 6), and (g ! 6) 0xff, drop_bit 8 (g ! 7), and (g ! 7) 0xff)
      else g ! 0 = 0x2001 \<and> g ! 1 = 0x0db8)"

fun is_private_ip_with_config :: "SsrfConfig \<Rightarrow> IpAddr \<Rightarrow> bool" where
  "is_private_ip_with_config cfg (V4 a) = is_private_ipv4_with_config cfg a"
| "is_private_ip_with_config cfg (V6 g) = is_private_ipv6 g"

subsection \<open>Validation of URLs\<close>

definition parse_ipv4 :: "string \<Rightarrow> ipv4 option" where
  "parse_ipv4 s = complete read_ipv4_addr s"

definition parse_ipv6 :: "string \<Rightarrow> ipv6 option" where
  "parse_ipv6 s = complete read_ipv6_addr s"

definition bracket_inner :: "string \<Rightarrow> string option" where
  "bracket_inner host =
     (if starts_with host ''['' \<and> ends_with host '']'' then Some (butlast (tl host)) else None)"

definition is_localhost :: "string \<Rightarrow> bool" where
  "is_localhost host \<longleftrightarrow>
     (let host_lower = to_ascii_lowercase host
      in host_lower = ''localhost'' \<or> host_lower = ''localhost.localdomain'' \<or> ends_with host_lower ''.localhost'') \<or>
     (case parse_ipv4 host of Some ip \<Rightarrow> fst ip = 127 | None \<Rightarrow> False) \<or>
     (case parse_ipv6 host of Some ip \<Rightarrow> v6_is_loopback ip | None \<Rightarrow> False) \<or>
     (case Option.bind (bracket_inner host) parse_ipv6 of Some ip \<Rightarrow> v6_is_loopback ip | None \<Rightarrow> False)"

definition is_metadata_endpoint :: "string \<Rightarrow> bool" where
  "is_metadata_endpoint host \<longleftrightarrow>
     host = ''169.254.169.254'' \<or> host = ''fd00:ec2::254'' \<or> host = ''[fd00:ec2::254]'' \<or>
     host = ''instance-data'' \<or> ends_with host ''.internal'' \<or>
     host = ''metadata.google.internal'' \<or> host = ''metadata''"

record parsed_url =
  url_scheme :: string
  url_host :: "string option"

definition validate_url_with_config ::
    "(string \<Rightarrow> parsed_url option) \<Rightarrow> string \<Rightarrow> SsrfConfig \<Rightarrow> CapabilityError + unit" where
  "validate_url_with_config parse url cfg =
     (case parse url of
        None \<Rightarrow> Inl (InvalidUrl url)
      | Some u \<Rightarrow>
          if url_scheme u \<notin> {''http'', ''https''} then Inl (ProtocolNotAllowed (url_scheme u))
          else (case url_host u of
              None \<Rightarrow> Inl (InvalidUrl ''No host in URL'')
            | Some host \<Rightarrow>
                if is_localhost host then Inl (SsrfBlocked (''localhost address: '' @ host))
                else if is_metadata_endpoint host then Inl (SsrfBlocked (''cloud metadata endpoint: '' @ host))
                else if (case parse_ip_addr host of Some ip \<Rightarrow> is_private_ip_with_config cfg ip | None \<Rightarrow> False)
                then Inl (SsrfBlocked (''private IP address: '' @ host))
                else if (case Option.bind (bracket_inner host) parse_ipv6 of
                           Some ip \<Rightarrow> is_private_ip_with_config cfg (V6 ip) | None \<Rightarrow> False)
                then Inl (SsrfBlocked (''private IP address: '' @ host))
                else Inr ()))"

definition validate_resolved_ip_with_config :: "IpAddr \<Rightarrow> string \<Rightarrow> SsrfConfig \<Rightarrow> CapabilityError + unit" where
  "validate_resolved_ip_with_config ip original_host cfg =
     (if is_private_ip_with_config cfg ip
      then Inl (SsrfBlocked (''DNS '' @ original_host @ '' resolved to private IP''))
      else Inr ())"

subsection \<open>Quotas hold over every minute\<close>

text \<open>Requests of all plugins in the order in which the registry sees them: instant, plugin and the plugin's
  limit. The second component collects the instants at which the plugin \<open>p\<close> was let through.\<close>

fun http_step :: "string \<Rightarrow> u64 \<times> string \<times> usize \<Rightarrow> RateLimiterRegistry \<times> u64 list \<Rightarrow> RateLimiterRegistry \<times> u64 list" where
  "http_step p (t, q, m) (R, A) =
     (let (r, R') = registry_check_http t q m R in (R', if r = Inr () \<and> q = p then A @ [t] else A))"

definition window :: "nat \<Rightarrow> nat list \<Rightarrow> nat list" where
  "window s = filter (\<lambda>t. s < t \<and> t \<le> s + 60)"

definition quota_inv :: "string \<Rightarrow> nat \<Rightarrow> nat \<Rightarrow> RateLimiterRegistry \<times> u64 list \<Rightarrow> bool" where
  "quota_inv p M t s \<longleftrightarrow>
     (\<forall>now \<ge> t. filter (\<lambda>x. x > now - 60) (http_requests (limiter_of (fst s) p)) = filter (\<lambda>x. x > now - 60) (snd s)) \<and>
     (\<forall>w. length (window w (snd s)) \<le> M)"

lemma limiter_of_insert: "limiter_of (hm_insert q l R) p = (if p = q then l else limiter_of R p)"
  by (simp add: limiter_of_def hm_simps)

lemma window_recent: "t - 60 \<le> w \<Longrightarrow> length (window w A) \<le> length (filter (\<lambda>x. x > t - 60) A)"
proof -
  assume "t - 60 \<le> w"
  then have "window w A = filter (\<lambda>x. w < x \<and> x \<le> w + 60) (filter (\<lambda>x. x > t - 60) A)"
    unfolding window_def filter_filter by (intro filter_cong) auto
  then show ?thesis by (simp only: length_filter_le)
qed

lemma filter_recent: "t \<le> now \<Longrightarrow> filter (\<lambda>x. t - 60 < x \<and> now - 60 < x) A = filter ((<) (now - 60)) (A :: nat list)"
  by (intro filter_cong) auto

lemma quota_step:
  assumes "quota_inv p M t s" "t \<le> t'" "q = p \<Longrightarrow> m \<le> M"
  shows "quota_inv p M t' (http_step p (t', q, m) s)"
proof -
  obtain R A where s: "s = (R, A)" by (cases s)
  let ?l = "limiter_of R p"
  let ?h = "filter (\<lambda>x. x > t' - 60) (http_requests ?l)"
  have rec: "filter (\<lambda>x. x > now - 60) (http_requests ?l) = filter (\<lambda>x. x > now - 60) A" if "t \<le> now" for now
    using assms(1) that by (simp add: quota_inv_def s)
  have win: "length (window w A) \<le> M" for w using assms(1) by (simp add: quota_inv_def s)
  consider (other) "q \<noteq> p" | (refused) "q = p" "length ?h \<ge> m" | (passed) "q = p" "length ?h < m" by linarith
  then show ?thesis
  proof cases
    case other
    then show ?thesis using rec win assms(2)
      by (simp add: s quota_inv_def registry_check_http_def case_prod_beta limiter_of_insert)
  next
    case refused
    then show ?thesis using rec win assms(2)
      by (simp add: s quota_inv_def registry_check_http_def check_http_request_with_limit_def prune_old_entries_def
          u64_saturating_sub_def limiter_of_insert filter_recent Let_def)
  next
    case passed
    have "length (window w (A @ [t'])) \<le> M" for w
    proof (cases "w < t' \<and> t' \<le> w + 60")
      case True
      then have "t' - 60 \<le> w" by arith
      then have "length (window w A) \<le> length ?h" using window_recent [of t' w A] rec [OF assms(2)] by simp
      with passed assms(3) True show ?thesis by (simp add: window_def)
    qed (use win [of w] in \<open>auto simp: window_def\<close>)
    with passed rec assms(2) show ?thesis
      by (simp add: s quota_inv_def registry_check_http_def check_http_request_with_limit_def prune_old_entries_def
          u64_saturating_sub_def limiter_of_insert filter_recent Let_def)
  qed
qed

lemma quota_run:
  assumes "quota_inv p M t s" "sorted (t # map fst rs)" "\<forall>(t, q, m) \<in> set rs. q = p \<longrightarrow> m \<le> M"
  shows "\<exists>t'. quota_inv p M t' (fold (http_step p) rs s)"
  using assms
proof (induction rs arbitrary: t s)
  case (Cons r rs)
  obtain t' q m where r: "r = (t', q, m)" by (cases r)
  have "quota_inv p M t' (http_step p (t', q, m) s)"
    using Cons.prems by (intro quota_step [of p M t]) (auto simp: r)
  then show ?case using Cons.IH [of t' "http_step p (t', q, m) s"] Cons.prems by (auto simp: r)
qed auto

text \<open>
  A plugin never gets more HTTP requests per minute than its quota: whatever requests the plugins make,
  in order of time, the number of requests of one plugin that pass within any sixty seconds is at most the
  largest limit under which it asked, and the requests of other plugins do not count.
\<close>

theorem plugin_http_quota:
  assumes "sorted (map fst rs)" "\<forall>(t, q, m) \<in> set rs. q = p \<longrightarrow> m \<le> M"
  shows "length (filter (\<lambda>t. w < t \<and> t \<le> w + 60) (snd (fold (http_step p) rs ([], [])))) \<le> M"
proof -
  have "quota_inv p M 0 ([], [])"
    by (simp add: quota_inv_def limiter_of_def PluginRateLimiter_new_def window_def)
  from quota_run [OF this _ assms(2)] assms(1) show ?thesis by (auto simp: quota_inv_def window_def)
qed

theorem plugin_http_quota_witness:
  "length (filter (\<lambda>t. 9 < t \<and> t \<le> 9 + 60)
     (snd (fold (http_step ''a'') [(10, ''a'', 1), (11, ''b'', 5), (12, ''a'', 1), (70, ''a'', 1)] ([], [])))) \<le> 1"
  using plugin_http_quota [of "[(10, ''a'', 1), (11, ''b'', 5), (12, ''a'', 1), (70, ''a'', 1)]" "''a''" 1 9] by simp

subsection \<open>Name spaces of different plugins do not meet\<close>

lemma valid_id_chars:
  assumes "is_valid_plugin_id i"
  shows "CHR ''.'' \<notin> set i" "CHR '':'' \<notin> set i" "CHR ''/'' \<notin> set i" "CHR 0x5C \<notin> set i"
  using assms
  by (auto simp: is_valid_plugin_id_def list_all_iff is_ascii_lowercase_def is_ascii_digit_def Let_def)

lemma replace_dots_id: "CHR ''.'' \<notin> set s \<Longrightarrow> replace_dots s = s"
  by (induction s rule: replace_dots.induct) auto

lemma sanitize_valid_id: "is_valid_plugin_id i \<Longrightarrow> sanitize_plugin_id i = i"
  using valid_id_chars [of i]
  by (auto simp: sanitize_plugin_id_def replace_dots_id replace_chars_def intro!: map_idI)

text \<open>
  Plugins are kept apart: for two different plugins with valid identifiers, no pair of keys leads to the
  same entry of the credential store, and neither may read a configuration key of the other, while each may
  read its own.
\<close>

theorem plugin_namespaces_disjoint:
  assumes "is_valid_plugin_id p" "is_valid_plugin_id q" "p \<noteq> q"
  shows "prefix_key p k \<noteq> prefix_key q l \<and> check_access p (full_key p k) = Inr () \<and>
    (\<exists>e. check_access p (full_key q l) = Inl e)"
proof -
  have "p = q" if "p @ c # a = q @ c # b" "c \<notin> set p" "c \<notin> set q" for c a b
    using split_once_append [OF that(2), of a] split_once_append [OF that(3), of b] unfolding that(1) by simp
  note inj = this
  have "prefix_key p k \<noteq> prefix_key q l"
  proof
    assume "prefix_key p k = prefix_key q l"
    then have "p @ CHR '':'' # sanitize_key k = q @ CHR '':'' # sanitize_key l"
      using assms by (simp add: prefix_key_def sanitize_valid_id)
    from inj [OF this] show False using assms valid_id_chars(2) by simp
  qed
  moreover have "check_access p (full_key p k) = Inr ()"
    by (simp add: check_access_def full_key_def starts_with_def Let_def)
  moreover have "\<not> starts_with (full_key q l) (''plugins.'' @ p @ ''.'')"
  proof
    assume "starts_with (full_key q l) (''plugins.'' @ p @ ''.'')"
    then obtain r where "q @ CHR ''.'' # l = p @ CHR ''.'' # r" by (auto simp: starts_with_iff full_key_def)
    from inj [OF this [symmetric]] show False using assms valid_id_chars(1) by simp
  qed
  ultimately show ?thesis by (simp add: check_access_def Let_def)
qed

theorem plugin_namespaces_disjoint_witness:
  "prefix_key ''teams'' ''token'' \<noteq> prefix_key ''slack'' ''token''"
proof -
  have "is_valid_plugin_id ''teams''" "is_valid_plugin_id ''slack''"
    by (simp_all add: is_valid_plugin_id_def is_reserved_plugin_id_def RESERVED_PLUGIN_CONFIG_KEYS_def
        is_ascii_lowercase_def)
  then show ?thesis using plugin_namespaces_disjoint [of "''teams''" "''slack''" "''token''" "''token''"] by simp
qed

subsection \<open>The filter is a list of networks\<close>

text \<open>Addresses as numbers, and membership in the network \<open>net/len\<close> as agreement on the first \<open>len\<close> bits.\<close>

fun v4_num :: "ipv4 \<Rightarrow> nat" where
  "v4_num (a, b, c, d) = ((a * 256 + b) * 256 + c) * 256 + d"

definition v6_num :: "ipv6 \<Rightarrow> nat" where
  "v6_num g = foldl (\<lambda>n x. n * 65536 + x) 0 g"

definition in_v4 :: "ipv4 \<Rightarrow> nat \<times> nat \<Rightarrow> bool" where
  "in_v4 ip blk \<longleftrightarrow> v4_num ip div 2 ^ (32 - snd blk) = fst blk div 2 ^ (32 - snd blk)"

definition in_v6 :: "ipv6 \<Rightarrow> nat \<times> nat \<Rightarrow> bool" where
  "in_v6 g blk \<longleftrightarrow> v6_num g div 2 ^ (128 - snd blk) = fst blk div 2 ^ (128 - snd blk)"

definition v4_ok :: "ipv4 \<Rightarrow> bool" where
  "v4_ok ip = (case ip of (a, b, c, d) \<Rightarrow> a < 256 \<and> b < 256 \<and> c < 256 \<and> d < 256)"

definition v6_ok :: "ipv6 \<Rightarrow> bool" where
  "v6_ok g \<longleftrightarrow> length g = 8 \<and> list_all (\<lambda>x. x < 65536) g"

definition blocked_v4 :: "SsrfConfig \<Rightarrow> (nat \<times> nat) list" where
  "blocked_v4 cfg =
     [(v4_num (10, 0, 0, 0), 8), (v4_num (172, 16, 0, 0), 12), (v4_num (192, 168, 0, 0), 16),
      (v4_num (127, 0, 0, 0), 8), (v4_num (169, 254, 0, 0), 16), (v4_num (0, 0, 0, 0), 8),
      (v4_num (192, 0, 0, 0), 24), (v4_num (192, 0, 2, 0), 24), (v4_num (198, 51, 100, 0), 24),
      (v4_num (203, 0, 113, 0), 24), (v4_num (224, 0, 0, 0), 4), (v4_num (240, 0, 0, 0), 4)] @
     (if allow_tailscale cfg then [] else [(v4_num (100, 64, 0, 0), 10)])"

definition blocked_v6 :: "(nat \<times> nat) list" where
  "blocked_v6 =
     [(1, 128), (0, 128), (v6_num [0xfc00, 0, 0, 0, 0, 0, 0, 0], 7), (v6_num [0xfe80, 0, 0, 0, 0, 0, 0, 0], 10),
      (v6_num [0xff00, 0, 0, 0, 0, 0, 0, 0], 8), (v6_num [0x2001, 0xdb8, 0, 0, 0, 0, 0, 0], 32)]"

lemma v4_num_div:
  assumes "b < 256" "c < 256" "d < 256"
  shows "v4_num (a, b, c, d) div 256 = (a * 256 + b) * 256 + c"
    "v4_num (a, b, c, d) div 65536 = a * 256 + b"
    "v4_num (a, b, c, d) div 16777216 = a"
    "v4_num (a, b, c, d) div 1048576 = a * 16 + b div 16"
    "v4_num (a, b, c, d) div 4194304 = a * 4 + b div 64"
    "v4_num (a, b, c, d) div 268435456 = a div 16"
proof -
  show d8: "v4_num (a, b, c, d) div 256 = (a * 256 + b) * 256 + c" using assms by simp
  have "v4_num (a, b, c, d) div 65536 = v4_num (a, b, c, d) div 256 div 256" by (simp flip: div_mult2_eq)
  then show d16: "v4_num (a, b, c, d) div 65536 = a * 256 + b" using assms unfolding d8 by simp
  have "v4_num (a, b, c, d) div 16777216 = v4_num (a, b, c, d) div 65536 div 256" by (simp flip: div_mult2_eq)
  then show d24: "v4_num (a, b, c, d) div 16777216 = a" using assms unfolding d16 by simp
  have "v4_num (a, b, c, d) div 1048576 = v4_num (a, b, c, d) div 65536 div 16" by (simp flip: div_mult2_eq)
  also have "\<dots> = (16 * (a * 16) + b) div 16" unfolding d16 by (simp add: mult.commute)
  also have "\<dots> = a * 16 + b div 16" by (subst div_mult_self4) simp_all
  finally show "v4_num (a, b, c, d) div 1048576 = a * 16 + b div 16" .
  have "v4_num (a, b, c, d) div 4194304 = v4_num (a, b, c, d) div 65536 div 64" by (simp flip: div_mult2_eq)
  also have "\<dots> = (64 * (a * 4) + b) div 64" unfolding d16 by (simp add: mult.commute)
  also have "\<dots> = a * 4 + b div 64" by (subst div_mult_self4) simp_all
  finally show "v4_num (a, b, c, d) div 4194304 = a * 4 + b div 64" .
  have "v4_num (a, b, c, d) div 268435456 = v4_num (a, b, c, d) div 16777216 div 16" by (simp flip: div_mult2_eq)
  then show "v4_num (a, b, c, d) div 268435456 = a div 16" unfolding d24 .
qed

lemma radix_inject:
  fixes a b :: nat
  assumes "b < n" "b' < n"
  shows "a * n + b = a' * n + b' \<longleftrightarrow> a = a' \<and> b = b'"
proof
  assume eq: "a * n + b = a' * n + b'"
  have "(a * n + b) div n = a" "(a' * n + b') div n = a'" using assms by simp_all
  then have "a = a'" using eq by simp
  with eq show "a = a' \<and> b = b'" by simp
qed simp

lemma in_v4_iff:
  assumes "v4_ok (a, b, c, d)"
  shows "in_v4 (a, b, c, d) (v4_num (a', 0, 0, 0), 8) \<longleftrightarrow> a = a'"
    "b' < 256 \<Longrightarrow> in_v4 (a, b, c, d) (v4_num (a', b', 0, 0), 16) \<longleftrightarrow> a = a' \<and> b = b'"
    "b' < 256 \<Longrightarrow> c' < 256 \<Longrightarrow> in_v4 (a, b, c, d) (v4_num (a', b', c', 0), 24) \<longleftrightarrow> a = a' \<and> b = b' \<and> c = c'"
    "b' < 256 \<Longrightarrow> in_v4 (a, b, c, d) (v4_num (a', b', 0, 0), 12) \<longleftrightarrow> a = a' \<and> b div 16 = b' div 16"
    "b' < 256 \<Longrightarrow> in_v4 (a, b, c, d) (v4_num (a', b', 0, 0), 10) \<longleftrightarrow> a = a' \<and> b div 64 = b' div 64"
    "in_v4 (a, b, c, d) (v4_num (a', 0, 0, 0), 4) \<longleftrightarrow> a div 16 = a' div 16"
proof -
  have o: "a < 256" "b < 256" "c < 256" "d < 256" using assms by (simp_all add: v4_ok_def)
  note dv = v4_num_div [OF o(2-4)]
  show "in_v4 (a, b, c, d) (v4_num (a', 0, 0, 0), 8) \<longleftrightarrow> a = a'"
    using dv(3) v4_num_div(3) [of 0 0 0 a'] by (simp add: in_v4_def del: v4_num.simps)
  show "in_v4 (a, b, c, d) (v4_num (a', b', 0, 0), 16) \<longleftrightarrow> a = a' \<and> b = b'" if "b' < 256"
    using dv(2) v4_num_div(2) [of b' 0 0 a'] that o by (simp add: in_v4_def radix_inject del: v4_num.simps)
  show "in_v4 (a, b, c, d) (v4_num (a', b', c', 0), 24) \<longleftrightarrow> a = a' \<and> b = b' \<and> c = c'" if "b' < 256" "c' < 256"
    using dv(1) [of a] v4_num_div(1) [of b' c' 0 a'] that o
      radix_inject [of c 256 c' "a * 256 + b" "a' * 256 + b'"] radix_inject [of b 256 b' a a']
    by (simp add: in_v4_def del: v4_num.simps distrib_right)
  show "in_v4 (a, b, c, d) (v4_num (a', b', 0, 0), 12) \<longleftrightarrow> a = a' \<and> b div 16 = b' div 16" if "b' < 256"
    using dv(4) v4_num_div(4) [of b' 0 0 a'] that o
    by (simp add: in_v4_def radix_inject less_mult_imp_div_less del: v4_num.simps)
  show "in_v4 (a, b, c, d) (v4_num (a', b', 0, 0), 10) \<longleftrightarrow> a = a' \<and> b div 64 = b' div 64" if "b' < 256"
    using dv(5) v4_num_div(5) [of b' 0 0 a'] that o
    by (simp add: in_v4_def radix_inject less_mult_imp_div_less del: v4_num.simps)
  show "in_v4 (a, b, c, d) (v4_num (a', 0, 0, 0), 4) \<longleftrightarrow> a div 16 = a' div 16"
    using dv(6) v4_num_div(6) [of 0 0 0 a'] by (simp add: in_v4_def del: v4_num.simps)
qed

lemma div_eq_range:
  fixes x n k :: nat
  assumes "0 < n"
  shows "x div n = k \<longleftrightarrow> n * k \<le> x \<and> x < n * Suc k"
  using assms times_div_less_eq_dividend [of n x] dividend_less_times_div [OF assms, of x]
    div_nat_eqI [of n k x] by auto

lemma small_div:
  fixes x :: nat
  shows "x div 16 = Suc 0 \<longleftrightarrow> 16 \<le> x \<and> x \<le> 31" "x div 64 = Suc 0 \<longleftrightarrow> 64 \<le> x \<and> x \<le> 127"
    "x div 16 = 14 \<longleftrightarrow> 224 \<le> x \<and> x \<le> 239" "x < 256 \<Longrightarrow> x div 16 = 15 \<longleftrightarrow> 240 \<le> x"
  by (auto simp: div_eq_range)

lemma private_v4_networks:
  assumes "v4_ok ip"
  shows "is_private_ipv4_with_config cfg ip \<longleftrightarrow> list_ex (in_v4 ip) (blocked_v4 cfg)"
proof -
  obtain a b c d where ip: "ip = (a, b, c, d)" by (cases ip)
  have "a < 256" using assms by (simp add: ip v4_ok_def)
  with assms show ?thesis
    unfolding ip blocked_v4_def
    by (cases "allow_tailscale cfg"; simp add: in_v4_iff small_div disj_ac del: v4_num.simps)
qed

text \<open>IPv6 addresses have groups of sixteen bits; a mask selects the leading bits of the first group.\<close>

lemma mask_div:
  fixes x :: nat
  assumes "x < 65536"
  shows "and x 0xfe00 = 0xfc00 \<longleftrightarrow> x div 512 = 126" "and x 0xffc0 = 0xfe80 \<longleftrightarrow> x div 64 = 1018"
    "and x 0xff00 = 0xff00 \<longleftrightarrow> x div 256 = 255"
proof -
  have m: "and x (push_bit k (mask n)) = (x div 2 ^ k) * 2 ^ k" if "k + n = 16" for k n
  proof -
    have "and x (push_bit k (mask n)) = push_bit k (take_bit n (drop_bit k x))"
      by (rule bit_eqI) (auto simp: bit_simps)
    moreover have "drop_bit k x < 2 ^ n"
      using assms that by (simp add: drop_bit_eq_div less_mult_imp_div_less flip: power_add add.commute)
    then have "take_bit n (drop_bit k x) = drop_bit k x" by (simp add: take_bit_nat_eq_self)
    ultimately show ?thesis by (simp add: push_bit_eq_mult drop_bit_eq_div)
  qed
  show "and x 0xfe00 = 0xfc00 \<longleftrightarrow> x div 512 = 126" using m [of 9 7] by (simp add: push_bit_eq_mult mask_eq_exp_minus_1)
  show "and x 0xffc0 = 0xfe80 \<longleftrightarrow> x div 64 = 1018" using m [of 6 10] by (simp add: push_bit_eq_mult mask_eq_exp_minus_1)
  show "and x 0xff00 = 0xff00 \<longleftrightarrow> x div 256 = 255" using m [of 8 8] by (simp add: push_bit_eq_mult mask_eq_exp_minus_1)
qed

lemma v6_num_snoc: "v6_num (xs @ [x]) = v6_num xs * 65536 + x"
  by (simp add: v6_num_def)

lemma v6_num_inject:
  assumes "length g = length h" "list_all (\<lambda>x. x < 65536) g" "list_all (\<lambda>x. x < 65536) h"
  shows "v6_num g = v6_num h \<longleftrightarrow> g = h"
  using assms
proof (induction g arbitrary: h rule: rev_induct)
  case (snoc x xs)
  then obtain y ys where h: "h = ys @ [y]" by (cases h rule: rev_exhaust) auto
  with snoc show ?case by (simp add: v6_num_snoc radix_inject)
qed simp

lemma v6_num_div:
  assumes "list_all (\<lambda>x. x < 65536) (g @ h)"
  shows "v6_num (g @ h) div 2 ^ (16 * length h) = v6_num g"
  using assms
proof (induction h rule: rev_induct)
  case (snoc x xs)
  have "v6_num (g @ xs @ [x]) div 65536 = v6_num (g @ xs)"
    using snoc.prems v6_num_snoc [of "g @ xs" x] by simp
  then have "v6_num (g @ xs @ [x]) div 2 ^ (16 * length (xs @ [x])) = v6_num (g @ xs) div 2 ^ (16 * length xs)"
    by (simp add: power_add div_mult2_eq)
  with snoc show ?case by simp
qed simp

lemma in_v6_prefix:
  assumes "list_all (\<lambda>x. x < 65536) (g @ h)" "list_all (\<lambda>x. x < 65536) (g' @ h')" "length g = length g'"
    "length h = length h'" "length (g @ h) = 8" "len = 16 * length g"
  shows "in_v6 (g @ h) (v6_num (g' @ h'), len) \<longleftrightarrow> g = g'"
proof -
  have "128 - len = 16 * length h" "128 - len = 16 * length h'" using assms(4-6) by auto
  then show ?thesis
    using v6_num_div [OF assms(1)] v6_num_div [OF assms(2)] v6_num_inject [of g g'] assms(1-3)
    by (simp add: in_v6_def)
qed

lemma in_v6_first_group:
  assumes "list_all (\<lambda>x. x < 65536) (a # h)" "list_all (\<lambda>x. x < 65536) (a' # h')" "length h = 7" "length h' = 7"
    "len \<le> 16"
  shows "in_v6 (a # h) (v6_num (a' # h'), len) \<longleftrightarrow> a div 2 ^ (16 - len) = a' div 2 ^ (16 - len)"
proof -
  have "128 - len = 112 + (16 - len)" using assms(5) by simp
  then have e: "(2 :: nat) ^ (128 - len) = 2 ^ 112 * 2 ^ (16 - len)" by (simp only: power_add)
  have "v6_num (x # y) div 2 ^ (128 - len) = x div 2 ^ (16 - len)"
    if "list_all (\<lambda>x. x < 65536) (x # y)" "length y = 7" for x y
    using v6_num_div [of "[x]" y] that unfolding e by (simp add: div_mult2_eq v6_num_def)
  with assms show ?thesis by (simp add: in_v6_def)
qed

definition embedded_v4 :: "ipv6 \<Rightarrow> ipv4" where
  "embedded_v4 g = (g ! 6 div 256, g ! 6 mod 256, g ! 7 div 256, g ! 7 mod 256)"

lemma private_v6_networks:
  assumes "v6_ok g"
  shows "is_private_ipv6 g \<longleftrightarrow> list_ex (in_v6 g) blocked_v6 \<or>
    in_v6 g (v6_num [0, 0, 0, 0, 0, 0xffff, 0, 0], 96) \<and>
    list_ex (in_v4 (embedded_v4 g)) (blocked_v4 SsrfConfig_default)"
proof -
  have "length g = Suc (Suc (Suc (Suc (Suc (Suc (Suc (Suc 0)))))))" using assms by (simp add: v6_ok_def)
  then obtain a b c d e f h i where g: "g = [a, b, c, d, e, f, h, i]"
    unfolding length_Suc_conv length_0_conv by blast
  have o: "list_all (\<lambda>x. x < 65536) [a, b, c, d, e, f, h, i]" using assms by (simp add: g v6_ok_def)
  have one: "in_v6 g (1, 128) \<longleftrightarrow> g = [0, 0, 0, 0, 0, 0, 0, 1]"
    and zero: "in_v6 g (0, 128) \<longleftrightarrow> g = [0, 0, 0, 0, 0, 0, 0, 0]"
    using in_v6_prefix [of g "[]" "[0, 0, 0, 0, 0, 0, 0, 1]" "[]" 128]
      in_v6_prefix [of g "[]" "[0, 0, 0, 0, 0, 0, 0, 0]" "[]" 128] o by (simp_all add: g v6_num_def)
  have doc: "in_v6 g (v6_num [0x2001, 0xdb8, 0, 0, 0, 0, 0, 0], 32) \<longleftrightarrow> a = 0x2001 \<and> b = 0xdb8"
    using in_v6_prefix [of "[a, b]" "[c, d, e, f, h, i]" "[0x2001, 0xdb8]" "[0, 0, 0, 0, 0, 0]" 32] o by (simp add: g)
  have mapped: "in_v6 g (v6_num [0, 0, 0, 0, 0, 0xffff, 0, 0], 96) \<longleftrightarrow>
      a = 0 \<and> b = 0 \<and> c = 0 \<and> d = 0 \<and> e = 0 \<and> f = 0xffff"
    using in_v6_prefix [of "[a, b, c, d, e, f]" "[h, i]" "[0, 0, 0, 0, 0, 0xffff]" "[0, 0]" 96] o by (simp add: g)
  have first: "in_v6 g (v6_num [a', 0, 0, 0, 0, 0, 0, 0], len) \<longleftrightarrow> a div 2 ^ (16 - len) = a' div 2 ^ (16 - len)"
    if "a' < 65536" "len \<le> 16" for a' len
    using in_v6_first_group [of a "[b, c, d, e, f, h, i]" a' "[0, 0, 0, 0, 0, 0, 0]" len] o that by (simp add: g)
  have a: "a < 65536" "h < 65536" "i < 65536" using o by simp_all
  have "and x (mask 8) = take_bit 8 x" for x :: nat by (rule bit_eqI) (auto simp: bit_simps)
  then have "and x 0xff = x mod 256" for x :: nat by (simp add: take_bit_eq_mod mask_eq_exp_minus_1)
  then have "(drop_bit 8 h, and h 0xff, drop_bit 8 i, and i 0xff) = embedded_v4 g"
    by (simp add: embedded_v4_def g drop_bit_eq_div)
  moreover have "v4_ok (embedded_v4 g)" using a by (simp add: v4_ok_def embedded_v4_def g less_mult_imp_div_less)
  ultimately have v4: "is_private_ipv4 (drop_bit 8 h, and h 0xff, drop_bit 8 i, and i 0xff) \<longleftrightarrow>
      list_ex (in_v4 (embedded_v4 g)) (blocked_v4 SsrfConfig_default)"
    using private_v4_networks by (simp only: is_private_ipv4_def)
  have blocks: "list_ex (in_v6 g) blocked_v6 \<longleftrightarrow> g = [0, 0, 0, 0, 0, 0, 0, 1] \<or> g = [0, 0, 0, 0, 0, 0, 0, 0] \<or>
      a div 512 = 126 \<or> a div 64 = 1018 \<or> a div 256 = 255 \<or> a = 0x2001 \<and> b = 0xdb8"
    using first [of "0xfc00" 7] first [of "0xfe80" 10] first [of "0xff00" 8] one zero doc
    by (simp add: blocked_v6_def)
  show ?thesis
    unfolding blocks mapped v4 [symmetric] is_private_ipv6_def v6_is_loopback_def
    by (simp add: g mask_div [OF a(1)])
qed

text \<open>The address parser gives addresses with eight-bit octets or sixteen-bit groups.\<close>

lemma read_number_bound: "read_number radix m z bound s = Some (n, r) \<Longrightarrow> n \<le> bound"
  by (auto simp: read_number_def case_prod_beta Let_def split: if_splits)

lemma read_separator_Some:
  "read_separator sep i p s = Some x \<Longrightarrow> (\<exists>s'. p s' = Some x)"
  by (auto simp: read_separator_def split: if_splits bind_splits)

lemma read_octets_ok: "read_octets n i s = Some (xs, r) \<Longrightarrow> length xs = n \<and> list_all (\<lambda>x. x \<le> 255) xs"
proof (induction n arbitrary: i s xs r)
  case (Suc n)
  then obtain x r' xs' where x: "read_separator CHR ''.'' i (read_number 10 (Some 3) False 255) s = Some (x, r')"
    "read_octets n (Suc i) r' = Some (xs', r)" "xs = x # xs'"
    by (auto split: option.splits)
  then have "x \<le> 255" using read_separator_Some read_number_bound by metis
  with x Suc.IH show ?case by auto
qed simp

lemma read_ipv4_ok: "read_ipv4_addr s = Some (ip, r) \<Longrightarrow> v4_ok ip"
  by (auto simp: read_ipv4_addr_def v4_ok_def split: option.splits list.splits dest!: read_octets_ok)

lemma read_groups_ok:
  "read_groups n i s = (gs, e, r) \<Longrightarrow> length gs \<le> n \<and> list_all (\<lambda>x. x < 65536) gs"
proof (induction n arbitrary: i s gs e r)
  case (Suc n)
  show ?case
  proof (cases "if n > 0 then read_separator CHR '':'' i read_ipv4_addr s else None")
    case (Some v)
    obtain a b c d r' where v: "v = ((a, b, c, d), r')" by (metis surj_pair)
    from Some have "n > 0" "read_separator CHR '':'' i read_ipv4_addr s = Some v" by (auto split: if_splits)
    then have "v4_ok (a, b, c, d)" using read_separator_Some read_ipv4_ok unfolding v by metis
    with Suc.prems Some \<open>n > 0\<close> show ?thesis by (auto simp: v v4_ok_def)
  next
    case None
    show ?thesis
    proof (cases "read_separator CHR '':'' i (read_number 16 (Some 4) True 65535) s")
      case None
      with \<open>(if n > 0 then _ else None) = None\<close> Suc.prems show ?thesis by simp
    next
      case (Some w)
      obtain x r' where w: "w = (x, r')" by (cases w)
      obtain gs' e' r'' where t: "read_groups n (Suc i) r' = (gs', e', r'')" by (metis surj_pair)
      have "x \<le> 65535" using Some read_separator_Some read_number_bound unfolding w by metis
      with Suc.prems \<open>(if n > 0 then _ else None) = None\<close> Some t Suc.IH [OF t] show ?thesis by (auto simp: w)
    qed
  qed
qed simp

lemma read_ipv6_ok:
  assumes "read_ipv6_addr s = Some (g, r)"
  shows "v6_ok g"
proof -
  obtain hd_groups e r1 where h: "read_groups 8 0 s = (hd_groups, e, r1)" by (metis surj_pair)
  note ok = read_groups_ok [OF h]
  show ?thesis
  proof (cases "length hd_groups = 8")
    case True
    with assms h ok show ?thesis by (auto simp: read_ipv6_addr_def v6_ok_def)
  next
    case False
    with assms h obtain r2 where r2: "r1 = CHR '':'' # CHR '':'' # r2" "\<not> e"
      by (auto simp: read_ipv6_addr_def split: if_splits list.splits char.splits bool.splits)
    obtain tl_groups e3 r3 where t: "read_groups (8 - (length hd_groups + 1)) 0 r2 = (tl_groups, e3, r3)"
      by (metis surj_pair)
    have "g = hd_groups @ replicate (8 - length hd_groups - length tl_groups) 0 @ tl_groups"
      using assms h t False r2 by (simp add: read_ipv6_addr_def)
    moreover have "length tl_groups \<le> 8 - (length hd_groups + 1)" using read_groups_ok [OF t] by simp
    ultimately show ?thesis using ok read_groups_ok [OF t] False by (auto simp: v6_ok_def list_all_iff)
  qed
qed

fun addr_ok :: "IpAddr \<Rightarrow> bool" where
  "addr_ok (V4 a) = v4_ok a"
| "addr_ok (V6 g) = v6_ok g"

lemma parse_ip_addr_ok: "parse_ip_addr s = Some ip \<Longrightarrow> addr_ok ip"
  by (auto simp: parse_ip_addr_def complete_def intro: read_ipv4_ok read_ipv6_ok
      split: option.splits prod.splits list.splits)

lemma parse_ipv6_ok: "parse_ipv6 s = Some g \<Longrightarrow> v6_ok g"
  by (auto simp: parse_ipv6_def complete_def intro: read_ipv6_ok split: option.splits prod.splits list.splits)

text \<open>The networks a plugin must not reach.\<close>

fun in_blocked_network :: "SsrfConfig \<Rightarrow> IpAddr \<Rightarrow> bool" where
  "in_blocked_network cfg (V4 a) = list_ex (in_v4 a) (blocked_v4 cfg)"
| "in_blocked_network cfg (V6 g) \<longleftrightarrow> list_ex (in_v6 g) blocked_v6 \<or>
     in_v6 g (v6_num [0, 0, 0, 0, 0, 0xffff, 0, 0], 96) \<and>
     list_ex (in_v4 (embedded_v4 g)) (blocked_v4 SsrfConfig_default)"

text \<open>
  The test for private addresses is exactly membership in the documented networks: for IPv4 the private,
  loopback, link-local, current, carrier-grade (unless Tailscale is allowed), protocol, documentation,
  multicast and reserved networks; for IPv6 the loopback and the unspecified address, the unique local,
  link-local, multicast and documentation networks, and the IPv4 networks embedded as mapped addresses.
\<close>

theorem private_address_iff_in_network:
  assumes "addr_ok ip"
  shows "is_private_ip_with_config cfg ip \<longleftrightarrow> in_blocked_network cfg ip"
  using assms private_v4_networks private_v6_networks by (cases ip) auto

theorem private_address_iff_in_network_witness:
  "is_private_ip_with_config SsrfConfig_default (V4 (172, 20, 1, 2)) \<longleftrightarrow>
   in_blocked_network SsrfConfig_default (V4 (172, 20, 1, 2))"
  by (rule private_address_iff_in_network) (simp add: v4_ok_def)

lemma validated_url:
  assumes "validate_url_with_config parse url cfg = Inr ()"
  shows "\<exists>u host. parse url = Some u \<and> url_scheme u \<in> {''http'', ''https''} \<and> url_host u = Some host \<and>
    \<not> is_localhost host \<and> \<not> is_metadata_endpoint host \<and>
    (\<forall>ip. parse_ip_addr host = Some ip \<longrightarrow> \<not> in_blocked_network cfg ip) \<and>
    (\<forall>s g. bracket_inner host = Some s \<and> parse_ipv6 s = Some g \<longrightarrow> \<not> in_blocked_network cfg (V6 g))"
proof -
  from assms obtain u where u: "parse url = Some u" "url_scheme u \<in> {''http'', ''https''}"
    by (auto simp: validate_url_with_config_def split: option.splits if_splits)
  with assms obtain host where h: "url_host u = Some host" "\<not> is_localhost host" "\<not> is_metadata_endpoint host"
    by (auto simp: validate_url_with_config_def split: option.splits if_splits)
  have "\<not> is_private_ip_with_config cfg ip" if "parse_ip_addr host = Some ip" for ip
    using assms u h that by (auto simp: validate_url_with_config_def split: if_splits)
  then have "\<not> in_blocked_network cfg ip" if "parse_ip_addr host = Some ip" for ip
    using that private_v4_networks private_v6_networks parse_ip_addr_ok [OF that] by (cases ip) auto
  moreover have "\<not> is_private_ipv6 g" if "bracket_inner host = Some s" "parse_ipv6 s = Some g" for s g
    using assms u h that by (auto simp: validate_url_with_config_def split: if_splits)
  then have "\<not> in_blocked_network cfg (V6 g)" if "bracket_inner host = Some s" "parse_ipv6 s = Some g" for s g
    using that private_v6_networks [OF parse_ipv6_ok [OF that(2)]] by simp
  ultimately show ?thesis using u h by blast
qed

end
