(* ===== verification/Plugin_Permissions.thy ===== *)
theory Plugin_Permissions
  imports Plugin_Capabilities
begin

text \<open>
  Fine-grained permissions of plugins (\<^verbatim>\<open>src/plugins/permissions.rs\<close>): patterns for URLs and credential keys,
  the permissions that result from the plugin's manifest and the operator's overrides, and their enforcement.

  Patterns are turned into regular expressions, as text, which the \<^verbatim>\<open>regex\<close> crate compiles. Its two functions
  are the parameter \<open>rx\<close>; \<open>regex_ok\<close> states what they do on the expressions the code builds. The error texts
  of the compiler only reach the log and are left out.
\<close>

subsection \<open>The regular expression engine\<close>

record regex_api =
  rx_escape :: "string \<Rightarrow> string"
  rx_new :: "string \<Rightarrow> (string \<Rightarrow> bool) option"

text \<open>The expressions that occur: literal characters, \<^verbatim>\<open>.*\<close> and \<^verbatim>\<open>[^/]*\<close>.\<close>

datatype piece = Lit char | AnyText | Segment

fun pieces_match :: "piece list \<Rightarrow> string \<Rightarrow> bool" where
  "pieces_match [] s \<longleftrightarrow> s = []"
| "pieces_match (Lit c # ps) s \<longleftrightarrow> (case s of [] \<Rightarrow> False | x # xs \<Rightarrow> x = c \<and> pieces_match ps xs)"
| "pieces_match (AnyText # ps) s \<longleftrightarrow>
     list_ex (\<lambda>n. CHR 0x0A \<notin> set (take n s) \<and> pieces_match ps (drop n s)) [0..<Suc (length s)]"
| "pieces_match (Segment # ps) s \<longleftrightarrow>
     list_ex (\<lambda>n. CHR ''/'' \<notin> set (take n s) \<and> pieces_match ps (drop n s)) [0..<Suc (length s)]"

definition render :: "(string \<Rightarrow> string) \<Rightarrow> piece list \<Rightarrow> string" where
  "render esc ps = concat (map (\<lambda>p. case p of Lit c \<Rightarrow> esc [c] | AnyText \<Rightarrow> ''.*'' | Segment \<Rightarrow> ''[^/]*'') ps)"

definition backslash :: char where
  "backslash = CHR 0x5C"

definition regex_ok :: "regex_api \<Rightarrow> bool" where
  "regex_ok rx \<longleftrightarrow>
     (\<forall>s. rx_escape rx s = concat (map (\<lambda>c. rx_escape rx [c]) s)) \<and>
     (\<forall>c. rx_escape rx [c] = [c] \<or> rx_escape rx [c] = [backslash, c]) \<and>
     rx_escape rx [backslash] = [backslash, backslash] \<and>
     rx_escape rx ''*'' = [backslash, CHR ''*''] \<and>
     (\<forall>ps. rx_new rx (''^'' @ render (rx_escape rx) ps @ ''$'') = Some (pieces_match ps)) \<and>
     (\<forall>ps. rx_new rx (''^^'' @ render (rx_escape rx) ps @ ''$$'') = Some (pieces_match ps))"

subsection \<open>Patterns\<close>

fun split_double_star :: "string \<Rightarrow> string list" where
  "split_double_star (a # b # s) =
     (if a = CHR ''*'' \<and> b = CHR ''*'' then [] # split_double_star s
      else (case split_double_star (b # s) of [] \<Rightarrow> [[a]] | w # ws \<Rightarrow> (a # w) # ws))"
| "split_double_star s = [s]"

fun replace_escaped_star :: "string \<Rightarrow> string \<Rightarrow> string" where
  "replace_escaped_star r (a # b # s) =
     (if a = backslash \<and> b = CHR ''*'' then r @ replace_escaped_star r s else a # replace_escaped_star r (b # s))"
| "replace_escaped_star r s = s"

fun join :: "string \<Rightarrow> string list \<Rightarrow> string" where
  "join sep [] = []"
| "join sep [w] = w"
| "join sep (w # ws) = w @ sep @ join sep ws"

definition glob_to_regex :: "regex_api \<Rightarrow> string \<Rightarrow> string" where
  "glob_to_regex rx pattern =
     ''^'' @ join ''.*'' (map (\<lambda>part. replace_escaped_star ''[^/]*'' (rx_escape rx part)) (split_double_star pattern)) @ ''$''"

definition simple_glob_to_regex :: "regex_api \<Rightarrow> string \<Rightarrow> string" where
  "simple_glob_to_regex rx pattern = ''^'' @ replace_escaped_star ''.*'' (rx_escape rx pattern) @ ''$''"

definition split_once_str :: "string \<Rightarrow> string \<Rightarrow> (string \<times> string) option" where
  "split_once_str sep s =
     (case List.find (\<lambda>n. starts_with (drop n s) sep) [0..<Suc (length s)] of
        None \<Rightarrow> None | Some n \<Rightarrow> Some (take n s, drop (n + length sep) s))"

definition pattern_authority :: "string \<Rightarrow> string option" where
  "pattern_authority pattern =
     map_option (\<lambda>(_, after_scheme). takeWhile (\<lambda>c. c \<noteq> CHR ''/'') after_scheme) (split_once_str ''://'' pattern)"

definition rsplit_at :: "char \<Rightarrow> string \<Rightarrow> (string \<times> string) option" where
  "rsplit_at c s = map_option (\<lambda>(b, a). (rev a, rev b)) (split_once c (rev s))"

definition extract_pattern_host :: "string \<Rightarrow> string" where
  "extract_pattern_host authority =
     (let after_userinfo = (case rsplit_at CHR ''@'' authority of None \<Rightarrow> authority | Some (_, host) \<Rightarrow> host)
      in case after_userinfo of
           CHR ''['' # after_open \<Rightarrow>
             (case split_once CHR '']'' after_open of
                Some (inner, after) \<Rightarrow>
                  if after = [] \<or> starts_with after '':'' then CHR ''['' # inner @ '']'' else after_userinfo
              | None \<Rightarrow> after_userinfo)
         | _ \<Rightarrow> (case rsplit_at CHR '':'' after_userinfo of None \<Rightarrow> after_userinfo | Some (host, _) \<Rightarrow> host))"

record UrlMatcher =
  um_pattern :: string
  um_regex :: "string \<Rightarrow> bool"
  um_authority :: "(string \<Rightarrow> bool) option"

definition UrlMatcher_new :: "regex_api \<Rightarrow> string \<Rightarrow> UrlMatcher option" where
  "UrlMatcher_new rx pattern =
     (case rx_new rx (glob_to_regex rx pattern) of
        None \<Rightarrow> None
      | Some re \<Rightarrow>
          (case pattern_authority pattern of
             None \<Rightarrow> Some \<lparr>um_pattern = pattern, um_regex = re, um_authority = None\<rparr>
           | Some authority \<Rightarrow>
               (case rx_new rx (''^'' @ glob_to_regex rx (extract_pattern_host authority) @ ''$'') of
                  None \<Rightarrow> None
                | Some host_re \<Rightarrow> Some \<lparr>um_pattern = pattern, um_regex = re, um_authority = Some host_re\<rparr>)))"

definition url_matches :: "(string \<Rightarrow> parsed_url option) \<Rightarrow> UrlMatcher \<Rightarrow> string \<Rightarrow> bool" where
  "url_matches parse m url =
     (if \<not> um_regex m url then False
      else (case um_authority m of
              None \<Rightarrow> True
            | Some host_re \<Rightarrow>
                (case parse url of
                   None \<Rightarrow> False
                 | Some u \<Rightarrow> (case url_host u of None \<Rightarrow> False | Some h \<Rightarrow> host_re h))))"

record GlobMatcher =
  gm_pattern :: string
  gm_regex :: "string \<Rightarrow> bool"

definition GlobMatcher_new :: "regex_api \<Rightarrow> string \<Rightarrow> GlobMatcher option" where
  "GlobMatcher_new rx pattern =
     (case rx_new rx (simple_glob_to_regex rx pattern) of
        None \<Rightarrow> None | Some re \<Rightarrow> Some \<lparr>gm_pattern = pattern, gm_regex = re\<rparr>)"

subsection \<open>Declared and effective permissions\<close>

record HttpPermission =
  hp_allowed_urls :: "string list"
  hp_max_requests_per_minute :: "usize option"

record DeclaredPermissions =
  dp_http :: "HttpPermission option"
  dp_credentials :: "string list option"
  dp_media :: "string list option"

record PermissionOverride =
  ov_http_allowed_urls :: "string list option"
  ov_http_max_requests_per_minute :: "usize option"
  ov_credential_allowed_keys :: "string list option"
  ov_media_allowed_urls :: "string list option"
  ov_deny_all :: bool

record PermissionConfig =
  pc_enabled :: bool
  pc_overrides :: "(string, PermissionOverride) hmap"

record EffectivePermissions =
  ep_plugin_id :: string
  ep_http_url_matchers :: "UrlMatcher list"
  ep_http_max_requests_per_minute :: "usize option"
  ep_credential_key_matchers :: "GlobMatcher list"
  ep_media_url_matchers :: "UrlMatcher list"
  ep_has_http :: bool
  ep_has_credentials :: bool
  ep_has_media :: bool

definition compile_url_matchers :: "regex_api \<Rightarrow> string list \<Rightarrow> UrlMatcher list" where
  "compile_url_matchers rx patterns = List.map_filter (UrlMatcher_new rx) patterns"

definition compile_glob_matchers :: "regex_api \<Rightarrow> string list \<Rightarrow> GlobMatcher list" where
  "compile_glob_matchers rx patterns = List.map_filter (GlobMatcher_new rx) patterns"

text \<open>The patterns in force: the operator's, if the override has any, otherwise the plugin's own.\<close>

definition effective_patterns :: "string list option \<Rightarrow> string list option \<Rightarrow> string list" where
  "effective_patterns declared overriding =
     (case overriding of Some ps \<Rightarrow> ps | None \<Rightarrow> (case declared of Some ps \<Rightarrow> ps | None \<Rightarrow> []))"

definition compute_http_permissions ::
    "regex_api \<Rightarrow> HttpPermission option \<Rightarrow> PermissionOverride option \<Rightarrow> UrlMatcher list \<times> usize option \<times> bool" where
  "compute_http_permissions rx declared ov =
     (let patterns = effective_patterns (map_option hp_allowed_urls declared) (Option.bind ov ov_http_allowed_urls);
          has_http = (declared \<noteq> None \<or> Option.bind ov ov_http_allowed_urls \<noteq> None);
          declared_rpm = Option.bind declared hp_max_requests_per_minute;
          max_rpm = (case Option.bind ov ov_http_max_requests_per_minute of Some n \<Rightarrow> Some n | None \<Rightarrow> declared_rpm)
      in (compile_url_matchers rx patterns, max_rpm, has_http))"

definition compute_credential_permissions ::
    "regex_api \<Rightarrow> string list option \<Rightarrow> PermissionOverride option \<Rightarrow> GlobMatcher list \<times> bool" where
  "compute_credential_permissions rx declared ov =
     (let patterns = effective_patterns declared (Option.bind ov ov_credential_allowed_keys)
      in (compile_glob_matchers rx patterns, declared \<noteq> None \<or> Option.bind ov ov_credential_allowed_keys \<noteq> None))"

definition compute_media_permissions ::
    "regex_api \<Rightarrow> string list option \<Rightarrow> PermissionOverride option \<Rightarrow> UrlMatcher list \<times> bool" where
  "compute_media_permissions rx declared ov =
     (let patterns = effective_patterns declared (Option.bind ov ov_media_allowed_urls)
      in (compile_url_matchers rx patterns, declared \<noteq> None \<or> Option.bind ov ov_media_allowed_urls \<noteq> None))"

definition no_permissions :: "string \<Rightarrow> EffectivePermissions" where
  "no_permissions plugin_id =
     \<lparr>ep_plugin_id = plugin_id, ep_http_url_matchers = [], ep_http_max_requests_per_minute = None,
      ep_credential_key_matchers = [], ep_media_url_matchers = [],
      ep_has_http = False, ep_has_credentials = False, ep_has_media = False\<rparr>"

definition compute_effective_permissions ::
    "regex_api \<Rightarrow> string \<Rightarrow> DeclaredPermissions \<Rightarrow> PermissionConfig \<Rightarrow> EffectivePermissions" where
  "compute_effective_permissions rx plugin_id declared config =
     (let ov = hm_get (pc_overrides config) plugin_id
      in if (case ov of Some p \<Rightarrow> ov_deny_all p | None \<Rightarrow> False) then no_permissions plugin_id
         else (let (http, rpm, has_http) = compute_http_permissions rx (dp_http declared) ov;
                   (cred, has_cred) = compute_credential_permissions rx (dp_credentials declared) ov;
                   (media, has_media) = compute_media_permissions rx (dp_media declared) ov
               in \<lparr>ep_plugin_id = plugin_id, ep_http_url_matchers = http, ep_http_max_requests_per_minute = rpm,
                   ep_credential_key_matchers = cred, ep_media_url_matchers = media,
                   ep_has_http = has_http, ep_has_credentials = has_cred, ep_has_media = has_media\<rparr>))"

subsection \<open>Enforcement\<close>

datatype PermissionError =
    HttpUrlDenied string string string
  | CredentialScopeDenied string string string
  | MediaUrlDenied string string string
  | PermissionNotGranted string string string

record PermissionEnforcer =
  pe_permissions :: EffectivePermissions
  pe_enabled :: bool

definition PermissionEnforcer_permissive :: "string \<Rightarrow> PermissionEnforcer" where
  "PermissionEnforcer_permissive plugin_id = \<lparr>pe_permissions = no_permissions plugin_id, pe_enabled = False\<rparr>"

definition http_max_requests_per_minute :: "PermissionEnforcer \<Rightarrow> usize option" where
  "http_max_requests_per_minute e = (if pe_enabled e then ep_http_max_requests_per_minute (pe_permissions e) else None)"

definition check_http_url :: "(string \<Rightarrow> parsed_url option) \<Rightarrow> PermissionEnforcer \<Rightarrow> string \<Rightarrow> PermissionError + unit" where
  "check_http_url parse e url =
     (let p = pe_permissions e
      in if \<not> pe_enabled e then Inr ()
         else if \<not> ep_has_http p then Inl (HttpUrlDenied (ep_plugin_id p) url ''http permission block not declared'')
         else if ep_http_url_matchers p = [] then Inl (HttpUrlDenied (ep_plugin_id p) url ''no URL patterns allowed'')
         else if list_ex (\<lambda>m. url_matches parse m url) (ep_http_url_matchers p) then Inr ()
         else Inl (HttpUrlDenied (ep_plugin_id p) url
                (''URL does not match any allowed pattern (allowed: ['' @
                 join '', '' (map um_pattern (ep_http_url_matchers p)) @ ''])'')))"

definition check_credential_key :: "PermissionEnforcer \<Rightarrow> string \<Rightarrow> PermissionError + unit" where
  "check_credential_key e key =
     (let p = pe_permissions e
      in if \<not> pe_enabled e then Inr ()
         else if \<not> ep_has_credentials p
         then Inl (CredentialScopeDenied (ep_plugin_id p) key ''credentials permission block not declared'')
         else if ep_credential_key_matchers p = []
         then Inl (CredentialScopeDenied (ep_plugin_id p) key ''no credential key patterns allowed'')
         else if list_ex (\<lambda>m. gm_regex m key) (ep_credential_key_matchers p) then Inr ()
         else Inl (CredentialScopeDenied (ep_plugin_id p) key
                (''key does not match any allowed pattern (allowed: ['' @
                 join '', '' (map gm_pattern (ep_credential_key_matchers p)) @ ''])'')))"

definition check_media_url :: "(string \<Rightarrow> parsed_url option) \<Rightarrow> PermissionEnforcer \<Rightarrow> string \<Rightarrow> PermissionError + unit" where
  "check_media_url parse e url =
     (let p = pe_permissions e
      in if \<not> pe_enabled e then Inr ()
         else if \<not> ep_has_media p then Inl (MediaUrlDenied (ep_plugin_id p) url ''media permission block not declared'')
         else if ep_media_url_matchers p = [] then Inl (MediaUrlDenied (ep_plugin_id p) url ''no media URL patterns allowed'')
         else if list_ex (\<lambda>m. url_matches parse m url) (ep_media_url_matchers p) then Inr ()
         else Inl (MediaUrlDenied (ep_plugin_id p) url
                (''URL does not match any allowed pattern (allowed: ['' @
                 join '', '' (map um_pattern (ep_media_url_matchers p)) @ ''])'')))"

subsection \<open>Validation when a plugin is loaded\<close>

definition invalid_patterns ::
    "string \<Rightarrow> string \<Rightarrow> string \<Rightarrow> (string \<Rightarrow> bool) \<Rightarrow> string list \<Rightarrow> PermissionError list" where
  "invalid_patterns plugin_id scope reason valid ps =
     map (\<lambda>p. PermissionNotGranted plugin_id (scope @ p) reason) (filter (\<lambda>p. \<not> valid p) ps)"

definition validate_declared_permissions ::
    "regex_api \<Rightarrow> string \<Rightarrow> DeclaredPermissions \<Rightarrow> PermissionConfig \<Rightarrow> PermissionError list" where
  "validate_declared_permissions rx plugin_id declared config =
     (if \<not> pc_enabled config then []
      else if (case hm_get (pc_overrides config) plugin_id of Some ov \<Rightarrow> ov_deny_all ov | None \<Rightarrow> False) then
        (if dp_http declared \<noteq> None \<or> dp_credentials declared \<noteq> None \<or> dp_media declared \<noteq> None
         then [PermissionNotGranted plugin_id ''all'' ''plugin is deny_all in gateway config''] else [])
      else
        (case dp_http declared of
           None \<Rightarrow> []
         | Some http \<Rightarrow>
             invalid_patterns plugin_id ''http.allowed_urls: '' ''invalid URL pattern''
               (\<lambda>p. UrlMatcher_new rx p \<noteq> None) (hp_allowed_urls http) @
             (case hp_max_requests_per_minute http of
                None \<Rightarrow> []
              | Some rpm \<Rightarrow>
                  if rpm > HTTP_RATE_LIMIT_PER_MINUTE
                  then [PermissionNotGranted plugin_id (''http.max_requests_per_minute: '' @ string_of_nat rpm)
                          (''exceeds global limit of '' @ string_of_nat HTTP_RATE_LIMIT_PER_MINUTE)]
                  else [])) @
        (case dp_credentials declared of
           None \<Rightarrow> []
         | Some keys \<Rightarrow> invalid_patterns plugin_id ''credentials.allowed_keys: '' ''invalid key pattern''
               (\<lambda>p. GlobMatcher_new rx p \<noteq> None) keys) @
        (case dp_media declared of
           None \<Rightarrow> []
         | Some urls \<Rightarrow> invalid_patterns plugin_id ''media.allowed_urls: '' ''invalid URL pattern''
               (\<lambda>p. UrlMatcher_new rx p \<noteq> None) urls))"

subsection \<open>What a pattern means\<close>

fun glob_pieces :: "string \<Rightarrow> piece list" where
  "glob_pieces (a # b # s) =
     (if a = CHR ''*'' \<and> b = CHR ''*'' then AnyText # glob_pieces s
      else (if a = CHR ''*'' then Segment else Lit a) # glob_pieces (b # s))"
| "glob_pieces [a] = [if a = CHR ''*'' then Segment else Lit a]"
| "glob_pieces [] = []"

lemma split_double_star_not_Nil [simp]: "split_double_star s \<noteq> []"
  by (induction s rule: split_double_star.induct) (auto split: list.splits)

lemma regex_okD:
  assumes "regex_ok rx"
  shows "rx_escape rx s = concat (map (\<lambda>c. rx_escape rx [c]) s)"
    "rx_escape rx [c] = [c] \<or> rx_escape rx [c] = [backslash, c]"
    "rx_escape rx [backslash] = [backslash, backslash]"
    "rx_escape rx ''*'' = [backslash, CHR ''*'']"
    "rx_new rx (''^'' @ render (rx_escape rx) ps @ ''$'') = Some (pieces_match ps)"
    "rx_new rx (''^^'' @ render (rx_escape rx) ps @ ''$$'') = Some (pieces_match ps)"
  using assms unfolding regex_ok_def by blast+

lemma escape_Cons: "regex_ok rx \<Longrightarrow> rx_escape rx (c # s) = rx_escape rx [c] @ rx_escape rx s"
  using regex_okD(1) [of rx "c # s"] regex_okD(1) [of rx s] by simp

lemma escape_Nil: "regex_ok rx \<Longrightarrow> rx_escape rx [] = []"
  using regex_okD(1) [of rx "[]"] by simp

lemma escape_char:
  assumes "regex_ok rx"
  shows "rx_escape rx [c] = [c] \<and> c \<noteq> backslash \<and> c \<noteq> CHR ''*'' \<or> rx_escape rx [c] = [backslash, c]"
  using regex_okD(2) [OF assms, of c] regex_okD(3,4) [OF assms] by (cases "c = backslash"; cases "c = CHR ''*''") auto

lemma escape_head: "regex_ok rx \<Longrightarrow> rx_escape rx s \<noteq> CHR ''*'' # t"
proof (cases s)
  case (Cons c cs)
  assume ok: "regex_ok rx"
  show ?thesis using escape_char [OF ok, of c] escape_Cons [OF ok, of c cs] Cons by (auto simp: backslash_def)
qed (simp add: escape_Nil)

lemma replace_star_Cons:
  assumes "a = backslash \<Longrightarrow> \<nexists>t. s = CHR ''*'' # t"
  shows "replace_escaped_star r (a # s) = a # replace_escaped_star r s"
  using assms by (cases s) auto

lemma replace_escape_Cons:
  assumes "regex_ok rx"
  shows "replace_escaped_star r (rx_escape rx (c # s)) =
    (if c = CHR ''*'' then r else rx_escape rx [c]) @ replace_escaped_star r (rx_escape rx s)"
proof (cases "c = CHR ''*''")
  case True
  then show ?thesis using escape_Cons [OF assms, of c s] regex_okD(4) [OF assms] by simp
next
  case False
  have h: "\<nexists>t. rx_escape rx s = CHR ''*'' # t" using escape_head [OF assms] by blast
  from escape_char [OF assms, of c]
  consider "rx_escape rx [c] = [c]" "c \<noteq> backslash" | "rx_escape rx [c] = [backslash, c]" by blast
  then show ?thesis
  proof cases
    case 1
    with False escape_Cons [OF assms, of c s] show ?thesis by (simp add: replace_star_Cons)
  next
    case 2
    with False escape_Cons [OF assms, of c s] h show ?thesis by (simp add: replace_star_Cons)
  qed
qed

lemma render_Cons:
  "render esc (p # ps) = (case p of Lit c \<Rightarrow> esc [c] | AnyText \<Rightarrow> ''.*'' | Segment \<Rightarrow> ''[^/]*'') @ render esc ps"
  by (simp add: render_def)

lemma join_first: "ws \<noteq> [] \<Longrightarrow> join sep ((x @ w) # ws) = x @ join sep (w # ws)" "join sep [x @ w] = x @ join sep [w]"
  by (cases ws; simp)+

text \<open>The regular expression of a pattern is the expression of its pieces.\<close>

lemma glob_to_regex_render:
  assumes "regex_ok rx"
  shows "glob_to_regex rx pattern = ''^'' @ render (rx_escape rx) (glob_pieces pattern) @ ''$''"
proof -
  let ?f = "\<lambda>part. replace_escaped_star ''[^/]*'' (rx_escape rx part)"
  have one: "?f (a # w) = (if a = CHR ''*'' then ''[^/]*'' else rx_escape rx [a]) @ ?f w" for a w
    by (rule replace_escape_Cons [OF assms])
  have "join ''.*'' (map ?f (split_double_star pattern)) = render (rx_escape rx) (glob_pieces pattern)"
  proof (induction pattern rule: glob_pieces.induct)
    case (1 a b s)
    show ?case
    proof (cases "a = CHR ''*'' \<and> b = CHR ''*''")
      case True
      moreover obtain w ws where "split_double_star s = w # ws" by (cases "split_double_star s") auto
      ultimately show ?thesis using 1(1) by (simp add: render_Cons escape_Nil [OF assms])
    next
      case False
      obtain w ws where w: "split_double_star (b # s) = w # ws" by (cases "split_double_star (b # s)") auto
      have "join ''.*'' (map ?f ((a # w) # ws)) =
          (if a = CHR ''*'' then ''[^/]*'' else rx_escape rx [a]) @ join ''.*'' (map ?f (w # ws))"
        by (cases ws) (simp_all add: one)
      moreover have "split_double_star (a # b # s) = (a # w) # ws" using False w by auto
      moreover have "glob_pieces (a # b # s) = (if a = CHR ''*'' then Segment else Lit a) # glob_pieces (b # s)"
        using False by auto
      ultimately show ?thesis using 1(2) [OF False] w by (simp only: render_Cons) simp
    qed
  next
    case (2 a)
    then show ?case using one [of a "[]"] by (simp add: render_def escape_Nil [OF assms])
  qed (simp add: render_def escape_Nil [OF assms])
  then show ?thesis by (simp add: glob_to_regex_def)
qed

definition key_pieces :: "string \<Rightarrow> piece list" where
  "key_pieces = map (\<lambda>c. if c = CHR ''*'' then AnyText else Lit c)"

lemma simple_glob_to_regex_render:
  assumes "regex_ok rx"
  shows "simple_glob_to_regex rx pattern = ''^'' @ render (rx_escape rx) (key_pieces pattern) @ ''$''"
proof -
  have "replace_escaped_star ''.*'' (rx_escape rx pattern) = render (rx_escape rx) (key_pieces pattern)"
    by (induction pattern)
      (simp_all add: escape_Nil [OF assms] replace_escape_Cons [OF assms] key_pieces_def render_def)
  then show ?thesis by (simp add: simple_glob_to_regex_def)
qed

lemma UrlMatcher_new_ok:
  assumes "regex_ok rx"
  shows "UrlMatcher_new rx pattern = Some \<lparr>um_pattern = pattern, um_regex = pieces_match (glob_pieces pattern),
    um_authority = map_option (\<lambda>a. pieces_match (glob_pieces (extract_pattern_host a))) (pattern_authority pattern)\<rparr>"
  using regex_okD(5,6) [OF assms]
  by (simp add: UrlMatcher_new_def glob_to_regex_render [OF assms] split: option.split)

lemma GlobMatcher_new_ok:
  "regex_ok rx \<Longrightarrow> GlobMatcher_new rx pattern = Some \<lparr>gm_pattern = pattern, gm_regex = pieces_match (key_pieces pattern)\<rparr>"
  using simple_glob_to_regex_render [of rx pattern] regex_okD(5) [of rx] by (simp add: GlobMatcher_new_def)

subsection \<open>What is permitted\<close>

text \<open>A pattern admits a URL when the URL reads like the pattern and, if the pattern names a host, the URL
  parser finds a host that reads like the host of the pattern.\<close>

definition pattern_admits :: "(string \<Rightarrow> parsed_url option) \<Rightarrow> string \<Rightarrow> string \<Rightarrow> bool" where
  "pattern_admits parse pattern url \<longleftrightarrow>
     pieces_match (glob_pieces pattern) url \<and>
     (\<forall>authority. pattern_authority pattern = Some authority \<longrightarrow>
        (\<exists>u host. parse url = Some u \<and> url_host u = Some host \<and>
           pieces_match (glob_pieces (extract_pattern_host authority)) host))"

lemma url_matches_iff:
  assumes "regex_ok rx" "UrlMatcher_new rx pattern = Some m"
  shows "url_matches parse m url \<longleftrightarrow> pattern_admits parse pattern url"
  using assms UrlMatcher_new_ok [OF assms(1), of pattern]
  by (auto simp: url_matches_def pattern_admits_def split: option.splits)

lemma compile_url_matchers_ex:
  assumes "regex_ok rx"
  shows "(\<exists>m \<in> set (compile_url_matchers rx ps). url_matches parse m url) \<longleftrightarrow> (\<exists>p \<in> set ps. pattern_admits parse p url)"
proof -
  have "compile_url_matchers rx ps = map (\<lambda>p. the (UrlMatcher_new rx p)) ps"
    by (induction ps) (simp_all add: compile_url_matchers_def map_filter_simps UrlMatcher_new_ok [OF assms])
  then show ?thesis using url_matches_iff [OF assms] UrlMatcher_new_ok [OF assms] by auto
qed

definition http_patterns :: "string \<Rightarrow> DeclaredPermissions \<Rightarrow> PermissionConfig \<Rightarrow> string list" where
  "http_patterns plugin_id declared config =
     effective_patterns (map_option hp_allowed_urls (dp_http declared))
       (Option.bind (hm_get (pc_overrides config) plugin_id) ov_http_allowed_urls)"


lemma pieces_match_lits: "pieces_match (map Lit w) s \<longleftrightarrow> s = w"
  by (induction w arbitrary: s) (auto split: list.split)

lemma pieces_match_segment:
  "pieces_match (Segment # ps) s \<longleftrightarrow> (\<exists>a b. s = a @ b \<and> CHR ''/'' \<notin> set a \<and> pieces_match ps b)"
proof
  assume "pieces_match (Segment # ps) s"
  then show "\<exists>a b. s = a @ b \<and> CHR ''/'' \<notin> set a \<and> pieces_match ps b"
    by (auto simp: list_ex_iff simp del: upt_Suc) (metis append_take_drop_id)
next
  assume "\<exists>a b. s = a @ b \<and> CHR ''/'' \<notin> set a \<and> pieces_match ps b"
  then obtain a b where "s = a @ b" "CHR ''/'' \<notin> set a" "pieces_match ps b" by blast
  then have "length a \<in> set [0..<Suc (length s)] \<and> CHR ''/'' \<notin> set (take (length a) s) \<and>
      pieces_match ps (drop (length a) s)" by simp
  then show "pieces_match (Segment # ps) s" unfolding pieces_match.simps list_ex_iff by blast
qed

lemma glob_pieces_lits: "CHR ''*'' \<notin> set w \<Longrightarrow> glob_pieces w = map Lit w"
  by (induction w rule: glob_pieces.induct) auto

lemma glob_pieces_star_dot: "CHR ''*'' \<notin> set w \<Longrightarrow> glob_pieces (CHR ''*'' # CHR ''.'' # w) = Segment # map Lit (CHR ''.'' # w)"
  using glob_pieces_lits [of "CHR ''.'' # w"] by simp

lemma https_authority:
  assumes "CHR ''/'' \<notin> set host"
  shows "pattern_authority (''https://'' @ host @ CHR ''/'' # path) = Some host"
proof -
  let ?s = "''https://'' @ host @ CHR ''/'' # path"
  have "List.find (\<lambda>n. starts_with (drop n ?s) ''://'') [0..<Suc (length ?s)] = Some 5"
    by (simp add: upt_conv_Cons starts_with_def del: upt_Suc)
  then have "split_once_str ''://'' ?s = Some (''https'', host @ CHR ''/'' # path)"
    by (simp add: split_once_str_def)
  moreover have "takeWhile (\<lambda>c. c \<noteq> CHR ''/'') (host @ CHR ''/'' # path) = host"
    using assms by (induction host) auto
  ultimately show ?thesis by (simp add: pattern_authority_def)
qed

lemma plain_host:
  assumes "CHR ''@'' \<notin> set host" "CHR '':'' \<notin> set host" "CHR ''['' \<notin> set host"
  shows "extract_pattern_host host = host"
proof -
  have "rsplit_at CHR ''@'' host = None" "rsplit_at CHR '':'' host = None"
    using assms split_once_None [of "CHR ''@''" "rev host"] split_once_None [of "CHR '':''" "rev host"]
    by (simp_all add: rsplit_at_def)
  with assms(3) show ?thesis
    by (auto simp: extract_pattern_host_def Let_def split: list.split char.split bool.split)
qed

text \<open>
  A pattern for the names below a domain confines the plugin to that domain: a URL admitted by
  \<^verbatim>\<open>https://*.domain/path\<close> has, for the URL parser, a host that ends in a dot and the domain, whatever the text
  of the URL looks like.
\<close>

theorem subdomain_pattern_confines:
  assumes "set base \<inter> {CHR ''*'', CHR ''/'', CHR ''@'', CHR '':'', CHR ''[''} = {}" "regex_ok rx"
    "UrlMatcher_new rx (''https://*.'' @ base @ CHR ''/'' # path) = Some m" "url_matches parse m url"
  shows "\<exists>u host sub. parse url = Some u \<and> url_host u = Some host \<and> host = sub @ CHR ''.'' # base \<and>
    CHR ''/'' \<notin> set sub"
proof -
  let ?h = "CHR ''*'' # CHR ''.'' # base"
  have d: "CHR ''*'' \<notin> set base" "CHR ''/'' \<notin> set ?h" "CHR ''@'' \<notin> set ?h" "CHR '':'' \<notin> set ?h" "CHR ''['' \<notin> set ?h"
    using assms(1) by auto
  have "pattern_authority (''https://*.'' @ base @ CHR ''/'' # path) = Some ?h"
    using https_authority [OF d(2), of path] by simp
  then obtain u host where u: "parse url = Some u" "url_host u = Some host" "pieces_match (glob_pieces ?h) host"
    using assms(4) plain_host [OF d(3-5)] unfolding url_matches_iff [OF assms(2,3)] pattern_admits_def by auto
  then have "\<exists>sub. host = sub @ CHR ''.'' # base \<and> CHR ''/'' \<notin> set sub"
    unfolding glob_pieces_star_dot [OF d(1)] pieces_match_segment pieces_match_lits by blast
  with u show ?thesis by blast
qed

subsection \<open>An engine for the expressions that occur\<close>

definition ex_meta :: "char set" where
  "ex_meta = set ''.+*?()|[]{}^$#&-~'' \<union> {backslash}"

definition ex_escape :: "string \<Rightarrow> string" where
  "ex_escape s = concat (map (\<lambda>c. if c \<in> ex_meta then [backslash, c] else [c]) s)"

function ex_parse :: "string \<Rightarrow> piece list option" where
  "ex_parse [] = Some []"
| "ex_parse (c # s) =
     (if c = backslash then (if s = [] then None else map_option ((#) (Lit (hd s))) (ex_parse (drop 1 s)))
      else if starts_with (c # s) ''.*'' then map_option ((#) AnyText) (ex_parse (drop 1 s))
      else if starts_with (c # s) ''[^/]*'' then map_option ((#) Segment) (ex_parse (drop 4 s))
      else if c \<in> ex_meta then None else map_option ((#) (Lit c)) (ex_parse s))"
  by pat_completeness auto

termination by (relation "measure length") auto

definition ex_new :: "string \<Rightarrow> (string \<Rightarrow> bool) option" where
  "ex_new r =
     (let n = (if starts_with r ''^^'' then 2 else 1)
      in map_option pieces_match (ex_parse (drop n (take (length r - n) r))))"

definition ex_regex :: regex_api where
  "ex_regex = \<lparr>rx_escape = ex_escape, rx_new = ex_new\<rparr>"

lemma ex_escape_char: "ex_escape [c] = (if c \<in> ex_meta then [backslash, c] else [c])"
  by (simp add: ex_escape_def)

lemma ex_parse_render: "ex_parse (render ex_escape ps) = Some ps"
proof (induction ps)
  case (Cons p ps)
  show ?case
  proof (cases p)
    case (Lit c)
    have "CHR ''.'' \<in> ex_meta" "CHR ''['' \<in> ex_meta" "backslash \<in> ex_meta" by (simp_all add: ex_meta_def)
    then have "c \<notin> ex_meta \<Longrightarrow> c \<noteq> backslash \<and> c \<noteq> CHR ''.'' \<and> c \<noteq> CHR ''[''" by auto
    then show ?thesis using Cons Lit by (auto simp: render_Cons ex_escape_char starts_with_def)
  qed (use Cons in \<open>simp_all add: render_Cons starts_with_def backslash_def\<close>)
qed (simp add: render_def)

lemma render_head: "\<not> starts_with (render ex_escape ps) ''^'' "
proof (cases ps)
  case (Cons p ps')
  have "CHR ''^'' \<in> ex_meta" by (simp add: ex_meta_def)
  then show ?thesis
    by (cases p) (auto simp: Cons render_Cons ex_escape_char starts_with_def backslash_def split: if_splits)
qed (simp add: render_def starts_with_def)

lemma ex_regex_ok: "regex_ok ex_regex"
proof -
  have meta: "backslash \<in> ex_meta" "CHR ''*'' \<in> ex_meta" by (simp_all add: ex_meta_def)
  have "ex_new (''^'' @ render ex_escape ps @ ''$'') = Some (pieces_match ps)" for ps
  proof -
    have "\<not> starts_with (''^'' @ render ex_escape ps @ ''$'') ''^^''"
      using render_head [of ps] by (cases "render ex_escape ps") (simp_all add: starts_with_def)
    then show ?thesis by (simp add: ex_new_def ex_parse_render)
  qed
  moreover have "ex_new (''^^'' @ render ex_escape ps @ ''$$'') = Some (pieces_match ps)" for ps
    by (simp add: ex_new_def ex_parse_render starts_with_def)
  moreover have "ex_escape s = concat (map (\<lambda>c. ex_escape [c]) s)" for s by (simp add: ex_escape_def)
  ultimately show ?thesis unfolding regex_ok_def ex_regex_def
    by (auto simp: meta ex_escape_char simp del: append_Cons append.simps)
qed

text \<open>A URL parser for the witnesses: the scheme ends at the first colon and slashes, the host at the first
  slash, question mark or hash sign.\<close>

definition ex_parse_url :: "string \<Rightarrow> parsed_url option" where
  "ex_parse_url url =
     map_option (\<lambda>(scheme, rest). \<lparr>url_scheme = scheme,
        url_host = Some (takeWhile (\<lambda>c. c \<notin> {CHR ''/'', CHR ''?'', CHR ''#''}) rest)\<rparr>)
       (split_once_str ''://'' url)"

theorem subdomain_pattern_confines_witness:
  "\<exists>u host sub. ex_parse_url ''https://a.b.c/x'' = Some u \<and> url_host u = Some host \<and> host = sub @ ''.b.c'' \<and> CHR ''/'' \<notin> set sub"
proof -
  let ?p = "''https://*.b.c/x''"
  obtain m where m: "UrlMatcher_new ex_regex ?p = Some m" using UrlMatcher_new_ok [OF ex_regex_ok, of ?p] by blast
  have auth: "pattern_authority ?p = Some ''*.b.c''" using https_authority [of "''*.b.c''" "''x''"] by simp
  have host: "extract_pattern_host ''*.b.c'' = ''*.b.c''" by (rule plain_host) simp_all
  have parse: "ex_parse_url ''https://a.b.c/x'' = Some \<lparr>url_scheme = ''https'', url_host = Some ''a.b.c''\<rparr>"
    by (simp add: ex_parse_url_def split_once_str_def starts_with_def)
  have "pattern_admits ex_parse_url ?p ''https://a.b.c/x''"
    unfolding pattern_admits_def by (simp add: auth host parse)
  with m have "url_matches ex_parse_url m ''https://a.b.c/x''" by (simp add: url_matches_iff [OF ex_regex_ok])
  then show ?thesis
    using subdomain_pattern_confines [of "''b.c''" ex_regex "''x''" m ex_parse_url "''https://a.b.c/x''"] m ex_regex_ok by simp
qed


end
