(* ===== verification/Plugin_Host.thy ===== *)
theory Plugin_Host
  imports Plugin_Permissions Tool_Policy
begin

text \<open>
  The functions the host offers to plugins (\<^verbatim>\<open>src/plugins/host.rs\<close>): logging, configuration, credentials, HTTP
  and media requests, with the quotas, name spaces, permissions and address filter of the two theories below.

  The network is a parameter: \<open>parse\<close> is the URL parser, \<open>lookup\<close> the DNS resolver (\<open>None\<close> is a failure), and the
  chunks of a response are a list. A request is followed up to the address it connects to. The text of a
  refused permission is kept as the error value; sending itself and the temporary file are left out.
\<close>

subsection \<open>Context and errors\<close>

datatype HostError =
    Capability CapabilityError
  | PermissionDenied PermissionError
  | HttpError string
  | DnsResolution string
  | MediaFetch string
  | UrlTooLong nat nat
  | BodyTooLarge nat nat

definition MAX_LOG_MESSAGE_SIZE :: usize where
  "MAX_LOG_MESSAGE_SIZE = 4 * 1024"

definition MAX_HTTP_BODY_SIZE :: usize where
  "MAX_HTTP_BODY_SIZE = 10 * 1024 * 1024"

definition MAX_HTTP_RESPONSE_SIZE :: usize where
  "MAX_HTTP_RESPONSE_SIZE = 10 * 1024 * 1024"

definition MAX_URL_LENGTH :: usize where
  "MAX_URL_LENGTH = 2048"

record HttpRequest =
  req_method :: string
  req_url :: string
  req_body :: "string option"

record PluginHostContext =
  ctx_plugin_id :: string
  ctx_ssrf_config :: SsrfConfig
  ctx_enforcer :: PermissionEnforcer

text \<open>What the contexts of all plugins share: the quotas, and the table that throttles audit records of
  denials, with the records written so far. The audit clock is in nanoseconds.\<close>

record host_state =
  hs_limiters :: RateLimiterRegistry
  hs_last_denial :: "(string, nat) hmap"
  hs_audit :: "(string \<times> string) list"

definition emit_permission_denied_audit :: "nat \<Rightarrow> string \<Rightarrow> string \<Rightarrow> host_state \<Rightarrow> host_state" where
  "emit_permission_denied_audit now plugin_id capability s =
     (case hm_get (hs_last_denial s) plugin_id of
        Some prev \<Rightarrow> if now - prev < 60 * 1000000000 then s
                     else s\<lparr>hs_last_denial := hm_insert plugin_id now (hs_last_denial s),
                            hs_audit := hs_audit s @ [(plugin_id, capability)]\<rparr>
      | None \<Rightarrow> s\<lparr>hs_last_denial := hm_insert plugin_id now (hs_last_denial s),
                  hs_audit := hs_audit s @ [(plugin_id, capability)]\<rparr>)"

subsection \<open>Logging\<close>

text \<open>Strings are UTF-8 bytes; a position is a boundary unless it is inside the text and on a continuation
  byte.\<close>

definition is_char_boundary :: "string \<Rightarrow> nat \<Rightarrow> bool" where
  "is_char_boundary s i \<longleftrightarrow>
     i = 0 \<or> i = length s \<or> i < length s \<and> \<not> (let n = (of_char (s ! i) :: nat) in 128 \<le> n \<and> n < 192)"

fun find_boundary :: "string \<Rightarrow> nat \<Rightarrow> nat" where
  "find_boundary s 0 = 0"
| "find_boundary s (Suc i) = (if is_char_boundary s (Suc i) then Suc i else find_boundary s i)"

definition safe_truncate :: "string \<Rightarrow> usize \<Rightarrow> string" where
  "safe_truncate s max_bytes = (if length s \<le> max_bytes then s else take (find_boundary s max_bytes) s)"

definition log_with_level :: "u64 \<Rightarrow> PluginHostContext \<Rightarrow> string \<Rightarrow> host_state \<Rightarrow> (HostError + string) \<times> host_state" where
  "log_with_level now ctx message s =
     (case registry_check_log now (ctx_plugin_id ctx) (hs_limiters s) of
        (Inl e, R) \<Rightarrow> (Inl (Capability e), s\<lparr>hs_limiters := R\<rparr>)
      | (Inr _, R) \<Rightarrow> (Inr (safe_truncate message MAX_LOG_MESSAGE_SIZE), s\<lparr>hs_limiters := R\<rparr>))"

subsection \<open>Configuration and credentials\<close>

fun get_config_value :: "'j json_api \<Rightarrow> 'j \<Rightarrow> string list \<Rightarrow> 'j option" where
  "get_config_value J current [] = Some current"
| "get_config_value J current (part # parts) =
     (if j_is_object J current then
        (case j_get J current part of None \<Rightarrow> None | Some v \<Rightarrow> get_config_value J v parts)
      else None)"

definition config_get :: "'j json_api \<Rightarrow> 'j \<Rightarrow> PluginHostContext \<Rightarrow> string \<Rightarrow> HostError + 'j option" where
  "config_get J config ctx key =
     (let full = full_key (ctx_plugin_id ctx) key
      in case check_access (ctx_plugin_id ctx) full of
           Inl e \<Rightarrow> Inl (Capability e)
         | Inr _ \<Rightarrow> Inr (get_config_value J config (split_by (\<lambda>c. c = CHR ''.'') full)))"

text \<open>The key under which \<^verbatim>\<open>credential_get\<close> and \<^verbatim>\<open>credential_set\<close> go to the credential store.\<close>

definition credential_key :: "nat \<Rightarrow> PluginHostContext \<Rightarrow> string \<Rightarrow> host_state \<Rightarrow> (HostError + string) \<times> host_state" where
  "credential_key audit_now ctx key s =
     (case validate_key key of
        Inl e \<Rightarrow> (Inl (Capability e), s)
      | Inr _ \<Rightarrow>
          (case check_credential_key (ctx_enforcer ctx) key of
             Inl e \<Rightarrow> (Inl (PermissionDenied e),
                       emit_permission_denied_audit audit_now (ctx_plugin_id ctx) (''credential:'' @ key) s)
           | Inr _ \<Rightarrow> (Inr (prefix_key (ctx_plugin_id ctx) key), s)))"

subsection \<open>HTTP\<close>

definition to_ascii_uppercase :: "string \<Rightarrow> string" where
  "to_ascii_uppercase =
     map (\<lambda>c. let n = (of_char c :: nat) in if 97 \<le> n \<and> n \<le> 122 then char_of (n - 32) else c)"

definition request_limit :: "PluginHostContext \<Rightarrow> usize" where
  "request_limit ctx = unwrap_or (http_max_requests_per_minute (ctx_enforcer ctx)) HTTP_RATE_LIMIT_PER_MINUTE"

definition take_request_slot :: "u64 \<Rightarrow> PluginHostContext \<Rightarrow> host_state \<Rightarrow> (HostError + unit) \<times> host_state" where
  "take_request_slot now ctx s =
     (case registry_check_http now (ctx_plugin_id ctx) (request_limit ctx) (hs_limiters s) of
        (Inl e, R) \<Rightarrow> (Inl (Capability e), s\<lparr>hs_limiters := R\<rparr>)
      | (Inr _, R) \<Rightarrow> (Inr (), s\<lparr>hs_limiters := R\<rparr>))"

definition validate_http_request ::
    "(string \<Rightarrow> parsed_url option) \<Rightarrow> u64 \<Rightarrow> nat \<Rightarrow> PluginHostContext \<Rightarrow> HttpRequest \<Rightarrow> host_state \<Rightarrow>
     (HostError + string \<times> parsed_url) \<times> host_state" where
  "validate_http_request parse now audit_now ctx req s =
     (if length (req_url req) > MAX_URL_LENGTH then (Inl (UrlTooLong (length (req_url req)) MAX_URL_LENGTH), s)
      else (case parse (req_url req) of
          None \<Rightarrow> (Inl (HttpError ''Invalid URL''), s)
        | Some u \<Rightarrow>
            if url_scheme u \<noteq> ''https'' then (Inl (HttpError (''Only HTTPS URLs are allowed, got '' @ url_scheme u)), s)
            else (case validate_url_with_config parse (req_url req) (ctx_ssrf_config ctx) of
                Inl e \<Rightarrow> (Inl (Capability e), s)
              | Inr _ \<Rightarrow>
                  (case check_http_url parse (ctx_enforcer ctx) (req_url req) of
                     Inl e \<Rightarrow> (Inl (PermissionDenied e),
                               emit_permission_denied_audit audit_now (ctx_plugin_id ctx) (''http:'' @ req_url req) s)
                   | Inr _ \<Rightarrow>
                       (case take_request_slot now ctx s of
                          (Inl e, s) \<Rightarrow> (Inl e, s)
                        | (Inr _, s) \<Rightarrow>
                            (let too_large = (case req_body req of None \<Rightarrow> False | Some b \<Rightarrow> length b > MAX_HTTP_BODY_SIZE);
                                 method = to_ascii_uppercase (req_method req)
                             in if too_large then (Inl (BodyTooLarge (length (the (req_body req))) MAX_HTTP_BODY_SIZE), s)
                                else if method \<notin> {''GET'', ''POST'', ''PUT'', ''DELETE'', ''PATCH'', ''HEAD'', ''OPTIONS''}
                                then (Inl (HttpError (''Invalid HTTP method: '' @ method)), s)
                                else (Inr (method, u), s)))))))"

text \<open>All addresses of the name are validated; the first one is pinned.\<close>

fun validate_addresses :: "SsrfConfig \<Rightarrow> string \<Rightarrow> IpAddr list \<Rightarrow> IpAddr option \<Rightarrow> HostError + IpAddr option" where
  "validate_addresses cfg host [] pinned = Inr pinned"
| "validate_addresses cfg host (ip # ips) pinned =
     (case validate_resolved_ip_with_config ip host cfg of
        Inl e \<Rightarrow> Inl (Capability e)
      | Inr _ \<Rightarrow> validate_addresses cfg host ips (if pinned = None then Some ip else pinned))"

definition resolve_and_validate_dns ::
    "(string \<Rightarrow> IpAddr list option) \<Rightarrow> SsrfConfig \<Rightarrow> string \<Rightarrow> HostError + IpAddr" where
  "resolve_and_validate_dns lookup cfg host =
     (case lookup host of
        None \<Rightarrow> Inl (DnsResolution (''resolution failed for '' @ host))
      | Some ips \<Rightarrow>
          (case validate_addresses cfg host ips None of
             Inl e \<Rightarrow> Inl e
           | Inr None \<Rightarrow> Inl (DnsResolution (''resolution returned no addresses for '' @ host))
           | Inr (Some ip) \<Rightarrow> Inr ip))"

text \<open>The address the client connects to: the literal one, or the pinned address of the name.\<close>

definition build_secure_http_client ::
    "(string \<Rightarrow> IpAddr list option) \<Rightarrow> SsrfConfig \<Rightarrow> string \<Rightarrow> HostError + IpAddr" where
  "build_secure_http_client lookup cfg host =
     (case parse_ip_addr host of Some ip \<Rightarrow> Inr ip | None \<Rightarrow> resolve_and_validate_dns lookup cfg host)"

definition http_fetch_target ::
    "(string \<Rightarrow> parsed_url option) \<Rightarrow> (string \<Rightarrow> IpAddr list option) \<Rightarrow> u64 \<Rightarrow> nat \<Rightarrow> PluginHostContext \<Rightarrow>
     HttpRequest \<Rightarrow> host_state \<Rightarrow> (HostError + string \<times> IpAddr) \<times> host_state" where
  "http_fetch_target parse lookup now audit_now ctx req s =
     (case validate_http_request parse now audit_now ctx req s of
        (Inl e, s) \<Rightarrow> (Inl e, s)
      | (Inr (method, u), s) \<Rightarrow>
          (case url_host u of
             None \<Rightarrow> (Inl (HttpError ''URL has no host''), s)
           | Some host \<Rightarrow>
               (case build_secure_http_client lookup (ctx_ssrf_config ctx) host of
                  Inl e \<Rightarrow> (Inl e, s)
                | Inr ip \<Rightarrow> (Inr (method, ip), s))))"

subsection \<open>Media\<close>

definition as_media_error :: "HostError \<Rightarrow> HostError" where
  "as_media_error e = (case e of HttpError m \<Rightarrow> MediaFetch m | DnsResolution m \<Rightarrow> MediaFetch m | _ \<Rightarrow> e)"

definition build_media_fetch_client ::
    "(string \<Rightarrow> IpAddr list option) \<Rightarrow> SsrfConfig \<Rightarrow> parsed_url \<Rightarrow> HostError + IpAddr" where
  "build_media_fetch_client lookup cfg u =
     (case url_host u of
        None \<Rightarrow> Inl (MediaFetch ''URL has no host'')
      | Some host \<Rightarrow>
          (case parse_ip_addr host of
             Some ip \<Rightarrow> Inr ip
           | None \<Rightarrow> (case resolve_and_validate_dns lookup cfg host of
                 Inl e \<Rightarrow> Inl (as_media_error e) | Inr ip \<Rightarrow> Inr ip)))"

definition media_fetch_target ::
    "(string \<Rightarrow> parsed_url option) \<Rightarrow> (string \<Rightarrow> IpAddr list option) \<Rightarrow> u64 \<Rightarrow> nat \<Rightarrow> PluginHostContext \<Rightarrow>
     string \<Rightarrow> host_state \<Rightarrow> (HostError + IpAddr) \<times> host_state" where
  "media_fetch_target parse lookup now audit_now ctx url s =
     (if length url > MAX_URL_LENGTH then (Inl (UrlTooLong (length url) MAX_URL_LENGTH), s)
      else (case validate_url_with_config parse url (ctx_ssrf_config ctx) of
          Inl e \<Rightarrow> (Inl (Capability e), s)
        | Inr _ \<Rightarrow>
            (case parse url of
               None \<Rightarrow> (Inl (MediaFetch ''Invalid URL''), s)
             | Some u \<Rightarrow>
                 if url_scheme u \<noteq> ''https''
                 then (Inl (MediaFetch (''Only HTTPS URLs are allowed, got '' @ url_scheme u)), s)
                 else (case check_media_url parse (ctx_enforcer ctx) url of
                     Inl e \<Rightarrow> (Inl (PermissionDenied e),
                               emit_permission_denied_audit audit_now (ctx_plugin_id ctx) (''media:'' @ url) s)
                   | Inr _ \<Rightarrow>
                       (case take_request_slot now ctx s of
                          (Inl e, s) \<Rightarrow> (Inl e, s)
                        | (Inr _, s) \<Rightarrow> (build_media_fetch_client lookup (ctx_ssrf_config ctx) u, s))))))"

definition media_max_size :: "u64 option \<Rightarrow> usize" where
  "media_max_size max_bytes = unwrap_or max_bytes MAX_HTTP_RESPONSE_SIZE"

subsection \<open>Reading a response\<close>

fun read_response_body_limited :: "(string + string) list \<Rightarrow> usize \<Rightarrow> string \<Rightarrow> HostError + string" where
  "read_response_body_limited [] max_size body = Inr body"
| "read_response_body_limited (Inl e # chunks) max_size body = Inl (HttpError (''Failed to read response chunk: '' @ e))"
| "read_response_body_limited (Inr chunk # chunks) max_size body =
     (if length body + length chunk > max_size then Inl (BodyTooLarge (length body + length chunk) max_size)
      else read_response_body_limited chunks max_size (body @ chunk))"

subsection \<open>Requests stay outside the blocked networks\<close>

definition lookup_ok :: "(string \<Rightarrow> IpAddr list option) \<Rightarrow> bool" where
  "lookup_ok lookup \<longleftrightarrow> (\<forall>h ips ip. lookup h = Some ips \<and> ip \<in> set ips \<longrightarrow> addr_ok ip)"

lemma validate_addresses_pinned:
  assumes "validate_addresses cfg host ips pinned = Inr (Some ip)"
  shows "pinned = Some ip \<or> ip \<in> set ips \<and> \<not> is_private_ip_with_config cfg ip"
  using assms
  by (induction ips arbitrary: pinned)
    (auto simp: validate_resolved_ip_with_config_def split: sum.splits if_splits)

lemma validate_addresses_all:
  "validate_addresses cfg host ips pinned = Inr r \<Longrightarrow> list_all (\<lambda>ip. \<not> is_private_ip_with_config cfg ip) ips"
  by (induction ips arbitrary: pinned)
    (auto simp: validate_resolved_ip_with_config_def split: sum.splits if_splits)

lemma resolve_public:
  assumes "lookup_ok lookup" "resolve_and_validate_dns lookup cfg host = Inr ip"
  shows "\<not> in_blocked_network cfg ip"
proof -
  from assms(2) obtain ips where "lookup host = Some ips" "validate_addresses cfg host ips None = Inr (Some ip)"
    by (auto simp: resolve_and_validate_dns_def split: option.splits sum.splits)
  with validate_addresses_pinned [OF this(2)] assms(1) have "addr_ok ip" "\<not> is_private_ip_with_config cfg ip"
    by (auto simp: lookup_ok_def)
  then show ?thesis using private_v4_networks private_v6_networks by (cases ip) auto
qed

text \<open>What both kinds of requests have passed when they connect.\<close>

lemma url_target_public:
  assumes "lookup_ok lookup" "validate_url_with_config parse url cfg = Inr ()" "parse url = Some u" "url_host u = Some host"
    "(case parse_ip_addr host of Some ip \<Rightarrow> Inr ip | None \<Rightarrow> resolve_and_validate_dns lookup cfg host) = Inr ip"
  shows "\<not> in_blocked_network cfg ip"
proof (cases "parse_ip_addr host")
  case None
  then show ?thesis using resolve_public [OF assms(1)] assms(5) by simp
next
  case (Some ip')
  then show ?thesis using validated_url [OF assms(2)] assms(3-5) by auto
qed

lemma http_fetch_target_Inr:
  assumes "fst (http_fetch_target parse lookup now audit_now ctx req s) = Inr (method, ip)"
  shows "\<exists>u host. parse (req_url req) = Some u \<and> url_scheme u = ''https'' \<and> url_host u = Some host \<and>
    validate_url_with_config parse (req_url req) (ctx_ssrf_config ctx) = Inr () \<and>
    check_http_url parse (ctx_enforcer ctx) (req_url req) = Inr () \<and>
    build_secure_http_client lookup (ctx_ssrf_config ctx) host = Inr ip"
  using assms
  by (auto simp: http_fetch_target_def validate_http_request_def Let_def split: option.splits sum.splits if_splits prod.splits)

text \<open>
  C28: A request of a plugin never connects into a blocked network: if a fetch gets as far as connecting, the
  URL uses HTTPS, the plugin's permissions admit it, and the address, literal or pinned from the answer of the
  name server, is in none of the blocked networks, whatever the name server answers.
\<close>

theorem plugin_fetch_stays_public:
  assumes "lookup_ok lookup" "fst (http_fetch_target parse lookup now audit_now ctx req s) = Inr (method, ip)"
  shows "\<not> in_blocked_network (ctx_ssrf_config ctx) ip \<and>
    check_http_url parse (ctx_enforcer ctx) (req_url req) = Inr () \<and>
    (\<exists>u. parse (req_url req) = Some u \<and> url_scheme u = ''https'')"
proof -
  obtain u host where u: "parse (req_url req) = Some u" "url_scheme u = ''https''" "url_host u = Some host"
    "validate_url_with_config parse (req_url req) (ctx_ssrf_config ctx) = Inr ()"
    "check_http_url parse (ctx_enforcer ctx) (req_url req) = Inr ()"
    "build_secure_http_client lookup (ctx_ssrf_config ctx) host = Inr ip"
    using http_fetch_target_Inr [OF assms(2)] by blast
  then show ?thesis
    using url_target_public [OF assms(1) u(4,1,3)] by (simp add: build_secure_http_client_def)
qed

lemma media_fetch_stays_public:
  assumes "lookup_ok lookup" "fst (media_fetch_target parse lookup now audit_now ctx url s) = Inr ip"
  shows "\<not> in_blocked_network (ctx_ssrf_config ctx) ip \<and> check_media_url parse (ctx_enforcer ctx) url = Inr ()"
proof -
  obtain u where u: "validate_url_with_config parse url (ctx_ssrf_config ctx) = Inr ()" "parse url = Some u"
    "check_media_url parse (ctx_enforcer ctx) url = Inr ()"
    "build_media_fetch_client lookup (ctx_ssrf_config ctx) u = Inr ip"
    using assms(2) by (auto simp: media_fetch_target_def split: option.splits sum.splits if_splits prod.splits)
  then obtain host where "url_host u = Some host"
    "(case parse_ip_addr host of Some ip \<Rightarrow> Inr ip | None \<Rightarrow> resolve_and_validate_dns lookup (ctx_ssrf_config ctx) host) = Inr ip"
    by (auto simp: build_media_fetch_client_def split: option.splits sum.splits)
  with url_target_public [OF assms(1) u(1,2)] u(3) show ?thesis by blast
qed

text \<open>A text that starts with neither a digit nor a colon is no address.\<close>

lemma parse_ip_addr_name:
  assumes "digit_value c = None" "hex_value c = None" "c \<noteq> CHR '':''"
  shows "parse_ip_addr (c # s) = None"
proof -
  have n: "read_number r m z b (c # s) = None" for r m z b
    using assms(1,2) by (auto simp: read_number_def)
  then have o: "read_octets (Suc k) 0 (c # s) = None" for k by (simp add: read_separator_def)
  have "read_ipv4_addr (c # s) = None" using o [of 3] by (simp add: read_ipv4_addr_def numeral_eq_Suc)
  moreover from this have "read_groups (Suc k) 0 (c # s) = ([], False, c # s)" for k
    using n by (simp add: read_separator_def)
  from this [of 7] have "read_groups 8 0 (c # s) = ([], False, c # s)" by (simp del: read_groups.simps)
  then have "read_ipv6_addr (c # s) = None"
    using assms(3) by (auto simp: read_ipv6_addr_def split: list.split char.split bool.split)
  ultimately show ?thesis by (simp add: parse_ip_addr_def complete_def)
qed

theorem plugin_fetch_stays_public_witness:
  "\<not> in_blocked_network SsrfConfig_default (V4 (8, 8, 8, 8))"
proof -
  let ?ctx = "\<lparr>ctx_plugin_id = ''p'', ctx_ssrf_config = SsrfConfig_default, ctx_enforcer = PermissionEnforcer_permissive ''p''\<rparr>"
  let ?req = "\<lparr>req_method = ''GET'', req_url = ''https://x/'', req_body = None\<rparr>"
  let ?s = "\<lparr>hs_limiters = [], hs_last_denial = [], hs_audit = []\<rparr>"
  let ?parse = "\<lambda>_. Some \<lparr>url_scheme = ''https'', url_host = Some ''x''\<rparr>"
  let ?lookup = "\<lambda>_. Some [V4 (8, 8, 8, 8)]"
  have lk: "lookup_ok ?lookup" by (simp add: lookup_ok_def v4_ok_def)
  have host: "parse_ip_addr ''x'' = None"
    by (rule parse_ip_addr_name) (simp_all add: digit_value_def hex_value_def Let_def)
  have "\<not> is_localhost ''x''" "\<not> is_metadata_endpoint ''x''" "bracket_inner ''x'' = None"
    using host by (simp_all add: is_localhost_def is_metadata_endpoint_def bracket_inner_def starts_with_def ends_with_def
        to_ascii_lowercase_def parse_ip_addr_def parse_ipv4_def parse_ipv6_def split: option.splits)
  then have url: "validate_url_with_config ?parse ''https://x/'' SsrfConfig_default = Inr ()"
    using host by (simp add: validate_url_with_config_def)
  have "fst (take_request_slot 5 ?ctx ?s) = Inr ()"
    by (simp add: take_request_slot_def request_limit_def http_max_requests_per_minute_def PermissionEnforcer_permissive_def
        registry_check_http_def check_http_request_with_limit_def prune_old_entries_def limiter_of_def
        PluginRateLimiter_new_def HTTP_RATE_LIMIT_PER_MINUTE_def Let_def)
  then obtain s' where slot: "take_request_slot 5 ?ctx ?s = (Inr (), s')" by (metis prod.collapse)
  have "build_secure_http_client ?lookup SsrfConfig_default ''x'' = Inr (V4 (8, 8, 8, 8))"
    by (simp add: build_secure_http_client_def host resolve_and_validate_dns_def validate_resolved_ip_with_config_def)
  then have "fst (http_fetch_target ?parse ?lookup 5 0 ?ctx ?req ?s) = Inr (''GET'', V4 (8, 8, 8, 8))"
    using url slot by (simp add: http_fetch_target_def validate_http_request_def MAX_URL_LENGTH_def check_http_url_def
        PermissionEnforcer_permissive_def to_ascii_uppercase_def Let_def)
  from plugin_fetch_stays_public [OF lk this] show ?thesis by simp
qed

subsection \<open>Sizes\<close>

text \<open>
  A response is read completely or refused: reading gives a body exactly if no chunk fails and the chunks
  together fit the limit, and then the body is their concatenation.
\<close>

theorem response_body_exact:
  "read_response_body_limited chunks max_size [] = Inr body \<longleftrightarrow>
     (\<exists>cs. chunks = map Inr cs \<and> body = concat cs) \<and> length body \<le> max_size"
proof -
  have "read_response_body_limited chunks max_size b = Inr body \<longleftrightarrow>
      (\<exists>cs. chunks = map Inr cs \<and> body = b @ concat cs) \<and> length body \<le> max_size" if "length b \<le> max_size" for b
    using that
  proof (induction chunks max_size b rule: read_response_body_limited.induct)
    case (3 chunk chunks max_size b)
    show ?case
    proof (cases "length b + length chunk > max_size")
      case True
      then show ?thesis by (auto simp: Cons_eq_map_conv)
    next
      case False
      then have "read_response_body_limited chunks max_size (b @ chunk) = Inr body \<longleftrightarrow>
          (\<exists>cs. chunks = map Inr cs \<and> body = (b @ chunk) @ concat cs) \<and> length body \<le> max_size"
        using 3 by simp
      moreover have "(\<exists>cs. Inr chunk # chunks = map Inr cs \<and> body = b @ concat cs) \<longleftrightarrow>
          (\<exists>cs. chunks = map Inr cs \<and> body = (b @ chunk) @ concat cs)"
        by (auto simp: Cons_eq_map_conv)
      ultimately show ?thesis using False by simp
    qed
  qed (auto simp: Cons_eq_map_conv)
  from this [of "[]"] show ?thesis by simp
qed

lemma find_boundary_ok: "find_boundary s n \<le> n \<and> is_char_boundary s (find_boundary s n)"
  by (induction n) (auto simp: is_char_boundary_def)

lemma safe_truncate_ok:
  "length (safe_truncate s n) \<le> n \<and> safe_truncate s n = take (length (safe_truncate s n)) s \<and>
   is_char_boundary s (length (safe_truncate s n))"
  using find_boundary_ok [of s n] by (auto simp: safe_truncate_def is_char_boundary_def min_def)

text \<open>A denial is put on record at most once a minute for each plugin.\<close>

lemma denial_audit_throttled:
  assumes "now \<le> later" "later - now < 60 * 1000000000"
  shows "length (hs_audit (emit_permission_denied_audit later p c' (emit_permission_denied_audit now p c s))) \<le>
    length (hs_audit s) + 1"
  using assms by (auto simp: emit_permission_denied_audit_def hm_simps split: option.splits)

end
