(* ===== verification/Connection_Limits.thy ===== *)
theory Connection_Limits
  imports Carapace_Prelude Net_Address
begin

text \<open>
  Limits on concurrent WebSocket connections, \<^verbatim>\<open>src/server/ws/limits.rs\<close>. A tracker counts the
  connections in an atomic counter and, per address, in a map behind a lock; \<^verbatim>\<open>try_acquire\<close> counts up
  first and takes it back when a limit is reached, and the guard it returns counts down when it is
  dropped. The counters are separate, so connections interleave between them: \<open>conn_next\<close> is the next
  atomic action of one connection, \<open>conn_step\<close> lets any of a list of connections take it, and the
  theorems hold in every state so reached. Gauge and counter of the metrics are an integer and a number.
\<close>

subsection \<open>Tracker\<close>

datatype LimitExceeded = TotalLimit | PerIpLimit

record TrackerInner =
  tr_total :: usize
  tr_per_ip :: "(IpAddr, usize) hmap"
  tr_max_connections :: usize
  tr_max_per_ip :: usize
  tr_active_gauge :: int
  tr_rejected_counter :: u64

definition DEFAULT_MAX_CONNECTIONS :: usize where
  "DEFAULT_MAX_CONNECTIONS = 1024"

definition DEFAULT_MAX_PER_IP :: usize where
  "DEFAULT_MAX_PER_IP = 32"

definition with_limits :: "usize \<Rightarrow> usize \<Rightarrow> TrackerInner" where
  "with_limits max_connections max_per_ip =
     \<lparr>tr_total = 0, tr_per_ip = [], tr_max_connections = max_connections, tr_max_per_ip = max_per_ip,
      tr_active_gauge = 0, tr_rejected_counter = 0\<rparr>"

definition is_loopback :: "IpAddr \<Rightarrow> bool" where
  "is_loopback ip = (case ip of V4 a \<Rightarrow> v4_is_loopback a | V6 g \<Rightarrow> v6_is_loopback g)"

definition fetch_add_total :: "TrackerInner \<Rightarrow> TrackerInner" where
  "fetch_add_total t = t\<lparr>tr_total := u64_add (tr_total t) 1\<rparr>"

definition fetch_sub_total :: "TrackerInner \<Rightarrow> TrackerInner" where
  "fetch_sub_total t = t\<lparr>tr_total := (if tr_total t = 0 then u64_max else tr_total t - 1)\<rparr>"

definition reject :: "TrackerInner \<Rightarrow> TrackerInner" where
  "reject t = t\<lparr>tr_rejected_counter := u64_add (tr_rejected_counter t) 1\<rparr>"

definition gauge_add :: "int \<Rightarrow> TrackerInner \<Rightarrow> TrackerInner" where
  "gauge_add d t = t\<lparr>tr_active_gauge := tr_active_gauge t + d\<rparr>"

text \<open>The part of \<^verbatim>\<open>try_acquire\<close> under the lock of the map: the result says whether the address has a slot left.\<close>

definition count_ip :: "IpAddr \<Rightarrow> TrackerInner \<Rightarrow> bool \<times> TrackerInner" where
  "count_ip ip t =
     (let m = (if hm_contains (tr_per_ip t) ip then tr_per_ip t else hm_insert ip 0 (tr_per_ip t))
      in case hm_get m ip of
           None \<Rightarrow> (False, t)
         | Some c \<Rightarrow>
             if c \<ge> tr_max_per_ip t then (False, t\<lparr>tr_per_ip := m\<rparr>)
             else (True, t\<lparr>tr_per_ip := hm_insert ip (c + 1) m\<rparr>))"

definition uncount_ip :: "IpAddr \<Rightarrow> TrackerInner \<Rightarrow> TrackerInner" where
  "uncount_ip ip t =
     (case hm_get (tr_per_ip t) ip of
        None \<Rightarrow> t
      | Some c \<Rightarrow>
          (let c = c - 1
           in t\<lparr>tr_per_ip := (if c = 0 then hm_remove ip (tr_per_ip t)
                                else hm_insert ip c (tr_per_ip t))\<rparr>))"

text \<open>The two operations when nothing interferes; a guard is the address it was made for.\<close>

definition try_acquire :: "IpAddr \<Rightarrow> TrackerInner \<Rightarrow> (LimitExceeded + IpAddr) \<times> TrackerInner" where
  "try_acquire ip t =
     (let prev = tr_total t;
          t = fetch_add_total t
      in if prev \<ge> tr_max_connections t then (Inl TotalLimit, reject (fetch_sub_total t))
         else if is_loopback ip then (Inr ip, gauge_add 1 t)
         else (case count_ip ip t of
                 (False, t) \<Rightarrow> (Inl PerIpLimit, reject (fetch_sub_total t))
               | (True, t) \<Rightarrow> (Inr ip, gauge_add 1 t)))"

definition drop_guard :: "IpAddr \<Rightarrow> TrackerInner \<Rightarrow> TrackerInner" where
  "drop_guard ip t =
     (let t = gauge_add (- 1) (fetch_sub_total t)
      in if is_loopback ip then t else uncount_ip ip t)"

subsection \<open>Interleaved connections\<close>

text \<open>
  Where a connection stands between two atomic actions. \<open>Rolling_back\<close> has still to take the total
  back, \<open>Refused\<close> has still to count the refusal, \<open>Counted\<close> has passed both limits, \<open>Live\<close> holds
  its guard, \<open>Dropping\<close> and \<open>Dropping_ip\<close> are inside the guard's destructor.
\<close>

datatype conn_phase =
    Idle
  | Rolling_back
  | Refused
  | Admitted IpAddr
  | Counted IpAddr
  | Live IpAddr
  | Dropping IpAddr
  | Dropping_ip IpAddr

fun conn_next :: "IpAddr \<Rightarrow> conn_phase \<Rightarrow> TrackerInner \<Rightarrow> conn_phase \<times> TrackerInner" where
  "conn_next ip Idle t =
     (if tr_total t \<ge> tr_max_connections t then (Rolling_back, fetch_add_total t)
      else (Admitted ip, fetch_add_total t))"
| "conn_next _ Rolling_back t = (Refused, fetch_sub_total t)"
| "conn_next _ Refused t = (Idle, reject t)"
| "conn_next _ (Admitted ip) t =
     (if is_loopback ip then (Counted ip, t)
      else (case count_ip ip t of (True, t) \<Rightarrow> (Counted ip, t) | (False, t) \<Rightarrow> (Rolling_back, t)))"
| "conn_next _ (Counted ip) t = (Live ip, gauge_add 1 t)"
| "conn_next _ (Live ip) t = (Dropping ip, fetch_sub_total t)"
| "conn_next _ (Dropping ip) t =
     ((if is_loopback ip then Idle else Dropping_ip ip), gauge_add (- 1) t)"
| "conn_next _ (Dropping_ip ip) t = (Idle, uncount_ip ip t)"

inductive conn_step :: "TrackerInner \<times> conn_phase list \<Rightarrow> TrackerInner \<times> conn_phase list \<Rightarrow> bool" where
  act: "i < length cs \<Longrightarrow> conn_next ip (cs ! i) t = (p, t') \<Longrightarrow> conn_step (t, cs) (t', cs[i := p])"

inductive_cases conn_stepE: "conn_step s s'"

subsection \<open>What the phases hold\<close>

fun holds_total :: "conn_phase \<Rightarrow> bool" where
  "holds_total Rolling_back = True"
| "holds_total (Admitted _) = True"
| "holds_total (Counted _) = True"
| "holds_total (Live _) = True"
| "holds_total _ = False"

fun passed_total :: "conn_phase \<Rightarrow> bool" where
  "passed_total (Admitted _) = True"
| "passed_total (Counted _) = True"
| "passed_total (Live _) = True"
| "passed_total _ = False"

fun holds_ip :: "IpAddr \<Rightarrow> conn_phase \<Rightarrow> bool" where
  "holds_ip ip (Counted a) = (a = ip)"
| "holds_ip ip (Live a) = (a = ip)"
| "holds_ip ip (Dropping a) = (a = ip)"
| "holds_ip ip (Dropping_ip a) = (a = ip)"
| "holds_ip ip _ = False"

fun holds_gauge :: "conn_phase \<Rightarrow> bool" where
  "holds_gauge (Live _) = True"
| "holds_gauge (Dropping _) = True"
| "holds_gauge _ = False"

definition is_live :: "conn_phase \<Rightarrow> bool" where
  "is_live p = (case p of Live _ \<Rightarrow> True | _ \<Rightarrow> False)"

definition how_many :: "(conn_phase \<Rightarrow> bool) \<Rightarrow> conn_phase list \<Rightarrow> nat" where
  "how_many P cs = length (filter P cs)"

definition ip_count :: "TrackerInner \<Rightarrow> IpAddr \<Rightarrow> nat" where
  "ip_count t ip = (case hm_get (tr_per_ip t) ip of None \<Rightarrow> 0 | Some c \<Rightarrow> c)"

definition counts_ok :: "TrackerInner \<Rightarrow> conn_phase list \<Rightarrow> bool" where
  "counts_ok t cs \<longleftrightarrow>
     (\<forall>ip. \<not> is_loopback ip \<longrightarrow>
        ip_count t ip = how_many (holds_ip ip) cs \<and> ip_count t ip \<le> tr_max_per_ip t)"

definition entries_ok :: "TrackerInner \<Rightarrow> bool" where
  "entries_ok t \<longleftrightarrow>
     (\<forall>ip. hm_contains (tr_per_ip t) ip \<longrightarrow>
        \<not> is_loopback ip \<and> (0 < ip_count t ip \<or> tr_max_per_ip t = 0))"

definition drops_ok :: "conn_phase list \<Rightarrow> bool" where
  "drops_ok cs = list_all (\<lambda>p. case p of Dropping_ip ip \<Rightarrow> \<not> is_loopback ip | _ \<Rightarrow> True) cs"

definition limits_inv :: "TrackerInner \<times> conn_phase list \<Rightarrow> bool" where
  "limits_inv s =
     (let t = fst s; cs = snd s
      in tr_total t = how_many holds_total cs \<and>
         how_many passed_total cs \<le> tr_max_connections t \<and>
         tr_active_gauge t = int (how_many holds_gauge cs) \<and>
         counts_ok t cs \<and> entries_ok t \<and> drops_ok cs)"

lemma how_many_update:
  "i < length cs \<Longrightarrow>
   how_many P (cs[i := p]) + (if P (cs ! i) then 1 else 0) = how_many P cs + (if P p then 1 else 0)"
proof (induction cs arbitrary: i)
  case Nil
  then show ?case by simp
next
  case (Cons c cs)
  then show ?case by (cases i) (auto simp: how_many_def)
qed

lemma how_many_pos: "i < length cs \<Longrightarrow> P (cs ! i) \<Longrightarrow> 0 < how_many P cs"
  by (auto simp: how_many_def filter_empty_conv)

lemma how_many_le: "how_many P cs \<le> length cs"
  by (simp add: how_many_def)

lemma how_many_mono: "(\<And>p. P p \<Longrightarrow> Q p) \<Longrightarrow> how_many P cs \<le> how_many Q cs"
  by (induction cs) (auto simp: how_many_def)

lemma how_many_strict: "i < length cs \<Longrightarrow> \<not> P (cs ! i) \<Longrightarrow> how_many P cs < length cs"
  by (auto simp: how_many_def intro!: length_filter_less)

lemma how_many_eq:
  assumes "i < length cs"
  shows "how_many P (cs[i := p]) =
    (how_many P cs + (if P p then 1 else 0)) - (if P (cs ! i) then 1 else 0)"
  using how_many_update [OF assms, of P p] by simp

lemma ip_count_update:
  "ip_count (t\<lparr>tr_per_ip := hm_insert ip c m\<rparr>) a = (if a = ip then c else (case hm_get m a of None \<Rightarrow> 0 | Some c \<Rightarrow> c))"
  "ip_count (t\<lparr>tr_per_ip := hm_remove ip m\<rparr>) a = (if a = ip then 0 else (case hm_get m a of None \<Rightarrow> 0 | Some c \<Rightarrow> c))"
  by (simp_all add: ip_count_def hm_simps)

lemma ip_count_other [simp]:
  "ip_count (t\<lparr>tr_total := n\<rparr>) = ip_count t"
  "ip_count (t\<lparr>tr_rejected_counter := n\<rparr>) = ip_count t"
  "ip_count (t\<lparr>tr_active_gauge := g\<rparr>) = ip_count t"
  by (simp_all add: ip_count_def fun_eq_iff)

lemma entries_ok_other [simp]:
  "entries_ok (t\<lparr>tr_total := n\<rparr>) = entries_ok t"
  "entries_ok (t\<lparr>tr_rejected_counter := n\<rparr>) = entries_ok t"
  "entries_ok (t\<lparr>tr_active_gauge := g\<rparr>) = entries_ok t"
  by (simp_all add: entries_ok_def)

lemma counts_ok_other [simp]:
  "counts_ok (t\<lparr>tr_total := n\<rparr>) = counts_ok t"
  "counts_ok (t\<lparr>tr_rejected_counter := n\<rparr>) = counts_ok t"
  "counts_ok (t\<lparr>tr_active_gauge := g\<rparr>) = counts_ok t"
  by (simp_all add: counts_ok_def fun_eq_iff)

lemma counts_ok_same:
  assumes "i < length cs" "\<And>ip. \<not> is_loopback ip \<Longrightarrow> holds_ip ip p = holds_ip ip (cs ! i)"
  shows "counts_ok t (cs[i := p]) = counts_ok t cs"
proof -
  have "how_many (holds_ip ip) (cs[i := p]) = how_many (holds_ip ip) cs" if "\<not> is_loopback ip" for ip
    using how_many_update [OF assms(1), of "holds_ip ip" p] assms(2) [OF that] by simp
  then show ?thesis by (simp add: counts_ok_def)
qed

lemma drops_ok_update:
  "drops_ok cs \<Longrightarrow> (\<And>ip. p = Dropping_ip ip \<Longrightarrow> \<not> is_loopback ip) \<Longrightarrow> drops_ok (cs[i := p])"
  by (auto simp: drops_ok_def list_all_iff split: conn_phase.splits
      dest!: set_update_subset_insert [THEN subsetD])

lemma drops_ok_nth: "drops_ok cs \<Longrightarrow> i < length cs \<Longrightarrow> cs ! i = Dropping_ip ip \<Longrightarrow> \<not> is_loopback ip"
  by (auto simp: drops_ok_def list_all_length split: conn_phase.splits)

lemma count_ip_unchanged:
  "count_ip ip t = (b, t') \<Longrightarrow> tr_total t' = tr_total t \<and> tr_max_connections t' = tr_max_connections t \<and>
     tr_max_per_ip t' = tr_max_per_ip t \<and> tr_active_gauge t' = tr_active_gauge t"
  by (auto simp: count_ip_def Let_def split: option.splits if_splits)

lemma count_ip_result:
  "count_ip ip t = (b, t') \<Longrightarrow> (b \<longleftrightarrow> ip_count t ip < tr_max_per_ip t) \<and>
   ip_count t' = (ip_count t)(ip := ip_count t ip + (if b then 1 else 0)) \<and>
   (hm_contains (tr_per_ip t') a \<longleftrightarrow> a = ip \<or> hm_contains (tr_per_ip t) a)"
  by (auto simp: count_ip_def ip_count_def hm_contains_def hm_simps Let_def fun_eq_iff
      split: option.splits if_splits)

lemma uncount_ip_unchanged [simp]:
  "tr_total (uncount_ip ip t) = tr_total t" "tr_max_connections (uncount_ip ip t) = tr_max_connections t"
  "tr_max_per_ip (uncount_ip ip t) = tr_max_per_ip t" "tr_active_gauge (uncount_ip ip t) = tr_active_gauge t"
  by (simp_all add: uncount_ip_def Let_def split: option.splits)

lemma uncount_ip_result:
  "0 < ip_count t ip \<Longrightarrow> ip_count (uncount_ip ip t) = (ip_count t)(ip := ip_count t ip - 1) \<and>
   (hm_contains (tr_per_ip (uncount_ip ip t)) a \<longrightarrow>
      hm_contains (tr_per_ip t) a \<and> (a = ip \<longrightarrow> 1 < ip_count t ip))"
  by (auto simp: uncount_ip_def ip_count_def hm_contains_def hm_simps Let_def fun_eq_iff split: option.splits)

subsection \<open>The invariant\<close>

lemma limits_inv_init: "limits_inv (with_limits m k, replicate n Idle)"
  by (simp add: limits_inv_def with_limits_def how_many_def ip_count_def counts_ok_def entries_ok_def
      drops_ok_def hm_contains_def list_all_length)

text \<open>The step under the lock of the map, and the last step of the destructor.\<close>

lemma count_ip_keeps:
  assumes "counts_ok t cs" "entries_ok t" "i < length cs" "cs ! i = Admitted ip" "\<not> is_loopback ip"
    and c: "count_ip ip t = (b, t')"
  shows "counts_ok t' (cs[i := if b then Counted ip else Rolling_back])" and "entries_ok t'"
  using assms count_ip_result [OF c] count_ip_unchanged [OF c]
  by (auto simp: counts_ok_def entries_ok_def how_many_eq)

lemma uncount_ip_keeps:
  assumes "counts_ok t cs" "entries_ok t" and i: "i < length cs" "cs ! i = Dropping_ip ip" "\<not> is_loopback ip"
  shows "counts_ok (uncount_ip ip t) (cs[i := Idle])" and "entries_ok (uncount_ip ip t)"
proof -
  have "0 < ip_count t ip"
    using assms how_many_pos [OF i(1), of "holds_ip ip"] by (simp add: counts_ok_def)
  note u = uncount_ip_result [OF this]
  show "counts_ok (uncount_ip ip t) (cs[i := Idle])"
    using assms u by (auto simp: counts_ok_def how_many_eq)
  show "entries_ok (uncount_ip ip t)"
    using assms u by (fastforce simp: entries_ok_def)
qed

lemma limits_inv_step:
  assumes inv: "limits_inv (t, cs)" and i: "i < length cs" and small: "length cs \<le> u64_max"
    and nxt: "conn_next ip (cs ! i) t = (p, t')"
  shows "limits_inv (t', cs[i := p])"
proof -
  have d: "tr_total t = how_many holds_total cs" "how_many passed_total cs \<le> tr_max_connections t"
    "tr_active_gauge t = int (how_many holds_gauge cs)" "counts_ok t cs" "entries_ok t" "drops_ok cs"
    using inv by (simp_all add: limits_inv_def)
  have sub: "how_many passed_total cs \<le> how_many holds_total cs"
    by (rule how_many_mono) (auto elim: passed_total.elims)
  have dr: "drops_ok (cs[i := p])"
    using d(6) nxt by (cases "cs ! i") (auto intro!: drops_ok_update split: if_splits prod.splits bool.splits)
  note tools = limits_inv_def how_many_eq [OF i] counts_ok_same [OF i] d
    fetch_add_total_def fetch_sub_total_def reject_def gauge_add_def
  note pos = how_many_pos [OF i]
  show ?thesis
  proof (cases "cs ! i")
    case Idle
    have "how_many holds_total cs < u64_max"
      using how_many_strict [OF i, of holds_total] small Idle by simp
    then have "u64_add (how_many holds_total cs) 1 = how_many holds_total cs + 1"
      by (simp add: u64_add_small)
    with Idle nxt sub d(2) dr show ?thesis by (auto simp: tools split: if_splits)
  next
    case (Admitted a)
    then show ?thesis
    proof (cases "is_loopback a")
      case True
      with Admitted nxt have p: "p = Counted a" "t' = t" by auto
      have "counts_ok t (cs[i := Counted a])"
        using d(4) counts_ok_same [OF i, of "Counted a"] True Admitted by auto
      with d dr Admitted show ?thesis by (simp add: limits_inv_def how_many_eq [OF i] p)
    next
      case False
      obtain b t'' where c: "count_ip a t = (b, t'')" by (cases "count_ip a t")
      with False Admitted nxt have p: "p = (if b then Counted a else Rolling_back)" "t'' = t'"
        by (auto split: bool.splits)
      show ?thesis
        using count_ip_keeps [OF d(4,5) i Admitted False c] count_ip_unchanged [OF c] Admitted d dr
        by (auto simp: limits_inv_def how_many_eq [OF i] p)
    qed
  next
    case (Dropping_ip a)
    have "\<not> is_loopback a" using drops_ok_nth [OF d(6) i Dropping_ip] .
    with uncount_ip_keeps [OF d(4,5) i Dropping_ip] nxt Dropping_ip d(2) dr show ?thesis by (auto simp: tools)
  next
    case Rolling_back
    with nxt pos [of holds_total] d(2) dr show ?thesis by (auto simp: tools)
  next
    case Refused
    with nxt d(2) dr show ?thesis by (auto simp: tools)
  next
    case (Counted a)
    with nxt d(2) dr show ?thesis by (auto simp: tools)
  next
    case (Live a)
    moreover have "how_many passed_total cs - Suc 0 \<le> tr_max_connections t" using d(2) by simp
    ultimately show ?thesis using nxt pos [of holds_total] dr by (auto simp: tools)
  next
    case (Dropping a)
    moreover have "is_loopback a \<Longrightarrow> counts_ok t (cs[i := Idle])"
      using d(4) counts_ok_same [OF i, of Idle] Dropping by auto
    ultimately show ?thesis using nxt pos [of holds_gauge] d(2) dr by (auto simp: tools split: if_splits)
  qed
qed

lemma limits_inv_conn_step: "conn_step s s' \<Longrightarrow> limits_inv s \<Longrightarrow> length (snd s) \<le> u64_max \<Longrightarrow> limits_inv s'"
  by (auto elim!: conn_stepE intro: limits_inv_step)

lemma conn_step_length: "conn_step s s' \<Longrightarrow> length (snd s') = length (snd s)"
  by (auto elim!: conn_stepE)

lemma conn_next_config:
  "conn_next ip c t = (p, t') \<Longrightarrow>
   tr_max_connections t' = tr_max_connections t \<and> tr_max_per_ip t' = tr_max_per_ip t"
  by (cases c) (auto simp: fetch_add_total_def fetch_sub_total_def reject_def gauge_add_def
      split: if_splits prod.splits bool.splits dest: count_ip_unchanged)

lemma reachable_limits:
  assumes "conn_step\<^sup>*\<^sup>* (with_limits m k, replicate n Idle) s" "n \<le> u64_max"
  shows "limits_inv s \<and> length (snd s) = n \<and>
     tr_max_connections (fst s) = m \<and> tr_max_per_ip (fst s) = k"
  using assms(1)
proof induction
  case base
  then show ?case using limits_inv_init by (simp add: with_limits_def)
next
  case (step s s')
  have "limits_inv s'"
    using limits_inv_conn_step [OF step.hyps(2)] step.IH assms(2) by simp
  moreover have "tr_max_connections (fst s') = m \<and> tr_max_per_ip (fst s') = k"
    using step by (auto elim!: conn_stepE dest: conn_next_config)
  ultimately show ?case using step conn_step_length by simp
qed

lemma live_counts: "how_many is_live cs \<le> how_many passed_total cs"
  "how_many (\<lambda>p. p = Live ip) cs \<le> how_many (holds_ip ip) cs"
  by (rule how_many_mono, auto simp: is_live_def split: conn_phase.splits)+

text \<open>A schedule says which connection acts next; running it stays within the reachable states.\<close>

definition conn_act :: "IpAddr \<Rightarrow> nat \<Rightarrow> TrackerInner \<times> conn_phase list \<Rightarrow> TrackerInner \<times> conn_phase list" where
  "conn_act ip i s = (case conn_next ip (snd s ! i) (fst s) of (p, t) \<Rightarrow> (t, (snd s)[i := p]))"

lemma conn_act_step: "i < length (snd s) \<Longrightarrow> conn_step s (conn_act ip i s)"
  by (cases s) (auto simp: conn_act_def intro: conn_step.intros split: prod.splits)

lemma length_conn_act [simp]: "length (snd (conn_act ip i s)) = length (snd s)"
  by (simp add: conn_act_def split: prod.splits)

lemma schedule_reachable:
  "list_all (\<lambda>i. i < length (snd s)) is \<Longrightarrow> conn_step\<^sup>*\<^sup>* s (fold (conn_act ip) is s)"
proof (induction "is" arbitrary: s)
  case Nil
  then show ?case by simp
next
  case (Cons i "is")
  have "conn_step\<^sup>*\<^sup>* (conn_act ip i s) (fold (conn_act ip) is (conn_act ip i s))"
    using Cons.prems by (intro Cons.IH) simp
  with conn_act_step [of i s ip] Cons.prems show ?case by (auto intro: converse_rtranclp_into_rtranclp)
qed

lemma u64_add_one_eval: "u64_add 0 (Suc 0) = 1" "u64_add (Suc 0) (Suc 0) = 2"
  by (simp_all add: u64_add_def u64_max_def)

lemmas schedule_eval = conn_act_def with_limits_def fetch_add_total_def fetch_sub_total_def reject_def
  gauge_add_def count_ip_def uncount_ip_def is_loopback_def u64_add_one_eval hm_eval Let_def numeral_2_eq_2

subsection \<open>Properties\<close>

text \<open>
  C35: However the attempts to connect and the disconnections of any number of connections interleave,
  never more than the configured number of connections are live at once, and never more than the
  configured number from one address that is not a loopback address.
\<close>

theorem connection_limits_hold:
  assumes "conn_step\<^sup>*\<^sup>* (with_limits m k, replicate n Idle) (t, cs)" "n \<le> u64_max"
  shows "how_many is_live cs \<le> m \<and>
    (\<forall>ip. \<not> is_loopback ip \<longrightarrow> how_many (\<lambda>p. p = Live ip) cs \<le> k)"
proof -
  have "how_many passed_total cs \<le> m" and ip: "\<not> is_loopback ip \<Longrightarrow> how_many (holds_ip ip) cs \<le> k" for ip
    using reachable_limits [OF assms] by (auto simp: limits_inv_def counts_ok_def)
  then show ?thesis using live_counts [where cs = cs] ip le_trans by blast
qed

text \<open>The second of two connections arrives while the first holds the only slot.\<close>

theorem connection_limits_hold_witness:
  "\<exists>t cs. conn_step\<^sup>*\<^sup>* (with_limits 1 1, replicate 2 Idle) (t, cs) \<and> how_many is_live cs = 1 \<and>
     tr_total t = 2 \<and> how_many is_live cs \<le> 1"
proof -
  let ?s = "fold (conn_act (V4 (10, 0, 0, 1))) [0, 0, 0, 1] (with_limits 1 1, replicate 2 Idle)"
  obtain t cs where s: "?s = (t, cs)" by (cases ?s)
  have reach: "conn_step\<^sup>*\<^sup>* (with_limits 1 1, replicate 2 Idle) (t, cs)"
    unfolding s [symmetric] by (rule schedule_reachable) simp
  have two: "tr_total t = 2" "how_many is_live cs = 1"
    using s by (auto simp: schedule_eval how_many_def is_live_def)
  moreover have "how_many is_live cs \<le> 1"
    using connection_limits_hold [OF reach] by (simp add: u64_max_def)
  ultimately show ?thesis using reach by blast
qed

text \<open>
  The tracker leaks nothing: in every reachable state in which no connection is between two steps,
  the total is the number of live connections, it never wraps around, and each address is counted as often
  as it is connected; once all are gone, the total is 0 and the map is empty.
\<close>

theorem connection_slots_returned:
  assumes "conn_step\<^sup>*\<^sup>* (with_limits m k, replicate n Idle) (t, cs)" "n \<le> u64_max" "0 < k"
    and "\<forall>p \<in> set cs. p = Idle \<or> is_live p"
  shows "tr_total t = how_many is_live cs \<and> tr_active_gauge t = int (how_many is_live cs) \<and>
    (\<forall>ip. \<not> is_loopback ip \<longrightarrow> ip_count t ip = how_many (\<lambda>p. p = Live ip) cs) \<and>
    (set cs \<subseteq> {Idle} \<longrightarrow> tr_total t = 0 \<and> (\<forall>ip. hm_get (tr_per_ip t) ip = None))"
proof -
  have inv: "limits_inv (t, cs)" and k: "tr_max_per_ip t = k" using reachable_limits [OF assms(1,2)] by simp_all
  have same: "how_many P cs = how_many Q cs" if "\<forall>p. p = Idle \<or> is_live p \<longrightarrow> P p = Q p" for P Q
    using assms(4) that by (auto simp: how_many_def intro!: arg_cong [where f = length] filter_cong)
  have eqs: "how_many holds_total cs = how_many is_live cs" "how_many holds_gauge cs = how_many is_live cs"
    "\<And>ip. how_many (holds_ip ip) cs = how_many (\<lambda>p. p = Live ip) cs"
    by (rule same, auto simp: is_live_def split: conn_phase.splits)+
  have none: "how_many P cs = 0" if "set cs \<subseteq> {Idle}" "\<not> P Idle" for P
    using that by (auto simp: how_many_def filter_empty_conv)
  have "hm_get (tr_per_ip t) ip = None" if "set cs \<subseteq> {Idle}" for ip
    using inv k assms(3) none [OF that, of "\<lambda>p. p = Live ip"] eqs(3) [of ip]
    by (auto simp: limits_inv_def entries_ok_def counts_ok_def hm_contains_def)
  with inv eqs none [of is_live] show ?thesis
    by (simp add: limits_inv_def counts_ok_def is_live_def)
qed

theorem connection_slots_returned_witness:
  "\<exists>t cs. conn_step\<^sup>*\<^sup>* (with_limits 1 1, replicate 2 Idle) (t, cs) \<and> tr_rejected_counter t = 1 \<and>
     tr_total t = 0 \<and> (\<forall>ip. hm_get (tr_per_ip t) ip = None)"
proof -
  let ?s = "fold (conn_act (V4 (10, 0, 0, 1))) [0, 0, 1, 0, 1, 0, 1, 0, 0] (with_limits 1 1, replicate 2 Idle)"
  obtain t cs where s: "?s = (t, cs)" by (cases ?s)
  have reach: "conn_step\<^sup>*\<^sup>* (with_limits 1 1, replicate 2 Idle) (t, cs)"
    unfolding s [symmetric] by (rule schedule_reachable) simp
  have "tr_rejected_counter t = 1" "cs = [Idle, Idle]"
    using s by (auto simp: schedule_eval)
  with connection_slots_returned [OF reach] reach show ?thesis by (auto simp: u64_max_def)
qed

text \<open>One connection that nothing interferes with takes the steps of \<^verbatim>\<open>try_acquire\<close> and of the destructor.\<close>

definition alone :: "IpAddr \<Rightarrow> conn_phase \<times> TrackerInner \<Rightarrow> conn_phase \<times> TrackerInner" where
  "alone ip = (\<lambda>(p, t). conn_next ip p t)"

lemma try_acquire_alone:
  "try_acquire ip t = (Inr a, t') \<Longrightarrow> (alone ip ^^ 3) (Idle, t) = (Live a, t')"
  "try_acquire ip t = (Inl TotalLimit, t') \<Longrightarrow> (alone ip ^^ 3) (Idle, t) = (Idle, t')"
  "try_acquire ip t = (Inl PerIpLimit, t') \<Longrightarrow> (alone ip ^^ 4) (Idle, t) = (Idle, t')"
  by (auto simp: try_acquire_def alone_def Let_def eval_nat_numeral fetch_add_total_def
      split: if_splits prod.splits bool.splits)

lemma drop_guard_alone:
  "(alone ip ^^ (if is_loopback a then 2 else 3)) (Live a, t) = (Idle, drop_guard a t)"
  by (simp add: drop_guard_def alone_def Let_def numeral_2_eq_2 numeral_3_eq_3)

end
