(* ===== verification/Session_Disk.thy ===== *)
theory Session_Disk
  imports Carapace_Prelude
begin

text \<open>
  The file system as the session store uses it, and the composition of fallible operations.

  A disk holds named files (paths relative to the session directory) with their bytes and modification
  times. \<open>d_faults\<close> is a schedule of faults: each access takes the next entry, and an entry \<open>Some _\<close> makes
  it fail; \<open>Torn n\<close> makes a write stop after \<open>n\<close> bytes. An empty schedule means that nothing fails any more.
  Because an operation of the store returns at its first failed access, and leaves the disk as that access
  left it, a theorem over all schedules covers every interruption. Temporary files that are renamed into
  place have names that nothing else uses; writing one is an access without a lasting effect (\<open>fs_try\<close>) and
  the rename puts the complete contents in place (\<open>fs_install\<close>). Lock files are not kept: acquiring a lock
  is an access that can fail. \<open>d_count\<close> numbers the random values drawn so far.

  An action is a function from the state to a result and the new state; \<open>and_then\<close> continues after success,
  which is what the operator \<^verbatim>\<open>?\<close> does, and \<open>attempt\<close> hands an error on as a value, for \<^verbatim>\<open>match\<close> and
  \<^verbatim>\<open>let _\<close>.
\<close>

subsection \<open>Actions\<close>

type_synonym ('s, 'e, 'a) act = "'s \<Rightarrow> ('e + 'a) \<times> 's"

definition return :: "'a \<Rightarrow> ('s, 'e, 'a) act" where
  "return x s = (Inr x, s)"

definition throw :: "'e \<Rightarrow> ('s, 'e, 'a) act" where
  "throw e s = (Inl e, s)"

definition and_then :: "('s, 'e, 'a) act \<Rightarrow> ('a \<Rightarrow> ('s, 'e, 'b) act) \<Rightarrow> ('s, 'e, 'b) act" where
  "and_then m f s = (case m s of (Inl e, s') \<Rightarrow> (Inl e, s') | (Inr x, s') \<Rightarrow> f x s')"

definition attempt :: "('s, 'e, 'a) act \<Rightarrow> ('s, 'f, 'e + 'a) act" where
  "attempt m s = (case m s of (r, s') \<Rightarrow> (Inr r, s'))"

definition map_err :: "('e \<Rightarrow> 'f) \<Rightarrow> ('s, 'e, 'a) act \<Rightarrow> ('s, 'f, 'a) act" where
  "map_err g m s = (case m s of (Inl e, s') \<Rightarrow> (Inl (g e), s') | (Inr x, s') \<Rightarrow> (Inr x, s'))"

definition update :: "('s \<Rightarrow> 's) \<Rightarrow> ('s, 'e, unit) act" where
  "update f s = (Inr (), f s)"

definition gets :: "('s \<Rightarrow> 'a) \<Rightarrow> ('s, 'e, 'a) act" where
  "gets g s = (Inr (g s), s)"

definition from_sum :: "'e + 'a \<Rightarrow> ('s, 'e, 'a) act" where
  "from_sum r s = (r, s)"

definition run_if :: "bool \<Rightarrow> ('s, 'e, unit) act \<Rightarrow> ('s, 'e, unit) act" where
  "run_if b m = (if b then m else return ())"

fun each :: "('a \<Rightarrow> ('s, 'e, unit) act) \<Rightarrow> 'a list \<Rightarrow> ('s, 'e, unit) act" where
  "each f [] = return ()"
| "each f (x # xs) = and_then (f x) (\<lambda>_. each f xs)"

named_theorems act_simps "running an action"

lemma act_run [act_simps]:
  "return x s = (Inr x, s)" "throw e s = (Inl e, s)" "update u s = (Inr (), u s)" "gets v s = (Inr (v s), s)"
  "from_sum r s = (r, s)"
  "and_then m f s = (case m s of (Inl e, s') \<Rightarrow> (Inl e, s') | (Inr x, s') \<Rightarrow> f x s')"
  "attempt m s = (case m s of (r, s') \<Rightarrow> (Inr r, s'))"
  "map_err g n s = (case n s of (Inl e, s') \<Rightarrow> (Inl (g e), s') | (Inr x, s') \<Rightarrow> (Inr x, s'))"
  "run_if b i s = (if b then i s else (Inr (), s))"
  by (simp_all add: return_def throw_def update_def gets_def and_then_def attempt_def map_err_def run_if_def
      from_sum_def)

lemma and_then_Inr: "m s = (Inr x, s') \<Longrightarrow> and_then m f s = f x s'"
  by (simp add: and_then_def)

lemma and_then_Inl: "m s = (Inl e, s') \<Longrightarrow> and_then m f s = (Inl e, s')"
  by (simp add: and_then_def)

lemma and_then_cases:
  assumes "and_then m f s = (r, s')"
  obtains (fail) e where "m s = (Inl e, s')" "r = Inl e" | (ok) x t where "m s = (Inr x, t)" "f x t = (r, s')"
  using assms by (cases "m s") (auto simp: and_then_def split: sum.splits)

lemma and_then_InrE:
  assumes "and_then m f s = (Inr y, s')"
  obtains x t where "m s = (Inr x, t)" "f x t = (Inr y, s')"
  using assms by (rule and_then_cases) auto

subsection \<open>Relations kept by every action\<close>

text \<open>
  \<open>keeps R m\<close>: every run of \<open>m\<close>, successful or not, relates the state before to the state after by \<open>R\<close>.
  For a reflexive and transitive \<open>R\<close> the property passes through all ways of composing actions, so it is
  proved for the accesses of the disk once and carried to every operation.
\<close>

definition keeps :: "('s \<Rightarrow> 's \<Rightarrow> bool) \<Rightarrow> ('s, 'e, 'a) act \<Rightarrow> bool" where
  "keeps R m \<longleftrightarrow> (\<forall>s. R s (snd (m s)))"

lemma keepsI: "(\<And>s r s'. m s = (r, s') \<Longrightarrow> R s s') \<Longrightarrow> keeps R m"
  by (simp add: keeps_def prod_eq_iff)

lemma keepsD: "keeps R m \<Longrightarrow> m s = (r, s') \<Longrightarrow> R s s'"
  by (metis keeps_def snd_conv)

locale state_relation =
  fixes R :: "'s \<Rightarrow> 's \<Rightarrow> bool"
  assumes refl [simp]: "R s s"
    and trans: "R s t \<Longrightarrow> R t u \<Longrightarrow> R s u"
begin

lemma keeps_return: "keeps R (return x)"
  and keeps_throw: "keeps R (throw e)"
  and keeps_gets: "keeps R (gets g)"
  and keeps_from_sum: "keeps R (from_sum r)"
  by (simp_all add: keeps_def act_simps)

lemma keeps_update: "(\<And>s. R s (f s)) \<Longrightarrow> keeps R (update f)"
  by (simp add: keeps_def act_simps)

lemma keeps_and_then: "keeps R m \<Longrightarrow> (\<And>x. keeps R (f x)) \<Longrightarrow> keeps R (and_then m f)"
  by (rule keepsI) (auto elim!: and_then_cases dest: keepsD intro: trans)

lemma keeps_from_sum_then: "(\<And>x. r = Inr x \<Longrightarrow> keeps R (f x)) \<Longrightarrow> keeps R (and_then (from_sum r) f)"
  by (cases r) (simp_all add: keeps_def act_simps)

lemma keeps_attempt: "keeps R m \<Longrightarrow> keeps R (attempt m)"
  by (auto simp: keeps_def act_simps split: prod.splits) (metis snd_conv)

lemma keeps_map_err: "keeps R m \<Longrightarrow> keeps R (map_err g m)"
  by (auto simp: keeps_def act_simps split: prod.splits sum.splits) (metis snd_conv)+

lemma keeps_run_if: "keeps R m \<Longrightarrow> keeps R (run_if b m)"
  by (auto simp: keeps_def act_simps)

lemma keeps_if: "(b \<Longrightarrow> keeps R m) \<Longrightarrow> (\<not> b \<Longrightarrow> keeps R n) \<Longrightarrow> keeps R (if b then m else n)"
  by simp

lemma keeps_case_option:
  "(r = None \<Longrightarrow> keeps R m) \<Longrightarrow> (\<And>x. r = Some x \<Longrightarrow> keeps R (f x)) \<Longrightarrow>
   keeps R (case r of None \<Rightarrow> m | Some x \<Rightarrow> f x)"
  by (cases r) simp_all

lemma keeps_case_sum:
  "(\<And>e. r = Inl e \<Longrightarrow> keeps R (f e)) \<Longrightarrow> (\<And>x. r = Inr x \<Longrightarrow> keeps R (g x)) \<Longrightarrow>
   keeps R (case r of Inl e \<Rightarrow> f e | Inr x \<Rightarrow> g x)"
  by (cases r) simp_all

lemma keeps_case_prod: "(\<And>x y. r = (x, y) \<Longrightarrow> keeps R (f x y)) \<Longrightarrow> keeps R (case r of (x, y) \<Rightarrow> f x y)"
  by (cases r) simp

lemma keeps_let: "(\<And>x. x = t \<Longrightarrow> keeps R (f x)) \<Longrightarrow> keeps R (let x = t in f x)"
  by simp

lemma keeps_each: "(\<And>x. x \<in> set xs \<Longrightarrow> keeps R (f x)) \<Longrightarrow> keeps R (each f xs)"
  by (induction xs) (auto intro: keeps_return keeps_and_then)

lemmas keeps_rules = keeps_return keeps_throw keeps_gets keeps_from_sum keeps_and_then keeps_attempt
  keeps_map_err keeps_run_if keeps_if keeps_case_option keeps_case_sum keeps_case_prod keeps_let keeps_each

end

subsection \<open>Disk\<close>

type_synonym bytes = string

datatype io_error = Missing | Failed

datatype fault = Fails | Torn nat

record disk_file =
  f_bytes :: bytes
  f_mtime :: i64

record disk =
  d_files :: "(string, disk_file) hmap"
  d_base :: bool
  d_archives :: bool
  d_faults :: "fault option list"
  d_now :: i64
  d_count :: nat

definition contents :: "disk \<Rightarrow> string \<Rightarrow> bytes option" where
  "contents d p = map_option f_bytes (hm_get (d_files d) p)"

definition fs_exists :: "string \<Rightarrow> disk \<Rightarrow> bool" where
  "fs_exists p d = hm_contains (d_files d) p"

definition next_fault :: "disk \<Rightarrow> fault option \<times> disk" where
  "next_fault d = (case d_faults d of [] \<Rightarrow> (None, d) | f # fs \<Rightarrow> (f, d\<lparr>d_faults := fs\<rparr>))"

definition fs_put :: "string \<Rightarrow> bytes \<Rightarrow> disk \<Rightarrow> disk" where
  "fs_put p b d = d\<lparr>d_files := hm_insert p \<lparr>f_bytes = b, f_mtime = d_now d\<rparr> (d_files d)\<rparr>"

definition fs_delete :: "string \<Rightarrow> disk \<Rightarrow> disk" where
  "fs_delete p d = d\<lparr>d_files := hm_remove p (d_files d)\<rparr>"

definition fs_try :: "(disk, io_error, unit) act" where
  "fs_try d = (case next_fault d of (None, d) \<Rightarrow> (Inr (), d) | (Some _, d) \<Rightarrow> (Inl Failed, d))"

definition fs_read :: "nat \<Rightarrow> string \<Rightarrow> (disk, io_error, bytes option) act" where
  "fs_read cap p =
     and_then fs_try (\<lambda>_ d. case contents d p of
        None \<Rightarrow> (Inr None, d)
      | Some b \<Rightarrow> if length b > cap then (Inl Failed, d) else (Inr (Some b), d))"

definition fs_write :: "string \<Rightarrow> bytes \<Rightarrow> (disk, io_error, unit) act" where
  "fs_write p b d =
     (case next_fault d of
        (None, d) \<Rightarrow> (Inr (), fs_put p b d)
      | (Some Fails, d) \<Rightarrow> (Inl Failed, d)
      | (Some (Torn n), d) \<Rightarrow> (Inl Failed, fs_put p (take n b) d))"

definition old_bytes :: "disk \<Rightarrow> string \<Rightarrow> bytes" where
  "old_bytes d p = (case contents d p of None \<Rightarrow> [] | Some b \<Rightarrow> b)"

definition fs_append :: "string \<Rightarrow> bytes \<Rightarrow> (disk, io_error, unit) act" where
  "fs_append p b d =
     (case next_fault d of
        (None, d) \<Rightarrow> (Inr (), fs_put p (old_bytes d p @ b) d)
      | (Some Fails, d) \<Rightarrow> (Inl Failed, d)
      | (Some (Torn n), d) \<Rightarrow> (Inl Failed, fs_put p (old_bytes d p @ take n b) d))"

definition fs_install :: "string \<Rightarrow> bytes \<Rightarrow> (disk, io_error, unit) act" where
  "fs_install p b = and_then fs_try (\<lambda>_. update (fs_put p b))"

definition fs_remove :: "string \<Rightarrow> (disk, io_error, unit) act" where
  "fs_remove p =
     and_then fs_try (\<lambda>_ d. if fs_exists p d then (Inr (), fs_delete p d) else (Inl Missing, d))"

definition fs_rename :: "string \<Rightarrow> string \<Rightarrow> (disk, io_error, unit) act" where
  "fs_rename p q =
     and_then fs_try (\<lambda>_ d. case hm_get (d_files d) p of
        None \<Rightarrow> (Inl Missing, d)
      | Some f \<Rightarrow> (Inr (), d\<lparr>d_files := hm_insert q f (hm_remove p (d_files d))\<rparr>))"

definition draw :: "(disk, 'e, nat) act" where
  "draw d = (Inr (d_count d), d\<lparr>d_count := Suc (d_count d)\<rparr>)"

subsection \<open>Looking at the files\<close>

lemma contents_put [simp]: "contents (fs_put p b d) q = (if q = p then Some b else contents d q)"
  by (simp add: contents_def fs_put_def hm_simps)

lemma contents_delete [simp]: "contents (fs_delete p d) q = (if q = p then None else contents d q)"
  by (simp add: contents_def fs_delete_def hm_simps)

lemma fs_exists_contents: "fs_exists p d \<longleftrightarrow> contents d p \<noteq> None"
  by (simp add: fs_exists_def contents_def hm_contains_def)

lemma contents_other [simp]:
  "contents (d\<lparr>d_faults := f\<rparr>) = contents d" "contents (d\<lparr>d_now := t\<rparr>) = contents d"
  "contents (d\<lparr>d_count := n\<rparr>) = contents d" "contents (d\<lparr>d_base := b\<rparr>) = contents d"
  "contents (d\<lparr>d_archives := b\<rparr>) = contents d"
  by (simp_all add: contents_def fun_eq_iff)

lemma next_fault_contents [simp]: "next_fault d = (f, d') \<Longrightarrow> contents d' = contents d"
  by (auto simp: next_fault_def split: list.splits)

lemma fs_put_other [simp]:
  "d_faults (fs_put p b d) = d_faults d" "d_now (fs_put p b d) = d_now d" "d_count (fs_put p b d) = d_count d"
  "d_faults (fs_delete p d) = d_faults d" "d_now (fs_delete p d) = d_now d" "d_count (fs_delete p d) = d_count d"
  by (simp_all add: fs_put_def fs_delete_def)

subsection \<open>When nothing fails\<close>

definition quiet :: "disk \<Rightarrow> bool" where
  "quiet d \<longleftrightarrow> d_faults d = []"

lemma quiet_other [simp]:
  "quiet (fs_put p b d) = quiet d" "quiet (fs_delete p d) = quiet d" "quiet (d\<lparr>d_count := n\<rparr>) = quiet d"
  "quiet (d\<lparr>d_files := m\<rparr>) = quiet d" "quiet (d\<lparr>d_base := x\<rparr>) = quiet d" "quiet (d\<lparr>d_archives := x\<rparr>) = quiet d"
  by (simp_all add: quiet_def)

lemma quiet_next_fault [simp]: "quiet d \<Longrightarrow> next_fault d = (None, d)"
  by (simp add: quiet_def next_fault_def)

named_theorems quiet_simps "accesses of a disk on which nothing fails"

lemma quiet_fs_try [quiet_simps]: "quiet d \<Longrightarrow> fs_try d = (Inr (), d)"
  by (simp add: fs_try_def)

lemma quiet_fs_read [quiet_simps]:
  "quiet d \<Longrightarrow> fs_read cap p d =
     (case contents d p of
        None \<Rightarrow> (Inr None, d)
      | Some b \<Rightarrow> if length b > cap then (Inl Failed, d) else (Inr (Some b), d))"
  by (simp add: fs_read_def act_simps quiet_simps)

lemma quiet_fs_write [quiet_simps]: "quiet d \<Longrightarrow> fs_write p b d = (Inr (), fs_put p b d)"
  by (simp add: fs_write_def)

lemma quiet_fs_append [quiet_simps]:
  "quiet d \<Longrightarrow> fs_append p b d = (Inr (), fs_put p (old_bytes d p @ b) d)"
  by (simp add: fs_append_def)

lemma quiet_fs_install [quiet_simps]: "quiet d \<Longrightarrow> fs_install p b d = (Inr (), fs_put p b d)"
  by (simp add: fs_install_def act_simps quiet_simps)

lemma quiet_fs_remove [quiet_simps]:
  "quiet d \<Longrightarrow> fs_remove p d = (if fs_exists p d then (Inr (), fs_delete p d) else (Inl Missing, d))"
  by (simp add: fs_remove_def act_simps quiet_simps)

lemma quiet_fs_rename [quiet_simps]:
  "quiet d \<Longrightarrow> fs_rename p q d =
     (case hm_get (d_files d) p of
        None \<Rightarrow> (Inl Missing, d)
      | Some f \<Rightarrow> (Inr (), d\<lparr>d_files := hm_insert q f (hm_remove p (d_files d))\<rparr>))"
  by (simp add: fs_rename_def act_simps quiet_simps)

lemma contents_rename [simp]:
  "hm_get (d_files d) p = Some f \<Longrightarrow>
   contents (d\<lparr>d_files := hm_insert q f (hm_remove p (d_files d))\<rparr>) r =
     (if r = q then Some (f_bytes f) else if r = p then None else contents d r)"
  by (simp add: contents_def hm_simps)

subsection \<open>Files an action leaves alone\<close>

text \<open>\<open>same_files S\<close>: the contents of the files outside \<open>S\<close> are the same in both states.\<close>

definition same_files :: "string set \<Rightarrow> disk \<Rightarrow> disk \<Rightarrow> bool" where
  "same_files S d d' \<longleftrightarrow> (\<forall>p. p \<notin> S \<longrightarrow> contents d' p = contents d p)"

interpretation files: state_relation "same_files S"
  by unfold_locales (simp_all add: same_files_def)

lemma same_files_mono: "same_files S d d' \<Longrightarrow> S \<subseteq> T \<Longrightarrow> same_files T d d'"
  by (auto simp: same_files_def)

lemma keeps_mono: "keeps R m \<Longrightarrow> (\<And>s s'. R s s' \<Longrightarrow> Q s s') \<Longrightarrow> keeps Q m"
  by (simp add: keeps_def)

lemma same_files_put: "same_files S d (fs_put p b d) \<longleftrightarrow> p \<in> S \<or> contents d p = Some b"
  by (auto simp: same_files_def)

lemma keeps_fs_try: "keeps (same_files S) fs_try"
  by (rule keepsI) (auto simp: fs_try_def same_files_def next_fault_def split: option.splits prod.splits list.splits)

lemma keeps_fs_read: "keeps (same_files S) (fs_read cap p)"
  unfolding fs_read_def
  by (rule files.keeps_and_then [OF keeps_fs_try], rule keepsI) (auto split: option.splits if_splits)

lemma keeps_fs_write: "p \<in> S \<Longrightarrow> keeps (same_files S) (fs_write p b)"
  by (rule keepsI)
    (auto simp: fs_write_def same_files_def next_fault_def split: option.splits prod.splits fault.splits list.splits)

lemma keeps_fs_append: "p \<in> S \<Longrightarrow> keeps (same_files S) (fs_append p b)"
  by (rule keepsI)
    (auto simp: fs_append_def same_files_def next_fault_def split: option.splits prod.splits fault.splits list.splits)

lemma keeps_fs_install: "p \<in> S \<Longrightarrow> keeps (same_files S) (fs_install p b)"
  unfolding fs_install_def
  by (intro files.keeps_and_then keeps_fs_try files.keeps_update) (simp add: same_files_put)

lemma keeps_fs_remove: "p \<in> S \<Longrightarrow> keeps (same_files S) (fs_remove p)"
  unfolding fs_remove_def
  by (intro files.keeps_and_then keeps_fs_try, rule keepsI) (auto simp: same_files_def split: if_splits)

lemma keeps_fs_rename: "p \<in> S \<Longrightarrow> q \<in> S \<Longrightarrow> keeps (same_files S) (fs_rename p q)"
  unfolding fs_rename_def
  by (intro files.keeps_and_then keeps_fs_try, rule keepsI) (auto simp: same_files_def split: option.splits)

lemma keeps_draw: "keeps (same_files S) draw"
  by (rule keepsI) (auto simp: draw_def same_files_def)

lemmas keeps_fs = keeps_fs_try keeps_fs_read keeps_fs_write keeps_fs_append keeps_fs_install keeps_fs_remove
  keeps_fs_rename keeps_draw

subsection \<open>Invariants of the state with facts about the result\<close>

text \<open>
  \<open>holds P m V\<close>: from a state with \<open>P\<close>, every run of \<open>m\<close> ends in a state with \<open>P\<close>, and a successful one has a
  result with \<open>V\<close>. The rules follow the shape of the action.
\<close>

definition holds :: "('s \<Rightarrow> bool) \<Rightarrow> ('s, 'e, 'a) act \<Rightarrow> ('a \<Rightarrow> bool) \<Rightarrow> bool" where
  "holds P m V \<longleftrightarrow> (\<forall>s r s'. P s \<longrightarrow> m s = (r, s') \<longrightarrow> P s' \<and> (\<forall>x. r = Inr x \<longrightarrow> V x))"

lemma holdsI: "(\<And>s r s'. P s \<Longrightarrow> m s = (r, s') \<Longrightarrow> P s' \<and> (\<forall>x. r = Inr x \<longrightarrow> V x)) \<Longrightarrow> holds P m V"
  by (simp add: holds_def)

lemma holdsD: "holds P m V \<Longrightarrow> P s \<Longrightarrow> m s = (r, s') \<Longrightarrow> P s'"
  and holds_result: "holds P m V \<Longrightarrow> P s \<Longrightarrow> m s = (Inr x, s') \<Longrightarrow> V x"
  by (simp_all add: holds_def)

lemma holds_weaken: "holds P m V \<Longrightarrow> (\<And>x. V x \<Longrightarrow> W x) \<Longrightarrow> holds P m W"
  by (simp add: holds_def)

lemma holds_any: "holds P m V \<Longrightarrow> holds P m (\<lambda>_. True)"
  by (erule holds_weaken) simp

lemma holds_return: "V x \<Longrightarrow> holds P (return x) V"
  and holds_throw: "holds P (throw e) V"
  and holds_gets: "(\<And>s. P s \<Longrightarrow> V (g s)) \<Longrightarrow> holds P (gets g) V"
  and holds_from_sum: "(\<And>x. r = Inr x \<Longrightarrow> V x) \<Longrightarrow> holds P (from_sum r) V"
  and holds_update: "(\<And>s. P s \<Longrightarrow> P (f s)) \<Longrightarrow> holds P (update f) (\<lambda>_. True)"
  by (auto simp: holds_def act_simps)

lemma holds_and_then: "holds P m V \<Longrightarrow> (\<And>x. V x \<Longrightarrow> holds P (f x) W) \<Longrightarrow> holds P (and_then m f) W"
proof (rule holdsI)
  fix s r s' assume m: "holds P m V" and f: "\<And>x. V x \<Longrightarrow> holds P (f x) W" and s: "P s"
    and run: "and_then m f s = (r, s')"
  from run show "P s' \<and> (\<forall>x. r = Inr x \<longrightarrow> W x)"
  proof (rule and_then_cases)
    fix e assume "m s = (Inl e, s')" "r = Inl e"
    then show ?thesis using holdsD [OF m s] by simp
  next
    fix x t assume mx: "m s = (Inr x, t)" and fx: "f x t = (r, s')"
    have "holds P (f x) W" using f holds_result [OF m s mx] by simp
    from holdsD [OF this holdsD [OF m s mx] fx] holds_result [OF this holdsD [OF m s mx]] fx show ?thesis by auto
  qed
qed

lemma holds_attempt: "holds P m V \<Longrightarrow> holds P (attempt m) (\<lambda>r. \<forall>x. r = Inr x \<longrightarrow> V x)"
  by (rule holdsI) (auto simp: holds_def act_simps split: prod.splits)

lemma holds_map_err: "holds P m V \<Longrightarrow> holds P (map_err g m) V"
  by (rule holdsI) (auto simp: holds_def act_simps split: prod.splits sum.splits)

lemma holds_run_if: "(b \<Longrightarrow> holds P m (\<lambda>_. True)) \<Longrightarrow> holds P (run_if b m) (\<lambda>_. True)"
  by (auto simp: run_if_def intro: holds_return)

lemma holds_if: "(b \<Longrightarrow> holds P m V) \<Longrightarrow> (\<not> b \<Longrightarrow> holds P n V) \<Longrightarrow> holds P (if b then m else n) V"
  by simp

lemma holds_case_option:
  "(r = None \<Longrightarrow> holds P m V) \<Longrightarrow> (\<And>x. r = Some x \<Longrightarrow> holds P (f x) V) \<Longrightarrow>
   holds P (case r of None \<Rightarrow> m | Some x \<Rightarrow> f x) V"
  by (cases r) simp_all

lemma holds_case_sum:
  "(\<And>e. r = Inl e \<Longrightarrow> holds P (f e) V) \<Longrightarrow> (\<And>x. r = Inr x \<Longrightarrow> holds P (g x) V) \<Longrightarrow>
   holds P (case r of Inl e \<Rightarrow> f e | Inr x \<Rightarrow> g x) V"
  by (cases r) simp_all

lemma holds_case_prod: "(\<And>x y. r = (x, y) \<Longrightarrow> holds P (f x y) V) \<Longrightarrow> holds P (case r of (x, y) \<Rightarrow> f x y) V"
  by (cases r) simp

lemma holds_let: "(\<And>x. x = t \<Longrightarrow> holds P (f x) V) \<Longrightarrow> holds P (let x = t in f x) V"
  by simp

lemma holds_each: "(\<And>x. holds P (f x) (\<lambda>_. True)) \<Longrightarrow> holds P (each f xs) (\<lambda>_. True)"
  by (induction xs) (auto intro: holds_return holds_and_then)

text \<open>An action given as a function of the state.\<close>

lemma holds_state: "(\<And>s. P s \<Longrightarrow> holds P (m s) V) \<Longrightarrow> holds P (\<lambda>s. m s s) V"
  unfolding holds_def by blast

lemma holds_keeps: "keeps R m \<Longrightarrow> (\<And>s s'. P s \<Longrightarrow> R s s' \<Longrightarrow> P s') \<Longrightarrow> holds P m (\<lambda>_. True)"
  unfolding holds_def keeps_def by (metis snd_conv)

lemmas holds_rules = holds_return holds_throw holds_gets holds_from_sum holds_and_then holds_attempt holds_map_err
  holds_run_if holds_if holds_case_option holds_case_sum holds_case_prod holds_let holds_each

text \<open>The rules when nothing is said about results, and actions that look at the state first.\<close>

lemma holds_unchanged: "(\<And>s. snd (m s) = s) \<Longrightarrow> holds P m (\<lambda>_. True)"
  by (rule holdsI) (metis snd_conv)

lemma holds_guard: "holds P m (\<lambda>_. True) \<Longrightarrow> holds P (\<lambda>s. if c s then (x, s) else m s) (\<lambda>_. True)"
  unfolding holds_def by auto

lemma stays_and_then:
  "holds P m (\<lambda>_. True) \<Longrightarrow> (\<And>x. holds P (f x) (\<lambda>_. True)) \<Longrightarrow> holds P (and_then m f) (\<lambda>_. True)"
  by (rule holds_and_then)

lemma stays_basic:
  "holds P (return x) (\<lambda>_. True)" "holds P (throw e) (\<lambda>_. True)" "holds P (gets g) (\<lambda>_. True)"
  "holds P (from_sum r) (\<lambda>_. True)"
  by (simp_all add: holds_def act_simps)

lemma stays_attempt: "holds P m (\<lambda>_. True) \<Longrightarrow> holds P (attempt m) (\<lambda>_. True)"
  by (rule holds_any, erule holds_attempt)

lemmas stays_rules = stays_basic stays_and_then stays_attempt holds_map_err holds_run_if holds_if holds_case_option
  holds_case_sum holds_case_prod holds_let holds_each

end
