(* ===== verification/Session_Integrity.thy ===== *)
theory Session_Integrity
  imports Session_Disk Rust_Text
begin

text \<open>
  Tamper detection of session files, \<^verbatim>\<open>src/sessions/integrity.rs\<close>: a file's HMAC is kept in a sidecar file
  next to it. A write first puts the new HMAC into a pending sidecar, then changes the file, then renames
  the pending sidecar into place; verification accepts a pending sidecar that matches, so that an
  interrupted write is recovered. HMAC-SHA256 and the hexadecimal codec are the parameter \<open>D\<close> with the
  laws \<open>digest_ok\<close>; the state of a running HMAC is the key and the bytes fed so far.
\<close>

subsection \<open>Digests\<close>

record digest_api =
  da_mac :: "bytes \<Rightarrow> bytes \<Rightarrow> bytes"
  da_hex_encode :: "bytes \<Rightarrow> string"
  da_hex_decode :: "string \<Rightarrow> bytes option"

definition HMAC_DIGEST_SIZE :: nat where "HMAC_DIGEST_SIZE = 32"
definition HMAC_SIDECAR_V1_PREFIX :: string where "HMAC_SIDECAR_V1_PREFIX = ''v1:''"
definition HMAC_SIDECAR_MAX_BYTES :: nat where "HMAC_SIDECAR_MAX_BYTES = 1024"

definition digest_ok :: "digest_api \<Rightarrow> bool" where
  "digest_ok D \<longleftrightarrow>
     (\<forall>k b. length (da_mac D k b) = HMAC_DIGEST_SIZE) \<and>
     (\<forall>b. da_hex_decode D (da_hex_encode D b) = Some b) \<and>
     (\<forall>b. length (da_hex_encode D b) = 2 * length b) \<and>
     (\<forall>b. set (da_hex_encode D b) \<subseteq> set ''0123456789abcdef'')"

text \<open>UTF-8 (\<^verbatim>\<open>String::from_utf8\<close>): the ranges of the continuation bytes still expected.\<close>

definition utf8_lead :: "nat \<Rightarrow> (nat \<times> nat) list option" where
  "utf8_lead b =
     (if 194 \<le> b \<and> b \<le> 223 then Some [(128, 191)]
      else if b = 224 then Some [(160, 191), (128, 191)]
      else if b = 237 then Some [(128, 159), (128, 191)]
      else if 225 \<le> b \<and> b \<le> 239 then Some [(128, 191), (128, 191)]
      else if b = 240 then Some [(144, 191), (128, 191), (128, 191)]
      else if 241 \<le> b \<and> b \<le> 243 then Some [(128, 191), (128, 191), (128, 191)]
      else if b = 244 then Some [(128, 143), (128, 191), (128, 191)]
      else None)"

fun utf8_from :: "(nat \<times> nat) list \<Rightarrow> bytes \<Rightarrow> bool" where
  "utf8_from pend [] = (pend = [])"
| "utf8_from ((lo, hi) # pend) (c # cs) = (lo \<le> of_char c \<and> of_char c \<le> hi \<and> utf8_from pend cs)"
| "utf8_from [] (c # cs) =
     (if of_char c < (128 :: nat) then utf8_from [] cs
      else (case utf8_lead (of_char c) of None \<Rightarrow> False | Some pend \<Rightarrow> utf8_from pend cs))"

definition read_hmac_sidecar :: "string \<Rightarrow> (disk, io_error, string option) act" where
  "read_hmac_sidecar sidecar =
     and_then (fs_read HMAC_SIDECAR_MAX_BYTES sidecar) (\<lambda>r. case r of
        None \<Rightarrow> return None
      | Some b \<Rightarrow> if utf8_from [] b then return (Some b) else throw Failed)"

datatype IntegrityAction = Warn | Reject

record IntegrityConfig =
  ic_enabled :: bool
  ic_action :: IntegrityAction

definition IntegrityConfig_default :: IntegrityConfig where
  "IntegrityConfig_default = \<lparr>ic_enabled = True, ic_action = Warn\<rparr>"

datatype IntegrityError = Io_error | VerificationFailed | Rejected

definition hmac_path :: "string \<Rightarrow> string" where
  "hmac_path file_path = file_path @ ''.hmac''"

definition pending_hmac_path :: "string \<Rightarrow> string" where
  "pending_hmac_path file_path = hmac_path file_path @ ''.tmp''"

subsection \<open>Running HMAC\<close>

record AppendHmacState =
  ah_key :: bytes
  ah_fed :: bytes

definition AppendHmacState_from_path :: "bytes \<Rightarrow> string \<Rightarrow> (disk, io_error, AppendHmacState) act" where
  "AppendHmacState_from_path key file_path =
     and_then fs_try (\<lambda>_. gets (\<lambda>d. \<lparr>ah_key = key, ah_fed = old_bytes d file_path\<rparr>))"

definition AppendHmacState_extend :: "AppendHmacState \<Rightarrow> bytes \<Rightarrow> AppendHmacState" where
  "AppendHmacState_extend st appended = st\<lparr>ah_fed := ah_fed st @ appended\<rparr>"

definition state_hmac :: "digest_api \<Rightarrow> AppendHmacState \<Rightarrow> bytes" where
  "state_hmac D st = da_mac D (ah_key st) (ah_fed st)"

definition encode_sidecar_hmac_v1 :: "digest_api \<Rightarrow> bytes \<Rightarrow> string" where
  "encode_sidecar_hmac_v1 D hmac = HMAC_SIDECAR_V1_PREFIX @ da_hex_encode D hmac"

definition sidecar_payload :: "digest_api \<Rightarrow> AppendHmacState \<Rightarrow> string" where
  "sidecar_payload D st = encode_sidecar_hmac_v1 D (state_hmac D st)"

datatype HmacSidecarFormat = CurrentV1 | Unversioned

record ParsedHmacSidecar =
  ps_hmac :: bytes
  ps_format :: HmacSidecarFormat

definition decode_digest :: "digest_api \<Rightarrow> string \<Rightarrow> IntegrityError + bytes" where
  "decode_digest D s =
     (case da_hex_decode D s of
        None \<Rightarrow> Inl VerificationFailed
      | Some b \<Rightarrow> if length b \<noteq> HMAC_DIGEST_SIZE then Inl VerificationFailed else Inr b)"

definition parse_sidecar_hmac :: "digest_api \<Rightarrow> string \<Rightarrow> IntegrityError + ParsedHmacSidecar" where
  "parse_sidecar_hmac D raw =
     (let trimmed = trim raw
      in if starts_with trimmed HMAC_SIDECAR_V1_PREFIX then
           (case decode_digest D (drop (length HMAC_SIDECAR_V1_PREFIX) trimmed) of
              Inl e \<Rightarrow> Inl e
            | Inr b \<Rightarrow> Inr \<lparr>ps_hmac = b, ps_format = CurrentV1\<rparr>)
         else if CHR '':'' \<notin> set trimmed then
           (case decode_digest D trimmed of
              Inl e \<Rightarrow> Inl e
            | Inr b \<Rightarrow> Inr \<lparr>ps_hmac = b, ps_format = Unversioned\<rparr>)
         else Inl VerificationFailed)"

subsection \<open>Writing sidecars\<close>

definition write_pending_hmac_payload :: "string \<Rightarrow> string \<Rightarrow> (disk, io_error, unit) act" where
  "write_pending_hmac_payload file_path payload =
     and_then (attempt (fs_remove (pending_hmac_path file_path))) (\<lambda>_.
     and_then (gets (fs_exists (pending_hmac_path file_path))) (\<lambda>present.
     if present then throw Failed else fs_write (pending_hmac_path file_path) payload))"

definition prepare_pending_hmac_file :: "digest_api \<Rightarrow> bytes \<Rightarrow> bytes \<Rightarrow> string \<Rightarrow> (disk, io_error, unit) act" where
  "prepare_pending_hmac_file D key b file_path =
     write_pending_hmac_payload file_path (encode_sidecar_hmac_v1 D (da_mac D key b))"

definition prepare_pending_hmac_file_for_state ::
    "digest_api \<Rightarrow> string \<Rightarrow> AppendHmacState \<Rightarrow> (disk, io_error, unit) act" where
  "prepare_pending_hmac_file_for_state D file_path st =
     write_pending_hmac_payload file_path (sidecar_payload D st)"

definition prepare_pending_hmac_file_for_appended_bytes_with_state ::
    "digest_api \<Rightarrow> string \<Rightarrow> AppendHmacState \<Rightarrow> bytes \<Rightarrow> (disk, io_error, AppendHmacState) act" where
  "prepare_pending_hmac_file_for_appended_bytes_with_state D file_path base_state appended =
     (let next_state = AppendHmacState_extend base_state appended
      in and_then (write_pending_hmac_payload file_path (sidecar_payload D next_state)) (\<lambda>_. return next_state))"

definition prepare_pending_hmac_file_for_appended_bytes ::
    "digest_api \<Rightarrow> bytes \<Rightarrow> string \<Rightarrow> bytes \<Rightarrow> (disk, io_error, AppendHmacState) act" where
  "prepare_pending_hmac_file_for_appended_bytes D key file_path appended =
     and_then (AppendHmacState_from_path key file_path) (\<lambda>st.
     prepare_pending_hmac_file_for_appended_bytes_with_state D file_path st appended)"

definition commit_pending_hmac_sidecar :: "string \<Rightarrow> (disk, io_error, unit) act" where
  "commit_pending_hmac_sidecar file_path =
     and_then (attempt (fs_rename (pending_hmac_path file_path) (hmac_path file_path))) (\<lambda>r.
     and_then (gets (fs_exists (hmac_path file_path))) (\<lambda>sidecar_exists.
     case r of
       Inr _ \<Rightarrow> fs_try
     | Inl e \<Rightarrow> if e = Missing \<and> sidecar_exists then return () else throw e))"

definition delete_hmac_sidecar :: "string \<Rightarrow> (disk, io_error, unit) act" where
  "delete_hmac_sidecar file_path =
     and_then (attempt (fs_remove (hmac_path file_path))) (\<lambda>r.
     case r of Inr _ \<Rightarrow> return () | Inl Missing \<Rightarrow> return () | Inl e \<Rightarrow> throw e)"

subsection \<open>Verification\<close>

definition hmacs_match :: "bytes \<Rightarrow> bytes \<Rightarrow> bool" where
  "hmacs_match stored computed = (if length stored \<noteq> HMAC_DIGEST_SIZE then False else stored = computed)"

definition io_err :: "io_error \<Rightarrow> IntegrityError" where
  "io_err e = Io_error"

definition try_promote_pending_hmac_sidecar ::
    "digest_api \<Rightarrow> bytes \<Rightarrow> string \<Rightarrow> (disk, IntegrityError, bool) act" where
  "try_promote_pending_hmac_sidecar D computed file_path =
     and_then (map_err io_err (read_hmac_sidecar (pending_hmac_path file_path))) (\<lambda>pending_raw.
     case pending_raw of
       None \<Rightarrow> return False
     | Some raw \<Rightarrow>
         (case parse_sidecar_hmac D raw of
            Inl _ \<Rightarrow> return False
          | Inr stored \<Rightarrow>
              if \<not> hmacs_match (ps_hmac stored) computed then
                and_then (attempt (fs_remove (pending_hmac_path file_path))) (\<lambda>_. return False)
              else
                and_then (map_err io_err (fs_rename (pending_hmac_path file_path) (hmac_path file_path))) (\<lambda>_.
                and_then (map_err io_err fs_try) (\<lambda>_. return True))))"

definition verify_hmac_digest ::
    "digest_api \<Rightarrow> bytes \<Rightarrow> string \<Rightarrow> IntegrityConfig \<Rightarrow> (disk, IntegrityError, unit) act" where
  "verify_hmac_digest D computed file_path config =
     and_then (map_err io_err (read_hmac_sidecar (hmac_path file_path))) (\<lambda>sidecar.
     case sidecar of
       Some stored_hex \<Rightarrow>
         (case parse_sidecar_hmac D stored_hex of
            Inl e \<Rightarrow> (case ic_action config of Warn \<Rightarrow> return () | Reject \<Rightarrow> throw e)
          | Inr stored \<Rightarrow>
              if \<not> hmacs_match (ps_hmac stored) computed then
                and_then (try_promote_pending_hmac_sidecar D computed file_path) (\<lambda>promoted.
                if promoted then return ()
                else (case ic_action config of Warn \<Rightarrow> return () | Reject \<Rightarrow> throw Rejected))
              else if ps_format stored = Unversioned then
                and_then (attempt (fs_write (hmac_path file_path) (encode_sidecar_hmac_v1 D computed)))
                  (\<lambda>_. return ())
              else return ())
     | None \<Rightarrow>
         and_then (try_promote_pending_hmac_sidecar D computed file_path) (\<lambda>promoted.
         if promoted then return ()
         else (case ic_action config of
                 Warn \<Rightarrow>
                   and_then (attempt (fs_write (hmac_path file_path) (encode_sidecar_hmac_v1 D computed)))
                     (\<lambda>_. return ())
               | Reject \<Rightarrow> throw Rejected)))"

definition verify_hmac_file ::
    "digest_api \<Rightarrow> bytes \<Rightarrow> bytes \<Rightarrow> string \<Rightarrow> IntegrityConfig \<Rightarrow> (disk, IntegrityError, unit) act" where
  "verify_hmac_file D key b file_path config =
     (if \<not> ic_enabled config then return ()
      else verify_hmac_digest D (da_mac D key b) file_path config)"

definition verify_hmac_path ::
    "digest_api \<Rightarrow> bytes \<Rightarrow> string \<Rightarrow> IntegrityConfig \<Rightarrow> (disk, IntegrityError, unit) act" where
  "verify_hmac_path D key file_path config =
     (if \<not> ic_enabled config then return ()
      else and_then (map_err io_err fs_try) (\<lambda>_.
           and_then (gets (\<lambda>d. contents d file_path)) (\<lambda>c.
           case c of
             None \<Rightarrow> throw Io_error
           | Some b \<Rightarrow> verify_hmac_digest D (da_mac D key b) file_path config)))"

definition sidecar_matches_state ::
    "digest_api \<Rightarrow> string \<Rightarrow> AppendHmacState \<Rightarrow> (disk, io_error, bool) act" where
  "sidecar_matches_state D file_path st =
     and_then (read_hmac_sidecar (hmac_path file_path)) (\<lambda>r. case r of
        None \<Rightarrow> return False
      | Some raw \<Rightarrow>
          (case parse_sidecar_hmac D raw of
             Inl _ \<Rightarrow> return False
           | Inr stored \<Rightarrow> return (hmacs_match (ps_hmac stored) (state_hmac D st))))"

subsection \<open>Writes with a sidecar\<close>

text \<open>
  The order of steps that every writer of a session file follows: write a temporary file, stage the
  HMAC, rename, sync the directory, commit the HMAC; and for a line that is appended: stage, append,
  commit.
\<close>

definition replace_sealed :: "digest_api \<Rightarrow> bytes option \<Rightarrow> string \<Rightarrow> bytes \<Rightarrow> (disk, io_error, unit) act" where
  "replace_sealed D key p b =
     and_then fs_try (\<lambda>_.
     and_then (case key of None \<Rightarrow> return () | Some k \<Rightarrow> prepare_pending_hmac_file D k b p) (\<lambda>_.
     and_then (fs_install p b) (\<lambda>_.
     and_then fs_try (\<lambda>_.
     case key of None \<Rightarrow> return () | Some _ \<Rightarrow> commit_pending_hmac_sidecar p))))"

definition append_sealed :: "digest_api \<Rightarrow> bytes \<Rightarrow> string \<Rightarrow> bytes \<Rightarrow> (disk, io_error, unit) act" where
  "append_sealed D key p b =
     and_then (prepare_pending_hmac_file_for_appended_bytes D key p b) (\<lambda>_.
     and_then (fs_append p b) (\<lambda>_.
     commit_pending_hmac_sidecar p))"

subsection \<open>Sidecars that are read back\<close>

lemma path_neq [simp]:
  "hmac_path p \<noteq> p" "p \<noteq> hmac_path p" "pending_hmac_path p \<noteq> p" "p \<noteq> pending_hmac_path p"
  "pending_hmac_path p \<noteq> hmac_path p" "hmac_path p \<noteq> pending_hmac_path p"
  by (simp_all add: hmac_path_def pending_hmac_path_def)

lemma hex_chars:
  assumes "digest_ok D" "c \<in> set (da_hex_encode D b)"
  shows "\<not> is_ascii_ws c" and "(of_char c :: nat) < 128" and "c \<noteq> CHR '':''"
proof -
  have "c \<in> set ''0123456789abcdef''" using assms by (auto simp: digest_ok_def)
  then show "\<not> is_ascii_ws c" "(of_char c :: nat) < 128" "c \<noteq> CHR '':''" by (auto simp: is_ascii_ws_def)
qed

lemma trim_no_ws: "list_all (\<lambda>c. \<not> is_ascii_ws c) s \<Longrightarrow> trim s = s"
proof -
  assume s: "list_all (\<lambda>c. \<not> is_ascii_ws c) s"
  have "dropWhile is_ascii_ws xs = xs" if "list_all (\<lambda>c. \<not> is_ascii_ws c) xs" for xs
    using that by (cases xs) auto
  from this [OF s] this [of "rev s"] s show ?thesis by (simp add: trim_def)
qed

lemma utf8_ascii: "list_all (\<lambda>c. (of_char c :: nat) < 128) s \<Longrightarrow> utf8_from [] s"
  by (induction s) auto

lemma encoded_chars:
  assumes "digest_ok D"
  shows "list_all (\<lambda>c. \<not> is_ascii_ws c) (encode_sidecar_hmac_v1 D h)"
    and "list_all (\<lambda>c. (of_char c :: nat) < 128) (encode_sidecar_hmac_v1 D h)"
  using hex_chars [OF assms]
  by (auto simp: encode_sidecar_hmac_v1_def HMAC_SIDECAR_V1_PREFIX_def list_all_iff is_ascii_ws_def)

lemma sidecar_roundtrip:
  assumes "digest_ok D" "length h = HMAC_DIGEST_SIZE"
  shows "parse_sidecar_hmac D (encode_sidecar_hmac_v1 D h) = Inr \<lparr>ps_hmac = h, ps_format = CurrentV1\<rparr>"
proof -
  have "trim (encode_sidecar_hmac_v1 D h) = ''v1:'' @ da_hex_encode D h"
    using trim_no_ws [OF encoded_chars(1) [OF assms(1)]]
    by (simp add: encode_sidecar_hmac_v1_def HMAC_SIDECAR_V1_PREFIX_def)
  moreover have "da_hex_decode D (da_hex_encode D h) = Some h" using assms(1) by (simp add: digest_ok_def)
  ultimately show ?thesis
    using assms(2) by (simp add: parse_sidecar_hmac_def decode_digest_def HMAC_SIDECAR_V1_PREFIX_def starts_with_def)
qed

text \<open>The digest that a sidecar file holds, if it can be read at all.\<close>

definition sidecar_digest :: "digest_api \<Rightarrow> disk \<Rightarrow> string \<Rightarrow> bytes option" where
  "sidecar_digest D d q =
     (case contents d q of
        None \<Rightarrow> None
      | Some raw \<Rightarrow>
          if length raw > HMAC_SIDECAR_MAX_BYTES \<or> \<not> utf8_from [] raw then None
          else (case parse_sidecar_hmac D raw of Inl _ \<Rightarrow> None | Inr s \<Rightarrow> Some (ps_hmac s)))"

lemma sidecar_digest_encoded:
  assumes "digest_ok D" "length h = HMAC_DIGEST_SIZE" "contents d q = Some (encode_sidecar_hmac_v1 D h)"
  shows "sidecar_digest D d q = Some h"
proof -
  have "length (encode_sidecar_hmac_v1 D h) \<le> HMAC_SIDECAR_MAX_BYTES"
    using assms(1,2) by (simp add: encode_sidecar_hmac_v1_def HMAC_SIDECAR_V1_PREFIX_def digest_ok_def
        HMAC_DIGEST_SIZE_def HMAC_SIDECAR_MAX_BYTES_def)
  with assms sidecar_roundtrip utf8_ascii [OF encoded_chars(2)] show ?thesis
    by (simp add: sidecar_digest_def)
qed

lemma mac_length: "digest_ok D \<Longrightarrow> length (da_mac D k b) = HMAC_DIGEST_SIZE"
  by (simp add: digest_ok_def)

lemma sidecar_digest_length: "sidecar_digest D d q = Some h \<Longrightarrow> length h = HMAC_DIGEST_SIZE"
  by (auto simp: sidecar_digest_def parse_sidecar_hmac_def decode_digest_def Let_def
      split: option.splits if_splits sum.splits)

lemma sidecar_digest_cong: "contents d q = contents d' q \<Longrightarrow> sidecar_digest D d q = sidecar_digest D d' q"
  by (simp add: sidecar_digest_def)

subsection \<open>What verification accepts\<close>

definition reject_config :: IntegrityConfig where
  "reject_config = \<lparr>ic_enabled = True, ic_action = Reject\<rparr>"

text \<open>
  With the action \<^verbatim>\<open>reject\<close> a file is accepted when its sidecar holds the HMAC of its bytes, or when the
  sidecar is missing or holds another HMAC and the pending sidecar holds that of its bytes.
\<close>

definition accepted :: "digest_api \<Rightarrow> bytes \<Rightarrow> disk \<Rightarrow> string \<Rightarrow> bytes \<Rightarrow> bool" where
  "accepted D key d p b \<longleftrightarrow>
     sidecar_digest D d (hmac_path p) = Some (da_mac D key b) \<or>
     ((contents d (hmac_path p) = None \<or> sidecar_digest D d (hmac_path p) \<noteq> None) \<and>
      sidecar_digest D d (pending_hmac_path p) = Some (da_mac D key b))"

lemma quiet_read_sidecar [quiet_simps]:
  "quiet d \<Longrightarrow> read_hmac_sidecar q d =
     (case contents d q of
        None \<Rightarrow> (Inr None, d)
      | Some b \<Rightarrow> if length b > HMAC_SIDECAR_MAX_BYTES \<or> \<not> utf8_from [] b then (Inl Failed, d) else (Inr (Some b), d))"
  by (simp add: read_hmac_sidecar_def act_simps quiet_simps split: option.splits)

lemma promote_accepts:
  assumes "quiet d" "length computed = HMAC_DIGEST_SIZE"
  shows "fst (try_promote_pending_hmac_sidecar D computed p d) = Inr True \<longleftrightarrow>
    sidecar_digest D d (pending_hmac_path p) = Some computed"
proof (cases "contents d (pending_hmac_path p)")
  case None
  with assms show ?thesis
    by (simp add: try_promote_pending_hmac_sidecar_def sidecar_digest_def act_simps quiet_simps)
next
  case (Some raw)
  then obtain f where f: "hm_get (d_files d) (pending_hmac_path p) = Some f" by (auto simp: contents_def)
  from Some f assms show ?thesis
    by (auto simp: try_promote_pending_hmac_sidecar_def sidecar_digest_def hmacs_match_def act_simps quiet_simps
        split: sum.splits)
qed

lemma verify_reject_accepts:
  assumes "quiet d" "digest_ok D"
  shows "fst (verify_hmac_file D key b p reject_config d) = Inr () \<longleftrightarrow> accepted D key d p b"
proof -
  let ?m = "da_mac D key b"
  note len = mac_length [OF assms(2), of key b]
  note promote = promote_accepts [OF assms(1) len, of D p]
  have promoted: "fst (and_then (try_promote_pending_hmac_sidecar D ?m p)
      (\<lambda>promoted. if promoted then return () else throw Rejected) d) = Inr () \<longleftrightarrow>
      sidecar_digest D d (pending_hmac_path p) = Some ?m"
    unfolding promote [symmetric] by (auto simp: act_simps split: prod.splits sum.splits)
  show ?thesis
  proof (cases "contents d (hmac_path p)")
    case None
    then have "fst (verify_hmac_file D key b p reject_config d) =
        fst (and_then (try_promote_pending_hmac_sidecar D ?m p)
          (\<lambda>promoted. if promoted then return () else throw Rejected) d)"
      using assms(1) by (simp add: verify_hmac_file_def verify_hmac_digest_def reject_config_def quiet_simps
          act_simps(6,8) split: prod.split sum.split)
    moreover have "sidecar_digest D d (hmac_path p) = None" using None by (simp add: sidecar_digest_def)
    ultimately show ?thesis using None promoted by (simp add: accepted_def)
  next
    case (Some raw)
    then show ?thesis
    proof (cases "sidecar_digest D d (hmac_path p)")
      case None
      with Some assms(1) show ?thesis
        by (auto simp: accepted_def verify_hmac_file_def verify_hmac_digest_def reject_config_def sidecar_digest_def
            quiet_simps act_simps split: sum.splits if_splits)
    next
      case (Some h)
      then have "h \<noteq> ?m \<Longrightarrow> fst (verify_hmac_file D key b p reject_config d) =
          fst (and_then (try_promote_pending_hmac_sidecar D ?m p)
            (\<lambda>promoted. if promoted then return () else throw Rejected) d)"
        using assms(1) by (auto simp: verify_hmac_file_def verify_hmac_digest_def reject_config_def sidecar_digest_def
            quiet_simps act_simps(6,8) hmacs_match_def split: option.splits sum.splits if_splits prod.splits)
      moreover have "h = ?m \<Longrightarrow> fst (verify_hmac_file D key b p reject_config d) = Inr ()"
        using assms(1) Some len by (auto simp: verify_hmac_file_def verify_hmac_digest_def reject_config_def
            sidecar_digest_def quiet_simps act_simps hmacs_match_def split: option.splits sum.splits if_splits)
      ultimately show ?thesis
        using Some promoted by (cases "h = ?m") (auto simp: accepted_def)
    qed
  qed
qed

subsection \<open>Interrupted writes\<close>

definition sealed :: "digest_api \<Rightarrow> bytes \<Rightarrow> disk \<Rightarrow> string \<Rightarrow> bool" where
  "sealed D key d p \<longleftrightarrow>
     (case contents d p of
        None \<Rightarrow> contents d (hmac_path p) = None
      | Some b \<Rightarrow> sidecar_digest D d (hmac_path p) = Some (da_mac D key b))"

definition all_quiet :: "disk \<Rightarrow> disk" where
  "all_quiet d = d\<lparr>d_faults := []\<rparr>"

lemma all_quiet [simp]: "quiet (all_quiet d)" "contents (all_quiet d) = contents d"
  "sidecar_digest D (all_quiet d) q = sidecar_digest D d q"
  by (simp_all add: all_quiet_def quiet_def sidecar_digest_def)

lemma accepted_all_quiet [simp]: "accepted D key (all_quiet d) p b = accepted D key d p b"
  by (simp add: accepted_def)

lemma fs_try_run: "fs_try d = (r, d') \<Longrightarrow> contents d' = contents d"
  by (auto simp: fs_try_def split: prod.splits option.splits)

lemma fs_install_run:
  "fs_install p b d = (r, d') \<Longrightarrow> contents d' = (if r = Inr () then (contents d)(p \<mapsto> b) else contents d)"
  unfolding fs_install_def
  by (elim and_then_cases) (auto dest: fs_try_run simp: act_simps fun_eq_iff)

lemma fs_append_run:
  "fs_append p b d = (r, d') \<Longrightarrow>
   contents d' = contents d \<and> r = Inl Failed \<or>
   (\<exists>n. contents d' = (contents d)(p \<mapsto> old_bytes d p @ take n b) \<and> (r = Inr () \<longrightarrow> length b \<le> n))"
proof -
  assume run: "fs_append p b d = (r, d')"
  obtain f d1 where nf: "next_fault d = (f, d1)" by (cases "next_fault d")
  then have [simp]: "contents d1 = contents d" "old_bytes d1 p = old_bytes d p" by (simp_all add: old_bytes_def)
  show ?thesis
  proof (cases f)
    case None
    then have "contents d' = (contents d)(p \<mapsto> old_bytes d p @ take (length b) b) \<and> (r = Inr () \<longrightarrow> length b \<le> length b)"
      using run nf by (auto simp: fs_append_def fun_eq_iff)
    then show ?thesis by blast
  next
    case (Some x)
    then show ?thesis using run nf
      by (cases x) (auto simp: fs_append_def fun_eq_iff)
  qed
qed

text \<open>Staging changes only the pending sidecar, and leaves the new HMAC in it when it succeeds.\<close>

lemma write_pending_run:
  assumes "write_pending_hmac_payload p payload d = (r, d')"
  shows "(\<forall>q. q \<noteq> pending_hmac_path p \<longrightarrow> contents d' q = contents d q) \<and>
    (r = Inr () \<longrightarrow> contents d' (pending_hmac_path p) = Some payload)"
proof -
  have "keeps (same_files {pending_hmac_path p}) (write_pending_hmac_payload p payload)"
    unfolding write_pending_hmac_payload_def by (intro files.keeps_rules keeps_fs) simp_all
  from keepsD [OF this assms] have "\<forall>q. q \<noteq> pending_hmac_path p \<longrightarrow> contents d' q = contents d q"
    by (simp add: same_files_def)
  moreover have "contents d' (pending_hmac_path p) = Some payload" if "r = Inr ()"
    using assms that unfolding write_pending_hmac_payload_def
    by (auto elim!: and_then_InrE simp: act_simps fs_write_def split: if_splits prod.splits option.splits fault.splits)
  ultimately show ?thesis by blast
qed

lemma commit_run:
  assumes "commit_pending_hmac_sidecar p d = (r, d')" "contents d (pending_hmac_path p) = Some x"
  shows "contents d' = contents d \<and> r \<noteq> Inr () \<or>
    contents d' = (contents d)(hmac_path p \<mapsto> x, pending_hmac_path p := None)"
proof -
  obtain f where f: "hm_get (d_files d) (pending_hmac_path p) = Some f" "f_bytes f = x"
    using assms(2) by (auto simp: contents_def)
  obtain r1 d1 where t: "fs_try d = (r1, d1)" by (cases "fs_try d")
  have same: "d_files d1 = d_files d" using t by (auto simp: fs_try_def next_fault_def split: list.splits option.splits)
  have ren: "fs_rename (pending_hmac_path p) (hmac_path p) d =
      (case r1 of Inl e \<Rightarrow> (Inl e, d1)
       | Inr _ \<Rightarrow> (Inr (), d1\<lparr>d_files := hm_insert (hmac_path p) f (hm_remove (pending_hmac_path p) (d_files d1))\<rparr>))"
    using t f by (auto simp: fs_rename_def act_simps same split: sum.splits)
  have fails: "r1 = Inl e \<Longrightarrow> e = Failed" for e using t by (auto simp: fs_try_def split: prod.splits option.splits)
  have moved: "contents (d1\<lparr>d_files := hm_insert (hmac_path p) f (hm_remove (pending_hmac_path p) (d_files d1))\<rparr>) =
      (contents d)(hmac_path p \<mapsto> x, pending_hmac_path p := None)"
    using f(1) [folded same] f(2) fs_try_run [OF t] by (auto simp: fun_eq_iff)
  show ?thesis
  proof (cases r1)
    case (Inl e)
    with assms(1) ren fails fs_try_run [OF t] show ?thesis
      by (auto simp: commit_pending_hmac_sidecar_def act_simps)
  next
    case (Inr u)
    with assms(1) ren have "contents d' =
        contents (d1\<lparr>d_files := hm_insert (hmac_path p) f (hm_remove (pending_hmac_path p) (d_files d1))\<rparr>)"
      by (auto simp: commit_pending_hmac_sidecar_def act_simps dest: fs_try_run)
    with moved show ?thesis by simp
  qed
qed

text \<open>A staged HMAC of the bytes that end up in the file makes it acceptable, wherever the writer stops.\<close>

lemma staged_accepted:
  assumes "digest_ok D" "sealed D key d p"
    and "contents d1 (hmac_path p) = contents d (hmac_path p)"
    and "contents d1 (pending_hmac_path p) = Some (encode_sidecar_hmac_v1 D (da_mac D key b))"
  shows "accepted D key d1 p b"
proof -
  have "sidecar_digest D d1 (pending_hmac_path p) = Some (da_mac D key b)"
    using sidecar_digest_encoded [OF assms(1) mac_length [OF assms(1)] assms(4)] .
  moreover have "contents d1 (hmac_path p) = None \<or> sidecar_digest D d1 (hmac_path p) \<noteq> None"
    using assms(2,3) sidecar_digest_cong [OF assms(3)] by (auto simp: sealed_def split: option.splits)
  ultimately show ?thesis by (simp add: accepted_def)
qed

lemma committed_accepted:
  assumes "digest_ok D"
    and "contents d1 (hmac_path p) = Some (encode_sidecar_hmac_v1 D (da_mac D key b))"
  shows "accepted D key d1 p b"
  using sidecar_digest_encoded [OF assms(1) mac_length [OF assms(1)] assms(2)] by (simp add: accepted_def)

lemma sealed_accepted:
  "sealed D key d p \<Longrightarrow> contents d p = Some b \<Longrightarrow> contents d1 (hmac_path p) = contents d (hmac_path p) \<Longrightarrow>
   accepted D key d1 p b"
  using sidecar_digest_cong [of d1 "hmac_path p" d D] by (simp add: accepted_def sealed_def)

lemma replace_sealed_outcome:
  assumes ok: "digest_ok D" and s: "sealed D key d p" and run: "replace_sealed D (Some key) p b d = (r, d')"
  shows "contents d' p = contents d p \<and> contents d' (hmac_path p) = contents d (hmac_path p) \<and> r \<noteq> Inr () \<or>
    contents d' p = Some b \<and> accepted D key d' p b \<and>
    (r = Inr () \<longrightarrow> contents d' (hmac_path p) = Some (encode_sidecar_hmac_v1 D (da_mac D key b)))"
  using run unfolding replace_sealed_def option.case
proof (rule and_then_cases)
  fix e assume "fs_try d = (Inl e, d')" "r = Inl e"
  then show ?thesis by (auto dest: fs_try_run)
next
  fix u d1 assume t1: "fs_try d = (Inr u, d1)"
    and run1: "and_then (prepare_pending_hmac_file D key b p) (\<lambda>_. and_then (fs_install p b)
      (\<lambda>_. and_then fs_try (\<lambda>_. commit_pending_hmac_sidecar p))) d1 = (r, d')"
  have c1: "contents d1 = contents d" using fs_try_run [OF t1] .
  from run1 show ?thesis
  proof (rule and_then_cases)
    fix e assume "prepare_pending_hmac_file D key b p d1 = (Inl e, d')" "r = Inl e"
    then show ?thesis using c1 write_pending_run [of p _ d1 r d'] by (simp add: prepare_pending_hmac_file_def)
  next
    fix u d2 assume "prepare_pending_hmac_file D key b p d1 = (Inr u, d2)"
      and run2: "and_then (fs_install p b) (\<lambda>_. and_then fs_try (\<lambda>_. commit_pending_hmac_sidecar p)) d2 = (r, d')"
    then have c2: "\<forall>q. q \<noteq> pending_hmac_path p \<longrightarrow> contents d2 q = contents d q"
      and pend: "contents d2 (pending_hmac_path p) = Some (encode_sidecar_hmac_v1 D (da_mac D key b))"
      using c1 write_pending_run [of p _ d1 _ d2] by (simp_all add: prepare_pending_hmac_file_def)
    from run2 show ?thesis
    proof (rule and_then_cases)
      fix e assume "fs_install p b d2 = (Inl e, d')" "r = Inl e"
      then show ?thesis using c2 by (auto dest: fs_install_run)
    next
      fix u d3 assume "fs_install p b d2 = (Inr u, d3)"
        and run3: "and_then fs_try (\<lambda>_. commit_pending_hmac_sidecar p) d3 = (r, d')"
      then have c3: "contents d3 = (contents d2)(p \<mapsto> b)" by (auto dest: fs_install_run)
      then have acc3: "accepted D key dx p b" if "contents dx = contents d3" for dx
        using staged_accepted [OF ok s, of dx b] c2 pend that by simp
      from run3 show ?thesis
      proof (rule and_then_cases)
        fix e assume "fs_try d3 = (Inl e, d')" "r = Inl e"
        then show ?thesis using acc3 c3 by (auto dest: fs_try_run)
      next
        fix u d4 assume "fs_try d3 = (Inr u, d4)" and run4: "commit_pending_hmac_sidecar p d4 = (r, d')"
        then have c4: "contents d4 = contents d3" by (auto dest: fs_try_run)
        with commit_run [OF run4] c3 pend acc3 committed_accepted [OF ok, of d' p key b] show ?thesis by auto
      qed
    qed
  qed
qed

lemma append_sealed_outcome:
  assumes ok: "digest_ok D" and s: "sealed D key d p" and run: "append_sealed D key p b d = (r, d')"
  shows "contents d' p = contents d p \<and> contents d' (hmac_path p) = contents d (hmac_path p) \<and> r \<noteq> Inr () \<or>
    (\<exists>n. contents d' p = Some (old_bytes d p @ take n b) \<and> (r = Inr () \<longrightarrow> length b \<le> n) \<and>
      (length b \<le> n \<longrightarrow> accepted D key d' p (old_bytes d p @ b)))"
  using run unfolding append_sealed_def
proof (rule and_then_cases)
  fix e assume e: "prepare_pending_hmac_file_for_appended_bytes D key p b d = (Inl e, d')" and "r = Inl e"
  have "keeps (same_files {pending_hmac_path p}) (prepare_pending_hmac_file_for_appended_bytes D key p b)"
    unfolding prepare_pending_hmac_file_for_appended_bytes_def AppendHmacState_from_path_def
      prepare_pending_hmac_file_for_appended_bytes_with_state_def write_pending_hmac_payload_def
    by (intro files.keeps_rules keeps_fs) simp_all
  from keepsD [OF this e] \<open>r = Inl e\<close> show ?thesis by (simp add: same_files_def)
next
  fix st d2 assume prep: "prepare_pending_hmac_file_for_appended_bytes D key p b d = (Inr st, d2)"
    and run2: "and_then (fs_append p b) (\<lambda>_. commit_pending_hmac_sidecar p) d2 = (r, d')"
  let ?new = "old_bytes d p @ b"
  obtain s0 d1 where init: "AppendHmacState_from_path key p d = (Inr s0, d1)"
    and stage: "prepare_pending_hmac_file_for_appended_bytes_with_state D p s0 b d1 = (Inr st, d2)"
    using prep unfolding prepare_pending_hmac_file_for_appended_bytes_def by (rule and_then_InrE)
  from init have c1: "contents d1 = contents d" and s0: "s0 = \<lparr>ah_key = key, ah_fed = old_bytes d p\<rparr>"
    unfolding AppendHmacState_from_path_def
    by (auto elim!: and_then_InrE simp: act_simps(4) old_bytes_def dest: fs_try_run)
  have w: "write_pending_hmac_payload p (encode_sidecar_hmac_v1 D (da_mac D key ?new)) d1 = (Inr (), d2)"
    using stage unfolding prepare_pending_hmac_file_for_appended_bytes_with_state_def Let_def
    by (auto elim!: and_then_InrE simp: act_simps(1) s0 AppendHmacState_extend_def sidecar_payload_def state_hmac_def)
  have c2: "\<forall>q. q \<noteq> pending_hmac_path p \<longrightarrow> contents d2 q = contents d q"
    and pend: "contents d2 (pending_hmac_path p) = Some (encode_sidecar_hmac_v1 D (da_mac D key ?new))"
    using c1 write_pending_run [OF w] by simp_all
  have old: "old_bytes d2 p = old_bytes d p" using c2 by (simp add: old_bytes_def)
  from run2 show ?thesis
  proof (rule and_then_cases)
    fix e assume "fs_append p b d2 = (Inl e, d')" "r = Inl e"
    then show ?thesis
      using fs_append_run [of p b d2 r d'] c2 old staged_accepted [OF ok s, of d' ?new] pend by auto
  next
    fix u d3 assume "fs_append p b d2 = (Inr u, d3)" and run3: "commit_pending_hmac_sidecar p d3 = (r, d')"
    then have c3: "contents d3 = (contents d2)(p \<mapsto> ?new)"
      using fs_append_run [of p b d2 "Inr u" d3] old by auto
    with commit_run [OF run3] pend c2 staged_accepted [OF ok s, of d' ?new] committed_accepted [OF ok, of d' p key ?new]
    have "contents d' p = Some (old_bytes d p @ take (length b) b) \<and> (r = Inr () \<longrightarrow> length b \<le> length b) \<and>
        (length b \<le> length b \<longrightarrow> accepted D key d' p ?new)" by auto
    then show ?thesis by blast
  qed
qed

lemma append_sealed_whole:
  assumes ok: "digest_ok D" and s: "sealed D key d p" and run: "append_sealed D key p b d = (r, d')"
    and whole: "contents d' p = contents d p \<or> contents d' p = Some (old_bytes d p @ b)" and c: "contents d' p = Some c"
    and "b \<noteq> []"
  shows "contents d p = Some c \<or> accepted D key d' p c"
  using append_sealed_outcome [OF ok s run] whole c \<open>b \<noteq> []\<close>
  by (auto simp: old_bytes_def)

subsection \<open>Properties\<close>

text \<open>
  C34: Whatever access fails while a session file is replaced, the file holds its old or its new contents
  in full, a reported success means the new ones, and in the strict mode that refuses files whose HMAC does
  not match, the next verification accepts it.
\<close>

theorem interrupted_replace_verifiable:
  assumes "digest_ok D" "sealed D key d p" "replace_sealed D (Some key) p b d = (r, d')"
  shows "(contents d' p = contents d p \<or> contents d' p = Some b) \<and> (r = Inr () \<longrightarrow> contents d' p = Some b) \<and>
    (\<forall>c. contents d' p = Some c \<longrightarrow> fst (verify_hmac_file D key c p reject_config (all_quiet d')) = Inr ())"
proof -
  note out = replace_sealed_outcome [OF assms]
  have "accepted D key d' p c" if c: "contents d' p = Some c" for c
    using out
  proof (elim disjE conjE)
    assume same: "contents d' p = contents d p" "contents d' (hmac_path p) = contents d (hmac_path p)"
    show ?thesis using sealed_accepted [OF assms(2) _ same(2)] c same(1) by simp
  next
    assume "contents d' p = Some b" "accepted D key d' p b"
    with c show ?thesis by simp
  qed
  with out show ?thesis using verify_reject_accepts [OF _ assms(1), of "all_quiet d'"] by auto
qed

text \<open>Concrete digests for the examples: the first 32 bytes, padded.\<close>

definition hex_digit :: "nat \<Rightarrow> char" where
  "hex_digit n = ''0123456789abcdef'' ! n"

definition ex_hex_encode :: "bytes \<Rightarrow> string" where
  "ex_hex_encode b = concat (map (\<lambda>c. [hex_digit (of_char c div 16), hex_digit (of_char c mod 16)]) b)"

definition digit_index :: "char \<Rightarrow> nat option" where
  "digit_index c = map_of (zip ''0123456789abcdef'' [0..<16]) c"

fun ex_hex_decode :: "string \<Rightarrow> bytes option" where
  "ex_hex_decode [] = Some []"
| "ex_hex_decode [c] = None"
| "ex_hex_decode (x # y # cs) =
     (case (digit_index x, digit_index y, ex_hex_decode cs) of
        (Some a, Some b, Some r) \<Rightarrow> Some (char_of (16 * a + b) # r)
      | _ \<Rightarrow> None)"

definition ex_mac :: "bytes \<Rightarrow> bytes \<Rightarrow> bytes" where
  "ex_mac k b = take 32 (b @ replicate 32 (CHR ''#''))"

definition ex_digest :: digest_api where
  "ex_digest = \<lparr>da_mac = ex_mac, da_hex_encode = ex_hex_encode, da_hex_decode = ex_hex_decode\<rparr>"

lemma digit_index_hex: "n < 16 \<Longrightarrow> digit_index (hex_digit n) = Some n"
proof -
  have "list_all (\<lambda>n. digit_index (hex_digit n) = Some n) [0..<16]"
    by (simp add: upt_rec digit_index_def hex_digit_def)
  then show "n < 16 \<Longrightarrow> digit_index (hex_digit n) = Some n" by (simp add: list_all_iff)
qed

lemma hex_digit_in: "n < 16 \<Longrightarrow> hex_digit n \<in> set ''0123456789abcdef''"
  unfolding hex_digit_def by (rule nth_mem) simp

lemma of_char_parts: "(of_char c :: nat) div 16 < 16" "(of_char c :: nat) mod 16 < 16"
  using nat_of_char_less_256 [of c] by (simp_all add: less_mult_imp_div_less)

lemma digest_ok_ex: "digest_ok ex_digest"
proof -
  have "ex_hex_decode (ex_hex_encode b) = Some b" for b
    by (induction b) (simp_all add: ex_hex_encode_def digit_index_hex of_char_parts)
  moreover have "length (ex_hex_encode b) = 2 * length b" for b
    by (induction b) (simp_all add: ex_hex_encode_def)
  moreover have "set (ex_hex_encode b) \<subseteq> set ''0123456789abcdef''" for b
    using hex_digit_in [OF of_char_parts(1)] hex_digit_in [OF of_char_parts(2)]
    by (fastforce simp: ex_hex_encode_def)
  ultimately show ?thesis
    by (auto simp: digest_ok_def ex_digest_def ex_mac_def HMAC_DIGEST_SIZE_def)
qed

definition ex_disk :: "(string \<times> bytes) list \<Rightarrow> fault option list \<Rightarrow> disk" where
  "ex_disk fs faults =
     \<lparr>d_files = map (\<lambda>(p, b). (p, \<lparr>f_bytes = b, f_mtime = 0\<rparr>)) fs, d_base = True, d_archives = True,
      d_faults = faults, d_now = 0, d_count = 0\<rparr>"

lemma contents_ex_disk: "contents (ex_disk fs faults) p = map_of fs p"
  by (induction fs) (auto simp: contents_def ex_disk_def hm_get_def)

lemma ex_sealed:
  "sealed ex_digest k (ex_disk [(''s'', b), (''s.hmac'', encode_sidecar_hmac_v1 ex_digest (ex_mac k b))] faults) ''s''"
proof -
  have "sidecar_digest ex_digest (ex_disk [(''s'', b), (''s.hmac'', encode_sidecar_hmac_v1 ex_digest (ex_mac k b))] faults)
      ''s.hmac'' = Some (ex_mac k b)"
    by (rule sidecar_digest_encoded [OF digest_ok_ex])
      (simp_all add: contents_ex_disk ex_mac_def HMAC_DIGEST_SIZE_def)
  then show ?thesis by (simp add: sealed_def contents_ex_disk hmac_path_def ex_digest_def)
qed

text \<open>The directory sync after the rename fails: the new contents are in place with the old sidecar.\<close>

theorem interrupted_replace_verifiable_witness:
  "let d = ex_disk [(''s'', ''old''), (''s.hmac'', encode_sidecar_hmac_v1 ex_digest (ex_mac [] ''old''))]
         [None, None, None, None, Some Fails];
       d' = snd (replace_sealed ex_digest (Some []) ''s'' ''new'' d)
   in contents d' ''s'' = Some ''new'' \<and>
      fst (verify_hmac_file ex_digest [] ''new'' ''s'' reject_config (all_quiet d')) = Inr ()"
proof -
  let ?d = "ex_disk [(''s'', ''old''), (''s.hmac'', encode_sidecar_hmac_v1 ex_digest (ex_mac [] ''old''))]
         [None, None, None, None, Some Fails]"
  obtain r d' where run: "replace_sealed ex_digest (Some []) ''s'' ''new'' ?d = (r, d')"
    by (cases "replace_sealed ex_digest (Some []) ''s'' ''new'' ?d")
  have "contents d' ''s'' = Some ''new''"
    using run by (auto simp: replace_sealed_def prepare_pending_hmac_file_def write_pending_hmac_payload_def act_simps
        fs_try_def fs_remove_def fs_install_def fs_write_def fs_exists_def next_fault_def ex_disk_def fs_put_def hm_eval
        contents_def pending_hmac_path_def hmac_path_def)
  with interrupted_replace_verifiable [OF digest_ok_ex ex_sealed run] run show ?thesis by (simp add: Let_def)
qed

text \<open>
  An append that stops in the middle of a line is not recovered: neither sidecar holds the HMAC of the
  torn file, and the strict mode refuses the whole history from then on.
\<close>

lemma torn_append_refused:
  "let d = ex_disk [(''s'', ''old''), (''s.hmac'', encode_sidecar_hmac_v1 ex_digest (ex_mac [] ''old''))]
         [None, None, None, Some (Torn 1)];
       d' = snd (append_sealed ex_digest [] ''s'' ''new'' d)
   in contents d' ''s'' = Some ''oldn'' \<and>
      fst (verify_hmac_file ex_digest [] ''oldn'' ''s'' reject_config (all_quiet d')) \<noteq> Inr ()"
proof -
  let ?d = "ex_disk [(''s'', ''old''), (''s.hmac'', encode_sidecar_hmac_v1 ex_digest (ex_mac [] ''old''))]
         [None, None, None, Some (Torn 1)]"
  obtain r d' where run: "append_sealed ex_digest [] ''s'' ''new'' ?d = (r, d')"
    by (cases "append_sealed ex_digest [] ''s'' ''new'' ?d")
  have c: "contents d' ''s'' = Some ''oldn''"
    "contents d' (hmac_path ''s'') = Some (encode_sidecar_hmac_v1 ex_digest (ex_mac [] ''old''))"
    "contents d' (pending_hmac_path ''s'') = Some (encode_sidecar_hmac_v1 ex_digest (ex_mac [] ''oldnew''))"
    using run by (auto simp: append_sealed_def prepare_pending_hmac_file_for_appended_bytes_def Let_def
        prepare_pending_hmac_file_for_appended_bytes_with_state_def AppendHmacState_from_path_def sidecar_payload_def
        state_hmac_def AppendHmacState_extend_def write_pending_hmac_payload_def act_simps fs_append_def old_bytes_def
        fs_try_def fs_remove_def fs_write_def fs_exists_def next_fault_def ex_disk_def fs_put_def hm_eval
        contents_def pending_hmac_path_def hmac_path_def ex_digest_def)
  have len: "length (ex_mac [] b) = HMAC_DIGEST_SIZE" for b by (auto simp: ex_mac_def HMAC_DIGEST_SIZE_def)
  have "ex_mac [] ''oldn'' \<noteq> ex_mac [] ''old''" "ex_mac [] ''oldn'' \<noteq> ex_mac [] ''oldnew''"
    by (simp_all add: ex_mac_def eval_nat_numeral)
  then have "\<not> accepted ex_digest [] (all_quiet d') ''s'' ''oldn''"
    using sidecar_digest_encoded [OF digest_ok_ex len c(2)] sidecar_digest_encoded [OF digest_ok_ex len c(3)]
    by (simp add: accepted_def) (simp add: ex_digest_def)
  then show ?thesis
    using run c(1) verify_reject_accepts [OF _ digest_ok_ex, of "all_quiet d'" "[]" "''oldn''" "''s''"] by (simp add: Let_def)
qed

end
