(* ===== verification/Session_Crypto.thy ===== *)
theory Session_Crypto
  imports Session_Disk Rust_Text
begin

text \<open>
  Encryption of session artifacts, \<^verbatim>\<open>src/sessions/crypto.rs\<close>: the key of one artifact is derived from the
  master key, the session and the purpose; the ciphertext travels in a JSON envelope behind the prefix
  \<^verbatim>\<open>cse1:\<close>. HKDF, the authenticated cipher, base64, the random nonces and the JSON codec of the envelope are
  the parameter \<open>C\<close> with the laws \<open>cipher_ok\<close>. Loading the manifest and deriving the master key from the
  password are not modelled.
\<close>

record EncryptedEnvelope =
  ee_format :: string
  ee_n :: string
  ee_c :: string

record cipher_api =
  ca_hkdf :: "bytes \<Rightarrow> bytes \<Rightarrow> bytes"
  ca_nonce :: "nat \<Rightarrow> bytes option"
  ca_encrypt :: "bytes \<Rightarrow> bytes \<Rightarrow> bytes \<Rightarrow> bytes \<Rightarrow> bytes option"
  ca_decrypt :: "bytes \<Rightarrow> bytes \<Rightarrow> bytes \<Rightarrow> bytes \<Rightarrow> bytes option"
  ca_b64_encode :: "bytes \<Rightarrow> string"
  ca_b64_decode :: "string \<Rightarrow> bytes option"
  ca_envelope_encode :: "EncryptedEnvelope \<Rightarrow> bytes"
  ca_envelope_decode :: "bytes \<Rightarrow> EncryptedEnvelope option"

definition SESSION_ENCRYPTED_FORMAT_V1 :: string where "SESSION_ENCRYPTED_FORMAT_V1 = ''session-enc-v1''"
definition SESSION_ENCRYPTED_PREFIX_V1 :: bytes where "SESSION_ENCRYPTED_PREFIX_V1 = ''cse1:''"
definition SESSION_ENCRYPTION_INFO_PREFIX :: bytes where
  "SESSION_ENCRYPTION_INFO_PREFIX = ''carapace:session-encryption-key:v1:''"
definition NONCE_LEN :: nat where "NONCE_LEN = 12"

text \<open>Compact JSON is one non-empty line of text that neither starts nor ends with white space.\<close>

definition is_ascii_whitespace :: "char \<Rightarrow> bool" where
  "is_ascii_whitespace c \<longleftrightarrow> (of_char c :: nat) \<in> {9, 10, 12, 13, 32}"

definition newline :: char where "newline = CHR 0x0A"

definition json_line :: "bytes \<Rightarrow> bool" where
  "json_line b \<longleftrightarrow> b \<noteq> [] \<and> newline \<notin> set b \<and> \<not> is_ascii_whitespace (hd b) \<and> \<not> is_ascii_whitespace (List.last b)"

definition cipher_ok :: "cipher_api \<Rightarrow> bool" where
  "cipher_ok C \<longleftrightarrow>
     (\<forall>k n p a c. ca_encrypt C k n p a = Some c \<longrightarrow> ca_decrypt C k n c a = Some p) \<and>
     (\<forall>i n. ca_nonce C i = Some n \<longrightarrow> length n = NONCE_LEN) \<and>
     (\<forall>b. ca_b64_decode C (ca_b64_encode C b) = Some b) \<and>
     (\<forall>e. ca_envelope_decode C (ca_envelope_encode C e) = Some e) \<and>
     (\<forall>e. json_line (ca_envelope_encode C e))"

datatype EncryptionMode = Off | IfPassword | Required

definition uses_encryption :: "EncryptionMode \<Rightarrow> bool" where
  "uses_encryption m \<longleftrightarrow> m \<noteq> Off"

datatype SessionCryptoError =
  Crypto_Io | Crypto_Manifest | KeyDerivation | RandomFailure | BadFormat | Base64Decode | EncryptionFailed |
  Crypto_DecryptionFailed | Crypto_ManifestIntegrityFailed

record SessionCryptoContext =
  cc_master_key :: bytes
  cc_manifest_integrity_valid :: bool

definition aad_bytes :: "string \<Rightarrow> string \<Rightarrow> bytes" where
  "aad_bytes session_id purpose = ''carapace:session:'' @ purpose @ '':v1:'' @ session_id"

definition derive_session_key_from_master :: "cipher_api \<Rightarrow> bytes \<Rightarrow> string \<Rightarrow> string \<Rightarrow> bytes" where
  "derive_session_key_from_master C master_key session_id purpose =
     ca_hkdf C master_key (SESSION_ENCRYPTION_INFO_PREFIX @ session_id @ '':'' @ purpose)"

definition has_encrypted_payload_prefix :: "bytes \<Rightarrow> bool" where
  "has_encrypted_payload_prefix b = starts_with b SESSION_ENCRYPTED_PREFIX_V1"

definition strip_payload_prefix :: "bytes \<Rightarrow> bytes" where
  "strip_payload_prefix b =
     (if has_encrypted_payload_prefix b then drop (length SESSION_ENCRYPTED_PREFIX_V1) b else b)"

definition ensure_manifest_integrity :: "SessionCryptoContext \<Rightarrow> SessionCryptoError + unit" where
  "ensure_manifest_integrity ctx =
     (if cc_manifest_integrity_valid ctx then Inr () else Inl Crypto_ManifestIntegrityFailed)"

definition wrap_session_envelope :: "cipher_api \<Rightarrow> bytes \<Rightarrow> bytes \<Rightarrow> bytes" where
  "wrap_session_envelope C nonce ciphertext =
     SESSION_ENCRYPTED_PREFIX_V1 @ ca_envelope_encode C
       \<lparr>ee_format = SESSION_ENCRYPTED_FORMAT_V1, ee_n = ca_b64_encode C nonce, ee_c = ca_b64_encode C ciphertext\<rparr>"

definition encrypt_bytes ::
    "cipher_api \<Rightarrow> SessionCryptoContext \<Rightarrow> nat \<Rightarrow> string \<Rightarrow> string \<Rightarrow> bytes \<Rightarrow> SessionCryptoError + bytes" where
  "encrypt_bytes C ctx draw_no session_id purpose plaintext =
     (case ensure_manifest_integrity ctx of
        Inl e \<Rightarrow> Inl e
      | Inr _ \<Rightarrow>
          (let key = derive_session_key_from_master C (cc_master_key ctx) session_id purpose;
               aad = aad_bytes session_id purpose
           in case ca_nonce C draw_no of
                None \<Rightarrow> Inl RandomFailure
              | Some nonce \<Rightarrow>
                  (case ca_encrypt C key nonce plaintext aad of
                     None \<Rightarrow> Inl EncryptionFailed
                   | Some ciphertext \<Rightarrow> Inr (wrap_session_envelope C nonce ciphertext))))"

definition decrypt_prefixed_bytes_with_master_key ::
    "cipher_api \<Rightarrow> bytes \<Rightarrow> string \<Rightarrow> string \<Rightarrow> bytes \<Rightarrow> SessionCryptoError + bytes" where
  "decrypt_prefixed_bytes_with_master_key C master_key session_id purpose payload =
     (if \<not> has_encrypted_payload_prefix payload then Inl BadFormat
      else (case ca_envelope_decode C (strip_payload_prefix payload) of
              None \<Rightarrow> Inl BadFormat
            | Some envelope \<Rightarrow>
                if ee_format envelope \<noteq> SESSION_ENCRYPTED_FORMAT_V1 then Inl BadFormat
                else (case ca_b64_decode C (ee_n envelope) of
                        None \<Rightarrow> Inl Base64Decode
                      | Some nonce \<Rightarrow>
                          if length nonce \<noteq> NONCE_LEN then Inl BadFormat
                          else (case ca_b64_decode C (ee_c envelope) of
                                  None \<Rightarrow> Inl Base64Decode
                                | Some ciphertext \<Rightarrow>
                                    (case ca_decrypt C (derive_session_key_from_master C master_key session_id purpose)
                                            nonce ciphertext (aad_bytes session_id purpose) of
                                       None \<Rightarrow> Inl Crypto_DecryptionFailed
                                     | Some plaintext \<Rightarrow> Inr plaintext)))))"

definition decrypt_bytes ::
    "cipher_api \<Rightarrow> SessionCryptoContext \<Rightarrow> string \<Rightarrow> string \<Rightarrow> bytes \<Rightarrow> SessionCryptoError + bytes" where
  "decrypt_bytes C ctx session_id purpose payload =
     (case ensure_manifest_integrity ctx of
        Inl e \<Rightarrow> Inl e
      | Inr _ \<Rightarrow> decrypt_prefixed_bytes_with_master_key C (cc_master_key ctx) session_id purpose payload)"

definition is_encrypted_payload :: "cipher_api \<Rightarrow> bytes \<Rightarrow> bool" where
  "is_encrypted_payload C b =
     (if \<not> has_encrypted_payload_prefix b then False
      else (case ca_envelope_decode C (strip_payload_prefix b) of
              None \<Rightarrow> False
            | Some envelope \<Rightarrow> ee_format envelope = SESSION_ENCRYPTED_FORMAT_V1))"

subsection \<open>Facts\<close>

lemma wrap_prefix [simp]: "has_encrypted_payload_prefix (wrap_session_envelope C n c)"
  by (simp add: has_encrypted_payload_prefix_def wrap_session_envelope_def starts_with_def)

lemma strip_wrap [simp]:
  "strip_payload_prefix (wrap_session_envelope C n c) =
     ca_envelope_encode C \<lparr>ee_format = SESSION_ENCRYPTED_FORMAT_V1, ee_n = ca_b64_encode C n, ee_c = ca_b64_encode C c\<rparr>"
proof -
  have "has_encrypted_payload_prefix (wrap_session_envelope C n c)" by simp
  then show ?thesis by (simp add: strip_payload_prefix_def wrap_session_envelope_def)
qed

lemma decrypt_encrypt:
  assumes "cipher_ok C" "encrypt_bytes C ctx i session_id purpose b = Inr payload"
  shows "decrypt_bytes C ctx session_id purpose payload = Inr b"
proof -
  from assms(2) obtain nonce c where
    valid: "cc_manifest_integrity_valid ctx" and n: "ca_nonce C i = Some nonce"
    and enc: "ca_encrypt C (derive_session_key_from_master C (cc_master_key ctx) session_id purpose) nonce b
      (aad_bytes session_id purpose) = Some c"
    and p: "payload = wrap_session_envelope C nonce c"
    by (auto simp: encrypt_bytes_def ensure_manifest_integrity_def Let_def split: if_splits option.splits)
  have "length nonce = NONCE_LEN" using assms(1) n by (simp add: cipher_ok_def)
  with assms(1) valid enc show ?thesis
    by (simp add: decrypt_bytes_def ensure_manifest_integrity_def decrypt_prefixed_bytes_with_master_key_def p cipher_ok_def)
qed

lemma encrypt_is_line:
  assumes "cipher_ok C" "encrypt_bytes C ctx i session_id purpose b = Inr payload"
  shows "has_encrypted_payload_prefix payload" and "json_line payload"
proof -
  from assms(2) obtain nonce c where p: "payload = wrap_session_envelope C nonce c"
    by (auto simp: encrypt_bytes_def ensure_manifest_integrity_def Let_def split: if_splits option.splits)
  then show "has_encrypted_payload_prefix payload" by simp
  have "json_line (ca_envelope_encode C e)" for e using assms(1) by (simp add: cipher_ok_def)
  then show "json_line payload"
    by (simp add: p wrap_session_envelope_def json_line_def SESSION_ENCRYPTED_PREFIX_V1_def newline_def
        is_ascii_whitespace_def) 
qed

text \<open>
  Artifacts of different sessions or purposes use different derivation labels and different associated data,
  provided identifiers contain no colon, which \<^verbatim>\<open>validate_session_id\<close> ensures.
\<close>

lemma append_colon_eq:
  assumes "CHR '':'' \<notin> set a" "CHR '':'' \<notin> set a'" "a @ CHR '':'' # b = a' @ CHR '':'' # b'"
  shows "a = a' \<and> b = b'"
  using assms
proof (induction a arbitrary: a')
  case Nil
  then show ?case by (cases a') auto
next
  case (Cons c a)
  then show ?case by (cases a') auto
qed

lemma session_key_label_inj:
  assumes "CHR '':'' \<notin> set i" "CHR '':'' \<notin> set i'"
    and "SESSION_ENCRYPTION_INFO_PREFIX @ i @ '':'' @ p = SESSION_ENCRYPTION_INFO_PREFIX @ i' @ '':'' @ p'"
  shows "i = i' \<and> p = p'"
  using append_colon_eq [OF assms(1,2)] assms(3) by simp

lemma aad_bytes_inj:
  assumes "CHR '':'' \<notin> set p" "CHR '':'' \<notin> set p'" "aad_bytes i p = aad_bytes i' p'"
  shows "i = i' \<and> p = p'"
  using append_colon_eq [OF assms(1,2), of "''v1:'' @ i" "''v1:'' @ i'"] assms(3) by (simp add: aad_bytes_def)

end
