(* ===== verification/Session_Data.thy ===== *)
theory Session_Data
  imports Session_Integrity Session_Crypto
begin

text \<open>
  Data of the session store, \<^verbatim>\<open>src/sessions/store.rs\<close>: sessions, messages, archives, the caches and the
  store itself, with the encoding of artifacts and the markers that remember inbound events. The JSON
  codecs, SHA-256 and fresh identifiers are the parameter \<open>A\<close>, the digests and the cipher are those of
  \<open>Session_Integrity\<close> and \<open>Session_Crypto\<close>; \<open>codec_ok\<close> states what the codecs do. Of an error the store
  reports, the constructor and the identifier are kept, the explanatory text is not. \<open>Value\<close> is the JSON
  value of \<^verbatim>\<open>serde_json\<close>.
\<close>

subsection \<open>Sessions and messages\<close>

datatype "Value" = Null | Bool bool | Number string | String string | Array "Value list"
  | Object "(string \<times> Value) list"

datatype SessionStoreError =
    NotFound string
  | AlreadyExists string
  | Io
  | Serialization
  | InvalidSessionKey
  | CompactionInProgress string
  | AlreadyArchived string
  | NotArchived string
  | ArchiveNotFound string
  | InvalidUserId
  | InvalidMessageBatch
  | Locked
  | DecryptionFailed
  | ManifestIntegrityFailed
  | IntegrityRejected
  | Crypto
  | HistoryCorrupt
  | HistoryFileFull

fun is_permanent_history_corruption :: "SessionStoreError \<Rightarrow> bool" where
  "is_permanent_history_corruption HistoryCorrupt = True"
| "is_permanent_history_corruption ManifestIntegrityFailed = True"
| "is_permanent_history_corruption DecryptionFailed = True"
| "is_permanent_history_corruption IntegrityRejected = True"
| "is_permanent_history_corruption _ = False"

fun from_crypto_error :: "SessionCryptoError \<Rightarrow> SessionStoreError" where
  "from_crypto_error Crypto_DecryptionFailed = DecryptionFailed"
| "from_crypto_error Crypto_ManifestIntegrityFailed = ManifestIntegrityFailed"
| "from_crypto_error _ = Crypto"

datatype SessionStatus = Active | Paused | Archived | Compacting | Unknown_status

datatype MessageRole = User | Assistant | System | Tool | Unknown_role

record CompactionMetadata =
  messages_compacted :: usize
  last_compacted_at :: "i64 option"
  compaction_count :: u32
  last_summary :: "string option"
  original_message_count :: usize

definition CompactionMetadata_default :: CompactionMetadata where
  "CompactionMetadata_default =
     \<lparr>messages_compacted = 0, last_compacted_at = None, compaction_count = 0, last_summary = None,
      original_message_count = 0\<rparr>"

record SessionMetadata =
  sm_name :: "string option"
  sm_description :: "string option"
  sm_agent_id :: "string option"
  sm_channel :: "string option"
  sm_chat_id :: "string option"
  sm_user_id :: "string option"
  sm_route :: "string option"
  sm_model :: "string option"
  sm_thinking_level :: "string option"
  sm_tags :: "string list"
  sm_extra :: "Value option"
  sm_compaction :: CompactionMetadata

record Session =
  ses_id :: string
  ses_key :: string
  ses_status :: SessionStatus
  ses_metadata :: SessionMetadata
  ses_message_count :: usize
  ses_created_at :: i64
  ses_updated_at :: i64
  ses_last_activity_at :: "i64 option"

record ChatMessage =
  cm_id :: string
  cm_session_id :: string
  cm_role :: MessageRole
  cm_content :: string
  cm_tool_call_id :: "string option"
  cm_tool_name :: "string option"
  cm_tokens :: "u64 option"
  cm_created_at :: i64
  cm_metadata :: "Value option"
  cm_extra :: "(string \<times> Value) list"

record ArchivedSession =
  as_session :: Session
  as_messages :: "ChatMessage list"
  as_archived_at :: i64
  as_version :: u32

record ArchiveResult =
  ar_session_id :: string
  ar_archive_path :: string
  ar_message_count :: usize
  ar_archive_size :: u64
  ar_archived_at :: i64
  ar_history_deleted :: bool

record InboundEventIndexEntry =
  ie_event_id :: string
  ie_run_id :: "string option"

record InboundEventIndexLookup =
  lk_entry :: "InboundEventIndexEntry option"
  lk_corrupt_lines :: u64
  lk_matched_protected_history :: bool
  lk_legacy_index_present :: bool

definition InboundEventIndexLookup_default :: InboundEventIndexLookup where
  "InboundEventIndexLookup_default =
     \<lparr>lk_entry = None, lk_corrupt_lines = 0, lk_matched_protected_history = False, lk_legacy_index_present = False\<rparr>"

record InboundAppendOutcome =
  io_appended :: bool
  io_original_run_id :: "string option"
  io_corrupt_index_lines :: u64

definition DEFAULT_COMPACT_THRESHOLD :: usize where "DEFAULT_COMPACT_THRESHOLD = 100"
definition MAX_MESSAGES_BEFORE_COMPACT :: usize where "MAX_MESSAGES_BEFORE_COMPACT = 500"
definition SESSION_META_FILE_MAX_BYTES :: nat where "SESSION_META_FILE_MAX_BYTES = 4 * 1024 * 1024"
definition SESSION_HISTORY_FILE_MAX_BYTES :: nat where "SESSION_HISTORY_FILE_MAX_BYTES = 256 * 1024 * 1024"
definition PROTECTED_INBOUND_DEDUPE_CACHE_MAX_ENTRIES :: nat where
  "PROTECTED_INBOUND_DEDUPE_CACHE_MAX_ENTRIES = 4096"
definition APPEND_HEADROOM :: nat where "APPEND_HEADROOM = 16 * 1024"
definition LEGACY_INBOUND_INDEX_MAX_BYTES :: nat where "LEGACY_INBOUND_INDEX_MAX_BYTES = 64 * 1024 * 1024"
definition ARCHIVED_SESSION_VERSION :: u32 where "ARCHIVED_SESSION_VERSION = 1"

definition INBOUND_EVENT_ID_META_KEY :: string where "INBOUND_EVENT_ID_META_KEY = ''inbound_event_id''"
definition INBOUND_RUN_ID_META_KEY :: string where "INBOUND_RUN_ID_META_KEY = ''inbound_run_id''"
definition INBOUND_DEDUPE_MARKER_META_KEY :: string where
  "INBOUND_DEDUPE_MARKER_META_KEY = ''inbound_dedupe_marker''"

definition needs_compaction :: "Session \<Rightarrow> bool" where
  "needs_compaction s \<longleftrightarrow> ses_message_count s \<ge> DEFAULT_COMPACT_THRESHOLD"

definition force_compaction_needed :: "Session \<Rightarrow> bool" where
  "force_compaction_needed s \<longleftrightarrow> ses_message_count s \<ge> MAX_MESSAGES_BEFORE_COMPACT"

subsection \<open>Filters and list entries\<close>

datatype SessionAccessState = Available | Locked_access

record SessionListEntry =
  le_session_id :: string
  le_access :: SessionAccessState
  le_session :: "Session option"
  le_updated_at :: "i64 option"

definition entry_available :: "Session \<Rightarrow> SessionListEntry" where
  "entry_available s =
     \<lparr>le_session_id = ses_id s, le_access = Available, le_session = Some s, le_updated_at = Some (ses_updated_at s)\<rparr>"

definition entry_locked :: "string \<Rightarrow> i64 option \<Rightarrow> SessionListEntry" where
  "entry_locked i t = \<lparr>le_session_id = i, le_access = Locked_access, le_session = None, le_updated_at = t\<rparr>"

record SessionFilter =
  sf_agent_id :: "string option"
  sf_status :: "SessionStatus option"
  sf_channel :: "string option"
  sf_user_id :: "string option"
  sf_created_after :: "i64 option"
  sf_created_before :: "i64 option"
  sf_updated_after :: "i64 option"
  sf_updated_before :: "i64 option"
  sf_limit :: "usize option"
  sf_offset :: "usize option"

definition SessionFilter_default :: SessionFilter where
  "SessionFilter_default =
     \<lparr>sf_agent_id = None, sf_status = None, sf_channel = None, sf_user_id = None, sf_created_after = None,
      sf_created_before = None, sf_updated_after = None, sf_updated_before = None, sf_limit = None, sf_offset = None\<rparr>"

definition filter_matches :: "SessionFilter \<Rightarrow> Session \<Rightarrow> bool" where
  "filter_matches f s \<longleftrightarrow>
     (sf_agent_id f \<noteq> None \<longrightarrow> sm_agent_id (ses_metadata s) = sf_agent_id f) \<and>
     (case sf_status f of None \<Rightarrow> True | Some st \<Rightarrow> ses_status s = st) \<and>
     (sf_channel f \<noteq> None \<longrightarrow> sm_channel (ses_metadata s) = sf_channel f) \<and>
     (sf_user_id f \<noteq> None \<longrightarrow> sm_user_id (ses_metadata s) = sf_user_id f) \<and>
     (case sf_created_after f of None \<Rightarrow> True | Some t \<Rightarrow> \<not> ses_created_at s < t) \<and>
     (case sf_created_before f of None \<Rightarrow> True | Some t \<Rightarrow> \<not> ses_created_at s > t) \<and>
     (case sf_updated_after f of None \<Rightarrow> True | Some t \<Rightarrow> \<not> ses_updated_at s < t) \<and>
     (case sf_updated_before f of None \<Rightarrow> True | Some t \<Rightarrow> \<not> ses_updated_at s > t)"

definition requires_decrypted_metadata :: "SessionFilter \<Rightarrow> bool" where
  "requires_decrypted_metadata f \<longleftrightarrow>
     sf_agent_id f \<noteq> None \<or> sf_status f \<noteq> None \<or> sf_channel f \<noteq> None \<or> sf_user_id f \<noteq> None \<or>
     sf_created_after f \<noteq> None \<or> sf_created_before f \<noteq> None \<or> sf_updated_after f \<noteq> None \<or> sf_updated_before f \<noteq> None"

subsection \<open>Codecs\<close>

record store_api =
  sa_digest :: digest_api
  sa_cipher :: cipher_api
  sa_sha256 :: "bytes \<Rightarrow> bytes"
  sa_uuid :: "nat \<Rightarrow> string"
  sa_session_pretty :: "Session \<Rightarrow> bytes"
  sa_session_compact :: "Session \<Rightarrow> bytes"
  sa_session_parse :: "bytes \<Rightarrow> Session option"
  sa_message_line :: "ChatMessage \<Rightarrow> bytes"
  sa_message_parse :: "bytes \<Rightarrow> ChatMessage option"
  sa_archive_pretty :: "ArchivedSession \<Rightarrow> bytes"
  sa_archive_compact :: "ArchivedSession \<Rightarrow> bytes"
  sa_archive_parse :: "bytes \<Rightarrow> ArchivedSession option"
  sa_index_parse :: "bytes \<Rightarrow> InboundEventIndexEntry option"

text \<open>
  What is written is read back, JSON never starts with the prefix of encrypted payloads (an object starts
  with a brace), and a message written compactly is one line.
\<close>

definition codec_ok :: "store_api \<Rightarrow> bool" where
  "codec_ok A \<longleftrightarrow>
     (\<forall>s. sa_session_parse A (sa_session_pretty A s) = Some s) \<and>
     (\<forall>s. sa_session_parse A (sa_session_compact A s) = Some s) \<and>
     (\<forall>m. sa_message_parse A (sa_message_line A m) = Some m) \<and>
     (\<forall>a. sa_archive_parse A (sa_archive_pretty A a) = Some a) \<and>
     (\<forall>a. sa_archive_parse A (sa_archive_compact A a) = Some a) \<and>
     (\<forall>s. \<not> has_encrypted_payload_prefix (sa_session_pretty A s)) \<and>
     (\<forall>a. \<not> has_encrypted_payload_prefix (sa_archive_pretty A a)) \<and>
     (\<forall>m. \<not> has_encrypted_payload_prefix (sa_message_line A m)) \<and>
     (\<forall>m. json_line (sa_message_line A m))"

subsection \<open>The store\<close>

record CachedSession =
  ch_session :: Session
  ch_dirty :: bool
  ch_history_file_current_confirmed :: bool

record CachedArtifactSignature =
  sig_file_len :: nat
  sig_modified_at_ms :: i64
  sig_hmac_sidecar_sha256 :: "bytes option"

record CachedHistoryHmac =
  hh_state :: AppendHmacState
  hh_signature :: CachedArtifactSignature

record DedupeHistorySignature =
  ds_file_len :: nat
  ds_hmac_sidecar_sha256 :: "bytes option"
  ds_content_sha256 :: bytes

record ProtectedInboundDedupeCache =
  dc_complete :: bool
  dc_history_signature :: "DedupeHistorySignature option"
  dc_history_hasher :: "bytes option"
  dc_entries :: "(string, InboundEventIndexEntry) hmap"

record SessionStore =
  st_disk :: disk
  st_sessions :: "(string, CachedSession) hmap"
  st_key_to_id :: "(string, string) hmap"
  st_compact_threshold :: usize
  st_hmac_key :: "bytes option"
  st_integrity_action :: IntegrityAction
  st_encryption_mode :: EncryptionMode
  st_crypto :: "SessionCryptoContext option"
  st_locked_session_entries :: "(string, SessionListEntry) hmap"
  st_history_hmac_states :: "(string, CachedHistoryHmac) hmap"
  st_dedupe_cache :: "(string, ProtectedInboundDedupeCache) hmap"
  st_archive_current_signatures :: "(string, CachedArtifactSignature) hmap"

type_synonym 'a store_act = "(SessionStore, SessionStoreError, 'a) act"

definition with_base_path :: "disk \<Rightarrow> SessionStore" where
  "with_base_path d =
     \<lparr>st_disk = d, st_sessions = [], st_key_to_id = [], st_compact_threshold = DEFAULT_COMPACT_THRESHOLD,
      st_hmac_key = None, st_integrity_action = Warn, st_encryption_mode = Off, st_crypto = None,
      st_locked_session_entries = [], st_history_hmac_states = [], st_dedupe_cache = [],
      st_archive_current_signatures = []\<rparr>"

definition on_disk :: "(disk, 'e, 'a) act \<Rightarrow> (SessionStore, 'e, 'a) act" where
  "on_disk m s = (case m (st_disk s) of (r, d) \<Rightarrow> (r, s\<lparr>st_disk := d\<rparr>))"

definition io :: "(disk, io_error, 'a) act \<Rightarrow> 'a store_act" where
  "io m = map_err (\<lambda>_. Io) (on_disk m)"

definition now_millis :: "SessionStore \<Rightarrow> i64" where
  "now_millis s = d_now (st_disk s)"

definition encryption_active :: "SessionStore \<Rightarrow> bool" where
  "encryption_active s \<longleftrightarrow> st_crypto s \<noteq> None \<and> uses_encryption (st_encryption_mode s)"

definition ensure_required_encryption_available :: "unit store_act" where
  "ensure_required_encryption_available s =
     (if st_encryption_mode s = Required \<and> st_crypto s = None then (Inl Locked, s) else (Inr (), s))"

definition ensure_base_dir :: "unit store_act" where
  "ensure_base_dir s =
     (if d_base (st_disk s) then (Inr (), s)
      else and_then (io fs_try) (\<lambda>_. update (\<lambda>s. s\<lparr>st_disk := (st_disk s)\<lparr>d_base := True\<rparr>\<rparr>)) s)"

definition ensure_archive_dir :: "unit store_act" where
  "ensure_archive_dir s =
     (if d_archives (st_disk s) then (Inr (), s)
      else and_then (io fs_try) (\<lambda>_. update (\<lambda>s. s\<lparr>st_disk := (st_disk s)\<lparr>d_archives := True\<rparr>\<rparr>)) s)"

subsection \<open>Encoding of artifacts\<close>

text \<open>With encryption active an artifact is the sealed compact JSON, otherwise the given plain text.\<close>

definition encode_payload :: "store_api \<Rightarrow> string \<Rightarrow> string \<Rightarrow> bytes \<Rightarrow> bytes \<Rightarrow> bytes store_act" where
  "encode_payload A session_id purpose compact plain s =
     (case st_crypto s of
        Some ctx \<Rightarrow>
          if encryption_active s then
            and_then (on_disk draw) (\<lambda>i.
              from_sum (case encrypt_bytes (sa_cipher A) ctx i session_id purpose compact of
                          Inl e \<Rightarrow> Inl (from_crypto_error e)
                        | Inr b \<Rightarrow> Inr b)) s
          else (Inr plain, s)
      | None \<Rightarrow> (Inr plain, s))"

definition encode_session_metadata :: "store_api \<Rightarrow> Session \<Rightarrow> bytes store_act" where
  "encode_session_metadata A session =
     encode_payload A (ses_id session) ''metadata'' (sa_session_compact A session) (sa_session_pretty A session)"

definition encode_history_message :: "store_api \<Rightarrow> ChatMessage \<Rightarrow> bytes store_act" where
  "encode_history_message A m =
     encode_payload A (cm_session_id m) ''history'' (sa_message_line A m) (sa_message_line A m)"

definition encode_archive :: "store_api \<Rightarrow> string \<Rightarrow> ArchivedSession \<Rightarrow> bytes store_act" where
  "encode_archive A session_id archive =
     encode_payload A session_id ''archive'' (sa_archive_compact A archive) (sa_archive_pretty A archive)"

definition decode_payload ::
    "store_api \<Rightarrow> (bytes \<Rightarrow> 'a option) \<Rightarrow> string \<Rightarrow> string \<Rightarrow> SessionStore \<Rightarrow> bytes \<Rightarrow> SessionStoreError + 'a" where
  "decode_payload A parse session_id purpose s content =
     (if has_encrypted_payload_prefix content then
        (case st_crypto s of
           None \<Rightarrow> Inl Locked
         | Some ctx \<Rightarrow>
             (case decrypt_bytes (sa_cipher A) ctx session_id purpose content of
                Inl e \<Rightarrow> Inl (from_crypto_error e)
              | Inr b \<Rightarrow> (case parse b of None \<Rightarrow> Inl Crypto | Some x \<Rightarrow> Inr x)))
      else if encryption_active s then Inl Locked
      else (case parse content of None \<Rightarrow> Inl Serialization | Some x \<Rightarrow> Inr x))"

definition decode_session_metadata :: "store_api \<Rightarrow> string \<Rightarrow> SessionStore \<Rightarrow> bytes \<Rightarrow> SessionStoreError + Session" where
  "decode_session_metadata A session_id = decode_payload A (sa_session_parse A) session_id ''metadata''"

definition decode_history_message :: "store_api \<Rightarrow> string \<Rightarrow> SessionStore \<Rightarrow> bytes \<Rightarrow> SessionStoreError + ChatMessage" where
  "decode_history_message A session_id = decode_payload A (sa_message_parse A) session_id ''history''"

definition decode_archive :: "store_api \<Rightarrow> string \<Rightarrow> SessionStore \<Rightarrow> bytes \<Rightarrow> SessionStoreError + ArchivedSession" where
  "decode_archive A session_id s content =
     (case decode_payload A (sa_archive_parse A) session_id ''archive'' s content of
        Inl e \<Rightarrow> Inl e
      | Inr archive \<Rightarrow> if as_version archive > ARCHIVED_SESSION_VERSION then Inl Serialization else Inr archive)"

definition history_integrity_error :: "SessionStoreError \<Rightarrow> SessionStoreError" where
  "history_integrity_error e = (case e of IntegrityRejected \<Rightarrow> HistoryCorrupt | other \<Rightarrow> other)"

definition encrypted_history_decode_error :: "bool \<Rightarrow> SessionStoreError \<Rightarrow> SessionStoreError" where
  "encrypted_history_decode_error encrypted_line e =
     (case e of
        Locked \<Rightarrow> Locked
      | DecryptionFailed \<Rightarrow> HistoryCorrupt
      | ManifestIntegrityFailed \<Rightarrow> HistoryCorrupt
      | other \<Rightarrow> if encrypted_line then HistoryCorrupt else other)"

definition archive_read_error :: "SessionStoreError \<Rightarrow> SessionStoreError" where
  "archive_read_error e =
     (case e of
        Locked \<Rightarrow> Locked
      | DecryptionFailed \<Rightarrow> HistoryCorrupt
      | ManifestIntegrityFailed \<Rightarrow> HistoryCorrupt
      | IntegrityRejected \<Rightarrow> HistoryCorrupt
      | other \<Rightarrow> other)"

subsection \<open>Paths\<close>

definition is_ascii_alphanumeric :: "char \<Rightarrow> bool" where
  "is_ascii_alphanumeric c \<longleftrightarrow>
     (let n = (of_char c :: nat) in 48 \<le> n \<and> n \<le> 57 \<or> 65 \<le> n \<and> n \<le> 90 \<or> 97 \<le> n \<and> n \<le> 122)"

definition slug_char :: "char \<Rightarrow> bool" where
  "slug_char c \<longleftrightarrow> is_ascii_alphanumeric c \<or> c = CHR ''-'' \<or> c = CHR ''_''"

fun has_dot_dot :: "string \<Rightarrow> bool" where
  "has_dot_dot (a # b # cs) = (a = CHR ''.'' \<and> b = CHR ''.'' \<or> has_dot_dot (b # cs))"
| "has_dot_dot _ = False"

definition validate_session_id :: "string \<Rightarrow> SessionStoreError + unit" where
  "validate_session_id i =
     (if i = [] then Inl InvalidSessionKey
      else if has_dot_dot i \<or> CHR ''/'' \<in> set i \<or> CHR 0x5C \<in> set i then Inl InvalidSessionKey
      else if \<not> list_all slug_char i then Inl InvalidSessionKey
      else Inr ())"

definition session_meta_path :: "string \<Rightarrow> SessionStoreError + string" where
  "session_meta_path i = (case validate_session_id i of Inl e \<Rightarrow> Inl e | Inr _ \<Rightarrow> Inr (i @ ''.json''))"

definition session_history_path :: "string \<Rightarrow> SessionStoreError + string" where
  "session_history_path i = (case validate_session_id i of Inl e \<Rightarrow> Inl e | Inr _ \<Rightarrow> Inr (i @ ''.jsonl''))"

definition session_inbound_event_index_path :: "string \<Rightarrow> SessionStoreError + string" where
  "session_inbound_event_index_path i =
     (case validate_session_id i of Inl e \<Rightarrow> Inl e | Inr _ \<Rightarrow> Inr (i @ ''.inbound-events.jsonl''))"

definition archive_path :: "string \<Rightarrow> SessionStoreError + string" where
  "archive_path i =
     (case validate_session_id i of Inl e \<Rightarrow> Inl e | Inr _ \<Rightarrow> Inr (''archives/'' @ i @ ''.archive.json''))"

subsection \<open>Inbound events\<close>

definition V2_PREFIX :: string where "V2_PREFIX = ''matrix-event-v2-sha256:''"
definition V3_PREFIX :: string where "V3_PREFIX = ''matrix-event-v3-sha256:''"

definition canonical_inbound_event_id :: "string \<Rightarrow> string" where
  "canonical_inbound_event_id v =
     (if starts_with v V2_PREFIX then V3_PREFIX @ drop (length V2_PREFIX) v else v)"

fun value_get :: "Value \<Rightarrow> string \<Rightarrow> Value option" where
  "value_get (Object fs) k = map_of fs k"
| "value_get _ k = None"

fun as_str :: "Value \<Rightarrow> string option" where
  "as_str (String s) = Some s"
| "as_str _ = None"

definition metadata_string :: "Value \<Rightarrow> string \<Rightarrow> string option" where
  "metadata_string metadata key = Option.bind (value_get metadata key) as_str"

definition inbound_dedupe_entry_from_message :: "ChatMessage \<Rightarrow> (string \<times> InboundEventIndexEntry) option" where
  "inbound_dedupe_entry_from_message m =
     Option.bind (cm_metadata m) (\<lambda>metadata.
     Option.bind (metadata_string metadata INBOUND_EVENT_ID_META_KEY) (\<lambda>stored.
       Some (canonical_inbound_event_id stored,
         \<lparr>ie_event_id = stored, ie_run_id = metadata_string metadata INBOUND_RUN_ID_META_KEY\<rparr>)))"

definition ChatMessage_new :: "string \<Rightarrow> i64 \<Rightarrow> string \<Rightarrow> MessageRole \<Rightarrow> string \<Rightarrow> ChatMessage" where
  "ChatMessage_new uuid now session_id role content =
     \<lparr>cm_id = uuid, cm_session_id = session_id, cm_role = role, cm_content = content, cm_tool_call_id = None,
      cm_tool_name = None, cm_tokens = None, cm_created_at = now, cm_metadata = None, cm_extra = []\<rparr>"

definition protected_inbound_dedupe_marker :: "string \<Rightarrow> i64 \<Rightarrow> string \<Rightarrow> InboundEventIndexEntry \<Rightarrow> ChatMessage" where
  "protected_inbound_dedupe_marker uuid now session_id entry =
     (ChatMessage_new uuid now session_id System [])\<lparr>cm_metadata := Some (Object
        ([(INBOUND_EVENT_ID_META_KEY, String (ie_event_id entry)),
          (INBOUND_DEDUPE_MARKER_META_KEY, Bool True)] @
         (case ie_run_id entry of None \<Rightarrow> [] | Some r \<Rightarrow> [(INBOUND_RUN_ID_META_KEY, String r)])))\<rparr>"

definition is_protected_inbound_dedupe_marker :: "ChatMessage \<Rightarrow> bool" where
  "is_protected_inbound_dedupe_marker m =
     (if cm_role m \<noteq> System \<or> cm_content m \<noteq> [] \<or> cm_tool_call_id m \<noteq> None \<or> cm_tool_name m \<noteq> None \<or> cm_tokens m \<noteq> None
      then False
      else (case cm_metadata m of
              Some (Object fs) \<Rightarrow>
                map_of fs INBOUND_DEDUPE_MARKER_META_KEY = Some (Bool True) \<and>
                (case map_of fs INBOUND_EVENT_ID_META_KEY of Some (String s) \<Rightarrow> s \<noteq> [] | _ \<Rightarrow> False) \<and>
                (case map_of fs INBOUND_RUN_ID_META_KEY of None \<Rightarrow> True | Some (String s) \<Rightarrow> True | _ \<Rightarrow> False) \<and>
                list_all (\<lambda>(k, v). k = INBOUND_DEDUPE_MARKER_META_KEY \<or> k = INBOUND_EVENT_ID_META_KEY \<or>
                            k = INBOUND_RUN_ID_META_KEY) fs
            | _ \<Rightarrow> False))"

text \<open>The first entry of each event, in the order of the identifiers (a \<^verbatim>\<open>BTreeMap\<close>).\<close>

fun first_entries :: "ChatMessage list \<Rightarrow> (string, InboundEventIndexEntry) hmap \<Rightarrow> (string, InboundEventIndexEntry) hmap" where
  "first_entries [] es = es"
| "first_entries (m # ms) es =
     first_entries ms (case inbound_dedupe_entry_from_message m of
        None \<Rightarrow> es
      | Some (i, entry) \<Rightarrow> if hm_contains es i then es else hm_insert i entry es)"

definition collect_inbound_dedupe_entries :: "ChatMessage list \<Rightarrow> (string \<times> InboundEventIndexEntry) list" where
  "collect_inbound_dedupe_entries ms = sort_key fst (first_entries ms [])"

definition generate_session_key :: "string \<Rightarrow> SessionMetadata \<Rightarrow> string" where
  "generate_session_key agent_id metadata =
     agent_id @ '':'' @ (case sm_channel metadata of None \<Rightarrow> ''default'' | Some c \<Rightarrow> c) @ '':'' @
     (case sm_chat_id metadata of None \<Rightarrow> ''default'' | Some c \<Rightarrow> c)"

definition Session_with_session_key :: "string \<Rightarrow> i64 \<Rightarrow> string \<Rightarrow> SessionMetadata \<Rightarrow> Session" where
  "Session_with_session_key uuid now session_key metadata =
     \<lparr>ses_id = uuid, ses_key = session_key, ses_status = Active, ses_metadata = metadata, ses_message_count = 0,
      ses_created_at = now, ses_updated_at = now, ses_last_activity_at = Some now\<rparr>"

definition Session_new :: "string \<Rightarrow> i64 \<Rightarrow> string \<Rightarrow> SessionMetadata \<Rightarrow> Session" where
  "Session_new uuid now agent_id metadata =
     Session_with_session_key uuid now (generate_session_key agent_id metadata)
       (metadata\<lparr>sm_agent_id := Some agent_id\<rparr>)"

end
