(* ===== verification/Session_Store.thy ===== *)
theory Session_Store
  imports Session_Data
begin

text \<open>
  Operations of the session store, \<^verbatim>\<open>src/sessions/store.rs\<close>, one definition per method. An operation is an
  action on \<open>SessionStore\<close>, whose field \<open>st_disk\<close> is the session directory; the other fields are the caches
  behind the store's locks. The per-file locks serialise operations on one session, so an operation is one
  step; the clock stands still within it.
\<close>

subsection \<open>Integrity\<close>

definition handle_integrity_result :: "(disk, IntegrityError, unit) act \<Rightarrow> unit store_act" where
  "handle_integrity_result m s =
     (case on_disk m s of
        (Inr _, s) \<Rightarrow> (Inr (), s)
      | (Inl Rejected, s) \<Rightarrow> (Inl IntegrityRejected, s)
      | (Inl _, s) \<Rightarrow> if st_integrity_action s = Reject then (Inl IntegrityRejected, s) else (Inr (), s))"

definition integrity_config :: "SessionStore \<Rightarrow> IntegrityConfig" where
  "integrity_config s = \<lparr>ic_enabled = True, ic_action = st_integrity_action s\<rparr>"

definition verify_integrity_bytes :: "store_api \<Rightarrow> bytes \<Rightarrow> string \<Rightarrow> unit store_act" where
  "verify_integrity_bytes A content file_path s =
     (if st_crypto s = None \<and> is_encrypted_payload (sa_cipher A) content then (Inl Locked, s)
      else (case st_hmac_key s of
              None \<Rightarrow> (Inr (), s)
            | Some key \<Rightarrow>
                handle_integrity_result
                  (verify_hmac_file (sa_digest A) key content file_path (integrity_config s)) s))"

definition verify_integrity_path :: "store_api \<Rightarrow> string \<Rightarrow> unit store_act" where
  "verify_integrity_path A file_path s =
     (case st_hmac_key s of
        None \<Rightarrow> (Inr (), s)
      | Some key \<Rightarrow>
          handle_integrity_result (verify_hmac_path (sa_digest A) key file_path (integrity_config s)) s)"

definition read_verified_history_bytes :: "store_api \<Rightarrow> string \<Rightarrow> bytes store_act" where
  "read_verified_history_bytes A history_path =
     and_then (io (fs_read SESSION_HISTORY_FILE_MAX_BYTES history_path)) (\<lambda>r.
     case r of
       None \<Rightarrow> throw Io
     | Some content \<Rightarrow> and_then (verify_integrity_bytes A content history_path) (\<lambda>_. return content))"

subsection \<open>Caches of the history file\<close>

definition mark_history_file_current :: "string \<Rightarrow> SessionStore \<Rightarrow> SessionStore" where
  "mark_history_file_current session_id s =
     s\<lparr>st_sessions := hm_modify session_id
         (\<lambda>c. c\<lparr>ch_history_file_current_confirmed := encryption_active s\<rparr>) (st_sessions s)\<rparr>"

definition history_file_current_confirmed :: "string \<Rightarrow> SessionStore \<Rightarrow> bool" where
  "history_file_current_confirmed session_id s \<longleftrightarrow>
     encryption_active s \<and>
     (case hm_get (st_sessions s) session_id of None \<Rightarrow> False | Some c \<Rightarrow> ch_history_file_current_confirmed c)"

definition hmac_sidecar_sha256 :: "store_api \<Rightarrow> string \<Rightarrow> (disk, 'e, bytes option) act" where
  "hmac_sidecar_sha256 A p =
     and_then (attempt (fs_read (4 * 1024) (hmac_path p))) (\<lambda>r.
     return (case r of Inr (Some b) \<Rightarrow> Some (sa_sha256 A b) | _ \<Rightarrow> None))"

definition file_metadata :: "string \<Rightarrow> (disk, 'e, disk_file option) act" where
  "file_metadata p =
     and_then (attempt fs_try) (\<lambda>r. gets (\<lambda>d. case r of Inl _ \<Rightarrow> None | Inr _ \<Rightarrow> hm_get (d_files d) p))"

definition artifact_file_signature :: "store_api \<Rightarrow> string \<Rightarrow> (disk, 'e, CachedArtifactSignature option) act" where
  "artifact_file_signature A p =
     and_then (file_metadata p) (\<lambda>m. case m of
        None \<Rightarrow> return None
      | Some f \<Rightarrow>
          and_then (hmac_sidecar_sha256 A p) (\<lambda>h.
          return (Some \<lparr>sig_file_len = length (f_bytes f), sig_modified_at_ms = f_mtime f, sig_hmac_sidecar_sha256 = h\<rparr>)))"

definition clear_history_hmac_state :: "string \<Rightarrow> SessionStore \<Rightarrow> SessionStore" where
  "clear_history_hmac_state session_id s =
     s\<lparr>st_history_hmac_states := hm_remove session_id (st_history_hmac_states s)\<rparr>"

definition store_history_hmac_state :: "store_api \<Rightarrow> string \<Rightarrow> string \<Rightarrow> AppendHmacState \<Rightarrow> unit store_act" where
  "store_history_hmac_state A session_id history_path state =
     and_then (on_disk (artifact_file_signature A history_path)) (\<lambda>r. case r of
        None \<Rightarrow> update (clear_history_hmac_state session_id)
      | Some sg \<Rightarrow>
          update (\<lambda>s. s\<lparr>st_history_hmac_states :=
            hm_insert session_id \<lparr>hh_state = state, hh_signature = sg\<rparr> (st_history_hmac_states s)\<rparr>))"

definition cached_history_hmac_state_for_append ::
    "store_api \<Rightarrow> string \<Rightarrow> string \<Rightarrow> AppendHmacState option store_act" where
  "cached_history_hmac_state_for_append A session_id history_path =
     and_then (gets (\<lambda>s. hm_get (st_history_hmac_states s) session_id)) (\<lambda>cached. case cached of
        None \<Rightarrow> return None
      | Some c \<Rightarrow>
          and_then (on_disk (artifact_file_signature A history_path)) (\<lambda>sg.
          if sg \<noteq> Some (hh_signature c) then
            and_then (update (clear_history_hmac_state session_id)) (\<lambda>_. return None)
          else
            and_then (attempt (on_disk (sidecar_matches_state (sa_digest A) history_path (hh_state c)))) (\<lambda>m.
            case m of
              Inr True \<Rightarrow> return (Some (hh_state c))
            | _ \<Rightarrow> and_then (update (clear_history_hmac_state session_id)) (\<lambda>_. return None))))"

definition prepare_history_hmac_for_appended_bytes ::
    "store_api \<Rightarrow> string \<Rightarrow> bytes \<Rightarrow> string \<Rightarrow> AppendHmacState option store_act" where
  "prepare_history_hmac_for_appended_bytes A history_path appended session_id =
     and_then (gets st_hmac_key) (\<lambda>k. case k of
        None \<Rightarrow> return None
      | Some key \<Rightarrow>
          and_then (cached_history_hmac_state_for_append A session_id history_path) (\<lambda>cached.
          and_then (io (case cached of
              Some st \<Rightarrow>
                prepare_pending_hmac_file_for_appended_bytes_with_state (sa_digest A) history_path st appended
            | None \<Rightarrow> prepare_pending_hmac_file_for_appended_bytes (sa_digest A) key history_path appended))
            (\<lambda>st. return (Some st))))"

definition commit_history_hmac :: "string \<Rightarrow> unit store_act" where
  "commit_history_hmac history_path =
     and_then (gets st_hmac_key) (\<lambda>k. run_if (k \<noteq> None) (io (commit_pending_hmac_sidecar history_path)))"

definition invalidate_protected_inbound_dedupe_cache :: "string \<Rightarrow> SessionStore \<Rightarrow> SessionStore" where
  "invalidate_protected_inbound_dedupe_cache session_id s =
     s\<lparr>st_dedupe_cache := hm_remove session_id (st_dedupe_cache s)\<rparr>"

subsection \<open>Cache of inbound events\<close>

text \<open>
  The cache of one session is bound to the contents of its history file by length, sidecar and SHA-256; the
  running hash is the bytes hashed so far.
\<close>

definition dedupe_history_state_from_bytes ::
    "store_api \<Rightarrow> string \<Rightarrow> bytes \<Rightarrow> (disk, 'e, (DedupeHistorySignature \<times> bytes) option) act" where
  "dedupe_history_state_from_bytes A history_path history_bytes =
     and_then (file_metadata history_path) (\<lambda>m. case m of
        None \<Rightarrow> return None
      | Some f \<Rightarrow>
          if length (f_bytes f) \<noteq> length history_bytes then return None
          else and_then (hmac_sidecar_sha256 A history_path) (\<lambda>h.
               return (Some (\<lparr>ds_file_len = length (f_bytes f), ds_hmac_sidecar_sha256 = h,
                              ds_content_sha256 = sa_sha256 A history_bytes\<rparr>, history_bytes))))"

definition dedupe_history_state ::
    "store_api \<Rightarrow> string \<Rightarrow> (disk, 'e, (DedupeHistorySignature \<times> bytes) option) act" where
  "dedupe_history_state A history_path =
     and_then (attempt (fs_read SESSION_HISTORY_FILE_MAX_BYTES history_path)) (\<lambda>r. case r of
        Inr (Some b) \<Rightarrow> dedupe_history_state_from_bytes A history_path b
      | _ \<Rightarrow> return None)"

definition protected_inbound_dedupe_cache_lookup ::
    "store_api \<Rightarrow> string \<Rightarrow> string \<Rightarrow> string \<Rightarrow> InboundEventIndexEntry option option store_act" where
  "protected_inbound_dedupe_cache_lookup A session_id history_path canonical_event_id =
     and_then (gets (\<lambda>s. hm_get (st_dedupe_cache s) session_id)) (\<lambda>c. case c of
        None \<Rightarrow> return None
      | Some cache \<Rightarrow>
          if \<not> dc_complete cache then return None
          else
            (let entry = hm_get (dc_entries cache) canonical_event_id
             in case dc_history_signature cache of
                  None \<Rightarrow>
                    and_then (gets (\<lambda>s. fs_exists history_path (st_disk s))) (\<lambda>present.
                    if \<not> present then return (Some entry)
                    else and_then (update (invalidate_protected_inbound_dedupe_cache session_id)) (\<lambda>_. return None))
                | Some sg \<Rightarrow>
                    and_then (on_disk (dedupe_history_state A history_path)) (\<lambda>current. case current of
                       None \<Rightarrow>
                         and_then (update (invalidate_protected_inbound_dedupe_cache session_id)) (\<lambda>_. return None)
                     | Some (sg', hasher) \<Rightarrow>
                         if sg' \<noteq> sg then
                           and_then (update (invalidate_protected_inbound_dedupe_cache session_id)) (\<lambda>_. return None)
                         else
                           and_then (update (\<lambda>s. s\<lparr>st_dedupe_cache :=
                               hm_modify session_id (\<lambda>c. c\<lparr>dc_history_hasher := Some hasher\<rparr>) (st_dedupe_cache s)\<rparr>))
                             (\<lambda>_. return (Some entry)))))"

definition replace_protected_inbound_dedupe_cache ::
    "string \<Rightarrow> (DedupeHistorySignature \<times> bytes) option \<Rightarrow> (string, InboundEventIndexEntry) hmap \<Rightarrow> SessionStore \<Rightarrow> SessionStore" where
  "replace_protected_inbound_dedupe_cache session_id history_state entries s =
     (let content_bound = (history_state \<noteq> None \<or> entries = []);
          complete = (content_bound \<and> length entries \<le> PROTECTED_INBOUND_DEDUPE_CACHE_MAX_ENTRIES)
      in s\<lparr>st_dedupe_cache := hm_insert session_id
            \<lparr>dc_complete = complete,
             dc_history_signature = (if complete then map_option fst history_state else None),
             dc_history_hasher = (if complete then map_option snd history_state else None),
             dc_entries = (if complete then entries else [])\<rparr> (st_dedupe_cache s)\<rparr>)"

definition forget_dedupe_cache :: "string \<Rightarrow> SessionStore \<Rightarrow> SessionStore" where
  "forget_dedupe_cache session_id s =
     s\<lparr>st_dedupe_cache := hm_modify session_id
        (\<lambda>c. c\<lparr>dc_complete := False, dc_history_signature := None, dc_history_hasher := None, dc_entries := []\<rparr>)
        (st_dedupe_cache s)\<rparr>"

definition cache_protected_inbound_event_from_message ::
    "store_api \<Rightarrow> ChatMessage \<Rightarrow> string \<Rightarrow> bytes \<Rightarrow> unit store_act" where
  "cache_protected_inbound_event_from_message A m history_path appended =
     (if is_protected_inbound_dedupe_marker m then return ()
      else (case inbound_dedupe_entry_from_message m of
        None \<Rightarrow> return ()
      | Some (canonical_event_id, entry) \<Rightarrow>
          and_then (gets (\<lambda>s. hm_get (st_dedupe_cache s) (cm_session_id m))) (\<lambda>c. case c of
             None \<Rightarrow> return ()
           | Some cache \<Rightarrow>
               if dc_complete cache \<and> length (dc_entries cache) < PROTECTED_INBOUND_DEDUPE_CACHE_MAX_ENTRIES then
                 and_then (on_disk (file_metadata history_path)) (\<lambda>meta. case meta of
                    None \<Rightarrow> update (forget_dedupe_cache (cm_session_id m))
                  | Some f \<Rightarrow>
                      (let previous_len = (case dc_history_signature cache of None \<Rightarrow> 0 | Some sg \<Rightarrow> ds_file_len sg);
                           base_hasher =
                             (case (dc_history_signature cache, dc_history_hasher cache) of
                                (Some _, Some h) \<Rightarrow> Some h
                              | (None, None) \<Rightarrow> if dc_entries cache = [] then Some [] else None
                              | _ \<Rightarrow> None)
                       in case base_hasher of
                            None \<Rightarrow> update (forget_dedupe_cache (cm_session_id m))
                          | Some h \<Rightarrow>
                              if u64_saturating_add previous_len (length appended) \<noteq> length (f_bytes f) then
                                update (forget_dedupe_cache (cm_session_id m))
                              else
                                and_then (on_disk (hmac_sidecar_sha256 A history_path)) (\<lambda>sidecar.
                                update (\<lambda>s. s\<lparr>st_dedupe_cache := hm_modify (cm_session_id m)
                                  (\<lambda>c. c\<lparr>dc_history_signature := Some \<lparr>ds_file_len = length (f_bytes f),
                                            ds_hmac_sidecar_sha256 = sidecar, ds_content_sha256 = sa_sha256 A (h @ appended)\<rparr>,
                                         dc_history_hasher := Some (h @ appended),
                                         dc_entries := hm_insert canonical_event_id entry (dc_entries c)\<rparr>)
                                  (st_dedupe_cache s)\<rparr>))))
               else if dc_complete cache then update (forget_dedupe_cache (cm_session_id m))
               else return ())))"

subsection \<open>Encrypted artifacts only\<close>

text \<open>The automaton that streams over a history file: inside a line, how much of the prefix has been seen.\<close>

fun only_encrypted_lines :: "bool \<Rightarrow> nat \<Rightarrow> bool \<Rightarrow> bytes \<Rightarrow> bool" where
  "only_encrypted_lines line_started prefix_index prefix_checked [] \<longleftrightarrow> \<not> (line_started \<and> \<not> prefix_checked)"
| "only_encrypted_lines line_started prefix_index prefix_checked (c # cs) =
     (if c = newline then
        (if line_started \<and> \<not> prefix_checked then False else only_encrypted_lines False 0 False cs)
      else if \<not> line_started \<and> is_ascii_whitespace c then
        only_encrypted_lines line_started prefix_index prefix_checked cs
      else if \<not> prefix_checked then
        (if \<not> (prefix_index < length SESSION_ENCRYPTED_PREFIX_V1 \<and> SESSION_ENCRYPTED_PREFIX_V1 ! prefix_index = c) then False
         else only_encrypted_lines True (prefix_index + 1)
                (prefix_index + 1 = length SESSION_ENCRYPTED_PREFIX_V1) cs)
      else only_encrypted_lines True prefix_index prefix_checked cs)"

definition ensure_history_reader_has_only_encrypted_payload_lines :: "bytes \<Rightarrow> SessionStoreError + unit" where
  "ensure_history_reader_has_only_encrypted_payload_lines b =
     (if only_encrypted_lines False 0 False b then Inr () else Inl Locked)"

definition ensure_history_file_current :: "store_api \<Rightarrow> string \<Rightarrow> string \<Rightarrow> unit store_act" where
  "ensure_history_file_current A history_path session_id s =
     (if \<not> encryption_active s \<or> history_file_current_confirmed session_id s then (Inr (), s)
      else if \<not> fs_exists history_path (st_disk s) then (Inr (), mark_history_file_current session_id s)
      else
        and_then (verify_integrity_path A history_path) (\<lambda>_.
        and_then (io fs_try) (\<lambda>_.
        and_then (gets (\<lambda>s. contents (st_disk s) history_path)) (\<lambda>c. case c of
           None \<Rightarrow> throw Io
         | Some b \<Rightarrow>
             and_then (from_sum (ensure_history_reader_has_only_encrypted_payload_lines b)) (\<lambda>_.
             update (mark_history_file_current session_id))))) s)"

definition file_starts_with_encrypted_payload_prefix :: "string \<Rightarrow> bool store_act" where
  "file_starts_with_encrypted_payload_prefix p =
     and_then (io fs_try) (\<lambda>_.
     gets (\<lambda>s. case contents (st_disk s) p of None \<Rightarrow> False | Some b \<Rightarrow> has_encrypted_payload_prefix b))"

definition ensure_archive_file_current :: "store_api \<Rightarrow> string \<Rightarrow> unit store_act" where
  "ensure_archive_file_current A session_id s =
     (if \<not> encryption_active s then (Inr (), s)
      else
        and_then (from_sum (archive_path session_id)) (\<lambda>p.
        and_then (gets (\<lambda>s. fs_exists p (st_disk s))) (\<lambda>present.
        if \<not> present then
          update (\<lambda>s. s\<lparr>st_archive_current_signatures := hm_remove session_id (st_archive_current_signatures s)\<rparr>)
        else
          and_then (io fs_try) (\<lambda>_.
          and_then (on_disk (artifact_file_signature A p)) (\<lambda>initial. case initial of
             None \<Rightarrow> throw Io
           | Some sg \<Rightarrow>
               and_then (gets (\<lambda>s. hm_get (st_archive_current_signatures s) session_id = Some sg)) (\<lambda>confirmed.
               if confirmed then return ()
               else
                 and_then (verify_integrity_path A p) (\<lambda>_.
                 and_then (file_starts_with_encrypted_payload_prefix p) (\<lambda>enc.
                 if \<not> enc then throw Locked
                 else
                   and_then (on_disk (artifact_file_signature A p)) (\<lambda>current. case current of
                      None \<Rightarrow> throw Io
                    | Some sg' \<Rightarrow>
                        update (\<lambda>s. s\<lparr>st_archive_current_signatures :=
                          hm_insert session_id sg' (st_archive_current_signatures s)\<rparr>))))))))) s)"

definition ensure_session_artifacts_current :: "store_api \<Rightarrow> Session \<Rightarrow> unit store_act" where
  "ensure_session_artifacts_current A session s =
     (if \<not> encryption_active s then (Inr (), s)
      else
        and_then (from_sum (session_history_path (ses_id session))) (\<lambda>p.
        and_then (gets (\<lambda>s. fs_exists p (st_disk s))) (\<lambda>present.
        and_then (run_if present (and_then (io fs_try) (\<lambda>_. ensure_history_file_current A p (ses_id session)))) (\<lambda>_.
        ensure_archive_file_current A (ses_id session)))) s)"

subsection \<open>Writing\<close>

definition write_session_meta :: "store_api \<Rightarrow> Session \<Rightarrow> unit store_act" where
  "write_session_meta A session =
     and_then ensure_base_dir (\<lambda>_.
     and_then ensure_required_encryption_available (\<lambda>_.
     and_then (from_sum (session_meta_path (ses_id session))) (\<lambda>p.
     and_then (io fs_try) (\<lambda>_.
     and_then (encode_session_metadata A session) (\<lambda>serialized.
     and_then (gets st_hmac_key) (\<lambda>key.
     io (replace_sealed (sa_digest A) key p serialized)))))))"

fun encode_messages :: "store_api \<Rightarrow> ChatMessage list \<Rightarrow> bytes store_act" where
  "encode_messages A [] = return []"
| "encode_messages A (m # ms) =
     and_then (encode_history_message A m) (\<lambda>b.
     and_then (encode_messages A ms) (\<lambda>rest. return (b @ [newline] @ rest)))"

definition rewrite_history_file_from_messages :: "store_api \<Rightarrow> string \<Rightarrow> string \<Rightarrow> ChatMessage list \<Rightarrow> unit store_act" where
  "rewrite_history_file_from_messages A history_path session_id messages =
     and_then (encode_messages A messages) (\<lambda>b.
     and_then (gets st_hmac_key) (\<lambda>key.
     and_then (io (replace_sealed (sa_digest A) key history_path b)) (\<lambda>_.
     and_then (case key of
         Some k \<Rightarrow> store_history_hmac_state A session_id history_path \<lparr>ah_key = k, ah_fed = b\<rparr>
       | None \<Rightarrow> update (clear_history_hmac_state session_id)) (\<lambda>_.
     and_then (update (mark_history_file_current session_id)) (\<lambda>_.
     update (invalidate_protected_inbound_dedupe_cache session_id))))))"

definition history_len :: "string \<Rightarrow> nat store_act" where
  "history_len p =
     and_then (io fs_try) (\<lambda>_. gets (\<lambda>s. case contents (st_disk s) p of None \<Rightarrow> 0 | Some b \<Rightarrow> length b))"

text \<open>The common tail of the two ways of appending: size check, HMAC, the append itself, HMAC again.\<close>

definition append_bytes :: "store_api \<Rightarrow> string \<Rightarrow> string \<Rightarrow> bytes \<Rightarrow> unit store_act" where
  "append_bytes A history_path session_id appended =
     and_then (history_len history_path) (\<lambda>current_len.
     if u64_saturating_add current_len (length appended) > SESSION_HISTORY_FILE_MAX_BYTES - APPEND_HEADROOM then
       throw HistoryFileFull
     else
       and_then (prepare_history_hmac_for_appended_bytes A history_path appended session_id) (\<lambda>hmac_state.
       and_then (io (fs_append history_path appended)) (\<lambda>_.
       and_then (commit_history_hmac history_path) (\<lambda>_.
       and_then (case hmac_state of
           None \<Rightarrow> return ()
         | Some state \<Rightarrow> store_history_hmac_state A session_id history_path state) (\<lambda>_.
       update (mark_history_file_current session_id))))))"

definition append_history_message_under_lock :: "store_api \<Rightarrow> string \<Rightarrow> string \<Rightarrow> ChatMessage \<Rightarrow> unit store_act" where
  "append_history_message_under_lock A history_path session_id m =
     and_then (ensure_history_file_current A history_path session_id) (\<lambda>_.
     and_then (encode_history_message A m) (\<lambda>encoded.
     and_then (append_bytes A history_path session_id (encoded @ [newline])) (\<lambda>_.
     cache_protected_inbound_event_from_message A m history_path (encoded @ [newline]))))"

definition write_archive_file :: "store_api \<Rightarrow> string \<Rightarrow> string \<Rightarrow> ArchivedSession \<Rightarrow> unit store_act" where
  "write_archive_file A p session_id archived =
     and_then (encode_archive A session_id archived) (\<lambda>encoded.
     and_then (gets st_hmac_key) (\<lambda>key.
     and_then (io (replace_sealed (sa_digest A) key p encoded)) (\<lambda>_.
     and_then (on_disk (artifact_file_signature A p)) (\<lambda>sg.
     update (\<lambda>s. case sg of
        Some sg \<Rightarrow>
          if encryption_active s then
            s\<lparr>st_archive_current_signatures := hm_insert session_id sg (st_archive_current_signatures s)\<rparr>
          else s
      | None \<Rightarrow> s)))))"

subsection \<open>Reading\<close>

definition trim_ascii_whitespace :: "bytes \<Rightarrow> bytes" where
  "trim_ascii_whitespace b = rev (dropWhile is_ascii_whitespace (rev (dropWhile is_ascii_whitespace b)))"

definition history_lines :: "bytes \<Rightarrow> bytes list" where
  "history_lines b = filter (\<lambda>l. l \<noteq> []) (map trim_ascii_whitespace (split_by (\<lambda>c. c = newline) b))"

text \<open>
  Reading skips a line of plain JSON that does not parse, and stops at a locked line or one that fails
  authentication.
\<close>

fun decode_lines :: "store_api \<Rightarrow> string \<Rightarrow> SessionStore \<Rightarrow> bytes list \<Rightarrow> SessionStoreError + ChatMessage list" where
  "decode_lines A session_id s [] = Inr []"
| "decode_lines A session_id s (line # ls) =
     (case decode_history_message A session_id s line of
        Inr m \<Rightarrow> (case decode_lines A session_id s ls of Inl e \<Rightarrow> Inl e | Inr ms \<Rightarrow> Inr (m # ms))
      | Inl Locked \<Rightarrow> Inl Locked
      | Inl e \<Rightarrow>
          (let e = encrypted_history_decode_error (has_encrypted_payload_prefix line) e
           in if is_permanent_history_corruption e \<or> e = Locked then Inl e
              else decode_lines A session_id s ls))"

definition read_raw_history_messages :: "store_api \<Rightarrow> string \<Rightarrow> string \<Rightarrow> ChatMessage list store_act" where
  "read_raw_history_messages A history_path session_id =
     and_then (gets (\<lambda>s. fs_exists history_path (st_disk s))) (\<lambda>present.
     if \<not> present then return []
     else
       and_then (map_err history_integrity_error (read_verified_history_bytes A history_path)) (\<lambda>b s.
       (decode_lines A session_id s (history_lines b), s)))"

definition after_id :: "string option \<Rightarrow> ChatMessage list \<Rightarrow> ChatMessage list" where
  "after_id before_id ms =
     (case before_id of None \<Rightarrow> ms | Some i \<Rightarrow> drop 1 (dropWhile (\<lambda>m. cm_id m \<noteq> i) ms))"

definition last_messages :: "usize option \<Rightarrow> ChatMessage list \<Rightarrow> ChatMessage list" where
  "last_messages limit ms =
     (case limit of None \<Rightarrow> ms | Some n \<Rightarrow> if length ms > n then rev (take n (rev ms)) else ms)"

definition visible :: "ChatMessage list \<Rightarrow> ChatMessage list" where
  "visible ms = filter (\<lambda>m. \<not> is_protected_inbound_dedupe_marker m) ms"

definition get_history :: "store_api \<Rightarrow> string \<Rightarrow> usize option \<Rightarrow> string option \<Rightarrow> ChatMessage list store_act" where
  "get_history A session_id limit before_id =
     and_then ensure_required_encryption_available (\<lambda>_.
     and_then (from_sum (session_history_path session_id)) (\<lambda>p.
     and_then (read_raw_history_messages A p session_id) (\<lambda>ms.
     return (last_messages limit (after_id before_id (visible ms))))))"

subsection \<open>Looking for an inbound event\<close>

fun dedupe_scan ::
    "store_api \<Rightarrow> string \<Rightarrow> SessionStore \<Rightarrow> string \<Rightarrow> bytes list \<Rightarrow> InboundEventIndexLookup \<Rightarrow>
     (string, InboundEventIndexEntry) hmap \<Rightarrow>
     SessionStoreError + (InboundEventIndexLookup \<times> (string, InboundEventIndexEntry) hmap)" where
  "dedupe_scan A session_id s target [] lookup es = Inr (lookup, es)"
| "dedupe_scan A session_id s target (line # ls) lookup es =
     (case decode_history_message A session_id s line of
        Inl Locked \<Rightarrow> Inl Locked
      | Inl _ \<Rightarrow> Inl HistoryCorrupt
      | Inr m \<Rightarrow>
          (case inbound_dedupe_entry_from_message m of
             None \<Rightarrow> dedupe_scan A session_id s target ls lookup es
           | Some (i, entry) \<Rightarrow>
               dedupe_scan A session_id s target ls
                 (if i = target then
                    lookup\<lparr>lk_matched_protected_history := True,
                           lk_entry := (case lk_entry lookup of None \<Rightarrow> Some entry | Some x \<Rightarrow> Some x)\<rparr>
                  else lookup)
                 (if hm_contains es i then es else hm_insert i entry es)))"

definition find_inbound_event_in_history ::
    "store_api \<Rightarrow> string \<Rightarrow> string \<Rightarrow> string \<Rightarrow> InboundEventIndexLookup store_act" where
  "find_inbound_event_in_history A session_id history_path inbound_event_id =
     (let target = canonical_inbound_event_id inbound_event_id
      in and_then (protected_inbound_dedupe_cache_lookup A session_id history_path target) (\<lambda>hit. case hit of
           Some entry \<Rightarrow>
             return (InboundEventIndexLookup_default\<lparr>lk_entry := entry, lk_matched_protected_history := (entry \<noteq> None)\<rparr>)
         | None \<Rightarrow>
             and_then (gets (\<lambda>s. fs_exists history_path (st_disk s))) (\<lambda>present.
             if \<not> present then
               and_then (update (replace_protected_inbound_dedupe_cache session_id None []))
                 (\<lambda>_. return InboundEventIndexLookup_default)
             else
               and_then (map_err history_integrity_error (read_verified_history_bytes A history_path)) (\<lambda>b.
               and_then (on_disk (dedupe_history_state_from_bytes A history_path b)) (\<lambda>history_state.
               and_then (\<lambda>s. (dedupe_scan A session_id s target (history_lines b) InboundEventIndexLookup_default [], s))
                 (\<lambda>(lookup, es).
               and_then (update (replace_protected_inbound_dedupe_cache session_id history_state es))
                 (\<lambda>_. return lookup)))))))"

fun legacy_scan :: "store_api \<Rightarrow> string \<Rightarrow> bytes list \<Rightarrow> InboundEventIndexLookup \<Rightarrow> InboundEventIndexLookup" where
  "legacy_scan A target [] lookup = lookup"
| "legacy_scan A target (line # ls) lookup =
     legacy_scan A target ls
       (case sa_index_parse A line of
          Some entry \<Rightarrow>
            if canonical_inbound_event_id (ie_event_id entry) = target then
              lookup\<lparr>lk_entry := (case lk_entry lookup of None \<Rightarrow> Some entry | Some x \<Rightarrow> Some x)\<rparr>
            else lookup
        | None \<Rightarrow> lookup\<lparr>lk_corrupt_lines := u64_saturating_add (lk_corrupt_lines lookup) 1\<rparr>)"

definition find_legacy_inbound_event_index_entry :: "store_api \<Rightarrow> string \<Rightarrow> string \<Rightarrow> InboundEventIndexLookup store_act" where
  "find_legacy_inbound_event_index_entry A inbound_index_path inbound_event_id =
     and_then (io (fs_read LEGACY_INBOUND_INDEX_MAX_BYTES inbound_index_path)) (\<lambda>r. case r of
        None \<Rightarrow> throw Io
      | Some b \<Rightarrow>
          return (legacy_scan A (canonical_inbound_event_id inbound_event_id) (history_lines b)
            InboundEventIndexLookup_default))"

definition find_inbound_event_index_entry ::
    "store_api \<Rightarrow> string \<Rightarrow> string \<Rightarrow> string \<Rightarrow> string \<Rightarrow> InboundEventIndexLookup store_act" where
  "find_inbound_event_index_entry A session_id history_path inbound_index_path inbound_event_id =
     and_then (find_inbound_event_in_history A session_id history_path inbound_event_id) (\<lambda>lookup.
     and_then (gets (\<lambda>s. fs_exists inbound_index_path (st_disk s))) (\<lambda>present.
     if \<not> present then return lookup
     else
       and_then (find_legacy_inbound_event_index_entry A inbound_index_path inbound_event_id) (\<lambda>legacy.
       return (lookup\<lparr>lk_legacy_index_present := True,
                     lk_corrupt_lines := u64_saturating_add (lk_corrupt_lines lookup) (lk_corrupt_lines legacy),
                     lk_entry := (case lk_entry lookup of None \<Rightarrow> lk_entry legacy | Some x \<Rightarrow> Some x)\<rparr>))))"

definition delete_inbound_event_index :: "string \<Rightarrow> unit store_act" where
  "delete_inbound_event_index p =
     and_then (attempt (on_disk (fs_remove p))) (\<lambda>r. case r of
        Inr _ \<Rightarrow> return () | Inl Missing \<Rightarrow> return () | Inl _ \<Rightarrow> throw Io)"

subsection \<open>Loading sessions\<close>

definition cache_session :: "Session \<Rightarrow> SessionStore \<Rightarrow> SessionStore" where
  "cache_session session s =
     s\<lparr>st_key_to_id := hm_insert (ses_key session) (ses_id session) (st_key_to_id s),
       st_sessions := hm_insert (ses_id session)
         \<lparr>ch_session = session, ch_dirty = False, ch_history_file_current_confirmed = False\<rparr> (st_sessions s)\<rparr>"

definition update_cached :: "string \<Rightarrow> Session \<Rightarrow> SessionStore \<Rightarrow> SessionStore" where
  "update_cached session_id session s =
     s\<lparr>st_sessions := hm_modify session_id (\<lambda>c. c\<lparr>ch_session := session, ch_dirty := False\<rparr>) (st_sessions s)\<rparr>"

definition file_updated_at :: "string \<Rightarrow> SessionStore \<Rightarrow> i64 option" where
  "file_updated_at p s = map_option f_mtime (hm_get (d_files (st_disk s)) p)"

definition record_locked_session_entry :: "string \<Rightarrow> string \<Rightarrow> SessionStore \<Rightarrow> SessionStore" where
  "record_locked_session_entry session_id p s =
     s\<lparr>st_locked_session_entries :=
         hm_insert session_id (entry_locked session_id (file_updated_at p s)) (st_locked_session_entries s)\<rparr>"

definition clear_locked_session_entry :: "string \<Rightarrow> SessionStore \<Rightarrow> SessionStore" where
  "clear_locked_session_entry session_id s =
     s\<lparr>st_locked_session_entries := hm_remove session_id (st_locked_session_entries s)\<rparr>"

definition load_session_with_locked_tracking :: "store_api \<Rightarrow> string \<Rightarrow> bool \<Rightarrow> Session store_act" where
  "load_session_with_locked_tracking A session_id update_locked_scan_state =
     and_then ensure_required_encryption_available (\<lambda>_.
     and_then (from_sum (session_meta_path session_id)) (\<lambda>p.
     and_then (gets (\<lambda>s. fs_exists p (st_disk s))) (\<lambda>present.
     if \<not> present then throw (NotFound session_id)
     else
       and_then (io (fs_read SESSION_META_FILE_MAX_BYTES p)) (\<lambda>r. case r of
          None \<Rightarrow> throw (NotFound session_id)
        | Some content \<Rightarrow>
            and_then (verify_integrity_bytes A content p) (\<lambda>_.
            and_then (gets (\<lambda>s. decode_session_metadata A session_id s content)) (\<lambda>d. case d of
               Inl e \<Rightarrow>
                 and_then (run_if (update_locked_scan_state \<and>
                             (e = Locked \<or> e = Crypto \<and> has_encrypted_payload_prefix content))
                   (update (record_locked_session_entry session_id p))) (\<lambda>_. throw e)
             | Inr session \<Rightarrow>
                 and_then (ensure_session_artifacts_current A session) (\<lambda>_.
                 and_then (run_if update_locked_scan_state (update (clear_locked_session_entry session_id))) (\<lambda>_.
                 and_then (update (cache_session session)) (\<lambda>_.
                 and_then (update (mark_history_file_current (ses_id session))) (\<lambda>_.
                 return session))))))))))"

definition load_session :: "store_api \<Rightarrow> string \<Rightarrow> Session store_act" where
  "load_session A session_id = load_session_with_locked_tracking A session_id True"

text \<open>
  The directory scan: names with the extension \<^verbatim>\<open>json\<close> (the part after the last dot, when something stands
  before it), in the order of the directory.
\<close>

definition split_extension :: "string \<Rightarrow> (string \<times> string) option" where
  "split_extension name =
     (let ext = rev (takeWhile (\<lambda>c. c \<noteq> CHR ''.'') (rev name))
      in if CHR ''.'' \<notin> set name then None
         else (let stem = take (length name - length ext - 1) name in if stem = [] then None else Some (stem, ext)))"

definition session_stems :: "disk \<Rightarrow> string list" where
  "session_stems d =
     List.map_filter (\<lambda>name. if CHR ''/'' \<in> set name then None
        else (case split_extension name of
                Some (stem, ext) \<Rightarrow> if ext = ''json'' then Some stem else None
              | None \<Rightarrow> None)) (map fst (d_files d))"

fun scan_stems :: "store_api \<Rightarrow> string list \<Rightarrow> (string, SessionListEntry) hmap \<Rightarrow> (string, SessionListEntry) hmap store_act" where
  "scan_stems A [] locked = return locked"
| "scan_stems A (stem # stems) locked =
     and_then (gets (\<lambda>s. hm_contains (st_sessions s) stem)) (\<lambda>cached.
     if cached then scan_stems A stems locked
     else
       and_then (attempt (load_session_with_locked_tracking A stem False)) (\<lambda>r.
       and_then (gets (\<lambda>s. (entry_locked stem (file_updated_at (stem @ ''.json'') s), st_crypto s))) (\<lambda>(stub, crypto).
       case r of
         Inr _ \<Rightarrow> scan_stems A stems locked
       | Inl e \<Rightarrow>
           if e = Locked then scan_stems A stems (hm_insert stem stub locked)
           else if e = DecryptionFailed \<or> e = ManifestIntegrityFailed then
             (case crypto of
                None \<Rightarrow> scan_stems A stems locked
              | Some ctx \<Rightarrow>
                  if \<not> cc_manifest_integrity_valid ctx then throw e
                  else scan_stems A stems (hm_insert stem stub locked))
           else if e = Crypto \<and> crypto \<noteq> None then scan_stems A stems (hm_insert stem stub locked)
           else scan_stems A stems locked)))"

definition load_sessions_from_disk :: "store_api \<Rightarrow> unit store_act" where
  "load_sessions_from_disk A =
     and_then ensure_required_encryption_available (\<lambda>_.
     and_then (gets (\<lambda>s. d_base (st_disk s))) (\<lambda>present.
     if \<not> present then update (\<lambda>s. s\<lparr>st_locked_session_entries := []\<rparr>)
     else
       and_then (io fs_try) (\<lambda>_.
       and_then (gets (\<lambda>s. session_stems (st_disk s))) (\<lambda>stems.
       and_then (scan_stems A stems []) (\<lambda>locked.
       update (\<lambda>s. s\<lparr>st_locked_session_entries := locked\<rparr>))))))"

definition get_session :: "store_api \<Rightarrow> string \<Rightarrow> Session store_act" where
  "get_session A session_id =
     and_then (from_sum (validate_session_id session_id)) (\<lambda>_.
     and_then (gets (\<lambda>s. hm_get (st_sessions s) session_id)) (\<lambda>c. case c of
        Some cached \<Rightarrow> return (ch_session cached)
      | None \<Rightarrow> load_session A session_id))"

definition should_block_unknown_session_key_without_crypto :: "SessionStore \<Rightarrow> bool" where
  "should_block_unknown_session_key_without_crypto s \<longleftrightarrow>
     st_crypto s = None \<and> length (st_locked_session_entries s) > 0"

definition session_key_exists :: "store_api \<Rightarrow> string \<Rightarrow> bool store_act" where
  "session_key_exists A session_key =
     and_then (gets (\<lambda>s. hm_contains (st_key_to_id s) session_key)) (\<lambda>known.
     if known then return True
     else
       and_then (load_sessions_from_disk A) (\<lambda>_ s.
       if hm_contains (st_key_to_id s) session_key then (Inr True, s)
       else if should_block_unknown_session_key_without_crypto s then (Inl Locked, s)
       else (Inr False, s)))"

definition get_session_by_key :: "store_api \<Rightarrow> string \<Rightarrow> Session store_act" where
  "get_session_by_key A session_key =
     and_then (gets (\<lambda>s. hm_get (st_key_to_id s) session_key)) (\<lambda>cached_id. case cached_id of
        Some i \<Rightarrow> get_session A i
      | None \<Rightarrow>
          and_then (load_sessions_from_disk A) (\<lambda>_.
          and_then (gets (\<lambda>s. hm_get (st_key_to_id s) session_key)) (\<lambda>cached_id. case cached_id of
             Some i \<Rightarrow> get_session A i
           | None \<Rightarrow>
               (\<lambda>s. if should_block_unknown_session_key_without_crypto s then (Inl Locked, s)
                    else (Inl (NotFound session_key), s)))))"

subsection \<open>Sessions\<close>

text \<open>The tail of both ways of creating a session: persist it, then enter it into the caches.\<close>

definition persist_new_session :: "store_api \<Rightarrow> Session \<Rightarrow> Session store_act" where
  "persist_new_session A session =
     and_then (write_session_meta A session) (\<lambda>_.
     and_then (update (cache_session session)) (\<lambda>_.
     and_then (update (mark_history_file_current (ses_id session))) (\<lambda>_.
     return session)))"

definition create_session :: "store_api \<Rightarrow> string \<Rightarrow> SessionMetadata \<Rightarrow> Session store_act" where
  "create_session A agent_id metadata =
     and_then ensure_base_dir (\<lambda>_.
     and_then (on_disk draw) (\<lambda>i.
     and_then (gets (\<lambda>s. Session_new (sa_uuid A i) (now_millis s) agent_id metadata)) (\<lambda>session.
     and_then (io fs_try) (\<lambda>_.
     and_then (session_key_exists A (ses_key session)) (\<lambda>exists.
     if exists then throw (AlreadyExists (ses_key session))
     else persist_new_session A session)))))"

definition get_or_create_session :: "store_api \<Rightarrow> string \<Rightarrow> SessionMetadata \<Rightarrow> Session store_act" where
  "get_or_create_session A key metadata =
     and_then ensure_base_dir (\<lambda>_.
     and_then (io fs_try) (\<lambda>_.
     and_then (attempt (get_session_by_key A key)) (\<lambda>r. case r of
        Inr session \<Rightarrow> return session
      | Inl (NotFound _) \<Rightarrow>
          and_then (on_disk draw) (\<lambda>i.
          and_then (gets (\<lambda>s. Session_with_session_key (sa_uuid A i) (now_millis s) key metadata)) (\<lambda>session.
          persist_new_session A session))
      | Inl e \<Rightarrow> throw e)))"

definition updated_or_0 :: "SessionListEntry \<Rightarrow> i64" where
  "updated_or_0 e = (case le_updated_at e of None \<Rightarrow> 0 | Some t \<Rightarrow> t)"

definition list_session_entries :: "store_api \<Rightarrow> SessionFilter \<Rightarrow> SessionListEntry list store_act" where
  "list_session_entries A f =
     and_then ensure_required_encryption_available (\<lambda>_.
     and_then (load_sessions_from_disk A) (\<lambda>_ s.
     (let available = map entry_available (filter (filter_matches f) (map ch_session (hm_values (st_sessions s))));
          locked = hm_values (st_locked_session_entries s)
      in if locked \<noteq> [] \<and> requires_decrypted_metadata f then (Inl Locked, s)
         else
           (let entries = sort_key (\<lambda>e. - updated_or_0 e) (available @ locked);
                skipped = drop (case sf_offset f of None \<Rightarrow> 0 | Some n \<Rightarrow> n) entries
            in (Inr (case sf_limit f of None \<Rightarrow> skipped | Some n \<Rightarrow> take n skipped), s)))))"

definition list_sessions :: "store_api \<Rightarrow> SessionFilter \<Rightarrow> Session list store_act" where
  "list_sessions A f =
     and_then (list_session_entries A f) (\<lambda>es. return (List.map_filter le_session es))"

definition or_keep :: "'a option \<Rightarrow> 'a option \<Rightarrow> 'a option" where
  "or_keep new old = (case new of None \<Rightarrow> old | Some x \<Rightarrow> Some x)"

definition patch_metadata :: "SessionMetadata \<Rightarrow> SessionMetadata \<Rightarrow> SessionMetadata" where
  "patch_metadata u m =
     m\<lparr>sm_name := or_keep (sm_name u) (sm_name m),
       sm_description := or_keep (sm_description u) (sm_description m),
       sm_agent_id := or_keep (sm_agent_id u) (sm_agent_id m),
       sm_channel := or_keep (sm_channel u) (sm_channel m),
       sm_chat_id := or_keep (sm_chat_id u) (sm_chat_id m),
       sm_user_id := or_keep (sm_user_id u) (sm_user_id m),
       sm_route := or_keep (sm_route u) (sm_route m),
       sm_model := or_keep (sm_model u) (sm_model m),
       sm_thinking_level := or_keep (sm_thinking_level u) (sm_thinking_level m),
       sm_tags := (if sm_tags u = [] then sm_tags m else sm_tags u),
       sm_extra := or_keep (sm_extra u) (sm_extra m)\<rparr>"

definition patch_session :: "store_api \<Rightarrow> string \<Rightarrow> SessionMetadata \<Rightarrow> Session store_act" where
  "patch_session A session_id updates =
     and_then (get_session A session_id) (\<lambda>session.
     and_then (gets now_millis) (\<lambda>now.
     (let session = session\<lparr>ses_metadata := patch_metadata updates (ses_metadata session),
                            ses_updated_at := max now (i64_saturating_add (ses_updated_at session) 1)\<rparr>
      in and_then (write_session_meta A session) (\<lambda>_.
         and_then (update (update_cached session_id session)) (\<lambda>_.
         return session)))))"

text \<open>Removing the history of a session, its index, its HMAC and what the caches know of it.\<close>

definition remove_if_present :: "string \<Rightarrow> unit store_act" where
  "remove_if_present p =
     and_then (gets (\<lambda>s. fs_exists p (st_disk s))) (\<lambda>present. run_if present (io (fs_remove p)))"

definition forget_history :: "string \<Rightarrow> SessionStore \<Rightarrow> SessionStore" where
  "forget_history session_id s =
     invalidate_protected_inbound_dedupe_cache session_id (clear_history_hmac_state session_id s)"

definition drop_history :: "string \<Rightarrow> string \<Rightarrow> string \<Rightarrow> unit store_act" where
  "drop_history session_id history_path inbound_index_path =
     and_then (io fs_try) (\<lambda>_.
     and_then (remove_if_present history_path) (\<lambda>_.
     and_then (delete_inbound_event_index inbound_index_path) (\<lambda>_.
     and_then (io (delete_hmac_sidecar history_path)) (\<lambda>_.
     update (\<lambda>s. mark_history_file_current session_id (forget_history session_id s))))))"

definition reset_session :: "store_api \<Rightarrow> string \<Rightarrow> Session store_act" where
  "reset_session A session_id =
     and_then (get_session A session_id) (\<lambda>session.
     and_then (from_sum (session_history_path session_id)) (\<lambda>hp.
     and_then (from_sum (session_inbound_event_index_path session_id)) (\<lambda>ip.
     and_then (drop_history session_id hp ip) (\<lambda>_.
     and_then (gets now_millis) (\<lambda>now.
     (let session = session\<lparr>ses_message_count := 0,
                            ses_metadata := (ses_metadata session)\<lparr>sm_compaction := CompactionMetadata_default\<rparr>,
                            ses_updated_at := now, ses_last_activity_at := Some now\<rparr>
      in and_then (write_session_meta A session) (\<lambda>_.
         and_then (update (update_cached session_id session)) (\<lambda>_.
         return session))))))))"

definition delete_session :: "store_api \<Rightarrow> string \<Rightarrow> unit store_act" where
  "delete_session A session_id =
     and_then (get_session A session_id) (\<lambda>session.
     and_then (from_sum (session_meta_path session_id)) (\<lambda>mp.
     and_then (from_sum (session_history_path session_id)) (\<lambda>hp.
     and_then (from_sum (session_inbound_event_index_path session_id)) (\<lambda>ip.
     and_then (io fs_try) (\<lambda>_.
     and_then (io fs_try) (\<lambda>_.
     and_then (remove_if_present mp) (\<lambda>_.
     and_then (remove_if_present hp) (\<lambda>_.
     and_then (delete_inbound_event_index ip) (\<lambda>_.
     and_then (io (delete_hmac_sidecar mp)) (\<lambda>_.
     and_then (io (delete_hmac_sidecar hp)) (\<lambda>_.
     update (\<lambda>s. (forget_history session_id s)
        \<lparr>st_sessions := hm_remove session_id (st_sessions s),
         st_key_to_id := hm_remove (ses_key session) (st_key_to_id s)\<rparr>))))))))))))"

definition trim_empty :: "string \<Rightarrow> bool" where
  "trim_empty s \<longleftrightarrow> trim s = []"

fun delete_all :: "store_api \<Rightarrow> Session list \<Rightarrow> nat store_act" where
  "delete_all A [] = return 0"
| "delete_all A (x # xs) =
     and_then (attempt (delete_session A (ses_id x))) (\<lambda>r.
     and_then (delete_all A xs) (\<lambda>n.
     return (case r of Inl _ \<Rightarrow> n | Inr _ \<Rightarrow> Suc n)))"

definition purge_user_data :: "store_api \<Rightarrow> string \<Rightarrow> (nat \<times> nat) store_act" where
  "purge_user_data A user_id =
     (if trim_empty user_id then throw InvalidUserId
      else
        and_then (list_sessions A (SessionFilter_default\<lparr>sf_user_id := Some user_id\<rparr>)) (\<lambda>sessions.
        and_then (delete_all A sessions) (\<lambda>deleted.
        return (deleted, length sessions))))"

definition cleanup_expired :: "store_api \<Rightarrow> u32 \<Rightarrow> nat store_act" where
  "cleanup_expired A retention_days =
     and_then (gets now_millis) (\<lambda>now.
     and_then (list_sessions A (SessionFilter_default\<lparr>sf_updated_before :=
         Some (now - int retention_days * 24 * 60 * 60 * 1000)\<rparr>)) (\<lambda>expired.
     and_then (delete_all A expired) (\<lambda>_.
     return (length expired))))"

text \<open>The portable data of a user: each session with its messages, and for how many the history could not be read.\<close>

fun export_histories :: "store_api \<Rightarrow> Session list \<Rightarrow> ((Session \<times> ChatMessage list) list \<times> nat) store_act" where
  "export_histories A [] = return ([], 0)"
| "export_histories A (x # xs) =
     and_then (attempt (get_history A (ses_id x) None None)) (\<lambda>r.
     and_then (export_histories A xs) (\<lambda>(es, w).
     return (case r of Inl _ \<Rightarrow> (es, Suc w) | Inr ms \<Rightarrow> ((x, ms) # es, w))))"

definition export_user_data :: "store_api \<Rightarrow> string \<Rightarrow> ((Session \<times> ChatMessage list) list \<times> nat) store_act" where
  "export_user_data A user_id =
     (if trim_empty user_id then throw InvalidUserId
      else
        and_then (list_sessions A (SessionFilter_default\<lparr>sf_user_id := Some user_id\<rparr>)) (\<lambda>sessions.
        export_histories A sessions))"

subsection \<open>Message counts and flushing\<close>

definition flush_session :: "store_api \<Rightarrow> string \<Rightarrow> unit store_act" where
  "flush_session A session_id =
     and_then (gets (\<lambda>s. hm_get (st_sessions s) session_id)) (\<lambda>c. case c of
        None \<Rightarrow> return ()
      | Some cached \<Rightarrow>
          and_then (write_session_meta A (ch_session cached)) (\<lambda>_.
          update (\<lambda>s. s\<lparr>st_sessions := hm_modify session_id (\<lambda>c. c\<lparr>ch_dirty := False\<rparr>) (st_sessions s)\<rparr>)))"

definition count_message :: "i64 \<Rightarrow> Session \<Rightarrow> Session" where
  "count_message now session =
     session\<lparr>ses_message_count := ses_message_count session + 1, ses_updated_at := now, ses_last_activity_at := Some now\<rparr>"

definition increment_message_count :: "store_api \<Rightarrow> string \<Rightarrow> unit store_act" where
  "increment_message_count A session_id =
     and_then (gets (\<lambda>s. hm_contains (st_sessions s) session_id)) (\<lambda>cached.
     and_then (run_if (\<not> cached) (and_then (load_session A session_id) (\<lambda>session.
        update (\<lambda>s. if hm_contains (st_sessions s) session_id then s
          else s\<lparr>st_sessions := hm_insert session_id
             \<lparr>ch_session = session, ch_dirty = True, ch_history_file_current_confirmed = False\<rparr> (st_sessions s)\<rparr>)))) (\<lambda>_.
     and_then (update (\<lambda>s. s\<lparr>st_sessions := hm_modify session_id
        (\<lambda>c. c\<lparr>ch_session := count_message (now_millis s) (ch_session c), ch_dirty := True\<rparr>) (st_sessions s)\<rparr>)) (\<lambda>_.
     and_then (gets (\<lambda>s. hm_get (st_sessions s) session_id)) (\<lambda>c. case c of
        None \<Rightarrow> return ()
      | Some cached \<Rightarrow> run_if (ses_message_count (ch_session cached) mod 10 = 0) (flush_session A session_id)))))"

definition flush_all :: "store_api \<Rightarrow> unit store_act" where
  "flush_all A =
     and_then (gets (\<lambda>s. map fst (filter (\<lambda>(i, c). ch_dirty c) (st_sessions s)))) (\<lambda>dirty_ids.
     each (flush_session A) dirty_ids)"

subsection \<open>Appending messages\<close>

text \<open>An archived session is read-only; a session that does not exist is let through.\<close>

definition check_writable :: "store_api \<Rightarrow> string \<Rightarrow> unit store_act" where
  "check_writable A session_id =
     and_then (attempt (get_session A session_id)) (\<lambda>r. case r of
        Inr session \<Rightarrow> if ses_status session = Archived then throw (AlreadyArchived session_id) else return ()
      | Inl (NotFound _) \<Rightarrow> return ()
      | Inl e \<Rightarrow> throw e)"

definition append_message :: "store_api \<Rightarrow> ChatMessage \<Rightarrow> unit store_act" where
  "append_message A m =
     and_then ensure_base_dir (\<lambda>_.
     and_then ensure_required_encryption_available (\<lambda>_.
     and_then (check_writable A (cm_session_id m)) (\<lambda>_.
     and_then (from_sum (session_history_path (cm_session_id m))) (\<lambda>p.
     and_then (io fs_try) (\<lambda>_.
     and_then (append_history_message_under_lock A p (cm_session_id m) m) (\<lambda>_.
     and_then (update (invalidate_protected_inbound_dedupe_cache (cm_session_id m))) (\<lambda>_.
     increment_message_count A (cm_session_id m))))))))"

definition append_messages :: "store_api \<Rightarrow> ChatMessage list \<Rightarrow> unit store_act" where
  "append_messages A messages =
     (case messages of
        [] \<Rightarrow> return ()
      | m # _ \<Rightarrow>
          (let session_id = cm_session_id m
           in and_then ensure_base_dir (\<lambda>_.
              and_then ensure_required_encryption_available (\<lambda>_.
              if \<not> list_all (\<lambda>m. cm_session_id m = session_id) messages then throw InvalidMessageBatch
              else
                and_then (check_writable A session_id) (\<lambda>_.
                and_then (from_sum (session_history_path session_id)) (\<lambda>p.
                and_then (io fs_try) (\<lambda>_.
                and_then (ensure_history_file_current A p session_id) (\<lambda>_.
                and_then (encode_messages A messages) (\<lambda>appended.
                and_then (append_bytes A p session_id appended) (\<lambda>_.
                and_then (update (invalidate_protected_inbound_dedupe_cache session_id)) (\<lambda>_.
                each (\<lambda>_. increment_message_count A session_id) messages)))))))))))"

definition append_message_if_new_inbound :: "store_api \<Rightarrow> ChatMessage \<Rightarrow> string \<Rightarrow> InboundAppendOutcome store_act" where
  "append_message_if_new_inbound A m inbound_event_id =
     (let session_id = cm_session_id m
      in and_then ensure_base_dir (\<lambda>_.
         and_then ensure_required_encryption_available (\<lambda>_.
         and_then (check_writable A session_id) (\<lambda>_.
         and_then (from_sum (session_history_path session_id)) (\<lambda>hp.
         and_then (from_sum (session_inbound_event_index_path session_id)) (\<lambda>ip.
         and_then (io fs_try) (\<lambda>_.
         and_then (find_inbound_event_index_entry A session_id hp ip inbound_event_id) (\<lambda>lookup.
         case lk_entry lookup of
           Some entry \<Rightarrow>
             and_then (run_if (lk_legacy_index_present lookup \<and> \<not> lk_matched_protected_history lookup)
               (and_then (on_disk draw) (\<lambda>i.
                and_then (gets now_millis) (\<lambda>now.
                and_then (update (invalidate_protected_inbound_dedupe_cache session_id)) (\<lambda>_.
                append_history_message_under_lock A hp session_id
                  (protected_inbound_dedupe_marker (sa_uuid A i) now session_id entry)))))) (\<lambda>_.
             and_then (run_if (lk_legacy_index_present lookup) (delete_inbound_event_index ip)) (\<lambda>_.
             return \<lparr>io_appended = False, io_original_run_id = ie_run_id entry,
                     io_corrupt_index_lines = lk_corrupt_lines lookup\<rparr>))
         | None \<Rightarrow>
             and_then (append_history_message_under_lock A hp session_id m) (\<lambda>_.
             and_then (run_if (lk_legacy_index_present lookup) (delete_inbound_event_index ip)) (\<lambda>_.
             and_then (increment_message_count A session_id) (\<lambda>_.
             return \<lparr>io_appended = True, io_original_run_id = None,
                     io_corrupt_index_lines = lk_corrupt_lines lookup\<rparr>)))))))))))"

definition clear_history :: "store_api \<Rightarrow> string \<Rightarrow> unit store_act" where
  "clear_history A session_id =
     and_then (get_session A session_id) (\<lambda>_.
     and_then (from_sum (session_history_path session_id)) (\<lambda>hp.
     and_then (from_sum (session_inbound_event_index_path session_id)) (\<lambda>ip.
     and_then (drop_history session_id hp ip) (\<lambda>_.
     and_then (update (\<lambda>s. s\<lparr>st_sessions := hm_modify session_id (\<lambda>c. c\<lparr>ch_session :=
        (ch_session c)\<lparr>ses_message_count := 0, ses_updated_at := now_millis s\<rparr>, ch_dirty := True\<rparr>) (st_sessions s)\<rparr>)) (\<lambda>_.
     flush_session A session_id)))))"

subsection \<open>Compaction\<close>

fun make_markers :: "store_api \<Rightarrow> string \<Rightarrow> InboundEventIndexEntry list \<Rightarrow> ChatMessage list store_act" where
  "make_markers A session_id [] = return []"
| "make_markers A session_id (e # es) =
     and_then (on_disk draw) (\<lambda>i.
     and_then (gets now_millis) (\<lambda>now.
     and_then (make_markers A session_id es) (\<lambda>ms.
     return (protected_inbound_dedupe_marker (sa_uuid A i) now session_id e # ms))))"

definition preserved_entries :: "ChatMessage list \<Rightarrow> ChatMessage list \<Rightarrow> ChatMessage list \<Rightarrow> InboundEventIndexEntry list" where
  "preserved_entries rewritten_messages raw_history_messages discarded_visible_messages =
     (let existing = map fst (collect_inbound_dedupe_entries rewritten_messages);
          preserved = collect_inbound_dedupe_entries
            (filter is_protected_inbound_dedupe_marker raw_history_messages @ discarded_visible_messages)
      in map snd (filter (\<lambda>(i, e). i \<notin> set existing) preserved))"

definition rewrite_history_file_preserving_inbound_dedupe ::
    "store_api \<Rightarrow> string \<Rightarrow> string \<Rightarrow> ChatMessage list \<Rightarrow> ChatMessage list \<Rightarrow> ChatMessage list \<Rightarrow> unit store_act" where
  "rewrite_history_file_preserving_inbound_dedupe A history_path session_id rewritten raw discarded =
     and_then (make_markers A session_id (preserved_entries rewritten raw discarded)) (\<lambda>markers.
     rewrite_history_file_from_messages A history_path session_id (rewritten @ markers))"

text \<open>The error of a failed compaction; the status is set back to active first, and if that fails too, an I/O error is reported.\<close>

definition restore_compaction_status_after_precommit_failure ::
    "store_api \<Rightarrow> Session \<Rightarrow> SessionStoreError \<Rightarrow> 'a store_act" where
  "restore_compaction_status_after_precommit_failure A session original_error =
     and_then (gets now_millis) (\<lambda>now.
     (let session = session\<lparr>ses_status := Active, ses_updated_at := now\<rparr>
      in and_then (attempt (write_session_meta A session)) (\<lambda>r. case r of
           Inr _ \<Rightarrow> and_then (update (update_cached (ses_id session) session)) (\<lambda>_. throw original_error)
         | Inl _ \<Rightarrow> throw Io)))"

definition compacted_session :: "i64 \<Rightarrow> nat \<Rightarrow> nat \<Rightarrow> string \<Rightarrow> Session \<Rightarrow> Session" where
  "compacted_session now kept compact_count summary session =
     (let m = ses_metadata session; c = sm_compaction m
      in session\<lparr>ses_status := Active, ses_message_count := kept + 1,
           ses_metadata := m\<lparr>sm_compaction := c\<lparr>messages_compacted := messages_compacted c + compact_count,
             last_compacted_at := Some now, compaction_count := u32_add (compaction_count c) 1,
             last_summary := Some summary, original_message_count := original_message_count c + compact_count\<rparr>\<rparr>,
           ses_updated_at := now\<rparr>)"

text \<open>A compaction from the reading of the history on, when the status has been written.\<close>

definition compact_history ::
    "store_api \<Rightarrow> string \<Rightarrow> string \<Rightarrow> usize \<Rightarrow> (ChatMessage list \<Rightarrow> string) \<Rightarrow> Session \<Rightarrow> CompactionMetadata store_act" where
  "compact_history A hp session_id keep_recent summary_fn session =
     and_then (attempt (read_raw_history_messages A hp session_id)) (\<lambda>r. case r of
        Inl e \<Rightarrow> restore_compaction_status_after_precommit_failure A session e
      | Inr raw_messages \<Rightarrow>
          (let messages = visible raw_messages
           in if length messages \<le> keep_recent then
                (let session = session\<lparr>ses_status := Active\<rparr>
                 in and_then (write_session_meta A session) (\<lambda>_.
                    return (sm_compaction (ses_metadata session))))
              else
                (let compact_count = length messages - keep_recent;
                     to_compact = take compact_count messages;
                     to_keep = drop compact_count messages;
                     summary = summary_fn to_compact
                 in and_then (on_disk draw) (\<lambda>i.
                    and_then (gets now_millis) (\<lambda>now.
                    and_then (attempt (rewrite_history_file_preserving_inbound_dedupe A hp session_id
                        (ChatMessage_new (sa_uuid A i) now session_id System summary # to_keep)
                        raw_messages to_compact)) (\<lambda>w. case w of
                       Inl e \<Rightarrow> restore_compaction_status_after_precommit_failure A session e
                     | Inr _ \<Rightarrow>
                         (let session = compacted_session now (length to_keep) compact_count summary session
                          in and_then (write_session_meta A session) (\<lambda>_.
                             and_then (update (update_cached session_id session)) (\<lambda>_.
                             return (sm_compaction (ses_metadata session)))))))))))"

definition compact_session ::
    "store_api \<Rightarrow> string \<Rightarrow> usize \<Rightarrow> (ChatMessage list \<Rightarrow> string) \<Rightarrow> CompactionMetadata store_act" where
  "compact_session A session_id keep_recent summary_fn =
     and_then (get_session A session_id) (\<lambda>session.
     if ses_status session = Archived then throw (AlreadyArchived session_id)
     else if ses_status session = Compacting then throw (CompactionInProgress session_id)
     else
       and_then (from_sum (session_history_path session_id)) (\<lambda>hp.
       and_then (io fs_try) (\<lambda>_.
       (let session = session\<lparr>ses_status := Compacting\<rparr>
        in and_then (write_session_meta A session) (\<lambda>_.
           compact_history A hp session_id keep_recent summary_fn session)))))"

definition auto_compact_if_needed ::
    "store_api \<Rightarrow> string \<Rightarrow> usize \<Rightarrow> (ChatMessage list \<Rightarrow> string) \<Rightarrow> CompactionMetadata option store_act" where
  "auto_compact_if_needed A session_id keep_recent summary_fn =
     and_then (get_session A session_id) (\<lambda>session.
     and_then (gets st_compact_threshold) (\<lambda>threshold.
     if ses_message_count session \<ge> threshold then
       and_then (compact_session A session_id keep_recent summary_fn) (\<lambda>c. return (Some c))
     else return None))"

subsection \<open>Archives\<close>

definition file_size :: "string \<Rightarrow> SessionStore \<Rightarrow> nat" where
  "file_size p s = (case contents (st_disk s) p of None \<Rightarrow> 0 | Some b \<Rightarrow> length b)"

text \<open>What becomes of the history file once the archive is written.\<close>

definition settle_archived_history :: "store_api \<Rightarrow> string \<Rightarrow> string \<Rightarrow> bool \<Rightarrow> ChatMessage list \<Rightarrow> unit store_act" where
  "settle_archived_history A hp session_id delete_history raw_messages =
     and_then (gets encryption_active) (\<lambda>active.
     if delete_history then
       and_then (remove_if_present hp) (\<lambda>_.
       and_then (io (delete_hmac_sidecar hp)) (\<lambda>_.
       update (\<lambda>s. mark_history_file_current session_id (forget_history session_id s))))
     else if active then
       rewrite_history_file_preserving_inbound_dedupe A hp session_id raw_messages raw_messages []
     else return ())"

definition archive_session :: "store_api \<Rightarrow> string \<Rightarrow> bool \<Rightarrow> ArchiveResult store_act" where
  "archive_session A session_id delete_history =
     and_then ensure_required_encryption_available (\<lambda>_.
     and_then (get_session A session_id) (\<lambda>session.
     if ses_status session = Archived then throw (AlreadyArchived session_id)
     else
       and_then (from_sum (session_history_path session_id)) (\<lambda>hp.
       and_then (io fs_try) (\<lambda>_.
       and_then ensure_archive_dir (\<lambda>_.
       and_then (read_raw_history_messages A hp session_id) (\<lambda>raw_messages.
       and_then (gets now_millis) (\<lambda>now.
       (let archived = \<lparr>as_session = session, as_messages = raw_messages, as_archived_at = now, as_version = 1\<rparr>
        in and_then (from_sum (archive_path session_id)) (\<lambda>ap.
           and_then (write_archive_file A ap session_id archived) (\<lambda>_.
           and_then (gets (file_size ap)) (\<lambda>archive_size.
           (let session = session\<lparr>ses_status := Archived, ses_updated_at := now\<rparr>
            in and_then (write_session_meta A session) (\<lambda>_.
               and_then (settle_archived_history A hp session_id delete_history raw_messages) (\<lambda>_.
               and_then (update (update_cached session_id session)) (\<lambda>_.
               return \<lparr>ar_session_id = session_id, ar_archive_path = ap, ar_message_count = length (visible raw_messages),
                       ar_archive_size = archive_size, ar_archived_at = now, ar_history_deleted = delete_history\<rparr>)))))))))))))))"

definition read_archive :: "store_api \<Rightarrow> string \<Rightarrow> string \<Rightarrow> ArchivedSession store_act" where
  "read_archive A session_id ap =
     and_then (io fs_try) (\<lambda>_.
     and_then (gets (\<lambda>s. contents (st_disk s) ap)) (\<lambda>c. case c of
        None \<Rightarrow> throw Io
      | Some content \<Rightarrow>
          and_then (map_err archive_read_error (verify_integrity_bytes A content ap)) (\<lambda>_ s.
          (case decode_archive A session_id s content of
             Inl e \<Rightarrow> (Inl (archive_read_error e), s)
           | Inr archived \<Rightarrow> (Inr archived, s)))))"

definition restore_session :: "store_api \<Rightarrow> string \<Rightarrow> nat store_act" where
  "restore_session A session_id =
     and_then ensure_required_encryption_available (\<lambda>_.
     and_then (get_session A session_id) (\<lambda>session.
     if ses_status session \<noteq> Archived then throw (NotArchived session_id)
     else
       and_then (from_sum (archive_path session_id)) (\<lambda>ap.
       and_then (gets (\<lambda>s. fs_exists ap (st_disk s))) (\<lambda>present.
       if \<not> present then throw (ArchiveNotFound session_id)
       else
         and_then (read_archive A session_id ap) (\<lambda>archived.
         and_then (from_sum (session_history_path session_id)) (\<lambda>hp.
         and_then (io fs_try) (\<lambda>_.
         and_then (rewrite_history_file_preserving_inbound_dedupe A hp session_id (as_messages archived)
             (as_messages archived) []) (\<lambda>_.
         and_then (gets now_millis) (\<lambda>now.
         (let message_count = length (visible (as_messages archived));
              session = session\<lparr>ses_status := Active, ses_message_count := message_count, ses_updated_at := now,
                                ses_last_activity_at := Some now\<rparr>
          in and_then (write_session_meta A session) (\<lambda>_.
             and_then (update (update_cached session_id session)) (\<lambda>_.
             return message_count))))))))))))"

definition list_archived_sessions :: "store_api \<Rightarrow> (Session \<times> nat option) list store_act" where
  "list_archived_sessions A =
     and_then (load_sessions_from_disk A) (\<lambda>_.
     gets (\<lambda>s. sort_key (\<lambda>(x, n). - ses_updated_at x)
       (List.map_filter (\<lambda>c. let x = ch_session c in
          if ses_status x \<noteq> Archived then None
          else (case archive_path (ses_id x) of
                  Inl _ \<Rightarrow> None
                | Inr ap \<Rightarrow> Some (x, map_option length (contents (st_disk s) ap))))
        (hm_values (st_sessions s)))))"

definition delete_archive :: "store_api \<Rightarrow> string \<Rightarrow> bool store_act" where
  "delete_archive A session_id =
     and_then ensure_required_encryption_available (\<lambda>_.
     and_then (get_session A session_id) (\<lambda>_.
     and_then (from_sum (archive_path session_id)) (\<lambda>ap.
     and_then (gets (\<lambda>s. fs_exists ap (st_disk s))) (\<lambda>existed.
     and_then (remove_if_present ap) (\<lambda>_.
     and_then (io (delete_hmac_sidecar ap)) (\<lambda>_.
     and_then (update (\<lambda>s. s\<lparr>st_archive_current_signatures := hm_remove session_id (st_archive_current_signatures s)\<rparr>)) (\<lambda>_.
     return existed)))))))"

definition get_archive_info :: "store_api \<Rightarrow> string \<Rightarrow> (string \<times> nat \<times> i64) option store_act" where
  "get_archive_info A session_id =
     and_then ensure_required_encryption_available (\<lambda>_.
     and_then (from_sum (archive_path session_id)) (\<lambda>ap.
     and_then (gets (\<lambda>s. fs_exists ap (st_disk s))) (\<lambda>present.
     if \<not> present then return None
     else
       and_then (io fs_try) (\<lambda>_.
       and_then (gets (file_size ap)) (\<lambda>size.
       and_then (read_archive A session_id ap) (\<lambda>archived.
       return (Some (ap, size, as_archived_at archived))))))))"

fun archive_each :: "store_api \<Rightarrow> bool \<Rightarrow> string list \<Rightarrow> ArchiveResult list store_act" where
  "archive_each A delete_history [] = return []"
| "archive_each A delete_history (i # is) =
     and_then (attempt (archive_session A i delete_history)) (\<lambda>r.
     and_then (archive_each A delete_history is) (\<lambda>rs.
     return (case r of Inl _ \<Rightarrow> rs | Inr x \<Rightarrow> x # rs)))"

definition archive_inactive_sessions :: "store_api \<Rightarrow> u32 \<Rightarrow> bool \<Rightarrow> ArchiveResult list store_act" where
  "archive_inactive_sessions A inactive_days delete_history =
     and_then (load_sessions_from_disk A) (\<lambda>_.
     and_then (gets (\<lambda>s.
        (let cutoff = now_millis s - int inactive_days * 24 * 60 * 60 * 1000
         in map (\<lambda>c. ses_id (ch_session c))
              (filter (\<lambda>c. ses_status (ch_session c) = Active \<and> ses_updated_at (ch_session c) < cutoff)
                (hm_values (st_sessions s)))))) (\<lambda>to_archive.
     archive_each A delete_history to_archive))"

end
