(* ===== verification/Session_Example.thy ===== *)
theory Session_Example
  imports Session_Store
begin

text \<open>
  A concrete codec, cipher and digest that satisfy the laws the session store relies on, so that its
  properties can be applied to a concrete store. Values are printed as digits \<^verbatim>\<open>0\<close> and \<^verbatim>\<open>1\<close> between braces:
  a number in unary, a list with its length first.
\<close>

subsection \<open>Printing and reading\<close>

type_synonym 'a reader = "string \<Rightarrow> ('a \<times> string) option"

definition reads :: "('a \<Rightarrow> string) \<Rightarrow> 'a reader \<Rightarrow> bool" where
  "reads p r \<longleftrightarrow> (\<forall>x rest. r (p x @ rest) = Some (x, rest)) \<and> (\<forall>x. set (p x) \<subseteq> {CHR ''0'', CHR ''1''})"

lemma readsD: "reads p r \<Longrightarrow> r (p x @ rest) = Some (x, rest)"
  and reads_set: "reads p r \<Longrightarrow> set (p x) \<subseteq> {CHR ''0'', CHR ''1''}"
  by (simp_all add: reads_def)

fun print_nat :: "nat \<Rightarrow> string" where
  "print_nat 0 = ''0''"
| "print_nat (Suc n) = CHR ''1'' # print_nat n"

fun read_nat :: "nat reader" where
  "read_nat [] = None"
| "read_nat (c # cs) =
     (if c = CHR ''0'' then Some (0, cs) else map_option (\<lambda>(n, s). (Suc n, s)) (read_nat cs))"

lemma reads_nat: "reads print_nat read_nat"
proof -
  have "read_nat (print_nat x @ rest) = Some (x, rest)" for x rest by (induction x) auto
  moreover have "set (print_nat x) \<subseteq> {CHR ''0'', CHR ''1''}" for x by (induction x) auto
  ultimately show ?thesis by (simp add: reads_def)
qed

lemma length_print_nat [simp]: "length (print_nat n) = Suc n"
  by (induction n) auto

definition read_via :: "('b \<Rightarrow> 'a) \<Rightarrow> 'b reader \<Rightarrow> 'a reader" where
  "read_via g r s = map_option (\<lambda>(x, s). (g x, s)) (r s)"

lemma reads_via: "reads p r \<Longrightarrow> (\<And>x. g (f x) = x) \<Longrightarrow> reads (\<lambda>x. p (f x)) (read_via g r)"
  by (simp add: reads_def read_via_def)

definition print_pair :: "('a \<Rightarrow> string) \<Rightarrow> ('b \<Rightarrow> string) \<Rightarrow> 'a \<times> 'b \<Rightarrow> string" where
  "print_pair p q x = p (fst x) @ q (snd x)"

definition read_pair :: "'a reader \<Rightarrow> 'b reader \<Rightarrow> ('a \<times> 'b) reader" where
  "read_pair r q s =
     (case r s of None \<Rightarrow> None | Some (x, s) \<Rightarrow> (case q s of None \<Rightarrow> None | Some (y, s) \<Rightarrow> Some ((x, y), s)))"

lemma reads_pair: "reads p r \<Longrightarrow> reads p' r' \<Longrightarrow> reads (print_pair p p') (read_pair r r')"
  by (auto simp: reads_def print_pair_def read_pair_def)

fun read_many :: "nat \<Rightarrow> 'a reader \<Rightarrow> 'a list reader" where
  "read_many 0 r s = Some ([], s)"
| "read_many (Suc n) r s =
     (case r s of None \<Rightarrow> None | Some (x, s) \<Rightarrow> map_option (\<lambda>(xs, s). (x # xs, s)) (read_many n r s))"

definition print_list :: "('a \<Rightarrow> string) \<Rightarrow> 'a list \<Rightarrow> string" where
  "print_list p xs = print_nat (length xs) @ concat (map p xs)"

definition read_list :: "'a reader \<Rightarrow> 'a list reader" where
  "read_list r s = (case read_nat s of None \<Rightarrow> None | Some (n, s) \<Rightarrow> read_many n r s)"

lemma read_many_print:
  "(\<And>x rest. x \<in> set xs \<Longrightarrow> r (p x @ rest) = Some (x, rest)) \<Longrightarrow>
   read_many (length xs) r (concat (map p xs) @ rest) = Some (xs, rest)"
  by (induction xs) auto

lemma read_list_print:
  "(\<And>x rest. x \<in> set xs \<Longrightarrow> r (p x @ rest) = Some (x, rest)) \<Longrightarrow> read_list r (print_list p xs @ rest) = Some (xs, rest)"
  by (simp add: read_list_def print_list_def readsD [OF reads_nat] read_many_print)

lemma reads_list: "reads p r \<Longrightarrow> reads (print_list p) (read_list r)"
  using read_list_print [of _ r p] reads_set [OF reads_nat]
  by (fastforce simp: reads_def print_list_def)

definition print_option :: "('a \<Rightarrow> string) \<Rightarrow> 'a option \<Rightarrow> string" where
  "print_option p x = print_list p (case x of None \<Rightarrow> [] | Some y \<Rightarrow> [y])"

definition read_option :: "'a reader \<Rightarrow> 'a option reader" where
  "read_option r = read_via (\<lambda>xs. if xs = [] then None else Some (hd xs)) (read_list r)"

lemma reads_option: "reads p r \<Longrightarrow> reads (print_option p) (read_option r)"
  unfolding print_option_def [abs_def] read_option_def
  by (rule reads_via [OF reads_list]) (auto split: option.splits)

definition print_int :: "int \<Rightarrow> string" where
  "print_int i = print_pair print_nat print_nat (nat i, nat (- i))"

definition read_int :: "int reader" where
  "read_int = read_via (\<lambda>(a, b). int a - int b) (read_pair read_nat read_nat)"

lemma reads_int: "reads print_int read_int"
  unfolding print_int_def [abs_def] read_int_def
  by (rule reads_via [OF reads_pair [OF reads_nat reads_nat]]) simp

definition print_string :: "string \<Rightarrow> string" where
  "print_string = print_list (\<lambda>c. print_nat (of_char c))"

definition read_string :: "string reader" where
  "read_string = read_list (read_via char_of read_nat)"

lemma reads_string: "reads print_string read_string"
  unfolding print_string_def read_string_def by (intro reads_list reads_via reads_nat) simp

subsection \<open>JSON values\<close>

fun print_value :: "Value \<Rightarrow> string" where
  "print_value Null = print_nat 0"
| "print_value (Bool b) = print_nat 1 @ print_nat (if b then 1 else 0)"
| "print_value (Number s) = print_nat 2 @ print_string s"
| "print_value (String s) = print_nat 3 @ print_string s"
| "print_value (Array vs) = print_nat 4 @ print_nat (length vs) @ concat (map print_value vs)"
| "print_value (Object fs) =
     print_nat 5 @ print_nat (length fs) @ concat (map (\<lambda>(k, v). print_string k @ print_value v) fs)"

fun read_value :: "nat \<Rightarrow> Value reader" where
  "read_value 0 s = None"
| "read_value (Suc n) s =
     (case read_nat s of
        None \<Rightarrow> None
      | Some (tag, s) \<Rightarrow>
          if tag = 0 then Some (Null, s)
          else if tag = 1 then read_via (\<lambda>b. Bool (b = 1)) read_nat s
          else if tag = 2 then read_via Number read_string s
          else if tag = 3 then read_via String read_string s
          else if tag = 4 then read_via Array (read_list (read_value n)) s
          else read_via Object (read_list (read_pair read_string (read_value n))) s)"


lemma length_concat_member: "x \<in> set xs \<Longrightarrow> length (p x) \<le> length (concat (map p xs))"
  by (induction xs) auto

lemma read_value_print: "length (print_value v) \<le> n \<Longrightarrow> read_value (Suc n) (print_value v @ rest) = Some (v, rest)"
proof (induction v arbitrary: n rest rule: print_value.induct)
  case (5 vs)
  have n: "read_value n (print_value x @ rest) = Some (x, rest)" if x: "x \<in> set vs" for x rest
  proof -
    have "length (print_value x) \<le> n - 1"
      using 5(2) length_concat_member [OF x, of print_value] by simp
    moreover have "n = Suc (n - 1)" using 5(2) by simp
    ultimately show ?thesis using 5(1) [OF x] by metis
  qed
  show ?case using read_list_print [of vs "read_value n" print_value, OF n]
    by (simp add: readsD [OF reads_nat] read_via_def print_list_def)
next
  case (6 fs)
  let ?p = "\<lambda>(k, v). print_string k @ print_value v"
  have n: "read_pair read_string (read_value n) (?p x @ rest) = Some (x, rest)" if x: "x \<in> set fs" for x rest
  proof -
    obtain k v where kv: "x = (k, v)" by (cases x)
    have "length (print_value v) \<le> n - 1"
      using 6(2) length_concat_member [OF x, of ?p] kv by simp
    moreover have "n = Suc (n - 1)" using 6(2) by simp
    ultimately have "read_value n (print_value v @ r) = Some (v, r)" for r using 6(1) [OF x] kv by metis
    then show ?thesis by (simp add: kv read_pair_def readsD [OF reads_string])
  qed
  show ?case using read_list_print [of fs "read_pair read_string (read_value n)" ?p, OF n]
    by (simp add: readsD [OF reads_nat] read_via_def print_list_def)
qed (simp_all add: readsD [OF reads_nat] readsD [OF reads_string] read_via_def)

lemma print_value_set: "set (print_value v) \<subseteq> {CHR ''0'', CHR ''1''}"
proof (induction v rule: print_value.induct)
  case (5 vs)
  then show ?case using reads_set [OF reads_nat] by (auto simp del: print_nat.simps)
next
  case (6 fs)
  then show ?case using reads_set [OF reads_nat] reads_set [OF reads_string] by (fastforce simp del: print_nat.simps)
qed (use reads_set [OF reads_nat] reads_set [OF reads_string] in \<open>auto simp del: print_nat.simps\<close>)

definition read_any_value :: "Value reader" where
  "read_any_value s = read_value (Suc (length s)) s"

lemma reads_value: "reads print_value read_any_value"
  using read_value_print print_value_set by (simp add: reads_def read_any_value_def)

subsection \<open>Messages, sessions and archives\<close>

fun status_number :: "SessionStatus \<Rightarrow> nat" where
  "status_number Active = 0" | "status_number Paused = 1" | "status_number Archived = 2" | "status_number Compacting = 3"
| "status_number Unknown_status = 4"

definition number_status :: "nat \<Rightarrow> SessionStatus" where
  "number_status n = (if n < 4 then [Active, Paused, Archived, Compacting] ! n else Unknown_status)"

lemma number_status [simp]: "number_status (status_number x) = x"
  by (cases x) (simp_all add: number_status_def)

fun role_number :: "MessageRole \<Rightarrow> nat" where
  "role_number User = 0" | "role_number Assistant = 1" | "role_number System = 2" | "role_number Tool = 3"
| "role_number Unknown_role = 4"

definition number_role :: "nat \<Rightarrow> MessageRole" where
  "number_role n = (if n < 4 then [User, Assistant, System, Tool] ! n else Unknown_role)"

lemma number_role [simp]: "number_role (role_number x) = x"
  by (cases x) (simp_all add: number_role_def)

lemmas reads_basic = reads_nat reads_int reads_string reads_value

definition print_message :: "ChatMessage \<Rightarrow> string" where
  "print_message m =
     print_pair print_string (print_pair print_string (print_pair print_nat (print_pair print_string
       (print_pair (print_option print_string) (print_pair (print_option print_string) (print_pair (print_option print_nat)
         (print_pair print_int (print_pair (print_option print_value) (print_list (print_pair print_string print_value))))))))))
       (cm_id m, cm_session_id m, role_number (cm_role m), cm_content m, cm_tool_call_id m, cm_tool_name m, cm_tokens m,
        cm_created_at m, cm_metadata m, cm_extra m)"

definition read_message :: "ChatMessage reader" where
  "read_message =
     read_via (\<lambda>(i, s, r, c, t, n, k, at, md, ex).
         \<lparr>cm_id = i, cm_session_id = s, cm_role = number_role r, cm_content = c, cm_tool_call_id = t, cm_tool_name = n,
          cm_tokens = k, cm_created_at = at, cm_metadata = md, cm_extra = ex\<rparr>)
       (read_pair read_string (read_pair read_string (read_pair read_nat (read_pair read_string
         (read_pair (read_option read_string) (read_pair (read_option read_string) (read_pair (read_option read_nat)
           (read_pair read_int (read_pair (read_option read_any_value) (read_list (read_pair read_string read_any_value)))))))))))"

lemma reads_message: "reads print_message read_message"
  unfolding print_message_def [abs_def] read_message_def
  by (rule reads_via) (intro reads_pair reads_option reads_list reads_basic, simp)

definition print_compaction :: "CompactionMetadata \<Rightarrow> string" where
  "print_compaction c =
     print_pair print_nat (print_pair (print_option print_int) (print_pair print_nat
       (print_pair (print_option print_string) print_nat)))
       (messages_compacted c, last_compacted_at c, compaction_count c, last_summary c, original_message_count c)"

definition read_compaction :: "CompactionMetadata reader" where
  "read_compaction =
     read_via (\<lambda>(a, b, c, d, e).
         \<lparr>messages_compacted = a, last_compacted_at = b, compaction_count = c, last_summary = d, original_message_count = e\<rparr>)
       (read_pair read_nat (read_pair (read_option read_int) (read_pair read_nat
         (read_pair (read_option read_string) read_nat))))"

lemma reads_compaction: "reads print_compaction read_compaction"
  unfolding print_compaction_def [abs_def] read_compaction_def
  by (rule reads_via) (intro reads_pair reads_option reads_list reads_basic, simp)

definition print_metadata :: "SessionMetadata \<Rightarrow> string" where
  "print_metadata m =
     print_pair (print_list (print_option print_string)) (print_pair (print_list print_string)
       (print_pair (print_option print_value) print_compaction))
       ([sm_name m, sm_description m, sm_agent_id m, sm_channel m, sm_chat_id m, sm_user_id m, sm_route m, sm_model m,
         sm_thinking_level m], sm_tags m, sm_extra m, sm_compaction m)"

definition read_metadata :: "SessionMetadata reader" where
  "read_metadata =
     read_via (\<lambda>(os, ts, ex, c).
         \<lparr>sm_name = os ! 0, sm_description = os ! 1, sm_agent_id = os ! 2, sm_channel = os ! 3, sm_chat_id = os ! 4,
          sm_user_id = os ! 5, sm_route = os ! 6, sm_model = os ! 7, sm_thinking_level = os ! 8, sm_tags = ts,
          sm_extra = ex, sm_compaction = c\<rparr>)
       (read_pair (read_list (read_option read_string)) (read_pair (read_list read_string)
         (read_pair (read_option read_any_value) read_compaction)))"

lemma reads_metadata: "reads print_metadata read_metadata"
  unfolding print_metadata_def [abs_def] read_metadata_def
  by (rule reads_via) (intro reads_pair reads_option reads_list reads_basic reads_compaction, simp)

definition print_session :: "Session \<Rightarrow> string" where
  "print_session x =
     print_pair print_string (print_pair print_string (print_pair print_nat (print_pair print_metadata
       (print_pair print_nat (print_pair print_int (print_pair print_int (print_option print_int)))))))
       (ses_id x, ses_key x, status_number (ses_status x), ses_metadata x, ses_message_count x, ses_created_at x,
        ses_updated_at x, ses_last_activity_at x)"

definition read_session :: "Session reader" where
  "read_session =
     read_via (\<lambda>(i, k, st, md, n, c, u, l).
         \<lparr>ses_id = i, ses_key = k, ses_status = number_status st, ses_metadata = md, ses_message_count = n,
          ses_created_at = c, ses_updated_at = u, ses_last_activity_at = l\<rparr>)
       (read_pair read_string (read_pair read_string (read_pair read_nat (read_pair read_metadata
         (read_pair read_nat (read_pair read_int (read_pair read_int (read_option read_int))))))))"

lemma reads_session: "reads print_session read_session"
  unfolding print_session_def [abs_def] read_session_def
  by (rule reads_via) (intro reads_pair reads_option reads_list reads_basic reads_metadata, simp)

definition print_archive :: "ArchivedSession \<Rightarrow> string" where
  "print_archive a =
     print_pair print_session (print_pair (print_list print_message) (print_pair print_int print_nat))
       (as_session a, as_messages a, as_archived_at a, as_version a)"

definition read_archived :: "ArchivedSession reader" where
  "read_archived =
     read_via (\<lambda>(s, ms, at, v). \<lparr>as_session = s, as_messages = ms, as_archived_at = at, as_version = v\<rparr>)
       (read_pair read_session (read_pair (read_list read_message) (read_pair read_int read_nat)))"

lemma reads_archive: "reads print_archive read_archived"
  unfolding print_archive_def [abs_def] read_archived_def
  by (rule reads_via) (intro reads_pair reads_list reads_basic reads_session reads_message, simp)

definition print_envelope :: "EncryptedEnvelope \<Rightarrow> string" where
  "print_envelope e = print_pair print_string (print_pair print_string print_string) (ee_format e, ee_n e, ee_c e)"

definition read_envelope :: "EncryptedEnvelope reader" where
  "read_envelope =
     read_via (\<lambda>(f, n, c). \<lparr>ee_format = f, ee_n = n, ee_c = c\<rparr>) (read_pair read_string (read_pair read_string read_string))"

lemma reads_envelope: "reads print_envelope read_envelope"
  unfolding print_envelope_def [abs_def] read_envelope_def
  by (rule reads_via) (intro reads_pair reads_basic, simp)

subsection \<open>The parameters\<close>

definition in_braces :: "('a \<Rightarrow> string) \<Rightarrow> 'a \<Rightarrow> bytes" where
  "in_braces p x = CHR ''{'' # p x @ ''}''"

definition out_of_braces :: "'a reader \<Rightarrow> bytes \<Rightarrow> 'a option" where
  "out_of_braces r b =
     (case b of
        [] \<Rightarrow> None
      | c # b \<Rightarrow> if c \<noteq> CHR ''{'' then None else (case r b of Some (x, s) \<Rightarrow> if s = ''}'' then Some x else None | None \<Rightarrow> None))"

lemma braces:
  assumes "reads p r"
  shows "out_of_braces r (in_braces p x) = Some x" and "json_line (in_braces p x)"
    and "\<not> has_encrypted_payload_prefix (in_braces p x)"
proof -
  show "out_of_braces r (in_braces p x) = Some x" by (simp add: out_of_braces_def in_braces_def readsD [OF assms])
  have "newline \<notin> set (p x)" using reads_set [OF assms, of x] by (auto simp: newline_def)
  then show "json_line (in_braces p x)"
    by (simp add: json_line_def in_braces_def newline_def is_ascii_whitespace_def)
  show "\<not> has_encrypted_payload_prefix (in_braces p x)"
    by (simp add: has_encrypted_payload_prefix_def SESSION_ENCRYPTED_PREFIX_V1_def in_braces_def starts_with_def)
qed

definition ex_cipher :: cipher_api where
  "ex_cipher =
     \<lparr>ca_hkdf = (\<lambda>k l. k @ l), ca_nonce = (\<lambda>_. Some (replicate 12 CHR ''n'')),
      ca_encrypt = (\<lambda>k n p a. Some (rev p)), ca_decrypt = (\<lambda>k n c a. Some (rev c)),
      ca_b64_encode = (\<lambda>b. b), ca_b64_decode = Some,
      ca_envelope_encode = in_braces print_envelope, ca_envelope_decode = out_of_braces read_envelope\<rparr>"

lemma cipher_ok_ex: "cipher_ok ex_cipher"
  by (simp add: cipher_ok_def ex_cipher_def NONCE_LEN_def braces [OF reads_envelope])

definition ex_api :: store_api where
  "ex_api =
     \<lparr>sa_digest = ex_digest, sa_cipher = ex_cipher, sa_sha256 = (\<lambda>b. b), sa_uuid = (\<lambda>n. ''id'' @ replicate n CHR ''x''),
      sa_session_pretty = in_braces print_session, sa_session_compact = in_braces print_session,
      sa_session_parse = out_of_braces read_session,
      sa_message_line = in_braces print_message, sa_message_parse = out_of_braces read_message,
      sa_archive_pretty = in_braces print_archive, sa_archive_compact = in_braces print_archive,
      sa_archive_parse = out_of_braces read_archived, sa_index_parse = (\<lambda>_. None)\<rparr>"

lemma ex_api_ok: "codec_ok ex_api" "cipher_ok (sa_cipher ex_api)" "digest_ok (sa_digest ex_api)"
proof -
  show "codec_ok ex_api"
    by (simp add: codec_ok_def ex_api_def braces [OF reads_session] braces [OF reads_message] braces [OF reads_archive])
  show "cipher_ok (sa_cipher ex_api)" "digest_ok (sa_digest ex_api)"
    by (simp_all add: ex_api_def cipher_ok_ex digest_ok_ex)
qed

end
