(* ===== verification/Session_History.thy ===== *)
theory Session_History
  imports Session_Example
begin

text \<open>
  Histories of the session store: what is appended is read back, and the streaming check for encrypted
  lines agrees with the definition by lines. \<open>stored\<close> is the list of messages in a history file, read
  without any access to the disk failing.
\<close>

subsection \<open>Lines\<close>

definition complete_lines :: "bytes \<Rightarrow> bool" where
  "complete_lines b \<longleftrightarrow> b = [] \<or> List.last b = newline"

lemma split_by_append:
  "P c \<Longrightarrow> split_by P (xs @ c # ys) = split_by P xs @ split_by P ys"
  by (induction xs) (auto split: list.splits)

lemma split_by_none: "\<forall>c \<in> set xs. \<not> P c \<Longrightarrow> split_by P xs = [xs]"
  by (induction xs) auto

lemma trim_Nil [simp]: "trim_ascii_whitespace [] = []"
  by (simp add: trim_ascii_whitespace_def)

lemma history_lines_Nil [simp]: "history_lines [] = []"
  by (simp add: history_lines_def)

lemma history_lines_append: "complete_lines b \<Longrightarrow> history_lines (b @ x) = history_lines b @ history_lines x"
proof (cases b rule: rev_cases)
  case (snoc ys c)
  assume "complete_lines b"
  with snoc have c: "c = newline" by (simp add: complete_lines_def)
  have "history_lines (ys @ newline # x) = history_lines (ys @ newline # []) @ history_lines x"
    by (simp add: history_lines_def split_by_append)
  with snoc c show ?thesis by simp
qed simp

lemma trim_json_line: "json_line l \<Longrightarrow> trim_ascii_whitespace l = l"
proof -
  assume l: "json_line l"
  have drop: "xs \<noteq> [] \<Longrightarrow> \<not> is_ascii_whitespace (hd xs) \<Longrightarrow> dropWhile is_ascii_whitespace xs = xs" for xs
    by (cases xs) auto
  from l drop [of l] drop [of "rev l"] show ?thesis
    by (simp add: trim_ascii_whitespace_def json_line_def hd_rev)
qed

lemma history_lines_line: "json_line l \<Longrightarrow> history_lines (l @ [newline]) = [l]"
proof -
  assume l: "json_line l"
  then have "split_by (\<lambda>c. c = newline) (l @ [newline]) = [l, []]"
    using split_by_append [of "\<lambda>c. c = newline" newline l "[]"] split_by_none [of l "\<lambda>c. c = newline"]
    by (auto simp: json_line_def)
  with trim_json_line [OF l] l show ?thesis by (simp add: history_lines_def json_line_def)
qed

text \<open>A text made of lines: reading it back gives exactly these lines.\<close>

definition join_lines :: "bytes list \<Rightarrow> bytes" where
  "join_lines ls = concat (map (\<lambda>l. l @ [newline]) ls)"

lemma complete_join [simp]: "complete_lines (join_lines ls)"
  by (cases ls rule: rev_cases) (simp_all add: complete_lines_def join_lines_def)

lemma complete_append [simp]: "complete_lines b \<Longrightarrow> complete_lines (b @ join_lines ls)"
  by (cases ls rule: rev_cases) (auto simp: complete_lines_def join_lines_def)

lemma history_lines_join: "list_all json_line ls \<Longrightarrow> history_lines (join_lines ls) = ls"
proof (induction ls)
  case Nil
  then show ?case by (simp add: join_lines_def)
next
  case (Cons l ls)
  have "history_lines (join_lines (l # ls)) = history_lines (l @ [newline]) @ history_lines (join_lines ls)"
    using history_lines_append [of "l @ [newline]" "join_lines ls"] by (simp add: join_lines_def complete_lines_def)
  with Cons history_lines_line show ?case by simp
qed

subsection \<open>The check for encrypted lines\<close>

text \<open>
  By lines: every line that has anything but white space before its end starts, after that white space,
  with the prefix of encrypted payloads.
\<close>

definition line_encrypted :: "bytes \<Rightarrow> bool" where
  "line_encrypted l \<longleftrightarrow>
     (let l = dropWhile is_ascii_whitespace l in l = [] \<or> has_encrypted_payload_prefix l)"

lemma starts_with_Cons [simp]: "starts_with (c # w) (p # ps) \<longleftrightarrow> c = p \<and> starts_with w ps"
  and starts_with_Nil [simp]: "starts_with w []" "\<not> starts_with [] (p # ps)"
  by (auto simp: starts_with_def)

lemma split_by_Cons_ex: "\<exists>w ws. split_by P b = w # ws"
  using split_by_not_Nil [of P b] by (cases "split_by P b") auto

lemma only_encrypted_invariant:
  defines "first \<equiv> \<lambda>b. hd (split_by (\<lambda>c. c = newline) b)"
    and "rest \<equiv> \<lambda>b. list_all line_encrypted (tl (split_by (\<lambda>c. c = newline) b))"
  shows "(only_encrypted_lines False 0 False b \<longleftrightarrow> line_encrypted (first b) \<and> rest b) \<and>
    (\<forall>k < length SESSION_ENCRYPTED_PREFIX_V1. only_encrypted_lines True k False b \<longleftrightarrow>
       starts_with (first b) (drop k SESSION_ENCRYPTED_PREFIX_V1) \<and> rest b) \<and>
    (\<forall>k. only_encrypted_lines True k True b \<longleftrightarrow> rest b)"
proof (induction b)
  case Nil
  have "\<not> starts_with [] (drop k SESSION_ENCRYPTED_PREFIX_V1)" if "k < length SESSION_ENCRYPTED_PREFIX_V1" for k
    using that by (cases "drop k SESSION_ENCRYPTED_PREFIX_V1") auto
  then show ?case by (simp add: first_def rest_def line_encrypted_def)
next
  case (Cons c b)
  obtain w ws where sp: "split_by (\<lambda>c. c = newline) b = w # ws" using split_by_Cons_ex by blast
  note IH = Cons.IH [unfolded first_def rest_def sp, simplified]
  have prefix: "drop k SESSION_ENCRYPTED_PREFIX_V1 = SESSION_ENCRYPTED_PREFIX_V1 ! k # drop (Suc k) SESSION_ENCRYPTED_PREFIX_V1"
    if "k < length SESSION_ENCRYPTED_PREFIX_V1" for k
    using that by (simp add: Cons_nth_drop_Suc)
  have cont: "only_encrypted_lines True (Suc k) (Suc k = length SESSION_ENCRYPTED_PREFIX_V1) b \<longleftrightarrow>
      starts_with w (drop (Suc k) SESSION_ENCRYPTED_PREFIX_V1) \<and> list_all line_encrypted ws"
    if "k < length SESSION_ENCRYPTED_PREFIX_V1" for k
    using that IH by (cases "Suc k = length SESSION_ENCRYPTED_PREFIX_V1") auto
  have pos: "0 < length SESSION_ENCRYPTED_PREFIX_V1" by (simp add: SESSION_ENCRYPTED_PREFIX_V1_def)
  show ?case
  proof (cases "c = newline")
    case True
    then have "split_by (\<lambda>c. c = newline) (c # b) = [] # w # ws" using sp by simp
    moreover have "\<not> starts_with [] (drop k SESSION_ENCRYPTED_PREFIX_V1)" if "k < length SESSION_ENCRYPTED_PREFIX_V1" for k
      using that by (cases "drop k SESSION_ENCRYPTED_PREFIX_V1") auto
    ultimately show ?thesis using True IH by (auto simp: first_def rest_def line_encrypted_def)
  next
    case False
    then have sp': "split_by (\<lambda>c. c = newline) (c # b) = (c # w) # ws" using sp by simp
    have start: "only_encrypted_lines True k False (c # b) \<longleftrightarrow>
        starts_with (c # w) (drop k SESSION_ENCRYPTED_PREFIX_V1) \<and> list_all line_encrypted ws"
      if "k < length SESSION_ENCRYPTED_PREFIX_V1" for k
      using that False cont [OF that] prefix [OF that] by auto
    have "only_encrypted_lines False 0 False (c # b) \<longleftrightarrow> line_encrypted (c # w) \<and> list_all line_encrypted ws"
    proof (cases "is_ascii_whitespace c")
      case True
      then show ?thesis using False IH by (simp add: line_encrypted_def)
    next
      case nows: False
      then have "only_encrypted_lines False 0 False (c # b) = only_encrypted_lines True 0 False (c # b)"
        using False by simp
      with start [OF pos] nows show ?thesis
        by (simp add: line_encrypted_def has_encrypted_payload_prefix_def)
    qed
    with start sp' False IH show ?thesis by (auto simp: first_def rest_def)
  qed
qed

lemma only_encrypted_lines_iff:
  "only_encrypted_lines False 0 False b \<longleftrightarrow> list_all line_encrypted (split_by (\<lambda>c. c = newline) b)"
proof -
  obtain w ws where "split_by (\<lambda>c. c = newline) b = w # ws" using split_by_Cons_ex by blast
  with only_encrypted_invariant [of b] show ?thesis by simp
qed

subsection \<open>Configuration\<close>

definition same_config :: "SessionStore \<Rightarrow> SessionStore \<Rightarrow> bool" where
  "same_config s s' \<longleftrightarrow>
     st_crypto s' = st_crypto s \<and> st_encryption_mode s' = st_encryption_mode s \<and> st_hmac_key s' = st_hmac_key s \<and>
     st_integrity_action s' = st_integrity_action s \<and> st_compact_threshold s' = st_compact_threshold s"

interpretation config: state_relation same_config
  by unfold_locales (simp_all add: same_config_def)

lemma same_config_active: "same_config s s' \<Longrightarrow> encryption_active s' = encryption_active s"
  by (simp add: same_config_def encryption_active_def)

lemma decode_payload_config:
  "same_config s s' \<Longrightarrow> decode_payload A parse i purpose s' = decode_payload A parse i purpose s"
  by (rule ext) (simp add: decode_payload_def same_config_def encryption_active_def)

lemma decode_history_config:
  "same_config s s' \<Longrightarrow> decode_history_message A i s' = decode_history_message A i s"
  by (simp add: decode_history_message_def decode_payload_config)

lemma decode_lines_config: "same_config s s' \<Longrightarrow> decode_lines A i s' ls = decode_lines A i s ls"
proof (induction ls)
  case (Cons l ls)
  show ?case unfolding decode_lines.simps decode_history_config [OF Cons.prems] Cons.IH [OF Cons.prems] ..
qed simp

lemma keeps_on_disk: "(\<And>s d. R s (s\<lparr>st_disk := d\<rparr>)) \<Longrightarrow> keeps R (on_disk m)"
  by (rule keepsI) (auto simp: on_disk_def split: prod.splits)

lemma config_on_disk: "keeps same_config (on_disk m)"
  by (rule keeps_on_disk) (simp add: same_config_def)

lemma config_io: "keeps same_config (io m)"
  unfolding io_def by (intro config.keeps_map_err config_on_disk)

lemma config_plain:
  "same_config s (mark_history_file_current i s)" "same_config s (clear_history_hmac_state i s)"
  "same_config s (invalidate_protected_inbound_dedupe_cache i s)" "same_config s (forget_dedupe_cache i s)"
  "same_config s (replace_protected_inbound_dedupe_cache i st es s)" "same_config s (cache_session x s)"
  "same_config s (update_cached i x s)" "same_config s (record_locked_session_entry i p s)"
  "same_config s (clear_locked_session_entry i s)" "same_config s (forget_history i s)"
  by (simp_all add: same_config_def mark_history_file_current_def clear_history_hmac_state_def
      invalidate_protected_inbound_dedupe_cache_def forget_dedupe_cache_def replace_protected_inbound_dedupe_cache_def
      cache_session_def update_cached_def record_locked_session_entry_def clear_locked_session_entry_def
      forget_history_def Let_def)

subsection \<open>The history of a session\<close>

text \<open>
  \<open>history_is A i ms s\<close>: the history file of session \<open>i\<close> holds exactly the messages \<open>ms\<close>, every line is complete,
  the sidecar holds the HMAC of the file when there is a key, and a running HMAC in the cache is that of the
  file; the identifier is valid, and the encryption context is there when it is required.
\<close>

definition hist :: "string \<Rightarrow> string" where
  "hist i = i @ ''.jsonl''"

definition history_is :: "store_api \<Rightarrow> string \<Rightarrow> ChatMessage list \<Rightarrow> SessionStore \<Rightarrow> bool" where
  "history_is A i ms s \<longleftrightarrow>
     validate_session_id i = Inr () \<and> (st_encryption_mode s = Required \<longrightarrow> st_crypto s \<noteq> None) \<and>
     (case contents (st_disk s) (hist i) of
        None \<Rightarrow> ms = []
      | Some b \<Rightarrow>
          length b \<le> SESSION_HISTORY_FILE_MAX_BYTES \<and> complete_lines b \<and> decode_lines A i s (history_lines b) = Inr ms \<and>
          (\<forall>k. st_hmac_key s = Some k \<longrightarrow>
             contents (st_disk s) (hmac_path (hist i)) = Some (encode_sidecar_hmac_v1 (sa_digest A) (da_mac (sa_digest A) k b)))) \<and>
     (\<forall>c. hm_get (st_history_hmac_states s) i = Some c \<longrightarrow>
        st_hmac_key s = Some (ah_key (hh_state c)) \<and> ah_fed (hh_state c) = old_bytes (st_disk s) (hist i))"

lemma history_path_hist: "session_history_path i = Inr p \<Longrightarrow> p = hist i"
  by (auto simp: session_history_path_def hist_def split: sum.splits)

text \<open>Names with different endings are different files.\<close>

definition ends_in :: "string \<Rightarrow> string \<Rightarrow> bool" where
  "ends_in e p \<longleftrightarrow> drop (length p - length e) p = e"

lemma ends_in_append [simp]: "ends_in e (p @ e)"
  by (simp add: ends_in_def)

lemma hist_inj [simp]: "hist i = hist j \<longleftrightarrow> i = j"
  by (simp add: hist_def)

lemma hmac_path_inj [simp]: "hmac_path p = hmac_path q \<longleftrightarrow> p = q"
  by (simp add: hmac_path_def)

lemma last_char:
  "List.last (hist i) = CHR ''l''" "List.last (hmac_path p) = CHR ''c''" "List.last (pending_hmac_path p) = CHR ''p''"
  by (simp_all add: hist_def hmac_path_def pending_hmac_path_def)

lemma other_files [simp]:
  "hmac_path p \<noteq> hist i" "pending_hmac_path p \<noteq> hist i" "hist i \<noteq> hmac_path p" "hist i \<noteq> pending_hmac_path p"
  "pending_hmac_path p \<noteq> hmac_path q" "hmac_path q \<noteq> pending_hmac_path p"
  by (rule notI, drule arg_cong [of _ _ List.last], simp add: last_char)+

definition history_files :: "string \<Rightarrow> string set" where
  "history_files i = {hist i, hmac_path (hist i)}"

lemma history_is_cong:
  assumes "history_is A i ms s" "same_config s s'"
    and "\<forall>p \<in> history_files i. contents (st_disk s') p = contents (st_disk s) p"
    and "hm_get (st_history_hmac_states s') i \<in> {hm_get (st_history_hmac_states s) i, None}"
  shows "history_is A i ms s'"
proof -
  have "st_hmac_key s' = st_hmac_key s" "st_encryption_mode s' = st_encryption_mode s" "st_crypto s' = st_crypto s"
    using assms(2) by (simp_all add: same_config_def)
  moreover have "contents (st_disk s') (hist i) = contents (st_disk s) (hist i)"
    "contents (st_disk s') (hmac_path (hist i)) = contents (st_disk s) (hmac_path (hist i))"
    using assms(3) by (simp_all add: history_files_def)
  moreover have "\<forall>c. hm_get (st_history_hmac_states s') i = Some c \<longrightarrow> hm_get (st_history_hmac_states s) i = Some c"
    using assms(4) by auto
  ultimately show ?thesis
    using assms(1) decode_lines_config [OF assms(2)]
    by (cases "contents (st_disk s) (hist i)") (auto simp: history_is_def old_bytes_def)
qed

subsection \<open>Operations that leave a history alone\<close>

named_theorems history_kept "actions that leave a history alone"

lemma kept_disk: "keeps (same_files S) m \<Longrightarrow> S \<inter> history_files i = {} \<Longrightarrow> holds (history_is A i ms) (on_disk m) (\<lambda>_. True)"
proof (rule holdsI)
  fix s r s' assume m: "keeps (same_files S) m" and S: "S \<inter> history_files i = {}" and s: "history_is A i ms s"
    and run: "on_disk m s = (r, s')"
  obtain d where d: "m (st_disk s) = (r, d)" "s' = s\<lparr>st_disk := d\<rparr>"
    using run by (auto simp: on_disk_def split: prod.splits)
  have "same_files S (st_disk s) d" using keepsD [OF m d(1)] .
  then have "\<forall>p \<in> history_files i. contents (st_disk s') p = contents (st_disk s) p"
    using S d(2) by (auto simp: same_files_def)
  with history_is_cong [OF s, of s'] d(2) show "history_is A i ms s' \<and> (\<forall>x. r = Inr x \<longrightarrow> True)"
    by (simp add: same_config_def)
qed

lemma kept_io: "keeps (same_files S) m \<Longrightarrow> S \<inter> history_files i = {} \<Longrightarrow> holds (history_is A i ms) (io m) (\<lambda>_. True)"
  unfolding io_def by (intro holds_map_err kept_disk)

lemma kept_update: "(\<And>s. same_config s (f s)) \<Longrightarrow> (\<And>s. contents (st_disk (f s)) = contents (st_disk s)) \<Longrightarrow>
    (\<And>s. hm_get (st_history_hmac_states (f s)) i \<in> {hm_get (st_history_hmac_states s) i, None}) \<Longrightarrow>
    holds (history_is A i ms) (update f) (\<lambda>_. True)"
  by (rule holds_update, erule history_is_cong) simp_all

lemma kept_fs_try [history_kept]: "holds (history_is A i ms) (io fs_try) (\<lambda>_. True)"
  by (rule kept_io [where S = "{}"]) (simp_all add: keeps_fs)

lemma kept_fs_read [history_kept]: "holds (history_is A i ms) (io (fs_read cap p)) (\<lambda>_. True)"
  by (rule kept_io [where S = "{}"]) (simp_all add: keeps_fs)

lemma kept_draw [history_kept]: "holds (history_is A i ms) (on_disk draw) (\<lambda>_. True)"
  by (rule kept_disk [where S = "{}"]) (simp_all add: keeps_fs)

lemma kept_plain [history_kept]:
  "holds (history_is A i ms) (update (mark_history_file_current j)) (\<lambda>_. True)"
  "holds (history_is A i ms) (update (clear_history_hmac_state j)) (\<lambda>_. True)"
  "holds (history_is A i ms) (update (invalidate_protected_inbound_dedupe_cache j)) (\<lambda>_. True)"
  "holds (history_is A i ms) (update (forget_dedupe_cache j)) (\<lambda>_. True)"
  "holds (history_is A i ms) (update (replace_protected_inbound_dedupe_cache j st es)) (\<lambda>_. True)"
  "holds (history_is A i ms) (update (cache_session x)) (\<lambda>_. True)"
  "holds (history_is A i ms) (update (update_cached j x)) (\<lambda>_. True)"
  "holds (history_is A i ms) (update (record_locked_session_entry j p)) (\<lambda>_. True)"
  "holds (history_is A i ms) (update (clear_locked_session_entry j)) (\<lambda>_. True)"
  by (rule kept_update, rule config_plain,
      simp add: mark_history_file_current_def clear_history_hmac_state_def invalidate_protected_inbound_dedupe_cache_def
      forget_dedupe_cache_def replace_protected_inbound_dedupe_cache_def cache_session_def update_cached_def
      record_locked_session_entry_def clear_locked_session_entry_def Let_def,
      simp add: mark_history_file_current_def clear_history_hmac_state_def invalidate_protected_inbound_dedupe_cache_def
      forget_dedupe_cache_def replace_protected_inbound_dedupe_cache_def cache_session_def update_cached_def
      record_locked_session_entry_def clear_locked_session_entry_def Let_def hm_simps)+

lemma keeps_case_action: "(a = Warn \<Longrightarrow> keeps R m) \<Longrightarrow> (a = Reject \<Longrightarrow> keeps R n) \<Longrightarrow> keeps R (case a of Warn \<Rightarrow> m | Reject \<Rightarrow> n)"
  by (cases a) simp_all

lemma verify_digest_files: "keeps (same_files {hmac_path p, pending_hmac_path p}) (verify_hmac_digest D computed p cfg)"
  unfolding verify_hmac_digest_def try_promote_pending_hmac_sidecar_def read_hmac_sidecar_def
  by (intro files.keeps_rules keeps_fs keeps_case_action) simp_all

text \<open>A file with a committed sidecar: verification changes nothing, whatever access fails.\<close>

lemma read_sidecar_run:
  assumes "read_hmac_sidecar q d = (r, d')"
  shows "contents d' = contents d" and "r = Inr x \<Longrightarrow> x = contents d q"
proof -
  have "keeps (same_files {}) (read_hmac_sidecar q)"
    unfolding read_hmac_sidecar_def by (intro files.keeps_rules keeps_fs)
  from keepsD [OF this assms] show c: "contents d' = contents d" by (auto simp: same_files_def)
  show "r = Inr x \<Longrightarrow> x = contents d q"
    using assms fs_try_run unfolding read_hmac_sidecar_def fs_read_def
    by (auto elim!: and_then_InrE simp: act_simps(1,2) split: option.splits if_splits)
qed

lemma verify_digest_committed:
  assumes "digest_ok D" "contents d (hmac_path p) = Some (encode_sidecar_hmac_v1 D (da_mac D k b))"
    and "verify_hmac_digest D (da_mac D k b) p cfg d = (r, d')"
  shows "contents d' = contents d"
proof -
  have parse: "parse_sidecar_hmac D (encode_sidecar_hmac_v1 D (da_mac D k b)) =
      Inr \<lparr>ps_hmac = da_mac D k b, ps_format = CurrentV1\<rparr>"
    using sidecar_roundtrip [OF assms(1) mac_length [OF assms(1)]] .
  obtain r1 d1 where rd: "read_hmac_sidecar (hmac_path p) d = (r1, d1)" by (cases "read_hmac_sidecar (hmac_path p) d")
  note c1 = read_sidecar_run [OF rd]
  show ?thesis
  proof (cases r1)
    case (Inl e)
    with rd c1 assms(3) show ?thesis by (auto simp: verify_hmac_digest_def act_simps)
  next
    case (Inr x)
    then have rd': "map_err io_err (read_hmac_sidecar (hmac_path p)) d = (Inr (Some (encode_sidecar_hmac_v1 D (da_mac D k b))), d1)"
      using c1(2) assms(2) rd by (simp add: map_err_def)
    have "verify_hmac_digest D (da_mac D k b) p cfg d = (Inr (), d1)"
      unfolding verify_hmac_digest_def and_then_Inr [where m = "map_err io_err (read_hmac_sidecar (hmac_path p))", OF rd']
      using parse assms(1) by (simp add: act_simps hmacs_match_def mac_length)
    with assms(3) c1(1) show ?thesis by simp
  qed
qed

lemma kept_integrity_result: "holds P (on_disk m) (\<lambda>_. True) \<Longrightarrow> holds P (handle_integrity_result m) (\<lambda>_. True)"
proof (rule holdsI)
  fix s r s' assume m: "holds P (on_disk m) (\<lambda>_. True)" and s: "P s" and run: "handle_integrity_result m s = (r, s')"
  obtain r1 s1 where o: "on_disk m s = (r1, s1)" by (cases "on_disk m s")
  from o run have "s' = s1"
    by (auto simp: handle_integrity_result_def split: sum.splits IntegrityError.splits if_splits)
  with holdsD [OF m s o] show "P s' \<and> (\<forall>x. r = Inr x \<longrightarrow> True)" by simp
qed

lemma verify_files:
  "keeps (same_files {hmac_path p, pending_hmac_path p}) (verify_hmac_file D key b p cfg)"
  "keeps (same_files {hmac_path p, pending_hmac_path p}) (verify_hmac_path D key p cfg)"
  unfolding verify_hmac_file_def verify_hmac_path_def
  by (intro files.keeps_rules keeps_fs verify_digest_files)+

lemma history_is_committed:
  "history_is A i ms s \<Longrightarrow> st_hmac_key s = Some k \<Longrightarrow> contents (st_disk s) (hist i) = Some b \<Longrightarrow>
   contents (st_disk s) (hmac_path (hist i)) = Some (encode_sidecar_hmac_v1 (sa_digest A) (da_mac (sa_digest A) k b))"
  by (simp add: history_is_def)

lemma history_is_disk:
  "history_is A i ms s \<Longrightarrow> contents d = contents (st_disk s) \<Longrightarrow> history_is A i ms (s\<lparr>st_disk := d\<rparr>)"
  by (erule history_is_cong) (simp_all add: same_config_def)

lemma verify_own_history:
  assumes ok: "digest_ok (sa_digest A)" and s: "history_is A i ms s" and b: "contents (st_disk s) (hist i) = Some b"
    and run: "verify_hmac_file (sa_digest A) k b (hist i) cfg (st_disk s) = (r, d')" and k: "st_hmac_key s = Some k"
  shows "history_is A i ms (s\<lparr>st_disk := d'\<rparr>)"
proof -
  have "contents d' = contents (st_disk s)"
    using run verify_digest_committed [OF ok history_is_committed [OF s k b]]
    by (auto simp: verify_hmac_file_def act_simps split: if_splits)
  with s show ?thesis by (rule history_is_disk)
qed

lemma kept_verify_bytes:
  assumes ok: "digest_ok (sa_digest A)" and s: "history_is A i ms s"
    and b: "p = hist i \<Longrightarrow> contents (st_disk s) p = Some b" and run: "verify_integrity_bytes A b p s = (r, s')"
  shows "history_is A i ms s'"
proof (cases "st_crypto s = None \<and> is_encrypted_payload (sa_cipher A) b \<or> st_hmac_key s = None")
  case True
  with run s show ?thesis by (auto simp: verify_integrity_bytes_def split: if_splits)
next
  case False
  then obtain k where k: "st_hmac_key s = Some k" by auto
  let ?v = "verify_hmac_file (sa_digest A) k b p (integrity_config s)"
  obtain r1 d1 where v: "?v (st_disk s) = (r1, d1)" by (cases "?v (st_disk s)")
  have "s' = s\<lparr>st_disk := d1\<rparr>"
    using run False k v by (auto simp: verify_integrity_bytes_def handle_integrity_result_def on_disk_def
        split: sum.splits IntegrityError.splits if_splits)
  moreover have "history_is A i ms (s\<lparr>st_disk := d1\<rparr>)"
  proof (cases "p = hist i")
    case True
    with verify_own_history [OF ok s _ _ k] b v show ?thesis by blast
  next
    case False
    have "same_files {hmac_path p, pending_hmac_path p} (st_disk s) d1" using keepsD [OF verify_files(1) v] .
    with False show ?thesis
      by (intro history_is_cong [OF s]) (auto simp: same_config_def same_files_def history_files_def)
  qed
  ultimately show ?thesis by simp
qed

lemma kept_verify_other [history_kept]:
  "digest_ok (sa_digest A) \<Longrightarrow> p \<noteq> hist i \<Longrightarrow> holds (history_is A i ms) (verify_integrity_bytes A b p) (\<lambda>_. True)"
  by (rule holdsI) (auto dest: kept_verify_bytes)

lemma verify_path_run:
  "verify_integrity_path A p s = (r, s') \<Longrightarrow>
   \<exists>d. s' = s\<lparr>st_disk := d\<rparr> \<and> same_files {hmac_path p, pending_hmac_path p} (st_disk s) d"
  by (auto simp: verify_integrity_path_def handle_integrity_result_def on_disk_def intro: exI [of _ "st_disk s"]
      dest: keepsD [OF verify_files(2)] split: option.splits prod.splits sum.splits IntegrityError.splits if_splits)

lemma verify_path_committed:
  assumes ok: "digest_ok (sa_digest A)" and run: "verify_integrity_path A p s = (r, s')"
    and com: "\<And>k b. st_hmac_key s = Some k \<Longrightarrow> contents (st_disk s) p = Some b \<Longrightarrow>
      contents (st_disk s) (hmac_path p) = Some (encode_sidecar_hmac_v1 (sa_digest A) (da_mac (sa_digest A) k b))"
  shows "\<exists>d. s' = s\<lparr>st_disk := d\<rparr> \<and> contents d = contents (st_disk s)"
proof (cases "st_hmac_key s")
  case None
  with run show ?thesis by (auto simp: verify_integrity_path_def intro: exI [of _ "st_disk s"])
next
  case (Some k)
  let ?v = "verify_hmac_path (sa_digest A) k p (integrity_config s)"
  obtain r1 d1 where v: "?v (st_disk s) = (r1, d1)" by (cases "?v (st_disk s)")
  have s': "s' = s\<lparr>st_disk := d1\<rparr>"
    using run Some v by (auto simp: verify_integrity_path_def handle_integrity_result_def on_disk_def
        split: sum.splits IntegrityError.splits if_splits)
  obtain r2 d2 where t: "fs_try (st_disk s) = (r2, d2)" by (cases "fs_try (st_disk s)")
  note c2 = fs_try_run [OF t]
  have "contents d1 = contents (st_disk s)"
  proof (cases "r2 = Inr () \<and> contents (st_disk s) p \<noteq> None")
    case False
    with v t c2 show ?thesis
      by (cases r2) (auto simp: verify_hmac_path_def integrity_config_def act_simps)
  next
    case True
    then obtain b where b: "contents (st_disk s) p = Some b" and r2: "r2 = Inr ()" by auto
    with v t c2 have "verify_hmac_digest (sa_digest A) (da_mac (sa_digest A) k b) p (integrity_config s) d2 = (r1, d1)"
      by (simp add: verify_hmac_path_def integrity_config_def act_simps)
    from verify_digest_committed [OF ok _ this] com [OF Some b] c2 show ?thesis by simp
  qed
  with s' show ?thesis by blast
qed

lemma kept_verify_path [history_kept]:
  assumes ok: "digest_ok (sa_digest A)"
  shows "holds (history_is A i ms) (verify_integrity_path A p) (\<lambda>_. True)"
proof (rule holdsI)
  fix s r s' assume s: "history_is A i ms s" and run: "verify_integrity_path A p s = (r, s')"
  show "history_is A i ms s' \<and> (\<forall>x. r = Inr x \<longrightarrow> True)"
  proof (cases "p = hist i")
    case False
    with verify_path_run [OF run] show ?thesis
      by (auto intro!: history_is_cong [OF s] simp: same_config_def same_files_def history_files_def)
  next
    case True
    with verify_path_committed [OF ok run] history_is_committed [OF s] history_is_disk [OF s] show ?thesis by auto
  qed
qed

lemma signature_files:
  "keeps (same_files S) (hmac_sidecar_sha256 A p)" "keeps (same_files S) (file_metadata q)"
  unfolding hmac_sidecar_sha256_def file_metadata_def by (intro files.keeps_rules keeps_fs)+

lemma artifact_signature_files: "keeps (same_files S) (artifact_file_signature A p)"
  unfolding artifact_file_signature_def by (intro files.keeps_rules signature_files)

lemma kept_signature [history_kept]:
  "holds (history_is A i ms) (on_disk (artifact_file_signature A' p)) (\<lambda>_. True)"
  "holds (history_is A i ms) (on_disk (hmac_sidecar_sha256 A' p)) (\<lambda>_. True)"
  "holds (history_is A i ms) (on_disk (file_metadata p)) (\<lambda>_. True)"
  using kept_disk [OF artifact_signature_files [of "{}"]] kept_disk [OF signature_files(1) [of "{}"]]
    kept_disk [OF signature_files(2) [of "{}"]] by simp_all

lemma kept_required [history_kept]: "holds (history_is A i ms) ensure_required_encryption_available (\<lambda>_. True)"
  by (rule holds_unchanged) (simp add: ensure_required_encryption_available_def)

lemma kept_dirs [history_kept]:
  "holds (history_is A i ms) ensure_base_dir (\<lambda>_. True)" "holds (history_is A i ms) ensure_archive_dir (\<lambda>_. True)"
  unfolding ensure_base_dir_def [abs_def] ensure_archive_dir_def [abs_def]
  by (rule holds_guard, intro stays_rules history_kept, rule kept_update, simp_all add: same_config_def)+

lemma kept_encode [history_kept]: "holds (history_is A i ms) (encode_payload A' j purpose x y) (\<lambda>_. True)"
proof (rule holdsI)
  fix s r s' assume s: "history_is A i ms s" and run: "encode_payload A' j purpose x y s = (r, s')"
  have "s' = s \<or> s' = s\<lparr>st_disk := (st_disk s)\<lparr>d_count := Suc (d_count (st_disk s))\<rparr>\<rparr>"
    using run by (auto simp: encode_payload_def on_disk_def draw_def act_simps split: option.splits if_splits)
  then show "history_is A i ms s' \<and> (\<forall>x. r = Inr x \<longrightarrow> True)" using s history_is_disk [OF s] by auto
qed

lemma kept_ensure_history [history_kept]:
  "digest_ok (sa_digest A) \<Longrightarrow> holds (history_is A i ms) (ensure_history_file_current A p j) (\<lambda>_. True)"
proof (rule holdsI)
  fix s r s' assume ok: "digest_ok (sa_digest A)" and s: "history_is A i ms s"
    and run: "ensure_history_file_current A p j s = (r, s')"
  let ?long = "and_then (verify_integrity_path A p) (\<lambda>_. and_then (io fs_try) (\<lambda>_.
      and_then (gets (\<lambda>s. contents (st_disk s) p)) (\<lambda>c. case c of None \<Rightarrow> throw Io
       | Some b \<Rightarrow> and_then (from_sum (ensure_history_reader_has_only_encrypted_payload_lines b)) (\<lambda>_.
           update (mark_history_file_current j)))))"
  have long: "holds (history_is A i ms) ?long (\<lambda>_. True)"
    by (intro stays_rules history_kept ok)
  have "s' = s \<or> s' = mark_history_file_current j s \<or> ?long s = (r, s')"
    using run by (auto simp: ensure_history_file_current_def split: if_splits)
  then show "history_is A i ms s' \<and> (\<forall>x. r = Inr x \<longrightarrow> True)"
    using s holdsD [OF long s] holdsD [OF kept_plain(1) s update_def] by blast
qed

lemma kept_signatures_cache:
  "holds (history_is A i ms) (update (\<lambda>s. s\<lparr>st_archive_current_signatures := f s\<rparr>)) (\<lambda>_. True)"
  "holds (history_is A i ms) (update (\<lambda>s. s\<lparr>st_locked_session_entries := g s\<rparr>)) (\<lambda>_. True)"
  "holds (history_is A i ms) (update (\<lambda>s. s\<lparr>st_sessions := h s\<rparr>)) (\<lambda>_. True)"
  "holds (history_is A i ms) (update (\<lambda>s. s\<lparr>st_dedupe_cache := k s\<rparr>)) (\<lambda>_. True)"
  "holds (history_is A i ms) (update (\<lambda>s. if c s then s else s\<lparr>st_sessions := l s\<rparr>)) (\<lambda>_. True)"
  by (rule kept_update, simp_all add: same_config_def)+

lemmas [history_kept] = kept_signatures_cache

lemma kept_archive_current [history_kept]:
  assumes "digest_ok (sa_digest A)"
  shows "holds (history_is A i ms) (ensure_archive_file_current A j) (\<lambda>_. True)"
  unfolding ensure_archive_file_current_def [abs_def] file_starts_with_encrypted_payload_prefix_def
  by (rule holds_guard) (intro stays_rules history_kept assms)

lemma kept_artifacts_current [history_kept]:
  assumes "digest_ok (sa_digest A)"
  shows "holds (history_is A i ms) (ensure_session_artifacts_current A x) (\<lambda>_. True)"
  unfolding ensure_session_artifacts_current_def [abs_def]
  by (rule holds_guard) (intro stays_rules history_kept assms)

lemma replace_sealed_files: "keeps (same_files {p, hmac_path p, pending_hmac_path p}) (replace_sealed D key p b)"
  unfolding replace_sealed_def prepare_pending_hmac_file_def write_pending_hmac_payload_def commit_pending_hmac_sidecar_def
  by (intro files.keeps_rules keeps_fs) simp_all

lemma meta_path_neq: "session_meta_path j = Inr p \<Longrightarrow> p \<noteq> hist i \<and> p \<noteq> hmac_path q \<and> p \<noteq> pending_hmac_path q"
proof -
  assume "session_meta_path j = Inr p"
  then have "p = j @ ''.json''" by (auto simp: session_meta_path_def split: sum.splits)
  then have "List.last p = CHR ''n''" by simp
  then show ?thesis using last_char(1) [of i] last_char(2,3) [of q] by auto
qed

lemma kept_replace:
  "p \<noteq> hist i \<Longrightarrow> p \<noteq> hmac_path (hist i) \<Longrightarrow> holds (history_is A i ms) (io (replace_sealed D key p b)) (\<lambda>_. True)"
  by (rule kept_io [OF replace_sealed_files]) (auto simp: history_files_def)

lemma kept_write_meta [history_kept]: "holds (history_is A i ms) (write_session_meta A' x) (\<lambda>_. True)"
proof -
  have "holds (history_is A i ms) (from_sum (session_meta_path (ses_id x))) (\<lambda>p. p \<noteq> hist i \<and> p \<noteq> hmac_path (hist i))"
    using meta_path_neq by (auto intro!: holds_from_sum)
  then show ?thesis
    unfolding write_session_meta_def encode_session_metadata_def
    by (intro stays_and_then history_kept holds_and_then [OF \<open>holds _ (from_sum _) _\<close>] stays_basic kept_replace) auto
qed

lemma kept_load [history_kept]:
  assumes ok: "digest_ok (sa_digest A)"
  shows "holds (history_is A i ms) (load_session_with_locked_tracking A j u) (\<lambda>_. True)"
proof -
  have "holds (history_is A i ms) (from_sum (session_meta_path j)) (\<lambda>p. p \<noteq> hist i)"
    using meta_path_neq by (auto intro!: holds_from_sum)
  then show ?thesis
    unfolding load_session_with_locked_tracking_def
    by (intro stays_and_then [where m = ensure_required_encryption_available] history_kept holds_and_then [OF \<open>holds _ (from_sum _) _\<close>])
       (intro stays_rules history_kept ok)
qed

lemma kept_load_session [history_kept]:
  "digest_ok (sa_digest A) \<Longrightarrow> holds (history_is A i ms) (load_session A j) (\<lambda>_. True)"
  unfolding load_session_def by (rule kept_load)

lemma kept_get_session [history_kept]:
  "digest_ok (sa_digest A) \<Longrightarrow> holds (history_is A i ms) (get_session A j) (\<lambda>_. True)"
  unfolding get_session_def by (intro stays_rules history_kept)

lemma holds_case_error:
  "(\<And>j. e = NotFound j \<Longrightarrow> holds P (f j) V) \<Longrightarrow> holds P (case e of NotFound j \<Rightarrow> f j | e' \<Rightarrow> throw e') V"
  by (cases e) (simp_all add: holds_throw)

lemma kept_check_writable [history_kept]:
  "digest_ok (sa_digest A) \<Longrightarrow> holds (history_is A i ms) (check_writable A j) (\<lambda>_. True)"
  unfolding check_writable_def by (intro stays_rules history_kept holds_case_error)

lemma kept_flush [history_kept]: "holds (history_is A i ms) (flush_session A' j) (\<lambda>_. True)"
  unfolding flush_session_def by (intro stays_rules history_kept)

lemma kept_increment [history_kept]:
  "digest_ok (sa_digest A) \<Longrightarrow> holds (history_is A i ms) (increment_message_count A j) (\<lambda>_. True)"
  unfolding increment_message_count_def
  by (intro stays_rules history_kept)

subsection \<open>Appending\<close>

lemma decode_lines_append:
  "decode_lines A i s xs = Inr ms \<Longrightarrow> decode_lines A i s ys = Inr ns \<Longrightarrow> decode_lines A i s (xs @ ys) = Inr (ms @ ns)"
proof (induction xs arbitrary: ms)
  case (Cons l xs)
  show ?case
  proof (cases "decode_history_message A i s l")
    case (Inr m)
    with Cons show ?thesis by (auto split: sum.splits)
  next
    case (Inl e)
    with Cons show ?thesis by (cases e) (auto simp: Let_def split: if_splits)
  qed
qed simp

text \<open>An encoded message is one line, and decoding the line gives the message back.\<close>

lemma encode_history_line:
  assumes ok: "codec_ok A" "cipher_ok (sa_cipher A)" and run: "encode_history_message A m s = (Inr b, s')"
  shows "json_line b" and "decode_history_message A (cm_session_id m) s b = Inr m"
proof -
  have parse: "sa_message_parse A (sa_message_line A m) = Some m" "json_line (sa_message_line A m)"
    "\<not> has_encrypted_payload_prefix (sa_message_line A m)"
    using ok(1) by (simp_all add: codec_ok_def)
  have "json_line b \<and> decode_history_message A (cm_session_id m) s b = Inr m"
  proof (cases "encryption_active s")
    case False
    then have "b = sa_message_line A m"
      using run by (auto simp: encode_history_message_def encode_payload_def split: option.splits)
    with parse False show ?thesis by (simp add: decode_history_message_def decode_payload_def)
  next
    case True
    then obtain ctx where ctx: "st_crypto s = Some ctx" by (auto simp: encryption_active_def)
    with True run obtain n where
      enc: "encrypt_bytes (sa_cipher A) ctx n (cm_session_id m) ''history'' (sa_message_line A m) = Inr b"
      by (auto simp: encode_history_message_def encode_payload_def on_disk_def draw_def act_simps split: sum.splits)
    from encrypt_is_line [OF ok(2) enc] decrypt_encrypt [OF ok(2) enc] ctx parse(1) show ?thesis
      by (simp add: decode_history_message_def decode_payload_def)
  qed
  then show "json_line b" "decode_history_message A (cm_session_id m) s b = Inr m" by auto
qed

lemma config_encode: "keeps same_config (encode_payload A j purpose x y)"
  by (rule keepsI) (auto simp: encode_payload_def on_disk_def draw_def act_simps same_config_def
      split: option.splits if_splits)

lemma encode_messages_lines:
  assumes ok: "codec_ok A" "cipher_ok (sa_cipher A)" and ids: "list_all (\<lambda>m. cm_session_id m = i) ms"
    and run: "encode_messages A ms s = (Inr b, s')"
  shows "\<exists>ls. b = join_lines ls \<and> list_all json_line ls \<and> decode_lines A i s ls = Inr ms"
  using ids run
proof (induction ms arbitrary: b s)
  case Nil
  then have "b = []" by (simp add: act_simps)
  then show ?case by (intro exI [of _ "[]"]) (simp add: join_lines_def)
next
  case (Cons m ms)
  from Cons.prems(2) obtain l t rest where l: "encode_history_message A m s = (Inr l, t)"
    and rest: "encode_messages A ms t = (Inr rest, s')" and b: "b = l @ [newline] @ rest"
    by (auto elim!: and_then_InrE simp: act_simps(1))
  obtain ls where ls: "rest = join_lines ls" "list_all json_line ls" "decode_lines A i t ls = Inr ms"
    using Cons.IH [OF _ rest] Cons.prems(1) by auto
  have "same_config s t" using l keepsD [OF config_encode] by (auto simp: encode_history_message_def)
  then have "decode_lines A i s ls = Inr ms" using ls(3) decode_lines_config by metis
  moreover have "b = join_lines (l # ls)" using b ls(1) by (simp add: join_lines_def)
  ultimately show ?case
    using encode_history_line [OF ok l] ls(2) Cons.prems(1) by (intro exI [of _ "l # ls"]) simp
qed

text \<open>Looking at the disk and the caches: the files stay, and a running HMAC can only be dropped.\<close>

definition calm :: "string \<Rightarrow> SessionStore \<Rightarrow> SessionStore \<Rightarrow> bool" where
  "calm i s s' \<longleftrightarrow> same_config s s' \<and> contents (st_disk s') = contents (st_disk s) \<and>
     hm_get (st_history_hmac_states s') i \<in> {hm_get (st_history_hmac_states s) i, None}"

interpretation calm: state_relation "calm i"
  by unfold_locales (auto simp: calm_def intro: config.trans)

lemma calm_history: "calm i s s' \<Longrightarrow> history_is A i ms s \<Longrightarrow> history_is A i ms s'"
  by (erule history_is_cong) (auto simp: calm_def)

lemma calm_disk: "keeps (same_files {}) m \<Longrightarrow> keeps (calm i) (on_disk m)"
  by (rule keepsI) (auto simp: on_disk_def calm_def same_config_def same_files_def dest!: keepsD split: prod.splits)

lemma calm_io: "keeps (same_files {}) m \<Longrightarrow> keeps (calm i) (io m)"
  unfolding io_def by (intro calm.keeps_map_err calm_disk)

lemma calm_clear: "keeps (calm i) (update (clear_history_hmac_state j))"
  by (rule calm.keeps_update) (auto simp: calm_def same_config_def clear_history_hmac_state_def hm_simps)

lemma read_sidecar_files: "keeps (same_files S) (read_hmac_sidecar q)"
  unfolding read_hmac_sidecar_def by (intro files.keeps_rules keeps_fs)

lemma matches_files: "keeps (same_files S) (sidecar_matches_state D p st)"
  unfolding sidecar_matches_state_def by (intro files.keeps_rules read_sidecar_files)

lemma keeps_case_bool: "keeps R m \<Longrightarrow> keeps R n \<Longrightarrow> keeps R (case b of True \<Rightarrow> m | False \<Rightarrow> n)"
  by (cases b) simp_all

lemma cached_hmac_calm: "keeps (calm i) (cached_history_hmac_state_for_append A j p)"
  unfolding cached_history_hmac_state_for_append_def
  by (intro calm.keeps_rules calm_disk calm_clear artifact_signature_files matches_files keeps_case_bool)

lemma and_then_gets: "and_then (gets g) f s = f (g s) s"
  by (simp add: act_simps)

lemma cached_hmac_result:
  assumes "cached_history_hmac_state_for_append A i p s = (Inr (Some st), s')"
  shows "\<exists>c. hm_get (st_history_hmac_states s) i = Some c \<and> st = hh_state c"
  using assms unfolding cached_history_hmac_state_for_append_def
  by (auto elim!: and_then_InrE simp: act_simps(1,3,4) split: option.splits if_splits sum.splits bool.splits)

text \<open>Staging the HMAC of the file with the new lines, from the running HMAC or from the file itself.\<close>

lemma prepare_with_state_run:
  assumes "prepare_pending_hmac_file_for_appended_bytes_with_state D p st b d = (Inr st', d')"
  shows "st' = AppendHmacState_extend st b" and "\<forall>q. q \<noteq> pending_hmac_path p \<longrightarrow> contents d' q = contents d q"
    and "contents d' (pending_hmac_path p) = Some (sidecar_payload D st')"
proof -
  let ?st = "AppendHmacState_extend st b"
  from assms have w: "write_pending_hmac_payload p (sidecar_payload D ?st) d = (Inr (), d')" and st: "st' = ?st"
    unfolding prepare_pending_hmac_file_for_appended_bytes_with_state_def Let_def
    by (auto elim!: and_then_InrE simp: act_simps(1))
  from write_pending_run [OF w] st show "st' = ?st" "\<forall>q. q \<noteq> pending_hmac_path p \<longrightarrow> contents d' q = contents d q"
    "contents d' (pending_hmac_path p) = Some (sidecar_payload D st')" by auto
qed

lemma from_path_run:
  "AppendHmacState_from_path key p d = (Inr st, d') \<Longrightarrow>
   st = \<lparr>ah_key = key, ah_fed = old_bytes d p\<rparr> \<and> contents d' = contents d"
  unfolding AppendHmacState_from_path_def
  by (auto elim!: and_then_InrE simp: act_simps(4) old_bytes_def dest: fs_try_run)

lemma io_run: "io m s = (Inr x, s') \<Longrightarrow> \<exists>d. m (st_disk s) = (Inr x, d) \<and> s' = s\<lparr>st_disk := d\<rparr>"
  by (auto simp: io_def map_err_def on_disk_def split: prod.splits sum.splits)

lemma prepare_append_run:
  assumes "prepare_history_hmac_for_appended_bytes A p b i s = (Inr r, s')" "p = hist i" "history_is A i ms s"
  shows "same_config s s'" "\<forall>q. q \<noteq> pending_hmac_path p \<longrightarrow> contents (st_disk s') q = contents (st_disk s) q"
    and "st_hmac_key s = None \<Longrightarrow> r = None"
    and "st_hmac_key s = Some k \<Longrightarrow> r = Some \<lparr>ah_key = k, ah_fed = old_bytes (st_disk s) p @ b\<rparr> \<and>
      contents (st_disk s') (pending_hmac_path p) =
        Some (encode_sidecar_hmac_v1 (sa_digest A) (da_mac (sa_digest A) k (old_bytes (st_disk s) p @ b)))"
    and "hm_get (st_history_hmac_states s') i \<in> {hm_get (st_history_hmac_states s) i, None}"
proof -
  let ?D = "sa_digest A" and ?old = "old_bytes (st_disk s) p"
  have "same_config s s' \<and> (\<forall>q. q \<noteq> pending_hmac_path p \<longrightarrow> contents (st_disk s') q = contents (st_disk s) q) \<and>
    (st_hmac_key s = None \<longrightarrow> r = None) \<and>
    (\<forall>k. st_hmac_key s = Some k \<longrightarrow> r = Some \<lparr>ah_key = k, ah_fed = ?old @ b\<rparr> \<and>
      contents (st_disk s') (pending_hmac_path p) = Some (encode_sidecar_hmac_v1 ?D (da_mac ?D k (?old @ b)))) \<and>
    hm_get (st_history_hmac_states s') i \<in> {hm_get (st_history_hmac_states s) i, None}"
  proof (cases "st_hmac_key s")
    case None
    then show ?thesis using assms(1)
      by (simp add: prepare_history_hmac_for_appended_bytes_def act_simps)
  next
    case (Some k)
    have "and_then (cached_history_hmac_state_for_append A i p) (\<lambda>cached. and_then (io (case cached of
          Some st \<Rightarrow> prepare_pending_hmac_file_for_appended_bytes_with_state ?D p st b
        | None \<Rightarrow> prepare_pending_hmac_file_for_appended_bytes ?D k p b)) (\<lambda>st. return (Some st))) s = (Inr r, s')"
      using assms(1) Some by (simp add: prepare_history_hmac_for_appended_bytes_def and_then_gets)
    then obtain cached t st u where
      c: "cached_history_hmac_state_for_append A i p s = (Inr cached, t)"
      and prep: "io (case cached of
          Some st \<Rightarrow> prepare_pending_hmac_file_for_appended_bytes_with_state ?D p st b
        | None \<Rightarrow> prepare_pending_hmac_file_for_appended_bytes ?D k p b) t = (Inr st, u)"
      and r: "r = Some st" "s' = u"
      by (auto elim!: and_then_InrE simp: act_simps(1))
    have calm: "calm i s t" using keepsD [OF cached_hmac_calm c] .
    have old: "old_bytes (st_disk t) p = ?old" using calm by (simp add: calm_def old_bytes_def)
    obtain st0 d0 d where base: "st0 = \<lparr>ah_key = k, ah_fed = ?old\<rparr>" "contents d0 = contents (st_disk t)"
      and stage: "prepare_pending_hmac_file_for_appended_bytes_with_state ?D p st0 b d0 = (Inr st, d)"
      and u: "u = t\<lparr>st_disk := d\<rparr>"
    proof (cases cached)
      case None
      with io_run [OF prep] obtain d where u: "u = t\<lparr>st_disk := d\<rparr>"
        and "prepare_pending_hmac_file_for_appended_bytes ?D k p b (st_disk t) = (Inr st, d)" by auto
      then obtain st0 d0 where i: "AppendHmacState_from_path k p (st_disk t) = (Inr st0, d0)"
        and stage: "prepare_pending_hmac_file_for_appended_bytes_with_state ?D p st0 b d0 = (Inr st, d)"
        unfolding prepare_pending_hmac_file_for_appended_bytes_def by (elim and_then_InrE)
      from from_path_run [OF i] old have "st0 = \<lparr>ah_key = k, ah_fed = ?old\<rparr>" "contents d0 = contents (st_disk t)" by auto
      from that [OF this stage u] show thesis .
    next
      case (Some st0)
      with io_run [OF prep] obtain d where u: "u = t\<lparr>st_disk := d\<rparr>"
        and stage: "prepare_pending_hmac_file_for_appended_bytes_with_state ?D p st0 b (st_disk t) = (Inr st, d)" by auto
      from cached_hmac_result [OF c [unfolded Some]] obtain e where
        e: "hm_get (st_history_hmac_states s) i = Some e" "st0 = hh_state e" by blast
      with assms(2,3) \<open>st_hmac_key s = Some k\<close> have "st0 = \<lparr>ah_key = k, ah_fed = ?old\<rparr>"
        by (auto simp: history_is_def)
      from that [OF this refl stage u] show thesis .
    qed
    note w = prepare_with_state_run [OF stage]
    have st: "st = \<lparr>ah_key = k, ah_fed = ?old @ b\<rparr>" using w(1) base(1) by (simp add: AppendHmacState_extend_def)
    with Some r u w(2,3) base(2) calm show ?thesis
      by (auto simp: calm_def same_config_def sidecar_payload_def state_hmac_def)
  qed
  then show "same_config s s'" "\<forall>q. q \<noteq> pending_hmac_path p \<longrightarrow> contents (st_disk s') q = contents (st_disk s) q"
    "st_hmac_key s = None \<Longrightarrow> r = None"
    "st_hmac_key s = Some k \<Longrightarrow> r = Some \<lparr>ah_key = k, ah_fed = ?old @ b\<rparr> \<and>
      contents (st_disk s') (pending_hmac_path p) = Some (encode_sidecar_hmac_v1 ?D (da_mac ?D k (?old @ b)))"
    "hm_get (st_history_hmac_states s') i \<in> {hm_get (st_history_hmac_states s) i, None}" by auto
qed

lemma commit_run_ok:
  assumes "commit_pending_hmac_sidecar p d = (Inr (), d')" "contents d (pending_hmac_path p) = Some x"
  shows "contents d' = (contents d)(hmac_path p \<mapsto> x, pending_hmac_path p := None)"
  using commit_run [OF assms] by simp

lemma append_within:
  "\<not> u64_saturating_add n m > SESSION_HISTORY_FILE_MAX_BYTES - APPEND_HEADROOM \<Longrightarrow> n + m \<le> SESSION_HISTORY_FILE_MAX_BYTES"
  by (simp add: u64_saturating_add_def u64_max_def SESSION_HISTORY_FILE_MAX_BYTES_def APPEND_HEADROOM_def min_def
      split: if_splits)

lemma store_hmac_run:
  assumes "store_history_hmac_state A i p st s = (Inr x, s')"
  shows "same_config s s'" and "contents (st_disk s') = contents (st_disk s)"
    and "\<forall>c. hm_get (st_history_hmac_states s') i = Some c \<longrightarrow> hh_state c = st"
proof -
  from assms obtain sg t where g: "on_disk (artifact_file_signature A p) s = (Inr sg :: SessionStoreError + CachedArtifactSignature option, t)"
    and u: "(case sg of None \<Rightarrow> update (clear_history_hmac_state i)
      | Some sg \<Rightarrow> update (\<lambda>s. s\<lparr>st_history_hmac_states :=
            hm_insert i \<lparr>hh_state = st, hh_signature = sg\<rparr> (st_history_hmac_states s)\<rparr>)) t = (Inr x :: SessionStoreError + unit, s')"
    unfolding store_history_hmac_state_def by (rule and_then_InrE)
  have c: "calm i s t" using keepsD [OF calm_disk [OF artifact_signature_files] g] .
  show "same_config s s'" "contents (st_disk s') = contents (st_disk s)"
    using u c by (auto simp: act_simps calm_def same_config_def clear_history_hmac_state_def split: option.splits)
  show "\<forall>c. hm_get (st_history_hmac_states s') i = Some c \<longrightarrow> hh_state c = st"
    using u by (auto simp: act_simps clear_history_hmac_state_def hm_simps split: option.splits)
qed

lemma history_len_run:
  "history_len p s = (Inr n, s') \<Longrightarrow> calm i s s' \<and> n = length (old_bytes (st_disk s) p)"
proof -
  assume run: "history_len p s = (Inr n, s')"
  have "keeps (calm i) (history_len p)"
    unfolding history_len_def by (intro calm.keeps_rules calm_io keeps_fs)
  from keepsD [OF this run] have c: "calm i s s'" .
  have "n = length (old_bytes (st_disk s') p)"
    using run unfolding history_len_def
    by (auto elim!: and_then_InrE simp: act_simps(4) old_bytes_def split: option.splits)
  with c show ?thesis by (simp add: calm_def old_bytes_def)
qed

lemma append_bytes_run:
  assumes ok: "digest_ok (sa_digest A)" and h: "history_is A i ms s"
    and ls: "list_all json_line ls" "decode_lines A i s ls = Inr ns"
    and run: "append_bytes A (hist i) i (join_lines ls) s = (Inr (), s')"
  shows "history_is A i (ms @ ns) s'"
    and "contents (st_disk s') (hist i) = Some (old_bytes (st_disk s) (hist i) @ join_lines ls)"
proof -
  let ?D = "sa_digest A" and ?p = "hist i" and ?b = "join_lines ls" and ?old = "old_bytes (st_disk s) (hist i)"
  from run obtain n s1 r s2 s3 s4 s5 where
    len: "history_len ?p s = (Inr n, s1)" and fits: "\<not> u64_saturating_add n (length ?b) > SESSION_HISTORY_FILE_MAX_BYTES - APPEND_HEADROOM"
    and prep: "prepare_history_hmac_for_appended_bytes A ?p ?b i s1 = (Inr r, s2)"
    and app: "io (fs_append ?p ?b) s2 = (Inr (), s3)" and com: "commit_history_hmac ?p s3 = (Inr (), s4)"
    and store: "(case r of None \<Rightarrow> return () | Some st \<Rightarrow> store_history_hmac_state A i ?p st) s4 = (Inr (), s5)"
    and mark: "s' = mark_history_file_current i s5"
    unfolding append_bytes_def
    by (auto elim!: and_then_InrE simp: act_simps(2,3) split: if_splits)
  have c1: "calm i s s1" and n: "n = length ?old" using history_len_run [OF len] by auto
  have h1: "history_is A i ms s1" using calm_history [OF c1 h] .
  have old1: "old_bytes (st_disk s1) ?p = ?old" using c1 by (simp add: calm_def old_bytes_def)
  note p = prepare_append_run [OF prep refl h1, unfolded old1]
  from io_run [OF app] obtain d3 where a: "fs_append ?p ?b (st_disk s2) = (Inr (), d3)" "s3 = s2\<lparr>st_disk := d3\<rparr>" by auto
  have old2: "old_bytes (st_disk s2) ?p = ?old" using p(2) old1 by (simp add: old_bytes_def)
  have c3: "contents (st_disk s3) = (contents (st_disk s2))(?p \<mapsto> ?old @ ?b)"
    using fs_append_run [OF a(1)] old2 a(2) by auto
  have cfg3: "same_config s s3" using c1 p(1) a(2) by (auto simp: calm_def same_config_def)
  have key: "st_hmac_key s3 = st_hmac_key s" "st_hmac_key s1 = st_hmac_key s"
    using cfg3 c1 by (simp_all add: same_config_def calm_def)
  have c4: "contents (st_disk s4) = (case st_hmac_key s of None \<Rightarrow> contents (st_disk s3)
      | Some k \<Rightarrow> (contents (st_disk s3))(hmac_path ?p \<mapsto> encode_sidecar_hmac_v1 ?D (da_mac ?D k (?old @ ?b)), pending_hmac_path ?p := None))
      \<and> same_config s3 s4 \<and> st_history_hmac_states s4 = st_history_hmac_states s3"
  proof (cases "st_hmac_key s")
    case None
    with com key show ?thesis by (simp add: commit_history_hmac_def and_then_gets act_simps)
  next
    case (Some k)
    with com key have "io (commit_pending_hmac_sidecar ?p) s3 = (Inr (), s4)"
      by (simp add: commit_history_hmac_def and_then_gets run_if_def)
    from io_run [OF this] obtain d4 where d4: "commit_pending_hmac_sidecar ?p (st_disk s3) = (Inr (), d4)" "s4 = s3\<lparr>st_disk := d4\<rparr>" by auto
    have "contents (st_disk s3) (pending_hmac_path ?p) = Some (encode_sidecar_hmac_v1 ?D (da_mac ?D k (?old @ ?b)))"
      using p(4) [of k] Some key c3 by simp
    from commit_run_ok [OF d4(1) this] d4(2) Some show ?thesis by (simp add: same_config_def)
  qed
  have cached: "\<forall>c. hm_get (st_history_hmac_states s5) i = Some c \<longrightarrow>
      st_hmac_key s = Some (ah_key (hh_state c)) \<and> ah_fed (hh_state c) = ?old @ ?b"
    and c5: "contents (st_disk s5) = contents (st_disk s4)" "same_config s4 s5"
  proof -
    show "contents (st_disk s5) = contents (st_disk s4)" "same_config s4 s5"
      using store store_hmac_run by (auto simp: act_simps split: option.splits)
    show "\<forall>c. hm_get (st_history_hmac_states s5) i = Some c \<longrightarrow>
      st_hmac_key s = Some (ah_key (hh_state c)) \<and> ah_fed (hh_state c) = ?old @ ?b"
    proof (cases "st_hmac_key s")
      case None
      have "hm_get (st_history_hmac_states s5) i = None"
        using store p(3,5) None key c1 h a(2) c4 by (auto simp: act_simps history_is_def calm_def)
      then show ?thesis by simp
    next
      case (Some k)
      with store p(4) [of k] key store_hmac_run(3) [of A i ?p _ s4] show ?thesis by auto
    qed
  qed
  have "history_lines (?old @ ?b) = history_lines ?old @ ls"
    and old: "complete_lines ?old" "decode_lines A i s (history_lines ?old) = Inr ms"
    using h history_lines_append [of ?old ?b] history_lines_join [OF ls(1)]
    by (auto simp: history_is_def old_bytes_def complete_lines_def split: option.splits)
  then have dec: "decode_lines A i s (history_lines (?old @ ?b)) = Inr (ms @ ns)"
    using decode_lines_append ls(2) by simp
  have cfg: "same_config s s5" using cfg3 c4 c5(2) by (meson config.trans)
  have "validate_session_id i = Inr ()" "st_encryption_mode s = Required \<longrightarrow> st_crypto s \<noteq> None"
    using h by (simp_all add: history_is_def)
  then have "history_is A i (ms @ ns) s5"
    using c3 c4 c5 cached cfg decode_lines_config [OF cfg] dec old n fits append_within [of "length ?old" "length ?b"]
    by (auto simp: history_is_def same_config_def old_bytes_def split: option.splits)
  then show "history_is A i (ms @ ns) s'" unfolding mark by (rule holdsD [OF kept_plain(1) _ update_def])
  show "contents (st_disk s') (hist i) = Some (?old @ ?b)"
    using c3 c4 c5(1) by (auto simp: mark mark_history_file_current_def split: option.splits)
qed

text \<open>The cache of inbound events is looked after on the side.\<close>

lemma kept_cache_event [history_kept]:
  "holds (history_is A i ms) (cache_protected_inbound_event_from_message A' m p b) (\<lambda>_. True)"
  unfolding cache_protected_inbound_event_from_message_def by (intro stays_rules history_kept)

lemma append_message_run:
  assumes ok: "codec_ok A" "cipher_ok (sa_cipher A)" "digest_ok (sa_digest A)" and h: "history_is A i ms s"
    and i: "cm_session_id m = i" and run: "append_history_message_under_lock A (hist i) i m s = (Inr (), s')"
  shows "history_is A i (ms @ [m]) s'"
proof -
  from run obtain s1 b s2 s3 where cur: "ensure_history_file_current A (hist i) i s = (Inr (), s1)"
    and enc: "encode_history_message A m s1 = (Inr b, s2)"
    and app: "append_bytes A (hist i) i (b @ [newline]) s2 = (Inr (), s3)"
    and cache: "cache_protected_inbound_event_from_message A m (hist i) (b @ [newline]) s3 = (Inr (), s')"
    unfolding append_history_message_under_lock_def by (auto elim!: and_then_InrE)
  have h1: "history_is A i ms s1" using holdsD [OF kept_ensure_history [OF ok(3)] h cur] .
  have h2: "history_is A i ms s2" using holdsD [OF kept_encode h1] enc by (simp add: encode_history_message_def)
  have "same_config s1 s2" using keepsD [OF config_encode] enc by (simp add: encode_history_message_def)
  then have "decode_lines A i s2 [b] = Inr [m]"
    using encode_history_line(2) [OF ok(1,2) enc] decode_history_config i by auto
  from append_bytes_run(1) [OF ok(3) h2 _ this] encode_history_line(1) [OF ok(1,2) enc] app
  have "history_is A i (ms @ [m]) s3" by (simp add: join_lines_def)
  then show ?thesis by (rule holdsD [OF kept_cache_event _ cache])
qed

lemma append_message_history:
  assumes ok: "codec_ok A" "cipher_ok (sa_cipher A)" "digest_ok (sa_digest A)"
    and h: "history_is A (cm_session_id m) ms s" and run: "append_message A m s = (Inr (), s')"
  shows "history_is A (cm_session_id m) (ms @ [m]) s'"
proof -
  let ?i = "cm_session_id m"
  from run obtain s1 s2 s3 p s5 s6 s7 where
    base: "ensure_base_dir s = (Inr (), s1)" and req: "ensure_required_encryption_available s1 = (Inr (), s2)"
    and chk: "check_writable A ?i s2 = (Inr (), s3)" and p: "session_history_path ?i = Inr p"
    and lock: "io fs_try s3 = (Inr (), s5)"
    and app: "append_history_message_under_lock A p ?i m s5 = (Inr (), s6)"
    and inv: "s7 = invalidate_protected_inbound_dedupe_cache ?i s6" and inc: "increment_message_count A ?i s7 = (Inr (), s')"
    unfolding append_message_def
    by (auto elim!: and_then_InrE simp: act_simps(3,5))
  note h2 = holdsD [OF kept_required holdsD [OF kept_dirs(1) h base] req]
  note h5 = holdsD [OF kept_fs_try holdsD [OF kept_check_writable [OF ok(3)] h2 chk] lock]
  from append_message_run [OF ok h5 refl] app history_path_hist [OF p]
  have "history_is A ?i (ms @ [m]) s6" by simp
  then have "history_is A ?i (ms @ [m]) s7" unfolding inv by (rule holdsD [OF kept_plain(3) _ update_def])
  then show ?thesis by (rule holdsD [OF kept_increment [OF ok(3)] _ inc])
qed

lemma append_messages_history:
  assumes ok: "codec_ok A" "cipher_ok (sa_cipher A)" "digest_ok (sa_digest A)"
    and h: "history_is A i ms s" and first: "ns \<noteq> []" "cm_session_id (hd ns) = i"
    and run: "append_messages A ns s = (Inr (), s')"
  shows "history_is A i (ms @ ns) s'"
proof -
  from first obtain n ns' where ns: "ns = n # ns'" "cm_session_id n = i" by (cases ns) auto
  from run [unfolded append_messages_def] ns obtain s1 s2 s3 p s5 s6 b s7 s8 s9 where
    base: "ensure_base_dir s = (Inr (), s1)" and req: "ensure_required_encryption_available s1 = (Inr (), s2)"
    and ids: "list_all (\<lambda>m. cm_session_id m = i) ns"
    and chk: "check_writable A i s2 = (Inr (), s3)" and p: "session_history_path i = Inr p"
    and lock: "io fs_try s3 = (Inr (), s5)" and cur: "ensure_history_file_current A p i s5 = (Inr (), s6)"
    and enc: "encode_messages A ns s6 = (Inr b, s7)" and app: "append_bytes A p i b s7 = (Inr (), s8)"
    and inv: "s9 = invalidate_protected_inbound_dedupe_cache i s8"
    and inc: "each (\<lambda>_. increment_message_count A i) ns s9 = (Inr (), s')"
    by (auto elim!: and_then_InrE simp: act_simps(2,3,5) Let_def simp del: encode_messages.simps each.simps
        split: if_splits list.splits)
  note h2 = holdsD [OF kept_required holdsD [OF kept_dirs(1) h base] req]
  note h5 = holdsD [OF kept_fs_try holdsD [OF kept_check_writable [OF ok(3)] h2 chk] lock]
  note h6 = holdsD [OF kept_ensure_history [OF ok(3)] h5 cur]
  have enc_kept: "holds (history_is A i ms) (encode_messages A xs) (\<lambda>_. True)" "keeps same_config (encode_messages A xs)" for xs
    by (induction xs) (auto simp: encode_history_message_def intro!: stays_rules history_kept config.keeps_rules config_encode)
  have h7: "history_is A i ms s7" and cfg: "same_config s6 s7"
    using holdsD [OF enc_kept(1) h6 enc] keepsD [OF enc_kept(2) enc] by auto
  obtain ls where "b = join_lines ls" "list_all json_line ls" "decode_lines A i s6 ls = Inr ns"
    using encode_messages_lines [OF ok(1,2) ids enc] by blast
  with append_bytes_run(1) [OF ok(3) h7] app history_path_hist [OF p] decode_lines_config [OF cfg]
  have "history_is A i (ms @ ns) s8" by simp
  then have h9: "history_is A i (ms @ ns) s9" unfolding inv by (rule holdsD [OF kept_plain(3) _ update_def])
  have "holds (history_is A i (ms @ ns)) (each (\<lambda>_. increment_message_count A i) ns) (\<lambda>_. True)"
    by (intro stays_rules history_kept ok(3))
  from holdsD [OF this h9 inc] show ?thesis .
qed

subsection \<open>Reading\<close>

text \<open>A file that starts with the prefix of encrypted payloads starts with an encrypted line.\<close>

lemma history_lines_prefix:
  assumes "has_encrypted_payload_prefix b"
  shows "\<exists>l ls. history_lines b = l # ls \<and> has_encrypted_payload_prefix l"
proof -
  obtain w ws where sp: "split_by (\<lambda>c. c = newline) b = w # ws" using split_by_Cons_ex by blast
  have "take 5 b = ''cse1:''"
    using assms by (simp add: has_encrypted_payload_prefix_def SESSION_ENCRYPTED_PREFIX_V1_def starts_with_def
        numeral_eq_Suc)
  then obtain rest where b: "b = ''cse1:'' @ rest" by (metis append_take_drop_id)
  then obtain v where w: "w = ''cse1:'' @ v"
    using sp by (auto simp: newline_def split: list.splits)
  have ws: "\<not> is_ascii_whitespace CHR '':''" "\<not> is_ascii_whitespace CHR ''c''" by (simp_all add: is_ascii_whitespace_def)
  have drop: "\<exists>u. dropWhile is_ascii_whitespace (rev v @ xs) = u @ xs" if "xs \<noteq> []" "\<not> is_ascii_whitespace (hd xs)" for xs
    using that by (cases "\<forall>c \<in> set v. is_ascii_whitespace c")
      (auto simp: dropWhile_append2 dropWhile_append1 dropWhile_append neq_Nil_conv)
  from drop [of "rev ''cse1:''"] ws obtain u where "trim_ascii_whitespace w = ''cse1:'' @ rev u"
    by (auto simp: trim_ascii_whitespace_def w)
  with sp show ?thesis
    by (auto simp: history_lines_def has_encrypted_payload_prefix_def SESSION_ENCRYPTED_PREFIX_V1_def starts_with_def)
qed

lemma decode_lines_plain:
  assumes "decode_lines A i s (history_lines b) = Inr ms" "st_crypto s = None"
  shows "\<not> has_encrypted_payload_prefix b"
proof
  assume "has_encrypted_payload_prefix b"
  then obtain l ls where "history_lines b = l # ls" "has_encrypted_payload_prefix l" using history_lines_prefix by blast
  with assms show False by (simp add: decode_history_message_def decode_payload_def)
qed

lemma fs_read_run: "fs_read cap p d = (Inr r, d') \<Longrightarrow> r = contents d p \<and> contents d' = contents d"
  unfolding fs_read_def by (auto elim!: and_then_InrE dest: fs_try_run split: option.splits if_splits)

lemma handle_result_disk:
  "handle_integrity_result m s = (r, s') \<Longrightarrow> \<exists>d. s' = s\<lparr>st_disk := d\<rparr>"
  by (auto simp: handle_integrity_result_def on_disk_def split: prod.splits sum.splits IntegrityError.splits if_splits)

lemma verify_bytes_disk: "verify_integrity_bytes A b p s = (r, s') \<Longrightarrow> \<exists>d. s' = s\<lparr>st_disk := d\<rparr>"
  by (auto simp: verify_integrity_bytes_def split: if_splits option.splits dest: handle_result_disk
      intro: exI [of _ "st_disk s"])

lemma read_raw_result:
  assumes h: "history_is A i ms s" and run: "read_raw_history_messages A (hist i) i s = (Inr r, s')"
  shows "r = ms"
proof (cases "contents (st_disk s) (hist i)")
  case None
  with run h show ?thesis
    by (simp add: read_raw_history_messages_def and_then_gets fs_exists_contents history_is_def act_simps)
next
  case (Some b)
  with run have "and_then (map_err history_integrity_error (read_verified_history_bytes A (hist i))) (\<lambda>b s.
      (decode_lines A i s (history_lines b), s)) s = (Inr r, s')"
    by (simp add: read_raw_history_messages_def and_then_gets fs_exists_contents)
  then obtain c t where rd: "read_verified_history_bytes A (hist i) s = (Inr c, t)"
    and dec: "decode_lines A i t (history_lines c) = Inr r"
    by (auto elim!: and_then_InrE simp: map_err_def split: prod.splits sum.splits)
  from rd obtain x u where x: "io (fs_read SESSION_HISTORY_FILE_MAX_BYTES (hist i)) s = (Inr (Some c), u)"
    and v: "verify_integrity_bytes A c (hist i) u = (Inr (), t)"
    unfolding read_verified_history_bytes_def
    by (auto elim!: and_then_InrE simp: act_simps(1,2) split: option.splits)
  from io_run [OF x] fs_read_run Some have "c = b" "same_config s u" by (auto simp: same_config_def)
  moreover have "same_config u t" using verify_bytes_disk [OF v] by (auto simp: same_config_def)
  ultimately show ?thesis
    using h Some dec decode_lines_config [of s t] config.trans by (fastforce simp: history_is_def)
qed

text \<open>Nothing fails, so the file is read, verified and decoded.\<close>

lemma verify_committed_quiet:
  assumes "quiet d" "digest_ok D" "contents d (hmac_path p) = Some (encode_sidecar_hmac_v1 D (da_mac D k b))"
  shows "verify_hmac_file D k b p cfg d = (Inr (), d)"
proof -
  let ?e = "encode_sidecar_hmac_v1 D (da_mac D k b)"
  have "length ?e \<le> HMAC_SIDECAR_MAX_BYTES"
    using assms(2) by (simp add: encode_sidecar_hmac_v1_def HMAC_SIDECAR_V1_PREFIX_def digest_ok_def
        HMAC_DIGEST_SIZE_def HMAC_SIDECAR_MAX_BYTES_def)
  moreover have "utf8_from [] ?e" using utf8_ascii [OF encoded_chars(2) [OF assms(2)]] .
  ultimately have "map_err io_err (read_hmac_sidecar (hmac_path p)) d = (Inr (Some ?e), d)"
    using assms(1,3) by (simp add: map_err_def quiet_simps)
  then show ?thesis
    using sidecar_roundtrip [OF assms(2) mac_length [OF assms(2)], of k b] mac_length [OF assms(2), of k b]
    by (simp add: verify_hmac_file_def verify_hmac_digest_def and_then_Inr act_simps(1) hmacs_match_def)
qed

lemma read_raw_quiet:
  assumes ok: "digest_ok (sa_digest A)" and h: "history_is A i ms s" and q: "quiet (st_disk s)"
  shows "read_raw_history_messages A (hist i) i s = (Inr ms, s)"
proof (cases "contents (st_disk s) (hist i)")
  case None
  with h show ?thesis
    by (simp add: read_raw_history_messages_def and_then_gets fs_exists_contents history_is_def act_simps)
next
  case (Some b)
  with h have len: "length b \<le> SESSION_HISTORY_FILE_MAX_BYTES" and dec: "decode_lines A i s (history_lines b) = Inr ms"
    by (simp_all add: history_is_def)
  have "\<not> (st_crypto s = None \<and> is_encrypted_payload (sa_cipher A) b)"
    using decode_lines_plain [OF dec] by (auto simp: is_encrypted_payload_def)
  then have v: "verify_integrity_bytes A b (hist i) s = (Inr (), s)"
    using verify_committed_quiet [OF q ok history_is_committed [OF h _ Some]]
    by (auto simp: verify_integrity_bytes_def handle_integrity_result_def on_disk_def split: option.splits)
  have "io (fs_read SESSION_HISTORY_FILE_MAX_BYTES (hist i)) s = (Inr (Some b), s)"
    using q len Some by (simp add: io_def map_err_def on_disk_def quiet_simps)
  then have "read_verified_history_bytes A (hist i) s = (Inr b, s)"
    using v by (simp add: read_verified_history_bytes_def and_then_Inr act_simps(1))
  then show ?thesis
    using Some dec by (simp add: read_raw_history_messages_def and_then_gets fs_exists_contents and_then_Inr map_err_def)
qed

lemma get_history_result:
  assumes "history_is A i ms s" "get_history A i limit before_id s = (Inr r, s')"
  shows "r = last_messages limit (after_id before_id (visible ms))"
proof -
  from assms(2) obtain s1 p ns where req: "ensure_required_encryption_available s = (Inr (), s1)"
    and p: "session_history_path i = Inr p"
    and rd: "read_raw_history_messages A p i s1 = (Inr ns, s')" and r: "r = last_messages limit (after_id before_id (visible ns))"
    unfolding get_history_def by (auto elim!: and_then_InrE simp: act_simps(1,5))
  have "s1 = s" using req by (auto simp: ensure_required_encryption_available_def split: if_splits)
  with read_raw_result [OF assms(1)] rd history_path_hist [OF p] r show ?thesis by simp
qed

lemma get_history_quiet:
  assumes "digest_ok (sa_digest A)" "history_is A i ms s" "quiet (st_disk s)"
  shows "get_history A i limit before_id s = (Inr (last_messages limit (after_id before_id (visible ms))), s)"
proof -
  have "validate_session_id i = Inr ()" "st_encryption_mode s = Required \<Longrightarrow> st_crypto s \<noteq> None"
    using assms(2) by (simp_all add: history_is_def)
  with read_raw_quiet [OF assms] show ?thesis
    by (auto simp: get_history_def session_history_path_def hist_def ensure_required_encryption_available_def act_simps)
qed

subsection \<open>Properties\<close>

text \<open>The store after an operation, when no further access fails.\<close>

definition quiet_store :: "SessionStore \<Rightarrow> SessionStore" where
  "quiet_store s = s\<lparr>st_disk := all_quiet (st_disk s)\<rparr>"

lemma history_is_quiet: "history_is A i ms s \<Longrightarrow> history_is A i ms (quiet_store s)"
  unfolding quiet_store_def by (erule history_is_disk) simp

lemma history_is_read:
  assumes "digest_ok (sa_digest A)" "history_is A i ms s"
  shows "fst (get_history A i None None (quiet_store s)) = Inr (visible ms)"
  using get_history_quiet [OF assms(1) history_is_quiet [OF assms(2)]]
  by (simp add: quiet_store_def last_messages_def after_id_def)


text \<open>A store with one session \<^verbatim>\<open>a\<close>, whose history file holds the given bytes.\<close>

definition ex_metadata :: SessionMetadata where
  "ex_metadata =
     \<lparr>sm_name = None, sm_description = None, sm_agent_id = None, sm_channel = None, sm_chat_id = None, sm_user_id = None,
      sm_route = None, sm_model = None, sm_thinking_level = None, sm_tags = [], sm_extra = None,
      sm_compaction = CompactionMetadata_default\<rparr>"

definition ex_store :: "nat \<Rightarrow> bytes \<Rightarrow> SessionStore" where
  "ex_store n b = (with_base_path (ex_disk [(''a.jsonl'', b)] []))\<lparr>st_sessions :=
     [(''a'', \<lparr>ch_session = (Session_with_session_key ''a'' 0 ''k'' ex_metadata)\<lparr>ses_message_count := n\<rparr>, ch_dirty = True,
               ch_history_file_current_confirmed = False\<rparr>)]\<rparr>"

definition ex_message :: "string \<Rightarrow> ChatMessage" where
  "ex_message i = ChatMessage_new i 0 ''a'' User ''hi''"

lemma valid_a: "validate_session_id ''a'' = Inr ()"
  by (simp add: validate_session_id_def slug_char_def is_ascii_alphanumeric_def)

lemma ex_history: "history_is A ''a'' [] (ex_store n [])"
  by (simp add: history_is_def ex_store_def with_base_path_def contents_ex_disk valid_a hist_def complete_lines_def
     old_bytes_def)

lemma ex_fits: "k \<le> 10000 \<Longrightarrow> l \<le> 10000 \<Longrightarrow> u64_saturating_add k l \<le> SESSION_HISTORY_FILE_MAX_BYTES - APPEND_HEADROOM"
  by (simp add: u64_saturating_add_def SESSION_HISTORY_FILE_MAX_BYTES_def APPEND_HEADROOM_def)

lemma ex_message_simps [simp]: "cm_session_id (ex_message i) = ''a''"
  "\<not> is_protected_inbound_dedupe_marker (ex_message i)" "inbound_dedupe_entry_from_message (ex_message i) = None"
  by (simp_all add: ex_message_def ChatMessage_new_def is_protected_inbound_dedupe_marker_def inbound_dedupe_entry_from_message_def)

lemmas ex_run = act_simps on_disk_def io_def ensure_base_dir_def ensure_required_encryption_available_def check_writable_def
  get_session_def session_history_path_def valid_a append_history_message_under_lock_def
  ensure_history_file_current_def encryption_active_def encode_history_message_def encode_payload_def append_bytes_def history_len_def
  prepare_history_hmac_for_appended_bytes_def commit_history_hmac_def cache_protected_inbound_event_from_message_def
  increment_message_count_def uses_encryption_def ex_store_def with_base_path_def ex_disk_def 
   fs_try_def next_fault_def hm_eval contents_def fs_append_def old_bytes_def fs_put_def Session_with_session_key_def
    mark_history_file_current_def hm_contains_def now_millis_def
    invalidate_protected_inbound_dedupe_cache_def count_message_def

lemma ex_append:
  assumes "Suc n mod 10 \<noteq> 0"
    "u64_saturating_add (length b) (Suc (length (sa_message_line ex_api (ex_message i)))) \<le> SESSION_HISTORY_FILE_MAX_BYTES - APPEND_HEADROOM"
  shows "append_message ex_api (ex_message i) (ex_store n b) =
    (Inr (), ex_store (Suc n) (b @ sa_message_line ex_api (ex_message i) @ [newline]))"
    "append_messages ex_api [ex_message i] (ex_store n b) =
    (Inr (), ex_store (Suc n) (b @ sa_message_line ex_api (ex_message i) @ [newline]))"
  using assms by (simp_all add: append_message_def append_messages_def ex_run Let_def)

lemma ex_line_length: "length (sa_message_line ex_api (ex_message [c])) \<le> 1000"
proof -
  have "of_char c \<le> (673 :: nat)" using nat_of_char_less_256 [of c] by linarith
  then show ?thesis
    by (simp add: ex_api_def in_braces_def print_message_def ex_message_def ChatMessage_new_def print_pair_def print_string_def
     print_list_def print_option_def print_int_def)
qed

end
