(* ===== verification/Session_Inbound.thy ===== *)
theory Session_Inbound
  imports Session_History
begin

text \<open>
  Inbound events of the session store: an event that is delivered more than once is stored once. The
  look-up uses a cache that is bound to the contents of the history file; when the cache does not fit, the
  file is scanned.
\<close>

subsection \<open>Events in a history\<close>

definition event_of :: "ChatMessage \<Rightarrow> string option" where
  "event_of m = map_option fst (inbound_dedupe_entry_from_message m)"

definition find_event :: "string \<Rightarrow> ChatMessage list \<Rightarrow> InboundEventIndexEntry option" where
  "find_event e ms = hm_get (first_entries ms []) e"

lemma first_entries_get:
  "hm_get (first_entries ms es) e = (case hm_get es e of Some x \<Rightarrow> Some x | None \<Rightarrow> find_event e ms)"
proof (induction ms arbitrary: es)
  case Nil
  then show ?case by (simp add: find_event_def split: option.splits)
next
  case (Cons m ms)
  show ?case
  proof (cases "inbound_dedupe_entry_from_message m")
    case None
    with Cons [of es] show ?thesis by (simp add: find_event_def split: option.splits)
  next
    case (Some x)
    obtain i entry where x: "x = (i, entry)" by (cases x)
    have "find_event e (m # ms) = hm_get (first_entries ms (hm_insert i entry [])) e"
      using Some x by (simp add: find_event_def hm_contains_def)
    then have "find_event e (m # ms) = (if e = i then Some entry else find_event e ms)"
      by (simp add: Cons hm_simps)
    moreover have "hm_get (first_entries (m # ms) es) e =
        (case hm_get (if hm_contains es i then es else hm_insert i entry es) e of Some x \<Rightarrow> Some x | None \<Rightarrow> find_event e ms)"
      using Cons [of "if hm_contains es i then es else hm_insert i entry es"] Some x by simp
    ultimately show ?thesis by (auto simp: hm_contains_def hm_simps split: option.splits)
  qed
qed

lemma find_event_Cons:
  "find_event e (m # ms) =
     (case inbound_dedupe_entry_from_message m of
        Some (i, entry) \<Rightarrow> if i = e then Some entry else find_event e ms
      | None \<Rightarrow> find_event e ms)"
proof (cases "inbound_dedupe_entry_from_message m")
  case (Some x)
  obtain i entry where x: "x = (i, entry)" by (cases x)
  have "find_event e (m # ms) = hm_get (first_entries ms (hm_insert i entry [])) e"
    using Some x by (simp add: find_event_def hm_contains_def)
  then show ?thesis using Some x by (simp add: first_entries_get hm_simps)
qed (simp add: find_event_def)

lemma find_event_iff: "find_event e ms \<noteq> None \<longleftrightarrow> e \<in> set (List.map_filter event_of ms)"
proof (induction ms)
  case Nil
  then show ?case by (simp add: find_event_def List.map_filter_simps)
next
  case (Cons m ms)
  then show ?case
    by (auto simp: find_event_Cons event_of_def List.map_filter_simps split: option.splits)
qed

lemma first_entries_append: "first_entries (ms @ ns) es = first_entries ns (first_entries ms es)"
  by (induction ms arbitrary: es) auto

text \<open>Scanning the lines of a file decodes all of them and finds the first entry of the event.\<close>

lemma scan_result:
  "dedupe_scan A i s e ls lookup es = Inr (lookup', es') \<Longrightarrow>
   \<exists>ms. decode_lines A i s ls = Inr ms \<and> es' = first_entries ms es \<and>
     lk_entry lookup' = (case lk_entry lookup of Some x \<Rightarrow> Some x | None \<Rightarrow> find_event e ms) \<and>
     lk_legacy_index_present lookup' = lk_legacy_index_present lookup"
proof (induction ls arbitrary: lookup es)
  case Nil
  then show ?case by (auto simp: find_event_def split: option.splits)
next
  case (Cons l ls)
  from Cons.prems obtain m where m: "decode_history_message A i s l = Inr m"
  proof (cases "decode_history_message A i s l")
    case (Inl err)
    with Cons.prems show ?thesis by (cases err) auto
  qed
  let ?lookup = "case inbound_dedupe_entry_from_message m of None \<Rightarrow> lookup | Some (k, entry) \<Rightarrow>
      if k = e then lookup\<lparr>lk_matched_protected_history := True,
        lk_entry := (case lk_entry lookup of None \<Rightarrow> Some entry | Some x \<Rightarrow> Some x)\<rparr> else lookup"
  let ?es = "case inbound_dedupe_entry_from_message m of None \<Rightarrow> es | Some (k, entry) \<Rightarrow>
      if hm_contains es k then es else hm_insert k entry es"
  have "dedupe_scan A i s e ls ?lookup ?es = Inr (lookup', es')"
    using Cons.prems m by (auto split: option.splits)
  from Cons.IH [OF this] obtain ms where ms: "decode_lines A i s ls = Inr ms" "es' = first_entries ms ?es"
    "lk_entry lookup' = (case lk_entry ?lookup of Some x \<Rightarrow> Some x | None \<Rightarrow> find_event e ms)"
    "lk_legacy_index_present lookup' = lk_legacy_index_present ?lookup" by blast
  then show ?case using m
    by (intro exI [of _ "m # ms"]) (auto simp: find_event_Cons split: option.splits)
qed

subsection \<open>Operations beside the cache\<close>

text \<open>\<open>aside i\<close>: the caches of inbound events and the history file of \<open>i\<close> are left alone.\<close>

definition aside :: "string \<Rightarrow> SessionStore \<Rightarrow> SessionStore \<Rightarrow> bool" where
  "aside i s s' \<longleftrightarrow> st_dedupe_cache s' = st_dedupe_cache s \<and> same_config s s' \<and>
     contents (st_disk s') (hist i) = contents (st_disk s) (hist i)"

interpretation aside: state_relation "aside i"
  by unfold_locales (auto simp: aside_def intro: config.trans)

lemma aside_disk: "keeps (same_files S) m \<Longrightarrow> hist i \<notin> S \<Longrightarrow> keeps (aside i) (on_disk m)"
  by (rule keepsI) (auto simp: on_disk_def aside_def same_config_def same_files_def dest!: keepsD split: prod.splits)

lemma aside_io: "keeps (same_files S) m \<Longrightarrow> hist i \<notin> S \<Longrightarrow> keeps (aside i) (io m)"
  unfolding io_def by (intro aside.keeps_map_err aside_disk)

lemma aside_looking:
  "keeps (aside i) (io fs_try)" "keeps (aside i) (io (fs_read cap p))" "keeps (aside i) (on_disk draw)"
  "keeps (aside i) (on_disk (artifact_file_signature A p))" "keeps (aside i) (on_disk (hmac_sidecar_sha256 A p))"
  "keeps (aside i) (on_disk (file_metadata p))"
  by (auto intro: aside_io [where S = "{}"] aside_disk [where S = "{}"] simp: keeps_fs signature_files artifact_signature_files)

lemma aside_plain:
  "keeps (aside i) (update (mark_history_file_current j))" "keeps (aside i) (update (clear_history_hmac_state j))"
  "keeps (aside i) (update (cache_session x))" "keeps (aside i) (update (update_cached j x))"
  "keeps (aside i) (update (record_locked_session_entry j p))" "keeps (aside i) (update (clear_locked_session_entry j))"
  "keeps (aside i) (update (\<lambda>s. s\<lparr>st_archive_current_signatures := f s\<rparr>))"
  "keeps (aside i) (update (\<lambda>s. s\<lparr>st_sessions := h s\<rparr>))"
  "keeps (aside i) (update (\<lambda>s. if c s then s else s\<lparr>st_sessions := l s\<rparr>))"
  by (rule aside.keeps_update, simp add: aside_def same_config_def mark_history_file_current_def
      clear_history_hmac_state_def cache_session_def update_cached_def record_locked_session_entry_def
      clear_locked_session_entry_def)+

lemma keeps_guard: "keeps R m \<Longrightarrow> (\<And>s. R s s) \<Longrightarrow> keeps R (\<lambda>s. if c s then (x, s) else m s)"
  by (auto simp: keeps_def)

lemma aside_required: "keeps (aside i) ensure_required_encryption_available"
  unfolding ensure_required_encryption_available_def [abs_def] by (auto simp: keeps_def)

lemma aside_base: "keeps (aside i) ensure_base_dir"
  unfolding ensure_base_dir_def [abs_def]
  by (rule keeps_guard, intro aside.keeps_rules aside_looking, rule aside.keeps_update)
    (simp_all add: aside_def same_config_def)

lemma aside_encode: "keeps (aside i) (encode_payload A j purpose x y)"
  by (rule keepsI) (auto simp: encode_payload_def on_disk_def draw_def act_simps aside_def same_config_def
      split: option.splits if_splits)

lemma handle_result_keeps: "keeps R (on_disk m) \<Longrightarrow> keeps R (handle_integrity_result m)"
  by (rule keepsI) (auto simp: handle_integrity_result_def dest: keepsD
      split: prod.splits sum.splits IntegrityError.splits if_splits)

lemma aside_verify: "keeps (aside i) (verify_integrity_bytes A b p)" "keeps (aside i) (verify_integrity_path A p)"
proof -
  have "keeps (aside i) (handle_integrity_result (verify_hmac_file D k b p c))"
    "keeps (aside i) (handle_integrity_result (verify_hmac_path D k p c))" for D k b c
    by (intro handle_result_keeps aside_disk [OF verify_files(1)] aside_disk [OF verify_files(2)]; simp)+
  then show "keeps (aside i) (verify_integrity_bytes A b p)" "keeps (aside i) (verify_integrity_path A p)"
    unfolding verify_integrity_bytes_def [abs_def] verify_integrity_path_def [abs_def]
    by (auto simp: keeps_def split: option.splits)
qed

lemma aside_ensure_history: "keeps (aside i) (ensure_history_file_current A p j)"
proof -
  let ?long = "and_then (verify_integrity_path A p) (\<lambda>_. and_then (io fs_try) (\<lambda>_.
      and_then (gets (\<lambda>s. contents (st_disk s) p)) (\<lambda>c. case c of None \<Rightarrow> throw Io
       | Some b \<Rightarrow> and_then (from_sum (ensure_history_reader_has_only_encrypted_payload_lines b)) (\<lambda>_.
           update (mark_history_file_current j)))))"
  have long: "keeps (aside i) ?long" by (intro aside.keeps_rules aside_verify aside_looking aside_plain)
  have mark: "aside i s (mark_history_file_current j s)" for s
    by (simp add: aside_def same_config_def mark_history_file_current_def)
  show ?thesis
    by (rule keepsI) (use mark keepsD [OF long] in \<open>auto simp: ensure_history_file_current_def split: if_splits\<close>)
qed

lemma aside_artifacts: "keeps (aside i) (ensure_session_artifacts_current A x)"
proof -
  have "keeps (aside i) (ensure_archive_file_current A j)" for j
    unfolding ensure_archive_file_current_def [abs_def] file_starts_with_encrypted_payload_prefix_def
    by (rule keeps_guard) (intro aside.keeps_rules aside_looking aside_verify aside_plain | simp)+
  then show ?thesis
    unfolding ensure_session_artifacts_current_def [abs_def]
    by (intro keeps_guard) (intro aside.keeps_rules aside_looking aside_ensure_history | simp)+
qed

lemma aside_write_meta: "keeps (aside i) (write_session_meta A x)"
proof -
  have "keeps (aside i) (io (replace_sealed D key p b))" if "session_meta_path j = Inr p" for j D key p b
    using meta_path_neq [OF that] by (intro aside_io [OF replace_sealed_files]) auto
  then show ?thesis
    unfolding write_session_meta_def encode_session_metadata_def
    by (intro aside.keeps_from_sum_then aside.keeps_and_then aside_base aside_required aside_looking aside_encode
        aside.keeps_gets)
qed

lemma aside_load: "keeps (aside i) (load_session A j)"
  unfolding load_session_def load_session_with_locked_tracking_def
  by (intro aside.keeps_rules aside_required aside_looking aside_verify aside_artifacts aside_plain)

lemma aside_get_session: "keeps (aside i) (get_session A j)"
  unfolding get_session_def by (intro aside.keeps_rules aside_load)

lemma keeps_case_error:
  "(\<And>j. e = NotFound j \<Longrightarrow> keeps R (f j)) \<Longrightarrow> (\<And>s. R s s) \<Longrightarrow> keeps R (case e of NotFound j \<Rightarrow> f j | e' \<Rightarrow> throw e')"
  by (cases e) (simp_all add: keeps_def act_simps)

lemma aside_check_writable: "keeps (aside i) (check_writable A j)"
  unfolding check_writable_def by (intro aside.keeps_rules aside_get_session keeps_case_error aside.refl)

lemma aside_flush: "keeps (aside i) (flush_session A j)"
  unfolding flush_session_def by (intro aside.keeps_rules aside_write_meta aside_plain)

lemma aside_increment: "keeps (aside i) (increment_message_count A j)"
  unfolding increment_message_count_def by (intro aside.keeps_rules aside_load aside_flush aside_plain)

text \<open>Appending to the file does not touch the cache either.\<close>

definition same_cache :: "SessionStore \<Rightarrow> SessionStore \<Rightarrow> bool" where
  "same_cache s s' \<longleftrightarrow> st_dedupe_cache s' = st_dedupe_cache s \<and> same_config s s'"

interpretation cache: state_relation same_cache
  by unfold_locales (auto simp: same_cache_def intro: config.trans)

lemma cache_disk: "keeps same_cache (on_disk m)"
  by (rule keeps_on_disk) (simp add: same_cache_def same_config_def)

lemma cache_io: "keeps same_cache (io n)"
  unfolding io_def by (intro cache.keeps_map_err cache_disk)

lemma cache_plain:
  "keeps same_cache (update (mark_history_file_current j))" "keeps same_cache (update (clear_history_hmac_state j))"
  "keeps same_cache (update (\<lambda>s. s\<lparr>st_history_hmac_states := f s\<rparr>))"
  by (rule cache.keeps_update, simp add: same_cache_def same_config_def mark_history_file_current_def
      clear_history_hmac_state_def)+

lemma cache_append_bytes: "keeps same_cache (append_bytes A p j b)"
  unfolding append_bytes_def history_len_def prepare_history_hmac_for_appended_bytes_def commit_history_hmac_def
    store_history_hmac_state_def cached_history_hmac_state_for_append_def
  by (intro cache.keeps_rules cache_disk cache_io cache_plain keeps_case_bool)

subsection \<open>What the cache says\<close>

text \<open>
  \<open>cache_bound\<close>: a complete cache knows the entries of some contents whose hash it holds, possibly not the
  current ones. \<open>no_collision\<close>: these contents and the current ones do not collide under SHA-256.
  \<open>cache_current\<close>: the contents are the current ones.
\<close>

definition cache_bound :: "store_api \<Rightarrow> string \<Rightarrow> SessionStore \<Rightarrow> bool" where
  "cache_bound A i s \<longleftrightarrow>
     (\<forall>c. hm_get (st_dedupe_cache s) i = Some c \<longrightarrow> dc_complete c \<longrightarrow>
       (case dc_history_signature c of
          None \<Rightarrow> dc_entries c = [] \<and> dc_history_hasher c = None
        | Some sg \<Rightarrow>
            (\<exists>b ms. dc_history_hasher c = Some b \<and> ds_content_sha256 sg = sa_sha256 A b \<and>
               decode_lines A i s (history_lines b) = Inr ms \<and> dc_entries c = first_entries ms [])))"

definition no_collision :: "store_api \<Rightarrow> string \<Rightarrow> SessionStore \<Rightarrow> bool" where
  "no_collision A i s \<longleftrightarrow>
     (\<forall>c b. hm_get (st_dedupe_cache s) i = Some c \<longrightarrow> dc_history_hasher c = Some b \<longrightarrow>
       sa_sha256 A b = sa_sha256 A (old_bytes (st_disk s) (hist i)) \<longrightarrow> b = old_bytes (st_disk s) (hist i))"

definition cache_current :: "store_api \<Rightarrow> string \<Rightarrow> ChatMessage list \<Rightarrow> SessionStore \<Rightarrow> bool" where
  "cache_current A i ms s \<longleftrightarrow>
     (\<forall>c. hm_get (st_dedupe_cache s) i = Some c \<longrightarrow>
       (dc_complete c \<longrightarrow>
         (case dc_history_signature c of
            None \<Rightarrow> dc_entries c = [] \<and> dc_history_hasher c = None
          | Some sg \<Rightarrow>
              dc_history_hasher c = Some (old_bytes (st_disk s) (hist i)) \<and>
              ds_content_sha256 sg = sa_sha256 A (old_bytes (st_disk s) (hist i)) \<and>
              ds_file_len sg = length (old_bytes (st_disk s) (hist i)) \<and> dc_entries c = first_entries ms [])) \<and>
       (\<not> dc_complete c \<longrightarrow> dc_history_hasher c = None))"

lemma cache_current_other: "aside i s s' \<Longrightarrow> cache_current A i ms s \<Longrightarrow> cache_current A i ms s'"
proof -
  assume a: "aside i s s'" and c: "cache_current A i ms s"
  have old: "old_bytes (st_disk s') (hist i) = old_bytes (st_disk s) (hist i)" and same: "st_dedupe_cache s' = st_dedupe_cache s"
    using a by (simp_all add: aside_def old_bytes_def)
  show ?thesis using c unfolding cache_current_def old same .
qed

lemma history_is_decode:
  "history_is A i ms s \<Longrightarrow> decode_lines A i s (history_lines (old_bytes (st_disk s) (hist i))) = Inr ms"
  by (auto simp: history_is_def old_bytes_def split: option.splits)

lemma cache_current_bound:
  assumes "cache_current A i ms s" "history_is A i ms s"
  shows "cache_bound A i s \<and> no_collision A i s"
proof
  have cur: "case dc_history_signature c of None \<Rightarrow> dc_entries c = [] \<and> dc_history_hasher c = None
      | Some sg \<Rightarrow> dc_history_hasher c = Some (old_bytes (st_disk s) (hist i)) \<and>
          ds_content_sha256 sg = sa_sha256 A (old_bytes (st_disk s) (hist i)) \<and> dc_entries c = first_entries ms []"
    if "hm_get (st_dedupe_cache s) i = Some c" "dc_complete c" for c
    using assms(1) that by (auto simp: cache_current_def split: option.splits)
  have none: "dc_history_hasher c = None" if "hm_get (st_dedupe_cache s) i = Some c" "\<not> dc_complete c" for c
    using assms(1) that by (simp add: cache_current_def)
  show "cache_bound A i s"
    unfolding cache_bound_def
  proof (intro allI impI)
    fix c assume "hm_get (st_dedupe_cache s) i = Some c" "dc_complete c"
    from cur [OF this] history_is_decode [OF assms(2)]
    show "case dc_history_signature c of None \<Rightarrow> dc_entries c = [] \<and> dc_history_hasher c = None
      | Some sg \<Rightarrow> (\<exists>b ms. dc_history_hasher c = Some b \<and> ds_content_sha256 sg = sa_sha256 A b \<and>
          decode_lines A i s (history_lines b) = Inr ms \<and> dc_entries c = first_entries ms [])"
      by (cases "dc_history_signature c") auto
  qed
  show "no_collision A i s"
    unfolding no_collision_def
  proof (intro allI impI)
    fix c b assume c: "hm_get (st_dedupe_cache s) i = Some c" and b: "dc_history_hasher c = Some b"
    show "b = old_bytes (st_disk s) (hist i)"
      using cur [OF c] none [OF c] b by (cases "dc_history_signature c"; cases "dc_complete c") auto
  qed
qed

lemma cache_bound_other:
  "aside i s s' \<Longrightarrow> cache_bound A i s \<and> no_collision A i s \<Longrightarrow> cache_bound A i s' \<and> no_collision A i s'"
proof -
  assume a: "aside i s s'" and c: "cache_bound A i s \<and> no_collision A i s"
  have old: "old_bytes (st_disk s') (hist i) = old_bytes (st_disk s) (hist i)" and
    same: "st_dedupe_cache s' = st_dedupe_cache s" and cfg: "same_config s s'"
    using a by (simp_all add: aside_def old_bytes_def)
  show ?thesis
    using c unfolding cache_bound_def no_collision_def decode_lines_config [OF cfg] old same .
qed

lemma dedupe_state_run:
  assumes "on_disk (dedupe_history_state A p) s = (Inr r :: SessionStoreError + (DedupeHistorySignature \<times> bytes) option, s')"
  shows "calm i s s'" and "r = Some (sg, h) \<Longrightarrow> contents (st_disk s) p = Some h \<and>
    ds_content_sha256 sg = sa_sha256 A h \<and> ds_file_len sg = length h"
proof -
  have files: "keeps (same_files S) (dedupe_history_state_from_bytes A p b)" for S b
    unfolding dedupe_history_state_from_bytes_def by (intro files.keeps_rules signature_files)
  have "keeps (calm i) (on_disk (dedupe_history_state A p))"
    unfolding dedupe_history_state_def by (intro calm_disk files.keeps_rules keeps_fs files)
  from keepsD [OF this assms] show "calm i s s'" .
  assume r: "r = Some (sg, h)"
  obtain d where run: "dedupe_history_state A p (st_disk s) = (Inr r :: SessionStoreError + (DedupeHistorySignature \<times> bytes) option, d)"
    using assms by (auto simp: on_disk_def split: prod.splits)
  obtain x d1 where rd: "fs_read SESSION_HISTORY_FILE_MAX_BYTES p (st_disk s) = (x, d1)"
    by (cases "fs_read SESSION_HISTORY_FILE_MAX_BYTES p (st_disk s)")
  with run r obtain b where b: "x = Inr (Some b)"
    and x: "dedupe_history_state_from_bytes A p b d1 = (Inr (Some (sg, h)) :: SessionStoreError + _, d)"
    by (auto simp: dedupe_history_state_def act_simps split: sum.splits option.splits)
  have "contents (st_disk s) p = Some b" using fs_read_run rd b by auto
  moreover have "h = b \<and> ds_content_sha256 sg = sa_sha256 A b \<and> ds_file_len sg = length b"
    using x unfolding dedupe_history_state_from_bytes_def
    by (auto elim!: and_then_InrE simp: act_simps(1) split: option.splits if_splits)
  ultimately show "contents (st_disk s) p = Some h \<and> ds_content_sha256 sg = sa_sha256 A h \<and> ds_file_len sg = length h"
    by simp
qed

lemma calm_aside: "calm i s s' \<Longrightarrow> st_dedupe_cache s' = st_dedupe_cache s \<Longrightarrow> aside i s s'"
  by (simp add: calm_def aside_def)

text \<open>A hit in the cache is the entry of the event in the history.\<close>

lemma lookup_run:
  assumes h: "history_is A i ms s" and c: "cache_bound A i s \<and> no_collision A i s"
    and run: "protected_inbound_dedupe_cache_lookup A i (hist i) e s = (Inr r, s')"
  shows "history_is A i ms s'" and "r = Some x \<Longrightarrow> x = find_event e ms \<and> cache_current A i ms s'"
proof -
  have inv: "history_is A i ms (invalidate_protected_inbound_dedupe_cache i t)" if "history_is A i ms t" for t
    using that by (rule holdsD [OF kept_plain(3) _ update_def])
  have "history_is A i ms s' \<and> (\<forall>x. r = Some x \<longrightarrow> x = find_event e ms \<and> cache_current A i ms s')"
  proof (cases "hm_get (st_dedupe_cache s) i")
    case None
    with run h show ?thesis by (simp add: protected_inbound_dedupe_cache_lookup_def and_then_gets act_simps)
  next
    case (Some cache)
    note cache = this
    show ?thesis
    proof (cases "dc_complete cache")
      case False
      with run h cache show ?thesis by (simp add: protected_inbound_dedupe_cache_lookup_def and_then_gets act_simps)
    next
      case True
      note complete = this
      show ?thesis
      proof (cases "dc_history_signature cache")
        case None
        with c cache complete have e: "dc_entries cache = []" "dc_history_hasher cache = None" by (auto simp: cache_bound_def)
        show ?thesis
        proof (cases "fs_exists (hist i) (st_disk s)")
          case True
          with run cache complete None inv [OF h] show ?thesis
            by (auto simp: protected_inbound_dedupe_cache_lookup_def and_then_gets act_simps Let_def)
        next
          case False
          then have "ms = []" using h by (auto simp: history_is_def fs_exists_contents split: option.splits)
          with run cache complete None e h False show ?thesis
            by (auto simp: protected_inbound_dedupe_cache_lookup_def and_then_gets act_simps Let_def find_event_def
                cache_current_def)
        qed
      next
        case (Some sg)
        with c cache complete obtain b ns where b: "dc_history_hasher cache = Some b" "ds_content_sha256 sg = sa_sha256 A b"
          "decode_lines A i s (history_lines b) = Inr ns" "dc_entries cache = first_entries ns []"
          by (fastforce simp: cache_bound_def)
        from run cache complete Some obtain cur t where
          d: "on_disk (dedupe_history_state A (hist i)) s = (Inr cur :: SessionStoreError + _, t)"
          and tail: "(case cur of None \<Rightarrow> and_then (update (invalidate_protected_inbound_dedupe_cache i)) (\<lambda>_. return None)
             | Some (sg', hasher) \<Rightarrow>
                 if sg' \<noteq> sg then and_then (update (invalidate_protected_inbound_dedupe_cache i)) (\<lambda>_. return None)
                 else and_then (update (\<lambda>s. s\<lparr>st_dedupe_cache :=
                       hm_modify i (\<lambda>c. c\<lparr>dc_history_hasher := Some hasher\<rparr>) (st_dedupe_cache s)\<rparr>))
                     (\<lambda>_. return (Some (hm_get (dc_entries cache) e)))) t = (Inr r :: SessionStoreError + _, s')"
          unfolding protected_inbound_dedupe_cache_lookup_def
          by (simp add: and_then_gets Let_def) (erule and_then_InrE, blast)
        note dr = dedupe_state_run [OF d]
        have ht: "history_is A i ms t" using calm_history [OF dr(1) h] .
        have dc: "st_dedupe_cache t = st_dedupe_cache s" using d by (auto simp: on_disk_def split: prod.splits)
        show ?thesis
        proof (cases "\<exists>hasher. cur = Some (sg, hasher)")
          case False
          with tail inv [OF ht] show ?thesis by (auto simp: act_simps split: option.splits if_splits)
        next
          case True
          then obtain hasher where cur: "cur = Some (sg, hasher)" by blast
          note sig = dr(2) [OF cur]
          then have old: "old_bytes (st_disk s) (hist i) = hasher" "old_bytes (st_disk t) (hist i) = hasher"
            using dr(1) [of i] by (simp_all add: old_bytes_def calm_def)
          have "b = hasher" using c cache b(1,2) sig old(1) by (auto simp: no_collision_def)
          then have "ns = ms" using history_is_decode [OF h] old(1) b(3) by simp
          have s': "s' = t\<lparr>st_dedupe_cache := hm_modify i (\<lambda>c. c\<lparr>dc_history_hasher := Some hasher\<rparr>) (st_dedupe_cache t)\<rparr>"
            and r: "r = Some (hm_get (dc_entries cache) e)" using tail cur by (auto simp: act_simps)
          have "history_is A i ms s'" unfolding s' by (rule holdsD [OF kept_signatures_cache(4) ht update_def])
          moreover have "cache_current A i ms s'"
            using s' cache dc old(2) Some sig b(4) \<open>ns = ms\<close> complete by (auto simp: cache_current_def hm_simps)
          ultimately show ?thesis using r b(4) \<open>ns = ms\<close> by (simp add: find_event_def)
        qed
      qed
    qed
  qed
  then show "history_is A i ms s'" "r = Some x \<Longrightarrow> x = find_event e ms \<and> cache_current A i ms s'" by auto
qed

text \<open>After a scan the cache is that of the current contents, or incomplete.\<close>

lemma replace_current:
  assumes "\<And>sg h. hs = Some (sg, h) \<Longrightarrow> old_bytes (st_disk s) (hist i) = h \<and> ds_content_sha256 sg = sa_sha256 A h \<and>
      ds_file_len sg = length h"
    and "es = first_entries ms []"
  shows "cache_current A i ms (replace_protected_inbound_dedupe_cache i hs es s)"
  using assms by (cases hs) (auto simp: cache_current_def replace_protected_inbound_dedupe_cache_def Let_def hm_simps)

lemma read_verified_run:
  assumes ok: "digest_ok (sa_digest A)" and h: "history_is A i ms s" and run: "read_verified_history_bytes A (hist i) s = (Inr b, s')"
  shows "history_is A i ms s'" "contents (st_disk s') (hist i) = Some b" "same_config s s'"
proof -
  from run obtain u where x: "io (fs_read SESSION_HISTORY_FILE_MAX_BYTES (hist i)) s = (Inr (Some b), u)"
    and v: "verify_integrity_bytes A b (hist i) u = (Inr (), s')"
    unfolding read_verified_history_bytes_def
    by (auto elim!: and_then_InrE simp: act_simps(1,2) split: option.splits)
  from io_run [OF x] obtain d where d: "fs_read SESSION_HISTORY_FILE_MAX_BYTES (hist i) (st_disk s) = (Inr (Some b), d)"
    "u = s\<lparr>st_disk := d\<rparr>" by blast
  note rd = fs_read_run [OF d(1)]
  have hu: "history_is A i ms u" using history_is_disk [OF h, of d] rd d(2) by simp
  have bu: "contents (st_disk u) (hist i) = Some b" using rd d(2) by auto
  show "history_is A i ms s'" using kept_verify_bytes [OF ok hu _ v] bu by blast
  have a: "aside i u s'" using keepsD [OF aside_verify(1) v] .
  then show "contents (st_disk s') (hist i) = Some b" using bu by (simp add: aside_def)
  show "same_config s s'" using a d(2) by (auto simp: aside_def same_config_def)
qed

lemma dedupe_from_bytes_run:
  assumes "on_disk (dedupe_history_state_from_bytes A p b) s = (Inr r :: SessionStoreError + _, s')"
  shows "calm i s s'" and "st_dedupe_cache s' = st_dedupe_cache s"
    and "r = Some (sg, h) \<Longrightarrow> h = b \<and> ds_content_sha256 sg = sa_sha256 A b \<and> ds_file_len sg = length b"
proof -
  have "keeps (calm i) (on_disk (dedupe_history_state_from_bytes A p b))"
    unfolding dedupe_history_state_from_bytes_def by (intro calm_disk files.keeps_rules signature_files)
  from keepsD [OF this assms] show "calm i s s'" .
  show "st_dedupe_cache s' = st_dedupe_cache s" using assms by (auto simp: on_disk_def split: prod.splits)
  obtain d where "dedupe_history_state_from_bytes A p b (st_disk s) = (Inr r :: SessionStoreError + _, d)"
    using assms by (auto simp: on_disk_def split: prod.splits)
  then show "r = Some (sg, h) \<Longrightarrow> h = b \<and> ds_content_sha256 sg = sa_sha256 A b \<and> ds_file_len sg = length b"
    unfolding dedupe_history_state_from_bytes_def
    by (auto elim!: and_then_InrE simp: act_simps(1) split: option.splits if_splits)
qed

lemma find_in_history_run:
  assumes ok: "digest_ok (sa_digest A)" and h: "history_is A i ms s" and c: "cache_bound A i s \<and> no_collision A i s"
    and run: "find_inbound_event_in_history A i (hist i) ev s = (Inr lookup, s')"
  shows "history_is A i ms s' \<and> cache_current A i ms s' \<and>
    lk_entry lookup = find_event (canonical_inbound_event_id ev) ms \<and> \<not> lk_legacy_index_present lookup"
proof -
  let ?e = "canonical_inbound_event_id ev"
  from run obtain hit t where l: "protected_inbound_dedupe_cache_lookup A i (hist i) ?e s = (Inr hit, t)"
    and tail: "(case hit of
       Some entry \<Rightarrow> return (InboundEventIndexLookup_default\<lparr>lk_entry := entry, lk_matched_protected_history := (entry \<noteq> None)\<rparr>)
     | None \<Rightarrow>
         and_then (gets (\<lambda>s. fs_exists (hist i) (st_disk s))) (\<lambda>present.
         if \<not> present then
           and_then (update (replace_protected_inbound_dedupe_cache i None [])) (\<lambda>_. return InboundEventIndexLookup_default)
         else
           and_then (map_err history_integrity_error (read_verified_history_bytes A (hist i))) (\<lambda>b.
           and_then (on_disk (dedupe_history_state_from_bytes A (hist i) b)) (\<lambda>history_state.
           and_then (\<lambda>s. (dedupe_scan A i s ?e (history_lines b) InboundEventIndexLookup_default [], s)) (\<lambda>(lookup, es).
           and_then (update (replace_protected_inbound_dedupe_cache i history_state es)) (\<lambda>_. return lookup)))))) t = (Inr lookup, s')"
    unfolding find_inbound_event_in_history_def Let_def by (rule and_then_InrE)
  note lr = lookup_run [OF h c l]
  show ?thesis
  proof (cases hit)
    case (Some x)
    with tail lr show ?thesis by (auto simp: act_simps InboundEventIndexLookup_default_def)
  next
    case None
    show ?thesis
    proof (cases "fs_exists (hist i) (st_disk t)")
      case False
      then have "ms = []" using lr(1) by (auto simp: history_is_def fs_exists_contents split: option.splits)
      moreover have s': "s' = replace_protected_inbound_dedupe_cache i None [] t" "lookup = InboundEventIndexLookup_default"
        using tail None False by (simp_all add: and_then_gets act_simps)
      moreover have "history_is A i ms s'" unfolding s'(1) by (rule holdsD [OF kept_plain(5) lr(1) update_def])
      ultimately show ?thesis
        using replace_current [of None t i A "[]" "[]"] by (simp add: find_event_def InboundEventIndexLookup_default_def)
    next
      case True
      with tail None obtain b u hs v es where rd: "read_verified_history_bytes A (hist i) t = (Inr b, u)"
        and hs: "on_disk (dedupe_history_state_from_bytes A (hist i) b) u = (Inr hs :: SessionStoreError + _, v)"
        and scan: "dedupe_scan A i v ?e (history_lines b) InboundEventIndexLookup_default [] = Inr (lookup, es)"
        and s': "s' = replace_protected_inbound_dedupe_cache i hs es v"
        by (auto elim!: and_then_InrE simp: and_then_gets map_err_def act_simps(1,3) split: prod.splits sum.splits)
      note r = read_verified_run [OF ok lr(1) rd] and d = dedupe_from_bytes_run [OF hs]
      have hv: "history_is A i ms v" using calm_history [OF d(1) r(1)] .
      have old: "old_bytes (st_disk v) (hist i) = b" using d(1) [of i] r(2) by (simp add: calm_def old_bytes_def)
      from scan_result [OF scan] obtain ns where ns: "decode_lines A i v (history_lines b) = Inr ns" "es = first_entries ns []"
        "lk_entry lookup = find_event ?e ns" "\<not> lk_legacy_index_present lookup"
        by (auto simp: InboundEventIndexLookup_default_def)
      then have "ns = ms" using history_is_decode [OF hv] old by simp
      have "cache_current A i ms s'"
        unfolding s' using d(3) old ns(2) \<open>ns = ms\<close> by (intro replace_current) auto
      moreover have "history_is A i ms s'" unfolding s' by (rule holdsD [OF kept_plain(5) hv update_def])
      ultimately show ?thesis using ns \<open>ns = ms\<close> by simp
    qed
  qed
qed

subsection \<open>Appending an event\<close>

lemma file_metadata_run:
  assumes "on_disk (file_metadata p) s = (Inr r :: SessionStoreError + _, s')"
  shows "aside i s s'" and "r = Some f \<Longrightarrow> contents (st_disk s) p = Some (f_bytes f)"
proof -
  show a: "aside i s s'" using keepsD [OF aside_looking(6) assms] .
  obtain x d1 where t: "fs_try (st_disk s) = (x, d1)" by (cases "fs_try (st_disk s)")
  have "r = (case x of Inl _ \<Rightarrow> None | Inr _ \<Rightarrow> hm_get (d_files d1) p)"
    using assms t by (auto simp: on_disk_def file_metadata_def act_simps split: prod.splits)
  then show "r = Some f \<Longrightarrow> contents (st_disk s) p = Some (f_bytes f)"
    using fs_try_run [OF t, symmetric] by (auto simp: contents_def split: sum.splits)
qed

lemma forget_current: "cache_current A i ms (forget_dedupe_cache i s)"
  by (auto simp: cache_current_def forget_dedupe_cache_def hm_simps)

lemma first_entries_snoc:
  "inbound_dedupe_entry_from_message m = Some (e, entry) \<Longrightarrow> find_event e ms = None \<Longrightarrow>
   first_entries (ms @ [m]) [] = hm_insert e entry (first_entries ms [])"
  by (simp add: first_entries_append find_event_def hm_contains_def)

text \<open>The new entry goes into the cache together with the hash of the file it belongs to.\<close>

definition bind_cache :: "store_api \<Rightarrow> string \<Rightarrow> string \<Rightarrow> InboundEventIndexEntry \<Rightarrow> bytes \<Rightarrow> bytes option \<Rightarrow> SessionStore \<Rightarrow> SessionStore" where
  "bind_cache A i e entry b sidecar s =
     s\<lparr>st_dedupe_cache := hm_modify i
         (\<lambda>c. c\<lparr>dc_history_signature := Some \<lparr>ds_file_len = length b, ds_hmac_sidecar_sha256 = sidecar,
                  ds_content_sha256 = sa_sha256 A b\<rparr>,
                dc_history_hasher := Some b, dc_entries := hm_insert e entry (dc_entries c)\<rparr>) (st_dedupe_cache s)\<rparr>"

lemma cache_event_eq:
  assumes "\<not> is_protected_inbound_dedupe_marker m" "inbound_dedupe_entry_from_message m = Some (e, entry)"
    and "hm_get (st_dedupe_cache s) (cm_session_id m) = Some cache"
    and "dc_complete cache" "length (dc_entries cache) < PROTECTED_INBOUND_DEDUPE_CACHE_MAX_ENTRIES"
    and "dc_history_signature cache = None \<and> dc_history_hasher cache = None \<and> dc_entries cache = [] \<and> h = [] \<and> len = 0 \<or>
      (\<exists>sg. dc_history_signature cache = Some sg \<and> dc_history_hasher cache = Some h \<and> len = ds_file_len sg)"
  shows "cache_protected_inbound_event_from_message A m p appended s =
    and_then (on_disk (file_metadata p)) (\<lambda>meta. case meta of
       None \<Rightarrow> update (forget_dedupe_cache (cm_session_id m))
     | Some f \<Rightarrow>
         if u64_saturating_add len (length appended) \<noteq> length (f_bytes f) then update (forget_dedupe_cache (cm_session_id m))
         else and_then (on_disk (hmac_sidecar_sha256 A p)) (\<lambda>sidecar.
           update (\<lambda>s. s\<lparr>st_dedupe_cache := hm_modify (cm_session_id m)
               (\<lambda>c. c\<lparr>dc_history_signature := Some \<lparr>ds_file_len = length (f_bytes f), ds_hmac_sidecar_sha256 = sidecar,
                        ds_content_sha256 = sa_sha256 A (h @ appended)\<rparr>,
                      dc_history_hasher := Some (h @ appended), dc_entries := hm_insert e entry (dc_entries c)\<rparr>)
               (st_dedupe_cache s)\<rparr>))) s"
  using assms(6)
proof
  assume "\<exists>sg. dc_history_signature cache = Some sg \<and> dc_history_hasher cache = Some h \<and> len = ds_file_len sg"
  then obtain sg where "dc_history_signature cache = Some sg" "dc_history_hasher cache = Some h" "len = ds_file_len sg" by blast
  with assms show ?thesis
    by (simp add: cache_protected_inbound_event_from_message_def and_then_gets Let_def cong: option.case_cong)
next
  assume "dc_history_signature cache = None \<and> dc_history_hasher cache = None \<and> dc_entries cache = [] \<and> h = [] \<and> len = 0"
  then have base: "dc_history_signature cache = None" "dc_history_hasher cache = None" "dc_entries cache = []"
    and h: "h = []" "len = 0" by auto
  from base assms(1-5) show ?thesis unfolding h
    by (simp add: cache_protected_inbound_event_from_message_def and_then_gets Let_def cong: option.case_cong)
qed

lemma cache_event_run:
  assumes m: "\<not> is_protected_inbound_dedupe_marker m" "inbound_dedupe_entry_from_message m = Some (e, entry)"
      "cm_session_id m = i" "find_event e ms = None"
    and old: "contents (st_disk s) (hist i) = Some (b @ appended)" "b = [] \<Longrightarrow> ms = []" "length (b @ appended) < u64_max"
    and cur: "\<And>c. hm_get (st_dedupe_cache s) i = Some c \<Longrightarrow> dc_complete c \<Longrightarrow> (case dc_history_signature c of
        None \<Rightarrow> dc_entries c = [] \<and> dc_history_hasher c = None
      | Some sg \<Rightarrow> dc_history_hasher c = Some b \<and> ds_file_len sg = length b \<and> dc_entries c = first_entries ms [])"
      "\<And>c. hm_get (st_dedupe_cache s) i = Some c \<Longrightarrow> \<not> dc_complete c \<Longrightarrow> dc_history_hasher c = None"
    and run: "cache_protected_inbound_event_from_message A m (hist i) appended s = (Inr (), s')"
  shows "cache_current A i (ms @ [m]) s'"
proof (cases "\<exists>cache. hm_get (st_dedupe_cache s) i = Some cache \<and> dc_complete cache \<and>
    length (dc_entries cache) < PROTECTED_INBOUND_DEDUPE_CACHE_MAX_ENTRIES")
  case False
  with run m(1,2) have "s' = s \<and> (\<forall>c. hm_get (st_dedupe_cache s) i = Some c \<longrightarrow> \<not> dc_complete c) \<or> s' = forget_dedupe_cache i s"
    by (auto simp: cache_protected_inbound_event_from_message_def and_then_gets act_simps m(3)
        split: if_splits option.splits)
  with cur(2) forget_current show ?thesis by (auto simp: cache_current_def [of A i _ s])
next
  case True
  then obtain cache where cache: "hm_get (st_dedupe_cache s) i = Some cache" "dc_complete cache"
    "length (dc_entries cache) < PROTECTED_INBOUND_DEDUPE_CACHE_MAX_ENTRIES" by blast
  obtain h len where base: "dc_history_signature cache = None \<and> dc_history_hasher cache = None \<and> dc_entries cache = [] \<and> h = [] \<and> len = 0 \<or>
      (\<exists>sg. dc_history_signature cache = Some sg \<and> dc_history_hasher cache = Some h \<and> len = ds_file_len sg)"
    and known: "h = [] \<and> len = 0 \<and> dc_entries cache = [] \<or> h = b \<and> len = length b \<and> dc_entries cache = first_entries ms []"
    using cur(1) [OF cache(1,2)] by (cases "dc_history_signature cache") auto
  note eq = cache_event_eq [OF m(1,2) cache(1) [folded m(3)] cache(2,3) base, unfolded m(3)]
  from run [unfolded eq] obtain meta t where md: "on_disk (file_metadata (hist i)) s = (Inr meta :: SessionStoreError + _, t)"
    and tail: "(case meta of None \<Rightarrow> update (forget_dedupe_cache i)
     | Some f \<Rightarrow>
         if u64_saturating_add len (length appended) \<noteq> length (f_bytes f) then update (forget_dedupe_cache i)
         else and_then (on_disk (hmac_sidecar_sha256 A (hist i))) (\<lambda>sidecar.
           update (\<lambda>s. s\<lparr>st_dedupe_cache := hm_modify i
               (\<lambda>c. c\<lparr>dc_history_signature := Some \<lparr>ds_file_len = length (f_bytes f), ds_hmac_sidecar_sha256 = sidecar,
                        ds_content_sha256 = sa_sha256 A (h @ appended)\<rparr>,
                      dc_history_hasher := Some (h @ appended), dc_entries := hm_insert e entry (dc_entries c)\<rparr>)
               (st_dedupe_cache s)\<rparr>))) t = (Inr () :: SessionStoreError + _, s')"
    by (rule and_then_InrE)
  note mr = file_metadata_run [OF md]
  show ?thesis
  proof (cases "\<exists>f. meta = Some f \<and> u64_saturating_add len (length appended) = length (f_bytes f)")
    case False
    then have "s' = forget_dedupe_cache i t" using tail by (auto simp: act_simps split: option.splits if_splits)
    with forget_current show ?thesis by simp
  next
    case True
    then obtain f where f: "meta = Some f" "u64_saturating_add len (length appended) = length (f_bytes f)" by blast
    have fb: "f_bytes f = b @ appended" using mr(2) [OF f(1)] old(1) by simp
    have hb: "h = b \<and> dc_entries cache = first_entries ms []"
      using known f(2) fb old(2,3) by (auto simp: u64_saturating_add_def min_def split: if_splits)
    from tail f obtain sidecar u where sc: "on_disk (hmac_sidecar_sha256 A (hist i)) t = (Inr sidecar :: SessionStoreError + _, u)"
      and s': "s' = bind_cache A i e entry (b @ appended) sidecar u"
      using hb fb by (auto elim!: and_then_InrE simp: act_simps(3) bind_cache_def)
    have au: "aside i t u" using keepsD [OF aside_looking(5) sc] .
    have "old_bytes (st_disk u) (hist i) = b @ appended" "st_dedupe_cache u = st_dedupe_cache s"
      using au mr(1) [of i] old(1) by (simp_all add: aside_def old_bytes_def)
    with s' hb cache first_entries_snoc [OF m(2,4)] show ?thesis
      by (auto simp: cache_current_def hm_simps bind_cache_def)
  qed
qed

lemma append_event_run:
  assumes ok: "codec_ok A" "cipher_ok (sa_cipher A)" "digest_ok (sa_digest A)"
    and h: "history_is A i ms s" and c: "cache_current A i ms s"
    and m: "cm_session_id m = i" "\<not> is_protected_inbound_dedupe_marker m"
      "inbound_dedupe_entry_from_message m = Some (e, entry)" "find_event e ms = None"
    and run: "append_history_message_under_lock A (hist i) i m s = (Inr (), s')"
  shows "history_is A i (ms @ [m]) s' \<and> cache_current A i (ms @ [m]) s'"
proof
  show h': "history_is A i (ms @ [m]) s'" using append_message_run [OF ok h m(1) run] .
  from run obtain s1 l s2 s3 where cur: "ensure_history_file_current A (hist i) i s = (Inr (), s1)"
    and enc: "encode_history_message A m s1 = (Inr l, s2)"
    and app: "append_bytes A (hist i) i (l @ [newline]) s2 = (Inr (), s3)"
    and cache: "cache_protected_inbound_event_from_message A m (hist i) (l @ [newline]) s3 = (Inr (), s')"
    unfolding append_history_message_under_lock_def by (auto elim!: and_then_InrE)
  have a1: "aside i s s1" using keepsD [OF aside_ensure_history cur] .
  have a2: "aside i s1 s2" using keepsD [OF aside_encode] enc by (simp add: encode_history_message_def)
  note a = aside.trans [OF a1 a2]
  have h1: "history_is A i ms s1" using holdsD [OF kept_ensure_history [OF ok(3)] h cur] .
  have h2: "history_is A i ms s2" using holdsD [OF kept_encode h1] enc by (simp add: encode_history_message_def)
  have "same_config s1 s2" using a2 by (simp add: aside_def)
  then have "decode_lines A i s2 [l] = Inr [m]"
    using encode_history_line(2) [OF ok(1,2) enc] decode_history_config m(1) by auto
  note ab = append_bytes_run [OF ok(3) h2 _ this, of s3]
  let ?old = "old_bytes (st_disk s) (hist i)"
  have old: "old_bytes (st_disk s2) (hist i) = ?old" using a by (simp add: aside_def old_bytes_def)
  have con: "contents (st_disk s3) (hist i) = Some (?old @ l @ [newline])"
    using ab(2) encode_history_line(1) [OF ok(1,2) enc] app old by (simp add: join_lines_def)
  have "st_dedupe_cache s3 = st_dedupe_cache s2" using keepsD [OF cache_append_bytes app] by (simp add: same_cache_def)
  then have dc: "st_dedupe_cache s3 = st_dedupe_cache s" using a by (simp add: aside_def)
  have len: "length (?old @ l @ [newline]) < u64_max"
  proof -
    have "history_is A i (ms @ [m]) s3"
      using ab(1) encode_history_line(1) [OF ok(1,2) enc] app by (simp add: join_lines_def)
    with con have "length (?old @ l @ [newline]) \<le> SESSION_HISTORY_FILE_MAX_BYTES" by (simp add: history_is_def)
    then show ?thesis by (simp add: SESSION_HISTORY_FILE_MAX_BYTES_def u64_max_def)
  qed
  have "?old = [] \<Longrightarrow> ms = []" using history_is_decode [OF h] by simp
  moreover have "case dc_history_signature c of None \<Rightarrow> dc_entries c = [] \<and> dc_history_hasher c = None
      | Some sg \<Rightarrow> dc_history_hasher c = Some ?old \<and> ds_file_len sg = length ?old \<and> dc_entries c = first_entries ms []"
    if "hm_get (st_dedupe_cache s3) i = Some c" "dc_complete c" for c
    using that assms(5) dc by (auto simp: cache_current_def split: option.splits)
  moreover have "dc_history_hasher c = None" if "hm_get (st_dedupe_cache s3) i = Some c" "\<not> dc_complete c" for c
    using that assms(5) dc by (auto simp: cache_current_def)
  ultimately show "cache_current A i (ms @ [m]) s'"
    using cache_event_run [OF m(2,3,1,4) con _ len _ _ cache] by blast
qed

subsection \<open>Deliveries\<close>

text \<open>
  The legacy index of \<open>i\<close> has the name of a history file, so that the operations on \<open>i\<close> leave it alone like
  the history of another session.
\<close>

definition index :: "string \<Rightarrow> string" where
  "index i = i @ ''.inbound-events''"

lemma index_path: "session_inbound_event_index_path i = Inr p \<Longrightarrow> p = hist (index i)"
  by (auto simp: session_inbound_event_index_path_def hist_def index_def split: sum.splits)

lemma index_neq [simp]: "index i \<noteq> i" "i \<noteq> index i"
  by (simp_all add: index_def)

definition spared :: "string \<Rightarrow> SessionStore \<Rightarrow> SessionStore \<Rightarrow> bool" where
  "spared j s s' \<longleftrightarrow> contents (st_disk s') (hist j) = contents (st_disk s) (hist j)"

interpretation spared: state_relation "spared j"
  by unfold_locales (simp_all add: spared_def)

lemma aside_spared: "keeps (aside j) m \<Longrightarrow> keeps (spared j) m"
  by (erule keeps_mono) (simp add: aside_def spared_def)

lemma spared_disk: "keeps (same_files S) m \<Longrightarrow> hist j \<notin> S \<Longrightarrow> keeps (spared j) (on_disk m)"
  by (intro aside_spared aside_disk)

lemma spared_io: "keeps (same_files S) m \<Longrightarrow> hist j \<notin> S \<Longrightarrow> keeps (spared j) (io m)"
  by (intro aside_spared aside_io)

lemma spared_update: "(\<And>s. st_disk (f s) = st_disk s) \<Longrightarrow> keeps (spared j) (update f)"
  by (rule spared.keeps_update) (simp add: spared_def)

lemma spared_plain:
  "keeps (spared j) (update (mark_history_file_current i))" "keeps (spared j) (update (clear_history_hmac_state i))"
  "keeps (spared j) (update (invalidate_protected_inbound_dedupe_cache i))"
  "keeps (spared j) (update (forget_dedupe_cache i))"
  "keeps (spared j) (update (replace_protected_inbound_dedupe_cache i st es))"
  "keeps (spared j) (update (\<lambda>s. s\<lparr>st_dedupe_cache := f s\<rparr>))"
  "keeps (spared j) (update (\<lambda>s. s\<lparr>st_history_hmac_states := g s\<rparr>))"
  by (rule spared_update, simp add: mark_history_file_current_def clear_history_hmac_state_def
      invalidate_protected_inbound_dedupe_cache_def forget_dedupe_cache_def replace_protected_inbound_dedupe_cache_def Let_def)+

lemma dedupe_state_files:
  "keeps (same_files S) (dedupe_history_state_from_bytes A p b)" "keeps (same_files S) (dedupe_history_state A p)"
  unfolding dedupe_history_state_def dedupe_history_state_from_bytes_def
  by (intro files.keeps_rules keeps_fs signature_files)+

lemma spared_find: "keeps (spared j) (find_inbound_event_in_history A i p e)"
proof -
  have looking: "keeps (spared j) (on_disk (dedupe_history_state A p))"
    "keeps (spared j) (on_disk (dedupe_history_state_from_bytes A p b))" for b
    by (intro spared_disk [where S = "{}"] dedupe_state_files; simp)+
  have "keeps (spared j) (read_verified_history_bytes A p)"
    unfolding read_verified_history_bytes_def
    by (intro spared.keeps_rules aside_spared aside_looking aside_verify)
  moreover have "keeps (spared j) (protected_inbound_dedupe_cache_lookup A i p t)" for t
    unfolding protected_inbound_dedupe_cache_lookup_def by (intro spared.keeps_rules spared_plain looking)
  moreover have "keeps (spared j) (\<lambda>s. (g s, s))" for g :: "SessionStore \<Rightarrow> _" by (simp add: keeps_def)
  ultimately show ?thesis
    unfolding find_inbound_event_in_history_def by (intro spared.keeps_rules spared_plain looking)
qed

lemma append_files: "keeps (same_files {p}) (fs_append p b)"
  by (rule keeps_fs) simp

lemma prepare_files:
  "keeps (same_files {pending_hmac_path p}) (prepare_pending_hmac_file_for_appended_bytes_with_state D p st b)"
  "keeps (same_files {pending_hmac_path p}) (prepare_pending_hmac_file_for_appended_bytes D k p b)"
  "keeps (same_files {hmac_path p, pending_hmac_path p}) (commit_pending_hmac_sidecar p)"
  unfolding prepare_pending_hmac_file_for_appended_bytes_def AppendHmacState_from_path_def commit_pending_hmac_sidecar_def
    prepare_pending_hmac_file_for_appended_bytes_with_state_def write_pending_hmac_payload_def
  by (intro files.keeps_rules keeps_fs; simp)+

lemma spared_append: "j \<noteq> i \<Longrightarrow> keeps (spared j) (append_history_message_under_lock A (hist i) i m)"
proof -
  assume j: "j \<noteq> i"
  have prep: "keeps (spared j) (io (case c of
      Some st \<Rightarrow> prepare_pending_hmac_file_for_appended_bytes_with_state D (hist i) st b
    | None \<Rightarrow> prepare_pending_hmac_file_for_appended_bytes D k (hist i) b))" for c D k b
    by (cases c) (auto intro: spared_io [OF prepare_files(1)] spared_io [OF prepare_files(2)])
  have "keeps (spared j) (on_disk (sidecar_matches_state D p st))" for D p st
    by (rule spared_disk [OF matches_files [of "{}"]]) simp
  then have "keeps (spared j) (append_bytes A (hist i) i b)" for b
    unfolding append_bytes_def history_len_def prepare_history_hmac_for_appended_bytes_def commit_history_hmac_def
      store_history_hmac_state_def cached_history_hmac_state_for_append_def
    by (intro spared.keeps_rules aside_spared [OF aside_looking(1)] aside_spared [OF aside_looking(4)] spared_plain prep
        keeps_case_bool spared_io [OF append_files] spared_io [OF prepare_files(3)]) (use j in simp_all)
  then show ?thesis
    unfolding append_history_message_under_lock_def cache_protected_inbound_event_from_message_def encode_history_message_def
    by (intro spared.keeps_rules aside_spared [OF aside_ensure_history] aside_spared [OF aside_encode] spared_plain
        aside_spared [OF aside_looking(5)] aside_spared [OF aside_looking(6)])
qed

definition inbound_ready :: "store_api \<Rightarrow> string \<Rightarrow> ChatMessage list \<Rightarrow> SessionStore \<Rightarrow> bool" where
  "inbound_ready A i ms s \<longleftrightarrow>
     history_is A i ms s \<and> (cache_bound A i s \<and> no_collision A i s) \<and> contents (st_disk s) (hist (index i)) = None"

lemma ready_current:
  "history_is A i ms s \<Longrightarrow> cache_current A i ms s \<Longrightarrow> contents (st_disk s) (hist (index i)) = None \<Longrightarrow> inbound_ready A i ms s"
  using cache_current_bound by (auto simp: inbound_ready_def)

definition carries :: "string \<Rightarrow> ChatMessage \<Rightarrow> string \<Rightarrow> bool" where
  "carries i m ev \<longleftrightarrow> cm_session_id m = i \<and> \<not> is_protected_inbound_dedupe_marker m \<and>
     event_of m = Some (canonical_inbound_event_id ev)"

lemma find_index_run:
  assumes "digest_ok (sa_digest A)" "inbound_ready A i ms s"
    and "find_inbound_event_index_entry A i (hist i) (hist (index i)) ev s = (Inr lookup, s')"
  shows "history_is A i ms s' \<and> cache_current A i ms s' \<and> contents (st_disk s') (hist (index i)) = None \<and>
    lk_entry lookup = find_event (canonical_inbound_event_id ev) ms \<and> \<not> lk_legacy_index_present lookup"
proof -
  from assms(3) obtain l t where l: "find_inbound_event_in_history A i (hist i) ev s = (Inr l, t)"
    and tail: "and_then (gets (\<lambda>s. fs_exists (hist (index i)) (st_disk s))) (\<lambda>present.
     if \<not> present then return l
     else
       and_then (find_legacy_inbound_event_index_entry A (hist (index i)) ev) (\<lambda>legacy.
       return (l\<lparr>lk_legacy_index_present := True,
                     lk_corrupt_lines := u64_saturating_add (lk_corrupt_lines l) (lk_corrupt_lines legacy),
                     lk_entry := (case lk_entry l of None \<Rightarrow> lk_entry legacy | Some x \<Rightarrow> Some x)\<rparr>))) t = (Inr lookup, s')"
    unfolding find_inbound_event_index_entry_def by (rule and_then_InrE)
  have "contents (st_disk t) (hist (index i)) = None"
    using keepsD [OF spared_find l, of "index i"] assms(2) by (simp add: spared_def inbound_ready_def)
  then have "t = s'" "l = lookup" "contents (st_disk s') (hist (index i)) = None"
    using tail by (auto simp: and_then_gets fs_exists_contents act_simps)
  with find_in_history_run [OF assms(1) _ _ l, of ms] assms(2) show ?thesis by (auto simp: inbound_ready_def)
qed

lemma append_if_new_run:
  assumes ok: "codec_ok A" "cipher_ok (sa_cipher A)" "digest_ok (sa_digest A)" and r: "inbound_ready A i ms s"
    and m: "carries i m ev" and run: "append_message_if_new_inbound A m ev s = (Inr out, s')"
  defines "known \<equiv> find_event (canonical_inbound_event_id ev) ms"
  shows "io_appended out = (known = None) \<and> io_original_run_id out = Option.bind known ie_run_id \<and>
    inbound_ready A i (if known = None then ms @ [m] else ms) s'"
proof -
  have i: "cm_session_id m = i" and plain: "\<not> is_protected_inbound_dedupe_marker m"
    and ev: "event_of m = Some (canonical_inbound_event_id ev)" using m by (simp_all add: carries_def)
  from ev obtain entry where entry: "inbound_dedupe_entry_from_message m = Some (canonical_inbound_event_id ev, entry)"
    by (auto simp: event_of_def)
  from run obtain s1 s2 s3 hp ip s4 lookup s5 where base: "ensure_base_dir s = (Inr (), s1)"
    and req: "ensure_required_encryption_available s1 = (Inr (), s2)" and chk: "check_writable A i s2 = (Inr (), s3)"
    and p: "session_history_path i = Inr hp" "session_inbound_event_index_path i = Inr ip"
    and lock: "io fs_try s3 = (Inr (), s4)"
    and find: "find_inbound_event_index_entry A i hp ip ev s4 = (Inr lookup, s5)"
    and tail: "(case lk_entry lookup of
           Some entry \<Rightarrow>
             and_then (run_if (lk_legacy_index_present lookup \<and> \<not> lk_matched_protected_history lookup)
               (and_then (on_disk draw) (\<lambda>k.
                and_then (gets now_millis) (\<lambda>now.
                and_then (update (invalidate_protected_inbound_dedupe_cache i)) (\<lambda>_.
                append_history_message_under_lock A hp i
                  (protected_inbound_dedupe_marker (sa_uuid A k) now i entry)))))) (\<lambda>_.
             and_then (run_if (lk_legacy_index_present lookup) (delete_inbound_event_index ip)) (\<lambda>_.
             return \<lparr>io_appended = False, io_original_run_id = ie_run_id entry,
                     io_corrupt_index_lines = lk_corrupt_lines lookup\<rparr>))
         | None \<Rightarrow>
             and_then (append_history_message_under_lock A hp i m) (\<lambda>_.
             and_then (run_if (lk_legacy_index_present lookup) (delete_inbound_event_index ip)) (\<lambda>_.
             and_then (increment_message_count A i) (\<lambda>_.
             return \<lparr>io_appended = True, io_original_run_id = None,
                     io_corrupt_index_lines = lk_corrupt_lines lookup\<rparr>)))) s5 = (Inr out, s')"
    unfolding append_message_if_new_inbound_def Let_def i
    by (elim and_then_InrE) (auto simp: act_simps(5))
  note paths = history_path_hist [OF p(1)] index_path [OF p(2)]
  note h2 = holdsD [OF kept_required holdsD [OF kept_dirs(1) _ base] req]
  have h4: "history_is A i ms s4"
    using holdsD [OF kept_fs_try holdsD [OF kept_check_writable [OF ok(3)] h2 chk] lock] r by (simp add: inbound_ready_def)
  have a: "aside j s s4" for j
    using aside.trans [OF aside.trans [OF keepsD [OF aside_base base] keepsD [OF aside_required req]]
      aside.trans [OF keepsD [OF aside_check_writable chk] keepsD [OF aside_looking(1) lock]]] .
  have "inbound_ready A i ms s4"
    using r h4 cache_bound_other [OF a] a [of "index i"] by (simp add: inbound_ready_def aside_def)
  note f = find_index_run [OF ok(3) this find [unfolded paths]]
  show ?thesis
  proof (cases "known")
    case (Some x)
    then have "s' = s5" "io_appended out = False" "io_original_run_id out = ie_run_id x"
      using tail f by (auto simp: known_def run_if_def act_simps)
    with f Some ready_current show ?thesis by auto
  next
    case None
    from None tail f obtain s6 where app: "append_history_message_under_lock A (hist i) i m s5 = (Inr (), s6)"
      and inc: "increment_message_count A i s6 = (Inr (), s')"
      and out: "io_appended out" "io_original_run_id out = None"
      by (auto elim!: and_then_InrE simp: known_def run_if_def act_simps(1) paths)
    have c6: "history_is A i (ms @ [m]) s6 \<and> cache_current A i (ms @ [m]) s6"
      using append_event_run [OF ok _ _ i plain entry _ app] f None by (simp add: known_def)
    have ix: "contents (st_disk s6) (hist (index i)) = None"
      using keepsD [OF spared_append app, of "index i"] f by (simp add: spared_def)
    have ai: "aside j s6 s'" for j using keepsD [OF aside_increment inc] .
    have "inbound_ready A i (ms @ [m]) s'"
      using holdsD [OF kept_increment [OF ok(3)] _ inc] c6 cache_current_other [OF ai] ix ai [of "index i"]
      by (intro ready_current) (auto simp: aside_def)
    with None out show ?thesis by simp
  qed
qed

fun deliver_all :: "store_api \<Rightarrow> (ChatMessage \<times> string) list \<Rightarrow> InboundAppendOutcome list store_act" where
  "deliver_all A [] = return []"
| "deliver_all A ((m, ev) # ds) =
     and_then (append_message_if_new_inbound A m ev) (\<lambda>out.
     and_then (deliver_all A ds) (\<lambda>outs. return (out # outs)))"

text \<open>The deliveries of events that are not known yet, the first of each.\<close>

fun first_deliveries :: "string set \<Rightarrow> (ChatMessage \<times> string) list \<Rightarrow> ChatMessage list" where
  "first_deliveries known [] = []"
| "first_deliveries known ((m, ev) # ds) =
     (if canonical_inbound_event_id ev \<in> known then first_deliveries known ds
      else m # first_deliveries (insert (canonical_inbound_event_id ev) known) ds)"

definition events :: "ChatMessage list \<Rightarrow> string list" where
  "events ms = List.map_filter event_of ms"

lemma events_append: "events (ms @ ns) = events ms @ events ns"
  by (simp add: events_def List.map_filter_def)

lemma events_snoc: "event_of m = Some e \<Longrightarrow> events (ms @ [m]) = events ms @ [e]"
  by (simp add: events_def List.map_filter_def)

lemma deliver_all_run:
  assumes "codec_ok A" "cipher_ok (sa_cipher A)" "digest_ok (sa_digest A)"
    and "inbound_ready A i ms s" "list_all (\<lambda>(m, ev). carries i m ev) ds" "deliver_all A ds s = (Inr outs, s')"
  shows "inbound_ready A i (ms @ first_deliveries (set (events ms)) ds) s'"
  using assms(4-6)
proof (induction ds arbitrary: ms s outs)
  case Nil
  then show ?case by (simp add: act_simps)
next
  case (Cons d ds)
  obtain m ev where d: "d = (m, ev)" by (cases d)
  from Cons.prems(3) d obtain out t outs' where first: "append_message_if_new_inbound A m ev s = (Inr out, t)"
    and rest: "deliver_all A ds t = (Inr outs', s')"
    by (auto elim!: and_then_InrE simp: act_simps(1))
  have c: "carries i m ev" using Cons.prems(2) d by simp
  note step = append_if_new_run [OF assms(1-3) Cons.prems(1) c first]
  have known: "find_event (canonical_inbound_event_id ev) ms = None \<longleftrightarrow> canonical_inbound_event_id ev \<notin> set (events ms)"
    using find_event_iff [of "canonical_inbound_event_id ev" ms] by (auto simp: events_def)
  show ?case
  proof (cases "canonical_inbound_event_id ev \<in> set (events ms)")
    case True
    with step known Cons.IH [OF _ _ rest] Cons.prems(2) d show ?thesis by simp
  next
    case False
    have "events (ms @ [m]) = events ms @ [canonical_inbound_event_id ev]" using c events_snoc by (simp add: carries_def)
    with step known False Cons.IH [of "ms @ [m]", OF _ _ rest] Cons.prems(2) d show ?thesis by (simp add: insert_commute)
  qed
qed

lemma first_deliveries_events:
  "list_all (\<lambda>(m, ev). carries i m ev) ds \<Longrightarrow>
   distinct (events (first_deliveries known ds)) \<and> set (events (first_deliveries known ds)) \<inter> known = {} \<and>
   set (events (first_deliveries known ds)) \<union> known = known \<union> (canonical_inbound_event_id ` snd ` set ds)"
proof (induction ds arbitrary: known)
  case Nil
  then show ?case by (simp add: events_def List.map_filter_simps)
next
  case (Cons d ds)
  obtain m ev where d: "d = (m, ev)" by (cases d)
  let ?e = "canonical_inbound_event_id ev"
  have "events (m # xs) = ?e # events xs" for xs
    using Cons.prems d by (simp add: events_def List.map_filter_simps carries_def)
  with Cons.IH [of known] Cons.IH [of "insert ?e known"] Cons.prems d show ?case by auto
qed

text \<open>
  C30: An inbound event is stored once. Whatever the deliveries and their order, with repetitions, once they
  are all acknowledged the history is the old one followed by the first delivery of each event it did not
  hold yet; every delivered event is in it, and the delivered ones that are new are there exactly once. A
  cache from earlier operations may be stale, as long as its SHA-256 does not collide with that of the file.
\<close>

theorem inbound_events_stored_once:
  assumes "codec_ok A" "cipher_ok (sa_cipher A)" "digest_ok (sa_digest A)" "inbound_ready A i ms s"
    and "list_all (\<lambda>(m, ev). carries i m ev) ds" "deliver_all A ds s = (Inr outs, s')"
  shows "\<exists>new. fst (get_history A i None None (quiet_store s')) = Inr (visible (ms @ new)) \<and>
    new = first_deliveries (set (events ms)) ds \<and> distinct (events new) \<and> set (events new) \<inter> set (events ms) = {} \<and>
    canonical_inbound_event_id ` snd ` set ds \<subseteq> set (events (ms @ new))"
proof -
  let ?new = "first_deliveries (set (events ms)) ds"
  have "history_is A i (ms @ ?new) s'"
    using deliver_all_run [OF assms] by (simp add: inbound_ready_def)
  from history_is_read [OF assms(3) this] first_deliveries_events [OF assms(5), of "set (events ms)"]
  show ?thesis by (intro exI [of _ ?new]) (simp add: events_append, blast)
qed

text \<open>The same event delivered twice to an empty history.\<close>

definition ex_event :: "string \<Rightarrow> ChatMessage" where
  "ex_event i = (ex_message i)\<lparr>cm_metadata := Some (Object [(INBOUND_EVENT_ID_META_KEY, String ''e'')])\<rparr>"

lemma ex_event_simps [simp]: "cm_session_id (ex_event i) = ''a''" "\<not> is_protected_inbound_dedupe_marker (ex_event i)"
  "inbound_dedupe_entry_from_message (ex_event i) = Some (''e'', \<lparr>ie_event_id = ''e'', ie_run_id = None\<rparr>)"
  "canonical_inbound_event_id ''e'' = ''e''"
  by (simp_all add: ex_event_def ex_message_def ChatMessage_new_def is_protected_inbound_dedupe_marker_def
      inbound_dedupe_entry_from_message_def metadata_string_def canonical_inbound_event_id_def starts_with_def V2_PREFIX_def
       INBOUND_EVENT_ID_META_KEY_def INBOUND_RUN_ID_META_KEY_def INBOUND_DEDUPE_MARKER_META_KEY_def)

lemma ex_event_length: "length (sa_message_line ex_api (ex_event [c])) \<le> 9999"
proof -
  have "of_char c \<le> (673 :: nat)" using nat_of_char_less_256 [of c] by linarith
  then show ?thesis
    by (simp add: ex_api_def in_braces_def print_message_def ex_message_def ChatMessage_new_def print_pair_def print_string_def
     print_list_def print_option_def print_int_def ex_event_def INBOUND_EVENT_ID_META_KEY_def)
qed

definition ex_bound :: "nat \<Rightarrow> bytes \<Rightarrow> SessionStore" where
  "ex_bound n b = (ex_store n b)\<lparr>st_dedupe_cache := [(''a'',
     \<lparr>dc_complete = True, dc_history_signature = Some \<lparr>ds_file_len = length b, ds_hmac_sidecar_sha256 = None, ds_content_sha256 = b\<rparr>,
      dc_history_hasher = Some b, dc_entries = [(''e'', \<lparr>ie_event_id = ''e'', ie_run_id = None\<rparr>)]\<rparr>)]\<rparr>"

lemmas ex_find = append_message_if_new_inbound_def find_inbound_event_index_entry_def find_inbound_event_in_history_def
   protected_inbound_dedupe_cache_lookup_def read_verified_history_bytes_def fs_read_def verify_integrity_bytes_def is_encrypted_payload_def
   dedupe_history_state_from_bytes_def dedupe_history_state_def file_metadata_def hmac_sidecar_sha256_def session_inbound_event_index_path_def
   replace_protected_inbound_dedupe_cache_def fs_exists_def hmac_path_def InboundEventIndexLookup_default_def
   PROTECTED_INBOUND_DEDUPE_CACHE_MAX_ENTRIES_def

lemma not_prefix_Nil: "\<not> has_encrypted_payload_prefix []"
  by (simp add: has_encrypted_payload_prefix_def SESSION_ENCRYPTED_PREFIX_V1_def)

lemma ex_sha [simp]: "sa_sha256 ex_api b = b"
  by (simp add: ex_api_def)

lemma ex_deliver_new:
  assumes "length (sa_message_line ex_api (ex_event i)) < 10000"
  shows "append_message_if_new_inbound ex_api (ex_event i) ''e'' (ex_store 0 []) =
    (Inr \<lparr>io_appended = True, io_original_run_id = None, io_corrupt_index_lines = 0\<rparr>,
      ex_bound 1 (sa_message_line ex_api (ex_event i) @ [newline]))"
proof -
  have "u64_saturating_add 0 (Suc (length (sa_message_line ex_api (ex_event i)))) = Suc (length (sa_message_line ex_api (ex_event i)))"
    using assms by (simp add: u64_saturating_add_def u64_max_def)
  with ex_fits [of 0 "Suc (length (sa_message_line ex_api (ex_event i)))"] assms show ?thesis
    by (simp add: ex_bound_def ex_run ex_find Let_def not_prefix_Nil)
qed

lemma ex_deliver_known:
  assumes "length b \<le> 10001"
  shows "append_message_if_new_inbound ex_api (ex_event i) ''e'' (ex_bound n b) =
    (Inr \<lparr>io_appended = False, io_original_run_id = None, io_corrupt_index_lines = 0\<rparr>, ex_bound n b)"
  using assms by (simp add: ex_bound_def ex_run ex_find Let_def SESSION_HISTORY_FILE_MAX_BYTES_def)

theorem inbound_events_stored_once_witness:
  "\<exists>s'. deliver_all ex_api [(ex_event ''m'', ''e''), (ex_event ''n'', ''e'')] (ex_store 0 []) =
     (Inr [\<lparr>io_appended = True, io_original_run_id = None, io_corrupt_index_lines = 0\<rparr>,
           \<lparr>io_appended = False, io_original_run_id = None, io_corrupt_index_lines = 0\<rparr>], s') \<and>
     fst (get_history ex_api ''a'' None None (quiet_store s')) = Inr [ex_event ''m'']"
proof -
  have len: "length (sa_message_line ex_api (ex_event [c])) < 10000" for c
    using ex_event_length [of c] by linarith
  have run: "deliver_all ex_api [(ex_event ''m'', ''e''), (ex_event ''n'', ''e'')] (ex_store 0 []) =
     (Inr [\<lparr>io_appended = True, io_original_run_id = None, io_corrupt_index_lines = 0\<rparr>,
           \<lparr>io_appended = False, io_original_run_id = None, io_corrupt_index_lines = 0\<rparr>],
      ex_bound 1 (sa_message_line ex_api (ex_event ''m'') @ [newline]))"
    using ex_deliver_new [OF len] ex_deliver_known [of "sa_message_line ex_api (ex_event ''m'') @ [newline]"] len [of "CHR ''m''"]
    by (simp add: act_simps)
  have ready: "inbound_ready ex_api ''a'' [] (ex_store 0 [])"
    by (rule ready_current [OF ex_history])
      (simp_all add: cache_current_def ex_store_def with_base_path_def contents_ex_disk hist_def index_def)
  have "list_all (\<lambda>(m, ev). carries ''a'' m ev) [(ex_event ''m'', ''e''), (ex_event ''n'', ''e'')]"
    by (simp add: carries_def event_of_def)
  from inbound_events_stored_once [OF ex_api_ok ready this run] run show ?thesis
    by (auto simp: events_def List.map_filter_simps visible_def)
qed
end
