(* ===== verification/Session_Compaction.thy ===== *)
theory Session_Compaction
  imports Session_Inbound
begin

text \<open>
  Rewriting a history: compaction keeps the recent messages and remembers the inbound events of the ones it
  drops.
\<close>

subsection \<open>Rewriting the file\<close>

lemma replace_run:
  assumes "replace_sealed D key p b d = (Inr (), d')"
  shows "contents d' p = Some b" and "key = Some k \<Longrightarrow> contents d' (hmac_path p) = Some (encode_sidecar_hmac_v1 D (da_mac D k b))"
proof -
  from assms obtain d1 d2 d3 d4 where
    "fs_try d = (Inr (), d1)" and prep: "(case key of None \<Rightarrow> return () | Some k \<Rightarrow> prepare_pending_hmac_file D k b p) d1 = (Inr (), d2)"
    and inst: "fs_install p b d2 = (Inr (), d3)" and sync: "fs_try d3 = (Inr (), d4)"
    and com: "(case key of None \<Rightarrow> return () | Some _ \<Rightarrow> commit_pending_hmac_sidecar p) d4 = (Inr (), d')"
    unfolding replace_sealed_def by (auto elim!: and_then_InrE)
  have c4: "contents d4 = (contents d2)(p \<mapsto> b)" using fs_install_run [OF inst] fs_try_run [OF sync] by simp
  show "contents d' p = Some b"
  proof (cases key)
    case None
    with com c4 show ?thesis by (simp add: act_simps)
  next
    case (Some k)
    with prep have "contents d2 (pending_hmac_path p) = Some (encode_sidecar_hmac_v1 D (da_mac D k b))"
      using write_pending_run [of p _ d1 "Inr ()" d2] by (simp add: prepare_pending_hmac_file_def)
    with commit_run_ok [of p d4 d'] com Some c4 show ?thesis by simp
  qed
  assume k: "key = Some k"
  with prep have "contents d2 (pending_hmac_path p) = Some (encode_sidecar_hmac_v1 D (da_mac D k b))"
    using write_pending_run [of p _ d1 "Inr ()" d2] by (simp add: prepare_pending_hmac_file_def)
  with commit_run_ok [of p d4 d'] com k c4 show "contents d' (hmac_path p) = Some (encode_sidecar_hmac_v1 D (da_mac D k b))" by simp
qed

lemma history_is_config:
  "history_is A i ms s \<Longrightarrow> validate_session_id i = Inr () \<and> (st_encryption_mode s = Required \<longrightarrow> st_crypto s \<noteq> None)"
  by (simp add: history_is_def)

lemma encode_messages_config: "keeps same_config (encode_messages A ms)"
  by (induction ms) (auto simp: encode_history_message_def intro!: config.keeps_rules config_encode)

definition encoded_size_ok :: "store_api \<Rightarrow> string \<Rightarrow> SessionStore \<Rightarrow> bool" where
  "encoded_size_ok A i s \<longleftrightarrow>
     (case contents (st_disk s) (hist i) of None \<Rightarrow> True | Some b \<Rightarrow> length b \<le> SESSION_HISTORY_FILE_MAX_BYTES)"

lemma rewrite_run:
  assumes ok: "codec_ok A" "cipher_ok (sa_cipher A)"
    and avail: "validate_session_id i = Inr () \<and> (st_encryption_mode s = Required \<longrightarrow> st_crypto s \<noteq> None)"
    and ids: "list_all (\<lambda>m. cm_session_id m = i) ms"
    and run: "rewrite_history_file_from_messages A (hist i) i ms s = (Inr (), s')" and size: "encoded_size_ok A i s'"
  shows "history_is A i ms s' \<and> hm_get (st_dedupe_cache s') i = None"
proof -
  from run obtain b s1 s2 s3 where enc: "encode_messages A ms s = (Inr b, s1)"
    and rep: "io (replace_sealed (sa_digest A) (st_hmac_key s1) (hist i) b) s1 = (Inr (), s2)"
    and store: "(case st_hmac_key s1 of Some k \<Rightarrow> store_history_hmac_state A i (hist i) \<lparr>ah_key = k, ah_fed = b\<rparr>
       | None \<Rightarrow> update (clear_history_hmac_state i)) s2 = (Inr (), s3)"
    and s': "s' = invalidate_protected_inbound_dedupe_cache i (mark_history_file_current i s3)"
    unfolding rewrite_history_file_from_messages_def by (auto elim!: and_then_InrE simp: act_simps(3,4))
  obtain ls where ls: "b = join_lines ls" "list_all json_line ls" "decode_lines A i s ls = Inr ms"
    using encode_messages_lines [OF ok ids enc] by blast
  have c1: "same_config s s1" using keepsD [OF encode_messages_config enc] .
  from io_run [OF rep] obtain d where d: "replace_sealed (sa_digest A) (st_hmac_key s1) (hist i) b (st_disk s1) = (Inr (), d)"
    "s2 = s1\<lparr>st_disk := d\<rparr>" by auto
  note r = replace_run [OF d(1)]
  have c3: "same_config s2 s3 \<and> contents (st_disk s3) = contents (st_disk s2) \<and>
    (\<forall>c. hm_get (st_history_hmac_states s3) i = Some c \<longrightarrow> st_hmac_key s1 = Some (ah_key (hh_state c)) \<and> ah_fed (hh_state c) = b)"
  proof (cases "st_hmac_key s1")
    case None
    with store show ?thesis by (auto simp: act_simps same_config_def clear_history_hmac_state_def hm_simps)
  next
    case (Some k)
    with store have st: "store_history_hmac_state A i (hist i) \<lparr>ah_key = k, ah_fed = b\<rparr> s2 = (Inr (), s3)" by simp
    from store_hmac_run [OF st] Some show ?thesis by auto
  qed
  have cfg: "same_config s s3" using c1 c3 d(2) by (auto simp: same_config_def)
  have con: "contents (st_disk s3) (hist i) = Some b" using c3 d(2) r(1) by simp
  then have len: "length b \<le> SESSION_HISTORY_FILE_MAX_BYTES"
    using size by (simp add: encoded_size_ok_def s' invalidate_protected_inbound_dedupe_cache_def mark_history_file_current_def)
  have hm: "contents (st_disk s3) (hmac_path (hist i)) = Some (encode_sidecar_hmac_v1 (sa_digest A) (da_mac (sa_digest A) k b))"
    if "st_hmac_key s3 = Some k" for k
  proof -
    have "st_hmac_key s1 = Some k" using that c3 d(2) by (simp add: same_config_def)
    from r(2) [OF this] c3 d(2) show ?thesis by simp
  qed
  have "decode_lines A i s3 (history_lines b) = Inr ms"
    using ls history_lines_join [OF ls(2)] decode_lines_config [OF cfg] by simp
  moreover have "st_hmac_key s3 = st_hmac_key s1" "st_encryption_mode s3 = st_encryption_mode s" "st_crypto s3 = st_crypto s"
    using c3 cfg c1 by (simp_all add: same_config_def)
  ultimately have h3: "history_is A i ms s3"
    using avail con len hm c3 ls(1) by (simp add: history_is_def old_bytes_def)
  from holdsD [OF kept_plain(3) holdsD [OF kept_plain(1) h3 update_def] update_def]
  show ?thesis by (simp add: s' invalidate_protected_inbound_dedupe_cache_def hm_simps)
qed

subsection \<open>Markers\<close>

definition entry_of_event :: "InboundEventIndexEntry \<Rightarrow> string" where
  "entry_of_event x = canonical_inbound_event_id (ie_event_id x)"

lemma entry_key: "inbound_dedupe_entry_from_message m = Some (e, x) \<Longrightarrow> e = entry_of_event x"
  by (auto simp: inbound_dedupe_entry_from_message_def entry_of_event_def split: bind_splits)

lemma meta_keys [simp]:
  "INBOUND_EVENT_ID_META_KEY \<noteq> INBOUND_DEDUPE_MARKER_META_KEY" "INBOUND_DEDUPE_MARKER_META_KEY \<noteq> INBOUND_EVENT_ID_META_KEY"
  "INBOUND_RUN_ID_META_KEY \<noteq> INBOUND_DEDUPE_MARKER_META_KEY" "INBOUND_DEDUPE_MARKER_META_KEY \<noteq> INBOUND_RUN_ID_META_KEY"
  "INBOUND_RUN_ID_META_KEY \<noteq> INBOUND_EVENT_ID_META_KEY" "INBOUND_EVENT_ID_META_KEY \<noteq> INBOUND_RUN_ID_META_KEY"
  by (simp_all add: INBOUND_EVENT_ID_META_KEY_def INBOUND_DEDUPE_MARKER_META_KEY_def INBOUND_RUN_ID_META_KEY_def)

text \<open>A marker carries the event it stands for, and is not shown.\<close>

lemma marker_event: "event_of (protected_inbound_dedupe_marker u t i x) = Some (entry_of_event x)"
  by (cases "ie_run_id x")
    (simp_all add: event_of_def inbound_dedupe_entry_from_message_def protected_inbound_dedupe_marker_def
      metadata_string_def entry_of_event_def)

lemma marker_hidden:
  "ie_event_id x \<noteq> [] \<Longrightarrow> is_protected_inbound_dedupe_marker (protected_inbound_dedupe_marker u t i x)"
  by (cases "ie_run_id x")
    (simp_all add: is_protected_inbound_dedupe_marker_def protected_inbound_dedupe_marker_def ChatMessage_new_def)

lemma marker_session: "cm_session_id (protected_inbound_dedupe_marker u t i x) = i"
  by (simp add: protected_inbound_dedupe_marker_def ChatMessage_new_def)

lemma make_markers_run:
  "make_markers A i xs s = (Inr ms, s') \<Longrightarrow>
   list_all2 (\<lambda>x m. \<exists>u t. m = protected_inbound_dedupe_marker u t i x) xs ms"
  by (induction xs arbitrary: s ms) (fastforce elim!: and_then_InrE simp: act_simps(1))+

lemma kept_markers: "keeps (aside j) (make_markers A i xs)" "keeps (calm j) (make_markers A i xs)"
  by (induction xs) (auto intro!: aside.keeps_rules aside_looking calm.keeps_rules calm_disk keeps_fs)

lemma markers_events:
  assumes "list_all2 (\<lambda>x m. \<exists>u t. m = protected_inbound_dedupe_marker u t i x) xs ms"
  shows "events ms = map entry_of_event xs" and "list_all (\<lambda>m. cm_session_id m = i) ms"
    and "list_all (\<lambda>x. ie_event_id x \<noteq> []) xs \<Longrightarrow> visible ms = []"
  using assms
  by (induction rule: list_all2_induct)
    (auto simp: events_def List.map_filter_simps marker_event marker_session visible_def marker_hidden)

subsection \<open>Events that are preserved\<close>

lemma first_entries_keys: "fst ` set (first_entries ms es) = fst ` set es \<union> set (events ms)"
proof (induction ms arbitrary: es)
  case Nil
  then show ?case by (simp add: events_def List.map_filter_simps)
next
  case (Cons m ms)
  have ins: "fst ` set (hm_insert k v es) = insert k (fst ` set es)" for k and v :: InboundEventIndexEntry and es
    by (simp add: hm_insert_def dom_update)
  show ?case
  proof (cases "inbound_dedupe_entry_from_message m")
    case None
    with Cons show ?thesis by (simp add: events_def List.map_filter_simps event_of_def)
  next
    case (Some p)
    obtain e x where p: "p = (e, x)" by (cases p)
    let ?es = "if hm_contains es e then es else hm_insert e x es"
    have "hm_contains es e \<Longrightarrow> e \<in> fst ` set es" using hm_get_in by (force simp: hm_contains_def)
    then have "fst ` set ?es = insert e (fst ` set es)" using ins [of e x es] by (simp add: insert_absorb)
    with Some p Cons [of ?es] show ?thesis by (simp add: events_def List.map_filter_simps event_of_def)
  qed
qed

lemma collect_keys: "set (map fst (collect_inbound_dedupe_entries ms)) = set (events ms)"
  using first_entries_keys [of ms "[]"] by (simp add: collect_inbound_dedupe_entries_def)

lemma first_entries_values:
  "(e, x) \<in> set (first_entries ms es) \<Longrightarrow>
   (e, x) \<in> set es \<or> (\<exists>m \<in> set ms. inbound_dedupe_entry_from_message m = Some (e, x))"
proof (induction ms arbitrary: es)
  case (Cons m ms)
  have ins: "(e, x) \<in> set (hm_insert k v es) \<Longrightarrow> (e, x) = (k, v) \<or> (e, x) \<in> set es" for k v
    unfolding hm_insert_def by (induction es) (auto split: if_splits)
  from Cons.IH [OF Cons.prems [unfolded first_entries.simps]] ins show ?case
    by (auto split: option.splits if_splits)
qed simp

lemma preserved_events:
  "entry_of_event ` set (preserved_entries rewritten raw discarded) =
     set (events (filter is_protected_inbound_dedupe_marker raw @ discarded)) - set (events rewritten)"
proof -
  let ?ms = "filter is_protected_inbound_dedupe_marker raw @ discarded"
  have key: "e = entry_of_event x" if "(e, x) \<in> set (collect_inbound_dedupe_entries ?ms)" for e x
    using first_entries_values [of e x ?ms "[]"] that entry_key by (auto simp: collect_inbound_dedupe_entries_def)
  have "entry_of_event ` set (preserved_entries rewritten raw discarded) =
      {e \<in> set (map fst (collect_inbound_dedupe_entries ?ms)). e \<notin> set (events rewritten)}"
    using key by (force simp: preserved_entries_def collect_keys [of rewritten, simplified] image_iff)
  then show ?thesis using collect_keys [of ?ms] by auto
qed

text \<open>The rewritten history with the markers: the same events, and nothing more to see.\<close>

definition named_events :: "ChatMessage list \<Rightarrow> bool" where
  "named_events ms \<longleftrightarrow> (\<forall>m \<in> set ms. \<forall>e x. inbound_dedupe_entry_from_message m = Some (e, x) \<longrightarrow> ie_event_id x \<noteq> [])"

lemma preserved_named:
  assumes "named_events raw" "named_events discarded"
  shows "list_all (\<lambda>x. ie_event_id x \<noteq> []) (preserved_entries rewritten raw discarded)"
proof -
  let ?ms = "filter is_protected_inbound_dedupe_marker raw @ discarded"
  have "named_events ?ms" using assms by (auto simp: named_events_def)
  then have "ie_event_id x \<noteq> []" if "(e, x) \<in> set (collect_inbound_dedupe_entries ?ms)" for e x
    using first_entries_values [of e x ?ms "[]"] that by (auto simp: collect_inbound_dedupe_entries_def named_events_def)
  then show ?thesis by (auto simp: preserved_entries_def list_all_iff)
qed

lemma visible_append: "visible (ms @ ns) = visible ms @ visible ns"
  by (simp add: visible_def)

lemma rewrite_preserving_run:
  assumes ok: "codec_ok A" "cipher_ok (sa_cipher A)"
    and avail: "validate_session_id i = Inr () \<and> (st_encryption_mode s = Required \<longrightarrow> st_crypto s \<noteq> None)"
    and ids: "list_all (\<lambda>m. cm_session_id m = i) rewritten"
    and named: "named_events raw" "named_events discarded"
    and run: "rewrite_history_file_preserving_inbound_dedupe A (hist i) i rewritten raw discarded s = (Inr (), s')"
    and size: "encoded_size_ok A i s'"
  shows "\<exists>markers. history_is A i (rewritten @ markers) s' \<and> hm_get (st_dedupe_cache s') i = None \<and>
    length markers = length (preserved_entries rewritten raw discarded) \<and> visible markers = [] \<and>
    list_all (\<lambda>m. cm_session_id m = i) markers \<and>
    set (events markers) = set (events (filter is_protected_inbound_dedupe_marker raw @ discarded)) - set (events rewritten)"
proof -
  let ?xs = "preserved_entries rewritten raw discarded"
  from run obtain markers t where mk: "make_markers A i ?xs s = (Inr markers, t)"
    and rw: "rewrite_history_file_from_messages A (hist i) i (rewritten @ markers) t = (Inr (), s')"
    unfolding rewrite_history_file_preserving_inbound_dedupe_def by (auto elim!: and_then_InrE)
  note made = make_markers_run [OF mk] and ev = markers_events [OF make_markers_run [OF mk]]
  have "same_config s t" using keepsD [OF kept_markers(2) mk] by (simp add: calm_def)
  then have "validate_session_id i = Inr () \<and> (st_encryption_mode t = Required \<longrightarrow> st_crypto t \<noteq> None)"
    using avail by (simp add: same_config_def)
  from rewrite_run [OF ok this _ rw size] ids ev(2)
  have "history_is A i (rewritten @ markers) s' \<and> hm_get (st_dedupe_cache s') i = None" by simp
  moreover have "visible markers = []" using ev(3) preserved_named [OF named] by simp
  moreover have "set (events markers) = set (events (filter is_protected_inbound_dedupe_marker raw @ discarded)) - set (events rewritten)"
    using ev(1) preserved_events [of rewritten raw discarded] by simp
  ultimately show ?thesis using ev(2) list_all2_lengthD [OF made] by (intro exI [of _ markers]) simp
qed

lemma events_filter: "set (events (filter P ms)) \<union> set (events (filter (\<lambda>m. \<not> P m) ms)) = set (events ms)"
  by (induction ms) (auto simp: events_def List.map_filter_simps split: option.splits)

subsection \<open>Compaction\<close>

lemma and_then_attempt: "and_then (attempt m) f s = f (fst (m s)) (snd (m s))"
  by (simp add: act_simps split: prod.splits)

lemma kept_read_raw [history_kept]:
  assumes ok: "digest_ok (sa_digest A)"
  shows "holds (history_is A i ms) (read_raw_history_messages A (hist i) i) (\<lambda>_. True)"
proof -
  have "holds (history_is A i ms) (read_verified_history_bytes A (hist i)) (\<lambda>_. True)"
  proof (rule holdsI)
    fix s r s' assume s: "history_is A i ms s" and run: "read_verified_history_bytes A (hist i) s = (r, s')"
    from run have "history_is A i ms s'"
      unfolding read_verified_history_bytes_def
    proof (rule and_then_cases)
      fix e assume "io (fs_read SESSION_HISTORY_FILE_MAX_BYTES (hist i)) s = (Inl e, s')"
      then show ?thesis by (rule holdsD [OF kept_fs_read s])
    next
      fix x t assume rd: "io (fs_read SESSION_HISTORY_FILE_MAX_BYTES (hist i)) s = (Inr x, t)"
        and rest: "(case x of None \<Rightarrow> throw Io
          | Some content \<Rightarrow> and_then (verify_integrity_bytes A content (hist i)) (\<lambda>_. return content)) t = (r, s')"
      have t: "history_is A i ms t" using holdsD [OF kept_fs_read s rd] .
      from io_run [OF rd] fs_read_run have x: "x = contents (st_disk t) (hist i)" by fastforce
      show ?thesis
      proof (cases x)
        case None
        with rest t show ?thesis by (simp add: act_simps)
      next
        case (Some b)
        obtain v u where v: "verify_integrity_bytes A b (hist i) t = (v, u)" by (cases "verify_integrity_bytes A b (hist i) t")
        with rest Some have "s' = u" by (auto simp: act_simps split: sum.splits)
        with kept_verify_bytes [OF ok t _ v] x Some show ?thesis by simp
      qed
    qed
    then show "history_is A i ms s' \<and> (\<forall>x. r = Inr x \<longrightarrow> True)" by simp
  qed
  moreover have "holds (history_is A i ms) (\<lambda>s. (decode_lines A i s ls, s)) (\<lambda>_. True)" for ls
    by (rule holds_unchanged) simp
  ultimately show ?thesis
    unfolding read_raw_history_messages_def by (intro stays_rules)
qed

lemma compaction_failed: "restore_compaction_status_after_precommit_failure A x e s \<noteq> (Inr r, s')"
  unfolding restore_compaction_status_after_precommit_failure_def
  by (auto elim!: and_then_InrE simp: act_simps(2) and_then_attempt Let_def split: sum.splits)

definition summary_message :: "ChatMessage \<Rightarrow> string \<Rightarrow> string \<Rightarrow> bool" where
  "summary_message m i summary \<longleftrightarrow> (\<exists>u t. m = ChatMessage_new u t i System summary)"

lemma summary_message_props:
  "summary_message m i x \<Longrightarrow> cm_session_id m = i \<and> event_of m = None \<and> \<not> is_protected_inbound_dedupe_marker m"
  by (auto simp: summary_message_def ChatMessage_new_def event_of_def inbound_dedupe_entry_from_message_def
      is_protected_inbound_dedupe_marker_def)

lemma spared_rewrite:
  "j \<noteq> i \<Longrightarrow> keeps (spared j) (rewrite_history_file_preserving_inbound_dedupe A (hist i) i rewritten raw discarded)"
proof -
  assume j: "j \<noteq> i"
  have enc: "keeps (spared j) (encode_messages A ms)" for ms
    by (induction ms) (auto simp: encode_history_message_def intro!: spared.keeps_rules aside_spared [OF aside_encode])
  have "keeps (spared j) (io (replace_sealed D key (hist i) b))" for D key b
    by (rule spared_io [OF replace_sealed_files]) (use j in simp)
  then show ?thesis
    unfolding rewrite_history_file_preserving_inbound_dedupe_def rewrite_history_file_from_messages_def
      store_history_hmac_state_def
    by (intro spared.keeps_rules aside_spared [OF kept_markers(1)] enc spared_plain aside_spared [OF aside_looking(4)])
qed

lemma aside_read_raw: "keeps (spared j) (read_raw_history_messages A p i)"
proof -
  have "keeps (spared j) (\<lambda>s. (decode_lines A i s ls, s))" for ls by (simp add: keeps_def)
  then show ?thesis
    unfolding read_raw_history_messages_def read_verified_history_bytes_def
    by (intro spared.keeps_rules aside_spared [OF aside_looking(2)] aside_spared [OF aside_verify(1)])
qed

text \<open>The two ways in which a compaction goes through.\<close>

lemma compact_history_run:
  assumes run: "compact_history A (hist i) i keep summary_fn x s = (Inr r, s')"
  obtains (small) raw s1 where "read_raw_history_messages A (hist i) i s = (Inr raw, s1)" "length (visible raw) \<le> keep"
      "write_session_meta A (x\<lparr>ses_status := Active\<rparr>) s1 = (Inr (), s')"
  | (compacted) raw s1 k s2 s3 y s4 sm where "read_raw_history_messages A (hist i) i s = (Inr raw, s1)"
      "\<not> length (visible raw) \<le> keep" "on_disk draw s1 = (Inr k :: SessionStoreError + nat, s2)"
      "summary_message sm i (summary_fn (take (length (visible raw) - keep) (visible raw)))"
      "rewrite_history_file_preserving_inbound_dedupe A (hist i) i (sm # drop (length (visible raw) - keep) (visible raw))
         raw (take (length (visible raw) - keep) (visible raw)) s2 = (Inr (), s3)"
      "write_session_meta A y s3 = (Inr (), s4)" "s' = update_cached i y s4"
proof -
  obtain q s1 where q: "read_raw_history_messages A (hist i) i s = (q, s1)"
    by (cases "read_raw_history_messages A (hist i) i s")
  from run q obtain raw where raw: "q = Inr raw"
    by (cases q) (auto simp: compact_history_def and_then_attempt compaction_failed)
  note rd = q [unfolded raw]
  show thesis
  proof (cases "length (visible raw) \<le> keep")
    case True
    with rd run have "write_session_meta A (x\<lparr>ses_status := Active\<rparr>) s1 = (Inr (), s')"
      by (auto elim!: and_then_InrE simp: compact_history_def act_simps(1) and_then_attempt Let_def)
    from small [OF rd True this] show thesis .
  next
    case False
    let ?n = "length (visible raw) - keep"
    obtain k s2 where k: "on_disk draw s1 = (Inr k :: SessionStoreError + nat, s2)" by (auto simp: on_disk_def draw_def)
    let ?sm = "ChatMessage_new (sa_uuid A k) (now_millis s2) i System (summary_fn (take ?n (visible raw)))"
    let ?rw = "rewrite_history_file_preserving_inbound_dedupe A (hist i) i (?sm # drop ?n (visible raw)) raw (take ?n (visible raw)) s2"
    let ?y = "compacted_session (now_millis s2) keep ?n (summary_fn (take ?n (visible raw))) x"
    obtain w s3 where w: "?rw = (w, s3)" by (cases ?rw)
    have tail: "(case w of Inl e \<Rightarrow> restore_compaction_status_after_precommit_failure A x e
       | Inr _ \<Rightarrow> and_then (write_session_meta A ?y) (\<lambda>_. and_then (update (update_cached i ?y)) (\<lambda>_.
           return (sm_compaction (ses_metadata ?y))))) s3 = (Inr r, s')"
      using run False w rd
      by (simp add: compact_history_def and_then_attempt Let_def and_then_Inr [where m = "on_disk draw", OF k] and_then_gets)
    then obtain v where v: "w = Inr v" by (cases w) (auto simp: compaction_failed)
    with tail obtain s4 where s4: "write_session_meta A ?y s3 = (Inr (), s4)" "s' = update_cached i ?y s4"
      by (auto elim!: and_then_InrE simp: act_simps(1,3))
    have sm: "summary_message ?sm i (summary_fn (take ?n (visible raw)))" by (auto simp: summary_message_def)
    have "?rw = (Inr (), s3)" using w v by simp
    from compacted [OF rd False k sm this s4] show thesis .
  qed
qed

lemma visible_ids: "list_all P ms \<Longrightarrow> list_all P (visible ms)"
  by (auto simp: visible_def list_all_iff)

lemma drop_visible: "visible (drop n (visible ms)) = drop n (visible ms)"
  by (auto simp: visible_def filter_id_conv dest: in_set_dropD)

lemma events_Cons: "events (m # ms) = (case event_of m of None \<Rightarrow> events ms | Some e \<Rightarrow> e # events ms)"
  by (simp add: events_def List.map_filter_simps split: option.splits)

text \<open>
  What the rewritten file holds: the summary, the recent messages and the markers; together they carry the
  events of the old history.
\<close>

lemma compacted_events:
  assumes "summary_message sm i t"
    and "set (events markers) = set (events (filter is_protected_inbound_dedupe_marker ms @ take n (visible ms))) -
      set (events (sm # drop n (visible ms)))"
  shows "set (events (sm # drop n (visible ms) @ markers)) = set (events ms)"
proof -
  have sm: "events (sm # xs) = events xs" for xs using summary_message_props [OF assms(1)] by (simp add: events_Cons)
  have "set (events ms) = set (events (filter is_protected_inbound_dedupe_marker ms)) \<union> set (events (visible ms))"
    using events_filter [of is_protected_inbound_dedupe_marker ms] by (simp add: visible_def)
  also have "events (visible ms) = events (take n (visible ms)) @ events (drop n (visible ms))"
    by (metis append_take_drop_id events_append)
  finally show ?thesis using assms(2) by (auto simp: sm events_append)
qed

lemma compact_session_run:
  assumes ok: "codec_ok A" "cipher_ok (sa_cipher A)" "digest_ok (sa_digest A)" and h: "history_is A i ms s"
    and ids: "list_all (\<lambda>m. cm_session_id m = i) ms" and named: "named_events ms"
    and run: "compact_session A i keep summary_fn s = (Inr r, s')" and size: "encoded_size_ok A i s'"
    and big: "keep < length (visible ms)" and ix: "contents (st_disk s) (hist (index i)) = None"
  shows "\<exists>sm markers. summary_message sm i (summary_fn (take (length (visible ms) - keep) (visible ms))) \<and>
      visible markers = [] \<and>
      inbound_ready A i (sm # drop (length (visible ms) - keep) (visible ms) @ markers) s' \<and>
      set (events (sm # drop (length (visible ms) - keep) (visible ms) @ markers)) = set (events ms)"
proof -
  let ?n = "length (visible ms) - keep"
  from run obtain x s1 p s2 s3 where gs: "get_session A i s = (Inr x, s1)" "session_history_path i = Inr p"
      "io fs_try s1 = (Inr (), s2)" "write_session_meta A (x\<lparr>ses_status := Compacting\<rparr>) s2 = (Inr (), s3)"
    and ch: "compact_history A p i keep summary_fn (x\<lparr>ses_status := Compacting\<rparr>) s3 = (Inr r, s')"
    unfolding compact_session_def
    by (auto elim!: and_then_InrE simp: act_simps(2,5) Let_def split: if_splits)
  have h3: "history_is A i ms s3"
    using holdsD [OF kept_write_meta holdsD [OF kept_fs_try holdsD [OF kept_get_session [OF ok(3)] h gs(1)] gs(3)] gs(4)] .
  have a3: "aside j s s3" for j
    using aside.trans [OF aside.trans [OF keepsD [OF aside_get_session gs(1)] keepsD [OF aside_looking(1) gs(3)]]
      keepsD [OF aside_write_meta gs(4)]] .
  from ch [unfolded history_path_hist [OF gs(2)]] show ?thesis
  proof (cases rule: compact_history_run)
    case (small raw t)
    have "raw = ms" using read_raw_result [OF h3 small(1)] .
    with small(2) big show ?thesis by simp
  next
    case (compacted raw t1 k t2 t3 y t4 sm)
    have raw: "raw = ms" using read_raw_result [OF h3 compacted(1)] .
    have h1: "history_is A i ms t1" using holdsD [OF kept_read_raw [OF ok(3)] h3 compacted(1)] .
    have h2: "history_is A i ms t2" using holdsD [OF kept_draw h1 compacted(3)] .
    have a4: "aside j t3 s'" for j
      unfolding compacted(7) using aside.trans [OF keepsD [OF aside_write_meta compacted(6)]
        keepsD [OF aside_plain(4) update_def]] .
    have size3: "encoded_size_ok A i t3" using size a4 [of i] by (simp add: encoded_size_ok_def aside_def)
    have ids': "list_all (\<lambda>m. cm_session_id m = i) (sm # drop ?n (visible ms))"
      using summary_message_props [OF compacted(4)] visible_ids [OF ids] by (auto simp: list_all_iff dest: in_set_dropD)
    have named': "named_events (take ?n (visible ms))"
    proof -
      have "set (take ?n (visible ms)) \<subseteq> set ms" using set_take_subset [of ?n "visible ms"] by (auto simp: visible_def)
      with named show ?thesis by (auto simp: named_events_def)
    qed
    note rw = rewrite_preserving_run [OF ok(1,2) history_is_config [OF h2] ids' named named' compacted(5) [unfolded raw] size3]
    from rw obtain markers where m: "history_is A i ((sm # drop ?n (visible ms)) @ markers) t3"
      "hm_get (st_dedupe_cache t3) i = None" "visible markers = []"
      "set (events markers) = set (events (filter is_protected_inbound_dedupe_marker ms @ take ?n (visible ms))) -
         set (events (sm # drop ?n (visible ms)))" by blast
    have h': "history_is A i (sm # drop ?n (visible ms) @ markers) s'"
      unfolding compacted(7)
      using holdsD [OF kept_plain(7) holdsD [OF kept_write_meta m(1) compacted(6)] update_def] by simp
    have "cache_current A i ms' t3" for ms' using m(2) by (simp add: cache_current_def)
    then have c': "cache_current A i ms' s'" for ms' using cache_current_other [OF a4] by blast
    have "contents (st_disk t3) (hist (index i)) = None"
      using ix a3 [of "index i"] keepsD [OF aside_read_raw compacted(1), of "index i"]
        keepsD [OF aside_looking(3) compacted(3), of "index i"]
        keepsD [OF spared_rewrite compacted(5), of "index i"] by (simp add: aside_def spared_def)
    then have "contents (st_disk s') (hist (index i)) = None" using a4 [of "index i"] by (simp add: aside_def)
    from ready_current [OF h' c' this] compacted_events [OF compacted(4) [unfolded raw] m(4)] compacted(4) m(3) raw
    show ?thesis by blast
  qed
qed

subsection \<open>Properties\<close>

text \<open>
  C31: Compaction loses no recent message and forgets no inbound event: after a successful compaction the
  history reads as the summary of the older messages followed by the most recent ones in full, and the
  delivery of an event that the old history held is still recognised and not stored again.
\<close>

theorem compaction_remembers_events:
  assumes "codec_ok A" "cipher_ok (sa_cipher A)" "digest_ok (sa_digest A)" "history_is A i ms s"
    and "list_all (\<lambda>m. cm_session_id m = i) ms" "named_events ms" "keep < length (visible ms)"
    and "compact_session A i keep summary_fn s = (Inr r, s')" "encoded_size_ok A i s'"
    and "contents (st_disk s) (hist (index i)) = None"
  shows "(\<exists>sm. summary_message sm i (summary_fn (take (length (visible ms) - keep) (visible ms))) \<and>
      fst (get_history A i None None (quiet_store s')) = Inr (sm # drop (length (visible ms) - keep) (visible ms))) \<and>
    (\<forall>m ev out s''. carries i m ev \<longrightarrow> canonical_inbound_event_id ev \<in> set (events ms) \<longrightarrow>
       append_message_if_new_inbound A m ev s' = (Inr out, s'') \<longrightarrow> \<not> io_appended out)"
proof -
  let ?n = "length (visible ms) - keep"
  from compact_session_run [OF assms(1-6) assms(8,9,7,10)] obtain sm markers where
    sm: "summary_message sm i (summary_fn (take ?n (visible ms)))" and v: "visible markers = []"
    and r: "inbound_ready A i (sm # drop ?n (visible ms) @ markers) s'"
    and ev: "set (events (sm # drop ?n (visible ms) @ markers)) = set (events ms)" by blast
  have "visible (sm # drop ?n (visible ms) @ markers) = sm # drop ?n (visible ms)"
    using summary_message_props [OF sm] v drop_visible [of ?n ms] by (simp add: visible_def)
  moreover have "history_is A i (sm # drop ?n (visible ms) @ markers) s'" using r by (simp add: inbound_ready_def)
  ultimately have "fst (get_history A i None None (quiet_store s')) = Inr (sm # drop ?n (visible ms))"
    using history_is_read [OF assms(3)] by metis
  moreover have "\<not> io_appended out"
    if "carries i m e" "canonical_inbound_event_id e \<in> set (events ms)"
      "append_message_if_new_inbound A m e s' = (Inr out, s'')" for m e out s''
    using append_if_new_run [OF assms(1-3) r that(1,3)] that(2) ev
      find_event_iff [of "canonical_inbound_event_id e" "sm # drop ?n (visible ms) @ markers"]
    by (simp add: events_def)
  ultimately show ?thesis using sm by blast
qed

text \<open>Two messages, of which one is kept.\<close>

abbreviation ex_line :: "string \<Rightarrow> bytes" where
  "ex_line i \<equiv> sa_message_line ex_api (ex_message i) @ [newline]"

lemma ex_two: "history_is ex_api ''a'' [ex_message ''m'', ex_message ''n''] (ex_store 2 (ex_line ''m'' @ ex_line ''n''))"
proof -
  have s: "append_message ex_api (ex_message ''m'') (ex_store 0 []) = (Inr (), ex_store (Suc 0) (ex_line ''m''))"
    using ex_append(1) [of 0 "[]" "''m''", OF _ ex_fits] ex_line_length [of "CHR ''m''"] by simp
  have t: "append_message ex_api (ex_message ''n'') (ex_store (Suc 0) (ex_line ''m'')) = (Inr (), ex_store 2 (ex_line ''m'' @ ex_line ''n''))"
    using ex_append(1) [of "Suc 0" "ex_line ''m''" "''n''", OF _ ex_fits] ex_line_length [of "CHR ''m''"] ex_line_length [of "CHR ''n''"]
    by (simp add: numeral_2_eq_2)
  have "history_is ex_api ''a'' [ex_message ''m''] (ex_store (Suc 0) (ex_line ''m''))"
    using append_message_history [OF ex_api_ok, of "ex_message ''m''" "[]", simplified, OF ex_history s] .
  from append_message_history [OF ex_api_ok, of "ex_message ''n''" "[ex_message ''m'']", simplified, OF this t]
  show ?thesis by simp
qed

lemma ex_preserved: "preserved_entries xs [ex_message i, ex_message j] [ex_message k] = []"
  by (simp add: preserved_entries_def collect_inbound_dedupe_entries_def)

lemma ex_visible: "visible [ex_message i, ex_message j] = [ex_message i, ex_message j]"
  by (simp add: visible_def)

text \<open>Writing without encryption and HMAC on a disk on which nothing fails.\<close>

definition plain_store :: "SessionStore \<Rightarrow> bool" where
  "plain_store s \<longleftrightarrow> st_crypto s = None \<and> st_hmac_key s = None \<and> st_encryption_mode s = Off \<and> quiet (st_disk s) \<and> d_base (st_disk s)"

lemma plain_write_meta:
  assumes "plain_store s" "validate_session_id (ses_id x) = Inr ()"
  shows "write_session_meta A x s =
    (Inr (), s\<lparr>st_disk := fs_put (ses_id x @ ''.json'') (sa_session_pretty A x) (st_disk s)\<rparr>)"
  using assms by (simp add: plain_store_def write_session_meta_def ensure_base_dir_def ensure_required_encryption_available_def
      session_meta_path_def io_def on_disk_def act_simps quiet_simps encode_session_metadata_def encode_payload_def
      replace_sealed_def)

lemma plain_encode: "plain_store s \<Longrightarrow> encode_messages A ms s = (Inr (concat (map (\<lambda>m. sa_message_line A m @ [newline]) ms)), s)"
  by (induction ms) (simp_all add: plain_store_def act_simps encode_history_message_def encode_payload_def)

lemma d_base_put [simp]: "d_base (fs_put p b d) = d_base d"
  by (simp add: fs_put_def)

lemma plain_rewrite:
  assumes "plain_store s" "preserved_entries rewritten raw discarded = []"
  shows "\<exists>s'. rewrite_history_file_preserving_inbound_dedupe A p i rewritten raw discarded s = (Inr (), s') \<and> plain_store s' \<and>
    contents (st_disk s') p = Some (concat (map (\<lambda>m. sa_message_line A m @ [newline]) rewritten))"
proof -
  have q: "quiet (st_disk s)" "st_hmac_key s = None" using assms(1) by (simp_all add: plain_store_def)
  show ?thesis using assms
    by (auto simp: rewrite_history_file_preserving_inbound_dedupe_def rewrite_history_file_from_messages_def
      plain_encode [OF assms(1)] q io_def on_disk_def act_simps quiet_simps replace_sealed_def plain_store_def
      clear_history_hmac_state_def mark_history_file_current_def invalidate_protected_inbound_dedupe_cache_def)
qed

lemma plain_put: "plain_store s \<Longrightarrow> plain_store (s\<lparr>st_disk := fs_put p b (st_disk s)\<rparr>)"
  by (simp add: plain_store_def)

lemma ex_plain: "plain_store (ex_store n b)"
  by (simp add: plain_store_def ex_store_def with_base_path_def ex_disk_def quiet_def)

lemma compact_history_eval:
  assumes "read_raw_history_messages A hp i s = (Inr raw, s1)" "visible raw = to_compact @ to_keep" "to_compact \<noteq> []"
    and dr: "on_disk draw s1 = (Inr k :: SessionStoreError + nat, s2)"
    and "rewrite_history_file_preserving_inbound_dedupe A hp i
      (ChatMessage_new (sa_uuid A k) (now_millis s2) i System (f to_compact) # to_keep) raw to_compact s2 = (Inr (), s3)"
    and y: "y = compacted_session (now_millis s2) (length to_keep) (length to_compact) (f to_compact) x"
    and "write_session_meta A y s3 = (Inr (), s4)"
  shows "compact_history A hp i (length to_keep) f x s = (Inr (sm_compaction (ses_metadata y)), update_cached i y s4)"
  using assms
  by (simp add: compact_history_def and_then_attempt Let_def and_then_Inr [where m = "on_disk draw", OF dr] and_then_gets)
    (simp add: act_simps)

lemma compact_session_eval:
  assumes "get_session A i s = (Inr x, s0)" "ses_status x = Active" "session_history_path i = Inr hp" "io fs_try s0 = (Inr (), s1)"
    and "write_session_meta A (x\<lparr>ses_status := Compacting\<rparr>) s1 = (Inr (), s2)"
    and "compact_history A hp i keep f (x\<lparr>ses_status := Compacting\<rparr>) s2 = (r, s3)"
  shows "compact_session A i keep f s = (r, s3)"
  using assms by (simp add: compact_session_def Let_def act_simps)

lemma ex_compact:
  "\<exists>r s'. compact_session ex_api ''a'' 1 (\<lambda>_. ''s'') (ex_store 2 (ex_line ''m'' @ ex_line ''n'')) = (Inr r, s') \<and>
    encoded_size_ok ex_api ''a'' s'"
proof -
  let ?s = "ex_store 2 (ex_line ''m'' @ ex_line ''n'')"
  let ?x = "(Session_with_session_key ''a'' 0 ''k'' ex_metadata)\<lparr>ses_message_count := 2\<rparr>"
  have id: "ses_id ?x = ''a''" by (simp add: Session_with_session_key_def)
  let ?s1 = "?s\<lparr>st_disk := fs_put ''a.json'' (sa_session_pretty ex_api (?x\<lparr>ses_status := Compacting\<rparr>)) (st_disk ?s)\<rparr>"
  have wm: "write_session_meta ex_api (?x\<lparr>ses_status := Compacting\<rparr>) ?s = (Inr (), ?s1)"
    using plain_write_meta [OF ex_plain, of "?x\<lparr>ses_status := Compacting\<rparr>" ex_api] id valid_a by simp
  have p1: "plain_store ?s1" using plain_put [OF ex_plain] .
  have h1: "history_is ex_api ''a'' [ex_message ''m'', ex_message ''n''] ?s1" using holdsD [OF kept_write_meta ex_two wm] .
  have rd: "read_raw_history_messages ex_api (hist ''a'') ''a'' ?s1 = (Inr [ex_message ''m'', ex_message ''n''], ?s1)"
    using read_raw_quiet [OF ex_api_ok(3) h1] p1 by (simp add: plain_store_def)
  obtain s2 where dr: "on_disk draw ?s1 = (Inr 0 :: SessionStoreError + nat, s2)" and p2: "plain_store s2" "now_millis s2 = 0"
    using p1 by (auto simp: on_disk_def draw_def plain_store_def ex_store_def with_base_path_def ex_disk_def now_millis_def)
  let ?sm = "ChatMessage_new (sa_uuid ex_api 0) 0 ''a'' System ''s''"
  obtain s3 where rw: "rewrite_history_file_preserving_inbound_dedupe ex_api (hist ''a'') ''a'' [?sm, ex_message ''n'']
      [ex_message ''m'', ex_message ''n''] [ex_message ''m''] s2 = (Inr (), s3)" and p3: "plain_store s3"
    "contents (st_disk s3) (hist ''a'') = Some (concat (map (\<lambda>m. sa_message_line ex_api m @ [newline]) [?sm, ex_message ''n'']))"
    using plain_rewrite [OF p2(1) ex_preserved] by blast
  let ?y = "compacted_session 0 1 1 ''s'' (?x\<lparr>ses_status := Compacting\<rparr>)"
  have wy: "write_session_meta ex_api ?y s3 = (Inr (), s3\<lparr>st_disk := fs_put ''a.json'' (sa_session_pretty ex_api ?y) (st_disk s3)\<rparr>)"
    using plain_write_meta [OF p3(1), of ?y ex_api] id valid_a by (simp add: compacted_session_def Let_def)
  have gs: "get_session ex_api ''a'' ?s = (Inr ?x, ?s)" by (simp add: ex_run)
  have lock: "io fs_try ?s = (Inr (), ?s)"
    using ex_plain [of 2 "ex_line ''m'' @ ex_line ''n''"] by (simp add: plain_store_def io_def on_disk_def act_simps quiet_simps)
  have st: "ses_status ?x = Active" by (simp add: Session_with_session_key_def)
  have hp: "session_history_path ''a'' = Inr (hist ''a'')" by (simp add: session_history_path_def valid_a hist_def)
  have "compact_history ex_api (hist ''a'') ''a'' (length [ex_message ''n'']) (\<lambda>_. ''s'') (?x\<lparr>ses_status := Compacting\<rparr>) ?s1 =
      (Inr (sm_compaction (ses_metadata ?y)), update_cached ''a'' ?y (s3\<lparr>st_disk := fs_put ''a.json'' (sa_session_pretty ex_api ?y) (st_disk s3)\<rparr>))"
    by (rule compact_history_eval [OF rd _ _ dr, of "[ex_message ''m'']" "[ex_message ''n'']" "\<lambda>_. ''s''" s3 ?y, unfolded p2(2), OF _ _ rw _ wy])
      (simp_all add: ex_visible)
  from compact_session_eval [OF gs st hp lock wm this]
  have "compact_session ex_api ''a'' 1 (\<lambda>_. ''s'') ?s =
     (Inr (sm_compaction (ses_metadata ?y)), update_cached ''a'' ?y (s3\<lparr>st_disk := fs_put ''a.json'' (sa_session_pretty ex_api ?y) (st_disk s3)\<rparr>))"
    by simp
  moreover have "length (sa_message_line ex_api ?sm) \<le> 1000"
    by (simp add: ex_api_def in_braces_def print_message_def ChatMessage_new_def print_pair_def print_string_def
        print_list_def print_option_def print_int_def)
  ultimately show ?thesis
    using p3(2) ex_line_length [of "CHR ''n''"]
    by (auto simp: encoded_size_ok_def update_cached_def SESSION_HISTORY_FILE_MAX_BYTES_def hist_def)
qed

theorem compaction_remembers_events_witness:
  "\<exists>r s' sm. compact_session ex_api ''a'' 1 (\<lambda>_. ''s'') (ex_store 2 (ex_line ''m'' @ ex_line ''n'')) = (Inr r, s') \<and>
     summary_message sm ''a'' ''s'' \<and>
     fst (get_history ex_api ''a'' None None (quiet_store s')) = Inr [sm, ex_message ''n'']"
proof -
  obtain r s' where run: "compact_session ex_api ''a'' 1 (\<lambda>_. ''s'') (ex_store 2 (ex_line ''m'' @ ex_line ''n'')) = (Inr r, s')"
    and size: "encoded_size_ok ex_api ''a'' s'" using ex_compact by blast
  have "list_all (\<lambda>m. cm_session_id m = ''a'') [ex_message ''m'', ex_message ''n'']"
    "named_events [ex_message ''m'', ex_message ''n'']" "1 < length (visible [ex_message ''m'', ex_message ''n''])"
    by (simp_all add: named_events_def ex_visible)
  moreover have "contents (st_disk (ex_store 2 (ex_line ''m'' @ ex_line ''n''))) (hist (index ''a'')) = None"
    by (simp add: ex_store_def with_base_path_def contents_ex_disk hist_def index_def)
  ultimately show ?thesis
    using compaction_remembers_events [OF ex_api_ok ex_two _ _ _ run size] run by (auto simp: ex_visible)
qed
end
