(* ===== verification/Session_Isolation.thy ===== *)
theory Session_Isolation
  imports Session_Compaction
begin

text \<open>
  Sessions do not interfere: whatever the store does for one session, with whatever failures on the way, the
  history of another one stays as it is. \<open>store_op\<close> lists the operations, \<open>concerns\<close> says which of them are meant
  to change the history of a session.
\<close>

subsection \<open>Parts of operations on another history file\<close>

lemma stays_from_sum_then:
  "(\<And>x. r = Inr x \<Longrightarrow> holds P (f x) (\<lambda>_. True)) \<Longrightarrow> holds P (and_then (from_sum r) f) (\<lambda>_. True)"
  by (cases r) (simp_all add: holds_def act_simps)

lemma stays_unchanged: "holds P (\<lambda>s. (g s, s)) (\<lambda>_. True)"
  by (rule holds_unchanged) simp

lemma holds_case_bool: "holds P m V \<Longrightarrow> holds P n V \<Longrightarrow> holds P (case b of True \<Rightarrow> m | False \<Rightarrow> n) V"
  by (cases b) simp_all

lemma kept_io_other:
  "keeps (same_files {p, hmac_path p, pending_hmac_path p}) m \<Longrightarrow> p \<noteq> hist j \<Longrightarrow> p \<noteq> hmac_path (hist j) \<Longrightarrow>
   holds (history_is A j ms) (io m) (\<lambda>_. True)"
  by (rule kept_io) (auto simp: history_files_def)

lemma sidecar_files:
  "keeps (same_files {p, hmac_path p, pending_hmac_path p}) (prepare_pending_hmac_file_for_appended_bytes_with_state D p st b)"
  "keeps (same_files {p, hmac_path p, pending_hmac_path p}) (prepare_pending_hmac_file_for_appended_bytes D k p b)"
  "keeps (same_files {p, hmac_path p, pending_hmac_path p}) (commit_pending_hmac_sidecar p)"
  "keeps (same_files {p, hmac_path p, pending_hmac_path p}) (fs_append p b)"
  "keeps (same_files {p, hmac_path p, pending_hmac_path p}) (fs_remove p)"
  by (auto intro: keeps_fs prepare_files [THEN keeps_mono] elim: same_files_mono)

lemma delete_sidecar_files: "keeps (same_files {p, hmac_path p, pending_hmac_path p}) (delete_hmac_sidecar p)"
  unfolding delete_hmac_sidecar_def
  by (intro files.keeps_rules keeps_fs) (auto split: io_error.splits intro: files.keeps_rules)

lemma kept_states_other:
  "i \<noteq> j \<Longrightarrow> holds (history_is A j ms)
     (update (\<lambda>s. s\<lparr>st_history_hmac_states := hm_insert i c (st_history_hmac_states s)\<rparr>)) (\<lambda>_. True)"
  by (rule kept_update) (simp_all add: same_config_def hm_simps)

lemma kept_matches: "holds (history_is A j ms) (on_disk (sidecar_matches_state D p st)) (\<lambda>_. True)"
  by (rule kept_disk [OF matches_files [of "{}"]]) simp

lemma kept_store_hmac:
  "i \<noteq> j \<Longrightarrow> holds (history_is A j ms) (store_history_hmac_state A' i p st) (\<lambda>_. True)"
  unfolding store_history_hmac_state_def by (intro stays_rules history_kept kept_states_other)

lemma kept_append_bytes:
  assumes "i \<noteq> j"
  shows "holds (history_is A j ms) (append_bytes A' (hist i) i b) (\<lambda>_. True)"
proof -
  have p: "hist i \<noteq> hist j" "hist i \<noteq> hmac_path (hist j)" using assms by simp_all
  have prep: "holds (history_is A j ms) (io (case c of
      Some st \<Rightarrow> prepare_pending_hmac_file_for_appended_bytes_with_state D (hist i) st x
    | None \<Rightarrow> prepare_pending_hmac_file_for_appended_bytes D k (hist i) x)) (\<lambda>_. True)" for c D k x
    by (cases c) (auto intro: kept_io_other [OF sidecar_files(1) p] kept_io_other [OF sidecar_files(2) p])
  show ?thesis
    unfolding append_bytes_def history_len_def prepare_history_hmac_for_appended_bytes_def commit_history_hmac_def
      cached_history_hmac_state_for_append_def
    by (intro stays_rules history_kept prep holds_case_bool kept_matches kept_store_hmac assms
        kept_io_other [OF sidecar_files(4) p] kept_io_other [OF sidecar_files(3) p])
qed

lemma kept_append_line:
  assumes "digest_ok (sa_digest A)" "i \<noteq> j"
  shows "holds (history_is A j ms) (append_history_message_under_lock A (hist i) i m) (\<lambda>_. True)"
  unfolding append_history_message_under_lock_def encode_history_message_def
  by (intro stays_rules history_kept kept_append_bytes assms)

lemma kept_encode_messages: "holds (history_is A j ms) (encode_messages A' xs) (\<lambda>_. True)"
  by (induction xs) (auto simp: encode_history_message_def intro!: stays_rules history_kept)

lemma kept_make_markers: "holds (history_is A j ms) (make_markers A' i xs) (\<lambda>_. True)"
  by (induction xs) (auto intro!: stays_rules history_kept)

lemma kept_rewrite:
  assumes "i \<noteq> j"
  shows "holds (history_is A j ms)
    (rewrite_history_file_preserving_inbound_dedupe A' (hist i) i rewritten raw discarded) (\<lambda>_. True)"
  unfolding rewrite_history_file_preserving_inbound_dedupe_def rewrite_history_file_from_messages_def
  by (intro stays_rules history_kept kept_make_markers kept_encode_messages kept_store_hmac kept_replace assms)
    (use assms in simp_all)

lemma kept_read_verified:
  "digest_ok (sa_digest A) \<Longrightarrow> p \<noteq> hist j \<Longrightarrow> holds (history_is A j ms) (read_verified_history_bytes A p) (\<lambda>_. True)"
  unfolding read_verified_history_bytes_def by (intro stays_rules history_kept)

lemma kept_read_other:
  "digest_ok (sa_digest A) \<Longrightarrow> i \<noteq> j \<Longrightarrow> holds (history_is A j ms) (read_raw_history_messages A (hist i) i) (\<lambda>_. True)"
  unfolding read_raw_history_messages_def by (intro stays_rules kept_read_verified stays_unchanged) simp_all

lemma kept_dedupe_update: "holds (history_is A j ms) (update (\<lambda>s. s\<lparr>st_dedupe_cache := f s\<rparr>)) (\<lambda>_. True)"
  by (rule kept_update) (simp_all add: same_config_def)

lemma kept_find:
  assumes "digest_ok (sa_digest A)" "i \<noteq> j"
  shows "holds (history_is A j ms) (find_inbound_event_index_entry A i (hist i) p e) (\<lambda>_. True)"
proof -
  have looking: "holds (history_is A j ms) (on_disk (dedupe_history_state A q)) (\<lambda>_. True)"
    "holds (history_is A j ms) (on_disk (dedupe_history_state_from_bytes A q b)) (\<lambda>_. True)" for q b
    by (rule kept_disk [where S = "{}"], rule dedupe_state_files, simp)+
  have "holds (history_is A j ms) (protected_inbound_dedupe_cache_lookup A i (hist i) t) (\<lambda>_. True)" for t
    unfolding protected_inbound_dedupe_cache_lookup_def by (intro stays_rules history_kept looking kept_dedupe_update)
  then show ?thesis
    unfolding find_inbound_event_index_entry_def find_inbound_event_in_history_def find_legacy_inbound_event_index_entry_def
    by (intro stays_rules history_kept looking stays_unchanged kept_read_verified assms) (use assms in simp_all)
qed

subsection \<open>Files of other sessions\<close>

lemma valid_no_dot: "validate_session_id j = Inr () \<Longrightarrow> CHR ''.'' \<notin> set j"
  by (auto simp: validate_session_id_def slug_char_def is_ascii_alphanumeric_def list_all_iff split: if_splits)

lemma index_other: "validate_session_id j = Inr () \<Longrightarrow> index i \<noteq> j"
  using valid_no_dot [of j] by (auto simp: index_def)

lemma archive_path_other: "archive_path i = Inr p \<Longrightarrow> p \<noteq> hist j \<and> p \<noteq> hmac_path q \<and> p \<noteq> pending_hmac_path q"
proof -
  assume "archive_path i = Inr p"
  then have "List.last p = CHR ''n''" by (auto simp: archive_path_def split: sum.splits)
  then show ?thesis using last_char(1) [of j] last_char(2,3) [of q] by auto
qed

lemma kept_remove: "p \<noteq> hist j \<Longrightarrow> p \<noteq> hmac_path (hist j) \<Longrightarrow> holds (history_is A j ms) (remove_if_present p) (\<lambda>_. True)"
  unfolding remove_if_present_def by (intro stays_rules kept_io_other [OF sidecar_files(5)])

lemma kept_delete_sidecar:
  "p \<noteq> hist j \<Longrightarrow> p \<noteq> hmac_path (hist j) \<Longrightarrow> holds (history_is A j ms) (io (delete_hmac_sidecar p)) (\<lambda>_. True)"
  by (rule kept_io_other [OF delete_sidecar_files])

lemma kept_delete_index:
  assumes "validate_session_id j = Inr ()"
  shows "holds (history_is A j ms) (delete_inbound_event_index (hist (index i))) (\<lambda>_. True)"
proof -
  have "holds (history_is A j ms) (on_disk (fs_remove (hist (index i)))) (\<lambda>_. True)"
    by (rule kept_disk [OF sidecar_files(5)]) (use index_other [OF assms] in \<open>auto simp: history_files_def\<close>)
  then show ?thesis
    unfolding delete_inbound_event_index_def
    by (intro stays_rules) (auto split: io_error.splits intro: stays_basic)
qed

lemma kept_forget:
  "holds (history_is A j ms) (update (\<lambda>s. mark_history_file_current i (forget_history i s))) (\<lambda>_. True)"
  "holds (history_is A j ms) (update (\<lambda>s. (forget_history i s)\<lparr>st_sessions := f s, st_key_to_id := g s\<rparr>)) (\<lambda>_. True)"
  by (rule kept_update; simp add: same_config_def mark_history_file_current_def forget_history_def
      clear_history_hmac_state_def invalidate_protected_inbound_dedupe_cache_def hm_simps)+

lemma kept_sessions: "holds (history_is A j ms) (update (\<lambda>s. s\<lparr>st_sessions := f s\<rparr>)) (\<lambda>_. True)"
  by (rule kept_update) (simp_all add: same_config_def)

lemma kept_locked: "holds (history_is A j ms) (update (\<lambda>s. s\<lparr>st_locked_session_entries := f s\<rparr>)) (\<lambda>_. True)"
  by (rule kept_update) (simp_all add: same_config_def)

lemma kept_archive_signature:
  "holds (history_is A j ms) (update (\<lambda>s. case c of
      Some sg \<Rightarrow> if b s then s\<lparr>st_archive_current_signatures := f sg s\<rparr> else s | None \<Rightarrow> s)) (\<lambda>_. True)"
  by (rule kept_update) (simp_all add: same_config_def split: option.split)

lemma kept_drop_history:
  "i \<noteq> j \<Longrightarrow> validate_session_id j = Inr () \<Longrightarrow>
   holds (history_is A j ms) (drop_history i (hist i) (hist (index i))) (\<lambda>_. True)"
  unfolding drop_history_def
  by (intro stays_rules history_kept kept_remove kept_delete_index kept_delete_sidecar kept_forget) simp_all

lemma kept_scan: "digest_ok (sa_digest A) \<Longrightarrow> holds (history_is A j ms) (scan_stems A stems locked) (\<lambda>_. True)"
  by (induction stems arbitrary: locked) (auto intro!: stays_rules history_kept)

lemma kept_load_all: "digest_ok (sa_digest A) \<Longrightarrow> holds (history_is A j ms) (load_sessions_from_disk A) (\<lambda>_. True)"
  unfolding load_sessions_from_disk_def by (intro stays_rules history_kept kept_scan kept_locked)

subsection \<open>Operations\<close>

lemma kept_by_key: "digest_ok (sa_digest A) \<Longrightarrow> holds (history_is A j ms) (get_session_by_key A k) (\<lambda>_. True)"
  unfolding get_session_by_key_def
  by (intro stays_rules history_kept kept_load_all holds_unchanged) simp_all

lemma kept_persist: "holds (history_is A j ms) (persist_new_session A' x) (\<lambda>_. True)"
  unfolding persist_new_session_def by (intro stays_rules history_kept)

lemma kept_create: "digest_ok (sa_digest A) \<Longrightarrow> holds (history_is A j ms) (create_session A a md) (\<lambda>_. True)"
proof -
  assume ok: "digest_ok (sa_digest A)"
  have "holds (history_is A j ms) (session_key_exists A k) (\<lambda>_. True)" for k
    unfolding session_key_exists_def by (intro stays_rules kept_load_all ok holds_unchanged) simp_all
  then show ?thesis unfolding create_session_def by (intro stays_rules history_kept kept_persist)
qed

lemma kept_get_or_create:
  "digest_ok (sa_digest A) \<Longrightarrow> holds (history_is A j ms) (get_or_create_session A k md) (\<lambda>_. True)"
  unfolding get_or_create_session_def by (intro stays_rules history_kept kept_persist kept_by_key holds_case_error)

lemma kept_list: "digest_ok (sa_digest A) \<Longrightarrow> holds (history_is A j ms) (list_session_entries A flt) (\<lambda>_. True)"
  unfolding list_session_entries_def
  by (intro stays_rules history_kept kept_load_all holds_unchanged) (simp_all add: Let_def)

lemma kept_patch: "digest_ok (sa_digest A) \<Longrightarrow> holds (history_is A j ms) (patch_session A i u) (\<lambda>_. True)"
  unfolding patch_session_def by (intro stays_rules history_kept)

lemma kept_get_history:
  assumes ok: "digest_ok (sa_digest A)"
  shows "holds (history_is A j ms) (get_history A i limit before_id) (\<lambda>_. True)"
proof -
  have "holds (history_is A j ms) (read_raw_history_messages A (hist i) i) (\<lambda>_. True)"
    by (cases "i = j") (simp_all add: kept_read_raw kept_read_other ok)
  then show ?thesis
    unfolding get_history_def by (intro stays_and_then [OF kept_required] stays_from_sum_then stays_and_then stays_basic)
      (auto dest: history_path_hist)
qed

lemma kept_flush_all: "holds (history_is A j ms) (flush_all A') (\<lambda>_. True)"
  unfolding flush_all_def by (intro stays_rules history_kept)

text \<open>Operations on a session \<open>i\<close> that change its history, seen from session \<open>j\<close>.\<close>

lemma kept_changes:
  assumes ok: "digest_ok (sa_digest A)" and ij: "i \<noteq> j" and valid: "validate_session_id j = Inr ()"
  shows "holds (history_is A j ms) (reset_session A i) (\<lambda>_. True)"
    and "holds (history_is A j ms) (delete_session A i) (\<lambda>_. True)"
    and "holds (history_is A j ms) (clear_history A i) (\<lambda>_. True)"
    and "holds (history_is A j ms) (archive_session A i del) (\<lambda>_. True)"
    and "holds (history_is A j ms) (restore_session A i) (\<lambda>_. True)"
    and "holds (history_is A j ms) (compact_session A i keep f) (\<lambda>_. True)"
proof -
  note rules = stays_rules history_kept ok
  have hp: "hist i \<noteq> hist j" "hist i \<noteq> hmac_path (hist j)" using ij by simp_all
  note parts = kept_drop_history [OF ij valid] kept_remove [OF hp] kept_delete_sidecar [OF hp] kept_delete_index [OF valid]
    kept_forget kept_rewrite [OF ij] kept_read_other [OF ok ij]
  have hist: "p = hist i" if "session_history_path i = Inr p" for p using history_path_hist that .
  have meta: "p \<noteq> hist j" "p \<noteq> hmac_path (hist j)" if "session_meta_path i = Inr p" for p
    using meta_path_neq [OF that] by simp_all
  have arch: "p \<noteq> hist j" "p \<noteq> hmac_path (hist j)" if "archive_path i = Inr p" for p
    using archive_path_other [OF that] by simp_all
  show "holds (history_is A j ms) (reset_session A i) (\<lambda>_. True)"
    unfolding reset_session_def
    by (rule stays_and_then, intro rules, rule stays_from_sum_then, rule stays_from_sum_then, drule hist, drule index_path,
        hypsubst, intro rules parts)
  show "holds (history_is A j ms) (clear_history A i) (\<lambda>_. True)"
    unfolding clear_history_def
    by (rule stays_and_then, intro rules, rule stays_from_sum_then, rule stays_from_sum_then, drule hist, drule index_path,
        hypsubst, intro rules parts kept_sessions)
  show "holds (history_is A j ms) (delete_session A i) (\<lambda>_. True)"
    unfolding delete_session_def
    by (rule stays_and_then, intro rules, rule stays_from_sum_then, rule stays_from_sum_then, rule stays_from_sum_then,
        drule hist, drule index_path, hypsubst, intro rules parts kept_remove kept_delete_sidecar meta)
  have wa: "holds (history_is A j ms) (write_archive_file A p i x) (\<lambda>_. True)" if "archive_path i = Inr p" for p x
    unfolding write_archive_file_def encode_archive_def
    by (intro rules kept_replace kept_archive_signature arch [OF that])
  show "holds (history_is A j ms) (archive_session A i del) (\<lambda>_. True)"
    unfolding archive_session_def settle_archived_history_def Let_def
    by (rule stays_and_then, intro rules, rule stays_and_then, intro rules, rule holds_if, intro rules,
        rule stays_from_sum_then, drule hist, hypsubst, rule stays_and_then, intro rules, rule stays_and_then, intro rules,
        rule stays_and_then, intro parts, rule stays_and_then, intro rules, rule stays_from_sum_then,
        rule stays_and_then, erule wa, intro rules parts)
  have ra: "holds (history_is A j ms) (read_archive A i p) (\<lambda>_. True)" if "archive_path i = Inr p" for p
    unfolding read_archive_def
    by (intro rules arch [OF that] holds_unchanged) (simp split: sum.splits)
  show "holds (history_is A j ms) (restore_session A i) (\<lambda>_. True)"
    unfolding restore_session_def Let_def
    by (rule stays_and_then, intro rules, rule stays_and_then, intro rules, rule holds_if, intro rules,
        rule stays_from_sum_then, rule stays_and_then, intro rules, rule holds_if, intro rules,
        rule stays_and_then, erule ra, rule stays_from_sum_then, drule hist, hypsubst, intro rules parts)
  have failed: "holds (history_is A j ms) (restore_compaction_status_after_precommit_failure A x e) (\<lambda>_. True)" for x e
    unfolding restore_compaction_status_after_precommit_failure_def by (intro rules)
  show "holds (history_is A j ms) (compact_session A i keep f) (\<lambda>_. True)"
    unfolding compact_session_def compact_history_def
    by (rule stays_and_then, intro rules, rule holds_if, intro rules, rule holds_if, intro rules,
        rule stays_from_sum_then, drule hist, hypsubst, intro rules parts failed)
qed

lemma kept_appends:
  assumes ok: "digest_ok (sa_digest A)" and valid: "validate_session_id j = Inr ()"
  shows "cm_session_id m \<noteq> j \<Longrightarrow> holds (history_is A j ms) (append_message A m) (\<lambda>_. True)"
    and "list_all (\<lambda>m. cm_session_id m \<noteq> j) ns \<Longrightarrow> holds (history_is A j ms) (append_messages A ns) (\<lambda>_. True)"
    and "cm_session_id m \<noteq> j \<Longrightarrow> holds (history_is A j ms) (append_message_if_new_inbound A m e) (\<lambda>_. True)"
proof -
  note rules = stays_rules history_kept ok
  show "holds (history_is A j ms) (append_message A m) (\<lambda>_. True)" if "cm_session_id m \<noteq> j"
    unfolding append_message_def
    by (rule stays_and_then, intro rules, rule stays_and_then, intro rules, rule stays_and_then, intro rules,
        rule stays_from_sum_then, drule history_path_hist, hypsubst, intro rules kept_append_line that)
  show "holds (history_is A j ms) (append_messages A ns) (\<lambda>_. True)" if ns: "list_all (\<lambda>m. cm_session_id m \<noteq> j) ns"
  proof (cases ns)
    case Nil
    then show ?thesis by (simp add: append_messages_def stays_basic)
  next
    case (Cons n ns')
    then have n: "cm_session_id n \<noteq> j" using ns by simp
    show ?thesis
      unfolding append_messages_def Cons list.case Let_def
      by (rule stays_and_then, intro rules, rule stays_and_then, intro rules, rule holds_if, intro rules,
          rule stays_and_then, intro rules, rule stays_from_sum_then, drule history_path_hist, hypsubst,
          intro rules kept_append_bytes kept_encode_messages n)
  qed
  show "holds (history_is A j ms) (append_message_if_new_inbound A m e) (\<lambda>_. True)" if "cm_session_id m \<noteq> j"
    unfolding append_message_if_new_inbound_def Let_def
    by (rule stays_and_then, intro rules, rule stays_and_then, intro rules, rule stays_and_then, intro rules,
        rule stays_from_sum_then, rule stays_from_sum_then, drule history_path_hist, drule index_path, hypsubst,
        intro rules kept_append_line kept_find kept_delete_index that valid)
qed

subsection \<open>Any sequence of operations\<close>

datatype store_op =
    Create string SessionMetadata
  | Get_or_create string SessionMetadata
  | Get string
  | Get_by_key string
  | List_entries SessionFilter
  | Patch string SessionMetadata
  | Reset string
  | Delete string
  | Append ChatMessage
  | Append_batch "ChatMessage list"
  | Append_inbound ChatMessage string
  | Get_history string "usize option" "string option"
  | Clear string
  | Compact string usize "ChatMessage list \<Rightarrow> string"
  | Auto_compact string usize "ChatMessage list \<Rightarrow> string"
  | Archive string bool
  | Restore string
  | Delete_archive string
  | Archive_info string
  | Flush_all

definition ignore :: "'a store_act \<Rightarrow> unit store_act" where
  "ignore m = and_then m (\<lambda>_. return ())"

fun run_op :: "store_api \<Rightarrow> store_op \<Rightarrow> unit store_act" where
  "run_op A (Create agent_id md) = ignore (create_session A agent_id md)"
| "run_op A (Get_or_create k md) = ignore (get_or_create_session A k md)"
| "run_op A (Get i) = ignore (get_session A i)"
| "run_op A (Get_by_key k) = ignore (get_session_by_key A k)"
| "run_op A (List_entries flt) = ignore (list_session_entries A flt)"
| "run_op A (Patch i md) = ignore (patch_session A i md)"
| "run_op A (Reset i) = ignore (reset_session A i)"
| "run_op A (Delete i) = delete_session A i"
| "run_op A (Append m) = append_message A m"
| "run_op A (Append_batch ms) = append_messages A ms"
| "run_op A (Append_inbound m e) = ignore (append_message_if_new_inbound A m e)"
| "run_op A (Get_history i limit before_id) = ignore (get_history A i limit before_id)"
| "run_op A (Clear i) = clear_history A i"
| "run_op A (Compact i keep f) = ignore (compact_session A i keep f)"
| "run_op A (Auto_compact i keep f) = ignore (auto_compact_if_needed A i keep f)"
| "run_op A (Archive i del) = ignore (archive_session A i del)"
| "run_op A (Restore i) = ignore (restore_session A i)"
| "run_op A (Delete_archive i) = ignore (delete_archive A i)"
| "run_op A (Archive_info i) = ignore (get_archive_info A i)"
| "run_op A Flush_all = flush_all A"

text \<open>The state after a sequence of operations, each of which may have failed.\<close>

fun run_ops :: "store_api \<Rightarrow> store_op list \<Rightarrow> SessionStore \<Rightarrow> SessionStore" where
  "run_ops A [] s = s"
| "run_ops A (x # xs) s = run_ops A xs (snd (run_op A x s))"

text \<open>The operations that are meant to change the history of session \<open>j\<close>.\<close>

fun concerns :: "string \<Rightarrow> store_op \<Rightarrow> bool" where
  "concerns j (Reset i) = (i = j)"
| "concerns j (Delete i) = (i = j)"
| "concerns j (Append m) = (cm_session_id m = j)"
| "concerns j (Append_batch ms) = list_ex (\<lambda>m. cm_session_id m = j) ms"
| "concerns j (Append_inbound m _) = (cm_session_id m = j)"
| "concerns j (Clear i) = (i = j)"
| "concerns j (Compact i _ _) = (i = j)"
| "concerns j (Auto_compact i _ _) = (i = j)"
| "concerns j (Archive i _) = (i = j)"
| "concerns j (Restore i) = (i = j)"
| "concerns j _ = False"

lemma kept_ignore: "holds P m (\<lambda>_. True) \<Longrightarrow> holds P (ignore m) (\<lambda>_. True)"
  unfolding ignore_def by (intro stays_rules)

lemma kept_archives:
  assumes ok: "digest_ok (sa_digest A)"
  shows "holds (history_is A j ms) (delete_archive A i) (\<lambda>_. True)"
    and "holds (history_is A j ms) (get_archive_info A i) (\<lambda>_. True)"
proof -
  have p: "p \<noteq> hist j \<and> p \<noteq> hmac_path (hist j)" if "archive_path i = Inr p" for p using archive_path_other [OF that] by simp
  show "holds (history_is A j ms) (delete_archive A i) (\<lambda>_. True)"
    unfolding delete_archive_def
    by (rule stays_and_then, intro history_kept, rule stays_and_then, intro history_kept ok, rule stays_from_sum_then)
      (use p in \<open>auto intro!: stays_rules history_kept kept_remove kept_delete_sidecar\<close>)
  have "holds (history_is A j ms) (read_archive A i p) (\<lambda>_. True)" if "archive_path i = Inr p" for p
    unfolding read_archive_def
    by (intro stays_rules history_kept ok holds_unchanged) (use p [OF that] in \<open>simp_all split: sum.splits\<close>)
  then show "holds (history_is A j ms) (get_archive_info A i) (\<lambda>_. True)"
    unfolding get_archive_info_def
    by (intro stays_and_then [OF kept_required] stays_from_sum_then stays_rules kept_fs_try)
qed

lemma kept_op:
  assumes ok: "digest_ok (sa_digest A)" and j: "\<not> concerns j x" and valid: "validate_session_id j = Inr ()"
  shows "holds (history_is A j ms) (run_op A x) (\<lambda>_. True)"
proof -
  have "holds (history_is A j ms) (auto_compact_if_needed A i keep f) (\<lambda>_. True)" if "i \<noteq> j" for i keep f
    unfolding auto_compact_if_needed_def
    by (intro stays_rules history_kept ok kept_changes(6) [OF ok that valid])
  then show ?thesis
    using j kept_changes [OF ok _ valid] kept_appends [OF ok valid]
    by (cases x) (simp_all add: kept_ignore kept_create kept_get_or_create kept_get_session kept_by_key kept_list kept_patch
        kept_get_history kept_archives kept_flush_all list_ex_iff list_all_iff ok)
qed

lemma kept_ops:
  "digest_ok (sa_digest A) \<Longrightarrow> list_all (\<lambda>x. \<not> concerns j x) xs \<Longrightarrow> history_is A j ms s \<Longrightarrow> history_is A j ms (run_ops A xs s)"
proof (induction xs arbitrary: s)
  case (Cons x xs)
  have valid: "validate_session_id j = Inr ()" using Cons.prems(3) by (simp add: history_is_def)
  have "history_is A j ms (snd (run_op A x s))"
    by (rule holdsD [OF kept_op [OF Cons.prems(1) _ valid] Cons.prems(3)]) (use Cons.prems(2) in \<open>auto simp: prod_eq_iff\<close>)
  with Cons show ?case by simp
qed simp

subsection \<open>Properties\<close>

text \<open>
  C33: Sessions are isolated: a sequence of store operations of any length, each of them succeeding or failing
  at any access, leaves the history of a session exactly as it was unless an operation is aimed at that
  session; it still verifies and reads back in full.
\<close>

theorem session_histories_isolated:
  assumes "digest_ok (sa_digest A)" "history_is A j ms s" "list_all (\<lambda>x. \<not> concerns j x) xs"
  shows "fst (get_history A j limit before_id (quiet_store (run_ops A xs s))) =
    Inr (last_messages limit (after_id before_id (visible ms)))"
  using get_history_quiet [OF assms(1) history_is_quiet [OF kept_ops [OF assms(1,3,2)]]]
  by (simp add: quiet_store_def)

text \<open>Another session is reset and deleted.\<close>

theorem session_histories_isolated_witness:
  "\<exists>s. history_is ex_api ''a'' [ex_message ''m'', ex_message ''n''] s \<and>
     fst (get_history ex_api ''a'' (Some 1) None
       (quiet_store (run_ops ex_api [Create ''x'' ex_metadata, Reset ''b'', Delete ''b''] s))) = Inr [ex_message ''n'']"
proof -
  have "digest_ok (sa_digest ex_api)" using ex_api_ok by simp
  from session_histories_isolated [OF this ex_two, of "[Create ''x'' ex_metadata, Reset ''b'', Delete ''b'']" "Some 1" None] ex_two
  show ?thesis by (auto simp: ex_visible after_id_def last_messages_def)
qed

end
