(* ===== verification/Session_Archive.thy ===== *)
theory Session_Archive
  imports Session_Isolation
begin

text \<open>
  Archives: the archive of a session holds its whole history, nothing else in the store writes over it, and
  restoring the session gives the history back.
\<close>

subsection \<open>The archive of a session\<close>

definition arch :: "string \<Rightarrow> string" where
  "arch i = ''archives/'' @ i @ ''.archive.json''"

lemma archive_path_arch: "archive_path i = Inr p \<Longrightarrow> p = arch i"
  by (auto simp: archive_path_def arch_def split: sum.splits)

definition archive_is :: "store_api \<Rightarrow> string \<Rightarrow> ChatMessage list \<Rightarrow> SessionStore \<Rightarrow> bool" where
  "archive_is A i ms s \<longleftrightarrow>
     (\<exists>b a. contents (st_disk s) (arch i) = Some b \<and> decode_archive A i s b = Inr a \<and> as_messages a = ms \<and>
        (\<forall>k. st_hmac_key s = Some k \<longrightarrow>
           contents (st_disk s) (hmac_path (arch i)) = Some (encode_sidecar_hmac_v1 (sa_digest A) (da_mac (sa_digest A) k b))))"

definition archive_kept :: "string \<Rightarrow> SessionStore \<Rightarrow> SessionStore \<Rightarrow> bool" where
  "archive_kept i s s' \<longleftrightarrow> same_config s s' \<and>
     contents (st_disk s') (arch i) = contents (st_disk s) (arch i) \<and>
     contents (st_disk s') (hmac_path (arch i)) = contents (st_disk s) (hmac_path (arch i))"

interpretation archived: state_relation "archive_kept i"
  by unfold_locales (auto simp: archive_kept_def intro: config.trans)

lemma decode_archive_config: "same_config s s' \<Longrightarrow> decode_archive A i s' = decode_archive A i s"
  by (rule ext) (simp add: decode_archive_def decode_payload_config)

lemma archive_is_kept: "archive_is A i ms s \<Longrightarrow> archive_kept i s s' \<Longrightarrow> archive_is A i ms s'"
  by (auto simp: archive_is_def archive_kept_def decode_archive_config) (simp add: same_config_def)

subsection \<open>Other files\<close>

lemma last_arch: "List.last (arch i) = CHR ''n''"
  by (simp add: arch_def)

lemma arch_files [simp]:
  "arch i \<noteq> hist j" "hist j \<noteq> arch i" "arch i \<noteq> hmac_path q" "hmac_path q \<noteq> arch i" "arch i \<noteq> pending_hmac_path q"
  "pending_hmac_path q \<noteq> arch i"
  by (rule notI, drule arg_cong [of _ _ List.last], simp add: last_char last_arch)+

lemma meta_not_arch: "session_meta_path j = Inr p \<Longrightarrow> p \<noteq> arch i"
proof
  assume p: "session_meta_path j = Inr p" "p = arch i"
  then have v: "validate_session_id j = Inr ()" and eq: "arch i = j @ ''.json''"
    by (auto simp: session_meta_path_def split: sum.splits)
  have "CHR ''/'' \<in> set (arch i)" by (simp add: arch_def)
  then have "CHR ''/'' \<in> set j" unfolding eq by simp
  with v show False by (simp add: validate_session_id_def split: if_splits)
qed

lemma archived_disk:
  "keeps (same_files S) m \<Longrightarrow> arch i \<notin> S \<Longrightarrow> hmac_path (arch i) \<notin> S \<Longrightarrow> keeps (archive_kept i) (on_disk m)"
  by (rule keepsI)
    (auto simp: on_disk_def archive_kept_def same_config_def same_files_def dest!: keepsD split: prod.splits)

lemma archived_io:
  "keeps (same_files S) m \<Longrightarrow> arch i \<notin> S \<Longrightarrow> hmac_path (arch i) \<notin> S \<Longrightarrow> keeps (archive_kept i) (io m)"
  unfolding io_def by (intro archived.keeps_map_err archived_disk)

lemma archived_looking:
  "keeps (archive_kept i) (io fs_try)" "keeps (archive_kept i) (on_disk draw)"
  "keeps (archive_kept i) (on_disk (artifact_file_signature A p))"
  by (auto intro: archived_io [where S = "{}"] archived_disk [where S = "{}"] simp: keeps_fs artifact_signature_files)

lemma archived_update:
  "(\<And>s. same_config s (f s)) \<Longrightarrow> (\<And>s. contents (st_disk (f s)) = contents (st_disk s)) \<Longrightarrow> keeps (archive_kept i) (update f)"
  by (rule archived.keeps_update) (simp add: archive_kept_def)

lemma archived_encode: "keeps (archive_kept i) (encode_payload A j purpose x y)"
  by (rule keepsI) (auto simp: encode_payload_def on_disk_def draw_def act_simps archive_kept_def same_config_def
      contents_def split: option.splits if_splits)

lemma archived_dirs: "keeps (archive_kept i) ensure_base_dir" "keeps (archive_kept i) ensure_required_encryption_available"
  unfolding ensure_base_dir_def [abs_def] ensure_required_encryption_available_def [abs_def]
  by (rule keeps_guard, intro archived.keeps_rules archived_looking, rule archived_update)
    (auto simp: same_config_def contents_def keeps_def)

lemma archived_write_meta: "keeps (archive_kept i) (write_session_meta A x)"
proof -
  have "keeps (archive_kept i) (io (replace_sealed D key p b))" if "session_meta_path j = Inr p" for j D key p b
    using meta_path_neq [OF that] meta_not_arch [OF that, of i] by (intro archived_io [OF replace_sealed_files]) auto
  then show ?thesis
    unfolding write_session_meta_def encode_session_metadata_def
    by (intro archived.keeps_from_sum_then archived.keeps_and_then archived_dirs archived_looking archived_encode
        archived.keeps_gets)
qed

lemma archived_plain:
  "keeps (archive_kept i) (update (clear_history_hmac_state j))" "keeps (archive_kept i) (update (mark_history_file_current j))"
  "keeps (archive_kept i) (update (invalidate_protected_inbound_dedupe_cache j))"
  "keeps (archive_kept i) (update (update_cached j x))"
  "keeps (archive_kept i) (update (\<lambda>s. mark_history_file_current j (forget_history j s)))"
  "keeps (archive_kept i) (update (\<lambda>s. s\<lparr>st_history_hmac_states := f s\<rparr>))"
  by (rule archived_update; simp add: same_config_def clear_history_hmac_state_def mark_history_file_current_def
      invalidate_protected_inbound_dedupe_cache_def update_cached_def forget_history_def)+

lemma archived_rewrite:
  "keeps (archive_kept i) (rewrite_history_file_preserving_inbound_dedupe A (hist j) j rewritten raw discarded)"
proof -
  have "keeps (archive_kept i) (encode_messages A ms)" for ms
    by (induction ms) (auto simp: encode_history_message_def intro!: archived.keeps_rules archived_encode)
  moreover have "keeps (archive_kept i) (make_markers A j xs)" for xs
    by (induction xs) (auto intro!: archived.keeps_rules archived_looking)
  moreover have "keeps (archive_kept i) (io (replace_sealed D key (hist j) b))" for D key b
    by (rule archived_io [OF replace_sealed_files]) simp_all
  ultimately show ?thesis
    unfolding rewrite_history_file_preserving_inbound_dedupe_def rewrite_history_file_from_messages_def
      store_history_hmac_state_def
    by (intro archived.keeps_rules archived_looking archived_plain)
qed

lemma archived_remove:
  "keeps (archive_kept i) (remove_if_present (hist j))" "keeps (archive_kept i) (io (delete_hmac_sidecar (hist j)))"
  unfolding remove_if_present_def
  by (intro archived.keeps_rules archived_io [OF sidecar_files(5)] archived_io [OF delete_sidecar_files]; simp)+

subsection \<open>Writing and reading an archive\<close>

lemma encode_archive_decode:
  assumes ok: "codec_ok A" "cipher_ok (sa_cipher A)" and run: "encode_archive A i a s = (Inr b, s')"
    and v: "as_version a \<le> ARCHIVED_SESSION_VERSION"
  shows "decode_archive A i s b = Inr a"
proof (cases "encryption_active s")
  case False
  then have "b = sa_archive_pretty A a" using run by (auto simp: encode_archive_def encode_payload_def split: option.splits)
  with ok(1) False v show ?thesis by (simp add: decode_archive_def decode_payload_def codec_ok_def)
next
  case True
  then obtain ctx where ctx: "st_crypto s = Some ctx" by (auto simp: encryption_active_def)
  with True run obtain n where enc: "encrypt_bytes (sa_cipher A) ctx n i ''archive'' (sa_archive_compact A a) = Inr b"
    by (auto simp: encode_archive_def encode_payload_def on_disk_def draw_def act_simps split: sum.splits)
  from encrypt_is_line [OF ok(2) enc] decrypt_encrypt [OF ok(2) enc] ctx ok(1) v show ?thesis
    by (simp add: decode_archive_def decode_payload_def codec_ok_def)
qed

lemma archived_signature:
  "keeps (archive_kept i) (update (\<lambda>s. case c of
      Some sg \<Rightarrow> if b s then s\<lparr>st_archive_current_signatures := f sg s\<rparr> else s | None \<Rightarrow> s))"
  by (rule archived_update) (simp_all add: same_config_def split: option.split)

lemma write_archive_run:
  assumes ok: "codec_ok A" "cipher_ok (sa_cipher A)" and v: "as_version a \<le> ARCHIVED_SESSION_VERSION"
    and run: "write_archive_file A (arch i) i a s = (Inr (), s')"
  shows "archive_is A i (as_messages a) s'"
proof -
  from run obtain b s1 s2 sg s3 where enc: "encode_archive A i a s = (Inr b, s1)"
    and rep: "io (replace_sealed (sa_digest A) (st_hmac_key s1) (arch i) b) s1 = (Inr (), s2)"
    and sig: "on_disk (artifact_file_signature A (arch i)) s2 = (Inr sg :: SessionStoreError + _, s3)"
    and s': "archive_kept i s3 s'"
    unfolding write_archive_file_def by (auto elim!: and_then_InrE dest!: keepsD [OF archived_signature [where i = i]] simp: gets_def)
  have c1: "same_config s s1" using keepsD [OF config_encode enc [unfolded encode_archive_def]] .
  from io_run [OF rep] obtain d where d: "replace_sealed (sa_digest A) (st_hmac_key s1) (arch i) b (st_disk s1) = (Inr (), d)"
    "s2 = s1\<lparr>st_disk := d\<rparr>" by auto
  have c2: "same_config s s2" using c1 d(2) by (simp add: same_config_def)
  have "decode_archive A i s2 b = Inr a"
    using encode_archive_decode [OF ok enc v] decode_archive_config [OF c2] by simp
  with replace_run [OF d(1)] d(2) have "archive_is A i (as_messages a) s2" by (auto simp: archive_is_def)
  moreover have "archive_kept i s2 s3" using keepsD [OF archived_looking(3) sig] .
  ultimately show ?thesis using archive_is_kept s' by blast
qed

lemma decode_archive_plain: "decode_archive A i s b = Inr a \<Longrightarrow> st_crypto s = None \<Longrightarrow> \<not> is_encrypted_payload (sa_cipher A) b"
  by (auto simp: decode_archive_def decode_payload_def is_encrypted_payload_def split: sum.splits if_splits)

lemma read_archive_quiet:
  assumes ok: "digest_ok (sa_digest A)" and a: "archive_is A i ms s" and q: "quiet (st_disk s)"
  shows "\<exists>x. read_archive A i (arch i) s = (Inr x, s) \<and> as_messages x = ms"
proof -
  from a obtain b x where b: "contents (st_disk s) (arch i) = Some b" "decode_archive A i s b = Inr x" "as_messages x = ms"
    and hm: "\<And>k. st_hmac_key s = Some k \<Longrightarrow>
      contents (st_disk s) (hmac_path (arch i)) = Some (encode_sidecar_hmac_v1 (sa_digest A) (da_mac (sa_digest A) k b))"
    by (auto simp: archive_is_def)
  have "verify_integrity_bytes A b (arch i) s = (Inr (), s)"
    using decode_archive_plain [OF b(2)] verify_committed_quiet [OF q ok hm]
    by (auto simp: verify_integrity_bytes_def handle_integrity_result_def on_disk_def split: option.splits)
  moreover have "io fs_try s = (Inr (), s)" using q by (simp add: io_def map_err_def on_disk_def quiet_simps)
  ultimately have "read_archive A i (arch i) s = (Inr x, s)"
    using b(1,2) by (simp add: read_archive_def and_then_Inr act_simps(3) map_err_def and_then_gets)
  with b(3) show ?thesis by blast
qed

lemma read_archive_result:
  assumes a: "archive_is A i ms s" and run: "read_archive A i (arch i) s = (Inr x, s')"
  shows "as_messages x = ms"
proof -
  from run obtain s1 content s2 where tried: "io fs_try s = (Inr (), s1)" and c: "contents (st_disk s1) (arch i) = Some content"
    and v: "verify_integrity_bytes A content (arch i) s1 = (Inr (), s2)" and dec: "decode_archive A i s2 content = Inr x"
    unfolding read_archive_def
    by (auto elim!: and_then_InrE simp: act_simps(2) gets_def map_err_def split: option.splits prod.splits sum.splits)
  have k: "archive_kept i s s1" using keepsD [OF archived_looking(1) tried] .
  have "same_config s1 s2" using verify_bytes_disk [OF v] by (auto simp: same_config_def)
  with k have "same_config s s2" using config.trans by (auto simp: archive_kept_def)
  with a k c dec show ?thesis by (auto simp: archive_is_def archive_kept_def decode_archive_config)
qed

subsection \<open>Loading a session leaves its archive alone\<close>

named_theorems archive_rules "actions that leave an archive readable"

lemma archive_stays: "keeps (archive_kept i) m \<Longrightarrow> holds (archive_is A i ms) m (\<lambda>_. True)"
  by (erule holds_keeps) (rule archive_is_kept)

lemma archive_verify_path [archive_rules]:
  assumes ok: "digest_ok (sa_digest A)"
  shows "holds (archive_is A i ms) (verify_integrity_path A p) (\<lambda>_. True)"
proof (rule holdsI)
  fix s r s' assume s: "archive_is A i ms s" and run: "verify_integrity_path A p s = (r, s')"
  have "archive_kept i s s'"
  proof (cases "p = arch i")
    case False
    with verify_path_run [OF run] show ?thesis by (auto simp: archive_kept_def same_config_def same_files_def)
  next
    case True
    have "contents (st_disk s) (hmac_path p) = Some (encode_sidecar_hmac_v1 (sa_digest A) (da_mac (sa_digest A) k b))"
      if "st_hmac_key s = Some k" "contents (st_disk s) p = Some b" for k b
      using s that True by (auto simp: archive_is_def)
    from verify_path_committed [OF ok run this] show ?thesis by (auto simp: archive_kept_def same_config_def)
  qed
  with s show "archive_is A i ms s' \<and> (\<forall>x. r = Inr x \<longrightarrow> True)" using archive_is_kept by blast
qed

lemma archived_verify_bytes: "p \<noteq> arch i \<Longrightarrow> keeps (archive_kept i) (verify_integrity_bytes A b p)"
proof -
  assume p: "p \<noteq> arch i"
  have "keeps (archive_kept i) (handle_integrity_result (verify_hmac_file D k b p c))" for D k c
    by (intro handle_result_keeps archived_disk [OF verify_files(1)]) (use p in simp_all)
  then show ?thesis unfolding verify_integrity_bytes_def [abs_def] by (auto simp: keeps_def split: option.splits)
qed

lemma archive_looking [archive_rules]:
  "holds (archive_is A i ms) (io fs_try) (\<lambda>_. True)" "holds (archive_is A i ms) (io (fs_read cap p)) (\<lambda>_. True)"
  "holds (archive_is A i ms) (on_disk (artifact_file_signature A' p)) (\<lambda>_. True)"
  "holds (archive_is A i ms) ensure_required_encryption_available (\<lambda>_. True)"
  by (intro archive_stays archived_looking archived_dirs archived_io [OF keeps_fs_read [of "{}"]]; simp)+

lemma archive_plain [archive_rules]:
  "holds (archive_is A i ms) (update (mark_history_file_current j)) (\<lambda>_. True)"
  "holds (archive_is A i ms) (update (cache_session x)) (\<lambda>_. True)"
  "holds (archive_is A i ms) (update (record_locked_session_entry j p)) (\<lambda>_. True)"
  "holds (archive_is A i ms) (update (clear_locked_session_entry j)) (\<lambda>_. True)"
  "holds (archive_is A i ms) (update (\<lambda>s. s\<lparr>st_archive_current_signatures := f s\<rparr>)) (\<lambda>_. True)"
  by (rule archive_stays, rule archived_update; simp add: same_config_def mark_history_file_current_def cache_session_def
      record_locked_session_entry_def clear_locked_session_entry_def)+

lemma archive_history_current [archive_rules]:
  assumes ok: "digest_ok (sa_digest A)"
  shows "holds (archive_is A i ms) (ensure_history_file_current A p j) (\<lambda>_. True)"
proof (rule holdsI)
  fix s r s' assume s: "archive_is A i ms s" and run: "ensure_history_file_current A p j s = (r, s')"
  let ?long = "and_then (verify_integrity_path A p) (\<lambda>_. and_then (io fs_try) (\<lambda>_.
      and_then (gets (\<lambda>s. contents (st_disk s) p)) (\<lambda>c. case c of None \<Rightarrow> throw Io
       | Some b \<Rightarrow> and_then (from_sum (ensure_history_reader_has_only_encrypted_payload_lines b)) (\<lambda>_.
           update (mark_history_file_current j)))))"
  have long: "holds (archive_is A i ms) ?long (\<lambda>_. True)" by (intro stays_rules archive_rules ok)
  have "s' = s \<or> s' = mark_history_file_current j s \<or> ?long s = (r, s')"
    using run by (auto simp: ensure_history_file_current_def split: if_splits)
  then show "archive_is A i ms s' \<and> (\<forall>x. r = Inr x \<longrightarrow> True)"
    using s holdsD [OF long s] holdsD [OF archive_plain(1) s update_def] by blast
qed

lemma archive_get_session:
  assumes ok: "digest_ok (sa_digest A)"
  shows "holds (archive_is A i ms) (get_session A j) (\<lambda>_. True)"
proof -
  have "holds (archive_is A i ms) (ensure_archive_file_current A k) (\<lambda>_. True)" for k
    unfolding ensure_archive_file_current_def [abs_def] file_starts_with_encrypted_payload_prefix_def
    by (rule holds_guard) (intro stays_rules archive_rules ok)
  then have "holds (archive_is A i ms) (ensure_session_artifacts_current A x) (\<lambda>_. True)" for x
    unfolding ensure_session_artifacts_current_def [abs_def]
    by (intro holds_guard) (intro stays_rules archive_rules ok)
  moreover have "holds (archive_is A i ms) (verify_integrity_bytes A b p) (\<lambda>_. True)" if "session_meta_path j = Inr p" for b p
    by (intro archive_stays archived_verify_bytes meta_not_arch [OF that])
  ultimately show ?thesis
    unfolding get_session_def load_session_def load_session_with_locked_tracking_def
    by (intro stays_and_then [where m = "from_sum (validate_session_id j)"] stays_basic
        stays_and_then [where m = "gets _"] holds_case_option stays_and_then [where m = ensure_required_encryption_available]
        archive_looking stays_from_sum_then) (intro stays_rules archive_rules ok)
qed

subsection \<open>Archiving and restoring\<close>

lemma archive_session_run:
  assumes ok: "codec_ok A" "cipher_ok (sa_cipher A)" "digest_ok (sa_digest A)" and h: "history_is A i ms s"
    and run: "archive_session A i del s = (Inr r, s')"
  shows "archive_is A i ms s'" and "ar_message_count r = length (visible ms)"
proof -
  from run obtain s1 x s2 p s3 s4 raw s5 ap s6 s7 s8 where
      st: "ensure_required_encryption_available s = (Inr (), s1)" "get_session A i s1 = (Inr x, s2)"
        "session_history_path i = Inr p" "io fs_try s2 = (Inr (), s3)" "ensure_archive_dir s3 = (Inr (), s4)"
        "read_raw_history_messages A p i s4 = (Inr raw, s5)"
    and ap: "archive_path i = Inr ap"
    and wr: "write_archive_file A ap i
        \<lparr>as_session = x, as_messages = raw, as_archived_at = now_millis s5, as_version = 1\<rparr> s5 = (Inr (), s6)"
    and wm: "write_session_meta A (x\<lparr>ses_status := Archived, ses_updated_at := now_millis s5\<rparr>) s6 = (Inr (), s7)"
    and rest: "settle_archived_history A p i del raw s7 = (Inr (), s8)"
    and s': "update (update_cached i (x\<lparr>ses_status := Archived, ses_updated_at := now_millis s5\<rparr>)) s8 =
        (Inr () :: SessionStoreError + _, s')" and r: "ar_message_count r = length (visible raw)"
    unfolding archive_session_def Let_def
    by (auto elim!: and_then_InrE simp: act_simps(1,2,5) gets_def split: if_splits)
  have p: "p = hist i" using history_path_hist [OF st(3)] .
  have "history_is A i ms s4"
    using holdsD [OF kept_dirs(2) holdsD [OF kept_fs_try holdsD [OF kept_get_session [OF ok(3)]
      holdsD [OF kept_required h st(1)] st(2)] st(4)] st(5)] .
  then have raw: "raw = ms" using read_raw_result st(6) unfolding p by blast
  show "ar_message_count r = length (visible ms)" using r raw by simp
  have "archive_is A i ms s6"
    using write_archive_run [OF ok(1,2) _ wr [unfolded archive_path_arch [OF ap]]] raw by (simp add: ARCHIVED_SESSION_VERSION_def)
  moreover have "archive_kept i s6 s7" using keepsD [OF archived_write_meta wm] .
  moreover have "archive_kept i s7 s8"
  proof -
    have "keeps (archive_kept i) (settle_archived_history A p i del raw)"
      unfolding p settle_archived_history_def
      by (intro archived.keeps_rules archived_remove archived_plain archived_rewrite)
    from keepsD [OF this rest] show ?thesis .
  qed
  moreover have "archive_kept i s8 s'" using keepsD [OF archived_plain(4) s'] .
  ultimately show "archive_is A i ms s'" using archive_is_kept by blast
qed

lemma preserved_none: "preserved_entries ms ms [] = []"
proof -
  have "set (events (filter is_protected_inbound_dedupe_marker ms)) \<subseteq> set (events ms)"
    using events_filter [of is_protected_inbound_dedupe_marker ms] by blast
  then have "entry_of_event ` set (preserved_entries ms ms []) = {}" using preserved_events [of ms ms "[]"] by auto
  then show ?thesis by simp
qed

lemma restore_session_run:
  assumes ok: "codec_ok A" "cipher_ok (sa_cipher A)" "digest_ok (sa_digest A)"
    and ids: "list_all (\<lambda>m. cm_session_id m = i) ms"
    and a: "archive_is A i ms s" and run: "restore_session A i s = (Inr n, s')"
    and size: "encoded_size_ok A i s'"
  shows "n = length (visible ms) \<and> history_is A i ms s'"
proof -
  from run obtain s1 x s2 ap xa s3 p s4 s5 s6 where
      st: "ensure_required_encryption_available s = (Inr (), s1)" "get_session A i s1 = (Inr x, s2)"
    and ap: "archive_path i = Inr ap" and ra: "read_archive A i ap s2 = (Inr xa, s3)"
    and p: "session_history_path i = Inr p" and tried: "io fs_try s3 = (Inr (), s4)"
    and rw: "rewrite_history_file_preserving_inbound_dedupe A p i (as_messages xa) (as_messages xa) [] s4 = (Inr (), s5)"
    and wm: "write_session_meta A (x\<lparr>ses_status := Active, ses_message_count := length (visible (as_messages xa)),
        ses_updated_at := now_millis s5, ses_last_activity_at := Some (now_millis s5)\<rparr>) s5 = (Inr (), s6)"
    and s': "update (update_cached i (x\<lparr>ses_status := Active, ses_message_count := length (visible (as_messages xa)),
        ses_updated_at := now_millis s5, ses_last_activity_at := Some (now_millis s5)\<rparr>)) s6 =
        (Inr () :: SessionStoreError + _, s')"
    and n: "n = length (visible (as_messages xa))"
    unfolding restore_session_def Let_def
    by (auto elim!: and_then_InrE simp: act_simps(1,2,5) gets_def split: if_splits)
  have s1: "s1 = s" "st_encryption_mode s = Required \<longrightarrow> st_crypto s \<noteq> None"
    using st(1) by (auto simp: ensure_required_encryption_available_def split: if_splits)
  have a2: "archive_is A i ms s2" using holdsD [OF archive_get_session [OF ok(3)] a] st(2) s1(1) by blast
  have k2: "same_config s s2" using keepsD [OF aside_get_session st(2)] s1(1) by (simp add: aside_def)
  have ms: "as_messages xa = ms"
    using read_archive_result [OF a2] ra archive_path_arch [OF ap] by simp
  have p: "p = hist i" "validate_session_id i = Inr ()"
    using history_path_hist [OF p] p by (auto simp: session_history_path_def split: sum.splits)
  have c3: "same_config s2 s3"
  proof -
    from ra obtain t c where "io fs_try s2 = (Inr (), t)" "verify_integrity_bytes A c ap t = (Inr (), s3)"
      unfolding read_archive_def
      by (auto elim!: and_then_InrE simp: act_simps(2) gets_def map_err_def split: option.splits prod.splits sum.splits)
    then show ?thesis using keepsD [OF config_io] verify_bytes_disk config.trans by (fastforce simp: same_config_def)
  qed
  have c4: "same_config s s4"
    using k2 c3 keepsD [OF config_io tried] config.trans by blast
  have avail: "validate_session_id i = Inr () \<and> (st_encryption_mode s4 = Required \<longrightarrow> st_crypto s4 \<noteq> None)"
    using p(2) s1(2) c4 by (simp add: same_config_def)
  from rw have rw': "rewrite_history_file_from_messages A (hist i) i ms s4 = (Inr (), s5)"
    by (simp add: rewrite_history_file_preserving_inbound_dedupe_def ms preserved_none p(1) act_simps)
  have a5: "aside i s5 s'"
    using aside.trans [OF keepsD [OF aside_write_meta wm] keepsD [OF aside_plain(4) s']] .
  then have "encoded_size_ok A i s5" using size by (simp add: encoded_size_ok_def aside_def)
  from rewrite_run [OF ok(1,2) avail ids rw' this] have "history_is A i ms s5" by blast
  then have "history_is A i ms s'" using holdsD [OF kept_plain(7) holdsD [OF kept_write_meta _ wm] s'] by blast
  then show ?thesis using n ms by simp
qed

text \<open>Deleting the session leaves the archive behind, readable as before.\<close>

lemma archive_survives_delete:
  assumes ok: "digest_ok (sa_digest A)" and a: "archive_is A i ms s" and run: "delete_session A j s = (r, s')"
  shows "archive_is A i ms s'"
proof -
  have remove: "keeps (archive_kept i) (remove_if_present p)" "keeps (archive_kept i) (io (delete_hmac_sidecar p))"
    if "p \<noteq> arch i" "p \<noteq> hmac_path (arch i)" for p
    unfolding remove_if_present_def
    by (intro archived.keeps_rules archived_io [OF sidecar_files(5)] archived_io [OF delete_sidecar_files]; use that in simp)+
  have "keeps (archive_kept i) (on_disk (fs_remove (hist q)))" for q
    by (rule archived_disk [OF sidecar_files(5)]) simp_all
  then have index: "keeps (archive_kept i) (delete_inbound_event_index (hist q))" for q
    unfolding delete_inbound_event_index_def
    by (intro archived.keeps_rules) (auto split: io_error.splits intro: archived.keeps_rules)
  have forget: "keeps (archive_kept i) (update (\<lambda>s. (forget_history j s)\<lparr>st_sessions := f s, st_key_to_id := g s\<rparr>))" for f g
    by (rule archived_update; simp add: same_config_def forget_history_def clear_history_hmac_state_def
        invalidate_protected_inbound_dedupe_cache_def)
  have "holds (archive_is A i ms) (delete_session A j) (\<lambda>_. True)"
    unfolding delete_session_def
    by (rule stays_and_then [OF archive_get_session [OF ok]], rule stays_from_sum_then, rule stays_from_sum_then,
        rule stays_from_sum_then, drule history_path_hist, drule index_path, hypsubst)
      (rule archive_stays, intro archived.keeps_and_then archived_looking remove index forget,
       auto dest: meta_not_arch [of j _ i] meta_path_neq [of j _ i "arch i"])
  from holdsD [OF this a run] show ?thesis .
qed

subsection \<open>Properties\<close>

text \<open>
  C32: An archive loses nothing: when archiving a session is acknowledged, with or without deletion of its
  history and in every configuration of sealing and encryption, the archive verifies and holds every message
  and every memory of an inbound event; restoring the session gives exactly that history back.
\<close>

theorem archive_restore_round_trip:
  assumes "codec_ok A" "cipher_ok (sa_cipher A)" "digest_ok (sa_digest A)" "history_is A i ms s"
    and "list_all (\<lambda>m. cm_session_id m = i) ms" "archive_session A i delete_history s = (Inr r, s1)" "archive_kept i s1 t"
  shows "ar_message_count r = length (visible ms) \<and>
    (\<exists>x. fst (read_archive A i (arch i) (quiet_store t)) = Inr x \<and> as_messages x = ms) \<and>
    (\<forall>n t'. restore_session A i t = (Inr n, t') \<longrightarrow> encoded_size_ok A i t' \<longrightarrow>
       n = length (visible ms) \<and> fst (get_history A i None None (quiet_store t')) = Inr (visible ms) \<and>
       fst (read_raw_history_messages A (hist i) i (quiet_store t')) = Inr ms)"
proof -
  have a: "archive_is A i ms t" using archive_is_kept [OF archive_session_run(1) [OF assms(1-4,6)] assms(7)] .
  have "archive_kept i t (quiet_store t)" by (simp add: archive_kept_def quiet_store_def same_config_def)
  from read_archive_quiet [OF assms(3) archive_is_kept [OF a this]]
  have "\<exists>x. fst (read_archive A i (arch i) (quiet_store t)) = Inr x \<and> as_messages x = ms" by (auto simp: quiet_store_def)
  moreover have "n = length (visible ms) \<and> fst (get_history A i None None (quiet_store t')) = Inr (visible ms) \<and>
      fst (read_raw_history_messages A (hist i) i (quiet_store t')) = Inr ms"
    if "restore_session A i t = (Inr n, t')" "encoded_size_ok A i t'" for n t'
  proof -
    from restore_session_run [OF assms(1-3,5) a that] have "n = length (visible ms)" and h: "history_is A i ms t'" by auto
    moreover have "fst (read_raw_history_messages A (hist i) i (quiet_store t')) = Inr ms"
      using read_raw_quiet [OF assms(3) history_is_quiet [OF h]] by (simp add: quiet_store_def)
    ultimately show ?thesis using history_is_read [OF assms(3) h] by blast
  qed
  ultimately show ?thesis using archive_session_run(2) [OF assms(1-4,6)] by blast
qed

text \<open>A store without sealing and encryption on which nothing fails archives and restores a session.\<close>

lemma plain_settle:
  assumes "plain_store s" "contents (st_disk s) (hmac_path p) = None" "hm_get (st_sessions s) i = Some c"
  shows "\<exists>s'. settle_archived_history A p i True ms s = (Inr (), s') \<and> plain_store s' \<and>
    hm_get (st_sessions s') i = Some (c\<lparr>ch_history_file_current_confirmed := False\<rparr>)"
proof -
  let ?d = "if fs_exists p (st_disk s) then fs_delete p (st_disk s) else st_disk s"
  let ?s = "s\<lparr>st_disk := ?d\<rparr>"
  have q: "quiet (st_disk s)" "quiet ?d" "contents ?d (hmac_path p) = None" "d_base ?d"
    using assms(1,2) by (simp_all add: plain_store_def fs_delete_def contents_def hm_simps)
  have "remove_if_present p s = (Inr (), ?s)"
    using q by (simp add: remove_if_present_def act_simps io_def on_disk_def quiet_simps)
  moreover have "io (delete_hmac_sidecar p) ?s = (Inr (), ?s)"
    using q by (simp add: delete_hmac_sidecar_def act_simps io_def on_disk_def quiet_simps fs_exists_contents)
  ultimately have "settle_archived_history A p i True ms s = (Inr (), mark_history_file_current i (forget_history i ?s))"
    by (simp add: settle_archived_history_def and_then_gets and_then_Inr update_def)
  moreover have "plain_store (mark_history_file_current i (forget_history i ?s))"
    using assms(1) q by (simp add: plain_store_def mark_history_file_current_def forget_history_def
        clear_history_hmac_state_def invalidate_protected_inbound_dedupe_cache_def)
  moreover have "\<not> encryption_active s" using assms(1) by (simp add: plain_store_def encryption_active_def)
  ultimately show ?thesis
    using assms(3) by (simp add: mark_history_file_current_def forget_history_def hm_simps encryption_active_def
        clear_history_hmac_state_def invalidate_protected_inbound_dedupe_cache_def)
qed

lemma plain_archive:
  assumes p: "plain_store s" and d: "d_archives (st_disk s)" and valid: "validate_session_id i = Inr ()"
    and c: "hm_get (st_sessions s) i = Some c" "ses_status (ch_session c) = Active" "ses_id (ch_session c) = i"
    and rd: "read_raw_history_messages A (hist i) i s = (Inr ms, s)" and side: "contents (st_disk s) (hmac_path (hist i)) = None"
  shows "\<exists>r s1 c1. archive_session A i True s = (Inr r, s1) \<and> plain_store s1 \<and>
    hm_get (st_sessions s1) i = Some c1 \<and> ses_status (ch_session c1) = Archived \<and> ses_id (ch_session c1) = i"
proof -
  let ?a = "\<lparr>as_session = ch_session c, as_messages = ms, as_archived_at = now_millis s, as_version = 1\<rparr>"
  let ?x = "(ch_session c)\<lparr>ses_status := Archived, ses_updated_at := now_millis s\<rparr>"
  let ?s1 = "s\<lparr>st_disk := fs_put (arch i) (sa_archive_pretty A ?a) (st_disk s)\<rparr>"
  let ?s2 = "?s1\<lparr>st_disk := fs_put (i @ ''.json'') (sa_session_pretty A ?x) (st_disk ?s1)\<rparr>"
  have q: "quiet (st_disk s)" "st_crypto s = None" "st_encryption_mode s = Off" "st_hmac_key s = None"
    using p by (simp_all add: plain_store_def)
  have gs: "get_session A i s = (Inr (ch_session c), s)" using valid c by (simp add: get_session_def act_simps)
  have lock: "io fs_try s = (Inr (), s)" "ensure_archive_dir s = (Inr (), s)" "ensure_required_encryption_available s = (Inr (), s)"
    using q d by (simp_all add: io_def on_disk_def act_simps quiet_simps ensure_archive_dir_def ensure_required_encryption_available_def)
  have wa: "write_archive_file A (arch i) i ?a s = (Inr (), ?s1)"
    using q by (simp add: write_archive_file_def encode_archive_def encode_payload_def io_def on_disk_def act_simps quiet_simps
        replace_sealed_def artifact_file_signature_def file_metadata_def hmac_sidecar_sha256_def encryption_active_def
        split: option.split)
  have wm: "write_session_meta A ?x ?s1 = (Inr (), ?s2)"
    using plain_write_meta [OF plain_put [OF p], of ?x A "arch i" "sa_archive_pretty A ?a"] valid c(3) by simp
  have p2: "plain_store ?s2" using plain_put [OF plain_put [OF p]] .
  have "i @ ''.json'' \<noteq> hmac_path (hist i)"
    by (rule notI, drule arg_cong [of _ _ List.last], simp add: last_char)
  then obtain s3 where s3: "settle_archived_history A (hist i) i True ms ?s2 = (Inr (), s3)" "plain_store s3"
      "hm_get (st_sessions s3) i = Some (c\<lparr>ch_history_file_current_confirmed := False\<rparr>)"
    using plain_settle [OF p2, of "hist i" i c A ms] side c(1) by auto
  have "archive_session A i True s = (Inr \<lparr>ar_session_id = i, ar_archive_path = arch i, ar_message_count = length (visible ms),
      ar_archive_size = file_size (arch i) ?s1, ar_archived_at = now_millis s, ar_history_deleted = True\<rparr>, update_cached i ?x s3)"
    using gs lock rd wa wm s3(1) c(2) valid
    by (simp add: archive_session_def Let_def act_simps session_history_path_def archive_path_def hist_def arch_def)
  moreover have "hm_get (st_sessions (update_cached i ?x s3)) i =
      Some (c\<lparr>ch_session := ?x, ch_dirty := False, ch_history_file_current_confirmed := False\<rparr>)"
    using s3(3) by (simp add: update_cached_def hm_simps)
  ultimately show ?thesis using s3(2) c(3) by (auto simp: plain_store_def update_cached_def)
qed

lemma plain_restore:
  assumes p: "plain_store s" and ok: "digest_ok (sa_digest A)" and valid: "validate_session_id i = Inr ()"
    and a: "archive_is A i ms s"
    and c: "hm_get (st_sessions s) i = Some c" "ses_status (ch_session c) = Archived" "ses_id (ch_session c) = i"
  shows "\<exists>t. restore_session A i s = (Inr (length (visible ms)), t) \<and>
    contents (st_disk t) (hist i) = Some (concat (map (\<lambda>m. sa_message_line A m @ [newline]) ms))"
proof -
  have q: "quiet (st_disk s)" "st_encryption_mode s = Off" using p by (simp_all add: plain_store_def)
  obtain x where x: "read_archive A i (arch i) s = (Inr x, s)" "as_messages x = ms"
    using read_archive_quiet [OF ok a q(1)] by blast
  have gs: "get_session A i s = (Inr (ch_session c), s)" using valid c by (simp add: get_session_def act_simps)
  have lock: "io fs_try s = (Inr (), s)" "ensure_required_encryption_available s = (Inr (), s)"
    using q by (simp_all add: io_def on_disk_def act_simps quiet_simps ensure_required_encryption_available_def)
  have ex: "fs_exists (arch i) (st_disk s)" using a by (auto simp: archive_is_def fs_exists_contents)
  obtain s1 where s1: "rewrite_history_file_preserving_inbound_dedupe A (hist i) i ms ms [] s = (Inr (), s1)" "plain_store s1"
    "contents (st_disk s1) (hist i) = Some (concat (map (\<lambda>m. sa_message_line A m @ [newline]) ms))"
    using plain_rewrite [OF p preserved_none] by blast
  let ?y = "(ch_session c)\<lparr>ses_status := Active, ses_message_count := length (visible ms), ses_updated_at := now_millis s1,
    ses_last_activity_at := Some (now_millis s1)\<rparr>"
  let ?s2 = "s1\<lparr>st_disk := fs_put (i @ ''.json'') (sa_session_pretty A ?y) (st_disk s1)\<rparr>"
  have wm: "write_session_meta A ?y s1 = (Inr (), ?s2)" using plain_write_meta [OF s1(2), of ?y A] valid c(3) by simp
  have "restore_session A i s = (Inr (length (visible ms)), update_cached i ?y ?s2)"
    using gs lock x ex s1(1) wm c(2) valid
    by (simp add: restore_session_def Let_def act_simps session_history_path_def archive_path_def hist_def arch_def)
  then show ?thesis using s1(3) by (simp add: update_cached_def hist_def)
qed

theorem archive_restore_round_trip_witness:
  "\<exists>r s1 t. archive_session ex_api ''a'' True (ex_store 2 (ex_line ''m'' @ ex_line ''n'')) = (Inr r, s1) \<and>
     restore_session ex_api ''a'' s1 = (Inr 2, t) \<and>
     fst (get_history ex_api ''a'' None None (quiet_store t)) = Inr [ex_message ''m'', ex_message ''n'']"
proof -
  let ?s = "ex_store 2 (ex_line ''m'' @ ex_line ''n'')" and ?ms = "[ex_message ''m'', ex_message ''n'']"
  let ?x = "(Session_with_session_key ''a'' 0 ''k'' ex_metadata)\<lparr>ses_message_count := 2\<rparr>"
  have c: "hm_get (st_sessions ?s) ''a'' = Some \<lparr>ch_session = ?x, ch_dirty = True, ch_history_file_current_confirmed = False\<rparr>"
    by (simp add: ex_store_def hm_eval)
  have rd: "read_raw_history_messages ex_api (hist ''a'') ''a'' ?s = (Inr ?ms, ?s)"
    using read_raw_quiet [OF ex_api_ok(3) ex_two] ex_plain [of 2 "ex_line ''m'' @ ex_line ''n''"] by (simp add: plain_store_def)
  have side: "contents (st_disk ?s) (hmac_path (hist ''a'')) = None" "d_archives (st_disk ?s)"
    by (simp_all add: ex_store_def with_base_path_def contents_ex_disk hmac_path_def hist_def) (simp add: ex_disk_def)
  obtain r s1 c1 where ar: "archive_session ex_api ''a'' True ?s = (Inr r, s1)" and p1: "plain_store s1"
    and c1: "hm_get (st_sessions s1) ''a'' = Some c1" "ses_status (ch_session c1) = Archived" "ses_id (ch_session c1) = ''a''"
    using plain_archive [OF ex_plain side(2) valid_a c _ _ rd side(1)] by (auto simp: Session_with_session_key_def)
  have "archive_is ex_api ''a'' ?ms s1" using archive_session_run(1) [OF ex_api_ok ex_two ar] .
  from plain_restore [OF p1 ex_api_ok(3) valid_a this c1] obtain t where
    re: "restore_session ex_api ''a'' s1 = (Inr 2, t)" and t: "contents (st_disk t) (hist ''a'') = Some (ex_line ''m'' @ ex_line ''n'')"
    by (auto simp: ex_visible)
  have "encoded_size_ok ex_api ''a'' t"
    using ex_line_length [of "CHR ''m''"] ex_line_length [of "CHR ''n''"]
    by (simp add: encoded_size_ok_def t SESSION_HISTORY_FILE_MAX_BYTES_def)
  with archive_restore_round_trip [OF ex_api_ok ex_two _ ar archived.refl] re
  have "fst (get_history ex_api ''a'' None None (quiet_store t)) = Inr ?ms" by (auto simp: ex_visible)
  with ar re show ?thesis by blast
qed

end
