(* ===== verification/Usage_Calendar.thy ===== *)
theory Usage_Calendar
  imports Rust_Text
begin

text \<open>
  Calendar dates of the usage tracker, \<^verbatim>\<open>src/usage/mod.rs\<close>: the clock reading as a date, the date as text and
  back, and the range check on texts. The two loops of \<^verbatim>\<open>today_date\<close> are \<open>find_year\<close> and \<open>find_month\<close>; sums and
  products of \<^verbatim>\<open>date_to_ms\<close> wrap at 64 bits.
\<close>

subsection \<open>From the clock to a date\<close>

definition is_leap_year :: "u64 \<Rightarrow> bool" where
  "is_leap_year year \<longleftrightarrow> year mod 4 = 0 \<and> year mod 100 \<noteq> 0 \<or> year mod 400 = 0"

definition days_in_year :: "u64 \<Rightarrow> u64" where
  "days_in_year year = (if is_leap_year year then 366 else 365)"

definition days_in_month :: "u64 \<Rightarrow> u64 \<Rightarrow> u64" where
  "days_in_month year month =
     (if month = 2 then (if is_leap_year year then 29 else 28)
      else if month \<in> {1, 3, 5, 7, 8, 10, 12} then 31
      else 30)"

lemma days_in_year_bounds: "365 \<le> days_in_year y" "days_in_year y \<le> 366"
  by (simp_all add: days_in_year_def)

lemma days_in_month_pos: "28 \<le> days_in_month y m" "days_in_month y m \<le> 31"
  by (simp_all add: days_in_month_def)

function find_year :: "u64 \<Rightarrow> u64 \<Rightarrow> u64 \<times> u64" where
  "find_year year remaining =
     (if remaining < days_in_year year then (year, remaining)
      else find_year (year + 1) (remaining - days_in_year year))"
  by auto
termination
  by (relation "measure snd") (auto simp: days_in_year_def)

function find_month :: "u64 \<Rightarrow> u64 \<Rightarrow> u64 \<Rightarrow> u64 \<times> u64" where
  "find_month year month remaining =
     (if remaining < days_in_month year month then (month, remaining)
      else find_month year (month + 1) (remaining - days_in_month year month))"
  by auto
termination
  by (relation "measure (snd \<circ> snd)") (auto simp: days_in_month_def)

declare find_year.simps [simp del] find_month.simps [simp del]

definition civil_date :: "u64 \<Rightarrow> u64 \<times> u64 \<times> u64" where
  "civil_date days =
     (case find_year 1970 days of
        (year, remaining) \<Rightarrow> (case find_month year 1 remaining of (month, remaining) \<Rightarrow> (year, month, remaining + 1)))"

text \<open>\<^verbatim>\<open>{:04}\<close> and \<^verbatim>\<open>{:02}\<close>.\<close>

definition zero_pad :: "nat \<Rightarrow> nat \<Rightarrow> string" where
  "zero_pad width n = (let s = string_of_nat n in replicate (width - length s) CHR ''0'' @ s)"

definition format_date :: "u64 \<times> u64 \<times> u64 \<Rightarrow> string" where
  "format_date d = (case d of (year, month, day) \<Rightarrow> zero_pad 4 year @ ''-'' @ zero_pad 2 month @ ''-'' @ zero_pad 2 day)"

definition today_date :: "u64 \<Rightarrow> string" where
  "today_date now_ms = format_date (civil_date (now_ms div 1000 div 86400))"

definition current_month :: "u64 \<Rightarrow> string" where
  "current_month now_ms = take 7 (today_date now_ms)"

subsection \<open>From the text back\<close>

definition parse_u64 :: "string \<Rightarrow> u64 option" where
  "parse_u64 s =
     (let ds = (case s of CHR ''+'' # cs \<Rightarrow> cs | _ \<Rightarrow> s)
      in if ds = [] then None else parse_digits u64_max 0 ds)"

definition parse_i64 :: "string \<Rightarrow> i64 option" where
  "parse_i64 s =
     (case s of
        CHR ''-'' # cs \<Rightarrow> if cs = [] then None else map_option (\<lambda>n. - int n) (parse_digits (nat (- i64_min)) 0 cs)
      | _ \<Rightarrow>
          (let ds = (case s of CHR ''+'' # cs \<Rightarrow> cs | _ \<Rightarrow> s)
           in if ds = [] then None else map_option int (parse_digits (nat i64_max) 0 ds)))"

definition parse_date :: "string \<Rightarrow> (u64 \<times> u64 \<times> u64) option" where
  "parse_date date_str =
     (case split_by (\<lambda>c. c = CHR ''-'') date_str of
        [a, b, c] \<Rightarrow>
          (case (parse_u64 a, parse_u64 b, parse_u64 c) of
             (Some year, Some month, Some day) \<Rightarrow> Some (year, month, day)
           | _ \<Rightarrow> None)
      | _ \<Rightarrow> None)"

definition u64_pred :: "u64 \<Rightarrow> u64" where
  "u64_pred n = (if n = 0 then u64_max else n - 1)"

definition date_to_ms :: "u64 \<Rightarrow> u64 \<Rightarrow> u64 \<Rightarrow> u64" where
  "date_to_ms year month day =
     (let days = fold (\<lambda>y days. u64_add days (days_in_year y)) [1970..<year] 0;
          days = fold (\<lambda>m days. u64_add days (days_in_month year m)) [1..<month] days;
          days = u64_add days (u64_pred day)
      in u64_mul (u64_mul days 86400) 1000)"

definition date_within_range :: "string \<Rightarrow> u64 \<Rightarrow> bool" where
  "date_within_range date_str cutoff_ms =
     (case parse_date date_str of Some (year, month, day) \<Rightarrow> date_to_ms year month day \<ge> cutoff_ms | None \<Rightarrow> False)"

definition parse_month :: "string \<Rightarrow> (i64 \<times> i64) option" where
  "parse_month month_str =
     (case split_by (\<lambda>c. c = CHR ''-'') month_str of
        [a, b] \<Rightarrow>
          (case (parse_i64 a, parse_i64 b) of
             (Some year, Some month) \<Rightarrow> if 1 \<le> month \<and> month \<le> 12 then Some (year, month) else None
           | _ \<Rightarrow> None)
      | _ \<Rightarrow> None)"

definition i64_saturating_mul :: "i64 \<Rightarrow> i64 \<Rightarrow> i64" where
  "i64_saturating_mul a b = max i64_min (min i64_max (a * b))"

definition month_to_index :: "i64 \<Rightarrow> i64 \<Rightarrow> i64" where
  "month_to_index year month = i64_saturating_add (i64_saturating_mul year 12) (month - 1)"

subsection \<open>Days since the epoch\<close>

text \<open>The reference: the number of a day, and which dates there are.\<close>

definition day_number :: "u64 \<times> u64 \<times> u64 \<Rightarrow> nat" where
  "day_number d = (case d of (year, month, day) \<Rightarrow>
     (\<Sum>y = 1970..<year. days_in_year y) + (\<Sum>m = 1..<month. days_in_month year m) + (day - 1))"

definition valid_date :: "u64 \<times> u64 \<times> u64 \<Rightarrow> bool" where
  "valid_date d = (case d of (year, month, day) \<Rightarrow>
     1970 \<le> year \<and> 1 \<le> month \<and> month \<le> 12 \<and> 1 \<le> day \<and> day \<le> days_in_month year month)"

lemma sum_months: "(\<Sum>m = 1..<13. days_in_month y m) = days_in_year y"
  by (simp add: days_in_month_def days_in_year_def eval_nat_numeral)

lemma find_year_run:
  "find_year y r = (y', r') \<Longrightarrow> y \<le> y' \<and> r' < days_in_year y' \<and> r = (\<Sum>z = y..<y'. days_in_year z) + r'"
proof (induction y r rule: find_year.induct)
  case (1 y r)
  show ?case
  proof (cases "r < days_in_year y")
    case True
    with "1.prems" show ?thesis by (simp add: find_year.simps [of y r])
  next
    case False
    with "1.prems" have "find_year (y + 1) (r - days_in_year y) = (y', r')" by (simp add: find_year.simps [of y r])
    from "1.IH" [OF False this] False show ?thesis by (auto simp: sum.atLeast_Suc_lessThan)
  qed
qed

lemma find_month_run:
  "find_month y m r = (m', r') \<Longrightarrow> m \<le> m' \<and> r' < days_in_month y m' \<and> r = (\<Sum>z = m..<m'. days_in_month y z) + r'"
proof (induction y m r rule: find_month.induct)
  case (1 y m r)
  show ?case
  proof (cases "r < days_in_month y m")
    case True
    with "1.prems" show ?thesis by (simp add: find_month.simps [of y m r])
  next
    case False
    with "1.prems" have "find_month y (m + 1) (r - days_in_month y m) = (m', r')" by (simp add: find_month.simps [of y m r])
    from "1.IH" [OF False this] False show ?thesis by (auto simp: sum.atLeast_Suc_lessThan)
  qed
qed

lemma months_of_year: "(\<Sum>z = 1..<m. days_in_month y z) < days_in_year y \<Longrightarrow> m \<le> 12"
proof (rule ccontr)
  assume "(\<Sum>z = 1..<m. days_in_month y z) < days_in_year y" "\<not> m \<le> 12"
  moreover from this have "(\<Sum>z = 1..<13. days_in_month y z) \<le> (\<Sum>z = 1..<m. days_in_month y z)" by (intro sum_mono2) auto
  ultimately show False using sum_months [of y] by linarith
qed

lemma civil_date_correct: "valid_date (civil_date n)" "day_number (civil_date n) = n"
proof -
  obtain y r where y: "find_year 1970 n = (y, r)" by (cases "find_year 1970 n")
  obtain m q where m: "find_month y 1 r = (m, q)" by (cases "find_month y 1 r")
  note fy = find_year_run [OF y] and fm = find_month_run [OF m]
  have "m \<le> 12" by (rule months_of_year [of y]) (use fy fm in linarith)
  moreover have "civil_date n = (y, m, q + 1)" by (simp add: civil_date_def y m del: One_nat_def)
  ultimately show "valid_date (civil_date n)" "day_number (civil_date n) = n"
    using fy fm by (auto simp: valid_date_def day_number_def)
qed

lemma day_number_less_year:
  assumes "valid_date (y, m, d)"
  shows "day_number (y, m, d) < (\<Sum>z = 1970..<Suc y. days_in_year z)"
proof -
  have "(\<Sum>z = 1..<m. days_in_month y z) + (d - 1) < (\<Sum>z = 1..<Suc m. days_in_month y z)"
    using assms by (auto simp: valid_date_def)
  also have "\<dots> \<le> (\<Sum>z = 1..<13. days_in_month y z)" using assms by (intro sum_mono2) (auto simp: valid_date_def)
  finally show ?thesis using assms sum_months [of y] by (simp add: day_number_def valid_date_def)
qed

lemma day_number_mono:
  assumes "valid_date a" "valid_date b" "a < b"
  shows "day_number a < day_number b"
proof -
  obtain y m d y' m' d' where ab: "a = (y, m, d)" "b = (y', m', d')" by (metis prod_cases3)
  from assms(3) consider "y < y'" | "y = y'" "m < m'" | "y = y'" "m = m'" "d < d'" by (auto simp: ab less_prod_def')
  then show ?thesis
  proof cases
    case 1
    have "day_number a < (\<Sum>z = 1970..<Suc y. days_in_year z)" using day_number_less_year assms(1) by (simp add: ab)
    also have "\<dots> \<le> (\<Sum>z = 1970..<y'. days_in_year z)" using 1 by (intro sum_mono2) auto
    also have "\<dots> \<le> day_number b" by (simp add: ab day_number_def)
    finally show ?thesis .
  next
    case 2
    have "(\<Sum>z = 1..<m. days_in_month y z) + (d - 1) < (\<Sum>z = 1..<Suc m. days_in_month y z)"
      using assms(1) by (auto simp: ab valid_date_def)
    also have "\<dots> \<le> (\<Sum>z = 1..<m'. days_in_month y z)" using 2 by (intro sum_mono2) auto
    finally show ?thesis using 2 by (simp add: ab day_number_def)
  next
    case 3
    then show ?thesis using assms by (auto simp: ab day_number_def valid_date_def)
  qed
qed

lemma civil_date_less: "civil_date n < civil_date k \<longleftrightarrow> n < k"
  using day_number_mono [OF civil_date_correct(1) civil_date_correct(1)] civil_date_correct(2)
  by (metis linorder_neqE not_less_iff_gr_or_eq)

subsection \<open>Texts of dates\<close>

lemma split_char_first:
  "c \<notin> set a \<Longrightarrow> split_by (\<lambda>x. x = c) (a @ c # b) = a # split_by (\<lambda>x. x = c) b"
  by (induction a) auto

lemma split_char_none: "c \<notin> set a \<Longrightarrow> split_by (\<lambda>x. x = c) a = [a]"
  by (induction a) auto

lemma char_of_zero: "char_of (48 :: nat) = CHR ''0''"
  using char_of_char [of "CHR ''0''"] by simp

lemma zero_pad_chars: "c \<in> set (zero_pad w n) \<Longrightarrow> \<exists>d<10. c = char_of (48 + d :: nat)"
proof -
  assume "c \<in> set (zero_pad w n)"
  then consider "c = CHR ''0''" | "c \<in> set (string_of_nat n)" by (auto simp: zero_pad_def Let_def)
  then show ?thesis
  proof cases
    case 1
    then have "c = char_of (48 + 0 :: nat)" by (simp add: char_of_zero)
    then show ?thesis by (intro exI [of _ 0]) simp
  qed (rule string_of_nat_chars)
qed

lemma notin_zero_pad: "(of_char c :: nat) \<notin> {48..57} \<Longrightarrow> c \<notin> set (zero_pad w n)"
  using zero_pad_chars digit_char_neq by metis

lemma zero_pad_not_Nil [simp]: "zero_pad w n \<noteq> []"
  by (simp add: zero_pad_def Let_def)

lemma parse_digits_zeros: "parse_digits b 0 (replicate k CHR ''0'' @ s) = parse_digits b 0 s"
  by (induction k) (simp_all add: digit_value_def)

lemma parse_digits_pad: "n \<le> b \<Longrightarrow> parse_digits b 0 (zero_pad w n) = Some n"
  by (simp add: zero_pad_def Let_def parse_digits_zeros parse_digits_string_of_nat)

lemma sign_pad:
  "(case zero_pad w n of CHR ''+'' # cs \<Rightarrow> cs | _ \<Rightarrow> zero_pad w n) = zero_pad w n"
  "(case zero_pad w n of CHR ''-'' # cs \<Rightarrow> f cs | _ \<Rightarrow> g) = g"
proof -
  have "CHR ''+'' \<notin> set (zero_pad w n)" "CHR ''-'' \<notin> set (zero_pad w n)" by (rule notin_zero_pad, simp)+
  then show "(case zero_pad w n of CHR ''+'' # cs \<Rightarrow> cs | _ \<Rightarrow> zero_pad w n) = zero_pad w n"
    "(case zero_pad w n of CHR ''-'' # cs \<Rightarrow> f cs | _ \<Rightarrow> g) = g"
    by (auto split: list.split char.split bool.split)
qed

lemma parse_u64_pad: "n \<le> u64_max \<Longrightarrow> parse_u64 (zero_pad w n) = Some n"
  unfolding parse_u64_def sign_pad(1) by (simp add: parse_digits_pad)

lemma parse_i64_pad: "int n \<le> i64_max \<Longrightarrow> parse_i64 (zero_pad w n) = Some (int n)"
  unfolding parse_i64_def sign_pad by (simp add: parse_digits_pad nat_le_iff le_nat_iff i64_max_def)

lemma parse_format_date:
  assumes "y \<le> u64_max" "m \<le> u64_max" "d \<le> u64_max"
  shows "parse_date (format_date (y, m, d)) = Some (y, m, d)"
proof -
  have n: "CHR ''-'' \<notin> set (zero_pad w n)" for w n by (rule notin_zero_pad) simp
  show ?thesis using assms by (simp add: parse_date_def format_date_def split_char_first split_char_none n parse_u64_pad)
qed

text \<open>Texts of one width are ordered as the numbers they show.\<close>

fun digits :: "nat \<Rightarrow> nat \<Rightarrow> string" where
  "digits 0 n = []"
| "digits (Suc w) n = digits w (n div 10) @ [char_of (48 + n mod 10)]"

lemma length_digits [simp]: "length (digits w n) = w"
  by (induction w arbitrary: n) simp_all

lemma digits_zero: "digits w 0 = replicate w CHR ''0''"
  by (induction w) (simp_all add: replicate_append_same char_of_zero)

lemma zero_pad_digits: "0 < w \<Longrightarrow> n < 10 ^ w \<Longrightarrow> zero_pad w n = digits w n"
proof (induction w arbitrary: n)
  case (Suc w)
  show ?case
  proof (cases "n < 10")
    case True
    then have "string_of_nat n = [char_of (48 + n)]" by (simp add: string_of_nat.simps [of n])
    with True show ?thesis by (simp add: zero_pad_def digits_zero)
  next
    case False
    then have w: "0 < w" using Suc.prems by (cases w) simp_all
    have sn: "string_of_nat n = string_of_nat (n div 10) @ [char_of (48 + n mod 10)]"
      using False by (simp add: string_of_nat.simps [of n])
    have "zero_pad w (n div 10) = digits w (n div 10)" using Suc w by (intro Suc.IH) (simp_all add: less_mult_imp_div_less mult.commute)
    then show ?thesis by (simp add: zero_pad_def sn Let_def)
  qed
qed simp

lemma append_less:
  "length a = length b \<Longrightarrow> a @ c < b @ d \<longleftrightarrow> a < b \<or> a = b \<and> c < (d :: string)"
  by (induction a b rule: list_induct2) (auto simp: Cons_less_Cons)

lemma digit_less: "a < 10 \<Longrightarrow> b < 10 \<Longrightarrow> char_of (48 + a :: nat) < (char_of (48 + b :: nat) :: char) \<longleftrightarrow> a < b"
  by (simp add: less_char_def of_char_of)

lemma digits_eq: "a < 10 ^ w \<Longrightarrow> b < 10 ^ w \<Longrightarrow> digits w a = digits w b \<Longrightarrow> a = b"
proof (induction w arbitrary: a b)
  case (Suc w)
  have "a div 10 < 10 ^ w" "b div 10 < 10 ^ w" using Suc.prems(1,2) by (simp_all add: less_mult_imp_div_less mult.commute)
  moreover have "digits w (a div 10) = digits w (b div 10)" "char_of (48 + a mod 10) = (char_of (48 + b mod 10) :: char)"
    using Suc.prems(3) by simp_all
  ultimately have "a div 10 = b div 10" using Suc.IH by blast
  moreover have "a mod 10 = b mod 10"
    using arg_cong [OF \<open>char_of (48 + a mod 10) = _\<close>, of "of_char :: char \<Rightarrow> nat"] by (simp add: of_char_of)
  ultimately show ?case by (metis div_mult_mod_eq)
qed simp

lemma digits_less: "a < 10 ^ w \<Longrightarrow> b < 10 ^ w \<Longrightarrow> a < b \<Longrightarrow> digits w a < digits w b"
proof (induction w arbitrary: a b)
  case (Suc w)
  have *: "a div 10 < 10 ^ w" "b div 10 < 10 ^ w" using Suc.prems(1,2) by (simp_all add: less_mult_imp_div_less mult.commute)
  consider "a div 10 < b div 10" | "a div 10 = b div 10" "a mod 10 < b mod 10"
    using Suc.prems(3) by (metis div_le_mono div_mult_mod_eq le_less nat_add_left_cancel_less)
  then show ?case
  proof cases
    case 1
    from Suc.IH [OF * this] show ?thesis by (simp add: append_less)
  next
    case 2
    then have "char_of (48 + a mod 10) < (char_of (48 + b mod 10) :: char)" using digit_less by simp
    with 2(1) show ?thesis by (simp add: append_less)
  qed
qed simp

subsection \<open>The texts and the clock\<close>

lemma fold_u64_add:
  "a \<le> u64_max \<Longrightarrow> fold (\<lambda>x a. u64_add a (f x)) xs a = (a + sum_list (map f xs)) mod (u64_max + 1)"
proof (induction xs arbitrary: a)
  case (Cons x xs)
  then show ?case by (simp add: u64_add_le_max) (simp add: u64_add_def mod_simps add.assoc)
qed simp

lemma date_to_ms_valid:
  assumes v: "valid_date (y, m, d)" and small: "day_number (y, m, d) * 86400000 \<le> u64_max"
  shows "date_to_ms y m d = day_number (y, m, d) * 86400000"
proof -
  let ?Y = "\<Sum>z = 1970..<y. days_in_year z" and ?M = "\<Sum>z = 1..<m. days_in_month y z"
  have n: "day_number (y, m, d) = ?Y + ?M + (d - 1)" by (simp add: day_number_def)
  have s: "day_number (y, m, d) \<le> u64_max" "?Y \<le> u64_max" "?Y + ?M \<le> u64_max" using small n by linarith+
  have y: "fold (\<lambda>y days. u64_add days (days_in_year y)) [1970..<y] 0 = ?Y"
    using s by (simp add: fold_u64_add interv_sum_list_conv_sum_set_nat)
  have m: "fold (\<lambda>z days. u64_add days (days_in_month y z)) [1..<m] ?Y = ?Y + ?M"
    using s by (simp add: fold_u64_add interv_sum_list_conv_sum_set_nat del: One_nat_def)
  have "u64_pred d = d - 1" using v by (simp add: u64_pred_def valid_date_def)
  moreover have "u64_add (?Y + ?M) (d - 1) = day_number (y, m, d)" using s(1) unfolding n by (rule u64_add_small)
  ultimately have "date_to_ms y m d = u64_mul (u64_mul (day_number (y, m, d)) 86400) 1000"
    unfolding date_to_ms_def y Let_def m by simp
  with small show ?thesis by (simp add: u64_mul_def)
qed

definition day_of :: "u64 \<Rightarrow> nat" where
  "day_of now = now div 86400000"

lemma today_date_day: "today_date now = format_date (civil_date (day_of now))"
  by (simp add: today_date_def day_of_def div_mult2_eq [symmetric])

lemma year_bound: "day_number (y, m, d) < 365 * k \<Longrightarrow> y < 1970 + k"
proof (rule ccontr)
  assume d: "day_number (y, m, d) < 365 * k" and "\<not> y < 1970 + k"
  then have "(\<Sum>z = 1970..<1970 + k. 365) \<le> (\<Sum>z = 1970..<y. days_in_year z)"
    using days_in_year_bounds(1) by (intro order.trans [OF sum_mono sum_mono2]) auto
  with d show False by (simp add: day_number_def)
qed

lemma civil_year: "n < 365 * k \<Longrightarrow> fst (civil_date n) < 1970 + k"
  using year_bound [of "fst (civil_date n)" "fst (snd (civil_date n))" "snd (snd (civil_date n))" k]
    civil_date_correct [of n] by simp

lemma range_check_day:
  assumes "now \<le> u64_max"
  shows "date_within_range (today_date now) cutoff \<longleftrightarrow> cutoff \<le> day_of now * 86400000"
proof -
  obtain y m d where c: "civil_date (day_of now) = (y, m, d)" by (metis prod_cases3)
  have v: "valid_date (y, m, d)" "day_number (y, m, d) = day_of now" using civil_date_correct [of "day_of now"] c by simp_all
  have small: "day_of now * 86400000 \<le> u64_max" using assms by (simp add: day_of_def)
  have "day_of now < 365 * (u64_max - 1970)" using assms by (simp add: day_of_def u64_max_def)
  then have "y \<le> u64_max" using civil_year [of "day_of now" "u64_max - 1970"] c by (simp add: u64_max_def)
  moreover have "m \<le> u64_max" "d \<le> u64_max" using v(1) days_in_month_pos(2) [of y m] by (simp_all add: valid_date_def u64_max_def)
  ultimately have "parse_date (today_date now) = Some (y, m, d)" by (simp add: today_date_day c parse_format_date)
  with date_to_ms_valid [OF v(1)] v(2) small show ?thesis by (simp add: date_within_range_def)
qed

text \<open>Up to this many milliseconds after the epoch, in the year 9994, the year has four digits.\<close>

definition four_digit_years :: u64 where
  "four_digit_years = 365 * 8030 * 86400000"

lemma date_digits:
  assumes "n < 365 * 8030" "civil_date n = (y, m, d)"
  shows "format_date (civil_date n) = digits 4 y @ ''-'' @ digits 2 m @ ''-'' @ digits 2 d" "y < 10 ^ 4" "m < 10 ^ 2" "d < 10 ^ 2"
proof -
  have v: "valid_date (y, m, d)" using civil_date_correct(1) [of n] assms(2) by simp
  show b: "y < 10 ^ 4" "m < 10 ^ 2" "d < 10 ^ 2"
    using civil_year [OF assms(1)] assms(2) v days_in_month_pos(2) [of y m] by (simp_all add: valid_date_def)
  show "format_date (civil_date n) = digits 4 y @ ''-'' @ digits 2 m @ ''-'' @ digits 2 d"
    using b by (simp add: assms(2) format_date_def zero_pad_digits)
qed

lemma date_text_less:
  assumes "a < 365 * 8030" "b < 365 * 8030"
  shows "format_date (civil_date a) < format_date (civil_date b) \<longleftrightarrow> a < b"
proof -
  have mono: "format_date (civil_date a) < format_date (civil_date b)" if "a < b" "a < 365 * 8030" "b < 365 * 8030" for a b
  proof -
    obtain y m d y' m' d' where c: "civil_date a = (y, m, d)" "civil_date b = (y', m', d')" by (metis prod_cases3)
    have "(y, m, d) < (y', m', d')" using civil_date_less [of a b] that(1) c by simp
    then consider "y < y'" | "y = y'" "m < m'" | "y = y'" "m = m'" "d < d'" by (auto simp: less_prod_def')
    then show ?thesis
      using date_digits [OF that(2) c(1)] date_digits [OF that(3) c(2)]
      by cases (simp_all add: append_less digits_less Cons_less_Cons)
  qed
  from mono [of a b] mono [of b a] assms show ?thesis by (metis less_asym less_irrefl linorder_neqE_nat)
qed

text \<open>The month of a day, as a text and as an index.\<close>

definition month_index :: "nat \<Rightarrow> nat" where
  "month_index day = (case civil_date day of (year, month, _) \<Rightarrow> 12 * year + month - 1)"

definition month_text :: "nat \<Rightarrow> string" where
  "month_text day = take 7 (format_date (civil_date day))"

lemma current_month_day: "current_month now = month_text (day_of now)"
  by (simp add: current_month_def month_text_def today_date_day)

lemma month_digits:
  assumes "n < 365 * 8030" "civil_date n = (y, m, d)"
  shows "month_text n = digits 4 y @ ''-'' @ digits 2 m" "month_text n = zero_pad 4 y @ ''-'' @ zero_pad 2 m"
proof -
  note f = date_digits [OF assms]
  show "month_text n = digits 4 y @ ''-'' @ digits 2 m" using f(1) by (simp add: month_text_def)
  with f(2,3) show "month_text n = zero_pad 4 y @ ''-'' @ zero_pad 2 m" by (simp add: zero_pad_digits)
qed

lemma parse_month_text:
  assumes "n < 365 * 8030"
  shows "\<exists>y m. parse_month (month_text n) = Some (y, m) \<and> month_to_index y m = int (month_index n)"
proof -
  obtain y m d where c: "civil_date n = (y, m, d)" by (metis prod_cases3)
  have v: "valid_date (y, m, d)" using civil_date_correct(1) [of n] c by simp
  have n: "CHR ''-'' \<notin> set (zero_pad w n)" for w n by (rule notin_zero_pad) simp
  have b: "int y \<le> 10 ^ 4" "1 \<le> m" "m \<le> 12" using date_digits(2) [OF assms c] v by (simp_all add: valid_date_def)
  then have "parse_month (month_text n) = Some (int y, int m)"
    unfolding month_digits(2) [OF assms c]
    by (simp add: parse_month_def split_char_first split_char_none n parse_i64_pad i64_max_def)
  moreover have "month_to_index (int y) (int m) = int (month_index n)"
    using b by (simp add: month_to_index_def i64_saturating_mul_def i64_saturating_add_def i64_min_def i64_max_def
        month_index_def c)
  ultimately show ?thesis by blast
qed

lemma month_index_mono: "a \<le> b \<Longrightarrow> month_index a \<le> month_index b"
proof -
  assume "a \<le> b"
  obtain y m d y' m' d' where c: "civil_date a = (y, m, d)" "civil_date b = (y', m', d')" by (metis prod_cases3)
  have "1 \<le> m \<and> m \<le> 12" "1 \<le> m' \<and> m' \<le> 12"
    using civil_date_correct(1) [of a] civil_date_correct(1) [of b] c by (simp_all add: valid_date_def)
  moreover have "\<not> (y', m', d') < (y, m, d)" using civil_date_less [of b a] \<open>a \<le> b\<close> c by simp
  ultimately show ?thesis by (auto simp: month_index_def c less_prod_def')
qed

lemma month_text_eq:
  assumes "a < 365 * 8030" "b < 365 * 8030"
  shows "month_text a = month_text b \<longleftrightarrow> month_index a = month_index b"
proof -
  obtain y m d y' m' d' where c: "civil_date a = (y, m, d)" "civil_date b = (y', m', d')" by (metis prod_cases3)
  have v: "1 \<le> m \<and> m \<le> 12" "1 \<le> m' \<and> m' \<le> 12"
    using civil_date_correct(1) [of a] civil_date_correct(1) [of b] c by (simp_all add: valid_date_def)
  note da = date_digits [OF assms(1) c(1)] and db = date_digits [OF assms(2) c(2)]
  have "month_text a = month_text b \<longleftrightarrow> y = y' \<and> m = m'"
    unfolding month_digits(1) [OF assms(1) c(1)] month_digits(1) [OF assms(2) c(2)]
    using digits_eq [of y 4 y'] digits_eq [of m 2 m'] da db by auto
  also have "\<dots> \<longleftrightarrow> 12 * y + m - 1 = 12 * y' + m' - 1"
  proof
    assume "12 * y + m - 1 = 12 * y' + m' - 1"
    moreover obtain k k' where k: "m = Suc k" "m' = Suc k'" "k < 12" "k' < 12" 
      using v by (cases m; cases m') auto
    ultimately have e: "12 * y + k = 12 * y' + k'" by simp
    have "y = y'" using arg_cong [OF e, of "\<lambda>x. x div 12"] k by simp
    with e k show "y = y' \<and> m = m'" by simp
  qed simp
  also have "\<dots> \<longleftrightarrow> month_index a = month_index b" by (simp add: month_index_def c)
  finally show ?thesis .
qed

subsection \<open>Properties\<close>

text \<open>
  Dates as texts agree with the clock: the range check on the text of a date is exact to the day, the text
  of a later day is greater, so that sorting texts sorts days, and two readings have one text exactly when
  they lie on one day of the calendar.
\<close>

theorem date_texts_exact:
  assumes "a < four_digit_years" "b < four_digit_years"
  shows "(date_within_range (today_date a) cutoff \<longleftrightarrow> cutoff \<le> a div 86400000 * 86400000) \<and>
    (today_date a < today_date b \<longleftrightarrow> a div 86400000 < b div 86400000) \<and>
    (today_date a = today_date b \<longleftrightarrow> a div 86400000 = b div 86400000)"
proof -
  have d: "day_of a < 365 * 8030" "day_of b < 365 * 8030"
    using assms by (simp_all add: day_of_def four_digit_years_def less_mult_imp_div_less)
  have "a \<le> u64_max" using assms(1) by (simp add: four_digit_years_def u64_max_def)
  from range_check_day [OF this] date_text_less [OF d] date_text_less [OF d(2,1)] show ?thesis
    by (auto simp: today_date_day day_of_def)
qed

text \<open>The last moment of the leap day of 2024 and the first of the day after it.\<close>

theorem date_texts_exact_witness:
  "\<not> date_within_range (today_date 1709251199999) 1709251199999 \<and> date_within_range (today_date 1709251199999) 1709164800000 \<and>
   today_date 1709251199999 < today_date 1709251200000"
  using date_texts_exact [of 1709251199999 1709251200000 1709251199999]
    date_texts_exact [of 1709251199999 1709251200000 1709164800000]
  by (simp add: four_digit_years_def)

end
