(* ===== verification/Usage_Tracker.thy ===== *)
theory Usage_Tracker
  imports Complex_Main Usage_Calendar Tool_Policy
begin

text \<open>
  Accounting of model usage, \<^verbatim>\<open>src/usage/mod.rs\<close>: prices, records, daily, monthly and session summaries with
  their retention, the state file and the queries. Counters are 64-bit and wrap; costs are \<^verbatim>\<open>f64\<close>, real numbers
  whose sums, products and quotients are rounded by the parameter \<open>fl\<close>. SHA-256 with its hexadecimal text is the
  parameter \<open>sha256_hex\<close>, full lower-casing of text is \<open>lower\<close>.
\<close>

subsection \<open>Prices\<close>

record ModelPricing =
  mp_input_cost_per_mtok :: real
  mp_output_cost_per_mtok :: real

definition calculate_cost :: "(real \<Rightarrow> real) \<Rightarrow> ModelPricing \<Rightarrow> u64 \<Rightarrow> u64 \<Rightarrow> real" where
  "calculate_cost fl p input_tokens output_tokens =
     (let input_cost = fl (fl (fl (real input_tokens) / 1000000) * mp_input_cost_per_mtok p);
          output_cost = fl (fl (fl (real output_tokens) / 1000000) * mp_output_cost_per_mtok p)
      in fl (input_cost + output_cost))"

datatype MatchType = Contains | Exact

definition MatchType_parse :: "string \<Rightarrow> MatchType option" where
  "MatchType_parse v = (if v = ''contains'' then Some Contains else if v = ''exact'' then Some Exact else None)"

record PricingOverride =
  po_pattern :: string
  po_match_type :: MatchType
  po_pricing :: ModelPricing

record PricingConfig =
  pc_default :: "ModelPricing option"
  pc_overrides :: "PricingOverride list"

definition PricingConfig_default :: PricingConfig where
  "PricingConfig_default = \<lparr>pc_default = None, pc_overrides = []\<rparr>"

definition is_pricing_configured :: "PricingConfig \<Rightarrow> bool" where
  "is_pricing_configured c \<longleftrightarrow> pc_default c \<noteq> None \<or> pc_overrides c \<noteq> []"

fun text_contains :: "string \<Rightarrow> string \<Rightarrow> bool" where
  "text_contains [] p = (p = [])"
| "text_contains (c # cs) p = (starts_with (c # cs) p \<or> text_contains cs p)"

definition pricing_override :: "string \<Rightarrow> string \<Rightarrow> PricingOverride list \<Rightarrow> ModelPricing option" where
  "pricing_override model model_lower overrides =
     (case List.find (\<lambda>e. po_match_type e = Exact \<and> eq_ignore_ascii_case model (po_pattern e)) overrides of
        Some e \<Rightarrow> Some (po_pricing e)
      | None \<Rightarrow>
          map_option po_pricing
            (List.find (\<lambda>e. po_match_type e = Contains \<and> text_contains model_lower (po_pattern e)) overrides))"

definition lookup_pricing :: "string \<Rightarrow> string \<Rightarrow> PricingConfig \<Rightarrow> ModelPricing option" where
  "lookup_pricing model model_lower c =
     (case pricing_override model model_lower (pc_overrides c) of Some p \<Rightarrow> Some p | None \<Rightarrow> pc_default c)"

definition get_model_pricing :: "(string \<Rightarrow> string) \<Rightarrow> PricingConfig \<Rightarrow> string \<Rightarrow> ModelPricing option" where
  "get_model_pricing lower c model =
     (if pc_default c = None \<and> pc_overrides c = [] then None else lookup_pricing model (lower model) c)"

text \<open>Reading the prices from the configuration; \<open>as_f64\<close> is the accessor of numbers.\<close>

definition as_object :: "'j json_api \<Rightarrow> 'j \<Rightarrow> 'j option" where
  "as_object J v = (if j_is_object J v then Some v else None)"

definition parse_number :: "'j json_api \<Rightarrow> ('j \<Rightarrow> real option) \<Rightarrow> (real \<Rightarrow> real) \<Rightarrow> 'j \<Rightarrow> real option" where
  "parse_number J as_f64 fl v =
     (case as_f64 v of Some x \<Rightarrow> Some x | None \<Rightarrow> map_option (\<lambda>n. fl (real n)) (j_as_u64 J v))"

definition parse_pricing_object :: "'j json_api \<Rightarrow> ('j \<Rightarrow> real option) \<Rightarrow> (real \<Rightarrow> real) \<Rightarrow> 'j \<Rightarrow> ModelPricing option" where
  "parse_pricing_object J as_f64 fl obj =
     (case (Option.bind (j_get J obj ''inputCostPerMTok'') (parse_number J as_f64 fl),
            Option.bind (j_get J obj ''outputCostPerMTok'') (parse_number J as_f64 fl)) of
        (Some i, Some out) \<Rightarrow> Some \<lparr>mp_input_cost_per_mtok = i, mp_output_cost_per_mtok = out\<rparr>
      | _ \<Rightarrow> None)"

definition parse_pricing_override ::
    "(string \<Rightarrow> string) \<Rightarrow> 'j json_api \<Rightarrow> ('j \<Rightarrow> real option) \<Rightarrow> (real \<Rightarrow> real) \<Rightarrow> 'j \<Rightarrow> PricingOverride option" where
  "parse_pricing_override lower J as_f64 fl v =
     Option.bind (as_object J v) (\<lambda>obj.
     Option.bind (j_str J obj ''match'') (\<lambda>pattern.
     let pattern = trim pattern in
     if pattern = [] then None
     else
       let match_type = unwrap_or (Option.bind (j_str J obj ''matchType'') MatchType_parse) Contains in
       map_option (\<lambda>pricing. \<lparr>po_pattern = lower pattern, po_match_type = match_type, po_pricing = pricing\<rparr>)
         (parse_pricing_object J as_f64 fl obj)))"

definition parse_pricing_config ::
    "(string \<Rightarrow> string) \<Rightarrow> 'j json_api \<Rightarrow> ('j \<Rightarrow> real option) \<Rightarrow> (real \<Rightarrow> real) \<Rightarrow> 'j \<Rightarrow> PricingConfig" where
  "parse_pricing_config lower J as_f64 fl config =
     (case Option.bind (j_get J config ''usage'') (as_object J) of
        None \<Rightarrow> PricingConfig_default
      | Some usage \<Rightarrow>
          (case Option.bind (j_get J usage ''pricing'') (as_object J) of
             None \<Rightarrow> PricingConfig_default
           | Some pricing \<Rightarrow>
               \<lparr>pc_default = Option.bind (Option.bind (j_get J pricing ''default'') (as_object J)) (parse_pricing_object J as_f64 fl),
                pc_overrides =
                  (case Option.bind (j_get J pricing ''overrides'') (j_as_array J) of
                     None \<Rightarrow> []
                   | Some entries \<Rightarrow> List.map_filter (parse_pricing_override lower J as_f64 fl) entries)\<rparr>))"

subsection \<open>Records and summaries\<close>

record UsageRecord =
  ur_timestamp :: u64
  ur_provider :: string
  ur_model :: string
  ur_session_id :: "string option"
  ur_input_tokens :: u64
  ur_output_tokens :: u64
  ur_cost_usd :: real

record ProviderUsage =
  pu_provider :: string
  pu_input_tokens :: u64
  pu_output_tokens :: u64
  pu_requests :: u64
  pu_cost_usd :: real

record ModelUsage =
  mu_model :: string
  mu_provider :: string
  mu_input_tokens :: u64
  mu_output_tokens :: u64
  mu_requests :: u64
  mu_cost_usd :: real

text \<open>\<^verbatim>\<open>DailySummary\<close> and \<^verbatim>\<open>MonthlySummary\<close> differ only in the name of their first field, \<^verbatim>\<open>date\<close> or \<^verbatim>\<open>month\<close>.\<close>

record UsageSummary =
  us_period :: string
  us_input_tokens :: u64
  us_output_tokens :: u64
  us_requests :: u64
  us_cost_usd :: real
  us_by_provider :: "(string, ProviderUsage) hmap"
  us_by_model :: "(string, ModelUsage) hmap"

type_synonym DailySummary = UsageSummary
type_synonym MonthlySummary = UsageSummary

definition summary_new :: "string \<Rightarrow> UsageSummary" where
  "summary_new period =
     \<lparr>us_period = period, us_input_tokens = 0, us_output_tokens = 0, us_requests = 0, us_cost_usd = 0,
      us_by_provider = [], us_by_model = []\<rparr>"

text \<open>\<^verbatim>\<open>entry(k).or_insert_with(d)\<close> followed by an update of the entry.\<close>

definition entry_update :: "'k \<Rightarrow> 'v \<Rightarrow> ('v \<Rightarrow> 'v) \<Rightarrow> ('k, 'v) hmap \<Rightarrow> ('k, 'v) hmap" where
  "entry_update k d f m = hm_modify k f (if hm_contains m k then m else hm_insert k d m)"

definition provider_new :: "string \<Rightarrow> ProviderUsage" where
  "provider_new p = \<lparr>pu_provider = p, pu_input_tokens = 0, pu_output_tokens = 0, pu_requests = 0, pu_cost_usd = 0\<rparr>"

definition model_new :: "string \<Rightarrow> string \<Rightarrow> ModelUsage" where
  "model_new m p =
     \<lparr>mu_model = m, mu_provider = p, mu_input_tokens = 0, mu_output_tokens = 0, mu_requests = 0, mu_cost_usd = 0\<rparr>"

definition provider_add :: "(real \<Rightarrow> real) \<Rightarrow> u64 \<Rightarrow> u64 \<Rightarrow> u64 \<Rightarrow> real \<Rightarrow> ProviderUsage \<Rightarrow> ProviderUsage" where
  "provider_add fl i out n c u =
     u\<lparr>pu_input_tokens := u64_add (pu_input_tokens u) i, pu_output_tokens := u64_add (pu_output_tokens u) out,
       pu_requests := u64_add (pu_requests u) n, pu_cost_usd := fl (pu_cost_usd u + c)\<rparr>"

definition model_add :: "(real \<Rightarrow> real) \<Rightarrow> u64 \<Rightarrow> u64 \<Rightarrow> u64 \<Rightarrow> real \<Rightarrow> ModelUsage \<Rightarrow> ModelUsage" where
  "model_add fl i out n c u =
     u\<lparr>mu_input_tokens := u64_add (mu_input_tokens u) i, mu_output_tokens := u64_add (mu_output_tokens u) out,
       mu_requests := u64_add (mu_requests u) n, mu_cost_usd := fl (mu_cost_usd u + c)\<rparr>"

definition model_key :: "UsageRecord \<Rightarrow> string" where
  "model_key r = ur_provider r @ '':'' @ ur_model r"

definition add_record :: "(real \<Rightarrow> real) \<Rightarrow> UsageRecord \<Rightarrow> UsageSummary \<Rightarrow> UsageSummary" where
  "add_record fl r s =
     s\<lparr>us_input_tokens := u64_add (us_input_tokens s) (ur_input_tokens r),
       us_output_tokens := u64_add (us_output_tokens s) (ur_output_tokens r),
       us_requests := u64_add (us_requests s) 1,
       us_cost_usd := fl (us_cost_usd s + ur_cost_usd r),
       us_by_provider := entry_update (ur_provider r) (provider_new (ur_provider r))
         (provider_add fl (ur_input_tokens r) (ur_output_tokens r) 1 (ur_cost_usd r)) (us_by_provider s),
       us_by_model := entry_update (model_key r) (model_new (ur_model r) (ur_provider r))
         (model_add fl (ur_input_tokens r) (ur_output_tokens r) 1 (ur_cost_usd r)) (us_by_model s)\<rparr>"

record SessionUsage =
  se_session_id :: string
  se_input_tokens :: u64
  se_output_tokens :: u64
  se_requests :: u64
  se_cost_usd :: real
  se_first_used_at :: u64
  se_last_used_at :: u64

definition session_usage_new :: "string \<Rightarrow> SessionUsage" where
  "session_usage_new i =
     \<lparr>se_session_id = i, se_input_tokens = 0, se_output_tokens = 0, se_requests = 0, se_cost_usd = 0,
      se_first_used_at = 0, se_last_used_at = 0\<rparr>"

definition session_add :: "(real \<Rightarrow> real) \<Rightarrow> UsageRecord \<Rightarrow> SessionUsage \<Rightarrow> SessionUsage" where
  "session_add fl r u =
     u\<lparr>se_first_used_at := (if se_first_used_at u = 0 then ur_timestamp r else se_first_used_at u),
       se_input_tokens := u64_add (se_input_tokens u) (ur_input_tokens r),
       se_output_tokens := u64_add (se_output_tokens u) (ur_output_tokens r),
       se_requests := u64_add (se_requests u) 1,
       se_cost_usd := fl (se_cost_usd u + ur_cost_usd r),
       se_last_used_at := ur_timestamp r\<rparr>"

record UsageData =
  ud_enabled :: bool
  ud_daily :: "(string, DailySummary) hmap"
  ud_monthly :: "(string, MonthlySummary) hmap"
  ud_sessions :: "(string, SessionUsage) hmap"
  ud_last_updated :: u64

definition UsageData_default :: "bool \<Rightarrow> UsageData" where
  "UsageData_default enabled =
     \<lparr>ud_enabled = enabled, ud_daily = [], ud_monthly = [], ud_sessions = [], ud_last_updated = 0\<rparr>"

subsection \<open>Sessions\<close>

definition is_ascii_hexdigit :: "char \<Rightarrow> bool" where
  "is_ascii_hexdigit c \<longleftrightarrow>
     (let n = (of_char c :: nat) in 48 \<le> n \<and> n \<le> 57 \<or> 65 \<le> n \<and> n \<le> 70 \<or> 97 \<le> n \<and> n \<le> 102)"

definition canonical_session_digest :: "string \<Rightarrow> string option" where
  "canonical_session_digest session_key =
     Option.bind (strip_prefix ''sid_'' session_key) (\<lambda>digest.
     if length digest \<noteq> 64 \<or> \<not> list_all is_ascii_hexdigit digest then None else Some digest)"

definition session_identity :: "(string \<Rightarrow> string) \<Rightarrow> string \<Rightarrow> string" where
  "session_identity sha256_hex session_key =
     (if canonical_session_digest session_key \<noteq> None then session_key else ''sid_'' @ sha256_hex session_key)"

subsection \<open>Retention\<close>

definition DAY_MS :: u64 where "DAY_MS = 86400000"

record UsageRetention =
  rt_daily_retention_days :: u64
  rt_monthly_retention_months :: u64
  rt_session_retention_days :: u64
  rt_max_daily_entries :: usize
  rt_max_monthly_entries :: usize
  rt_max_sessions :: usize

definition DEFAULT_USAGE_RETENTION :: UsageRetention where
  "DEFAULT_USAGE_RETENTION =
     \<lparr>rt_daily_retention_days = 365, rt_monthly_retention_months = 24, rt_session_retention_days = 90,
      rt_max_daily_entries = 400, rt_max_monthly_entries = 36, rt_max_sessions = 1000\<rparr>"

definition u64_saturating_mul :: "u64 \<Rightarrow> u64 \<Rightarrow> u64" where
  "u64_saturating_mul a b = min u64_max (a * b)"

definition retention_cutoff :: "u64 \<Rightarrow> u64 \<Rightarrow> u64" where
  "retention_cutoff now days = u64_saturating_sub now (u64_saturating_mul days DAY_MS)"

text \<open>The keys in the given order lose their entries until only \<open>limit\<close> are left; no limit when it is zero.\<close>

definition drop_first :: "usize \<Rightarrow> ('k, 'v) hmap \<Rightarrow> 'k list \<Rightarrow> ('k, 'v) hmap" where
  "drop_first limit m keys =
     (if limit > 0 \<and> length m > limit then fold hm_remove (take (length m - limit) keys) m else m)"

definition prune_daily :: "u64 \<Rightarrow> UsageRetention \<Rightarrow> (string, DailySummary) hmap \<Rightarrow> (string, DailySummary) hmap" where
  "prune_daily now limits daily =
     (let kept = (if rt_daily_retention_days limits > 0
                  then hm_retain (\<lambda>date _. date_within_range date (retention_cutoff now (rt_daily_retention_days limits))) daily
                  else daily)
      in drop_first (rt_max_daily_entries limits) kept (sort (map fst kept)))"

definition prune_monthly :: "u64 \<Rightarrow> UsageRetention \<Rightarrow> (string, MonthlySummary) hmap \<Rightarrow> (string, MonthlySummary) hmap" where
  "prune_monthly now limits monthly =
     (let kept =
        (if rt_monthly_retention_months limits > 0 then
           (case parse_month (current_month now) of
              None \<Rightarrow> monthly
            | Some (year, month) \<Rightarrow>
                (let cutoff = month_to_index year month - int (rt_monthly_retention_months limits) + 1
                 in hm_retain (\<lambda>month_key _.
                      case parse_month month_key of None \<Rightarrow> False | Some (y, m) \<Rightarrow> month_to_index y m \<ge> cutoff) monthly))
         else monthly)
      in drop_first (rt_max_monthly_entries limits) kept (sort (map fst kept)))"

definition prune_sessions :: "u64 \<Rightarrow> UsageRetention \<Rightarrow> (string, SessionUsage) hmap \<Rightarrow> (string, SessionUsage) hmap" where
  "prune_sessions now limits sessions =
     (let kept = (if rt_session_retention_days limits > 0
                  then hm_retain (\<lambda>_ u. se_last_used_at u \<ge> retention_cutoff now (rt_session_retention_days limits)) sessions
                  else sessions)
      in drop_first (rt_max_sessions limits) kept
           (map snd (sort (map (\<lambda>(key, u). (se_last_used_at u, key)) kept))))"

subsection \<open>Tracker\<close>

record UsageTracker =
  ut_data :: UsageData
  ut_dirty :: bool
  ut_last_save :: "u64 option"
  ut_file :: "UsageData option"

definition tracker_new :: "UsageData option \<Rightarrow> UsageTracker" where
  "tracker_new stored =
     \<lparr>ut_data = UsageData_default True, ut_dirty = False, ut_last_save = None, ut_file = stored\<rparr>"

definition SAVE_INTERVAL_MS :: u64 where "SAVE_INTERVAL_MS = 5000"

definition prune_data_with_limits :: "UsageRetention \<Rightarrow> u64 \<Rightarrow> UsageTracker \<Rightarrow> bool \<times> UsageTracker" where
  "prune_data_with_limits limits now t =
     (let d = ut_data t;
          daily = prune_daily now limits (ud_daily d);
          monthly = prune_monthly now limits (ud_monthly d);
          sessions = prune_sessions now limits (ud_sessions d);
          pruned = (length daily \<noteq> length (ud_daily d) \<or> length monthly \<noteq> length (ud_monthly d) \<or>
                    length sessions \<noteq> length (ud_sessions d))
      in (pruned, t\<lparr>ut_data := d\<lparr>ud_daily := daily, ud_monthly := monthly, ud_sessions := sessions\<rparr>,
                    ut_dirty := (ut_dirty t \<or> pruned)\<rparr>))"

definition prune_data :: "u64 \<Rightarrow> UsageTracker \<Rightarrow> bool \<times> UsageTracker" where
  "prune_data = prune_data_with_limits DEFAULT_USAGE_RETENTION"

definition tracker_save :: "env \<Rightarrow> UsageTracker \<Rightarrow> UsageTracker" where
  "tracker_save e t =
     (if \<not> ut_dirty t then t
      else
        (let t = t\<lparr>ut_file := write_file (env_fault e) (ut_data t) (ut_file t)\<rparr>
         in if env_fault e \<noteq> None then t else t\<lparr>ut_dirty := False, ut_last_save := Some (env_now e)\<rparr>))"

definition maybe_save :: "env \<Rightarrow> UsageTracker \<Rightarrow> UsageTracker" where
  "maybe_save e t =
     (if \<not> ut_dirty t then t
      else if (case ut_last_save t of Some ts \<Rightarrow> env_now e - ts \<ge> SAVE_INTERVAL_MS | None \<Rightarrow> True) then tracker_save e t
      else t)"

text \<open>\<open>stored\<close> is what the state file parses to: nothing when it is missing, unreadable or malformed.\<close>

definition load_or_default :: "env \<Rightarrow> UsageData option \<Rightarrow> UsageTracker" where
  "load_or_default e stored =
     (case stored of
        None \<Rightarrow> tracker_new stored
      | Some d \<Rightarrow>
          (case prune_data (env_now e) \<lparr>ut_data = d, ut_dirty = False, ut_last_save = None, ut_file = stored\<rparr> of
             (pruned, t) \<Rightarrow> if pruned then tracker_save e t else t))"

definition set_enabled :: "bool \<Rightarrow> UsageTracker \<Rightarrow> UsageTracker" where
  "set_enabled b t = t\<lparr>ut_data := (ut_data t)\<lparr>ud_enabled := b\<rparr>, ut_dirty := True\<rparr>"

record usage_api =
  ua_fl :: "real \<Rightarrow> real"
  ua_lower :: "string \<Rightarrow> string"
  ua_sha256_hex :: "string \<Rightarrow> string"

definition make_record ::
    "usage_api \<Rightarrow> PricingConfig \<Rightarrow> u64 \<Rightarrow> string \<Rightarrow> string \<Rightarrow> string option \<Rightarrow> u64 \<Rightarrow> u64 \<Rightarrow> UsageRecord" where
  "make_record U pricing now provider model session_hint input_tokens output_tokens =
     \<lparr>ur_timestamp = now, ur_provider = provider, ur_model = model,
      ur_session_id = map_option (session_identity (ua_sha256_hex U)) session_hint,
      ur_input_tokens = input_tokens, ur_output_tokens = output_tokens,
      ur_cost_usd = (case get_model_pricing (ua_lower U) pricing model of
                       None \<Rightarrow> 0 | Some p \<Rightarrow> calculate_cost (ua_fl U) p input_tokens output_tokens)\<rparr>"

definition apply_record :: "usage_api \<Rightarrow> UsageRecord \<Rightarrow> UsageData \<Rightarrow> UsageData" where
  "apply_record U r d =
     (let now = ur_timestamp r; date = today_date now; month = current_month now
      in d\<lparr>ud_daily := entry_update date (summary_new date) (add_record (ua_fl U) r) (ud_daily d),
           ud_monthly := entry_update month (summary_new month) (add_record (ua_fl U) r) (ud_monthly d),
           ud_sessions := (case ur_session_id r of
               None \<Rightarrow> ud_sessions d
             | Some i \<Rightarrow> entry_update i (session_usage_new i) (session_add (ua_fl U) r) (ud_sessions d)),
           ud_last_updated := now\<rparr>)"

definition tracker_record ::
    "usage_api \<Rightarrow> PricingConfig \<Rightarrow> u64 \<Rightarrow> string \<Rightarrow> string \<Rightarrow> string option \<Rightarrow> u64 \<Rightarrow> u64 \<Rightarrow> UsageTracker \<Rightarrow> UsageTracker" where
  "tracker_record U pricing now provider model session_hint input_tokens output_tokens t =
     (if \<not> ud_enabled (ut_data t) then t
      else
        (let r = make_record U pricing now provider model session_hint input_tokens output_tokens
         in snd (prune_data now (t\<lparr>ut_data := apply_record U r (ut_data t), ut_dirty := True\<rparr>))))"

definition tracker_reset :: "UsageTracker \<Rightarrow> UsageTracker" where
  "tracker_reset t = t\<lparr>ut_data := UsageData_default (ud_enabled (ut_data t)), ut_dirty := True\<rparr>"

definition tracker_reset_session :: "usage_api \<Rightarrow> string \<Rightarrow> UsageTracker \<Rightarrow> bool \<times> UsageTracker" where
  "tracker_reset_session U session_key t =
     (let i = session_identity (ua_sha256_hex U) session_key; d = ut_data t
      in if hm_contains (ud_sessions d) i then
           (True, t\<lparr>ut_data := d\<lparr>ud_sessions := hm_remove i (ud_sessions d)\<rparr>, ut_dirty := True\<rparr>)
         else (False, t))"

end
