(* ===== verification/Usage_Queries.thy ===== *)
theory Usage_Queries
  imports Usage_Tracker
begin

text \<open>
  What can be asked of the usage tracker and the requests that reach it: the queries of \<^verbatim>\<open>src/usage/mod.rs\<close>, its
  public functions on the global tracker and prices, and the handlers of \<^verbatim>\<open>src/server/ws/handlers/usage.rs\<close>. A
  response is a record of the fields of its JSON text; hash maps are listed in the order of the model's map.
\<close>

subsection \<open>Queries of the tracker\<close>

record UsageStatus =
  st_enabled :: bool
  st_today :: "DailySummary option"
  st_current_month :: "MonthlySummary option"
  st_session_count :: usize
  st_last_updated :: u64

definition tracker_status :: "u64 \<Rightarrow> UsageTracker \<Rightarrow> UsageStatus" where
  "tracker_status now t =
     \<lparr>st_enabled = ud_enabled (ut_data t),
      st_today = hm_get (ud_daily (ut_data t)) (today_date now),
      st_current_month = hm_get (ud_monthly (ut_data t)) (current_month now),
      st_session_count = length (ud_sessions (ut_data t)),
      st_last_updated = ud_last_updated (ut_data t)\<rparr>"

record DailyCost =
  dc_date :: string
  dc_cost_usd :: real
  dc_requests :: u64

record CostBreakdown =
  cb_days :: u64
  cb_total_input_tokens :: u64
  cb_total_output_tokens :: u64
  cb_total_requests :: u64
  cb_total_cost :: real
  cb_by_provider :: "ProviderUsage list"
  cb_by_model :: "ModelUsage list"
  cb_daily :: "DailyCost list"

text \<open>One summary's breakdown merged into the maps of the whole period.\<close>

definition merge_provider :: "(real \<Rightarrow> real) \<Rightarrow> string \<times> ProviderUsage \<Rightarrow> (string, ProviderUsage) hmap \<Rightarrow> (string, ProviderUsage) hmap" where
  "merge_provider fl = (\<lambda>(provider, usage). entry_update provider (provider_new provider)
     (provider_add fl (pu_input_tokens usage) (pu_output_tokens usage) (pu_requests usage) (pu_cost_usd usage)))"

definition merge_model :: "(real \<Rightarrow> real) \<Rightarrow> string \<times> ModelUsage \<Rightarrow> (string, ModelUsage) hmap \<Rightarrow> (string, ModelUsage) hmap" where
  "merge_model fl = (\<lambda>(key, usage). entry_update key (model_new (mu_model usage) (mu_provider usage))
     (model_add fl (mu_input_tokens usage) (mu_output_tokens usage) (mu_requests usage) (mu_cost_usd usage)))"

text \<open>The loop over the days; the accumulator holds the totals and the two maps.\<close>

definition merge_summary :: "(real \<Rightarrow> real) \<Rightarrow> DailySummary \<Rightarrow> UsageSummary \<Rightarrow> UsageSummary" where
  "merge_summary fl s acc =
     acc\<lparr>us_input_tokens := u64_add (us_input_tokens acc) (us_input_tokens s),
         us_output_tokens := u64_add (us_output_tokens acc) (us_output_tokens s),
         us_requests := u64_add (us_requests acc) (us_requests s),
         us_cost_usd := fl (us_cost_usd acc + us_cost_usd s),
         us_by_provider := fold (merge_provider fl) (us_by_provider s) (us_by_provider acc),
         us_by_model := fold (merge_model fl) (us_by_model s) (us_by_model acc)\<rparr>"

definition cost_cutoff :: "u64 \<Rightarrow> u64 \<Rightarrow> u64" where
  "cost_cutoff now days = u64_saturating_sub now (u64_mul (u64_mul (u64_mul (u64_mul days 24) 60) 60) 1000)"

definition cost_breakdown :: "(real \<Rightarrow> real) \<Rightarrow> u64 \<Rightarrow> u64 \<Rightarrow> UsageTracker \<Rightarrow> CostBreakdown" where
  "cost_breakdown fl now days t =
     (let relevant = filter (\<lambda>(date, _). date_within_range date (cost_cutoff now days)) (ud_daily (ut_data t));
          acc = fold (merge_summary fl) (map snd relevant) (summary_new [])
      in \<lparr>cb_days = days,
          cb_total_input_tokens = us_input_tokens acc,
          cb_total_output_tokens = us_output_tokens acc,
          cb_total_requests = us_requests acc,
          cb_total_cost = us_cost_usd acc,
          cb_by_provider = hm_values (us_by_provider acc),
          cb_by_model = hm_values (us_by_model acc),
          cb_daily = sort_key dc_date
            (map (\<lambda>(date, s). \<lparr>dc_date = date, dc_cost_usd = us_cost_usd s, dc_requests = us_requests s\<rparr>) relevant)\<rparr>)"

definition tracker_session_usage :: "usage_api \<Rightarrow> string \<Rightarrow> UsageTracker \<Rightarrow> SessionUsage option" where
  "tracker_session_usage U session_key t = hm_get (ud_sessions (ut_data t)) (session_identity (ua_sha256_hex U) session_key)"

definition tracker_sessions :: "UsageTracker \<Rightarrow> SessionUsage list" where
  "tracker_sessions t = hm_values (ud_sessions (ut_data t))"

definition tracker_providers :: "(real \<Rightarrow> real) \<Rightarrow> UsageTracker \<Rightarrow> ProviderUsage list" where
  "tracker_providers fl t =
     hm_values (fold (\<lambda>s. fold (merge_provider fl) (us_by_provider s)) (hm_values (ud_daily (ut_data t))) [])"

text \<open>\<^verbatim>\<open>sort_by(|a, b| b.date.cmp(&a.date))\<close> is stable: equal dates keep their order.\<close>

definition newest_first :: "UsageSummary list \<Rightarrow> UsageSummary list" where
  "newest_first ss = rev (sort_key us_period (rev ss))"

definition tracker_daily_summaries :: "usize \<Rightarrow> UsageTracker \<Rightarrow> DailySummary list" where
  "tracker_daily_summaries days t = take days (newest_first (hm_values (ud_daily (ut_data t))))"

definition tracker_monthly_summaries :: "usize \<Rightarrow> UsageTracker \<Rightarrow> MonthlySummary list" where
  "tracker_monthly_summaries months t = take months (newest_first (hm_values (ud_monthly (ut_data t))))"

subsection \<open>Public functions\<close>

text \<open>The globals: the tracker, the prices and the flag of the warning about missing prices.\<close>

record usage_state =
  g_tracker :: UsageTracker
  g_pricing :: PricingConfig
  g_unconfigured_warned :: bool

definition record_usage ::
    "usage_api \<Rightarrow> env \<Rightarrow> string \<Rightarrow> string \<Rightarrow> string option \<Rightarrow> u64 \<Rightarrow> u64 \<Rightarrow> usage_state \<Rightarrow> usage_state" where
  "record_usage U e provider model session_key input_tokens output_tokens g =
     g\<lparr>g_tracker := maybe_save e
         (tracker_record U (g_pricing g) (env_now e) provider model session_key input_tokens output_tokens (g_tracker g))\<rparr>"

text \<open>The first component of the result tells whether the warning is logged.\<close>

definition update_pricing_from_config ::
    "usage_api \<Rightarrow> 'j json_api \<Rightarrow> ('j \<Rightarrow> real option) \<Rightarrow> 'j \<Rightarrow> usage_state \<Rightarrow> bool \<times> usage_state" where
  "update_pricing_from_config U J as_f64 config g =
     (let new_config = parse_pricing_config (ua_lower U) J as_f64 (ua_fl U) config;
          usage_enabled = unwrap_or (Option.bind (Option.bind (j_get J config ''usage'') (as_object J))
            (\<lambda>usage. j_bool J usage ''enabled'')) True;
          g = g\<lparr>g_pricing := new_config\<rparr>
      in if usage_enabled \<and> \<not> is_pricing_configured new_config
         then (\<not> g_unconfigured_warned g, g\<lparr>g_unconfigured_warned := True\<rparr>)
         else (False, g))"

definition set_tracking :: "env \<Rightarrow> bool \<Rightarrow> usage_state \<Rightarrow> usage_state" where
  "set_tracking e enabled g = g\<lparr>g_tracker := tracker_save e (set_enabled enabled (g_tracker g))\<rparr>"

definition reset_all :: "env \<Rightarrow> usage_state \<Rightarrow> usage_state" where
  "reset_all e g = g\<lparr>g_tracker := tracker_save e (tracker_reset (g_tracker g))\<rparr>"

definition reset_session_usage :: "usage_api \<Rightarrow> env \<Rightarrow> string \<Rightarrow> usage_state \<Rightarrow> bool \<times> usage_state" where
  "reset_session_usage U e session_key g =
     (case tracker_reset_session U session_key (g_tracker g) of
        (result, t) \<Rightarrow> (result, g\<lparr>g_tracker := tracker_save e t\<rparr>))"

subsection \<open>Request handlers\<close>

record ProviderValue =
  pv_usage :: ProviderUsage
  pv_total_tokens :: u64

definition provider_usage_to_value :: "ProviderUsage \<Rightarrow> ProviderValue" where
  "provider_usage_to_value u = \<lparr>pv_usage = u, pv_total_tokens = u64_add (pu_input_tokens u) (pu_output_tokens u)\<rparr>"

record ModelValue =
  mv_usage :: ModelUsage
  mv_total_tokens :: u64

definition model_usage_to_value :: "ModelUsage \<Rightarrow> ModelValue" where
  "model_usage_to_value u = \<lparr>mv_usage = u, mv_total_tokens = u64_add (mu_input_tokens u) (mu_output_tokens u)\<rparr>"

definition map_provider_breakdown :: "(string, ProviderUsage) hmap \<Rightarrow> ProviderValue list" where
  "map_provider_breakdown m = map provider_usage_to_value (sort_key pu_provider (hm_values m))"

definition map_model_breakdown :: "(string, ModelUsage) hmap \<Rightarrow> ModelValue list" where
  "map_model_breakdown m = map model_usage_to_value (sort_key mu_model (hm_values m))"

record SummaryValue =
  sv_period :: string
  sv_input_tokens :: u64
  sv_output_tokens :: u64
  sv_total_tokens :: u64
  sv_requests :: u64
  sv_cost :: real
  sv_by_provider :: "ProviderValue list"
  sv_by_model :: "ModelValue list"

definition summary_to_value :: "UsageSummary \<Rightarrow> SummaryValue" where
  "summary_to_value s =
     \<lparr>sv_period = us_period s, sv_input_tokens = us_input_tokens s, sv_output_tokens = us_output_tokens s,
      sv_total_tokens = u64_add (us_input_tokens s) (us_output_tokens s), sv_requests = us_requests s,
      sv_cost = us_cost_usd s, sv_by_provider = map_provider_breakdown (us_by_provider s),
      sv_by_model = map_model_breakdown (us_by_model s)\<rparr>"

definition totals_from_providers :: "(real \<Rightarrow> real) \<Rightarrow> ProviderUsage list \<Rightarrow> u64 \<times> u64 \<times> u64 \<times> real" where
  "totals_from_providers fl providers =
     fold (\<lambda>u (i, out, n, c). (u64_add i (pu_input_tokens u), u64_add out (pu_output_tokens u),
                               u64_add n (pu_requests u), fl (c + pu_cost_usd u))) providers (0, 0, 0, 0)"

definition provider_daily_costs :: "string \<Rightarrow> DailySummary list \<Rightarrow> DailyCost list" where
  "provider_daily_costs provider summaries =
     sort_key dc_date (List.map_filter (\<lambda>s. map_option
       (\<lambda>u. \<lparr>dc_date = us_period s, dc_cost_usd = pu_cost_usd u, dc_requests = pu_requests u\<rparr>)
       (hm_get (us_by_provider s) provider)) summaries)"

record StatusResponse =
  sr_enabled :: bool
  sr_pricing_configured :: bool
  sr_input_tokens :: u64
  sr_output_tokens :: u64
  sr_total_tokens :: u64
  sr_requests :: u64
  sr_total_cost :: real
  sr_session_count :: usize
  sr_provider_count :: usize

definition handle_usage_status :: "usage_api \<Rightarrow> env \<Rightarrow> usage_state \<Rightarrow> StatusResponse" where
  "handle_usage_status U e g =
     (let status = tracker_status (env_now e) (g_tracker g);
          providers = tracker_providers (ua_fl U) (g_tracker g)
      in case totals_from_providers (ua_fl U) providers of (i, out, n, c) \<Rightarrow>
        \<lparr>sr_enabled = st_enabled status, sr_pricing_configured = is_pricing_configured (g_pricing g),
         sr_input_tokens = i, sr_output_tokens = out, sr_total_tokens = u64_add i out, sr_requests = n, sr_total_cost = c,
         sr_session_count = st_session_count status, sr_provider_count = length providers\<rparr>)"

definition handle_usage_enable :: "env \<Rightarrow> usage_state \<Rightarrow> bool \<times> usage_state" where
  "handle_usage_enable e g = (True, set_tracking e True g)"

definition handle_usage_disable :: "env \<Rightarrow> usage_state \<Rightarrow> bool \<times> usage_state" where
  "handle_usage_disable e g = (False, set_tracking e False g)"

text \<open>The parameters of a request: an optional JSON value.\<close>

definition param :: "'j json_api \<Rightarrow> 'j option \<Rightarrow> string \<Rightarrow> 'j option" where
  "param J params k = Option.bind params (\<lambda>v. j_get J v k)"

definition param_session_key :: "'j json_api \<Rightarrow> 'j option \<Rightarrow> string option" where
  "param_session_key J params =
     (case map_option trim (Option.bind (param J params ''sessionKey'') (j_as_str J)) of
        Some s \<Rightarrow> if s = [] then None else Some s
      | None \<Rightarrow> None)"

record CostResponse =
  cr_days :: i64
  cr_session_key :: "string option"
  cr_provider :: "string option"
  cr_input_tokens :: u64
  cr_output_tokens :: u64
  cr_total_tokens :: u64
  cr_requests :: u64
  cr_total_cost :: real
  cr_pricing_configured :: bool
  cr_session_count :: usize
  cr_by_provider :: "ProviderValue list"
  cr_by_model :: "ModelValue list"
  cr_daily :: "DailyCost list"

definition handle_usage_cost ::
    "usage_api \<Rightarrow> 'j json_api \<Rightarrow> ('j \<Rightarrow> i64 option) \<Rightarrow> env \<Rightarrow> 'j option \<Rightarrow> usage_state \<Rightarrow> CostResponse" where
  "handle_usage_cost U J as_i64 e params g =
     (let fl = ua_fl U; t = g_tracker g; now = env_now e;
          session_key = param_session_key J params;
          days = max 1 (unwrap_or (Option.bind (param J params ''days'') as_i64) 30);
          provider = Option.bind (param J params ''provider'') (j_as_str J);
          cutoff = cost_cutoff now (nat days);
          configured = is_pricing_configured (g_pricing g)
      in case session_key of
           Some key \<Rightarrow>
             (let (i, out, n, c, sessions) =
                (case tracker_session_usage U key t of
                   Some u \<Rightarrow>
                     (if se_last_used_at u \<ge> cutoff
                      then (se_input_tokens u, se_output_tokens u, se_requests u, se_cost_usd u, 1) else (0, 0, 0, 0, 0))
                 | None \<Rightarrow> (0, 0, 0, 0, 0))
              in \<lparr>cr_days = days, cr_session_key = session_key, cr_provider = provider, cr_input_tokens = i,
                  cr_output_tokens = out, cr_total_tokens = u64_add i out, cr_requests = n, cr_total_cost = c,
                  cr_pricing_configured = configured, cr_session_count = sessions,
                  cr_by_provider = [], cr_by_model = [], cr_daily = []\<rparr>)
         | None \<Rightarrow>
             (let breakdown = cost_breakdown fl now (nat days) t;
                  sessions = length (filter (\<lambda>u. se_last_used_at u \<ge> cutoff) (tracker_sessions t))
              in case provider of
                   Some p \<Rightarrow>
                     (let by_provider = filter (\<lambda>u. pu_provider u = p) (cb_by_provider breakdown);
                          by_model = filter (\<lambda>u. mu_provider u = p) (cb_by_model breakdown)
                      in case totals_from_providers fl by_provider of (i, out, n, c) \<Rightarrow>
                        \<lparr>cr_days = days, cr_session_key = session_key, cr_provider = provider, cr_input_tokens = i,
                         cr_output_tokens = out, cr_total_tokens = u64_add i out, cr_requests = n, cr_total_cost = c,
                         cr_pricing_configured = configured, cr_session_count = sessions,
                         cr_by_provider = map provider_usage_to_value by_provider,
                         cr_by_model = map model_usage_to_value by_model,
                         cr_daily = provider_daily_costs p (tracker_daily_summaries (nat days) t)\<rparr>)
                 | None \<Rightarrow>
                     \<lparr>cr_days = days, cr_session_key = session_key, cr_provider = provider,
                      cr_input_tokens = cb_total_input_tokens breakdown, cr_output_tokens = cb_total_output_tokens breakdown,
                      cr_total_tokens = u64_add (cb_total_input_tokens breakdown) (cb_total_output_tokens breakdown),
                      cr_requests = cb_total_requests breakdown, cr_total_cost = cb_total_cost breakdown,
                      cr_pricing_configured = configured, cr_session_count = sessions,
                      cr_by_provider = map provider_usage_to_value (cb_by_provider breakdown),
                      cr_by_model = map model_usage_to_value (cb_by_model breakdown),
                      cr_daily = cb_daily breakdown\<rparr>))"

record SessionResponse =
  sp_session_key :: string
  sp_input_tokens :: u64
  sp_output_tokens :: u64
  sp_total_tokens :: u64
  sp_requests :: u64
  sp_cost :: real
  sp_pricing_configured :: bool
  sp_first_used_at :: "u64 option"
  sp_last_used_at :: "u64 option"

datatype UsageError = InvalidRequest string

definition handle_usage_session ::
    "usage_api \<Rightarrow> 'j json_api \<Rightarrow> 'j option \<Rightarrow> usage_state \<Rightarrow> UsageError + SessionResponse" where
  "handle_usage_session U J params g =
     (case Option.bind (param J params ''sessionKey'') (j_as_str J) of
        None \<Rightarrow> Inl (InvalidRequest ''sessionKey is required'')
      | Some key \<Rightarrow>
          (case tracker_session_usage U key (g_tracker g) of
             Some u \<Rightarrow> Inr
               \<lparr>sp_session_key = key, sp_input_tokens = se_input_tokens u, sp_output_tokens = se_output_tokens u,
                sp_total_tokens = u64_add (se_input_tokens u) (se_output_tokens u), sp_requests = se_requests u,
                sp_cost = se_cost_usd u, sp_pricing_configured = is_pricing_configured (g_pricing g),
                sp_first_used_at = Some (se_first_used_at u), sp_last_used_at = Some (se_last_used_at u)\<rparr>
           | None \<Rightarrow> Inr
               \<lparr>sp_session_key = key, sp_input_tokens = 0, sp_output_tokens = 0, sp_total_tokens = 0, sp_requests = 0,
                sp_cost = 0, sp_pricing_configured = is_pricing_configured (g_pricing g),
                sp_first_used_at = None, sp_last_used_at = None\<rparr>))"

definition handle_usage_providers :: "usage_api \<Rightarrow> usage_state \<Rightarrow> ProviderValue list \<times> bool" where
  "handle_usage_providers U g =
     (map provider_usage_to_value (tracker_providers (ua_fl U) (g_tracker g)), is_pricing_configured (g_pricing g))"

record SummariesResponse =
  lr_count :: usize
  lr_pricing_configured :: bool
  lr_summaries :: "SummaryValue list"

definition handle_usage_daily :: "'j json_api \<Rightarrow> ('j \<Rightarrow> i64 option) \<Rightarrow> 'j option \<Rightarrow> usage_state \<Rightarrow> SummariesResponse" where
  "handle_usage_daily J as_i64 params g =
     (let days = nat (max 1 (min 365 (unwrap_or (Option.bind (param J params ''days'') as_i64) 30)))
      in \<lparr>lr_count = days, lr_pricing_configured = is_pricing_configured (g_pricing g),
          lr_summaries = map summary_to_value (tracker_daily_summaries days (g_tracker g))\<rparr>)"

definition handle_usage_monthly :: "'j json_api \<Rightarrow> ('j \<Rightarrow> i64 option) \<Rightarrow> 'j option \<Rightarrow> usage_state \<Rightarrow> SummariesResponse" where
  "handle_usage_monthly J as_i64 params g =
     (let months = nat (max 1 (min 120 (unwrap_or (Option.bind (param J params ''months'') as_i64) 12)))
      in \<lparr>lr_count = months, lr_pricing_configured = is_pricing_configured (g_pricing g),
          lr_summaries = map summary_to_value (tracker_monthly_summaries months (g_tracker g))\<rparr>)"

datatype ResetResponse = Reset_session string | Reset_none | Reset_all usize

definition handle_usage_reset ::
    "usage_api \<Rightarrow> 'j json_api \<Rightarrow> env \<Rightarrow> 'j option \<Rightarrow> usage_state \<Rightarrow> ResetResponse \<times> usage_state" where
  "handle_usage_reset U J e params g =
     (case param_session_key J params of
        Some key \<Rightarrow>
          (case reset_session_usage U e key g of
             (removed, g') \<Rightarrow> (if removed then Reset_session key else Reset_none, g'))
      | None \<Rightarrow> (Reset_all (length (tracker_sessions (g_tracker g))), reset_all e g))"

end
