(* ===== verification/Usage_Ledger.thy ===== *)
theory Usage_Ledger
  imports Usage_Queries
begin

text \<open>
  The usage tracker against a ledger: the abstract state is the list of the records accepted since the last reset,
  and the summaries of the tracker are what the ledger gives for each day and month inside the retention window.
  The locale \<open>usage_window\<close> is the contract between periods and retention, interpreted for days and for months; the
  locale \<open>usage_counter\<close> is the contract of the three counters (input tokens, output tokens, requests).
\<close>

subsection \<open>Entries of a map\<close>

lemma entry_update_get [hm_simps]:
  "hm_get (entry_update k d f m) k' = (if k' = k then Some (f (unwrap_or (hm_get m k) d)) else hm_get m k')"
  by (auto simp: entry_update_def hm_contains_def hm_simps unwrap_or_def split: option.split)

lemma entry_update_wf [wf_intros]: "hm_wf m \<Longrightarrow> hm_wf (entry_update k d f m)"
  by (simp add: entry_update_def hm.wf_ins hm.wf_modi)

lemma hm_ext_length:
  assumes "hm_wf m" "finite K" "card K \<le> n" "\<And>k. hm_contains m k \<Longrightarrow> k \<in> K"
  shows "length m \<le> n"
proof -
  have "set (map fst m) \<subseteq> K"
    using assms(4) by (force simp: hm_contains_def hm_get_def map_of_eq_None_iff)
  with assms(2) have "card (set (map fst m)) \<le> card K" by (intro card_mono)
  with assms(3) distinct_card [OF assms(1) [unfolded hm_wf_def]] show ?thesis by simp
qed

lemma drop_first_idle: "length m \<le> limit \<Longrightarrow> drop_first limit m keys = m"
  by (simp add: drop_first_def)

subsection \<open>What the ledger gives for a period\<close>

definition period_summary ::
    "(real \<Rightarrow> real) \<Rightarrow> (u64 \<Rightarrow> string) \<Rightarrow> (u64 \<Rightarrow> string \<Rightarrow> bool) \<Rightarrow> UsageRecord list \<Rightarrow> u64 \<Rightarrow> string \<Rightarrow> UsageSummary option" where
  "period_summary fl period kept recs now k =
     (let rs = filter (\<lambda>r. period (ur_timestamp r) = k) recs
      in if rs = [] \<or> \<not> kept now k then None else Some (fold (add_record fl) rs (summary_new k)))"

definition day_kept :: "u64 \<Rightarrow> string \<Rightarrow> bool" where
  "day_kept now date \<longleftrightarrow> date_within_range date (retention_cutoff now 365)"

definition month_kept :: "u64 \<Rightarrow> string \<Rightarrow> bool" where
  "month_kept now k \<longleftrightarrow>
     (case parse_month k of None \<Rightarrow> False
      | Some (y, m) \<Rightarrow> month_to_index y m \<ge> int (month_index (day_of now)) - 23)"

text \<open>The contract of a retention window on periods.\<close>

locale usage_window =
  fixes period :: "u64 \<Rightarrow> string"
    and kept :: "u64 \<Rightarrow> string \<Rightarrow> bool"
    and limit :: usize
  assumes kept_mono: "a \<le> b \<Longrightarrow> b < four_digit_years \<Longrightarrow> kept b k \<Longrightarrow> kept a k"
    and kept_now: "now < four_digit_years \<Longrightarrow> kept now (period now)"
    and few_periods: "now < four_digit_years \<Longrightarrow>
          \<exists>K. finite K \<and> card K \<le> limit \<and> (\<forall>a\<le>now. kept now (period a) \<longrightarrow> period a \<in> K)"
begin

lemma record_step:
  assumes m: "hm_wf m" "\<And>k. hm_get m k = period_summary fl period kept recs before k"
    and recs: "\<And>r. r \<in> set recs \<Longrightarrow> ur_timestamp r \<le> before"
    and now: "before \<le> now" "now < four_digit_years" "ur_timestamp r = now"
    and m': "m' = hm_retain (\<lambda>k _. kept now k)
                    (entry_update (period now) (summary_new (period now)) (add_record fl r) m)"
  shows "hm_wf m' \<and> length m' \<le> limit \<and> (\<forall>k. hm_get m' k = period_summary fl period kept (recs @ [r]) now k)"
proof (intro conjI allI)
  let ?e = "entry_update (period now) (summary_new (period now)) (add_record fl r) m"
  have wf: "hm_wf ?e" using m(1) by (rule entry_update_wf)
  then show wf': "hm_wf m'" unfolding m' by (rule hm.wf_ret)
  show get: "hm_get m' k = period_summary fl period kept (recs @ [r]) now k" for k
  proof (cases "k = period now")
    case True
    have "kept before (period now)" by (rule kept_mono [OF now(1,2) kept_now [OF now(2)]])
    with True now m(2) [of k] show ?thesis
      by (simp add: m' hm.get_ret [OF wf] hm_simps period_summary_def kept_now unwrap_or_def Let_def)
  next
    case False
    have "kept now k \<Longrightarrow> kept before k" by (rule kept_mono [OF now(1,2)])
    with False now m(2) [of k] show ?thesis
      by (auto simp: m' hm.get_ret [OF wf] hm_simps period_summary_def Let_def)
  qed
  obtain K where K: "finite K" "card K \<le> limit" "\<And>a. a \<le> now \<Longrightarrow> kept now (period a) \<Longrightarrow> period a \<in> K"
    using few_periods [OF now(2)] by blast
  have "k \<in> K" if "hm_contains m' k" for k
  proof -
    from that get [of k] have "filter (\<lambda>r. period (ur_timestamp r) = k) (recs @ [r]) \<noteq> []" "kept now k"
      by (auto simp: hm_contains_def period_summary_def Let_def split: if_splits)
    then obtain r' where "r' \<in> set (recs @ [r])" "period (ur_timestamp r') = k"
      unfolding filter_empty_conv by blast
    with recs [of r'] now have "ur_timestamp r' \<le> now" by auto
    with K(3) [of "ur_timestamp r'"] \<open>kept now k\<close> \<open>period (ur_timestamp r') = k\<close> show ?thesis by simp
  qed
  then show "length m' \<le> limit" using hm_ext_length [OF wf' K(1,2)] by blast
qed

end

lemma date_kept_days:
  assumes "a < four_digit_years"
  shows "day_kept now (today_date a) \<longleftrightarrow> now - 365 * 86400000 \<le> day_of a * 86400000"
proof -
  have "a \<le> u64_max" using assms by (simp add: four_digit_years_def u64_max_def)
  then show ?thesis
    by (simp add: day_kept_def range_check_day retention_cutoff_def u64_saturating_sub_def u64_saturating_mul_def
        DAY_MS_def u64_max_def)
qed

interpretation days: usage_window today_date day_kept 400
proof
  fix a b k
  assume "a \<le> b" "day_kept b k"
  then show "day_kept a k"
    by (auto simp: day_kept_def date_within_range_def retention_cutoff_def u64_saturating_sub_def split: option.splits)
next
  fix now
  assume now: "now < four_digit_years"
  then show "day_kept now (today_date now)"
    by (simp add: date_kept_days day_of_def)
  let ?K = "(\<lambda>n. format_date (civil_date n)) ` {day_of now - 366..day_of now}"
  have "today_date a \<in> ?K" if "a \<le> now" "day_kept now (today_date a)" for a
  proof -
    have "now - 365 * 86400000 \<le> day_of a * 86400000" using that now date_kept_days [of a now] by simp
    then have "day_of now - 366 \<le> day_of a" "day_of a \<le> day_of now"
      using that(1) by (simp_all add: day_of_def div_le_mono)
    then show ?thesis by (auto simp: today_date_day)
  qed
  moreover have "card ?K \<le> 400" by (rule order_trans [OF card_image_le]) auto
  ultimately show "\<exists>K. finite K \<and> card K \<le> 400 \<and> (\<forall>a\<le>now. day_kept now (today_date a) \<longrightarrow> today_date a \<in> K)"
    by (intro exI [of _ ?K]) blast
qed

lemma four_digit_days: "a < four_digit_years \<Longrightarrow> day_of a < 365 * 8030"
  by (simp add: day_of_def four_digit_years_def less_mult_imp_div_less)

lemma month_kept_index:
  assumes "a < four_digit_years"
  shows "month_kept now (current_month a) \<longleftrightarrow> month_index (day_of now) < month_index (day_of a) + 24"
  using parse_month_text [OF four_digit_days [OF assms]] by (auto simp: month_kept_def current_month_day)

interpretation months: usage_window current_month month_kept 36
proof
  fix a b k
  assume "a \<le> b" "month_kept b k"
  then show "month_kept a k"
    using month_index_mono [of "day_of a" "day_of b"]
    by (auto simp: month_kept_def day_of_def div_le_mono split: option.splits)
next
  fix now
  assume now: "now < four_digit_years"
  then show "month_kept now (current_month now)" by (simp add: month_kept_index)
  let ?D = "{n. n \<le> day_of now \<and> month_index (day_of now) < month_index n + 24}"
  define K where "K = (\<lambda>i. month_text (inv_into ?D month_index i)) ` month_index ` ?D"
  have "month_index ` ?D \<subseteq> {month_index (day_of now) - 23..month_index (day_of now)}"
    using month_index_mono by fastforce
  then have "card (month_index ` ?D) \<le> card {month_index (day_of now) - 23..month_index (day_of now)}"
    by (intro card_mono) auto
  then have "card (month_index ` ?D) \<le> 36" by simp
  moreover have "card K \<le> card (month_index ` ?D)" unfolding K_def by (rule card_image_le) simp
  ultimately have "card K \<le> 36" by simp
  moreover have "finite K" unfolding K_def by (intro finite_imageI) simp
  moreover have "current_month a \<in> K" if "a \<le> now" "month_kept now (current_month a)" for a
  proof -
    have a: "day_of a \<in> ?D" using that now month_kept_index [of a now] by (simp add: day_of_def div_le_mono)
    let ?n = "inv_into ?D month_index (month_index (day_of a))"
    have "month_index ?n = month_index (day_of a)" "?n \<in> ?D"
      by (rule f_inv_into_f [OF imageI [OF a]], rule inv_into_into [OF imageI [OF a]])
    moreover from this have "?n < 365 * 8030" using four_digit_days [OF now] by simp
    ultimately have "month_text ?n = month_text (day_of a)"
      using month_text_eq [of ?n "day_of a"] a four_digit_days [OF now] by simp
    moreover have "month_text ?n \<in> K" unfolding K_def by (rule imageI [OF imageI [OF a]])
    ultimately show ?thesis by (simp add: current_month_day)
  qed
  ultimately show "\<exists>K. finite K \<and> card K \<le> 36 \<and> (\<forall>a\<le>now. month_kept now (current_month a) \<longrightarrow> current_month a \<in> K)"
    by blast
qed

subsection \<open>The ledger and the tracker\<close>

record ledger =
  lg_enabled :: bool
  lg_pricing :: PricingConfig
  lg_records :: "UsageRecord list"

datatype 'j usage_op =
    Record_usage env string string "string option" u64 u64
  | Update_pricing 'j
  | Enable_tracking env
  | Disable_tracking env
  | Reset_usage env "'j option"

fun usage_step :: "usage_api \<Rightarrow> 'j json_api \<Rightarrow> ('j \<Rightarrow> real option) \<Rightarrow> 'j usage_op \<Rightarrow> usage_state \<Rightarrow> usage_state" where
  "usage_step U J f (Record_usage e p m k i out) g = record_usage U e p m k i out g"
| "usage_step U J f (Update_pricing c) g = snd (update_pricing_from_config U J f c g)"
| "usage_step U J f (Enable_tracking e) g = snd (handle_usage_enable e g)"
| "usage_step U J f (Disable_tracking e) g = snd (handle_usage_disable e g)"
| "usage_step U J f (Reset_usage e params) g = snd (handle_usage_reset U J e params g)"

fun ledger_step :: "usage_api \<Rightarrow> 'j json_api \<Rightarrow> ('j \<Rightarrow> real option) \<Rightarrow> 'j usage_op \<Rightarrow> ledger \<Rightarrow> ledger" where
  "ledger_step U J f (Record_usage e p m k i out) L =
     (if lg_enabled L then L\<lparr>lg_records := lg_records L @ [make_record U (lg_pricing L) (env_now e) p m k i out]\<rparr> else L)"
| "ledger_step U J f (Update_pricing c) L = L\<lparr>lg_pricing := parse_pricing_config (ua_lower U) J f (ua_fl U) c\<rparr>"
| "ledger_step U J f (Enable_tracking e) L = L\<lparr>lg_enabled := True\<rparr>"
| "ledger_step U J f (Disable_tracking e) L = L\<lparr>lg_enabled := False\<rparr>"
| "ledger_step U J f (Reset_usage e params) L = (if param_session_key J params = None then L\<lparr>lg_records := []\<rparr> else L)"

fun record_times :: "'j usage_op list \<Rightarrow> u64 list" where
  "record_times [] = []"
| "record_times (Record_usage e p m k i out # ops) = env_now e # record_times ops"
| "record_times (_ # ops) = record_times ops"

definition usage_run :: "usage_api \<Rightarrow> 'j json_api \<Rightarrow> ('j \<Rightarrow> real option) \<Rightarrow> 'j usage_op list \<Rightarrow> usage_state \<Rightarrow> usage_state" where
  "usage_run U J f = fold (usage_step U J f)"

definition ledger_run :: "usage_api \<Rightarrow> 'j json_api \<Rightarrow> ('j \<Rightarrow> real option) \<Rightarrow> 'j usage_op list \<Rightarrow> ledger \<Rightarrow> ledger" where
  "ledger_run U J f = fold (ledger_step U J f)"

definition ledger_time :: "ledger \<Rightarrow> u64" where
  "ledger_time L = (if lg_records L = [] then 0 else ur_timestamp (List.last (lg_records L)))"

definition usage_fresh :: usage_state where
  "usage_fresh = \<lparr>g_tracker = tracker_new None, g_pricing = PricingConfig_default, g_unconfigured_warned = False\<rparr>"

definition ledger_fresh :: ledger where
  "ledger_fresh = \<lparr>lg_enabled = True, lg_pricing = PricingConfig_default, lg_records = []\<rparr>"

definition summaries_match ::
    "(real \<Rightarrow> real) \<Rightarrow> (u64 \<Rightarrow> string) \<Rightarrow> (u64 \<Rightarrow> string \<Rightarrow> bool) \<Rightarrow> ledger \<Rightarrow> (string, UsageSummary) hmap \<Rightarrow> bool" where
  "summaries_match fl period kept L m \<longleftrightarrow>
     hm_wf m \<and> (\<forall>k. hm_get m k = period_summary fl period kept (lg_records L) (ledger_time L) k)"

definition usage_refines :: "usage_api \<Rightarrow> ledger \<Rightarrow> usage_state \<Rightarrow> bool" where
  "usage_refines U L g \<longleftrightarrow>
     (let d = ut_data (g_tracker g) in
      ud_enabled d = lg_enabled L \<and> g_pricing g = lg_pricing L \<and>
      (\<forall>r\<in>set (lg_records L). ur_timestamp r \<le> ledger_time L) \<and>
      summaries_match (ua_fl U) today_date day_kept L (ud_daily d) \<and>
      summaries_match (ua_fl U) current_month month_kept L (ud_monthly d))"

lemma save_data [simp]: "ut_data (tracker_save e t) = ut_data t" "ut_data (maybe_save e t) = ut_data t"
  by (simp_all add: tracker_save_def maybe_save_def Let_def split: option.split)

lemma prune_daily_default:
  "prune_daily now DEFAULT_USAGE_RETENTION m =
     (let kept = hm_retain (\<lambda>k _. day_kept now k) m in drop_first 400 kept (sort (map fst kept)))"
  by (simp add: prune_daily_def DEFAULT_USAGE_RETENTION_def day_kept_def)

lemma prune_monthly_default:
  assumes "now < four_digit_years"
  shows "prune_monthly now DEFAULT_USAGE_RETENTION m =
     (let kept = hm_retain (\<lambda>k _. month_kept now k) m in drop_first 36 kept (sort (map fst kept)))"
  using parse_month_text [OF four_digit_days [OF assms]]
  by (auto simp: prune_monthly_def DEFAULT_USAGE_RETENTION_def month_kept_def current_month_day Let_def
      cong: option.case_cong)

lemma tracker_record_data:
  assumes "ud_enabled (ut_data t)" "r = make_record U pricing now p m k i out"
  shows "ud_daily (ut_data (tracker_record U pricing now p m k i out t)) =
           prune_daily now DEFAULT_USAGE_RETENTION
             (entry_update (today_date now) (summary_new (today_date now)) (add_record (ua_fl U) r) (ud_daily (ut_data t)))"
    "ud_monthly (ut_data (tracker_record U pricing now p m k i out t)) =
           prune_monthly now DEFAULT_USAGE_RETENTION
             (entry_update (current_month now) (summary_new (current_month now)) (add_record (ua_fl U) r) (ud_monthly (ut_data t)))"
    "ud_enabled (ut_data (tracker_record U pricing now p m k i out t))"
  using assms
  by (simp_all add: tracker_record_def apply_record_def prune_data_def prune_data_with_limits_def Let_def make_record_def)

lemma record_refines:
  assumes "usage_refines U L g" "lg_enabled L" "ledger_time L \<le> env_now e" "env_now e < four_digit_years"
    and "L' = L\<lparr>lg_records := lg_records L @ [make_record U (lg_pricing L) (env_now e) p m k i out]\<rparr>"
  shows "usage_refines U L' (record_usage U e p m k i out g)"
proof -
  let ?r = "make_record U (lg_pricing L) (env_now e) p m k i out" and ?t = "g_tracker g"
  let ?d = "ut_data (tracker_record U (lg_pricing L) (env_now e) p m k i out ?t)"
  have ts: "ur_timestamp ?r = env_now e" by (simp add: make_record_def)
  have time: "ledger_time L' = env_now e" "lg_records L' = lg_records L @ [?r]"
    by (simp_all add: assms(5) ledger_time_def ts)
  note R = assms(1) [unfolded usage_refines_def Let_def summaries_match_def]
  have le: "ur_timestamp r \<le> ledger_time L" if "r \<in> set (lg_records L)" for r using R that by blast
  note data = tracker_record_data [of ?t ?r U "lg_pricing L" "env_now e" p m k i out]
  have "summaries_match (ua_fl U) today_date day_kept L' (ud_daily ?d)"
    using days.record_step [where m = "ud_daily (ut_data ?t)" and recs = "lg_records L" and fl = "ua_fl U", OF _ _ le assms(3,4) ts refl] R data(1) assms(2)
    by (simp add: summaries_match_def time prune_daily_default drop_first_idle Let_def)
  moreover have "summaries_match (ua_fl U) current_month month_kept L' (ud_monthly ?d)"
    using months.record_step [where m = "ud_monthly (ut_data ?t)" and recs = "lg_records L" and fl = "ua_fl U", OF _ _ le assms(3,4) ts refl] R data(2) assms(2)
    by (simp add: summaries_match_def time prune_monthly_default [OF assms(4)] drop_first_idle Let_def)
  moreover have "\<forall>r\<in>set (lg_records L'). ur_timestamp r \<le> ledger_time L'"
    using le assms(3) unfolding time by (auto simp: ts intro: order_trans)
  ultimately show ?thesis using R data(3) assms(2) by (simp add: usage_refines_def record_usage_def Let_def assms(5))
qed

lemma usage_step_refines:
  assumes "usage_refines U L g" "\<forall>t\<in>set (record_times [op]). ledger_time L \<le> t \<and> t < four_digit_years"
  shows "usage_refines U (ledger_step U J f op L) (usage_step U J f op g)"
proof (cases op)
  case (Record_usage e p m k i out)
  show ?thesis
  proof (cases "lg_enabled L")
    case True
    with assms Record_usage record_refines [OF assms(1) True _ _ refl] show ?thesis by simp
  next
    case False
    with assms(1) Record_usage show ?thesis
      by (simp add: usage_refines_def record_usage_def tracker_record_def Let_def)
  qed
next
  case (Reset_usage e params)
  with assms(1) show ?thesis
    by (auto simp: usage_refines_def Let_def handle_usage_reset_def reset_session_usage_def reset_all_def
        tracker_reset_session_def tracker_reset_def UsageData_default_def ledger_time_def summaries_match_def
        period_summary_def split: option.splits prod.splits if_splits)
qed (use assms(1) in \<open>auto simp: usage_refines_def Let_def update_pricing_from_config_def handle_usage_enable_def
  handle_usage_disable_def set_tracking_def set_enabled_def summaries_match_def ledger_time_def\<close>)

end
