(* ===== verification/Usage_Accounts.thy ===== *)
theory Usage_Accounts
  imports "HOL-Library.Multiset" Usage_Ledger
begin

text \<open>
  Counters of the usage tracker: what the totals and the breakdown by provider of a cost query are in terms of the
  records of the ledger, for the three 64-bit counters at once, and the properties of usage accounting.
\<close>

definition u64_wrap :: "nat \<Rightarrow> u64" where
  "u64_wrap x = x mod (u64_max + 1)"

lemma u64_wrap_add [simp]:
  "u64_add (u64_wrap x) y = u64_wrap (x + y)" "u64_add x (u64_wrap y) = u64_wrap (x + y)"
  "u64_wrap (u64_wrap x) = u64_wrap x" "u64_wrap (x + u64_wrap y) = u64_wrap (x + y)"
  "u64_wrap (u64_wrap x + y) = u64_wrap (x + y)" "u64_wrap 0 = 0"
  by (simp_all add: u64_wrap_def u64_add_def mod_add_left_eq mod_add_right_eq)

definition entry_value :: "('v \<Rightarrow> nat) \<Rightarrow> ('k, 'v) hmap \<Rightarrow> 'k \<Rightarrow> nat" where
  "entry_value f m k = (case hm_get m k of None \<Rightarrow> 0 | Some v \<Rightarrow> f v)"

lemma entry_value_update:
  assumes "f d = 0"
  shows "entry_value f (entry_update k d h m) k' =
    (if k' = k then f (h (unwrap_or (hm_get m k) d)) else entry_value f m k')"
    "f (unwrap_or (hm_get m k) d) = entry_value f m k"
  using assms by (simp_all add: entry_value_def hm_simps unwrap_or_def split: option.split)

lemma sum_by_key:
  fixes f :: "'r \<Rightarrow> nat"
  assumes "distinct ks"
  shows "(\<Sum>k\<leftarrow>ks. \<Sum>r\<leftarrow>filter (\<lambda>r. key r = k) rs. f r) = (\<Sum>r\<leftarrow>filter (\<lambda>r. key r \<in> set ks) rs. f r)"
proof (induction rs)
  case (Cons r rs)
  have "(\<Sum>k\<leftarrow>ks. if key r = k then f r else 0) = (if key r \<in> set ks then f r else 0)"
    using assms by (induction ks) auto
  moreover have "(\<Sum>k\<leftarrow>ks. \<Sum>r\<leftarrow>filter (\<lambda>r. key r = k) (r # rs). f r)
      = (\<Sum>k\<leftarrow>ks. (if key r = k then f r else 0) + (\<Sum>r\<leftarrow>filter (\<lambda>r. key r = k) rs. f r))"
    by (intro arg_cong [of _ _ sum_list] map_cong) auto
  ultimately show ?case using Cons.IH by (simp add: sum_list_addf)
qed simp

lemma sum_list_wrap: "u64_wrap (\<Sum>x\<leftarrow>xs. u64_wrap (f x)) = u64_wrap (\<Sum>x\<leftarrow>xs. f x)"
proof (induction xs)
  case (Cons x xs)
  show ?case using arg_cong [OF Cons.IH, of "\<lambda>s. u64_wrap (f x + s)"] by simp
qed simp

subsection \<open>The maps of a summary\<close>

definition by_name :: "(string, ProviderUsage) hmap \<Rightarrow> bool" where
  "by_name m \<longleftrightarrow> hm_wf m \<and> hm_all (\<lambda>p u. pu_provider u = p) m"

lemma by_name_update:
  "by_name m \<Longrightarrow> by_name (entry_update p (provider_new p) (provider_add fl i out n c) m)"
  by (auto simp: by_name_def hm.allv_iff entry_update_wf hm_simps unwrap_or_def provider_add_def provider_new_def
      split: option.splits)

lemma by_name_records: "by_name (us_by_provider s) \<Longrightarrow> by_name (us_by_provider (fold (add_record fl) rs s))"
  by (induction rs arbitrary: s) (simp_all add: add_record_def by_name_update)

lemma by_name_merge: "by_name m \<Longrightarrow> by_name (fold (merge_provider fl) us m)"
  by (induction us arbitrary: m) (auto simp: merge_provider_def by_name_update)

lemma by_name_summaries:
  "by_name (us_by_provider s) \<Longrightarrow> by_name (us_by_provider (fold (merge_summary fl) ss s))"
  by (induction ss arbitrary: s) (simp_all add: merge_summary_def by_name_merge)

lemma by_name_new [simp]: "by_name (us_by_provider (summary_new k))"
  by (simp add: by_name_def summary_new_def)

lemma by_name_filter:
  assumes "by_name m"
  shows "filter (\<lambda>u. pu_provider u = p) (hm_values m) = (case hm_get m p of None \<Rightarrow> [] | Some u \<Rightarrow> [u])"
proof -
  have key: "filter (\<lambda>u. pu_provider u = p) (map snd m) = (case map_of m p of None \<Rightarrow> [] | Some u \<Rightarrow> [u])"
    if "distinct (map fst m)" "list_all (\<lambda>(q, u). pu_provider u = q) m" for m
    using that
  proof (induction m)
    case (Cons a m)
    then show ?case
      by (cases a) (auto simp: map_of_eq_None_iff list_all_iff filter_empty_conv image_iff split: option.split)
  qed simp
  from key [of m] assms show ?thesis by (simp add: by_name_def hm_wf_def hm_all_def hm_values_def hm_get_def)
qed

subsection \<open>A counter\<close>

locale usage_counter =
  fixes of_record :: "UsageRecord \<Rightarrow> u64"
    and of_summary :: "UsageSummary \<Rightarrow> u64"
    and of_provider :: "ProviderUsage \<Rightarrow> u64"
  assumes summary_zero: "of_summary (summary_new k) = 0"
    and summary_record: "of_summary (add_record fl r s) = u64_add (of_summary s) (of_record r)"
    and summary_merge: "of_summary (merge_summary fl s acc) = u64_add (of_summary acc) (of_summary s)"
    and provider_zero: "of_provider (provider_new p) = 0"
    and provider_record:
      "of_provider (provider_add fl (ur_input_tokens r) (ur_output_tokens r) 1 (ur_cost_usd r) u) = u64_add (of_provider u) (of_record r)"
    and provider_merge:
      "of_provider (provider_add fl (pu_input_tokens v) (pu_output_tokens v) (pu_requests v) (pu_cost_usd v) u)
         = u64_add (of_provider u) (of_provider v)"
begin

lemma summary_records:
  "of_summary s = u64_wrap x \<Longrightarrow> of_summary (fold (add_record fl) rs s) = u64_wrap (x + (\<Sum>r\<leftarrow>rs. of_record r))"
  by (induction rs arbitrary: s x) (simp_all add: summary_record add.assoc)

lemma provider_records:
  "entry_value of_provider (us_by_provider s) p = u64_wrap x \<Longrightarrow>
   entry_value of_provider (us_by_provider (fold (add_record fl) rs s)) p
     = u64_wrap (x + (\<Sum>r\<leftarrow>filter (\<lambda>r. ur_provider r = p) rs. of_record r))"
proof (induction rs arbitrary: s x)
  case (Cons r rs)
  have "entry_value of_provider (us_by_provider (add_record fl r s)) p
      = u64_wrap (x + (if ur_provider r = p then of_record r else 0))"
    using Cons.prems
    by (cases "p = ur_provider r") (simp_all add: add_record_def entry_value_update provider_zero provider_record [simplified])
  from Cons.IH [OF this] show ?case by (simp add: add.assoc)
qed simp

lemma provider_merged:
  "distinct (map fst us) \<Longrightarrow> entry_value of_provider m p = u64_wrap x \<Longrightarrow>
   entry_value of_provider (fold (merge_provider fl) us m) p = u64_wrap (x + entry_value of_provider us p)"
proof (induction us arbitrary: m x)
  case (Cons a us)
  obtain q v where a: "a = (q, v)" by force
  have "entry_value of_provider (merge_provider fl a m) p = u64_wrap (x + (if q = p then of_provider v else 0))"
    using Cons.prems(2)
    by (cases "p = q") (simp_all add: a merge_provider_def entry_value_update provider_zero provider_merge)
  with Cons.IH [OF _ this] Cons.prems(1) show ?case
    by (auto simp: a entry_value_def hm_get_def map_of_eq_None_iff image_iff split: option.split)
qed (simp add: entry_value_def)

lemma summaries_merged:
  "of_summary acc = u64_wrap x \<Longrightarrow>
   of_summary (fold (merge_summary fl) ss acc) = u64_wrap (x + (\<Sum>s\<leftarrow>ss. of_summary s))"
  by (induction ss arbitrary: acc x) (simp_all add: summary_merge add.assoc)

lemma providers_merged:
  "\<forall>s\<in>set ss. by_name (us_by_provider s) \<Longrightarrow> entry_value of_provider (us_by_provider acc) p = u64_wrap y \<Longrightarrow>
   entry_value of_provider (us_by_provider (fold (merge_summary fl) ss acc)) p
     = u64_wrap (y + (\<Sum>s\<leftarrow>ss. entry_value of_provider (us_by_provider s) p))"
proof (induction ss arbitrary: acc y)
  case (Cons s ss)
  then have "entry_value of_provider (us_by_provider (merge_summary fl s acc)) p
      = u64_wrap (y + entry_value of_provider (us_by_provider s) p)"
    using provider_merged [of "us_by_provider s" "us_by_provider acc" p y fl]
    by (simp add: merge_summary_def by_name_def hm_wf_def)
  from Cons.IH [OF _ this] Cons.prems(1) show ?case by (simp add: add.assoc)
qed simp

end

subsection \<open>Days of a cost query\<close>

definition relevant_days :: "u64 \<Rightarrow> u64 \<Rightarrow> UsageTracker \<Rightarrow> (string, DailySummary) hmap" where
  "relevant_days now days t = filter (\<lambda>(date, _). date_within_range date (cost_cutoff now days)) (ud_daily (ut_data t))"

text \<open>The records a query over the last \<open>days\<close> days is about: those of the days that begin in that time.\<close>

definition billed :: "u64 \<Rightarrow> u64 \<Rightarrow> string option \<Rightarrow> UsageRecord list \<Rightarrow> UsageRecord list" where
  "billed now days provider recs =
     filter (\<lambda>r. now \<le> ur_timestamp r div 86400000 * 86400000 + days * 86400000 \<and>
                 (case provider of None \<Rightarrow> True | Some p \<Rightarrow> ur_provider r = p)) recs"

lemma cost_cutoff_days: "days \<le> 365 \<Longrightarrow> cost_cutoff now days = now - days * 86400000"
  by (simp add: cost_cutoff_def u64_mul_def u64_saturating_sub_def u64_max_def)

lemma refines_daily:
  assumes "usage_refines U L g"
  shows "hm_wf (ud_daily (ut_data (g_tracker g)))"
    "hm_get (ud_daily (ut_data (g_tracker g))) k = period_summary (ua_fl U) today_date day_kept (lg_records L) (ledger_time L) k"
  using assms by (simp_all add: usage_refines_def summaries_match_def Let_def)

lemma relevant_day_iff:
  assumes "usage_refines U L g" "ledger_time L \<le> now" "now < four_digit_years" "days \<le> 365" "r \<in> set (lg_records L)"
  shows "today_date (ur_timestamp r) \<in> set (map fst (relevant_days now days (g_tracker g))) \<longleftrightarrow>
    now \<le> ur_timestamp r div 86400000 * 86400000 + days * 86400000"
proof -
  let ?a = "ur_timestamp r" and ?m = "ud_daily (ut_data (g_tracker g))"
  have a: "?a \<le> ledger_time L" using assms(1,5) by (simp add: usage_refines_def Let_def)
  with assms(2,3) have "?a < four_digit_years" by simp
  moreover from this have "?a \<le> u64_max" by (simp add: four_digit_years_def u64_max_def)
  ultimately have range: "date_within_range (today_date ?a) (cost_cutoff now days) \<longleftrightarrow> now - days * 86400000 \<le> day_of ?a * 86400000"
    and kept: "day_kept (ledger_time L) (today_date ?a) \<longleftrightarrow> ledger_time L - 365 * 86400000 \<le> day_of ?a * 86400000"
    by (simp_all add: range_check_day cost_cutoff_days [OF assms(4)] date_kept_days)
  have "today_date ?a \<in> fst ` set ?m" if "now - days * 86400000 \<le> day_of ?a * 86400000"
  proof -
    have "ledger_time L - 365 * 86400000 \<le> day_of ?a * 86400000" using that assms(2,4) by simp
    with kept assms(5) have "hm_get ?m (today_date ?a) \<noteq> None"
      by (auto simp: refines_daily [OF assms(1)] period_summary_def Let_def filter_empty_conv)
    then show ?thesis by (simp add: hm_get_def map_of_eq_None_iff)
  qed
  with range show ?thesis by (force simp: relevant_days_def day_of_def)
qed

lemma relevant_day_summary:
  assumes "usage_refines U L g" "(k, s) \<in> set (relevant_days now days (g_tracker g))"
  shows "s = fold (add_record (ua_fl U)) (filter (\<lambda>r. today_date (ur_timestamp r) = k) (lg_records L)) (summary_new k)"
proof -
  have "hm_get (ud_daily (ut_data (g_tracker g))) k = Some s"
    using assms by (simp add: hm_get_iff refines_daily(1) relevant_days_def)
  with refines_daily(2) [OF assms(1), of k] show ?thesis
    by (simp add: period_summary_def Let_def split: if_splits)
qed

lemma relevant_days_distinct:
  "usage_refines U L g \<Longrightarrow> distinct (map fst (relevant_days now days (g_tracker g)))"
  using refines_daily(1) by (auto simp: relevant_days_def hm_wf_def intro!: distinct_map_fst_filter)

context usage_counter
begin

lemma summary_day: "of_summary (fold (add_record fl) rs (summary_new k)) = u64_wrap (\<Sum>r\<leftarrow>rs. of_record r)"
  using summary_records [of "summary_new k" 0] by (simp add: summary_zero)

lemma provider_day:
  "entry_value of_provider (us_by_provider (fold (add_record fl) rs (summary_new k))) p
     = u64_wrap (\<Sum>r\<leftarrow>filter (\<lambda>r. ur_provider r = p) rs. of_record r)"
  using provider_records [of "summary_new k" p 0] by (simp add: summary_new_def entry_value_def)

lemma cost_totals:
  assumes R: "usage_refines U L g" "ledger_time L \<le> now" "now < four_digit_years" "days \<le> 365"
  defines "ds \<equiv> relevant_days now days (g_tracker g)"
  defines "acc \<equiv> fold (merge_summary (ua_fl U)) (map snd ds) (summary_new [])"
  shows "of_summary acc = u64_wrap (\<Sum>r\<leftarrow>billed now days None (lg_records L). of_record r)"
    "entry_value of_provider (us_by_provider acc) p = u64_wrap (\<Sum>r\<leftarrow>billed now days (Some p) (lg_records L). of_record r)"
proof -
  let ?rs = "\<lambda>k. filter (\<lambda>r. today_date (ur_timestamp r) = k) (lg_records L)"
  have s: "snd d = fold (add_record (ua_fl U)) (?rs (fst d)) (summary_new (fst d))" if "d \<in> set ds" for d
    using that relevant_day_summary [OF R(1), of "fst d" "snd d"] by (simp add: ds_def)
  have names: "\<forall>s\<in>set (map snd ds). by_name (us_by_provider s)"
    using s by (auto intro: by_name_records)
  have part: "(\<Sum>d\<leftarrow>ds. \<Sum>r\<leftarrow>filter (\<lambda>r. today_date (ur_timestamp r) = fst d) rs. of_record r)
      = (\<Sum>r\<leftarrow>filter (\<lambda>r. today_date (ur_timestamp r) \<in> set (map fst ds)) rs. of_record r)" for rs
    using sum_by_key [OF relevant_days_distinct [OF R(1)], where key = "\<lambda>r. today_date (ur_timestamp r)" and f = of_record]
    by (simp add: ds_def comp_def)
  have "of_summary acc = u64_wrap (\<Sum>s\<leftarrow>map snd ds. of_summary s)"
    unfolding acc_def using summaries_merged [of "summary_new []" 0] by (simp add: summary_zero)
  also have "(\<Sum>s\<leftarrow>map snd ds. of_summary s) = (\<Sum>d\<leftarrow>ds. u64_wrap (\<Sum>r\<leftarrow>?rs (fst d). of_record r))"
    unfolding map_map by (intro arg_cong [of _ _ sum_list] map_cong refl) (simp add: s summary_day)
  finally show "of_summary acc = u64_wrap (\<Sum>r\<leftarrow>billed now days None (lg_records L). of_record r)"
    using relevant_day_iff [OF R, folded ds_def] by (simp add: sum_list_wrap part billed_def cong: filter_cong)
  have "entry_value of_provider (us_by_provider acc) p = u64_wrap (\<Sum>s\<leftarrow>map snd ds. entry_value of_provider (us_by_provider s) p)"
    unfolding acc_def using providers_merged [OF names, of "summary_new []" p 0]
    by (simp add: summary_new_def entry_value_def)
  also have "(\<Sum>s\<leftarrow>map snd ds. entry_value of_provider (us_by_provider s) p)
      = (\<Sum>d\<leftarrow>ds. u64_wrap (\<Sum>r\<leftarrow>filter (\<lambda>r. today_date (ur_timestamp r) = fst d)
          (filter (\<lambda>r. ur_provider r = p) (lg_records L)). of_record r))"
    unfolding map_map by (intro arg_cong [of _ _ sum_list] map_cong refl) (simp add: s provider_day conj_commute)
  finally show "entry_value of_provider (us_by_provider acc) p = u64_wrap (\<Sum>r\<leftarrow>billed now days (Some p) (lg_records L). of_record r)"
    unfolding sum_list_wrap part using relevant_day_iff [OF R, folded ds_def]
    by (simp add: billed_def conj_commute cong: filter_cong conj_cong)
qed

end

interpretation in_tok: usage_counter ur_input_tokens us_input_tokens pu_input_tokens
  by unfold_locales (simp_all add: summary_new_def add_record_def merge_summary_def provider_new_def provider_add_def)

interpretation out_tok: usage_counter ur_output_tokens us_output_tokens pu_output_tokens
  by unfold_locales (simp_all add: summary_new_def add_record_def merge_summary_def provider_new_def provider_add_def)

interpretation reqs: usage_counter "\<lambda>_. 1" us_requests pu_requests
  by unfold_locales (simp_all add: summary_new_def add_record_def merge_summary_def provider_new_def provider_add_def)

subsection \<open>Runs\<close>

lemma record_times_Cons: "record_times (op # ops) = record_times [op] @ record_times ops"
  by (cases op) simp_all

lemma ledger_step_time:
  "ledger_time (ledger_step U J f op L) \<in> {ledger_time L, 0} \<union> set (record_times [op])"
  by (cases op) (simp_all add: ledger_time_def make_record_def)

lemma usage_run_refines:
  assumes "usage_refines U L g" "sorted (ledger_time L # record_times ops)" "\<forall>t\<in>set (record_times ops). t < four_digit_years"
  shows "usage_refines U (ledger_run U J f ops L) (usage_run U J f ops g) \<and>
    ledger_time (ledger_run U J f ops L) \<in> {ledger_time L, 0} \<union> set (record_times ops)"
  using assms
proof (induction ops arbitrary: L g)
  case (Cons op ops)
  let ?L = "ledger_step U J f op L"
  have s: "sorted (ledger_time L # record_times [op] @ record_times ops)" "\<forall>t\<in>set (record_times [op]). t < four_digit_years"
    "\<forall>t\<in>set (record_times ops). t < four_digit_years"
    using Cons.prems(2,3) unfolding record_times_Cons [of op ops] by auto
  then have "usage_refines U ?L (usage_step U J f op g)"
    by (intro usage_step_refines [OF Cons.prems(1)]) auto
  moreover have "sorted (ledger_time ?L # record_times ops)"
    using s(1) ledger_step_time [of U J f op L] by (auto simp: sorted_append)
  ultimately show ?case
    using Cons.IH [of ?L "usage_step U J f op g"] s(3) ledger_step_time [of U J f op L]
    unfolding record_times_Cons [of op ops] by (auto simp: ledger_run_def usage_run_def)
qed (simp add: ledger_run_def usage_run_def)

lemma fresh_refines: "usage_refines U ledger_fresh usage_fresh"
  by (simp add: usage_refines_def usage_fresh_def ledger_fresh_def tracker_new_def UsageData_default_def
      summaries_match_def period_summary_def)

lemma fresh_run:
  assumes "sorted (record_times ops)" "\<forall>t\<in>set (record_times ops). t < four_digit_years"
  shows "usage_refines U (ledger_run U J f ops ledger_fresh) (usage_run U J f ops usage_fresh)"
    "ledger_time (ledger_run U J f ops ledger_fresh) \<in> {0} \<union> set (record_times ops)"
  using usage_run_refines [OF fresh_refines, where U = U and ops = ops and J = J and f = f] assms by (auto simp: ledger_time_def ledger_fresh_def)

text \<open>
  C36: The tracker implements the ledger: after any sequence of records, price updates, enabling, disabling and resets whose
  records come in the order of the clock, the stored summary of a day is the summary of exactly the ledger's records
  of that day as long as the day lies within a year of the last record, that of a month likewise within 24 months, and
  there is none otherwise; the limits on the number of entries never drop one.
\<close>

theorem usage_summaries_exact:
  fixes ops :: "'j usage_op list"
  assumes "sorted (record_times ops)" "\<forall>t\<in>set (record_times ops). t < four_digit_years"
  shows "let L = ledger_run U J f ops ledger_fresh; d = ut_data (g_tracker (usage_run U J f ops usage_fresh))
    in hm_get (ud_daily d) k = period_summary (ua_fl U) today_date day_kept (lg_records L) (ledger_time L) k \<and>
       hm_get (ud_monthly d) k = period_summary (ua_fl U) current_month month_kept (lg_records L) (ledger_time L) k \<and>
       ud_enabled d = lg_enabled L"
  using fresh_run(1) [OF assms, of U J f] by (simp add: usage_refines_def summaries_match_def Let_def)

text \<open>
  C37: A cost query is exact: for a period of 1 to 365 days and an optional provider, the requests and tokens that
  \<^verbatim>\<open>usage.cost\<close> answers are, up to the wrap of 64-bit counters, those of the accepted records of that provider on the
  days that begin within the period, no record missed or counted twice.
\<close>

theorem usage_cost_exact:
  fixes ops :: "'j usage_op list"
  assumes "sorted (record_times ops)" "\<forall>t\<in>set (record_times ops). t \<le> env_now e" "env_now e < four_digit_years"
    and "param_session_key J params = None"
    and "Option.bind (param J params ''days'') as_i64 = Some days" "1 \<le> days" "days \<le> 365"
    and "Option.bind (param J params ''provider'') (j_as_str J) = provider"
  shows "let r = handle_usage_cost U J as_i64 e params (usage_run U J f ops usage_fresh);
             rs = billed (env_now e) (nat days) provider (lg_records (ledger_run U J f ops ledger_fresh))
         in cr_requests r = u64_wrap (length rs) \<and>
            cr_input_tokens r = u64_wrap (\<Sum>x\<leftarrow>rs. ur_input_tokens x) \<and>
            cr_output_tokens r = u64_wrap (\<Sum>x\<leftarrow>rs. ur_output_tokens x)"
proof -
  let ?g = "usage_run U J f ops usage_fresh" and ?L = "ledger_run U J f ops ledger_fresh"
  have small: "\<forall>t\<in>set (record_times ops). t < four_digit_years" using assms(2,3) by auto
  note R = fresh_run [OF assms(1) small, of U J f]
  have time: "ledger_time ?L \<le> env_now e" using R(2) assms(2) by auto
  have d: "nat days \<le> 365" using assms(7) by simp
  note T = in_tok.cost_totals [OF R(1) time assms(3) d] out_tok.cost_totals [OF R(1) time assms(3) d]
    reqs.cost_totals [OF R(1) time assms(3) d]
  have names: "by_name (us_by_provider (fold (merge_summary (ua_fl U)) (map snd (relevant_days (env_now e) (nat days) (g_tracker ?g))) (summary_new [])))"
    by (rule by_name_summaries) simp
  show ?thesis
  proof (cases provider)
    case None
    with assms(4-8) T show ?thesis
      by (simp add: handle_usage_cost_def cost_breakdown_def relevant_days_def [symmetric] Let_def sum_list_triv)
  next
    case (Some p)
    with assms(4-8) T(2,4,6) [of p] by_name_filter [OF names, of p] show ?thesis
      by (auto simp: handle_usage_cost_def cost_breakdown_def relevant_days_def [symmetric] Let_def sum_list_triv
          totals_from_providers_def entry_value_def split: option.splits prod.splits)
  qed
qed

subsection \<open>What pruning drops\<close>

lemma fold_remove: "fold hm_remove ks m = filter (\<lambda>(k, v). k \<notin> set ks) m"
proof (induction ks arbitrary: m)
  case (Cons k ks)
  have "hm_remove k m = filter (\<lambda>(k', v). k \<noteq> k') m"
    by (simp add: hm_remove_def AList.delete_eq case_prod_unfold)
  with Cons.IH show ?case by (auto simp: case_prod_unfold intro: filter_cong)
qed simp

lemma drop_first_spec:
  assumes "hm_wf m" "distinct keys" "set keys = set (map fst m)" "0 < limit"
  shows "length (drop_first limit m keys) = min limit (length m)"
    "\<And>k. hm_get (drop_first limit m keys) k = (if k \<in> set (take (length m - limit) keys) then None else hm_get m k)"
proof -
  let ?ks = "set (take (length m - limit) keys)"
  have len: "length keys = length m"
    using assms(1-3) distinct_card [OF assms(2)] distinct_card [OF assms(1) [unfolded hm_wf_def]] by simp
  have eq: "drop_first limit m keys = filter (\<lambda>(k, v). k \<notin> ?ks) m"
    using assms(4) by (auto simp: drop_first_def fold_remove case_prod_unfold)
  have "card (set (map fst m) \<inter> - ?ks) = length m - (length m - limit)"
    using assms(1-3) len distinct_card [OF assms(2)] card_Diff_subset [of ?ks "set keys"] set_take_subset [of "length m - limit" keys]
    by (simp add: Diff_eq [symmetric] distinct_card distinct_take)
  moreover have "length (filter (\<lambda>(k, v). k \<notin> ?ks) m) = card (set (map fst m) \<inter> - ?ks)"
  proof -
    have "map fst (filter (\<lambda>(k, v). k \<notin> ?ks) m) = filter (\<lambda>k. k \<notin> ?ks) (map fst m)"
      by (simp add: filter_map comp_def case_prod_unfold)
    then have "length (filter (\<lambda>(k, v). k \<notin> ?ks) m) = length (filter (\<lambda>k. k \<notin> ?ks) (map fst m))"
      by (metis length_map)
    also have "\<dots> = card (set (filter (\<lambda>k. k \<notin> ?ks) (map fst m)))"
      using assms(1) by (intro distinct_card [symmetric] distinct_filter) (simp add: hm_wf_def)
    also have "set (filter (\<lambda>k. k \<notin> ?ks) (map fst m)) = set (map fst m) \<inter> - ?ks" by auto
    finally show ?thesis .
  qed
  ultimately show "length (drop_first limit m keys) = min limit (length m)" by (simp add: eq min_def)
  show "hm_get (drop_first limit m keys) k = (if k \<in> ?ks then None else hm_get m k)" for k
    unfolding eq using assms(1) by (simp add: hm_get_def hm_wf_def map_of_filter_distinct split: bind_split)
qed

definition session_order :: "(string, SessionUsage) hmap \<Rightarrow> string list" where
  "session_order m = map snd (sort (map (\<lambda>(key, u). (se_last_used_at u, key)) m))"

lemma session_order_keys:
  assumes "hm_wf m"
  shows "distinct (session_order m)" "set (session_order m) = set (map fst m)"
proof -
  have "mset (session_order m) = mset (map fst m)"
    by (simp add: session_order_def case_prod_unfold multiset.map_comp comp_def)
  from mset_eq_imp_distinct_iff [OF this] mset_eq_setD [OF this] assms
  show "distinct (session_order m)" "set (session_order m) = set (map fst m)" by (simp_all add: hm_wf_def)
qed

lemma prune_sessions_bounded:
  fixes now :: u64
  assumes "hm_wf m"
  defines "m' \<equiv> prune_sessions now DEFAULT_USAGE_RETENTION m"
  shows "length m' \<le> 1000"
    and "hm_get m i = Some u \<Longrightarrow> hm_get m' i = None \<Longrightarrow>
      se_last_used_at u < now - 90 * 86400000 \<or>
      length m' = 1000 \<and> (\<forall>j v. hm_get m' j = Some v \<longrightarrow> (se_last_used_at u, i) < (se_last_used_at v, j))"
proof -
  let ?cut = "now - 90 * 86400000"
  define kept where "kept = hm_retain (\<lambda>_ u. ?cut \<le> se_last_used_at u) m"
  have wf: "hm_wf kept" unfolding kept_def by (rule hm.wf_ret [OF assms(1)])
  have m': "m' = drop_first 1000 kept (session_order kept)"
    by (simp add: m'_def prune_sessions_def DEFAULT_USAGE_RETENTION_def retention_cutoff_def u64_saturating_sub_def
        u64_saturating_mul_def DAY_MS_def u64_max_def kept_def session_order_def Let_def)
  note D = drop_first_spec [OF wf session_order_keys [OF wf], of 1000, folded m']
  then show "length m' \<le> 1000" by simp
  assume u: "hm_get m i = Some u" "hm_get m' i = None"
  show "se_last_used_at u < ?cut \<or>
    length m' = 1000 \<and> (\<forall>j v. hm_get m' j = Some v \<longrightarrow> (se_last_used_at u, i) < (se_last_used_at v, j))"
  proof (cases "se_last_used_at u < ?cut")
    case False
    then have i: "hm_get kept i = Some u" using u(1) by (simp add: kept_def hm.get_ret [OF assms(1)])
    let ?n = "length kept - 1000" and ?xs = "sort (map (\<lambda>(key, u). (se_last_used_at u, key)) kept)"
    from i u(2) D(2) [of i] have ti: "i \<in> set (take ?n (session_order kept))" by (auto split: if_splits)
    then have "0 < ?n" by (cases ?n) simp_all
    then have "length m' = 1000" using D(1) by simp
    moreover have "(se_last_used_at u, i) < (se_last_used_at v, j)" if j: "hm_get m' j = Some v" for j v
    proof -
      have kj: "hm_get kept j = Some v" "j \<notin> set (take ?n (session_order kept))"
        using j D(2) [of j] by (auto split: if_splits)
      have key: "(a, k) \<in> set ?xs \<Longrightarrow> hm_get kept k = Some w \<Longrightarrow> a = se_last_used_at w" for a k w
        by (auto simp: hm_get_iff [OF wf, symmetric])
      obtain a where "(a, i) \<in> set (take ?n ?xs)" using ti by (auto simp: session_order_def take_map)
      with key [of a i u] i have x: "(se_last_used_at u, i) \<in> set (take ?n ?xs)" by (metis in_set_takeD)
      have "(se_last_used_at v, j) \<in> set ?xs" using hm_get_in [OF kj(1)] by force
      moreover have "(se_last_used_at v, j) \<notin> set (take ?n ?xs)"
        using kj(2) by (force simp: session_order_def take_map)
      ultimately have y: "(se_last_used_at v, j) \<in> set (drop ?n ?xs)"
        by (metis Un_iff append_take_drop_id set_append)
      have "sorted (take ?n ?xs @ drop ?n ?xs)" by simp
      with x y have "(se_last_used_at u, i) \<le> (se_last_used_at v, j)" unfolding sorted_append by blast
      moreover have "i \<noteq> j" using kj(2) ti by blast
      ultimately show ?thesis by (simp add: less_le)
    qed
    ultimately show ?thesis by blast
  qed simp
qed

lemma drop_sorted_length:
  "hm_wf m \<Longrightarrow> 0 < limit \<Longrightarrow> length (drop_first limit m (sort (map fst m))) \<le> limit"
  by (subst drop_first_spec) (simp_all add: hm_wf_def distinct_sort)

lemma prune_lengths:
  assumes "hm_wf m"
  shows "length (prune_daily now DEFAULT_USAGE_RETENTION m) \<le> 400" "length (prune_monthly now DEFAULT_USAGE_RETENTION m) \<le> 36"
  using assms
  by (auto simp: prune_daily_def prune_monthly_def DEFAULT_USAGE_RETENTION_def Let_def hm.wf_ret
      intro!: drop_sorted_length split: option.split)

text \<open>
  C38: Recording keeps the store small whatever it held: at most 400 days, 36 months and 1000 sessions, and a session that
  loses its totals had been idle for 90 days or gives way to 1000 sessions that were all used later.
\<close>

theorem usage_store_bounded:
  assumes "ud_enabled (ut_data t)" "hm_wf (ud_daily (ut_data t))" "hm_wf (ud_monthly (ut_data t))" "hm_wf (ud_sessions (ut_data t))"
  shows "let d = ut_data (tracker_record U pricing now p m key i out t);
             ss = ud_sessions (apply_record U (make_record U pricing now p m key i out) (ut_data t))
         in length (ud_daily d) \<le> 400 \<and> length (ud_monthly d) \<le> 36 \<and> length (ud_sessions d) \<le> 1000 \<and>
            (\<forall>s u. hm_get ss s = Some u \<and> hm_get (ud_sessions d) s = None \<longrightarrow>
               se_last_used_at u < now - 90 * 86400000 \<or>
               length (ud_sessions d) = 1000 \<and>
               (\<forall>s' u'. hm_get (ud_sessions d) s' = Some u' \<longrightarrow> (se_last_used_at u, s) < (se_last_used_at u', s')))"
proof -
  let ?r = "make_record U pricing now p m key i out"
  let ?d = "ut_data (tracker_record U pricing now p m key i out t)" and ?ss = "ud_sessions (apply_record U ?r (ut_data t))"
  have s: "ud_sessions ?d = prune_sessions now DEFAULT_USAGE_RETENTION ?ss"
    using assms(1) by (simp add: tracker_record_def prune_data_def prune_data_with_limits_def Let_def)
  have "hm_wf ?ss" using assms(4) by (auto simp: apply_record_def Let_def entry_update_wf split: option.split)
  note S = prune_sessions_bounded [OF this, where now = now, folded s]
  have "length (ud_daily ?d) \<le> 400" "length (ud_monthly ?d) \<le> 36"
    unfolding tracker_record_data [OF assms(1) refl] by (intro prune_lengths entry_update_wf assms(2,3))+
  with S show ?thesis unfolding Let_def by blast
qed

text \<open>A small deployment: exact arithmetic, texts as they are.\<close>

definition ex_usage_api :: usage_api where
  "ex_usage_api = \<lparr>ua_fl = (\<lambda>x. x), ua_lower = (\<lambda>s. s), ua_sha256_hex = (\<lambda>s. s)\<rparr>"

definition ex_at :: "u64 \<Rightarrow> env" where
  "ex_at now = \<lparr>env_now = now, env_uuid = [], env_fault = None\<rparr>"

text \<open>Two records on the leap day of 1972, one after midnight.\<close>

definition ex_usage_ops :: "ex_json usage_op list" where
  "ex_usage_ops =
     [Record_usage (ex_at 68255000000) ''p'' ''m'' None 10 5, Record_usage (ex_at 68255999999) ''q'' ''m'' None 20 6,
      Record_usage (ex_at 68256000000) ''p'' ''m'' (Some ''k'') 40 7]"

lemmas ex_usage_eval = ex_usage_ops_def ex_at_def ex_usage_api_def ledger_run_def ledger_fresh_def make_record_def

lemma ex_dates [simp]:
  "today_date 68255000000 = ''1972-02-29''" "today_date 68255999999 = ''1972-02-29''" "today_date 68256000000 = ''1972-03-01''"
  by (simp_all add: today_date_def civil_date_def find_year.simps find_month.simps days_in_year_def days_in_month_def
      is_leap_year_def format_date_def) code_simp+

theorem usage_summaries_exact_witness:
  "map_option (\<lambda>s. (us_requests s, us_input_tokens s, us_output_tokens s))
     (hm_get (ud_daily (ut_data (g_tracker (usage_run ex_usage_api ex_json_api (\<lambda>_. None) ex_usage_ops usage_fresh)))) ''1972-02-29'')
   = Some (2, 30, 11)"
proof -
  have "day_kept 68256000000 ''1972-02-29''"
    using date_kept_days [of 68255000000 68256000000] by (simp add: four_digit_years_def day_of_def)
  then show ?thesis
    using usage_summaries_exact [of ex_usage_ops ex_usage_api ex_json_api "\<lambda>_. None" "''1972-02-29''"]
    by (simp add: ex_usage_eval four_digit_years_def period_summary_def ledger_time_def Let_def
        add_record_def summary_new_def u64_add_def u64_max_def)
qed

theorem usage_cost_exact_witness:
  "let ask = (\<lambda>params. handle_usage_cost ex_usage_api ex_json_api (\<lambda>v. case v of Num n \<Rightarrow> Some (int n) | _ \<Rightarrow> None)
               (ex_at 68256001000) (Some (Obj params)) (usage_run ex_usage_api ex_json_api (\<lambda>_. None) ex_usage_ops usage_fresh))
   in cr_requests (ask [(''days'', Num 2)]) = 3 \<and> cr_requests (ask [(''days'', Num 1)]) = 1 \<and>
      cr_input_tokens (ask [(''days'', Num 2), (''provider'', Txt ''p'')]) = 50"
  using usage_cost_exact [of ex_usage_ops "ex_at 68256001000" ex_json_api "Some (Obj [(''days'', Num 2)])"
      "\<lambda>v. case v of Num n \<Rightarrow> Some (int n) | _ \<Rightarrow> None" 2 None ex_usage_api "\<lambda>_. None"]
    usage_cost_exact [of ex_usage_ops "ex_at 68256001000" ex_json_api "Some (Obj [(''days'', Num 1)])"
      "\<lambda>v. case v of Num n \<Rightarrow> Some (int n) | _ \<Rightarrow> None" 1 None ex_usage_api "\<lambda>_. None"]
    usage_cost_exact [of ex_usage_ops "ex_at 68256001000" ex_json_api "Some (Obj [(''days'', Num 2), (''provider'', Txt ''p'')])"
      "\<lambda>v. case v of Num n \<Rightarrow> Some (int n) | _ \<Rightarrow> None" 2 "Some ''p''" ex_usage_api "\<lambda>_. None"]
  by (simp add: ex_usage_eval four_digit_years_def ex_json_api_def param_def param_session_key_def billed_def
      u64_wrap_def u64_max_def Let_def)

theorem usage_store_bounded_witness:
  "let d = ut_data (tracker_record ex_usage_api PricingConfig_default 68256000000 ''p'' ''m'' (Some ''k'') 1 1 (tracker_new None))
   in length (ud_daily d) \<le> 400 \<and> length (ud_monthly d) \<le> 36 \<and> length (ud_sessions d) \<le> 1000"
  using usage_store_bounded [of "tracker_new None" ex_usage_api PricingConfig_default 68256000000 "''p''" "''m''" "Some ''k''" 1 1]
  by (simp add: tracker_new_def UsageData_default_def Let_def)

text \<open>
  The daily list of a query with a provider is not limited to the period: one day back, the query counts no request and
  still lists the day before.
\<close>

lemma provider_daily_beyond_period:
  "let r = handle_usage_cost ex_usage_api ex_json_api (\<lambda>v. case v of Num n \<Rightarrow> Some (int n) | _ \<Rightarrow> None) (ex_at 68256001000)
       (Some (Obj [(''days'', Num 1), (''provider'', Txt ''q'')]))
       (usage_run ex_usage_api ex_json_api (\<lambda>_. None) [Record_usage (ex_at 68255999999) ''q'' ''m'' None 20 6] usage_fresh)
   in cr_requests r = 0 \<and> map dc_date (cr_daily r) = [''1972-02-29'']"
proof -
  have r: "date_within_range ''1972-02-29'' c \<longleftrightarrow> c \<le> 68169600000" for c
    using range_check_day [of 68255999999 c] by (simp add: u64_max_def day_of_def)
  show ?thesis
    by (simp add: usage_run_def record_usage_def tracker_record_def prune_data_def prune_data_with_limits_def Let_def
        apply_record_def make_record_def usage_fresh_def tracker_new_def UsageData_default_def ex_at_def ex_usage_api_def
        handle_usage_cost_def cost_breakdown_def param_def param_session_key_def ex_json_api_def cost_cutoff_days
        prune_daily_def DEFAULT_USAGE_RETENTION_def drop_first_def entry_update_def hm_eval r retention_cutoff_def
        u64_saturating_sub_def u64_saturating_mul_def DAY_MS_def u64_max_def summary_new_def totals_from_providers_def
        provider_daily_costs_def tracker_daily_summaries_def newest_first_def add_record_def map_filter_simps)
qed

end
