(* ===== verification/Spec2Isabelle.thy ===== *)
theory Spec2Isabelle
  imports Node_Pairing Device_Pairing Task_Lifecycle Exec_Approvals Delivery_Worker Cron_Lifecycle
    Rate_Limiter Channel_Registry Session_Scoping Log_Buffer Csrf_Guard Plugin_Host
    Connection_Limits Session_Archive Usage_Accounts Agent_Context Agent_Runs
begin

text \<open>
  A verification library of Carapace, a gateway daemon that connects chat channels, paired nodes
  and paired devices to language-model agents. It models the stateful cores of the daemon, the parts
  that decide who is trusted and whether work is lost or done twice, and proves what makes them
  correct.

  \<^bold>\<open>Theories.\<close>

  \<^item> \<open>Carapace_Prelude\<close>: machine integers, text, extremal elements, hash maps (as association lists
    with distinct keys behind the locale \<open>keyed_store\<close>), runs of operations (the locales
    \<open>invariant_machine\<close> and \<open>credential_machine\<close>) and the write-then-rename discipline of state
    files, used by every component.
  \<^item> \<open>Pairing_Tables\<close>: what the tables of the two pairing registries have in common, with the
    contract of a token table as the locale \<open>token_table\<close>.
  \<^item> \<open>Node_Pairing\<close>: the node registry, \<^verbatim>\<open>src/nodes/mod.rs\<close>. The record \<open>NodePairingStore\<close> is the
    struct of the same name, \<open>NodePairingRegistry\<close> adds the state file; there is one definition per
    method (\<open>request_pairing_with_builder\<close>, \<open>approve_request\<close>, \<open>verify_token\<close>, \<open>unpair_node\<close>, ...).
  \<^item> \<open>Device_Pairing\<close>: the device registry, \<^verbatim>\<open>src/devices/mod.rs\<close>, in the same way, with roles, scopes,
    token rotation and the constant-time comparison.
  \<^item> \<open>Task_Queue\<close>: the durable task queue, \<^verbatim>\<open>src/tasks/mod.rs\<close>: data, operations, the state machine of
    one task (\<open>task_transition\<close>), the invariant \<open>queue_wf\<close> and its preservation.
  \<^item> \<open>Task_Lifecycle\<close>: properties of that queue over its life.
  \<^item> \<open>Exec_Approvals\<close>: approval of command execution, \<^verbatim>\<open>src/exec/mod.rs\<close>, with the one-shot channels
    on which callers wait; \<^verbatim>\<open>wait_for_decision\<close> is split at its await points into \<open>wait_begin\<close>,
    \<open>wait_result\<close> and \<open>wait_cleanup\<close>, so that theorems cover every interleaving.
  \<^item> \<open>Outbound_Pipeline\<close>: the outbound message pipeline, \<^verbatim>\<open>src/messages/outbound.rs\<close>: channel queues,
    the message table, idempotency keys, time-to-live, retry deadlines; \<open>Outbound_Lifecycle\<close>: its
    invariant (\<open>pipe_inv\<close>, on the look-up functions of the maps) and its properties.
  \<^item> \<open>Delivery_Worker\<close>: one pass of the delivery worker, \<^verbatim>\<open>src/messages/delivery.rs\<close>, over the pipeline,
    with the result types of \<^verbatim>\<open>src/plugins/bindings.rs\<close>; plugins, the message hook and the connection
    state are the record \<open>world\<close>.
  \<^item> \<open>Rust_Text\<close> and \<open>Net_Address\<close>: what the code uses of the standard library on strings (splitting,
    trimming, reading numbers) and on IP addresses (classification, conversion, parsing).
  \<^item> \<open>Cron_Expr\<close>: cron expressions and schedules of \<^verbatim>\<open>src/cron/mod.rs\<close>: the parser (\<open>CronExpr_parse\<close>), the
    search for the next run in UTC and in a time zone, \<open>compute_next_run\<close>; \<open>Cron_Scheduler\<close>: the job table
    with its operations, eviction, jobs file and clock-jump detection; \<open>Cron_Lifecycle\<close>: the tick of
    \<^verbatim>\<open>src/cron/tick.rs\<close>, the invariant over runs, and the refinement of an abstract job table.
  \<^item> \<open>Gateway_Auth\<close>: authorisation of gateway connections and resolution of client addresses,
    \<^verbatim>\<open>src/auth/mod.rs\<close>.
  \<^item> \<open>Rate_Limiter\<close>: token buckets, the HTTP limiter and the limiter of WebSocket messages,
    \<^verbatim>\<open>src/server/ratelimit.rs\<close>.
  \<^item> \<open>Channel_Registry\<close>: status of the chat channels, \<^verbatim>\<open>src/channels/mod.rs\<close>.
  \<^item> \<open>Tool_Policy\<close>: which tools an agent may use, \<^verbatim>\<open>src/agent/tool_policy.rs\<close> and
    \<^verbatim>\<open>src/agent/exfiltration.rs\<close>; \<open>Session_Scoping\<close>: session keys, reset policies and retention settings,
    \<^verbatim>\<open>src/sessions/scoping.rs\<close> and \<^verbatim>\<open>src/sessions/retention.rs\<close>.
  \<^item> \<open>Log_Buffer\<close>: the ring buffer of log entries, \<^verbatim>\<open>src/logging/buffer.rs\<close>, and the handler \<^verbatim>\<open>logs.tail\<close> of
    \<^verbatim>\<open>src/server/ws/handlers/logs.rs\<close>.
  \<^item> \<open>Csrf_Guard\<close>: the guard against cross-site requests, \<^verbatim>\<open>src/server/csrf.rs\<close>: the token store, the origin
    check, the middleware and the cookies of the control page.
  \<^item> \<open>Plugin_Capabilities\<close>: what a plugin may ask of the host, \<^verbatim>\<open>src/plugins/capabilities.rs\<close>: quotas, name
    spaces, private addresses, URLs; \<open>Plugin_Permissions\<close>: URL and key patterns, \<^verbatim>\<open>src/plugins/permissions.rs\<close>;
    \<open>Plugin_Host\<close>: the host functions that compose them, \<^verbatim>\<open>src/plugins/host.rs\<close>.
  \<^item> \<open>Connection_Limits\<close>: the tracker of WebSocket connections, \<^verbatim>\<open>src/server/ws/limits.rs\<close>, whose atomic actions
    interleave (\<open>conn_step\<close>).
  \<^item> \<open>Session_Disk\<close>: the file system as the session store uses it, with a schedule of faults: each access may
    fail, and a write that fails may leave a prefix of its bytes. Actions are state transformers with an error
    result; relations that every step keeps are the locale \<open>state_relation\<close>, partial correctness is \<open>holds\<close>.
  \<^item> \<open>Session_Integrity\<close>: HMAC sidecars, \<^verbatim>\<open>src/sessions/integrity.rs\<close>; \<open>Session_Crypto\<close>: encrypted payloads,
    \<^verbatim>\<open>src/sessions/crypto.rs\<close>.
  \<^item> \<open>Session_Data\<close> and \<open>Session_Store\<close>: the session store, \<^verbatim>\<open>src/sessions/store.rs\<close>: its data, codecs and paths,
    and one definition per operation on the record \<open>SessionStore\<close> (caches and directory). \<open>Session_Example\<close> gives
    a concrete codec and cipher; \<open>Session_History\<close>, \<open>Session_Inbound\<close>, \<open>Session_Compaction\<close>, \<open>Session_Isolation\<close> and
    \<open>Session_Archive\<close> hold what is shown of appends, deduplication, compaction, operations on other sessions and archives.
  \<^item> \<open>Usage_Calendar\<close>, \<open>Usage_Tracker\<close> and \<open>Usage_Queries\<close>: usage accounting, \<^verbatim>\<open>src/usage/mod.rs\<close>, with its hand-written
    calendar, prices, summaries and retention, and the handlers of \<^verbatim>\<open>src/server/ws/handlers/usage.rs\<close>; \<open>Usage_Ledger\<close> and
    \<open>Usage_Accounts\<close>: the ledger it implements (locales \<open>usage_window\<close>, interpreted for days and months, and
    \<open>usage_counter\<close>, for the three counters).

  \<^bold>\<open>How the model corresponds to the code.\<close> A method that mutates the object behind its lock is a
  function from the old to the new state; its result type is a sum or an option where the method
  returns \<^verbatim>\<open>Result\<close> or \<^verbatim>\<open>Option\<close>, and every early return is a branch. Locks make each method atomic,
  so a concurrent history is a sequence of operations; theorems over \<open>fold\<close> of a step function
  quantify over all of them. The clock, fresh identifiers and the failure of a write come from the
  record \<open>env\<close>, an argument of each operation; an operation reads the clock once. SHA-256, the JSON
  codec, the bounded file reader, the task executor, the calendar and time zones of \<^verbatim>\<open>chrono\<close> (a record of
  functions with the laws \<open>chrono_ok\<close>), HTTP header maps, \<^verbatim>\<open>tailscale whois\<close>, access to JSON values, the regular
  expression engine (with \<open>regex_ok\<close>, what it promises for literals and classes), the URL parser, the name server, the
  rounding of double precision (\<open>f64_ok\<close>), and for the session store HMAC and hexadecimal coding (\<open>digest_ok\<close>),
  AES-GCM with its key derivation (\<open>cipher_ok\<close>) and the codecs of its files (\<open>codec_ok\<close>) are parameters. Identifiers from
  \<^verbatim>\<open>Uuid::new_v4\<close> are arbitrary strings; where freshness matters it is a side condition
  (\<open>task_op_ok\<close> and its likes), never an assumption built into a definition. Log output is not
  modelled.

  \<^bold>\<open>What is shown.\<close> Node and device registries: every run keeps the invariant (keys agree with
  entries, no plain token is stored, live tokens belong to paired peers, limits hold); a token
  stays refused for good after the peer is unpaired or the token rotated; approval succeeds only
  for a pending request that has not expired, and its token is accepted until its expiry; a request
  is resolved once; acceptance implies every check on device, role and scope; the state file changes
  atomically. Task queue: the invariant over runs, no unfinished task is lost, done tasks are never
  claimed again, claims partition the due tasks in order, a worker cycle, crash recovery, retry
  timing, eviction, the wire names and the statistics; also that a retry outcome revives a task
  cancelled while it ran. Exec approvals: no decision is invented, a decision reaches its caller,
  each request is decided once, clean-up is exact; also that a reused identifier defeats both
  callers. Outbound pipeline and worker: queues, table and counters stay consistent; queueing is
  idempotent under a key for 24 hours; messages are handed out strictly in queue order (the scan's
  early exit agrees with the specification); completed messages are never handed out again; attempts
  stay within the retry budget; each attempt settles its message; composite messages go out in order
  up to the first failure; also that a cancellation can come too late unnoticed. Cron: the parser returns
  on every text and its sets are well-typed; the search finds exactly the first matching minute; next
  runs lie in the future; a repeated local hour fires once; the scheduler keeps its limits over every
  run and refines an abstract job table; a tick starts each due job once; a clock jump fires nothing;
  a restart gives every job back; also that a leap-day schedule is lost, that a huge interval wraps into
  the past and that a half-hour change of the clock fires twice. Gateway: a request is authorised only for
  a stated reason, and a client address cannot be forged past a peer that is no trusted proxy. Rate
  limiter: over any interval the requests that pass are bounded by burst and rate, with the rounding of
  the token counts and the clean-up of idle buckets taken into account. Channel registry: error texts only
  in the error state. Sessions: keys of different channels or senders never coincide; resets are monotone.
  Tools: the list shown to the model agrees with the check at the call. Log buffer: it refines the log that
  keeps everything, and a reply of \<^verbatim>\<open>logs.tail\<close> is bounded. Cross-site guard: a state-changing request passes
  only from a trusted origin with the token of its session; also that the second load of the control page
  hands out a token that is refused. Plugins: quotas hold in every window of a minute, name spaces of
  different plugins are disjoint, the address filter is membership in the listed networks, URL patterns
  confine the host the parser sees, and a request connects only to an address outside those networks.
  Connections: in every interleaving the live ones stay within both limits, and closed ones give their slots
  back. Session store: a sealed file whose replacement is interrupted anywhere still verifies; acknowledged
  appends are read back in order with any configuration, after any faults; an inbound event is stored once
  however often it is delivered; compaction keeps the recent messages and the memory of every event;
  operations on one session leave the histories of the others alone; an archive holds the whole history and
  restoring gives it back; also that a torn append is refused by the next verification and that deleting a session
  leaves its archive behind. Usage: dates as texts agree with the clock; daily and monthly summaries are those of exactly
  the accepted records of their period within the retention window; a cost query counts exactly the records of its period
  and provider; the store stays within its limits and drops the sessions least recently used; also that the daily list of
  a query by provider reaches back before its period.

  \<^bold>\<open>Bounds.\<close> Every loop but one is structural recursion over the data the code iterates, so no fuel is
  used; the search for the next run counts down the 2,100,000 minutes the code allows. The loop that expands
  a range of a cron field with machine arithmetic is \<open>expand_loop\<close>, a partial function with values in
  \<open>option\<close>, and it is proved to return. Millisecond clocks are natural numbers; sums that the code saturates or lets wrap are written so.

  \<^bold>\<open>Not modelled, and the plan.\<close> The async wrappers of the task queue (they only move the same
  operations to other threads) and the pruning of corrupt queue backups; the outer loop of the delivery
  worker, which only waits for wake-ups; the execution of cron payloads and the WebSocket handlers that
  edit cron jobs; the capture of tracing events for the log buffer; reading of fractional retry delays.
  In the session store the lock files, the checks for symbolic links and the creation of the encryption manifest
  from a password. Candidates for extension: the cron handlers, hook authentication, link
  filters. Left out: transport and routing, model providers, chat
  service clients, the WebAssembly runtime, keychains, TLS, the command line, onboarding, migration and
  update, whose behaviour is that of I/O and third-party code.
\<close>

end
